(* ===== verification/Prelude.thy ===== *)
theory Prelude
  imports Main "HOL-Library.Word"
begin

text \<open>
  Shared vocabulary of the development: the byte and string types, the result type of
  fallible operations, big-endian numerals as \<open>math/big\<close> reads and writes them, left
  padding as \<open>copy(dst[n-len(src):], src)\<close> does it, Go's string helpers, and the three
  interfaces the components are measured against:
  \<^item> \<open>codec\<close>: an encoder with a decoder that inverts it (hex, base64, RLP, DER);
  \<^item> \<open>invariant_machine\<close>: a step function with an invariant, lifted to runs;
  \<^item> \<open>key_value\<close>: lookup, insert and delete with the laws of a finite map.
\<close>

unbundle bit_operations_syntax

section \<open>Types\<close>

type_synonym byte = "8 word"
type_synonym bytes = "byte list"
type_synonym u64 = "64 word"

text \<open>Named collections: facts about bytes and big-endian numerals, and result splits.\<close>

named_theorems byte_simps
named_theorems res_defs

section \<open>Fallible operations\<close>

text \<open>
  A Go function returning \<open>(T, error)\<close> is a value of \<open>'e + 'a\<close>: \<open>Inl\<close> the error, \<open>Inr\<close>
  the value.
\<close>

fun res_bind :: "'e + 'a \<Rightarrow> ('a \<Rightarrow> 'e + 'b) \<Rightarrow> 'e + 'b" where
  "res_bind (Inl e) f = Inl e"
| "res_bind (Inr a) f = f a"

lemma res_bind_Inr [simp]: "res_bind r f = Inr b \<longleftrightarrow> (\<exists>a. r = Inr a \<and> f a = Inr b)"
  by (cases r) auto

lemma res_bind_Inl: "res_bind r f = Inl e \<longleftrightarrow> r = Inl e \<or> (\<exists>a. r = Inr a \<and> f a = Inl e)"
  by (cases r) auto

definition of_option :: "'e \<Rightarrow> 'a option \<Rightarrow> 'e + 'a" where
  "of_option e x = (case x of None \<Rightarrow> Inl e | Some a \<Rightarrow> Inr a)"

lemma of_option_simps [simp]: "of_option e None = Inl e" "of_option e (Some a) = Inr a"
  by (simp_all add: of_option_def)

lemma of_option_Inr [simp]: "of_option e x = Inr a \<longleftrightarrow> x = Some a"
  by (cases x) auto

lemma of_option_Inl [simp]: "of_option e x = Inl e' \<longleftrightarrow> x = None \<and> e' = e"
  by (cases x) auto

text \<open>Decoding a list element by element, failing at the first element that fails.\<close>

fun map_res :: "('a \<Rightarrow> 'b option) \<Rightarrow> 'a list \<Rightarrow> 'b list option" where
  "map_res f [] = Some []"
| "map_res f (x # xs) =
     (case f x of None \<Rightarrow> None
      | Some y \<Rightarrow> (case map_res f xs of None \<Rightarrow> None | Some ys \<Rightarrow> Some (y # ys)))"

lemma map_res_map: "(\<And>x. x \<in> set xs \<Longrightarrow> f (g x) = Some x) \<Longrightarrow> map_res f (map g xs) = Some xs"
  by (induction xs) auto

lemma map_res_length: "map_res f xs = Some ys \<Longrightarrow> length ys = length xs"
  by (induction xs arbitrary: ys) (auto split: option.splits)

section \<open>Go string helpers\<close>

definition trim_prefix :: "'a list \<Rightarrow> 'a list \<Rightarrow> 'a list" where
  "trim_prefix p s = (if take (length p) s = p then drop (length p) s else s)"

definition has_prefix :: "'a list \<Rightarrow> 'a list \<Rightarrow> bool" where
  "has_prefix p s = (take (length p) s = p)"

definition trim_suffix :: "'a list \<Rightarrow> 'a list \<Rightarrow> 'a list" where
  "trim_suffix p s =
     (if length p \<le> length s \<and> drop (length s - length p) s = p
      then take (length s - length p) s else s)"

lemma trim_prefix_append [simp]: "trim_prefix p (p @ s) = s"
  by (simp add: trim_prefix_def)

lemma has_prefix_append [simp]: "has_prefix p (p @ s)"
  by (simp add: has_prefix_def)

lemma trim_prefix_has: "has_prefix p s \<Longrightarrow> p @ trim_prefix p s = s"
  by (metis append_take_drop_id has_prefix_def trim_prefix_def)

section \<open>Big-endian numerals\<close>

text \<open>
  \<open>be_nat\<close> is \<open>new(big.Int).SetBytes\<close>, \<open>nat_be\<close> is \<open>big.Int.Bytes\<close>: the minimal big-endian
  bytes, empty for 0.
\<close>

definition be_nat :: "bytes \<Rightarrow> nat" where
  "be_nat bs = foldl (\<lambda>acc b. acc * 256 + unat b) 0 bs"

fun nat_be :: "nat \<Rightarrow> bytes" where
  "nat_be n = (if n = 0 then [] else nat_be (n div 256) @ [word_of_nat (n mod 256)])"

declare nat_be.simps [simp del]

lemma nat_be_0 [simp]: "nat_be 0 = []"
  by (simp add: nat_be.simps)

lemma nat_be_pos: "0 < n \<Longrightarrow> nat_be n = nat_be (n div 256) @ [word_of_nat (n mod 256)]"
  by (simp add: nat_be.simps)

lemma unat_byte_lt [simp]: "unat (b :: byte) < 256"
  using unsigned_less [of b, where 'a = nat] by simp

lemma unat_byte_of_nat [simp]: "unat (word_of_nat (n mod 256) :: byte) = n mod 256"
  by (simp add: unat_of_nat)

lemma unat_byte_of_nat_lt: "n < 256 \<Longrightarrow> unat (word_of_nat n :: byte) = n"
  by (simp add: unat_of_nat)

lemma be_nat_Nil [simp]: "be_nat [] = 0"
  by (simp add: be_nat_def)

lemma be_nat_snoc [simp]: "be_nat (bs @ [b]) = be_nat bs * 256 + unat b"
  by (simp add: be_nat_def)

lemma be_nat_append: "be_nat (xs @ ys) = be_nat xs * 256 ^ length ys + be_nat ys"
proof (induction ys rule: rev_induct)
  case (snoc y ys)
  have "be_nat (xs @ ys @ [y]) = be_nat (xs @ ys) * 256 + unat y"
    by (simp flip: append_assoc)
  then show ?case by (simp add: snoc algebra_simps)
qed simp

lemma be_nat_Cons [simp]: "be_nat (b # bs) = unat b * 256 ^ length bs + be_nat bs"
  using be_nat_append [of "[b]" bs] by (simp add: be_nat_def)

lemma be_nat_less: "be_nat bs < 256 ^ length bs"
proof (induction bs)
  case (Cons b bs)
  have "unat b * 256 ^ length bs \<le> 255 * 256 ^ length bs"
    using unat_byte_lt [of b] by (intro mult_right_mono) linarith+
  then have "unat b * 256 ^ length bs + be_nat bs < 255 * 256 ^ length bs + 256 ^ length bs"
    using Cons by (rule add_le_less_mono)
  then show ?case by simp
qed simp

lemma be_nat_replicate_0 [simp]: "be_nat (replicate n 0) = 0"
  by (induction n) auto

lemma be_nat_nat_be [simp]: "be_nat (nat_be n) = n"
proof (induction n rule: nat_be.induct)
  case (1 n)
  then show ?case by (cases "n = 0") (simp_all add: nat_be_pos)
qed

lemma nat_be_eq_Nil [simp]: "nat_be n = [] \<longleftrightarrow> n = 0"
  by (cases "n = 0") (simp_all add: nat_be_pos)

lemma nat_be_inject [simp]: "nat_be m = nat_be n \<longleftrightarrow> m = n"
  by (metis be_nat_nat_be)

lemma nat_be_hd: "0 < n \<Longrightarrow> hd (nat_be n) \<noteq> 0"
proof (induction n rule: nat_be.induct)
  case (1 n)
  show ?case
  proof (cases "n div 256 = 0")
    case True
    then have "nat_be n = [word_of_nat n]" "n < 256"
      using 1 by (simp_all add: nat_be_pos)
    then show ?thesis using 1
      by (metis list.sel(1) unat_byte_of_nat_lt unsigned_0 neq0_conv)
  next
    case False
    then have "hd (nat_be n) = hd (nat_be (n div 256))"
      using 1 by (simp add: nat_be_pos [of n])
    then show ?thesis using 1 False by simp
  qed
qed

lemma nat_be_length_le: "n < 256 ^ k \<Longrightarrow> length (nat_be n) \<le> k"
proof (induction k arbitrary: n)
  case (Suc k)
  show ?case
  proof (cases "n = 0")
    case False
    have "n div 256 < 256 ^ k" using Suc.prems by (simp add: less_mult_imp_div_less mult.commute)
    then show ?thesis using Suc.IH False by (simp add: nat_be_pos)
  qed simp
qed simp

lemma nat_be_length_ge:
  assumes "256 ^ k \<le> n"
  shows "k < length (nat_be n)"
proof (rule ccontr)
  assume "\<not> k < length (nat_be n)"
  then have "(256::nat) ^ length (nat_be n) \<le> 256 ^ k"
    by (intro power_increasing) auto
  moreover have "n < 256 ^ length (nat_be n)"
    using be_nat_less [of "nat_be n"] by simp
  ultimately show False using assms by linarith
qed

text \<open>Re-reading a byte string gives it back without its leading zeros.\<close>

lemma nat_be_be_nat: "nat_be (be_nat bs) = dropWhile (\<lambda>b. b = 0) bs"
proof (induction bs rule: rev_induct)
  case (snoc b bs)
  show ?case
  proof (cases "be_nat bs * 256 + unat b = 0")
    case True
    then have z: "be_nat bs = 0" "b = 0"
      by (auto simp: unsigned_eq_0_iff)
    then have "dropWhile (\<lambda>b. b = 0) bs = []" using snoc by simp
    then show ?thesis using z by (simp add: dropWhile_append)
  next
    case False
    have q: "(be_nat bs * 256 + unat b) div 256 = be_nat bs"
      "word_of_nat ((be_nat bs * 256 + unat b) mod 256) = b"
      by simp_all
    have "nat_be (be_nat (bs @ [b])) = nat_be (be_nat bs) @ [b]"
      using False q by (subst nat_be.simps) auto
    also have "\<dots> = dropWhile (\<lambda>b. b = 0) bs @ [b]" by (simp add: snoc)
    also have "\<dots> = dropWhile (\<lambda>b. b = 0) (bs @ [b])"
    proof (cases "be_nat bs = 0")
      case True
      then have "b \<noteq> 0" using False by auto
      moreover have "dropWhile (\<lambda>b. b = 0) bs = []" using snoc True by simp
      ultimately show ?thesis by (simp add: dropWhile_append)
    next
      case False
      then have "dropWhile (\<lambda>b. b = 0) bs \<noteq> []" using snoc by (metis nat_be_eq_Nil)
      then show ?thesis by (metis dropWhile_append1 dropWhile_eq_Nil_conv)
    qed
    finally show ?thesis .
  qed
qed simp

section \<open>Left padding\<close>

text \<open>
  \<open>padded := make([]byte, n); copy(padded[n-len(b):], b)\<close>. The slice expression panics when
  \<open>len(b) > n\<close>: \<open>None\<close>.
\<close>

definition pad_left :: "nat \<Rightarrow> bytes \<Rightarrow> bytes option" where
  "pad_left n bs = (if length bs \<le> n then Some (replicate (n - length bs) 0 @ bs) else None)"

lemma pad_left_Some: "pad_left n bs = Some p \<Longrightarrow> length p = n \<and> be_nat p = be_nat bs"
  by (auto simp: pad_left_def be_nat_append split: if_splits)

lemma pad_left_nat_be:
  "n < 256 ^ k \<Longrightarrow> \<exists>p. pad_left k (nat_be n) = Some p \<and> length p = k \<and> be_nat p = n"
  using nat_be_length_le [of n k] by (auto simp: pad_left_def be_nat_append)

text \<open>Equal-length byte strings are determined by their value.\<close>

lemma be_nat_inj: "length xs = length ys \<Longrightarrow> be_nat xs = be_nat ys \<Longrightarrow> xs = ys"
proof (induction xs ys rule: list_induct2)
  case (Cons x xs y ys)
  have l: "be_nat xs < 256 ^ length xs" "be_nat ys < 256 ^ length xs"
    using be_nat_less [of xs] be_nat_less [of ys] Cons.hyps by auto
  have "unat x = (unat x * 256 ^ length xs + be_nat xs) div 256 ^ length xs"
    using l by simp
  also have "\<dots> = (unat y * 256 ^ length xs + be_nat ys) div 256 ^ length xs"
    using Cons by simp
  also have "\<dots> = unat y" using l by simp
  finally have "x = y" by (simp add: word_unat_eq_iff)
  then show ?case using Cons by auto
qed simp

section \<open>Slices\<close>

text \<open>
  Indexing and slicing a Go slice; out of range panics: \<open>None\<close>. (A slice expression may reach
  up to the capacity; here capacity is the length.)
\<close>

definition go_index :: "'a list \<Rightarrow> nat \<Rightarrow> 'a option" where
  "go_index xs i = (if i < length xs then Some (xs ! i) else None)"

definition go_slice :: "'a list \<Rightarrow> nat \<Rightarrow> nat \<Rightarrow> 'a list option" where
  "go_slice xs i j = (if i \<le> j \<and> j \<le> length xs then Some (take (j - i) (drop i xs)) else None)"

lemma go_index_append: "go_index (xs @ y # ys) (length xs) = Some y"
  by (simp add: go_index_def)

lemma go_slice_append: "go_slice (xs @ ys @ zs) (length xs) (length xs + length ys) = Some ys"
  by (simp add: go_slice_def)

section \<open>Interfaces\<close>

text \<open>
  An encoder whose decoder inverts it on the values in \<open>valid\<close>. What every client needs of it
  is that distinct valid values have distinct encodings.
\<close>

locale codec =
  fixes encode :: "'a \<Rightarrow> 'b" and decode :: "'b \<Rightarrow> 'a option" and valid :: "'a \<Rightarrow> bool"
  assumes decode_encode: "valid x \<Longrightarrow> decode (encode x) = Some x"
begin

lemma encode_inject: "valid x \<Longrightarrow> valid y \<Longrightarrow> encode x = encode y \<longleftrightarrow> x = y"
  using decode_encode by (metis option.inject)

lemma encode_inj_on: "inj_on encode {x. valid x}"
  by (rule inj_onI) (simp add: encode_inject)

lemma decode_map: "\<forall>x\<in>set xs. valid x \<Longrightarrow> map_res decode (map encode xs) = Some xs"
  by (rule map_res_map) (simp add: decode_encode)

lemma map_encode_inject:
  "\<forall>x\<in>set xs. valid x \<Longrightarrow> \<forall>y\<in>set ys. valid y \<Longrightarrow> map encode xs = map encode ys \<longleftrightarrow> xs = ys"
  using decode_map by (metis option.inject)

end

text \<open>A deterministic machine whose steps keep an invariant keeps it over every run.\<close>

locale invariant_machine =
  fixes next_state :: "'s \<Rightarrow> 'e \<Rightarrow> 's" and inv :: "'s \<Rightarrow> bool"
  assumes inv_next: "inv s \<Longrightarrow> inv (next_state s e)"
begin

lemma inv_foldl: "inv s \<Longrightarrow> inv (foldl next_state s es)"
  by (induction es arbitrary: s) (auto intro: inv_next)

end

text \<open>A store with the laws of a finite map.\<close>

locale key_value =
  fixes lookup :: "'m \<Rightarrow> 'k \<Rightarrow> 'v option"
    and insert_kv :: "'k \<Rightarrow> 'v \<Rightarrow> 'm \<Rightarrow> 'm"
    and delete_kv :: "'k \<Rightarrow> 'm \<Rightarrow> 'm"
  assumes lookup_insert: "lookup (insert_kv k v m) = (lookup m)(k \<mapsto> v)"
    and lookup_delete: "lookup (delete_kv k m) = (lookup m)(k := None)"
begin

lemma lookup_insert_same: "lookup (insert_kv k v m) k = Some v"
  by (simp add: lookup_insert)

lemma lookup_insert_other: "k' \<noteq> k \<Longrightarrow> lookup (insert_kv k v m) k' = lookup m k'"
  by (simp add: lookup_insert)

lemma lookup_delete_same: "lookup (delete_kv k m) k = None"
  by (simp add: lookup_delete)

lemma lookup_delete_other: "k' \<noteq> k \<Longrightarrow> lookup (delete_kv k m) k' = lookup m k'"
  by (simp add: lookup_delete)

lemma delete_after_insert: "lookup m k = None \<Longrightarrow> lookup (delete_kv k (insert_kv k v m)) = lookup m"
  by (auto simp: lookup_insert lookup_delete)

end

end
