(* ===== verification/EthHex.thy ===== *)
theory EthHex
  imports Prelude
begin

text \<open>
  Hexadecimal quantities and byte strings of the Ethereum JSON-RPC interface:
  \<open>control-plane/internal/ethereum/hex.go\<close> and the JSON methods of
  \<open>control-plane/internal/ethereum/types.go\<close>, with the parts of Go's standard library they
  use (\<open>encoding/hex\<close>, \<open>fmt\<close> with \<open>%x\<close>, \<open>big.Int.SetString\<close> in base 16,
  \<open>strings.TrimPrefix\<close>). Strings are character lists, one character per byte. The lemmas
  show that every encoder is inverted by its decoder, what the decoders accept, and the
  bounds of what they return.
\<close>

section \<open>Go's hexadecimal text\<close>

definition hex_digit :: "nat \<Rightarrow> char" where
  "hex_digit n = char_of (if n < 10 then 48 + n else 87 + n)"

definition hex_val :: "char \<Rightarrow> nat option" where
  "hex_val c = (let n = of_char c :: nat in
     if 48 \<le> n \<and> n \<le> 57 then Some (n - 48)
     else if 97 \<le> n \<and> n \<le> 102 then Some (n - 87)
     else if 65 \<le> n \<and> n \<le> 70 then Some (n - 55)
     else None)"

text \<open>\<open>hex.EncodeToString\<close>, also \<open>fmt.Sprintf("%x", b)\<close> on a byte slice.\<close>

definition hex_byte :: "byte \<Rightarrow> string" where
  "hex_byte b = [hex_digit (unat b div 16), hex_digit (unat b mod 16)]"

definition hex_encode :: "bytes \<Rightarrow> string" where
  "hex_encode bs = concat (map hex_byte bs)"

text \<open>\<open>hex.DecodeString\<close>: an odd length or a character that is no hex digit is an error.\<close>

fun hex_decode :: "string \<Rightarrow> bytes option" where
  "hex_decode [] = Some []"
| "hex_decode [c] = None"
| "hex_decode (c # d # cs) =
     (case (hex_val c, hex_val d) of
        (Some m, Some n) \<Rightarrow>
          (case hex_decode cs of None \<Rightarrow> None | Some bs \<Rightarrow> Some (word_of_nat (16 * m + n) # bs))
      | _ \<Rightarrow> None)"

text \<open>\<open>fmt.Sprintf("%x", v)\<close> on an unsigned integer, and on a \<open>*big.Int\<close>.\<close>

fun hex_of_nat :: "nat \<Rightarrow> string" where
  "hex_of_nat n = (if n < 16 then [hex_digit n] else hex_of_nat (n div 16) @ [hex_digit (n mod 16)])"

declare hex_of_nat.simps [simp del]

definition hex_of_int :: "int \<Rightarrow> string" where
  "hex_of_int i = (if i < 0 then CHR ''-'' # hex_of_nat (nat (- i)) else hex_of_nat (nat i))"

text \<open>
  \<open>new(big.Int).SetString(s, 16)\<close>: an optional sign, then one or more hex digits up to the
  end of the string.
\<close>

fun hex_digits_val :: "nat \<Rightarrow> string \<Rightarrow> nat option" where
  "hex_digits_val acc [] = Some acc"
| "hex_digits_val acc (c # cs) =
     (case hex_val c of None \<Rightarrow> None | Some d \<Rightarrow> hex_digits_val (16 * acc + d) cs)"

definition set_string16 :: "string \<Rightarrow> int option" where
  "set_string16 s =
     (case s of
        [] \<Rightarrow> None
      | c # cs \<Rightarrow>
          (if c = CHR ''-'' \<or> c = CHR ''+'' then
             (if cs = [] then None
              else map_option (\<lambda>n. if c = CHR ''-'' then - int n else int n) (hex_digits_val 0 cs))
           else map_option int (hex_digits_val 0 s)))"

text \<open>\<open>[]byte(s)\<close>: the bytes of a string.\<close>

definition bytes_of_ascii :: "string \<Rightarrow> bytes" where
  "bytes_of_ascii s = map (\<lambda>c. word_of_nat (of_char c)) s"

lemma char_of_ascii_byte: "char_of (unat (word_of_nat (of_char c) :: byte)) = (c :: char)"
proof -
  have "(of_char c :: nat) < 256" by (simp add: of_char_eq_iff nat_of_char_less_256)
  then show ?thesis by (simp add: unat_of_nat)
qed

section \<open>hex.go\<close>

datatype hex_error =
    InvalidAddressLength nat
  | InvalidHashLength nat
  | InvalidHex
  | InvalidHexNumber string
  | OverflowsUint64 string
  | JsonType

abbreviation zero_x :: string where "zero_x \<equiv> ''0x''"

definition DecodeAddress :: "string \<Rightarrow> hex_error + bytes" where
  "DecodeAddress s0 =
     (let s = trim_prefix zero_x s0 in
      if length s \<noteq> 40 then Inl (InvalidAddressLength (length s))
      else case hex_decode s of None \<Rightarrow> Inl InvalidHex | Some b \<Rightarrow> Inr b)"

definition DecodeHash :: "string \<Rightarrow> hex_error + bytes" where
  "DecodeHash s0 =
     (let s = trim_prefix zero_x s0 in
      if length s \<noteq> 64 then Inl (InvalidHashLength (length s))
      else case hex_decode s of None \<Rightarrow> Inl InvalidHex | Some b \<Rightarrow> Inr b)"

definition DecodeUint64 :: "string \<Rightarrow> hex_error + u64" where
  "DecodeUint64 s0 =
     (let s = trim_prefix zero_x s0 in
      if s = [] then Inr 0
      else case set_string16 s of
        None \<Rightarrow> Inl (InvalidHexNumber s)
      | Some v \<Rightarrow>
          if 0 \<le> v \<and> v < 2 ^ 64 then Inr (word_of_int v) else Inl (OverflowsUint64 s))"

definition DecodeBig :: "string \<Rightarrow> hex_error + int" where
  "DecodeBig s0 =
     (let s = trim_prefix zero_x s0 in
      if s = [] then Inr 0
      else of_option (InvalidHexNumber s) (set_string16 s))"

definition DecodeBytes :: "string \<Rightarrow> hex_error + bytes" where
  "DecodeBytes s0 =
     (let s = trim_prefix zero_x s0 in
      if s = [] then Inr []
      else of_option InvalidHex (hex_decode (if odd (length s) then CHR ''0'' # s else s)))"

definition EncodeAddress :: "bytes \<Rightarrow> string" where
  "EncodeAddress addr = zero_x @ hex_encode addr"

definition EncodeHash :: "bytes \<Rightarrow> string" where
  "EncodeHash h = zero_x @ hex_encode h"

definition EncodeUint64 :: "u64 \<Rightarrow> string" where
  "EncodeUint64 v = zero_x @ hex_of_nat (unat v)"

definition EncodeBig :: "int option \<Rightarrow> string" where
  "EncodeBig v = (case v of None \<Rightarrow> ''0x0'' | Some i \<Rightarrow> zero_x @ hex_of_int i)"

definition EncodeBytes :: "bytes \<Rightarrow> string" where
  "EncodeBytes b = zero_x @ hex_encode b"

definition Has0xPrefix :: "string \<Rightarrow> bool" where
  "Has0xPrefix s =
     (length s \<ge> 2 \<and> s ! 0 = CHR ''0'' \<and> (s ! 1 = CHR ''x'' \<or> s ! 1 = CHR ''X''))"

section \<open>The JSON methods of types.go\<close>

text \<open>
  A decoded JSON value. \<open>json.Unmarshal\<close> into a Go string takes a JSON string, leaves the
  empty string for \<open>null\<close>, and reports a type error for anything else.
\<close>

datatype jsonv =
    JNull
  | JBool bool
  | JNumber string
  | JString string
  | JArray "jsonv list"
  | JObject "(string \<times> jsonv) list"

fun json_string :: "jsonv \<Rightarrow> hex_error + string" where
  "json_string (JString s) = Inr s"
| "json_string JNull = Inr []"
| "json_string _ = Inl JsonType"

definition Address_MarshalJSON :: "bytes \<Rightarrow> jsonv" where
  "Address_MarshalJSON a = JString (zero_x @ hex_encode a)"

definition Address_UnmarshalJSON :: "jsonv \<Rightarrow> hex_error + bytes" where
  "Address_UnmarshalJSON data = res_bind (json_string data) DecodeAddress"

definition Address_IsZero :: "bytes \<Rightarrow> bool" where
  "Address_IsZero a = list_all (\<lambda>b. b = 0) a"

definition Hash_MarshalJSON :: "bytes \<Rightarrow> jsonv" where
  "Hash_MarshalJSON h = JString (zero_x @ hex_encode h)"

definition Hash_UnmarshalJSON :: "jsonv \<Rightarrow> hex_error + bytes" where
  "Hash_UnmarshalJSON data = res_bind (json_string data) DecodeHash"

definition Uint64_MarshalJSON :: "u64 \<Rightarrow> jsonv" where
  "Uint64_MarshalJSON u = JString (zero_x @ hex_of_nat (unat u))"

definition Uint64_UnmarshalJSON :: "jsonv \<Rightarrow> hex_error + u64" where
  "Uint64_UnmarshalJSON data = res_bind (json_string data) DecodeUint64"

definition Big_MarshalJSON :: "int \<Rightarrow> jsonv" where
  "Big_MarshalJSON b = JString (zero_x @ hex_of_int b)"

definition Big_UnmarshalJSON :: "jsonv \<Rightarrow> hex_error + int" where
  "Big_UnmarshalJSON data = res_bind (json_string data) DecodeBig"

definition Bytes_MarshalJSON :: "bytes \<Rightarrow> jsonv" where
  "Bytes_MarshalJSON b = JString (zero_x @ hex_encode b)"

definition Bytes_UnmarshalJSON :: "jsonv \<Rightarrow> hex_error + bytes" where
  "Bytes_UnmarshalJSON data = res_bind (json_string data) DecodeBytes"

section \<open>Digits\<close>

lemma hex_val_digit [simp]: "n < 16 \<Longrightarrow> hex_val (hex_digit n) = Some n"
  by (cases "n < 10") (simp_all add: hex_val_def hex_digit_def Let_def)

lemma hex_val_lt: "hex_val c = Some n \<Longrightarrow> n < 16"
  by (auto simp: hex_val_def Let_def split: if_splits)

lemma hex_val_sign [simp]: "hex_val (CHR ''-'') = None" "hex_val (CHR ''+'') = None"
  "hex_val (CHR ''0'') = Some 0" "hex_val (CHR ''x'') = None"
  by (simp_all add: hex_val_def)

lemma hex_digit_not_sign:
  "n < 16 \<Longrightarrow> hex_digit n \<noteq> CHR ''-'' \<and> hex_digit n \<noteq> CHR ''+'' \<and> hex_digit n \<noteq> CHR ''x''"
  by (metis hex_val_digit hex_val_sign option.distinct(1))

lemma length_hex_encode [simp]: "length (hex_encode bs) = 2 * length bs"
  by (induction bs) (simp_all add: hex_encode_def hex_byte_def)

lemma hex_encode_Nil [simp]: "hex_encode [] = []"
  by (simp add: hex_encode_def)

lemma hex_encode_Cons: "hex_encode (b # bs) = hex_digit (unat b div 16) # hex_digit (unat b mod 16) # hex_encode bs"
  by (simp add: hex_encode_def hex_byte_def)

lemma byte_nibbles: "word_of_nat (16 * (unat b div 16) + unat b mod 16) = (b :: byte)"
  by simp

lemma byte_div_16 [simp]: "unat (b :: byte) div 16 < 16"
  using unat_byte_lt [of b] by linarith

lemma hex_decode_encode [simp]: "hex_decode (hex_encode bs) = Some bs"
proof (induction bs)
  case (Cons b bs)
  then show ?case using byte_nibbles [of b] by (simp add: hex_encode_Cons del: mult_div_mod_eq)
qed simp

lemma hex_encode_inject: "hex_encode a = hex_encode b \<longleftrightarrow> a = b"
  by (metis hex_decode_encode option.inject)

lemma hex_decode_length: "hex_decode s = Some bs \<Longrightarrow> length s = 2 * length bs"
  by (induction s arbitrary: bs rule: hex_decode.induct) (auto split: option.splits)

lemma hex_digits_val_append:
  "hex_digits_val acc (xs @ ys) =
     (case hex_digits_val acc xs of None \<Rightarrow> None | Some v \<Rightarrow> hex_digits_val v ys)"
  by (induction xs arbitrary: acc) (auto split: option.splits)

lemma hex_digits_val_of_nat [simp]: "hex_digits_val 0 (hex_of_nat n) = Some n"
proof (induction n rule: hex_of_nat.induct)
  case (1 n)
  show ?case
  proof (cases "n < 16")
    case True
    then show ?thesis by (simp add: hex_of_nat.simps [of n])
  next
    case False
    with 1 show ?thesis by (simp add: hex_of_nat.simps [of n] hex_digits_val_append)
  qed
qed

lemma hex_of_nat_hd:
  obtains d ds where "hex_of_nat n = hex_digit d # ds" "d < 16"
proof (induction n arbitrary: thesis rule: hex_of_nat.induct)
  case (1 n)
  show ?case
  proof (cases "n < 16")
    case True
    then show ?thesis using "1.prems" by (simp add: hex_of_nat.simps [of n])
  next
    case False
    obtain d ds where "hex_of_nat (n div 16) = hex_digit d # ds" "d < 16"
      using "1.IH" [OF False] by blast
    then show ?thesis using "1.prems" False by (simp add: hex_of_nat.simps [of n])
  qed
qed

lemma set_string16_of_nat: "set_string16 (hex_of_nat n) = Some (int n)"
proof -
  obtain d ds where d: "hex_of_nat n = hex_digit d # ds" "d < 16" by (rule hex_of_nat_hd)
  have "hex_digits_val 0 (hex_digit d # ds) = Some n" using d(1) by (metis hex_digits_val_of_nat)
  then show ?thesis using d hex_digit_not_sign [of d] by (simp add: set_string16_def)
qed

lemma hex_of_nat_not_Nil [simp]: "hex_of_nat n \<noteq> []"
  by (rule hex_of_nat_hd [of n]) auto

lemma set_string16_of_int [simp]: "set_string16 (hex_of_int i) = Some i"
proof (cases "i < 0")
  case True
  then show ?thesis by (simp add: hex_of_int_def set_string16_def)
next
  case False
  then show ?thesis by (simp add: hex_of_int_def set_string16_of_nat)
qed

lemma hex_of_int_not_Nil [simp]: "hex_of_int i \<noteq> []"
  by (simp add: hex_of_int_def)

section \<open>Round trips\<close>

lemmas hex_go_defs =
  DecodeAddress_def DecodeHash_def DecodeUint64_def DecodeBig_def DecodeBytes_def
  EncodeAddress_def EncodeHash_def EncodeUint64_def EncodeBig_def EncodeBytes_def

lemma DecodeAddress_Encode: "length a = 20 \<Longrightarrow> DecodeAddress (EncodeAddress a) = Inr a"
  by (simp add: hex_go_defs del: append.simps)

lemma DecodeHash_Encode: "length h = 32 \<Longrightarrow> DecodeHash (EncodeHash h) = Inr h"
  by (simp add: hex_go_defs del: append.simps)

lemma DecodeBig_Encode: "DecodeBig (EncodeBig (Some i)) = Inr i"
  by (simp add: hex_go_defs del: append.simps)

lemma DecodeUint64_Encode: "DecodeUint64 (EncodeUint64 v) = Inr v"
proof -
  have "uint v < 2 ^ 64" using unsigned_less [of v, where 'a = int] by simp
  then have "int (unat v) < 2 ^ 64" by simp
  then show ?thesis by (simp add: hex_go_defs set_string16_of_nat del: append.simps)
qed

lemma DecodeBytes_Encode: "DecodeBytes (EncodeBytes b) = Inr b"
proof (cases b)
  case Nil
  then show ?thesis by (simp add: hex_go_defs trim_prefix_def)
next
  case (Cons x xs)
  then have "hex_encode b \<noteq> []" by (simp add: hex_encode_Cons)
  then show ?thesis by (simp add: hex_go_defs Let_def del: append.simps)
qed

interpretation hex_bytes: codec hex_encode hex_decode "\<lambda>_. True"
  by unfold_locales simp

interpretation json_address:
  codec Address_MarshalJSON "\<lambda>j. case Address_UnmarshalJSON j of Inl _ \<Rightarrow> None | Inr a \<Rightarrow> Some a"
    "\<lambda>a. length a = 20"
  using DecodeAddress_Encode
  by unfold_locales (simp add: Address_MarshalJSON_def Address_UnmarshalJSON_def EncodeAddress_def)

interpretation json_hash:
  codec Hash_MarshalJSON "\<lambda>j. case Hash_UnmarshalJSON j of Inl _ \<Rightarrow> None | Inr a \<Rightarrow> Some a"
    "\<lambda>a. length a = 32"
  using DecodeHash_Encode
  by unfold_locales (simp add: Hash_MarshalJSON_def Hash_UnmarshalJSON_def EncodeHash_def)

interpretation json_big:
  codec Big_MarshalJSON "\<lambda>j. case Big_UnmarshalJSON j of Inl _ \<Rightarrow> None | Inr a \<Rightarrow> Some a" "\<lambda>_. True"
  using DecodeBig_Encode
  by unfold_locales (simp add: Big_MarshalJSON_def Big_UnmarshalJSON_def EncodeBig_def)

interpretation json_uint64:
  codec Uint64_MarshalJSON "\<lambda>j. case Uint64_UnmarshalJSON j of Inl _ \<Rightarrow> None | Inr a \<Rightarrow> Some a"
    "\<lambda>_. True"
  using DecodeUint64_Encode
  by unfold_locales (simp add: Uint64_MarshalJSON_def Uint64_UnmarshalJSON_def EncodeUint64_def)

interpretation json_bytes:
  codec Bytes_MarshalJSON "\<lambda>j. case Bytes_UnmarshalJSON j of Inl _ \<Rightarrow> None | Inr a \<Rightarrow> Some a"
    "\<lambda>_. True"
  using DecodeBytes_Encode
  by unfold_locales (simp add: Bytes_MarshalJSON_def Bytes_UnmarshalJSON_def EncodeBytes_def)

section \<open>What the decoders return\<close>

lemma DecodeAddress_length: "DecodeAddress s = Inr a \<Longrightarrow> length a = 20"
  by (auto simp: DecodeAddress_def Let_def dest: hex_decode_length split: if_splits option.splits)

lemma DecodeHash_length: "DecodeHash s = Inr h \<Longrightarrow> length h = 32"
  by (auto simp: DecodeHash_def Let_def dest: hex_decode_length split: if_splits option.splits)

text \<open>An odd number of digits is read as if a zero stood before the first.\<close>

lemma DecodeBytes_odd:
  "odd (length s) \<Longrightarrow> \<not> has_prefix zero_x s \<Longrightarrow> DecodeBytes s = DecodeBytes (zero_x @ CHR ''0'' # s)"
  by (auto simp: DecodeBytes_def has_prefix_def trim_prefix_def)

end
