(* ===== verification/GoText.thy ===== *)
theory GoText
  imports EthHex
begin

text \<open>
  Text formats of Go's standard library that the signing paths exchange: \<open>encoding/base64\<close>
  with \<open>StdEncoding\<close> (the wire format of hashes, signatures and key material), \<open>fmt\<close> with
  \<open>%d\<close> and with zero-padded \<open>%064x\<close>. The lemmas show the round trips the callers rely on.
\<close>

section \<open>encoding/base64\<close>

definition b64_digit :: "nat \<Rightarrow> char" where
  "b64_digit n = char_of (if n < 26 then 65 + n else if n < 52 then 71 + n
     else if n < 62 then n - 4 else if n = 62 then 43 else 47 :: nat)"

definition b64_val :: "char \<Rightarrow> nat option" where
  "b64_val c = (let n = of_char c :: nat in
     if 65 \<le> n \<and> n \<le> 90 then Some (n - 65)
     else if 97 \<le> n \<and> n \<le> 122 then Some (n - 71)
     else if 48 \<le> n \<and> n \<le> 57 then Some (n + 4)
     else if n = 43 then Some 62 else if n = 47 then Some 63 else None)"

text \<open>\<open>StdEncoding.EncodeToString\<close>: three bytes to four digits, padded with \<open>=\<close>.\<close>

fun b64_encode :: "bytes \<Rightarrow> string" where
  "b64_encode (a # b # c # rest) =
     (let v = unat a * 65536 + unat b * 256 + unat c
      in b64_digit (v div 262144) # b64_digit (v div 4096 mod 64) #
         b64_digit (v div 64 mod 64) # b64_digit (v mod 64) # b64_encode rest)"
| "b64_encode [a, b] =
     (let v = unat a * 65536 + unat b * 256
      in [b64_digit (v div 262144), b64_digit (v div 4096 mod 64), b64_digit (v div 64 mod 64), CHR ''=''])"
| "b64_encode [a] =
     (let v = unat a * 65536
      in [b64_digit (v div 262144), b64_digit (v div 4096 mod 64), CHR ''='', CHR ''=''])"
| "b64_encode [] = []"

text \<open>
  \<open>StdEncoding.DecodeString\<close>: newlines are skipped; every quantum has four characters; padding
  ends the input. The bits a padded quantum leaves over are not checked.
\<close>

fun b64_quanta :: "string \<Rightarrow> bytes option" where
  "b64_quanta [] = Some []"
| "b64_quanta (a # b # c # d # rest) =
     (case (b64_val a, b64_val b) of
        (Some va, Some vb) \<Rightarrow>
          (let v = va * 262144 + vb * 4096 in
           case b64_val c of
             None \<Rightarrow>
               (if c = CHR ''='' \<and> d = CHR ''='' \<and> rest = []
                then Some [word_of_nat (v div 65536)] else None)
           | Some vc \<Rightarrow>
               (case b64_val d of
                  None \<Rightarrow>
                    (if d = CHR ''='' \<and> rest = []
                     then Some [word_of_nat (v div 65536), word_of_nat ((v + vc * 64) div 256 mod 256)]
                     else None)
                | Some vd \<Rightarrow>
                    (case b64_quanta rest of
                       None \<Rightarrow> None
                     | Some bs \<Rightarrow>
                         let w = v + vc * 64 + vd
                         in Some (word_of_nat (w div 65536) # word_of_nat (w div 256 mod 256) #
                                  word_of_nat (w mod 256) # bs))))
      | _ \<Rightarrow> None)"
| "b64_quanta _ = None"

definition b64_decode :: "string \<Rightarrow> bytes option" where
  "b64_decode s = b64_quanta (filter (\<lambda>c. of_char c \<noteq> (10 :: nat) \<and> of_char c \<noteq> (13 :: nat)) s)"

lemma b64_val_char_of: "m < 256 \<Longrightarrow> b64_val (char_of m) =
     (if 65 \<le> m \<and> m \<le> 90 then Some (m - 65)
      else if 97 \<le> m \<and> m \<le> 122 then Some (m - 71)
      else if 48 \<le> m \<and> m \<le> 57 then Some (m + 4)
      else if m = 43 then Some 62 else if m = 47 then Some 63 else None)"
  by (simp add: b64_val_def)

lemma b64_val_digit [simp]:
  assumes "n < 64"
  shows "b64_val (b64_digit n) = Some n"
proof -
  consider "n < 26" | "26 \<le> n" "n < 52" | "52 \<le> n" "n < 62" | "n = 62" | "n = 63"
    using assms by linarith
  then show ?thesis
  proof cases
    case 3
    define m where "m = n - 52"
    then have "n = m + 52" "m < 10" using 3 by simp_all
    then show ?thesis by (simp add: b64_digit_def b64_val_char_of)
  qed (simp_all add: b64_digit_def b64_val_char_of)
qed

lemma b64_pad [simp]: "b64_val (CHR ''='') = None"
  by (simp add: b64_val_def)

lemma b64_digit_no_newline:
  "n < 64 \<Longrightarrow> of_char (b64_digit n) \<noteq> (10 :: nat) \<and> of_char (b64_digit n) \<noteq> (13 :: nat)"
  by (auto simp: b64_digit_def)

lemma byte_bounds: "unat (a :: byte) \<le> 255"
  using unat_byte_lt [of a] by linarith

text \<open>A 24-bit group and its four digits, for a group whose value is \<open>v\<close>.\<close>

definition group24 :: "byte \<Rightarrow> byte \<Rightarrow> byte \<Rightarrow> nat" where
  "group24 a b c = unat a * 65536 + unat b * 256 + unat c"

lemma group24_bytes:
  "group24 a b c div 65536 = unat a" "group24 a b c div 256 mod 256 = unat b"
  "group24 a b c mod 256 = unat c"
proof -
  have l: "unat b * 256 + unat c < 65536"
    using byte_bounds [of b] byte_bounds [of c] by linarith
  have "group24 a b c div 65536 = (unat a * 65536 + (unat b * 256 + unat c)) div 65536"
    by (simp add: group24_def add.assoc)
  also have "\<dots> = unat a" using l by (simp del: add_mult_distrib2)
  finally show "group24 a b c div 65536 = unat a" .
  have g: "group24 a b c = (unat a * 256 + unat b) * 256 + unat c" by (simp add: group24_def)
  have "group24 a b c div 256 = unat a * 256 + unat b + unat c div 256"
    unfolding g by (rule div_mult_self3) simp
  then have "group24 a b c div 256 = unat a * 256 + unat b" by simp
  then show "group24 a b c div 256 mod 256 = unat b" by simp
  have "group24 a b c mod 256 = unat c mod 256" unfolding g by (rule mod_mult_self3)
  then show "group24 a b c mod 256 = unat c" by simp
qed

lemma group24_digits:
  "group24 a b c div 262144 < 64"
  "group24 a b c div 262144 * 262144 + group24 a b c div 4096 mod 64 * 4096 +
     group24 a b c div 64 mod 64 * 64 + group24 a b c mod 64 = group24 a b c"
proof -
  have "group24 a b c < 64 * 262144"
    using byte_bounds [of a] byte_bounds [of b] byte_bounds [of c] unfolding group24_def by linarith
  then show "group24 a b c div 262144 < 64" by (simp add: less_mult_imp_div_less)
  have "group24 a b c mod 4096 = 64 * (group24 a b c div 64 mod 64) + group24 a b c mod 64"
    using mod_mult2_eq [of "group24 a b c" 64 64] by simp
  moreover have "group24 a b c mod 262144 = 4096 * (group24 a b c div 4096 mod 64) + group24 a b c mod 4096"
    using mod_mult2_eq [of "group24 a b c" 4096 64] by simp
  moreover have "group24 a b c = group24 a b c div 262144 * 262144 + group24 a b c mod 262144"
    by simp
  ultimately show "group24 a b c div 262144 * 262144 + group24 a b c div 4096 mod 64 * 4096 +
     group24 a b c div 64 mod 64 * 64 + group24 a b c mod 64 = group24 a b c"
    by linarith
qed

lemma b64_encode_group24:
  "b64_encode (a # b # c # rest) =
     b64_digit (group24 a b c div 262144) # b64_digit (group24 a b c div 4096 mod 64) #
     b64_digit (group24 a b c div 64 mod 64) # b64_digit (group24 a b c mod 64) # b64_encode rest"
  "b64_encode [a, b] =
     [b64_digit (group24 a b 0 div 262144), b64_digit (group24 a b 0 div 4096 mod 64),
      b64_digit (group24 a b 0 div 64 mod 64), CHR ''='']"
  "b64_encode [a] =
     [b64_digit (group24 a 0 0 div 262144), b64_digit (group24 a 0 0 div 4096 mod 64), CHR ''='', CHR ''='']"
  by (simp_all add: group24_def Let_def)

lemma b64_encode_chars:
  "c \<in> set (b64_encode bs) \<Longrightarrow> of_char c \<noteq> (10 :: nat) \<and> of_char c \<noteq> (13 :: nat)"
  by (induction bs rule: b64_encode.induct)
    (auto simp: b64_encode_group24 b64_digit_no_newline group24_digits simp del: b64_encode.simps(1-3))

text \<open>The digits a padded group drops carry no bits of its bytes.\<close>

lemma group24_short:
  "group24 a b 0 mod 64 = 0" "group24 a 0 0 div 64 mod 64 = 0"
proof -
  have "group24 a b 0 = 64 * (unat a * 1024 + unat b * 4)" by (simp add: group24_def)
  then show "group24 a b 0 mod 64 = 0" by (metis mod_mult_self1_is_0)
  have "group24 a 0 0 = 64 * (64 * (unat a * 16))" by (simp add: group24_def)
  then have "group24 a 0 0 div 64 = 64 * (unat a * 16)" by simp
  then show "group24 a 0 0 div 64 mod 64 = 0" by (metis mod_mult_self1_is_0)
qed

lemma b64_quanta_encode: "b64_quanta (b64_encode bs) = Some bs"
proof (induction bs rule: b64_encode.induct)
  case (1 a b c rest)
  then show ?case
    unfolding b64_encode_group24
    by (simp add: Let_def group24_digits group24_bytes)
next
  case (2 a b)
  have "group24 a b 0 div 262144 * 262144 + group24 a b 0 div 4096 mod 64 * 4096 +
      group24 a b 0 div 64 mod 64 * 64 = group24 a b 0"
    using group24_digits(2) [of a b 0] group24_short(1) [of a b] by linarith
  moreover have "(group24 a b 0 div 262144 * 262144 + group24 a b 0 div 4096 mod 64 * 4096) div 65536 = unat a"
  proof -
    have "group24 a b 0 div 262144 * 262144 + group24 a b 0 div 4096 mod 64 * 4096 =
        group24 a b 0 - group24 a b 0 mod 4096"
      using mod_mult2_eq [of "group24 a b 0" 64 64, simplified] group24_digits(2) [of a b 0]
      by linarith
    also have "\<dots> = group24 a b 0 div 4096 * 4096" by (simp add: minus_mod_eq_div_mult)
    finally show ?thesis
      using group24_bytes(1) [of a b 0] div_mult2_eq [of "group24 a b 0" 4096 16]
        div_mult2_eq [of "group24 a b 0 div 4096 * 4096" 4096 16] by simp
  qed
  ultimately show ?case
    unfolding b64_encode_group24 by (simp add: Let_def group24_digits group24_bytes)
next
  case (3 a)
  have "group24 a 0 0 div 262144 * 262144 + group24 a 0 0 div 4096 mod 64 * 4096 = group24 a 0 0"
    using group24_digits(2) [of a 0 0] group24_short [of a] by simp
  then show ?case
    unfolding b64_encode_group24 by (simp add: Let_def group24_digits group24_bytes)
qed simp

lemma b64_decode_encode [simp]: "b64_decode (b64_encode bs) = Some bs"
proof -
  have "filter (\<lambda>c. of_char c \<noteq> (10 :: nat) \<and> of_char c \<noteq> (13 :: nat)) (b64_encode bs) = b64_encode bs"
    using b64_encode_chars by (intro filter_True) blast
  then show ?thesis by (simp add: b64_decode_def b64_quanta_encode)
qed

interpretation b64: codec b64_encode b64_decode "\<lambda>_. True"
  by unfold_locales simp

section \<open>fmt\<close>

text \<open>\<open>%d\<close> on a natural number.\<close>

fun dec_of_nat :: "nat \<Rightarrow> string" where
  "dec_of_nat n = (if n < 10 then [char_of (48 + n)] else dec_of_nat (n div 10) @ [char_of (48 + n mod 10)])"

declare dec_of_nat.simps [simp del]

text \<open>\<open>%d\<close> on an integer.\<close>

definition int_text :: "int \<Rightarrow> string" where
  "int_text i = (if i < 0 then CHR ''-'' # dec_of_nat (nat (- i)) else dec_of_nat (nat i))"

definition dec_val :: "string \<Rightarrow> nat" where
  "dec_val s = foldl (\<lambda>acc c. acc * 10 + (of_char c - 48)) 0 s"

lemma dec_val_of_nat [simp]: "dec_val (dec_of_nat n) = n"
proof (induction n rule: dec_of_nat.induct)
  case (1 n)
  show ?case
  proof (cases "n < 10")
    case True
    then show ?thesis by (simp add: dec_of_nat.simps [of n] dec_val_def)
  next
    case False
    with 1 have "dec_val (dec_of_nat (n div 10)) = n div 10" by simp
    with False show ?thesis by (simp add: dec_of_nat.simps [of n]) (simp add: dec_val_def)
  qed
qed

lemma dec_of_nat_inject [simp]: "dec_of_nat m = dec_of_nat n \<longleftrightarrow> m = n"
  by (metis dec_val_of_nat)

text \<open>\<open>%064x\<close> on a non-negative \<open>*big.Int\<close>: at least 64 digits, zeros in front.\<close>

definition hex064 :: "nat \<Rightarrow> string" where
  "hex064 n = replicate (64 - length (hex_of_nat n)) (CHR ''0'') @ hex_of_nat n"

lemma hex_digits_val_zeros [simp]: "hex_digits_val 0 (replicate k (CHR ''0'') @ s) = hex_digits_val 0 s"
  by (induction k) simp_all

lemma hex_decode_val:
  "hex_decode s = Some bs \<Longrightarrow>
     hex_digits_val acc s = Some (acc * 256 ^ length bs + be_nat bs)"
proof (induction s arbitrary: acc bs rule: hex_decode.induct)
  case (3 c d cs)
  then obtain m n bs' where h: "hex_val c = Some m" "hex_val d = Some n"
    "hex_decode cs = Some bs'" "bs = word_of_nat (16 * m + n) # bs'"
    by (auto split: option.splits)
  have "16 * m + n < 256" using hex_val_lt [OF h(1)] hex_val_lt [OF h(2)] by simp
  then have u: "unat (word_of_nat (16 * m + n) :: byte) = 16 * m + n"
    by (rule unat_byte_of_nat_lt)
  have "hex_digits_val acc (c # d # cs) = hex_digits_val (16 * (16 * acc + m) + n) cs"
    using h by simp
  also have "\<dots> = Some ((16 * (16 * acc + m) + n) * 256 ^ length bs' + be_nat bs')"
    using "3.IH" h by simp
  finally show ?case using h(4) u by (simp add: algebra_simps)
qed simp_all

lemma hex_decode_total:
  "even (length s) \<Longrightarrow> (\<forall>c\<in>set s. hex_val c \<noteq> None) \<Longrightarrow> \<exists>bs. hex_decode s = Some bs"
  by (induction s rule: hex_decode.induct) (auto split: option.splits)

lemma hex_of_nat_digits: "c \<in> set (hex_of_nat n) \<Longrightarrow> hex_val c \<noteq> None"
proof (induction n rule: hex_of_nat.induct)
  case (1 n)
  then show ?case by (cases "n < 16") (auto simp: hex_of_nat.simps [of n])
qed

lemma hex_of_nat_length: "n < 16 ^ Suc k \<Longrightarrow> length (hex_of_nat n) \<le> Suc k"
proof (induction k arbitrary: n)
  case 0
  then show ?case by (simp add: hex_of_nat.simps [of n])
next
  case (Suc k)
  show ?case
  proof (cases "n < 16")
    case False
    have "n div 16 < 16 ^ Suc k" using Suc.prems by (simp add: less_mult_imp_div_less mult.commute)
    then have "length (hex_of_nat (n div 16)) \<le> Suc k" by (rule Suc.IH)
    then show ?thesis using False by (simp add: hex_of_nat.simps [of n])
  qed (simp add: hex_of_nat.simps [of n])
qed

lemma length_hex064: "n < 2 ^ 256 \<Longrightarrow> length (hex064 n) = 64"
  using hex_of_nat_length [of n 63] by (simp add: hex064_def)

text \<open>
  What one service writes with \<open>%064x\<close> the other reads back with \<open>DecodeBytes\<close>: 32 bytes of the
  same value.
\<close>

lemma DecodeBytes_hex064:
  assumes "n < 2 ^ 256"
  obtains bs where "DecodeBytes (zero_x @ hex064 n) = Inr bs" "length bs = 32" "be_nat bs = n"
proof -
  have "\<forall>c\<in>set (hex064 n). hex_val c \<noteq> None"
    using hex_of_nat_digits by (auto simp: hex064_def)
  then obtain bs where b: "hex_decode (hex064 n) = Some bs"
    using hex_decode_total [of "hex064 n"] length_hex064 [OF assms] by auto
  have "hex_digits_val 0 (hex064 n) = Some n" by (simp add: hex064_def)
  then have "be_nat bs = n" using hex_decode_val [OF b, of 0] by simp
  moreover have "length bs = 32" using hex_decode_length [OF b] length_hex064 [OF assms] by simp
  moreover have "hex064 n \<noteq> []" using length_hex064 [OF assms] by auto
  ultimately show ?thesis
    using b length_hex064 [OF assms] by (intro that) (simp_all add: DecodeBytes_def Let_def del: append.simps)
qed

section \<open>strings.Split and RawStdEncoding\<close>

fun split_on :: "char \<Rightarrow> string \<Rightarrow> string list" where
  "split_on sep [] = [[]]"
| "split_on sep (c # s) =
     (if c = sep then [] # split_on sep s
      else (case split_on sep s of [] \<Rightarrow> [[c]] | x # xs \<Rightarrow> (c # x) # xs))"

lemma split_on_plain: "sep \<notin> set p \<Longrightarrow> split_on sep p = [p]"
  by (induction p) auto

lemma split_on_sep: "sep \<notin> set p \<Longrightarrow> split_on sep (p @ sep # s) = p # split_on sep s"
  by (induction p) auto

text \<open>The unpadded encoding: no \<open>=\<close> is written and none is read.\<close>

definition raw_b64_encode :: "bytes \<Rightarrow> string" where
  "raw_b64_encode bs = filter (\<lambda>c. c \<noteq> CHR ''='') (b64_encode bs)"

definition raw_b64_decode :: "string \<Rightarrow> bytes option" where
  "raw_b64_decode s =
     (let cs = filter (\<lambda>c. of_char c \<noteq> (10 :: nat) \<and> of_char c \<noteq> (13 :: nat)) s
      in if CHR ''='' \<in> set cs then None
         else if length cs mod 4 = 0 then b64_quanta cs
         else if length cs mod 4 = 1 then None
         else b64_quanta (cs @ replicate (4 - length cs mod 4) (CHR ''='')))"

lemma b64_digit_not_pad: "n < 64 \<Longrightarrow> b64_digit n \<noteq> CHR ''=''"
  using b64_val_digit [of n] by (metis b64_pad option.distinct(1))

lemma group24_not_pad:
  "b64_digit (group24 a b c div 262144) \<noteq> CHR ''=''" "b64_digit (n mod 64) \<noteq> CHR ''=''"
  by (rule b64_digit_not_pad, rule group24_digits(1), rule b64_digit_not_pad, rule mod_less_divisor, simp)

lemma filter_digits:
  "w \<noteq> e \<Longrightarrow> x \<noteq> e \<Longrightarrow> y \<noteq> e \<Longrightarrow> z \<noteq> e \<Longrightarrow>
     filter (\<lambda>c. c \<noteq> e) (w # x # y # z # r) = w # x # y # z # filter (\<lambda>c. c \<noteq> e) r"
  "w \<noteq> e \<Longrightarrow> x \<noteq> e \<Longrightarrow> y \<noteq> e \<Longrightarrow> filter (\<lambda>c. c \<noteq> e) [w, x, y, e] = [w, x, y]"
  "w \<noteq> e \<Longrightarrow> x \<noteq> e \<Longrightarrow> filter (\<lambda>c. c \<noteq> e) [w, x, e, e] = [w, x]"
  by simp_all

lemma raw_b64_group24:
  "raw_b64_encode (a # b # c # rest) =
     b64_digit (group24 a b c div 262144) # b64_digit (group24 a b c div 4096 mod 64) #
     b64_digit (group24 a b c div 64 mod 64) # b64_digit (group24 a b c mod 64) # raw_b64_encode rest"
  "raw_b64_encode [a, b] =
     [b64_digit (group24 a b 0 div 262144), b64_digit (group24 a b 0 div 4096 mod 64), b64_digit (group24 a b 0 div 64 mod 64)]"
  "raw_b64_encode [a] = [b64_digit (group24 a 0 0 div 262144), b64_digit (group24 a 0 0 div 4096 mod 64)]"
  unfolding raw_b64_encode_def b64_encode_group24
  by (rule filter_digits, (rule group24_not_pad)+)+

definition padded :: "string \<Rightarrow> string \<Rightarrow> bool" where
  "padded s t \<longleftrightarrow> (\<exists>k<3. s = t @ replicate k (CHR ''='') \<and> (length t + k) mod 4 = 0)"

lemma padded_cons: "padded s t \<Longrightarrow> padded (w # x # y # z # s) (w # x # y # z # t)"
proof -
  assume "padded s t"
  then obtain k where "k < 3" "s = t @ replicate k (CHR ''='')" "(length t + k) mod 4 = 0"
    by (auto simp: padded_def)
  then show ?thesis unfolding padded_def by (intro exI [of _ k]) simp
qed

lemma padded_ends: "padded [w, x, y, CHR ''=''] [w, x, y]" "padded [w, x, CHR ''='', CHR ''=''] [w, x]" "padded [] []"
proof -
  show "padded [w, x, y, CHR ''=''] [w, x, y]" unfolding padded_def by (rule exI [of _ 1]) simp
  show "padded [w, x, CHR ''='', CHR ''=''] [w, x]" unfolding padded_def by (rule exI [of _ 2]) (simp add: numeral_2_eq_2)
qed (simp add: padded_def)

lemma raw_b64_padded: "padded (b64_encode bs) (raw_b64_encode bs)"
proof (induction bs rule: b64_encode.induct)
  case (1 a b c rest)
  show ?case unfolding raw_b64_group24 b64_encode_group24 by (rule padded_cons) (rule 1 [OF refl])
next
  case (2 a b)
  show ?case unfolding raw_b64_group24 b64_encode_group24 by (rule padded_ends)
next
  case (3 a)
  show ?case unfolding raw_b64_group24 b64_encode_group24 by (rule padded_ends)
qed (simp add: raw_b64_encode_def padded_ends)

lemma raw_b64_decode_encode [simp]: "raw_b64_decode (raw_b64_encode bs) = Some bs"
proof -
  obtain k where k: "k < 3" "b64_encode bs = raw_b64_encode bs @ replicate k (CHR ''='')"
    "(length (raw_b64_encode bs) + k) mod 4 = 0" using raw_b64_padded [of bs, unfolded padded_def] by (elim exE conjE that)
  have n: "filter (\<lambda>c. of_char c \<noteq> (10 :: nat) \<and> of_char c \<noteq> (13 :: nat)) (raw_b64_encode bs) = raw_b64_encode bs"
  proof (intro filter_True ballI)
    fix c assume "c \<in> set (raw_b64_encode bs)"
    then have "c \<in> set (b64_encode bs)" unfolding raw_b64_encode_def by (simp only: set_filter mem_Collect_eq)
    then show "of_char c \<noteq> (10 :: nat) \<and> of_char c \<noteq> (13 :: nat)" by (rule b64_encode_chars)
  qed
  have p: "CHR ''='' \<notin> set (raw_b64_encode bs)" by (simp add: raw_b64_encode_def)
  have m: "length (raw_b64_encode bs) mod 4 = (if k = 0 then 0 else 4 - k)"
    using k(1,3) by presburger
  have q: "b64_quanta (raw_b64_encode bs @ replicate k (CHR ''='')) = Some bs" using b64_quanta_encode [of bs] k(2) by simp
  show ?thesis
  proof (cases "k = 0")
    case True
    then show ?thesis using n p m q by (simp add: raw_b64_decode_def Let_def)
  next
    case False
    then have "4 - length (raw_b64_encode bs) mod 4 = k" "length (raw_b64_encode bs) mod 4 \<noteq> 0"
      "length (raw_b64_encode bs) mod 4 \<noteq> 1" using m k(1) by auto
    then show ?thesis using n p q by (simp add: raw_b64_decode_def Let_def)
  qed
qed

lemma raw_b64_chars: "c \<in> set (raw_b64_encode bs) \<Longrightarrow> b64_val c \<noteq> None"
proof (induction bs rule: b64_encode.induct)
  case (1 a b c rest)
  have v: "b64_val (b64_digit (group24 a b c div 262144)) \<noteq> None" "b64_val (b64_digit (n mod 64)) \<noteq> None" for n
    using b64_val_digit [OF group24_digits(1)] by (simp_all add: b64_val_digit)
  show ?case using 1 v unfolding raw_b64_group24 by (metis set_ConsD)
next
  case (2 a b)
  have v: "b64_val (b64_digit (group24 a b 0 div 262144)) \<noteq> None" "b64_val (b64_digit (n mod 64)) \<noteq> None" for n
    using b64_val_digit [OF group24_digits(1)] by (simp_all add: b64_val_digit)
  show ?case using 2 v unfolding raw_b64_group24 by (metis set_ConsD list.set(1) empty_iff)
next
  case (3 a)
  have v: "b64_val (b64_digit (group24 a 0 0 div 262144)) \<noteq> None" "b64_val (b64_digit (n mod 64)) \<noteq> None" for n
    using b64_val_digit [OF group24_digits(1)] by (simp_all add: b64_val_digit)
  show ?case using 3 v unfolding raw_b64_group24 by (metis set_ConsD list.set(1) empty_iff)
qed (simp add: raw_b64_encode_def)

section \<open>White space and URL-safe base64\<close>

text \<open>The ASCII white space of \<open>unicode.IsSpace\<close>.\<close>

definition space_char :: "char \<Rightarrow> bool" where
  "space_char c \<longleftrightarrow> c \<in> {CHR '' '', CHR 0x09, CHR 0x0A, CHR 0x0B, CHR 0x0C, CHR 0x0D}"

definition TrimSpace :: "string \<Rightarrow> string" where
  "TrimSpace s = rev (dropWhile space_char (rev (dropWhile space_char s)))"

definition url_char :: "char \<Rightarrow> char" where
  "url_char c = (if c = CHR ''+'' then CHR ''-'' else if c = CHR ''/'' then CHR ''_'' else c)"

definition b64url_encode :: "bytes \<Rightarrow> string" where
  "b64url_encode bs = map url_char (b64_encode bs)"

text \<open>\<open>strings.Join\<close> with a separator of one character.\<close>

fun joined :: "char \<Rightarrow> string list \<Rightarrow> string" where
  "joined sep [] = []"
| "joined sep [x] = x"
| "joined sep (x # y # xs) = x @ sep # joined sep (y # xs)"

end
