(* ===== verification/EthRlp.thy ===== *)
theory EthRlp
  imports EthHex
begin

text \<open>
  Recursive length prefix encoding: the \<open>rlpEncode*\<close> functions at the end of
  \<open>control-plane/internal/ethereum/transaction.go\<close>. The \<open>interface{}\<close> items the code passes
  around are a datatype with one constructor per case of its type switch. Against them stand
  the RLP trees of the format, a reference encoder and a decoder; the lemmas show that the
  code's encoder is the reference encoder on the tree an item denotes, and that the decoder
  inverts it, so that distinct trees never share an encoding.
\<close>

section \<open>The encoder\<close>

definition bigIntToMinBytes :: "int \<Rightarrow> bytes" where
  "bigIntToMinBytes v = (if v = 0 then [] else dropWhile (\<lambda>b. b = 0) (nat_be (nat \<bar>v\<bar>)))"

definition rlpEncodeLength :: "nat \<Rightarrow> byte \<Rightarrow> bytes" where
  "rlpEncodeLength len offset =
     (if len < 56 then [offset + word_of_nat len]
      else let lenBytes = bigIntToMinBytes (int len)
           in (offset + 55 + word_of_nat (length lenBytes)) # lenBytes)"

definition rlpEncodeBytes :: "bytes \<Rightarrow> bytes" where
  "rlpEncodeBytes b =
     (if length b = 1 \<and> hd b < 0x80 then b else rlpEncodeLength (length b) 0x80 @ b)"

definition rlpEncodeUint :: "u64 \<Rightarrow> bytes" where
  "rlpEncodeUint v = (if v = 0 then [0x80] else rlpEncodeBytes (bigIntToMinBytes (uint v)))"

definition rlpEncodeBigInt :: "int option \<Rightarrow> bytes" where
  "rlpEncodeBigInt v =
     (case v of
        None \<Rightarrow> [0x80]
      | Some i \<Rightarrow> if i = 0 then [0x80] else rlpEncodeBytes (bigIntToMinBytes i))"

text \<open>
  The dynamic types of the switch in \<open>rlpEncodeItem\<close>: \<open>uint\<close>, \<open>uint64\<close> and \<open>int\<close> are 64 bits
  wide, a \<open>*big.Int\<close> may be nil, and \<open>IOther\<close> is the default case.
\<close>

datatype rlp_item =
    IBytes bytes
  | IString string
  | IUint u64
  | IUint64 u64
  | IInt "64 word"
  | IBig "int option"
  | IList "rlp_item list"
  | IOther

fun rlpEncodeItem :: "rlp_item \<Rightarrow> bytes"
  and rlpEncodeList :: "rlp_item list \<Rightarrow> bytes" where
  "rlpEncodeItem (IBytes v) = rlpEncodeBytes v"
| "rlpEncodeItem (IString v) = rlpEncodeBytes (bytes_of_ascii v)"
| "rlpEncodeItem (IUint v) = rlpEncodeUint v"
| "rlpEncodeItem (IUint64 v) = rlpEncodeUint v"
| "rlpEncodeItem (IInt v) = (if sint v < 0 then rlpEncodeBytes [] else rlpEncodeUint v)"
| "rlpEncodeItem (IBig v) = rlpEncodeBigInt v"
| "rlpEncodeItem (IList v) = rlpEncodeList v"
| "rlpEncodeItem IOther = rlpEncodeBytes []"
| "rlpEncodeList items =
     (let encoded = concat (map rlpEncodeItem items)
      in rlpEncodeLength (length encoded) 0xc0 @ encoded)"

section \<open>RLP trees: reference encoder and decoder\<close>

datatype rlp = RB bytes | RL "rlp list"

definition rlp_header :: "nat \<Rightarrow> nat \<Rightarrow> bytes" where
  "rlp_header n base =
     (if n < 56 then [word_of_nat (base + n)]
      else word_of_nat (base + 55 + length (nat_be n)) # nat_be n)"

fun rlp_enc :: "rlp \<Rightarrow> bytes" where
  "rlp_enc (RB b) =
     (if length b = 1 \<and> unat (hd b) < 128 then b else rlp_header (length b) 128 @ b)"
| "rlp_enc (RL vs) =
     (let p = concat (map rlp_enc vs) in rlp_header (length p) 192 @ p)"

text \<open>
  Splitting a header off: which kind of item, its payload and what follows it. \<open>base\<close> is 128
  for strings and 192 for lists.
\<close>

definition rlp_payload :: "nat \<Rightarrow> byte \<Rightarrow> bytes \<Rightarrow> (bytes \<times> bytes) option" where
  "rlp_payload base b bs =
     (let k = unat b - base in
      if k < 56 then (if k \<le> length bs then Some (take k bs, drop k bs) else None)
      else let m = k - 55; n = be_nat (take m bs); r = drop m bs
           in if m \<le> length bs \<and> n \<le> length r then Some (take n r, drop n r) else None)"

fun rlp_dec_item :: "nat \<Rightarrow> bytes \<Rightarrow> (rlp \<times> bytes) option"
  and rlp_dec_items :: "nat \<Rightarrow> bytes \<Rightarrow> rlp list option" where
  "rlp_dec_item 0 bs = None"
| "rlp_dec_item (Suc f) [] = None"
| "rlp_dec_item (Suc f) (b # bs) =
     (if unat b < 128 then Some (RB [b], bs)
      else if unat b < 192 then map_option (\<lambda>(p, r). (RB p, r)) (rlp_payload 128 b bs)
      else case rlp_payload 192 b bs of
          None \<Rightarrow> None
        | Some (p, r) \<Rightarrow> map_option (\<lambda>vs. (RL vs, r)) (rlp_dec_items f p))"
| "rlp_dec_items f [] = Some []"
| "rlp_dec_items 0 (b # bs) = None"
| "rlp_dec_items (Suc f) (b # bs) =
     (case rlp_dec_item f (b # bs) of
        None \<Rightarrow> None
      | Some (v, r) \<Rightarrow> map_option (\<lambda>vs. v # vs) (rlp_dec_items f r))"

definition rlp_decode :: "bytes \<Rightarrow> rlp option" where
  "rlp_decode bs =
     (case rlp_dec_item (2 * length bs) bs of Some (v, []) \<Rightarrow> Some v | _ \<Rightarrow> None)"

text \<open>The tree an item denotes: integers are their minimal big-endian bytes, sign dropped.\<close>

fun rlp_value :: "rlp_item \<Rightarrow> rlp" where
  "rlp_value (IBytes v) = RB v"
| "rlp_value (IString v) = RB (bytes_of_ascii v)"
| "rlp_value (IUint v) = RB (nat_be (unat v))"
| "rlp_value (IUint64 v) = RB (nat_be (unat v))"
| "rlp_value (IInt v) = RB (if sint v < 0 then [] else nat_be (unat v))"
| "rlp_value (IBig None) = RB []"
| "rlp_value (IBig (Some i)) = RB (nat_be (nat \<bar>i\<bar>))"
| "rlp_value (IList vs) = RL (map rlp_value vs)"
| "rlp_value IOther = RB []"

section \<open>The code's encoder is the reference encoder\<close>

lemma nat_be_no_leading_zero: "dropWhile (\<lambda>b. b = 0) (nat_be n) = nat_be n"
  by (metis be_nat_nat_be nat_be_be_nat)

lemma bigIntToMinBytes_eq [simp]: "bigIntToMinBytes v = nat_be (nat \<bar>v\<bar>)"
  by (simp add: bigIntToMinBytes_def nat_be_no_leading_zero)

lemma rlpEncodeLength_header:
  "rlpEncodeLength n (word_of_nat base) = rlp_header n base"
  by (simp add: rlpEncodeLength_def rlp_header_def Let_def add.assoc)

lemma rlpEncodeBytes_eq: "rlpEncodeBytes b = rlp_enc (RB b)"
proof -
  have "hd b < 0x80 \<longleftrightarrow> unat (hd b) < 128" by (simp add: word_less_nat_alt)
  then show ?thesis
    using rlpEncodeLength_header [of "length b" 128] by (simp add: rlpEncodeBytes_def)
qed

lemma rlp_enc_empty [simp]: "rlp_enc (RB []) = [0x80]"
  by (simp add: rlp_header_def)

lemma rlpEncodeUint_eq: "rlpEncodeUint v = rlp_enc (RB (nat_be (unat v)))"
proof (cases "v = 0")
  case False
  then show ?thesis by (simp add: rlpEncodeUint_def rlpEncodeBytes_eq del: rlp_enc.simps)
qed (simp add: rlpEncodeUint_def del: rlp_enc.simps)

lemma rlpEncodeBigInt_eq:
  "rlpEncodeBigInt v = rlp_enc (RB (case v of None \<Rightarrow> [] | Some i \<Rightarrow> nat_be (nat \<bar>i\<bar>)))"
  by (auto simp: rlpEncodeBigInt_def rlpEncodeBytes_eq simp del: rlp_enc.simps split: option.splits)

lemma rlpEncode_refines:
  "rlpEncodeItem it = rlp_enc (rlp_value it)"
  "rlpEncodeList its = rlp_enc (RL (map rlp_value its))"
proof (induction it and its rule: rlpEncodeItem_rlpEncodeList.induct)
  case (6 v)
  then show ?case by (cases v) (simp_all add: rlpEncodeBigInt_eq del: rlp_enc.simps)
next
  case (9 items)
  then have "concat (map rlpEncodeItem items) = concat (map rlp_enc (map rlp_value items))"
    by (intro arg_cong [where f = concat]) simp
  then show ?case
    using rlpEncodeLength_header [of _ 192] by (simp add: Let_def del: map_map)
qed (simp_all add: rlpEncodeBytes_eq rlpEncodeUint_eq del: rlp_enc.simps(1))

section \<open>The decoder inverts the encoder\<close>

lemma rlp_header_not_Nil [simp]: "rlp_header n base \<noteq> []"
  by (simp add: rlp_header_def)

lemma rlp_enc_not_Nil: "rlp_enc v \<noteq> []"
  by (cases v) (auto simp: Let_def)

text \<open>
  A header decodes to its payload as long as the length fits in eight bytes, which every Go
  slice length does.
\<close>

lemma rlp_payload_header:
  assumes "n < 256 ^ 8" "base = 128 \<or> base = 192" "length p = n"
  obtains b bs where "rlp_header n base @ p @ rest = b # bs" "base \<le> unat b" "unat b < base + 64"
    "rlp_payload base b bs = Some (p, rest)"
proof (cases "n < 56")
  case True
  then have u: "unat (word_of_nat (base + n) :: byte) = base + n"
    using assms(2) by (intro unat_byte_of_nat_lt) auto
  show ?thesis
    by (rule that [of "word_of_nat (base + n)" "p @ rest"])
      (use True assms u in \<open>simp_all add: rlp_header_def rlp_payload_def\<close>)
next
  case False
  let ?m = "length (nat_be n)"
  have m: "0 < ?m" "?m \<le> 8"
    using False nat_be_length_le [OF assms(1)] by simp_all
  then have u: "unat (word_of_nat (base + 55 + ?m) :: byte) = base + 55 + ?m"
    using assms(2) by (intro unat_byte_of_nat_lt) auto
  have "rlp_payload base (word_of_nat (base + 55 + ?m)) (nat_be n @ p @ rest) = Some (p, rest)"
    unfolding rlp_payload_def u using m assms(3) by (simp add: Let_def)
  then show ?thesis
    by (intro that [of "word_of_nat (base + 55 + ?m)" "nat_be n @ p @ rest"])
      (use False m u in \<open>simp_all add: rlp_header_def\<close>)
qed

fun rlp_nodes :: "rlp \<Rightarrow> nat" where
  "rlp_nodes (RB b) = 1"
| "rlp_nodes (RL vs) = 1 + sum_list (map rlp_nodes vs)"

lemma rlp_nodes_le: "rlp_nodes v \<le> length (rlp_enc v)"
proof (induction v)
  case (RB b)
  then show ?case using rlp_enc_not_Nil [of "RB b"] by (simp add: Suc_le_eq del: rlp_enc.simps)
next
  case (RL vs)
  have "sum_list (map rlp_nodes vs) \<le> length (concat (map rlp_enc vs))"
    using RL by (induction vs) (auto intro: add_mono)
  moreover have "0 < length (rlp_header (length (concat (map rlp_enc vs))) 192)"
    by simp
  ultimately show ?case unfolding rlp_nodes.simps rlp_enc.simps Let_def length_append
    by linarith
qed

lemma rlp_enc_sublength:
  "v \<in> set vs \<Longrightarrow> length (rlp_enc v) \<le> length (rlp_enc (RL vs))"
proof -
  assume "v \<in> set vs"
  then have "length (rlp_enc v) \<le> length (concat (map rlp_enc vs))"
    by (induction vs) auto
  then show ?thesis by (simp add: Let_def)
qed

lemma rlp_dec_items_encs:
  assumes "\<And>v rest f. v \<in> set vs \<Longrightarrow> 2 * rlp_nodes v \<le> Suc f \<Longrightarrow>
      rlp_dec_item f (rlp_enc v @ rest) = Some (v, rest)"
    and "2 * sum_list (map rlp_nodes vs) \<le> f"
  shows "rlp_dec_items f (concat (map rlp_enc vs)) = Some vs"
  using assms
proof (induction vs arbitrary: f)
  case (Cons v vs)
  have p: "0 < rlp_nodes v" by (cases v) simp_all
  then obtain g where g: "f = Suc g" using Cons.prems(2) by (cases f) simp_all
  obtain b bs where e: "rlp_enc v @ concat (map rlp_enc vs) = b # bs"
    using rlp_enc_not_Nil [of v] by (cases "rlp_enc v") simp_all
  have "rlp_dec_item g (b # bs) = Some (v, concat (map rlp_enc vs))"
    unfolding e [symmetric] using Cons.prems g by (intro Cons.prems(1)) simp_all
  moreover have "rlp_dec_items g (concat (map rlp_enc vs)) = Some vs"
    using Cons.prems p g by (intro Cons.IH Cons.prems(1)) simp_all
  ultimately show ?case using e g by simp
qed simp

lemma rlp_dec_item_enc:
  "length (rlp_enc v) < 256 ^ 8 \<Longrightarrow> 2 * rlp_nodes v \<le> Suc f \<Longrightarrow>
     rlp_dec_item f (rlp_enc v @ rest) = Some (v, rest)"
proof (induction v arbitrary: f rest)
  case (RB p)
  then obtain g where g: "f = Suc g" by (cases f) simp_all
  show ?case
  proof (cases "length p = 1 \<and> unat (hd p) < 128")
    case True
    then show ?thesis using g by (cases p) auto
  next
    case False
    have "length p < 256 ^ 8" using RB.prems(1) False by auto
    then obtain b bs where h: "rlp_header (length p) 128 @ p @ rest = b # bs" "128 \<le> unat b"
      "unat b < 128 + 64" "rlp_payload 128 b bs = Some (p, rest)"
      by (rule rlp_payload_header [of _ 128 p rest]) auto
    have "rlp_enc (RB p) @ rest = b # bs" using False h(1) by auto
    then show ?thesis using h g by simp
  qed
next
  case (RL vs)
  then obtain g where g: "f = Suc g" by (cases f) simp_all
  let ?p = "concat (map rlp_enc vs)"
  have "length ?p < 256 ^ 8" using RL.prems(1) by (simp add: Let_def)
  then obtain b bs where h: "rlp_header (length ?p) 192 @ ?p @ rest = b # bs" "192 \<le> unat b"
    "unat b < 192 + 64" "rlp_payload 192 b bs = Some (?p, rest)"
    by (rule rlp_payload_header [of _ 192 ?p rest]) auto
  have "rlp_dec_items g ?p = Some vs"
  proof (rule rlp_dec_items_encs)
    show "2 * sum_list (map rlp_nodes vs) \<le> g" using RL.prems(2) g by simp
    fix v rest f
    assume v: "v \<in> set vs" "2 * rlp_nodes v \<le> Suc f"
    show "rlp_dec_item f (rlp_enc v @ rest) = Some (v, rest)"
      using rlp_enc_sublength [OF v(1)] RL.prems(1) v by (intro RL.IH) simp_all
  qed
  moreover have "rlp_enc (RL vs) @ rest = b # bs" using h(1) by (simp add: Let_def)
  ultimately show ?case using h g by simp
qed

lemma rlp_decode_enc: "length (rlp_enc v) < 256 ^ 8 \<Longrightarrow> rlp_decode (rlp_enc v) = Some v"
proof -
  assume a: "length (rlp_enc v) < 256 ^ 8"
  then have "rlp_dec_item (2 * length (rlp_enc v)) (rlp_enc v @ []) = Some (v, [])"
    using rlp_nodes_le [of v] by (intro rlp_dec_item_enc) simp_all
  then show ?thesis by (simp add: rlp_decode_def)
qed

interpretation rlp_tree: codec rlp_enc rlp_decode "\<lambda>v. length (rlp_enc v) < 256 ^ 8"
  by unfold_locales (rule rlp_decode_enc)

end
