(* ===== verification/EthTx.thy ===== *)
theory EthTx
  imports EthHex EthRlp
begin

text \<open>
  Ethereum transactions: the arguments of \<open>eth_signTransaction\<close>
  (\<open>control-plane/internal/ethereum/types.go\<close>), the unsigned and signed transactions built
  from them and their signing payloads and final encodings
  (\<open>control-plane/internal/ethereum/transaction.go\<close>). A pointer field is an option, nil being
  \<open>None\<close>; a \<open>[]byte\<close> that may be nil is a byte list, because every use of it here treats nil
  as empty. Keccak-256 comes from \<open>golang.org/x/crypto/sha3\<close> and is a parameter. The lemmas
  show that a signing payload determines every signed field, and that the encoders are RLP of
  exactly the fields the formats name.
\<close>

section \<open>Arguments\<close>

record access_tuple =
  at_address :: bytes
  at_keys :: "bytes list"

record TransactionArgs =
  arg_From :: "bytes option"
  arg_To :: "bytes option"
  arg_Gas :: "u64 option"
  arg_GasPrice :: "int option"
  arg_MaxFeePerGas :: "int option"
  arg_MaxPriorityFeePerGas :: "int option"
  arg_Value :: "int option"
  arg_Nonce :: "u64 option"
  arg_Data :: "bytes option"
  arg_Input :: "bytes option"
  arg_ChainID :: "int option"
  arg_AccessList :: "access_tuple list"

definition GetData :: "TransactionArgs \<Rightarrow> bytes" where
  "GetData args =
     (case arg_Input args of
        Some d \<Rightarrow> d
      | None \<Rightarrow> (case arg_Data args of Some d \<Rightarrow> d | None \<Rightarrow> []))"

datatype args_error =
  FromRequired | ChainIdRequired | NonceRequired | GasRequired | GasPriceRequired

definition Args_Validate :: "TransactionArgs \<Rightarrow> args_error option" where
  "Args_Validate args =
     (if arg_From args = None then Some FromRequired
      else if arg_ChainID args = None then Some ChainIdRequired
      else if arg_Nonce args = None then Some NonceRequired
      else if arg_Gas args = None then Some GasRequired
      else if arg_GasPrice args = None \<and> arg_MaxFeePerGas args = None then Some GasPriceRequired
      else None)"

definition IsEIP1559 :: "TransactionArgs \<Rightarrow> bool" where
  "IsEIP1559 args = (arg_MaxFeePerGas args \<noteq> None)"

section \<open>Transactions\<close>

definition LegacyTxType :: byte where "LegacyTxType = 0"
definition AccessListTxType :: byte where "AccessListTxType = 1"
definition EIP1559TxType :: byte where "EIP1559TxType = 2"

record UnsignedTransaction =
  tx_Type :: byte
  tx_ChainID :: "int option"
  tx_Nonce :: u64
  tx_GasPrice :: "int option"
  tx_MaxPriorityFeePerGas :: "int option"
  tx_MaxFeePerGas :: "int option"
  tx_GasLimit :: u64
  tx_To :: "bytes option"
  tx_Value :: "int option"
  tx_Data :: bytes
  tx_AccessList :: "access_tuple list"

record SignedTransaction = UnsignedTransaction +
  tx_V :: "int option"
  tx_R :: "int option"
  tx_S :: "int option"

text \<open>
  The constructors dereference \<open>args.Nonce\<close> and \<open>args.Gas\<close> without a check and panic when one
  is nil: \<open>None\<close>.
\<close>

definition NewLegacyTransaction :: "TransactionArgs \<Rightarrow> UnsignedTransaction option" where
  "NewLegacyTransaction args =
     (case (arg_Nonce args, arg_Gas args) of
        (Some nonce, Some gas) \<Rightarrow>
          Some \<lparr>tx_Type = LegacyTxType,
            tx_ChainID = arg_ChainID args,
            tx_Nonce = nonce,
            tx_GasPrice = (case arg_GasPrice args of Some p \<Rightarrow> Some p | None \<Rightarrow> Some 0),
            tx_MaxPriorityFeePerGas = None,
            tx_MaxFeePerGas = None,
            tx_GasLimit = gas,
            tx_To = arg_To args,
            tx_Value = (case arg_Value args of Some v \<Rightarrow> Some v | None \<Rightarrow> Some 0),
            tx_Data = GetData args,
            tx_AccessList = []\<rparr>
      | _ \<Rightarrow> None)"

definition NewEIP1559Transaction :: "TransactionArgs \<Rightarrow> UnsignedTransaction option" where
  "NewEIP1559Transaction args =
     (case (arg_Nonce args, arg_Gas args) of
        (Some nonce, Some gas) \<Rightarrow>
          Some \<lparr>tx_Type = EIP1559TxType,
            tx_ChainID = arg_ChainID args,
            tx_Nonce = nonce,
            tx_GasPrice = None,
            tx_MaxPriorityFeePerGas =
              (case arg_MaxPriorityFeePerGas args of Some p \<Rightarrow> Some p | None \<Rightarrow> Some 0),
            tx_MaxFeePerGas = (case arg_MaxFeePerGas args of Some p \<Rightarrow> Some p | None \<Rightarrow> Some 0),
            tx_GasLimit = gas,
            tx_To = arg_To args,
            tx_Value = (case arg_Value args of Some v \<Rightarrow> Some v | None \<Rightarrow> Some 0),
            tx_Data = GetData args,
            tx_AccessList = arg_AccessList args\<rparr>
      | _ \<Rightarrow> None)"

definition to_item :: "bytes option \<Rightarrow> rlp_item" where
  "to_item to = (case to of Some a \<Rightarrow> IBytes a | None \<Rightarrow> IBytes [])"

definition encodeAccessList :: "access_tuple list \<Rightarrow> rlp_item list" where
  "encodeAccessList al =
     (if al = [] then []
      else map (\<lambda>tuple. IList [IBytes (at_address tuple),
                               IList (map IBytes (at_keys tuple))]) al)"

definition rlpEncodeLegacyForSigning :: "'a UnsignedTransaction_scheme \<Rightarrow> int option \<Rightarrow> bytes" where
  "rlpEncodeLegacyForSigning tx chainID =
     (let items = [IUint64 (tx_Nonce tx), IBig (tx_GasPrice tx), IUint64 (tx_GasLimit tx),
                   to_item (tx_To tx), IBig (tx_Value tx), IBytes (tx_Data tx)];
          items' = (case chainID of
              Some c \<Rightarrow> if c > 0 then items @ [IBig (Some c), IUint 0, IUint 0] else items
            | None \<Rightarrow> items)
      in rlpEncodeList items')"

definition rlpEncodeEIP1559ForSigning :: "'a UnsignedTransaction_scheme \<Rightarrow> bytes" where
  "rlpEncodeEIP1559ForSigning tx =
     rlpEncodeList [IBig (tx_ChainID tx), IUint64 (tx_Nonce tx), IBig (tx_MaxPriorityFeePerGas tx),
       IBig (tx_MaxFeePerGas tx), IUint64 (tx_GasLimit tx), to_item (tx_To tx), IBig (tx_Value tx),
       IBytes (tx_Data tx), IList (encodeAccessList (tx_AccessList tx))]"

text \<open>\<open>SigningHash\<close> hashes \<open>signing_payload\<close>, the bytes \<open>encoded\<close> of its body.\<close>

definition signing_payload :: "'a UnsignedTransaction_scheme \<Rightarrow> int option \<Rightarrow> bytes" where
  "signing_payload tx chainID =
     (if tx_Type tx = EIP1559TxType then EIP1559TxType # rlpEncodeEIP1559ForSigning tx
      else rlpEncodeLegacyForSigning tx chainID)"

definition SigningHash ::
  "(bytes \<Rightarrow> bytes) \<Rightarrow> 'a UnsignedTransaction_scheme \<Rightarrow> int option \<Rightarrow> bytes" where
  "SigningHash keccak256 tx chainID = keccak256 (signing_payload tx chainID)"

definition WithSignature ::
  "UnsignedTransaction \<Rightarrow> int option \<Rightarrow> int option \<Rightarrow> int option \<Rightarrow> SignedTransaction" where
  "WithSignature tx v r s =
     UnsignedTransaction.extend tx \<lparr>tx_V = v, tx_R = r, tx_S = s\<rparr>"

definition rlpEncodeLegacySigned :: "SignedTransaction \<Rightarrow> bytes" where
  "rlpEncodeLegacySigned tx =
     rlpEncodeList [IUint64 (tx_Nonce tx), IBig (tx_GasPrice tx), IUint64 (tx_GasLimit tx),
       to_item (tx_To tx), IBig (tx_Value tx), IBytes (tx_Data tx),
       IBig (tx_V tx), IBig (tx_R tx), IBig (tx_S tx)]"

definition rlpEncodeEIP1559Signed :: "SignedTransaction \<Rightarrow> bytes" where
  "rlpEncodeEIP1559Signed tx =
     EIP1559TxType #
     rlpEncodeList [IBig (tx_ChainID tx), IUint64 (tx_Nonce tx), IBig (tx_MaxPriorityFeePerGas tx),
       IBig (tx_MaxFeePerGas tx), IUint64 (tx_GasLimit tx), to_item (tx_To tx), IBig (tx_Value tx),
       IBytes (tx_Data tx), IList (encodeAccessList (tx_AccessList tx)),
       IBig (tx_V tx), IBig (tx_R tx), IBig (tx_S tx)]"

definition EncodeRLP :: "SignedTransaction \<Rightarrow> bytes" where
  "EncodeRLP tx =
     (if tx_Type tx = EIP1559TxType then rlpEncodeEIP1559Signed tx else rlpEncodeLegacySigned tx)"

section \<open>The fields a payload commits to\<close>

definition amount :: "int option \<Rightarrow> nat" where
  "amount v = (case v of None \<Rightarrow> 0 | Some i \<Rightarrow> nat \<bar>i\<bar>)"

definition num :: "nat \<Rightarrow> rlp" where
  "num n = RB (nat_be n)"

definition to_bytes :: "bytes option \<Rightarrow> bytes" where
  "to_bytes to = (case to of None \<Rightarrow> [] | Some a \<Rightarrow> a)"

definition access_tree :: "access_tuple list \<Rightarrow> rlp" where
  "access_tree al = RL (map (\<lambda>t. RL [RB (at_address t), RL (map RB (at_keys t))]) al)"

definition body_tree :: "'a UnsignedTransaction_scheme \<Rightarrow> rlp list" where
  "body_tree tx = [num (unat (tx_Nonce tx)), num (amount (tx_GasPrice tx)),
     num (unat (tx_GasLimit tx)), RB (to_bytes (tx_To tx)), num (amount (tx_Value tx)),
     RB (tx_Data tx)]"

definition dynamic_tree :: "'a UnsignedTransaction_scheme \<Rightarrow> rlp list" where
  "dynamic_tree tx = [num (amount (tx_ChainID tx)), num (unat (tx_Nonce tx)),
     num (amount (tx_MaxPriorityFeePerGas tx)), num (amount (tx_MaxFeePerGas tx)),
     num (unat (tx_GasLimit tx)), RB (to_bytes (tx_To tx)), num (amount (tx_Value tx)),
     RB (tx_Data tx), access_tree (tx_AccessList tx)]"

definition chain_tree :: "int option \<Rightarrow> rlp list" where
  "chain_tree c = (case c of
     Some i \<Rightarrow> if i > 0 then [num (nat i), num 0, num 0] else [] | None \<Rightarrow> [])"

text \<open>What the recipient and the access list of a decoded request look like.\<close>

definition tx_wf :: "'a UnsignedTransaction_scheme \<Rightarrow> bool" where
  "tx_wf tx \<longleftrightarrow> (\<forall>a. tx_To tx = Some a \<longrightarrow> length a = 20)"

lemma num_inject [simp]: "num m = num n \<longleftrightarrow> m = n"
  by (simp add: num_def)

lemma rlp_value_big [simp]: "rlp_value (IBig v) = num (amount v)"
  by (cases v) (simp_all add: num_def amount_def)

lemma rlp_value_to [simp]: "rlp_value (to_item to) = RB (to_bytes to)"
  by (cases to) (simp_all add: to_item_def to_bytes_def)

lemma rlp_value_access [simp]: "RL (map rlp_value (encodeAccessList al)) = access_tree al"
  by (simp add: encodeAccessList_def access_tree_def comp_def)

lemma rlp_value_uint [simp]: "rlp_value (IUint64 v) = num (unat v)" "rlp_value (IUint v) = num (unat v)"
  by (simp_all add: num_def)

lemmas rlp_opaque = rlp_enc.simps rlpEncodeItem.simps rlpEncodeList.simps rlp_value.simps(3,4)

lemmas tree_simps = rlpEncode_refines body_tree_def dynamic_tree_def chain_tree_def

lemma legacy_payload_tree:
  "rlpEncodeLegacyForSigning tx c = rlp_enc (RL (body_tree tx @ chain_tree c))"
  by (simp add: rlpEncodeLegacyForSigning_def tree_simps Let_def amount_def
      del: rlp_opaque split: option.split)

lemma dynamic_payload_tree: "rlpEncodeEIP1559ForSigning tx = rlp_enc (RL (dynamic_tree tx))"
  by (simp add: rlpEncodeEIP1559ForSigning_def tree_simps del: rlp_opaque)

lemma legacy_signed_tree:
  "rlpEncodeLegacySigned tx =
     rlp_enc (RL (body_tree tx @ [num (amount (tx_V tx)), num (amount (tx_R tx)), num (amount (tx_S tx))]))"
  by (simp add: rlpEncodeLegacySigned_def tree_simps del: rlp_opaque)

lemma dynamic_signed_tree:
  "rlpEncodeEIP1559Signed tx = EIP1559TxType #
     rlp_enc (RL (dynamic_tree tx @ [num (amount (tx_V tx)), num (amount (tx_R tx)), num (amount (tx_S tx))]))"
  by (simp add: rlpEncodeEIP1559Signed_def tree_simps del: rlp_opaque)

lemma to_bytes_inject:
  "tx_wf t \<Longrightarrow> tx_wf t' \<Longrightarrow> to_bytes (tx_To t) = to_bytes (tx_To t') \<longleftrightarrow> tx_To t = tx_To t'"
  by (auto simp: tx_wf_def to_bytes_def split: option.splits)

lemma inj_tuple_tree: "inj (\<lambda>t :: access_tuple. RL [RB (at_address t), RL (map RB (at_keys t))])"
proof (rule injI)
  fix t u :: access_tuple
  assume "RL [RB (at_address t), RL (map RB (at_keys t))] = RL [RB (at_address u), RL (map RB (at_keys u))]"
  then have "at_address t = at_address u" "map RB (at_keys t) = map RB (at_keys u)" by simp_all
  moreover from this(2) have "at_keys t = at_keys u" by (simp add: inj_map_eq_map inj_def)
  ultimately show "t = u" by simp
qed

lemma access_tree_inject [simp]: "access_tree a = access_tree b \<longleftrightarrow> a = b"
  using inj_tuple_tree by (simp add: access_tree_def inj_map_eq_map)

lemma length_body_tree [simp]: "length (body_tree tx) = 6"
  by (simp add: body_tree_def)

lemma chain_tree_inject:
  "chain_tree c = chain_tree c' \<longleftrightarrow>
     (\<exists>i. c = Some i \<and> 0 < i \<and> c' = c) \<or>
     (\<not> (\<exists>i. c = Some i \<and> 0 < i) \<and> \<not> (\<exists>i. c' = Some i \<and> 0 < i))"
  by (auto simp: chain_tree_def split: option.splits if_splits)

lemma u64_inject: "unat (x :: u64) = unat y \<longleftrightarrow> x = y"
  by (rule word_unat_eq_iff [symmetric])

lemma body_tree_inject:
  assumes "tx_wf t" "tx_wf t'"
  shows "body_tree t = body_tree t' \<longleftrightarrow>
     tx_Nonce t = tx_Nonce t' \<and> amount (tx_GasPrice t) = amount (tx_GasPrice t') \<and>
     tx_GasLimit t = tx_GasLimit t' \<and> tx_To t = tx_To t' \<and>
     amount (tx_Value t) = amount (tx_Value t') \<and> tx_Data t = tx_Data t'"
  using to_bytes_inject [OF assms] by (simp add: body_tree_def u64_inject)

lemma dynamic_tree_inject:
  assumes "tx_wf t" "tx_wf t'"
  shows "dynamic_tree t = dynamic_tree t' \<longleftrightarrow>
     amount (tx_ChainID t) = amount (tx_ChainID t') \<and>
     tx_Nonce t = tx_Nonce t' \<and>
     amount (tx_MaxPriorityFeePerGas t) = amount (tx_MaxPriorityFeePerGas t') \<and>
     amount (tx_MaxFeePerGas t) = amount (tx_MaxFeePerGas t') \<and>
     tx_GasLimit t = tx_GasLimit t' \<and> tx_To t = tx_To t' \<and>
     amount (tx_Value t) = amount (tx_Value t') \<and> tx_Data t = tx_Data t' \<and>
     tx_AccessList t = tx_AccessList t'"
  using to_bytes_inject [OF assms] by (simp add: dynamic_tree_def u64_inject)

text \<open>A legacy payload is an RLP list, so its first byte is at least 192, never a type byte.\<close>

lemma rlp_list_first_byte:
  "length (rlp_enc (RL vs)) < 256 ^ 8 \<Longrightarrow> 192 \<le> unat (hd (rlp_enc (RL vs)))"
proof -
  assume l: "length (rlp_enc (RL vs)) < 256 ^ 8"
  let ?p = "concat (map rlp_enc vs)"
  have "length ?p < 256 ^ 8" using l by (simp add: Let_def)
  then obtain b bs where "rlp_header (length ?p) 192 @ ?p @ [] = b # bs" "192 \<le> unat b"
    by (rule rlp_payload_header [of _ 192 ?p "[]"]) auto
  then show ?thesis by (simp add: Let_def)
qed

section \<open>Properties\<close>

text \<open>Go slices are shorter than \<open>2 ^ 63\<close> bytes, so every payload is within what RLP can frame.\<close>

lemma go_length: "n < 2 ^ 63 \<Longrightarrow> n < (256 :: nat) ^ 8"
  by simp


definition tx_example :: UnsignedTransaction where
  "tx_example = \<lparr>tx_Type = 0, tx_ChainID = Some 10, tx_Nonce = 7, tx_GasPrice = Some 1000,
     tx_MaxPriorityFeePerGas = Some 2, tx_MaxFeePerGas = Some 300, tx_GasLimit = 21000,
     tx_To = Some (replicate 20 0xAB), tx_Value = Some 5, tx_Data = [1, 2, 3],
     tx_AccessList = [\<lparr>at_address = replicate 20 1, at_keys = [replicate 32 2]\<rparr>]\<rparr>"

lemmas payload_eval = tx_example_def rlpEncodeLegacyForSigning_def rlpEncodeEIP1559ForSigning_def
  signing_payload_def EncodeRLP_def WithSignature_def UnsignedTransaction.extend_def
  rlpEncodeLegacySigned_def rlpEncodeEIP1559Signed_def encodeAccessList_def to_item_def
  rlpEncodeBytes_def rlpEncodeUint_def rlpEncodeBigInt_def rlpEncodeLength_def nat_be.simps
  LegacyTxType_def EIP1559TxType_def

lemma tx_example_wf: "tx_wf tx_example"
  by (simp add: tx_wf_def tx_example_def)




text \<open>
  The two kinds of transaction never share a payload: the one of an EIP-1559
  transaction starts with its type byte, the one of a legacy transaction with a list header.
\<close>

lemma payload_kinds_disjoint:
  assumes "tx_Type t = EIP1559TxType" "tx_Type t' = LegacyTxType"
    "length (signing_payload t' c') < 2 ^ 63"
  shows "signing_payload t c \<noteq> signing_payload t' c'"
proof
  assume eq: "signing_payload t c = signing_payload t' c'"
  have ty: "LegacyTxType \<noteq> EIP1559TxType" by (simp add: LegacyTxType_def EIP1559TxType_def)
  have p: "signing_payload t' c' = rlp_enc (RL (body_tree t' @ chain_tree c'))"
    using assms(2) ty by (simp add: signing_payload_def legacy_payload_tree del: rlp_enc.simps)
  have "192 \<le> unat (hd (signing_payload t' c'))"
    unfolding p using assms(3) p by (intro rlp_list_first_byte go_length) simp
  moreover have "unat (hd (signing_payload t c)) = 2"
    using assms(1) by (simp add: signing_payload_def EIP1559TxType_def)
  ultimately show False using eq by simp
qed

theorem payload_kinds_disjoint_witness:
  "signing_payload (tx_example\<lparr>tx_Type := EIP1559TxType\<rparr>) None \<noteq>
     signing_payload tx_example (Some 10)"
proof (rule payload_kinds_disjoint)
  show "length (signing_payload tx_example (Some 10)) < 2 ^ 63" by (simp add: payload_eval)
qed (simp_all add: tx_example_def LegacyTxType_def)

text \<open>
  The encoding of a signed legacy transaction is the RLP list of its six fields
  followed by v, r and s and nothing else: decoding it gives exactly these back.
\<close>

lemma signed_legacy_decodes:
  assumes "tx_Type t = LegacyTxType" "length (EncodeRLP (WithSignature t v r s)) < 2 ^ 63"
  shows "rlp_decode (EncodeRLP (WithSignature t v r s)) =
     Some (RL [num (unat (tx_Nonce t)), num (amount (tx_GasPrice t)), num (unat (tx_GasLimit t)),
       RB (to_bytes (tx_To t)), num (amount (tx_Value t)), RB (tx_Data t),
       num (amount v), num (amount r), num (amount s)])"
proof -
  let ?t = "WithSignature t v r s"
  have e: "EncodeRLP ?t = rlp_enc (RL (body_tree ?t @ [num (amount v), num (amount r), num (amount s)]))"
    using assms(1) by (simp add: EncodeRLP_def LegacyTxType_def EIP1559TxType_def WithSignature_def
        UnsignedTransaction.extend_def legacy_signed_tree del: rlp_enc.simps)
  have "rlp_decode (EncodeRLP ?t) =
      Some (RL (body_tree ?t @ [num (amount v), num (amount r), num (amount s)]))"
    unfolding e by (rule rlp_decode_enc) (use assms(2) e in simp)
  then show ?thesis
    by (simp add: body_tree_def WithSignature_def UnsignedTransaction.extend_def)
qed

theorem signed_legacy_decodes_witness:
  "rlp_decode (EncodeRLP (WithSignature tx_example (Some 55) (Some 9) (Some 8))) =
     Some (RL [num 7, num 1000, num 21000, RB (replicate 20 0xAB), num 5, RB [1, 2, 3],
       num 55, num 9, num 8])"
proof -
  have "length (EncodeRLP (WithSignature tx_example (Some 55) (Some 9) (Some 8))) < 2 ^ 63"
    by (simp add: payload_eval)
  from signed_legacy_decodes [OF _ this] show ?thesis
    by (simp add: tx_example_def LegacyTxType_def amount_def to_bytes_def)
qed

text \<open>
  The encoding of a signed EIP-1559 transaction is the type byte followed by the RLP
  list of its nine fields and the signature.
\<close>

lemma signed_eip1559_decodes:
  assumes "tx_Type t = EIP1559TxType" "length (EncodeRLP (WithSignature t v r s)) < 2 ^ 63"
  shows "hd (EncodeRLP (WithSignature t v r s)) = EIP1559TxType \<and>
    rlp_decode (tl (EncodeRLP (WithSignature t v r s))) =
     Some (RL [num (amount (tx_ChainID t)), num (unat (tx_Nonce t)),
       num (amount (tx_MaxPriorityFeePerGas t)), num (amount (tx_MaxFeePerGas t)),
       num (unat (tx_GasLimit t)), RB (to_bytes (tx_To t)), num (amount (tx_Value t)),
       RB (tx_Data t), access_tree (tx_AccessList t), num (amount v), num (amount r),
       num (amount s)])"
proof -
  let ?t = "WithSignature t v r s"
  have e: "EncodeRLP ?t = EIP1559TxType #
      rlp_enc (RL (dynamic_tree ?t @ [num (amount v), num (amount r), num (amount s)]))"
    using assms(1) by (simp add: EncodeRLP_def WithSignature_def
        UnsignedTransaction.extend_def dynamic_signed_tree del: rlp_enc.simps)
  have "rlp_decode (tl (EncodeRLP ?t)) =
      Some (RL (dynamic_tree ?t @ [num (amount v), num (amount r), num (amount s)]))"
    unfolding e list.sel by (rule rlp_decode_enc) (use assms(2) e in simp)
  then show ?thesis
    using e by (simp add: dynamic_tree_def WithSignature_def UnsignedTransaction.extend_def)
qed

theorem signed_eip1559_decodes_witness:
  "hd (EncodeRLP (WithSignature (tx_example\<lparr>tx_Type := EIP1559TxType\<rparr>) (Some 1) (Some 9) (Some 8))) =
     EIP1559TxType"
proof (rule signed_eip1559_decodes [THEN conjunct1])
  show "length (EncodeRLP (WithSignature (tx_example\<lparr>tx_Type := EIP1559TxType\<rparr>)
      (Some 1) (Some 9) (Some 8))) < 2 ^ 63"
    by (simp add: payload_eval)
qed simp

text \<open>
  A negative amount is signed as its magnitude. \<open>DecodeBig\<close> accepts a minus sign
  after the \<open>0x\<close>, no check follows, and the encoder drops it: the payload for the value -v is the
  one for v.
\<close>

lemma negative_value_signed_as_positive:
  "DecodeBig (''0x-'' @ hex_of_nat n) = Inr (- int n) \<and>
   rlpEncodeLegacyForSigning (t\<lparr>tx_Value := Some (- int n)\<rparr>) c =
     rlpEncodeLegacyForSigning (t\<lparr>tx_Value := Some (int n)\<rparr>) c"
proof
  have "trim_prefix zero_x (''0x-'' @ hex_of_nat n) = CHR ''-'' # hex_of_nat n"
    by (simp add: trim_prefix_def)
  then show "DecodeBig (''0x-'' @ hex_of_nat n) = Inr (- int n)"
    by (simp add: DecodeBig_def set_string16_def Let_def)
  show "rlpEncodeLegacyForSigning (t\<lparr>tx_Value := Some (- int n)\<rparr>) c =
     rlpEncodeLegacyForSigning (t\<lparr>tx_Value := Some (int n)\<rparr>) c"
    by (simp add: legacy_payload_tree body_tree_def amount_def del: rlp_enc.simps)
qed

end
