(* ===== verification/Secp256k1.thy ===== *)
theory Secp256k1
  imports GoText
begin

text \<open>
  The cryptographic layer of the OpenBao plugin, \<open>plugin/secp256k1/crypto.go\<close>. The elliptic
  curve itself is the third-party library btcec and the hash functions are \<open>crypto/sha256\<close>
  and \<open>golang.org/x/crypto\<close>: they are the fields of the record \<open>curve\<close>, an argument of every
  definition, and \<open>curve_ok\<close> and \<open>recover_ok\<close> state what is documented of them. What the plugin adds
  is modelled: taking r and s out of a DER signature, low-S normalisation, the 64-byte R||S
  format and its parser, the recovery id and the EIP-155 v, and EIP-55 addresses. A scalar
  (\<open>btcec.ModNScalar\<close>) is represented by its value.
\<close>

section \<open>The library\<close>

record ('sk, 'pk, 'sg) curve =
  lib_sign :: "'sk \<Rightarrow> bytes \<Rightarrow> 'sg"
  lib_serialize :: "'sg \<Rightarrow> bytes"
  lib_new_signature :: "nat \<Rightarrow> nat \<Rightarrow> 'sg"
  lib_parse_der :: "bytes \<Rightarrow> 'sg option"
  lib_verify :: "'sg \<Rightarrow> bytes \<Rightarrow> 'pk \<Rightarrow> bool"
  lib_recover :: "bytes \<Rightarrow> bytes \<Rightarrow> 'pk option"
  lib_pub :: "'sk \<Rightarrow> 'pk"
  lib_pub_equal :: "'pk \<Rightarrow> 'pk \<Rightarrow> bool"
  lib_priv_from_bytes :: "bytes \<Rightarrow> 'sk"
  lib_priv_serialize :: "'sk \<Rightarrow> bytes"
  lib_compressed :: "'pk \<Rightarrow> bytes"
  lib_uncompressed :: "'pk \<Rightarrow> bytes"
  lib_parse_pub :: "bytes \<Rightarrow> 'pk option"
  lib_set_bytes :: "bytes \<Rightarrow> nat \<times> bool"
  lib_put_bytes :: "nat \<Rightarrow> bytes"
  lib_over_half :: "nat \<Rightarrow> bool"
  lib_negate :: "nat \<Rightarrow> nat"
  lib_sha256 :: "bytes \<Rightarrow> bytes"
  lib_keccak256 :: "bytes \<Rightarrow> bytes"
  lib_ripemd160 :: "bytes \<Rightarrow> bytes"

text \<open>The errors of crypto.go; \<open>Panic\<close> stands for a run-time panic (index out of range).\<close>

datatype crypto_error =
    GenerateFailed
  | HashLength nat
  | NilPrivateKey
  | NilPublicKey
  | NilChainID
  | SignatureLength nat
  | ROverflows
  | SOverflows
  | RSZero
  | PublicKeyEmpty
  | PublicKeyInvalid
  | PrivateKeyLength nat
  | RecoverFailed
  | Panic

section \<open>crypto.go\<close>

text \<open>\<open>GenerateKey\<close> gets the outcome of the library's random key generation.\<close>

definition GenerateKey :: "('sk, 'pk, 'sg) curve \<Rightarrow> 'sk option \<Rightarrow> crypto_error + ('sk \<times> 'pk)" where
  "GenerateKey L fresh = (case fresh of None \<Rightarrow> Inl GenerateFailed | Some k \<Rightarrow> Inr (k, lib_pub L k))"

definition strip33 :: "bytes \<Rightarrow> bytes" where
  "strip33 b = (if length b = 33 \<and> hd b = 0 then tl b else b)"

definition extractRSFromDER :: "('sk, 'pk, 'sg) curve \<Rightarrow> bytes \<Rightarrow> (nat \<times> nat) option" where
  "extractRSFromDER L der =
     Option.bind (go_index der 3) (\<lambda>rl. let rLen = unat rl in
     Option.bind (go_slice der 4 (4 + rLen)) (\<lambda>rBytes.
     Option.bind (go_index der (4 + rLen + 1)) (\<lambda>sl. let sLen = unat sl in
     Option.bind (go_slice der (4 + rLen + 2) (4 + rLen + 2 + sLen)) (\<lambda>sBytes.
     Option.bind (pad_left 32 (strip33 rBytes)) (\<lambda>rPadded.
     Option.bind (pad_left 32 (strip33 sBytes)) (\<lambda>sPadded.
       Some (fst (lib_set_bytes L rPadded), fst (lib_set_bytes L sPadded))))))))"

definition low_s :: "('sk, 'pk, 'sg) curve \<Rightarrow> nat \<Rightarrow> nat" where
  "low_s L s = (if lib_over_half L s then lib_negate L s else s)"

definition formatCosmosSignature :: "('sk, 'pk, 'sg) curve \<Rightarrow> 'sg \<Rightarrow> bytes option" where
  "formatCosmosSignature L sig =
     (case extractRSFromDER L (lib_serialize L sig) of
        None \<Rightarrow> None
      | Some (r, s) \<Rightarrow> Some (lib_put_bytes L r @ lib_put_bytes L (low_s L s)))"

definition SignMessage :: "('sk, 'pk, 'sg) curve \<Rightarrow> 'sk option \<Rightarrow> bytes \<Rightarrow> crypto_error + bytes" where
  "SignMessage L privKey hash =
     (if length hash \<noteq> 32 then Inl (HashLength (length hash))
      else case privKey of
        None \<Rightarrow> Inl NilPrivateKey
      | Some k \<Rightarrow> of_option Panic (formatCosmosSignature L (lib_sign L k hash)))"

definition parseCosmosSignature :: "('sk, 'pk, 'sg) curve \<Rightarrow> bytes \<Rightarrow> crypto_error + 'sg" where
  "parseCosmosSignature L sigBytes =
     (if length sigBytes \<noteq> 64 then Inl (SignatureLength (length sigBytes))
      else let (r, r_over) = lib_set_bytes L (take 32 sigBytes);
               (s, s_over) = lib_set_bytes L (drop 32 sigBytes)
      in if r_over then Inl ROverflows
         else if s_over then Inl SOverflows
         else if r = 0 \<or> s = 0 then Inl RSZero
         else Inr (lib_new_signature L r s))"

definition VerifySignature ::
  "('sk, 'pk, 'sg) curve \<Rightarrow> 'pk option \<Rightarrow> bytes \<Rightarrow> bytes \<Rightarrow> crypto_error + bool" where
  "VerifySignature L pubKey hash sigBytes =
     (case pubKey of
        None \<Rightarrow> Inl NilPublicKey
      | Some pk \<Rightarrow>
          if length hash \<noteq> 32 then Inl (HashLength (length hash))
          else res_bind (parseCosmosSignature L sigBytes) (\<lambda>sig. Inr (lib_verify L sig hash pk)))"

definition SerializePublicKey :: "('sk, 'pk, 'sg) curve \<Rightarrow> 'pk option \<Rightarrow> bytes" where
  "SerializePublicKey L pk = (case pk of None \<Rightarrow> [] | Some k \<Rightarrow> lib_compressed L k)"

definition ParsePublicKey :: "('sk, 'pk, 'sg) curve \<Rightarrow> bytes \<Rightarrow> crypto_error + 'pk" where
  "ParsePublicKey L data =
     (if data = [] then Inl PublicKeyEmpty
      else of_option PublicKeyInvalid (lib_parse_pub L data))"

definition ParsePrivateKey :: "('sk, 'pk, 'sg) curve \<Rightarrow> bytes \<Rightarrow> crypto_error + 'sk" where
  "ParsePrivateKey L data =
     (if length data \<noteq> 32 then Inl (PrivateKeyLength (length data))
      else Inr (lib_priv_from_bytes L data))"

definition SerializePrivateKey :: "('sk, 'pk, 'sg) curve \<Rightarrow> 'sk option \<Rightarrow> bytes" where
  "SerializePrivateKey L k = (case k of None \<Rightarrow> [] | Some sk \<Rightarrow> lib_priv_serialize L sk)"

definition deriveCosmosAddress :: "('sk, 'pk, 'sg) curve \<Rightarrow> bytes \<Rightarrow> bytes" where
  "deriveCosmosAddress L pubKey = lib_ripemd160 L (lib_sha256 L pubKey)"

definition secureZero :: "bytes \<Rightarrow> bytes" where
  "secureZero b = map (\<lambda>_. 0) b"

definition deriveEthereumAddress :: "('sk, 'pk, 'sg) curve \<Rightarrow> 'pk \<Rightarrow> bytes" where
  "deriveEthereumAddress L pk = drop 12 (lib_keccak256 L (drop 1 (lib_uncompressed L pk)))"

definition deriveEthereumAddressFromBytes ::
  "('sk, 'pk, 'sg) curve \<Rightarrow> bytes \<Rightarrow> crypto_error + bytes" where
  "deriveEthereumAddressFromBytes L pubKeyBytes =
     res_bind (ParsePublicKey L pubKeyBytes) (\<lambda>pk. Inr (deriveEthereumAddress L pk))"

definition checksum_char :: "bytes \<Rightarrow> nat \<Rightarrow> char \<Rightarrow> char" where
  "checksum_char hash i c =
     (let b = hash ! (i div 2);
          nibble = (if i mod 2 = 0 then drop_bit 4 b else b AND 0x0f)
      in if 8 \<le> nibble \<and> 97 \<le> (of_char c :: nat) \<and> (of_char c :: nat) \<le> 102
         then char_of (of_char c - 32 :: nat) else c)"

definition formatEthereumAddress :: "('sk, 'pk, 'sg) curve \<Rightarrow> bytes \<Rightarrow> string" where
  "formatEthereumAddress L addr =
     (if length addr \<noteq> 20 then []
      else let hexAddr = hex_encode addr; hash = lib_keccak256 L (bytes_of_ascii hexAddr)
           in zero_x @ map (\<lambda>i. checksum_char hash i (hexAddr ! i)) [0..<40])"

text \<open>
  \<open>verifyRecovery\<close>: r and s are padded to 32 bytes and put behind the byte 27 + id; the result is
  whether the library recovers the expected key from that. \<open>None\<close> is the panic of padding a number of more than
  32 bytes.
\<close>

definition compact_sig :: "byte \<Rightarrow> nat \<Rightarrow> nat \<Rightarrow> bytes option" where
  "compact_sig recoveryID r s =
     Option.bind (pad_left 32 (nat_be r)) (\<lambda>rPadded.
     Option.bind (pad_left 32 (nat_be s)) (\<lambda>sPadded.
       Some ((27 + recoveryID) # rPadded @ sPadded)))"

definition verifyRecovery ::
  "('sk, 'pk, 'sg) curve \<Rightarrow> bytes \<Rightarrow> nat \<Rightarrow> nat \<Rightarrow> byte \<Rightarrow> 'pk \<Rightarrow> bool option" where
  "verifyRecovery L hash r s recoveryID expected =
     (case compact_sig recoveryID r s of
        None \<Rightarrow> None
      | Some c \<Rightarrow> Some (case lib_recover L c hash of
            None \<Rightarrow> False
          | Some pk \<Rightarrow> lib_pub_equal L pk expected))"

text \<open>
  The common part of \<open>SignEIP155\<close> and \<open>SignLegacy\<close>: sign, normalise s, guess the recovery id
  and flip it when recovery with the guess does not give the signer's key.
\<close>

definition sign_recoverable ::
  "('sk, 'pk, 'sg) curve \<Rightarrow> 'sk \<Rightarrow> bytes \<Rightarrow> (byte \<times> nat \<times> nat) option" where
  "sign_recoverable L k hash =
     Option.bind (extractRSFromDER L (lib_serialize L (lib_sign L k hash))) (\<lambda>(rScalar, sScalar).
       let recoveryID = (if lib_over_half L sScalar then 1 else 0 :: byte);
           r = be_nat (lib_put_bytes L rScalar);
           s = be_nat (lib_put_bytes L (low_s L sScalar))
       in Option.bind (verifyRecovery L hash r s recoveryID (lib_pub L k)) (\<lambda>ok.
            Some (if ok then recoveryID else 1 - recoveryID, r, s)))"

definition SignEIP155 ::
  "('sk, 'pk, 'sg) curve \<Rightarrow> 'sk option \<Rightarrow> bytes \<Rightarrow> int option \<Rightarrow> crypto_error + (int \<times> nat \<times> nat)" where
  "SignEIP155 L privKey hash chainID =
     (if length hash \<noteq> 32 then Inl (HashLength (length hash))
      else case privKey of
        None \<Rightarrow> Inl NilPrivateKey
      | Some k \<Rightarrow>
          (case chainID of
             None \<Rightarrow> Inl NilChainID
           | Some c \<Rightarrow>
               (case sign_recoverable L k hash of
                  None \<Rightarrow> Inl Panic
                | Some (recoveryID, r, s) \<Rightarrow> Inr (c * 2 + 35 + uint recoveryID, r, s))))"

definition SignLegacy ::
  "('sk, 'pk, 'sg) curve \<Rightarrow> 'sk option \<Rightarrow> bytes \<Rightarrow> crypto_error + (int \<times> nat \<times> nat)" where
  "SignLegacy L privKey hash =
     (if length hash \<noteq> 32 then Inl (HashLength (length hash))
      else case privKey of
        None \<Rightarrow> Inl NilPrivateKey
      | Some k \<Rightarrow>
          (case sign_recoverable L k hash of
             None \<Rightarrow> Inl Panic
           | Some (recoveryID, r, s) \<Rightarrow> Inr (27 + uint recoveryID, r, s)))"

text \<open>
  \<open>big.Int.Int64\<close> keeps the low 64 bits in two's complement; \<open>byte(...)\<close> the low 8 of these.
\<close>

definition big_Int64 :: "int \<Rightarrow> u64" where
  "big_Int64 x = word_of_int x"

definition recovery_id_of_v :: "byte \<Rightarrow> int option \<Rightarrow> byte" where
  "recovery_id_of_v v chainID =
     (case chainID of
        Some c \<Rightarrow> if c > 0 then ucast (big_Int64 (uint v - (35 + c * 2)))
                  else if 27 \<le> v then v - 27 else v
      | None \<Rightarrow> if 27 \<le> v then v - 27 else v)"

definition RecoverPubKeyFromSignature ::
  "('sk, 'pk, 'sg) curve \<Rightarrow> bytes \<Rightarrow> bytes \<Rightarrow> int option \<Rightarrow> crypto_error + 'pk" where
  "RecoverPubKeyFromSignature L hash sig chainID =
     (if length hash \<noteq> 32 then Inl (HashLength (length hash))
      else if length sig \<noteq> 65 then Inl (SignatureLength (length sig))
      else of_option RecoverFailed
        (lib_recover L ((27 + recovery_id_of_v (sig ! 64) chainID) # take 32 sig @ take 32 (drop 32 sig)) hash))"

section \<open>What is documented of the library\<close>

text \<open>The DER form of a signature as the comments of crypto.go give it.\<close>

definition der_content :: "nat \<Rightarrow> bytes" where
  "der_content n =
     (let b = nat_be n in if b = [] then [0] else if 128 \<le> unat (hd b) then 0 # b else b)"

definition der_int :: "nat \<Rightarrow> bytes" where
  "der_int n = 0x02 # word_of_nat (length (der_content n)) # der_content n"

definition der_sig :: "nat \<Rightarrow> nat \<Rightarrow> bytes" where
  "der_sig r s = 0x30 # word_of_nat (length (der_int r @ der_int s)) # der_int r @ der_int s"

text \<open>
  \<open>n\<close> is the group order and \<open>rs\<close> the pair of scalars of a signature. Scalar operations work
  modulo the order; a fresh signature has non-zero scalars; its DER form holds r and either s
  or its negation (btcec serialises the low one, the code does not rely on it).
\<close>

definition curve_ok :: "('sk, 'pk, 'sg) curve \<Rightarrow> nat \<Rightarrow> ('sg \<Rightarrow> nat \<times> nat) \<Rightarrow> bool" where
  "curve_ok L n rs \<longleftrightarrow> 0 < n \<and> n \<le> 2 ^ 256 \<and>
     (\<forall>b. length b = 32 \<longrightarrow> lib_set_bytes L b = (be_nat b mod n, n \<le> be_nat b)) \<and>
     (\<forall>x<n. length (lib_put_bytes L x) = 32 \<and> be_nat (lib_put_bytes L x) = x) \<and>
     (\<forall>x<n. lib_over_half L x \<longleftrightarrow> n div 2 < x) \<and>
     (\<forall>x. 0 < x \<and> x < n \<longrightarrow> lib_negate L x = n - x) \<and>
     (\<forall>k h. length h = 32 \<longrightarrow>
        0 < fst (rs (lib_sign L k h)) \<and> fst (rs (lib_sign L k h)) < n \<and>
        0 < snd (rs (lib_sign L k h)) \<and> snd (rs (lib_sign L k h)) < n) \<and>
     (\<forall>g. 0 < snd (rs g) \<and> snd (rs g) < n \<longrightarrow>
        lib_serialize L g = der_sig (fst (rs g)) (snd (rs g)) \<or>
        lib_serialize L g = der_sig (fst (rs g)) (n - snd (rs g))) \<and>
     (\<forall>r s. rs (lib_new_signature L r s) = (r, s))"

definition canonical :: "nat \<Rightarrow> nat \<Rightarrow> nat" where
  "canonical n s = (if n div 2 < s then n - s else s)"

text \<open>
  One of the two recovery ids gives the signer's key back. (Ids 2 and 3 belong to signatures
  whose r was reduced modulo the order, which the code leaves aside; so does this statement.)
\<close>

definition recover_ok :: "('sk, 'pk, 'sg) curve \<Rightarrow> nat \<Rightarrow> ('sg \<Rightarrow> nat \<times> nat) \<Rightarrow> bool" where
  "recover_ok L n rs \<longleftrightarrow>
     (\<forall>k h R S. length h = 32 \<and> length R = 32 \<and> length S = 32 \<and>
        be_nat R = fst (rs (lib_sign L k h)) \<and> be_nat S = canonical n (snd (rs (lib_sign L k h))) \<longrightarrow>
        (\<exists>b \<in> {27, 28}. \<exists>pk. lib_recover L (b # R @ S) h = Some pk \<and> lib_pub_equal L pk (lib_pub L k)))"

section \<open>Reading DER\<close>

lemma der_content_length: "n < 2 ^ 256 \<Longrightarrow> length (der_content n) \<le> 33"
  using nat_be_length_le [of n 32] by (simp add: der_content_def Let_def)

lemma be_nat_der_content [simp]: "be_nat (der_content n) = n"
proof (cases "nat_be n = []")
  case True
  then show ?thesis by (simp add: der_content_def)
next
  case False
  have "be_nat (0 # nat_be n) = n" by simp
  then show ?thesis using False by (simp add: der_content_def Let_def del: be_nat_Cons)
qed

lemma strip33_der:
  assumes "n < 2 ^ 256"
  shows "length (strip33 (der_content n)) \<le> 32" "be_nat (strip33 (der_content n)) = n"
proof -
  have "length (nat_be n) \<le> 32" using assms nat_be_length_le [of n 32] by simp
  then show "length (strip33 (der_content n)) \<le> 32"
    by (auto simp: strip33_def der_content_def Let_def)
  show "be_nat (strip33 (der_content n)) = n"
  proof (cases "length (der_content n) = 33 \<and> hd (der_content n) = 0")
    case True
    then obtain cs where c: "der_content n = 0 # cs"
      by (cases "der_content n") auto
    have "be_nat cs = n" using be_nat_der_content [of n] c by simp
    then show ?thesis using True c by (simp add: strip33_def)
  next
    case False
    then show ?thesis by (simp only: strip33_def if_False be_nat_der_content)
  qed
qed

lemma pad_strip33:
  assumes "n < 2 ^ 256"
  obtains p where "pad_left 32 (strip33 (der_content n)) = Some p" "length p = 32" "be_nat p = n"
  using strip33_der [OF assms] by (auto simp: pad_left_def be_nat_append)

lemma unat_der_length: "n < 2 ^ 256 \<Longrightarrow> unat (word_of_nat (length (der_content n)) :: byte) = length (der_content n)"
  using der_content_length [of n] by (intro unat_byte_of_nat_lt) simp

lemma der_sig_parts:
  assumes "r < 2 ^ 256" "s < 2 ^ 256"
  defines "d \<equiv> der_sig r s" and "a \<equiv> length (der_content r)" and "b \<equiv> length (der_content s)"
  shows "go_index d 3 = Some (word_of_nat a)"
    "go_slice d 4 (4 + a) = Some (der_content r)"
    "go_index d (4 + a + 1) = Some (word_of_nat b)"
    "go_slice d (4 + a + 2) (4 + a + 2 + b) = Some (der_content s)"
proof -
  obtain l where d: "d = [0x30, l, 0x02, word_of_nat a] @ der_content r @ 0x02 # word_of_nat b # der_content s"
    by (simp add: d_def der_sig_def der_int_def a_def b_def)
  show "go_index d 3 = Some (word_of_nat a)" by (simp add: d go_index_def numeral_eq_Suc)
  show "go_slice d 4 (4 + a) = Some (der_content r)" by (simp add: d go_slice_def a_def numeral_eq_Suc)
  show "go_index d (4 + a + 1) = Some (word_of_nat b)"
    by (simp add: d go_index_def a_def numeral_eq_Suc nth_append)
  show "go_slice d (4 + a + 2) (4 + a + 2 + b) = Some (der_content s)"
    by (simp add: d go_slice_def a_def b_def numeral_eq_Suc)
qed

lemma extract_der_sig:
  assumes ok: "curve_ok L n rs" and "r < n" "s < n"
  shows "extractRSFromDER L (der_sig r s) = Some (r, s)"
proof -
  have n: "n \<le> 2 ^ 256" using ok by (simp add: curve_ok_def)
  then have b: "r < 2 ^ 256" "s < 2 ^ 256" using assms by linarith+
  obtain p where p: "pad_left 32 (strip33 (der_content r)) = Some p" "length p = 32" "be_nat p = r"
    using pad_strip33 [OF b(1)] .
  obtain q where q: "pad_left 32 (strip33 (der_content s)) = Some q" "length q = 32" "be_nat q = s"
    using pad_strip33 [OF b(2)] .
  have "lib_set_bytes L p = (r, False)" "lib_set_bytes L q = (s, False)"
    using ok p q assms by (auto simp: curve_ok_def)
  then show ?thesis
    unfolding extractRSFromDER_def Let_def
    using der_sig_parts [OF b] p(1) q(1)
    by (simp add: unat_der_length [OF b(1)] unat_der_length [OF b(2)])
qed

section \<open>Low S\<close>

lemma canonical_bounds: "0 < s \<Longrightarrow> s < n \<Longrightarrow> 0 < canonical n s \<and> canonical n s < n \<and> canonical n s \<le> n div 2"
  by (auto simp: canonical_def)

lemma canonical_negated: "0 < s \<Longrightarrow> s < n \<Longrightarrow> canonical n (n - s) = canonical n s"
  by (auto simp: canonical_def)

lemma low_s_canonical: "curve_ok L n rs \<Longrightarrow> 0 < s \<Longrightarrow> s < n \<Longrightarrow> low_s L s = canonical n s"
  by (simp add: low_s_def canonical_def curve_ok_def)

text \<open>Whatever of s and its negation the DER form carries, the plugin ends with the low one.\<close>

lemma extract_low:
  assumes ok: "curve_ok L n rs" and g: "fst (rs g) < n" "0 < snd (rs g)" "snd (rs g) < n"
  obtains s where "extractRSFromDER L (lib_serialize L g) = Some (fst (rs g), s)" "s < n" "0 < s"
    "low_s L s = canonical n (snd (rs g))"
proof -
  let ?r = "fst (rs g)" and ?s = "snd (rs g)"
  have lt: "n - ?s < n" using g by simp
  have "lib_serialize L g = der_sig ?r ?s \<or> lib_serialize L g = der_sig ?r (n - ?s)"
    using ok g by (simp add: curve_ok_def)
  then show ?thesis
  proof
    assume "lib_serialize L g = der_sig ?r ?s"
    then show ?thesis
      using that [of ?s] extract_der_sig [OF ok g(1) g(3)] low_s_canonical [OF ok g(2,3)] g by simp
  next
    assume "lib_serialize L g = der_sig ?r (n - ?s)"
    then show ?thesis
      using that [of "n - ?s"] extract_der_sig [OF ok g(1) lt] low_s_canonical [OF ok, of "n - ?s"]
        canonical_negated [OF g(2,3)] g by simp
  qed
qed

lemma put_bytes: "curve_ok L n rs \<Longrightarrow> x < n \<Longrightarrow> length (lib_put_bytes L x) = 32 \<and> be_nat (lib_put_bytes L x) = x"
  by (simp add: curve_ok_def)

lemma format_cosmos:
  assumes ok: "curve_ok L n rs" and g: "fst (rs g) < n" "0 < snd (rs g)" "snd (rs g) < n"
  shows "formatCosmosSignature L g =
     Some (lib_put_bytes L (fst (rs g)) @ lib_put_bytes L (canonical n (snd (rs g))))"
  using extract_low [OF ok g] by (metis (mono_tags, lifting) case_prod_conv formatCosmosSignature_def option.simps(5))

lemma sign_scalars:
  assumes "curve_ok L n rs" "length h = 32"
  shows "0 < fst (rs (lib_sign L k h))" "fst (rs (lib_sign L k h)) < n"
    "0 < snd (rs (lib_sign L k h))" "snd (rs (lib_sign L k h)) < n"
  using assms by (simp_all add: curve_ok_def)

lemma parse_cosmos:
  assumes ok: "curve_ok L n rs" and "0 < r" "r < n" "0 < s" "s < n"
  shows "parseCosmosSignature L (lib_put_bytes L r @ lib_put_bytes L s) = Inr (lib_new_signature L r s)"
proof -
  have l: "length (lib_put_bytes L r) = 32" "be_nat (lib_put_bytes L r) = r"
    "length (lib_put_bytes L s) = 32" "be_nat (lib_put_bytes L s) = s"
    using put_bytes [OF ok] assms by simp_all
  have "lib_set_bytes L (lib_put_bytes L r) = (r, False)" "lib_set_bytes L (lib_put_bytes L s) = (s, False)"
    using ok l assms by (auto simp: curve_ok_def)
  then show ?thesis using l assms by (simp add: parseCosmosSignature_def)
qed

section \<open>A concrete library\<close>

text \<open>
  An instance of the library that satisfies what is documented: a signature is a pair of
  scalars derived from the key and the hash, the key is its own public key and recovery always
  answers with the key the signature names. It shows the hypotheses can hold.
\<close>

definition secp_n :: nat where
  "secp_n = 0xFFFFFFFFFFFFFFFFFFFFFFFFFFFFFFFEBAAEDCE6AF48A03BBFD25E8CD0364141"

definition put32 :: "nat \<Rightarrow> bytes" where
  "put32 x = replicate (32 - length (nat_be x)) 0 @ nat_be x"

definition toy_curve :: "(nat, nat, nat \<times> nat) curve" where
  "toy_curve = \<lparr>
     lib_sign = (\<lambda>k h. (k mod (secp_n - 1) + 1, be_nat h mod (secp_n - 1) + 1)),
     lib_serialize = (\<lambda>(r, s). der_sig r s),
     lib_new_signature = Pair,
     lib_parse_der = (\<lambda>_. None),
     lib_verify = (\<lambda>(r, s) h k. r = k mod (secp_n - 1) + 1),
     lib_recover = (\<lambda>c h. Some (be_nat (take 32 (drop 1 c)) - 1)),
     lib_pub = (\<lambda>k. k mod (secp_n - 1)),
     lib_pub_equal = (=),
     lib_priv_from_bytes = (\<lambda>b. be_nat b mod secp_n),
     lib_priv_serialize = put32,
     lib_compressed = (\<lambda>k. 2 # put32 k),
     lib_uncompressed = (\<lambda>k. 4 # put32 k @ put32 k),
     lib_parse_pub = (\<lambda>b. Some (be_nat (drop 1 b))),
     lib_set_bytes = (\<lambda>b. (be_nat b mod secp_n, secp_n \<le> be_nat b)),
     lib_put_bytes = put32,
     lib_over_half = (\<lambda>x. secp_n div 2 < x),
     lib_negate = (\<lambda>x. secp_n - x),
     lib_sha256 = (\<lambda>b. put32 (length b)),
     lib_keccak256 = (\<lambda>b. put32 (length b)),
     lib_ripemd160 = (\<lambda>b. replicate 20 1)\<rparr>"

lemma put32: "x < 2 ^ 256 \<Longrightarrow> length (put32 x) = 32 \<and> be_nat (put32 x) = x"
  using nat_be_length_le [of x 32] by (simp add: put32_def be_nat_append)

lemma secp_n_bounds: "1 < secp_n" "secp_n \<le> 2 ^ 256"
  by (simp_all add: secp_n_def)

lemma mod_pred_less: "x mod (secp_n - 1) + 1 < secp_n"
proof -
  have "x mod (secp_n - 1) < secp_n - 1" using secp_n_bounds by (intro mod_less_divisor) linarith
  then show ?thesis using secp_n_bounds by linarith
qed

lemma toy_curve_ok: "curve_ok toy_curve secp_n id"
  unfolding curve_ok_def
proof (intro conjI allI impI)
  show "0 < secp_n" "secp_n \<le> 2 ^ 256" using secp_n_bounds by simp_all
  fix x assume "x < secp_n"
  then have "x < 2 ^ 256" using secp_n_bounds(2) by (rule less_le_trans)
  then show "length (lib_put_bytes toy_curve x) = 32" "be_nat (lib_put_bytes toy_curve x) = x"
    using put32 by (simp_all add: toy_curve_def)
next
  fix k h
  show "fst (id (lib_sign toy_curve k h)) < secp_n" "snd (id (lib_sign toy_curve k h)) < secp_n"
    using mod_pred_less by (simp_all add: toy_curve_def)
qed (simp_all add: toy_curve_def split_beta)

lemma toy_recover_ok: "recover_ok toy_curve secp_n id"
  by (auto simp: recover_ok_def toy_curve_def)

section \<open>Properties\<close>

text \<open>
  Signing a 32-byte hash never panics and yields 64 bytes R||S: the r of the
  library's signature and the low form of its s, at most half the group order and never zero.
  The parser accepts exactly these bytes back.
\<close>

lemma sign_message_low_s:
  assumes ok: "curve_ok L n rs" and h: "length hash = 32"
  shows "\<exists>R S. SignMessage L (Some k) hash = Inr (R @ S) \<and> length R = 32 \<and> length S = 32 \<and>
     be_nat R = fst (rs (lib_sign L k hash)) \<and>
     be_nat S = canonical n (snd (rs (lib_sign L k hash))) \<and>
     0 < be_nat S \<and> be_nat S \<le> n div 2 \<and>
     parseCosmosSignature L (R @ S) = Inr (lib_new_signature L (be_nat R) (be_nat S))"
proof -
  let ?g = "lib_sign L k hash"
  note g = sign_scalars [OF ok h, of k]
  note c = canonical_bounds [OF g(3,4)]
  have s: "SignMessage L (Some k) hash =
      Inr (lib_put_bytes L (fst (rs ?g)) @ lib_put_bytes L (canonical n (snd (rs ?g))))"
    using h format_cosmos [OF ok g(2-4)] by (simp add: SignMessage_def)
  show ?thesis
    using s put_bytes [OF ok g(2)] put_bytes [OF ok, of "canonical n (snd (rs ?g))"]
      parse_cosmos [OF ok g(1,2), of "canonical n (snd (rs ?g))"] c
    by (intro exI [of _ "lib_put_bytes L (fst (rs ?g))"]
        exI [of _ "lib_put_bytes L (canonical n (snd (rs ?g)))"]) simp
qed

theorem sign_message_low_s_witness:
  "\<exists>R S. SignMessage toy_curve (Some 5) (replicate 32 255) = Inr (R @ S) \<and> length R = 32 \<and>
     length S = 32 \<and> be_nat S \<le> secp_n div 2"
  using sign_message_low_s [OF toy_curve_ok length_replicate, of 5 255] by blast

lemma sign_recoverable_spec:
  assumes ok: "curve_ok L n rs" and rec: "recover_ok L n rs" and h: "length hash = 32"
  obtains rid R S where
    "sign_recoverable L k hash = Some (rid, fst (rs (lib_sign L k hash)), canonical n (snd (rs (lib_sign L k hash))))"
    "rid = 0 \<or> rid = 1" "length R = 32" "length S = 32"
    "be_nat R = fst (rs (lib_sign L k hash))" "be_nat S = canonical n (snd (rs (lib_sign L k hash)))"
    "\<exists>pk. lib_recover L ((27 + rid) # R @ S) hash = Some pk \<and> lib_pub_equal L pk (lib_pub L k)"
proof -
  let ?g = "lib_sign L k hash"
  let ?r = "fst (rs ?g)" and ?s = "canonical n (snd (rs ?g))"
  note g = sign_scalars [OF ok h, of k]
  have n: "n \<le> 2 ^ 256" using ok by (simp add: curve_ok_def)
  have b: "?r < 256 ^ 32" "?s < 256 ^ 32"
    using g canonical_bounds [OF g(3,4)] n by simp_all
  obtain R where R: "pad_left 32 (nat_be ?r) = Some R" "length R = 32" "be_nat R = ?r"
    using pad_left_nat_be [OF b(1)] by blast
  obtain S where S: "pad_left 32 (nat_be ?s) = Some S" "length S = 32" "be_nat S = ?s"
    using pad_left_nat_be [OF b(2)] by blast
  obtain s0 where x: "extractRSFromDER L (lib_serialize L ?g) = Some (?r, s0)" "low_s L s0 = ?s"
    using extract_low [OF ok g(2-4)] by metis
  have p: "be_nat (lib_put_bytes L ?r) = ?r" "be_nat (lib_put_bytes L ?s) = ?s"
    using put_bytes [OF ok] g canonical_bounds [OF g(3,4)] by simp_all
  define guess :: byte where "guess = (if lib_over_half L s0 then 1 else 0)"
  define good where "good b \<longleftrightarrow> (\<exists>pk. lib_recover L (b # R @ S) hash = Some pk \<and> lib_pub_equal L pk (lib_pub L k))" for b
  define rid where "rid = (if good (27 + guess) then guess else 1 - guess)"
  have v: "verifyRecovery L hash ?r ?s guess (lib_pub L k) = Some (good (27 + guess))"
    using R(1) S(1) by (auto simp: verifyRecovery_def compact_sig_def good_def split: option.splits)
  have "sign_recoverable L k hash = Some (rid, ?r, ?s)"
    using x p v by (simp add: sign_recoverable_def rid_def guess_def [symmetric] Let_def)
  moreover have "rid = 0 \<or> rid = 1" by (simp add: rid_def guess_def)
  moreover have "good (27 + rid)"
  proof -
    have "good 27 \<or> good 28"
      using rec h R(2,3) S(2,3) unfolding recover_ok_def good_def by blast
    then show ?thesis by (auto simp: rid_def guess_def)
  qed
  ultimately show ?thesis using that R(2,3) S(2,3) unfolding good_def by blast
qed

text \<open>
  Property C17. An EIP-155 signature has v = 2 * chain + 35 + id with id 0 or 1, the library's r and
  a low, non-zero s, and the id is the one with which recovery gives the signer's public key:
  the first guess is checked and flipped when it is wrong.
\<close>

theorem sign_eip155_recoverable:
  assumes "curve_ok L n rs" "recover_ok L n rs" "length hash = 32"
  shows "\<exists>rid R S. (rid = 0 \<or> rid = 1) \<and> length R = 32 \<and> length S = 32 \<and>
     SignEIP155 L (Some k) hash (Some c) = Inr (c * 2 + 35 + uint (rid :: byte), be_nat R, be_nat S) \<and>
     be_nat R = fst (rs (lib_sign L k hash)) \<and> 0 < be_nat S \<and> be_nat S \<le> n div 2 \<and>
     (\<exists>pk. lib_recover L ((27 + rid) # R @ S) hash = Some pk \<and> lib_pub_equal L pk (lib_pub L k))"
proof -
  note g = sign_scalars [OF assms(1,3), of k]
  obtain rid R S where s:
    "sign_recoverable L k hash = Some (rid, fst (rs (lib_sign L k hash)), canonical n (snd (rs (lib_sign L k hash))))"
    "rid = 0 \<or> rid = 1" "length R = 32" "length S = 32"
    "be_nat R = fst (rs (lib_sign L k hash))" "be_nat S = canonical n (snd (rs (lib_sign L k hash)))"
    "\<exists>pk. lib_recover L ((27 + rid) # R @ S) hash = Some pk \<and> lib_pub_equal L pk (lib_pub L k)"
    by (rule sign_recoverable_spec [OF assms(1-3), of k])
  then have "SignEIP155 L (Some k) hash (Some c) = Inr (c * 2 + 35 + uint rid, be_nat R, be_nat S)"
    using assms(3) by (simp add: SignEIP155_def)
  moreover have "0 < be_nat S \<and> be_nat S \<le> n div 2"
    using s(6) canonical_bounds [OF g(3,4)] by simp
  ultimately show ?thesis using s by blast
qed

theorem sign_eip155_recoverable_witness:
  "\<exists>rid R S. SignEIP155 toy_curve (Some 5) (replicate 32 7) (Some 10) =
     Inr (10 * 2 + 35 + uint (rid :: byte), be_nat R, be_nat S) \<and>
     (rid = 0 \<or> rid = 1) \<and> be_nat S \<le> secp_n div 2"
  using sign_eip155_recoverable [OF toy_curve_ok toy_recover_ok length_replicate, of 5 7 10] by blast

text \<open>
  The recovery id comes back from a v that was cut to one byte, for any positive chain ID whose
  v fits an int64: the subtraction in the decoder wraps the same way the cut did.
\<close>

lemma ucast_word_of_int_byte: "(ucast (word_of_int x :: u64) :: byte) = word_of_int x"
  by transfer simp

lemma recovery_id_of_truncated_v:
  assumes "0 < c" "rid = 0 \<or> rid = 1"
  shows "recovery_id_of_v (word_of_int (c * 2 + 35 + uint rid)) (Some c) = rid"
proof -
  let ?v = "word_of_int (c * 2 + 35 + uint rid) :: byte"
  have "recovery_id_of_v ?v (Some c) = word_of_int (uint ?v - (35 + c * 2))"
    using assms(1) by (simp add: recovery_id_of_v_def big_Int64_def ucast_word_of_int_byte
        del: of_int_diff of_int_uint)
  also have "\<dots> = ?v - word_of_int (35 + c * 2)"
    by simp
  also have "\<dots> = rid" by simp
  finally show ?thesis .
qed

text \<open>
  The public key recovered from an EIP-155 signature is the signer's, also when v does not
  fit the one byte the 65-byte signature format has for it.
\<close>

lemma recover_after_sign_eip155:
  assumes "curve_ok L n rs" "recover_ok L n rs" "length hash = 32" "0 < c"
  shows "\<exists>v R S pk. SignEIP155 L (Some k) hash (Some c) = Inr (v, be_nat R, be_nat S) \<and>
     length R = 32 \<and> length S = 32 \<and>
     RecoverPubKeyFromSignature L hash (R @ S @ [word_of_int v]) (Some c) = Inr pk \<and>
     lib_pub_equal L pk (lib_pub L k)"
proof -
  obtain rid R S where s:
    "sign_recoverable L k hash = Some (rid, fst (rs (lib_sign L k hash)), canonical n (snd (rs (lib_sign L k hash))))"
    "rid = 0 \<or> rid = 1" "length R = 32" "length S = 32"
    "be_nat R = fst (rs (lib_sign L k hash))" "be_nat S = canonical n (snd (rs (lib_sign L k hash)))"
    "\<exists>pk. lib_recover L ((27 + rid) # R @ S) hash = Some pk \<and> lib_pub_equal L pk (lib_pub L k)"
    by (rule sign_recoverable_spec [OF assms(1-3), of k])
  let ?v = "c * 2 + 35 + uint rid"
  have sig: "SignEIP155 L (Some k) hash (Some c) = Inr (?v, be_nat R, be_nat S)"
    using s assms(3) by (simp add: SignEIP155_def)
  have "(R @ S @ [word_of_int ?v]) ! 64 = (word_of_int ?v :: byte)"
    using s(3,4) by (simp add: nth_append)
  then have "RecoverPubKeyFromSignature L hash (R @ S @ [word_of_int ?v]) (Some c) =
      of_option RecoverFailed (lib_recover L ((27 + rid) # R @ S) hash)"
    unfolding RecoverPubKeyFromSignature_def
    using recovery_id_of_truncated_v [OF assms(4) s(2)] s(3,4) assms(3) by simp
  moreover obtain pk where "lib_recover L ((27 + rid) # R @ S) hash = Some pk" "lib_pub_equal L pk (lib_pub L k)"
    using s(7) by blast
  ultimately show ?thesis using sig s(3,4) by (metis of_option_simps(2))
qed

theorem recover_after_sign_eip155_witness:
  "\<exists>v R S pk. SignEIP155 toy_curve (Some 5) (replicate 32 7) (Some 8453) = Inr (v, be_nat R, be_nat S) \<and>
     RecoverPubKeyFromSignature toy_curve (replicate 32 7) (R @ S @ [word_of_int v]) (Some 8453) = Inr pk"
proof -
  have c: "0 < (8453 :: int)" by simp
  show ?thesis
    using recover_after_sign_eip155 [OF toy_curve_ok toy_recover_ok length_replicate c, of 5 7]
    by (elim exE conjE) (intro exI conjI, assumption+)
qed

section \<open>Checksummed addresses\<close>

lemma hex_val_upper:
  assumes "97 \<le> (of_char c :: nat)" "(of_char c :: nat) \<le> 102"
  shows "hex_val (char_of (of_char c - 32 :: nat)) = hex_val c"
proof -
  define m where "m = (of_char c :: nat) - 97"
  then have m: "of_char c = m + 97" "m < 6" using assms by simp_all
  then show ?thesis by (simp add: m(1) hex_val_def Let_def)
qed

lemma hex_val_checksum_char: "hex_val (checksum_char hash i c) = hex_val c"
  unfolding checksum_char_def Let_def by (simp add: hex_val_upper split: if_split)

lemma hex_decode_cong:
  "map hex_val xs = map hex_val ys \<Longrightarrow> hex_decode xs = hex_decode ys"
proof (induction xs arbitrary: ys rule: hex_decode.induct)
  case 1
  then show ?case by simp
next
  case (2 c)
  then show ?case by (cases ys) auto
next
  case (3 c d cs)
  then obtain c' d' cs' where "ys = c' # d' # cs'" "hex_val c = hex_val c'" "hex_val d = hex_val d'"
    "map hex_val cs = map hex_val cs'"
    by (cases ys; cases "tl ys") auto
  moreover from this(4) have "hex_decode cs = hex_decode cs'" if "hex_val c = Some m" "hex_val d = Some k" for m k
    using "3.IH" that by blast
  ultimately show ?case by (auto split: option.splits)
qed

text \<open>
  EIP-55: the checksummed form of an address is 42 characters that read back as the
  address, whatever the hash says about the case of each letter.
\<close>

lemma format_ethereum_address_decodes:
  assumes "length addr = 20"
  shows "length (formatEthereumAddress L addr) = 42 \<and>
     DecodeAddress (formatEthereumAddress L addr) = Inr addr"
proof -
  let ?h = "hex_encode addr"
  let ?m = "map (\<lambda>i. checksum_char (lib_keccak256 L (bytes_of_ascii ?h)) i (?h ! i)) [0..<40]"
  have f: "formatEthereumAddress L addr = zero_x @ ?m"
    using assms by (simp add: formatEthereumAddress_def Let_def)
  have "map hex_val ?m = map hex_val ?h"
    by (rule nth_equalityI) (simp_all add: assms hex_val_checksum_char)
  then have "hex_decode ?m = Some addr"
    using hex_decode_cong [of ?m ?h] by simp
  then have "DecodeAddress (zero_x @ ?m) = Inr addr"
    unfolding DecodeAddress_def trim_prefix_append Let_def by simp
  then show ?thesis unfolding f by simp
qed

theorem format_ethereum_address_decodes_witness:
  "DecodeAddress (formatEthereumAddress toy_curve (replicate 20 0xAB)) = Inr (replicate 20 0xAB)"
  using format_ethereum_address_decodes [of "replicate 20 0xAB" toy_curve] by simp

end
