(* ===== verification/PluginBackend.thy ===== *)
theory PluginBackend
  imports Secp256k1
begin

text \<open>
  The OpenBao secrets engine, \<open>plugin/secp256k1\<close>: the backend with its storage and its key
  cache (\<open>backend.go\<close>, \<open>types.go\<close>) and the request handlers (\<open>path_keys.go\<close>,
  \<open>path_import.go\<close>, \<open>path_export.go\<close>, \<open>path_sign.go\<close>, \<open>path_sign_evm.go\<close>,
  \<open>path_verify.go\<close>). The storage behind \<open>logical.Storage\<close> is a finite map from paths to stored
  entries; which of its operations fail is an argument (\<open>storage_io\<close>), and so are the fresh key
  and the clock of a handler. A handler returns the new backend with either a Go error or a
  response. Getting a key and creating one are each the composition of two atomic halves, so that the
  theory on concurrency can interleave them.
\<close>

section \<open>State\<close>

record keyEntry =
  PrivateKey :: bytes
  PublicKey :: bytes
  PublicKeyUncompressed :: bytes
  Exportable :: bool
  CreatedAt :: nat
  Imported :: bool

text \<open>A stored entry is the JSON of a key entry, or bytes that do not decode.\<close>

datatype stored = Stored keyEntry | Undecodable

record backend =
  storage :: "string \<Rightarrow> stored option"
  keyCache :: "string \<Rightarrow> keyEntry option"

record storage_io =
  get_fails :: "string \<Rightarrow> bool"
  put_fails :: bool
  delete_fails :: bool
  list_fails :: bool
  json_fails :: bool

definition no_faults :: storage_io where
  "no_faults = \<lparr>get_fails = (\<lambda>_. False), put_fails = False, delete_fails = False,
     list_fails = False, json_fails = False\<rparr>"

datatype go_error = StorageError | DecodeError | KeyGenError | CryptoError crypto_error

definition key_path :: "string \<Rightarrow> string" where
  "key_path name = ''keys/'' @ name"

lemma key_path_inject [simp]: "key_path m = key_path n \<longleftrightarrow> m = n"
  by (simp add: key_path_def)

section \<open>Responses\<close>

record key_info =
  ki_name :: string
  ki_public_key :: string
  ki_address :: string
  ki_eth_address :: "string option"
  ki_exportable :: "bool option"
  ki_created_at :: nat
  ki_imported :: "bool option"

datatype response =
    ErrorResponse string
  | EmptyResponse
  | KeyResponse key_info
  | ListResponse "string list" "(string \<times> key_info) list"
  | ExportResponse key_info string
  | SignResponse string string
  | EvmResponse string string string u64 string string
  | VerifyResponse bool string

section \<open>backend.go\<close>

definition Factory :: "(string \<Rightarrow> stored option) \<Rightarrow> backend" where
  "Factory st = \<lparr>storage = st, keyCache = Map.empty\<rparr>"

definition invalidate :: "string \<Rightarrow> backend \<Rightarrow> backend" where
  "invalidate key b =
     (if has_prefix ''keys/'' key then
        (if key = ''keys/'' then b\<lparr>keyCache := Map.empty\<rparr>
         else b\<lparr>keyCache := (keyCache b)(trim_prefix ''keys/'' key := None)\<rparr>)
      else b)"

definition cleanup :: "backend \<Rightarrow> backend" where
  "cleanup b = b\<lparr>keyCache := Map.empty\<rparr>"

definition getKeyFromCache :: "backend \<Rightarrow> string \<Rightarrow> keyEntry option" where
  "getKeyFromCache b name = keyCache b name"

definition setKeyInCache :: "string \<Rightarrow> keyEntry \<Rightarrow> backend \<Rightarrow> backend" where
  "setKeyInCache name entry b = b\<lparr>keyCache := (keyCache b)(name \<mapsto> entry)\<rparr>"

definition deleteKeyFromCache :: "string \<Rightarrow> backend \<Rightarrow> backend" where
  "deleteKeyFromCache name b = b\<lparr>keyCache := (keyCache b)(name := None)\<rparr>"

definition clearCache :: "backend \<Rightarrow> backend" where
  "clearCache b = b\<lparr>keyCache := Map.empty\<rparr>"

text \<open>
  \<open>getKey\<close>: the first half looks in the cache and then in storage; the second half puts what
  storage gave into the cache. The flag says whether there is anything to cache.
\<close>

definition getKey_load ::
  "storage_io \<Rightarrow> backend \<Rightarrow> string \<Rightarrow> go_error + (keyEntry \<times> bool) option" where
  "getKey_load io b name =
     (case getKeyFromCache b name of
        Some entry \<Rightarrow> Inr (Some (entry, False))
      | None \<Rightarrow>
          if get_fails io (key_path name) then Inl StorageError
          else case storage b (key_path name) of
            None \<Rightarrow> Inr None
          | Some Undecodable \<Rightarrow> Inl DecodeError
          | Some (Stored entry) \<Rightarrow> Inr (Some (entry, True)))"

definition getKey ::
  "storage_io \<Rightarrow> backend \<Rightarrow> string \<Rightarrow> backend \<times> (go_error + keyEntry option)" where
  "getKey io b name =
     (case getKey_load io b name of
        Inl e \<Rightarrow> (b, Inl e)
      | Inr None \<Rightarrow> (b, Inr None)
      | Inr (Some (entry, fresh)) \<Rightarrow>
          (if fresh then setKeyInCache name entry b else b, Inr (Some entry)))"

text \<open>
  What every handler does with a key: look it up, answer "key not found" when there is none, and
  go on with it otherwise.
\<close>

definition with_key ::
  "storage_io \<Rightarrow> backend \<Rightarrow> string \<Rightarrow> (keyEntry \<Rightarrow> go_error + response) \<Rightarrow>
     backend \<times> (go_error + response)" where
  "with_key io b name f =
     (case getKey io b name of
        (b', Inl e) \<Rightarrow> (b', Inl e)
      | (b', Inr None) \<Rightarrow> (b', Inr (ErrorResponse ''key not found''))
      | (b', Inr (Some entry)) \<Rightarrow> (b', f entry))"

section \<open>path\_keys.go\<close>

definition pathKeyExistenceCheck ::
  "storage_io \<Rightarrow> backend \<Rightarrow> string \<Rightarrow> backend \<times> (go_error + bool)" where
  "pathKeyExistenceCheck io b name =
     (case getKey io b name of
        (b', Inl e) \<Rightarrow> (b', Inl e)
      | (b', Inr entry) \<Rightarrow> (b', Inr (entry \<noteq> None)))"

text \<open>The guard of creation and import: the name must be free in storage.\<close>

definition exists_check :: "storage_io \<Rightarrow> backend \<Rightarrow> string \<Rightarrow> (go_error + response) option" where
  "exists_check io b name =
     (if get_fails io (key_path name) then Some (Inl StorageError)
      else if storage b (key_path name) \<noteq> None
      then Some (Inr (ErrorResponse ''key already exists''))
      else None)"

definition store_entry :: "storage_io \<Rightarrow> backend \<Rightarrow> string \<Rightarrow> keyEntry \<Rightarrow> backend option" where
  "store_entry io b name entry =
     (if json_fails io \<or> put_fails io then None
      else Some (b\<lparr>storage := (storage b)(key_path name \<mapsto> Stored entry),
                   keyCache := (keyCache b)(name \<mapsto> entry)\<rparr>))"

definition create_store ::
  "('sk, 'pk, 'sg) curve \<Rightarrow> storage_io \<Rightarrow> backend \<Rightarrow> string \<Rightarrow> bool \<Rightarrow> 'sk option \<Rightarrow> nat \<Rightarrow>
     backend \<times> (go_error + response)" where
  "create_store L io b name exportable fresh now =
     (case fresh of
        None \<Rightarrow> (b, Inl KeyGenError)
      | Some privKey \<Rightarrow>
          let entry = \<lparr>PrivateKey = lib_priv_serialize L privKey,
                PublicKey = lib_compressed L (lib_pub L privKey),
                PublicKeyUncompressed = lib_uncompressed L (lib_pub L privKey),
                Exportable = exportable, CreatedAt = now, Imported = False\<rparr>
          in case store_entry io b name entry of
               None \<Rightarrow> (b, Inl StorageError)
             | Some b' \<Rightarrow> (b', Inr (KeyResponse \<lparr>ki_name = name,
                 ki_public_key = hex_encode (PublicKey entry),
                 ki_address = hex_encode (deriveCosmosAddress L (PublicKey entry)),
                 ki_eth_address = Some (formatEthereumAddress L (deriveEthereumAddress L (lib_pub L privKey))),
                 ki_exportable = Some exportable, ki_created_at = now, ki_imported = None\<rparr>)))"

definition pathKeyCreate ::
  "('sk, 'pk, 'sg) curve \<Rightarrow> storage_io \<Rightarrow> backend \<Rightarrow> string \<Rightarrow> bool \<Rightarrow> 'sk option \<Rightarrow> nat \<Rightarrow>
     backend \<times> (go_error + response)" where
  "pathKeyCreate L io b name exportable fresh now =
     (if name = [] then (b, Inr (ErrorResponse ''missing key name''))
      else case exists_check io b name of
        Some r \<Rightarrow> (b, r)
      | None \<Rightarrow> create_store L io b name exportable fresh now)"

definition pathKeyRead ::
  "('sk, 'pk, 'sg) curve \<Rightarrow> storage_io \<Rightarrow> backend \<Rightarrow> string \<Rightarrow> backend \<times> (go_error + response)" where
  "pathKeyRead L io b name =
     (if name = [] then (b, Inr (ErrorResponse ''missing key name''))
      else with_key io b name (\<lambda>entry.
        case ParsePublicKey L (PublicKey entry) of
          Inl e \<Rightarrow> Inl (CryptoError e)
        | Inr pubKey \<Rightarrow> Inr (KeyResponse \<lparr>ki_name = name,
            ki_public_key = hex_encode (PublicKey entry),
            ki_address = hex_encode (deriveCosmosAddress L (PublicKey entry)),
            ki_eth_address = Some (formatEthereumAddress L (deriveEthereumAddress L pubKey)),
            ki_exportable = Some (Exportable entry), ki_created_at = CreatedAt entry,
            ki_imported = Some (Imported entry)\<rparr>)))"

definition pathKeyDelete ::
  "storage_io \<Rightarrow> backend \<Rightarrow> string \<Rightarrow> backend \<times> (go_error + response)" where
  "pathKeyDelete io b name =
     (if name = [] then (b, Inr (ErrorResponse ''missing key name''))
      else if delete_fails io then (b, Inl StorageError)
      else (b\<lparr>storage := (storage b)(key_path name := None),
              keyCache := (keyCache b)(name := None)\<rparr>, Inr EmptyResponse))"

text \<open>
  The loop of \<open>pathKeysList\<close> over the names storage listed: entries that cannot be read are
  skipped; a public key that does not parse is a nil dereference.
\<close>

fun list_infos ::
  "('sk, 'pk, 'sg) curve \<Rightarrow> storage_io \<Rightarrow> backend \<Rightarrow> string list \<Rightarrow>
     backend \<times> (go_error + (string \<times> key_info) list)" where
  "list_infos L io b [] = (b, Inr [])"
| "list_infos L io b (name # names) =
     (case getKey io b name of
        (b', Inl e) \<Rightarrow> list_infos L io b' names
      | (b', Inr None) \<Rightarrow> list_infos L io b' names
      | (b', Inr (Some entry)) \<Rightarrow>
          (case ParsePublicKey L (PublicKey entry) of
             Inl e \<Rightarrow> (b', Inl (CryptoError Panic))
           | Inr pubKey \<Rightarrow>
               (case list_infos L io b' names of
                  (b'', Inl e) \<Rightarrow> (b'', Inl e)
                | (b'', Inr infos) \<Rightarrow>
                    (b'', Inr ((name, \<lparr>ki_name = name,
                       ki_public_key = hex_encode (PublicKey entry),
                       ki_address = hex_encode (deriveCosmosAddress L (PublicKey entry)),
                       ki_eth_address = Some (formatEthereumAddress L (deriveEthereumAddress L pubKey)),
                       ki_exportable = Some (Exportable entry), ki_created_at = CreatedAt entry,
                       ki_imported = None\<rparr>) # infos)))))"

definition pathKeysList ::
  "('sk, 'pk, 'sg) curve \<Rightarrow> storage_io \<Rightarrow> backend \<Rightarrow> string list \<Rightarrow> backend \<times> (go_error + response)" where
  "pathKeysList L io b names =
     (if list_fails io then (b, Inl StorageError)
      else case list_infos L io b names of
        (b', Inl e) \<Rightarrow> (b', Inl e)
      | (b', Inr infos) \<Rightarrow> (b', Inr (ListResponse names infos)))"

section \<open>path\_import.go and path\_export.go\<close>

definition validatePrivateKeyBytes :: "('sk, 'pk, 'sg) curve \<Rightarrow> bytes \<Rightarrow> crypto_error option" where
  "validatePrivateKeyBytes L keyBytes =
     (case ParsePrivateKey L keyBytes of Inl e \<Rightarrow> Some e | Inr _ \<Rightarrow> None)"

definition crypto_message :: "crypto_error \<Rightarrow> string" where
  "crypto_message e =
     (case e of PrivateKeyLength n \<Rightarrow> ''private key must be 32 bytes, got '' @ dec_of_nat n
      | _ \<Rightarrow> ''failed to parse private key'')"

definition pathKeyImport ::
  "('sk, 'pk, 'sg) curve \<Rightarrow> storage_io \<Rightarrow> backend \<Rightarrow> string \<Rightarrow> string \<Rightarrow> bool \<Rightarrow> nat \<Rightarrow>
     backend \<times> (go_error + response)" where
  "pathKeyImport L io b name ciphertext exportable now =
     (if name = [] then (b, Inr (ErrorResponse ''missing key name''))
      else if ciphertext = [] then (b, Inr (ErrorResponse ''missing ciphertext''))
      else case exists_check io b name of
        Some r \<Rightarrow> (b, r)
      | None \<Rightarrow>
          (case b64_decode ciphertext of
             None \<Rightarrow> (b, Inr (ErrorResponse ''invalid ciphertext: not valid base64''))
           | Some privateKeyBytes \<Rightarrow>
               (case validatePrivateKeyBytes L privateKeyBytes of
                  Some e \<Rightarrow> (b, Inr (ErrorResponse (''invalid secp256k1 key: '' @ crypto_message e)))
                | None \<Rightarrow>
                    let privKey = lib_priv_from_bytes L privateKeyBytes;
                        entry = \<lparr>PrivateKey = privateKeyBytes,
                          PublicKey = lib_compressed L (lib_pub L privKey),
                          PublicKeyUncompressed = [],
                          Exportable = exportable, CreatedAt = now, Imported = True\<rparr>
                    in case store_entry io b name entry of
                         None \<Rightarrow> (b, Inl StorageError)
                       | Some b' \<Rightarrow> (b', Inr (KeyResponse \<lparr>ki_name = name,
                           ki_public_key = hex_encode (PublicKey entry),
                           ki_address = hex_encode (deriveCosmosAddress L (PublicKey entry)),
                           ki_eth_address = None,
                           ki_exportable = Some exportable, ki_created_at = now,
                           ki_imported = Some True\<rparr>)))))"

definition pathKeyExport ::
  "('sk, 'pk, 'sg) curve \<Rightarrow> storage_io \<Rightarrow> backend \<Rightarrow> string \<Rightarrow> backend \<times> (go_error + response)" where
  "pathKeyExport L io b name =
     (if name = [] then (b, Inr (ErrorResponse ''missing key name''))
      else with_key io b name (\<lambda>entry.
        if \<not> Exportable entry then Inr (ErrorResponse ''key is not exportable'')
        else Inr (ExportResponse \<lparr>ki_name = name,
               ki_public_key = hex_encode (PublicKey entry),
               ki_address = hex_encode (deriveCosmosAddress L (PublicKey entry)),
               ki_eth_address = None, ki_exportable = None, ki_created_at = CreatedAt entry,
               ki_imported = Some (Imported entry)\<rparr> (b64_encode (PrivateKey entry)))))"

section \<open>path\_sign.go, path\_sign\_evm.go and path\_verify.go\<close>

text \<open>Compute or validate the hash: the same switch in the sign and the verify handler.\<close>

definition compute_hash ::
  "('sk, 'pk, 'sg) curve \<Rightarrow> bytes \<Rightarrow> bool \<Rightarrow> string \<Rightarrow> string + bytes" where
  "compute_hash L input prehashed hashAlgo =
     (if prehashed then
        (if length input \<noteq> 32 then Inl ''prehashed input must be 32 bytes'' else Inr input)
      else if hashAlgo = ''sha256'' then Inr (lib_sha256 L input)
      else if hashAlgo = ''keccak256'' then Inr (lib_keccak256 L input)
      else Inl (''unsupported hash algorithm: '' @ hashAlgo))"

definition cosmosSignatureToDER :: "('sk, 'pk, 'sg) curve \<Rightarrow> bytes \<Rightarrow> crypto_error + bytes" where
  "cosmosSignatureToDER L sig =
     (if length sig \<noteq> 64 then Inl (SignatureLength (length sig))
      else res_bind (parseCosmosSignature L sig) (\<lambda>g. Inr (lib_serialize L g)))"

definition parseDERSignature :: "('sk, 'pk, 'sg) curve \<Rightarrow> bytes \<Rightarrow> 'sg option" where
  "parseDERSignature L der = lib_parse_der L der"

definition sign_with_entry ::
  "('sk, 'pk, 'sg) curve \<Rightarrow> bytes \<Rightarrow> string \<Rightarrow> keyEntry \<Rightarrow> go_error + response" where
  "sign_with_entry L hash outputFormat entry =
     (case res_bind (ParsePrivateKey L (PrivateKey entry)) (\<lambda>k. SignMessage L (Some k) hash) of
        Inl e \<Rightarrow> Inl (CryptoError e)
      | Inr sig \<Rightarrow>
          if outputFormat = ''cosmos'' \<or> outputFormat = [] then
            Inr (SignResponse (b64_encode sig) (hex_encode (PublicKey entry)))
          else if outputFormat = ''der'' then
            (case cosmosSignatureToDER L sig of
               Inl e \<Rightarrow> Inl (CryptoError e)
             | Inr d \<Rightarrow> Inr (SignResponse (b64_encode d) (hex_encode (PublicKey entry))))
          else Inr (ErrorResponse (''unsupported output format: '' @ outputFormat)))"

definition pathSignWrite ::
  "('sk, 'pk, 'sg) curve \<Rightarrow> storage_io \<Rightarrow> backend \<Rightarrow> string \<Rightarrow> string \<Rightarrow> bool \<Rightarrow> string \<Rightarrow> string \<Rightarrow>
     backend \<times> (go_error + response)" where
  "pathSignWrite L io b name inputB64 prehashed hashAlgo outputFormat =
     (if name = [] then (b, Inr (ErrorResponse ''missing key name''))
      else if inputB64 = [] then (b, Inr (ErrorResponse ''missing input''))
      else case b64_decode inputB64 of
        None \<Rightarrow> (b, Inr (ErrorResponse ''invalid input: not valid base64''))
      | Some input \<Rightarrow>
          (case compute_hash L input prehashed hashAlgo of
             Inl msg \<Rightarrow> (b, Inr (ErrorResponse msg))
           | Inr hash \<Rightarrow> with_key io b name (sign_with_entry L hash outputFormat)))"

definition evm_with_entry ::
  "('sk, 'pk, 'sg) curve \<Rightarrow> bytes \<Rightarrow> int option \<Rightarrow> keyEntry \<Rightarrow> go_error + response" where
  "evm_with_entry L hash chainID entry =
     (case ParsePrivateKey L (PrivateKey entry) of
        Inl e \<Rightarrow> Inl (CryptoError e)
      | Inr privKey \<Rightarrow>
          (case (if (case chainID of Some c \<Rightarrow> c > 0 | None \<Rightarrow> False)
                 then SignEIP155 L (Some privKey) hash chainID
                 else SignLegacy L (Some privKey) hash) of
             Inl e \<Rightarrow> Inl (CryptoError e)
           | Inr (v, r, s) \<Rightarrow>
               Inr (EvmResponse (hex_of_int v) (hex064 r) (hex064 s) (big_Int64 v)
                 (hex_encode (PublicKey entry))
                 (formatEthereumAddress L (deriveEthereumAddress L (lib_pub L privKey))))))"

definition pathSignEVMWrite ::
  "('sk, 'pk, 'sg) curve \<Rightarrow> storage_io \<Rightarrow> backend \<Rightarrow> string \<Rightarrow> string \<Rightarrow> int \<Rightarrow>
     backend \<times> (go_error + response)" where
  "pathSignEVMWrite L io b name hashB64 chainIDInt =
     (if name = [] then (b, Inr (ErrorResponse ''missing key name''))
      else if hashB64 = [] then (b, Inr (ErrorResponse ''missing hash''))
      else let chainID = (if chainIDInt > 0 then Some chainIDInt else None)
      in case b64_decode hashB64 of
        None \<Rightarrow> (b, Inr (ErrorResponse ''invalid hash: not valid base64''))
      | Some hash \<Rightarrow>
          if length hash \<noteq> 32
          then (b, Inr (ErrorResponse (''hash must be 32 bytes, got '' @ dec_of_nat (length hash))))
          else with_key io b name (evm_with_entry L hash chainID))"

definition verify_with_entry ::
  "('sk, 'pk, 'sg) curve \<Rightarrow> bytes \<Rightarrow> bytes \<Rightarrow> keyEntry \<Rightarrow> go_error + response" where
  "verify_with_entry L hash sig entry =
     (case ParsePublicKey L (PublicKey entry) of
        Inl e \<Rightarrow> Inl (CryptoError e)
      | Inr pubKey \<Rightarrow>
          let valid =
            (if length sig = 64 then
               (case VerifySignature L (Some pubKey) hash sig of Inl _ \<Rightarrow> False | Inr ok \<Rightarrow> ok)
             else case parseDERSignature L sig of
               None \<Rightarrow> False | Some derSig \<Rightarrow> lib_verify L derSig hash pubKey)
          in Inr (VerifyResponse valid (hex_encode (PublicKey entry))))"

definition pathVerifyWrite ::
  "('sk, 'pk, 'sg) curve \<Rightarrow> storage_io \<Rightarrow> backend \<Rightarrow> string \<Rightarrow> string \<Rightarrow> string \<Rightarrow> bool \<Rightarrow> string \<Rightarrow>
     backend \<times> (go_error + response)" where
  "pathVerifyWrite L io b name inputB64 sigB64 prehashed hashAlgo =
     (if name = [] then (b, Inr (ErrorResponse ''missing key name''))
      else if inputB64 = [] then (b, Inr (ErrorResponse ''missing input''))
      else if sigB64 = [] then (b, Inr (ErrorResponse ''missing signature''))
      else case b64_decode inputB64 of
        None \<Rightarrow> (b, Inr (ErrorResponse ''invalid input: not valid base64''))
      | Some input \<Rightarrow>
          (case b64_decode sigB64 of
             None \<Rightarrow> (b, Inr (ErrorResponse ''invalid signature: not valid base64''))
           | Some sig \<Rightarrow>
               (case compute_hash L input prehashed hashAlgo of
                  Inl msg \<Rightarrow> (b, Inr (ErrorResponse msg))
                | Inr hash \<Rightarrow> with_key io b name (verify_with_entry L hash sig))))"

section \<open>The request router\<close>

datatype 'sk request =
    ExistenceCheck string
  | KeyCreate string bool "'sk option" nat
  | KeyRead string
  | KeyDelete string
  | KeysList "string list"
  | KeyImport string string bool nat
  | KeyExport string
  | Sign string string bool string string
  | SignEVM string string int
  | Verify string string string bool string
  | Invalidate string
  | Cleanup

text \<open>
  The table of paths and callbacks in \<open>pathKeys\<close>, \<open>pathSign\<close> and their kin, the existence check
  the framework runs before a write to \<open>keys/\<close>, and the two hooks \<open>Factory\<close> registers. Every
  request comes with its own storage faults.
\<close>

fun handle_request ::
  "('sk, 'pk, 'sg) curve \<Rightarrow> backend \<Rightarrow> storage_io \<times> 'sk request \<Rightarrow> backend \<times> (go_error + response)" where
  "handle_request L b (io, ExistenceCheck name) =
     (case pathKeyExistenceCheck io b name of
        (b', Inl e) \<Rightarrow> (b', Inl e) | (b', Inr _) \<Rightarrow> (b', Inr EmptyResponse))"
| "handle_request L b (io, KeyCreate name exportable fresh now) = pathKeyCreate L io b name exportable fresh now"
| "handle_request L b (io, KeyRead name) = pathKeyRead L io b name"
| "handle_request L b (io, KeyDelete name) = pathKeyDelete io b name"
| "handle_request L b (io, KeysList names) = pathKeysList L io b names"
| "handle_request L b (io, KeyImport name ct exportable now) = pathKeyImport L io b name ct exportable now"
| "handle_request L b (io, KeyExport name) = pathKeyExport L io b name"
| "handle_request L b (io, Sign name inp pre algo fmt) = pathSignWrite L io b name inp pre algo fmt"
| "handle_request L b (io, SignEVM name h c) = pathSignEVMWrite L io b name h c"
| "handle_request L b (io, Verify name inp sig pre algo) = pathVerifyWrite L io b name inp sig pre algo"
| "handle_request L b (io, Invalidate key) = (invalidate key b, Inr EmptyResponse)"
| "handle_request L b (io, Cleanup) = (cleanup b, Inr EmptyResponse)"

definition next_backend :: "('sk, 'pk, 'sg) curve \<Rightarrow> backend \<Rightarrow> storage_io \<times> 'sk request \<Rightarrow> backend" where
  "next_backend L b q = fst (handle_request L b q)"

abbreviation run_backend ::
  "('sk, 'pk, 'sg) curve \<Rightarrow> backend \<Rightarrow> (storage_io \<times> 'sk request) list \<Rightarrow> backend" where
  "run_backend L \<equiv> foldl (next_backend L)"

section \<open>The cache agrees with storage\<close>

interpretation cache: key_value getKeyFromCache setKeyInCache deleteKeyFromCache
  by unfold_locales (auto simp: getKeyFromCache_def setKeyInCache_def deleteKeyFromCache_def)

definition coherent :: "backend \<Rightarrow> bool" where
  "coherent b \<longleftrightarrow> (\<forall>name entry. keyCache b name = Some entry \<longrightarrow>
     storage b (key_path name) = Some (Stored entry))"

lemma coherentD: "coherent b \<Longrightarrow> keyCache b name = Some e \<Longrightarrow> storage b (key_path name) = Some (Stored e)"
  by (simp add: coherent_def)

lemma coherent_Factory: "coherent (Factory st)"
  by (simp add: coherent_def Factory_def)

text \<open>What \<open>getKey\<close> answers, without a word about the cache.\<close>

definition stored_key :: "storage_io \<Rightarrow> backend \<Rightarrow> string \<Rightarrow> go_error + keyEntry option" where
  "stored_key io b name =
     (case storage b (key_path name) of
        Some (Stored entry) \<Rightarrow> Inr (Some entry)
      | Some Undecodable \<Rightarrow> Inl DecodeError
      | None \<Rightarrow> Inr None)"

lemma getKey_storage [simp]: "storage (fst (getKey io b name)) = storage b"
  by (simp add: getKey_def setKeyInCache_def split: sum.splits option.splits prod.splits)

lemma getKey_coherent: "coherent b \<Longrightarrow> coherent (fst (getKey io b name))"
  by (auto simp: getKey_def getKey_load_def getKeyFromCache_def setKeyInCache_def coherent_def
      split: sum.splits option.splits stored.splits if_splits)

lemma getKey_result:
  "coherent b \<Longrightarrow> snd (getKey io b name) = stored_key io b name \<or>
     snd (getKey io b name) = Inl StorageError \<and> get_fails io (key_path name)"
  by (auto simp: getKey_def getKey_load_def getKeyFromCache_def stored_key_def dest: coherentD
      split: option.splits stored.splits if_splits)

lemma with_key_fst [simp]: "fst (with_key io b name f) = fst (getKey io b name)"
  by (simp add: with_key_def split: prod.splits sum.splits option.splits)

lemma with_key_snd:
  "snd (with_key io b name f) =
     (case snd (getKey io b name) of
        Inl e \<Rightarrow> Inl e
      | Inr None \<Rightarrow> Inr (ErrorResponse ''key not found'')
      | Inr (Some entry) \<Rightarrow> f entry)"
  by (simp add: with_key_def split: prod.splits sum.splits option.splits)

lemma list_infos_storage [simp]: "storage (fst (list_infos L io b names)) = storage b"
proof (induction names arbitrary: b)
  case (Cons name names)
  obtain b' r where g: "getKey io b name = (b', r)" by fastforce
  then have b': "storage b' = storage b" using getKey_storage [of io b name] by simp
  show ?case using g Cons.IH [of b'] b'
    by (auto split: sum.splits option.splits prod.splits)
qed simp

lemma list_infos_coherent: "coherent b \<Longrightarrow> coherent (fst (list_infos L io b names))"
proof (induction names arbitrary: b)
  case (Cons name names)
  obtain b' r where g: "getKey io b name = (b', r)" by fastforce
  then have b': "coherent b'" using getKey_coherent [OF Cons.prems, of io name] by simp
  show ?case using g Cons.IH [OF b'] b'
    by (auto split: sum.splits option.splits prod.splits)
qed simp

lemma store_entry_coherent: "coherent b \<Longrightarrow> store_entry io b name e = Some b' \<Longrightarrow> coherent b'"
  by (auto simp: store_entry_def coherent_def split: if_splits)

lemmas handler_defs =
  pathKeyExistenceCheck_def pathKeyCreate_def pathKeyRead_def pathKeyDelete_def pathKeysList_def
  pathKeyImport_def pathKeyExport_def pathSignWrite_def pathSignEVMWrite_def pathVerifyWrite_def

text \<open>The handlers that write no key only go through \<open>getKey\<close>.\<close>

lemma reader_state:
  "fst (pathKeyExistenceCheck io b name) = fst (getKey io b name)"
  "fst (pathKeyRead L io b name) \<in> {b, fst (getKey io b name)}"
  "fst (pathKeyExport L io b name) \<in> {b, fst (getKey io b name)}"
  "fst (pathSignWrite L io b name i p a f) \<in> {b, fst (getKey io b name)}"
  "fst (pathSignEVMWrite L io b name h c) \<in> {b, fst (getKey io b name)}"
  "fst (pathVerifyWrite L io b name i s p a) \<in> {b, fst (getKey io b name)}"
  "fst (pathKeysList L io b names) \<in> {b, fst (list_infos L io b names)}"
  by (auto simp: handler_defs Let_def split: prod.splits sum.splits option.splits)

text \<open>The two that write put one entry, under a name that was free, or change nothing.\<close>

lemma writer_state:
  "fst (pathKeyCreate L io b name x fresh now) = b \<or>
     storage b (key_path name) = None \<and>
     (\<exists>e. store_entry io b name e = Some (fst (pathKeyCreate L io b name x fresh now)))"
  "fst (pathKeyImport L io b name ct x now) = b \<or>
     storage b (key_path name) = None \<and>
     (\<exists>e. store_entry io b name e = Some (fst (pathKeyImport L io b name ct x now)))"
  by (auto simp: handler_defs exists_check_def create_store_def Let_def split: option.splits if_splits)

lemma delete_state:
  "fst (pathKeyDelete io b name) = b \<or>
     fst (pathKeyDelete io b name) =
       b\<lparr>storage := (storage b)(key_path name := None), keyCache := (keyCache b)(name := None)\<rparr>"
  by (auto simp: pathKeyDelete_def)

lemma next_existence [simp]:
  "next_backend L b (io, ExistenceCheck name) = fst (getKey io b name)"
  using reader_state(1) [of io b name]
  by (auto simp: next_backend_def split: prod.splits sum.splits)

text \<open>Every request either reads keys, stores a new one, deletes one, or drops cached ones.\<close>

lemma next_backend_cases:
  obtains (same) "storage (next_backend L b q) = storage b"
      "coherent b \<Longrightarrow> coherent (next_backend L b q)"
  | (stored) name e where "storage b (key_path name) = None"
      "store_entry (fst q) b name e = Some (next_backend L b q)"
  | (deleted) name where "snd q = KeyDelete name"
      "next_backend L b q =
         b\<lparr>storage := (storage b)(key_path name := None), keyCache := (keyCache b)(name := None)\<rparr>"
proof -
  obtain io req where q: "q = (io, req)" by (cases q)
  have inv: "storage (invalidate k b) = storage b"
    "coherent b \<Longrightarrow> coherent (invalidate k b)" for k
    by (auto simp: invalidate_def coherent_def)
  show ?thesis
  proof (cases req)
    case (KeyCreate name x fresh now)
    then show ?thesis
      using writer_state(1) [of L io b name x fresh now] that q by (auto simp: next_backend_def)
  next
    case (KeyImport name ct x now)
    then show ?thesis
      using writer_state(2) [of L io b name ct x now] that q by (auto simp: next_backend_def)
  next
    case (KeyDelete name)
    then show ?thesis
      using delete_state [of io b name] that q by (auto simp: next_backend_def)
  next
    case (ExistenceCheck name)
    then show ?thesis using that(1) q getKey_coherent [of b io name] by simp
  next
    case (KeyRead name)
    then show ?thesis using that(1) q getKey_coherent [of b io name] reader_state(2) [of L io b name]
      by (auto simp: next_backend_def)
  next
    case (KeysList names)
    then show ?thesis
      using that(1) q list_infos_coherent [of b L io names] reader_state(7) [of L io b names]
      by (auto simp: next_backend_def)
  next
    case (KeyExport name)
    then show ?thesis using that(1) q getKey_coherent [of b io name] reader_state(3) [of L io b name]
      by (auto simp: next_backend_def)
  next
    case (Sign name i p a f)
    then show ?thesis
      using that(1) q getKey_coherent [of b io name] reader_state(4) [of L io b name i p a f]
      by (auto simp: next_backend_def)
  next
    case (SignEVM name h c)
    then show ?thesis
      using that(1) q getKey_coherent [of b io name] reader_state(5) [of L io b name h c]
      by (auto simp: next_backend_def)
  next
    case (Verify name i s p a)
    then show ?thesis
      using that(1) q getKey_coherent [of b io name] reader_state(6) [of L io b name i s p a]
      by (auto simp: next_backend_def)
  next
    case (Invalidate k)
    then show ?thesis using that(1) q inv by (simp add: next_backend_def)
  next
    case Cleanup
    then show ?thesis using that(1) q by (simp add: next_backend_def cleanup_def coherent_def)
  qed
qed

lemma coherent_next: "coherent b \<Longrightarrow> coherent (next_backend L b q)"
proof (cases L b q rule: next_backend_cases)
  case (stored name e)
  then show "coherent b \<Longrightarrow> ?thesis" using store_entry_coherent by metis
next
  case (deleted name)
  then show "coherent b \<Longrightarrow> ?thesis" by (auto simp: coherent_def)
qed simp

interpretation plugin: invariant_machine "next_backend L" coherent
  by unfold_locales (rule coherent_next)

section \<open>The cache cannot be observed\<close>

definition reads_work :: "storage_io \<Rightarrow> bool" where
  "reads_work io \<longleftrightarrow> (\<forall>p. \<not> get_fails io p)"

lemma stored_key_storage: "storage b = storage b' \<Longrightarrow> stored_key io b name = stored_key io b' name"
  by (simp add: stored_key_def)

lemma getKey_stored: "coherent b \<Longrightarrow> reads_work io \<Longrightarrow> snd (getKey io b name) = stored_key io b name"
  using getKey_result [of b io name] by (auto simp: reads_work_def)

text \<open>Two coherent backends with the same storage answer alike.\<close>

lemma getKey_alike:
  assumes "coherent b" "coherent b'" "storage b = storage b'" "reads_work io"
  shows "snd (getKey io b name) = snd (getKey io b' name)"
  using assms getKey_stored stored_key_storage by metis

lemma with_key_alike:
  assumes "coherent b" "coherent b'" "storage b = storage b'" "reads_work io"
  shows "snd (with_key io b name f) = snd (with_key io b' name f)"
  using getKey_alike [OF assms, of name] by (simp add: with_key_snd)

lemma list_infos_alike:
  "coherent b \<Longrightarrow> coherent b' \<Longrightarrow> storage b = storage b' \<Longrightarrow> reads_work io \<Longrightarrow>
     snd (list_infos L io b names) = snd (list_infos L io b' names)"
proof (induction names arbitrary: b b')
  case (Cons name names)
  obtain c r where g: "getKey io b name = (c, r)" by fastforce
  obtain c' r' where g': "getKey io b' name = (c', r')" by fastforce
  have r: "r = r'" using getKey_alike [OF Cons.prems, of name] g g' by simp
  have c: "coherent c" "coherent c'" "storage c = storage c'"
    using getKey_coherent [OF Cons.prems(1), of io name] getKey_coherent [OF Cons.prems(2), of io name]
      getKey_storage [of io b name] getKey_storage [of io b' name] g g' Cons.prems(3) by simp_all
  have "snd (list_infos L io c names) = snd (list_infos L io c' names)"
    by (rule Cons.IH [OF c Cons.prems(4)])
  then show ?case using g g' r
    by (auto split: sum.splits option.splits prod.splits)
qed simp

lemma writer_alike:
  assumes "storage b = storage b'"
  shows "snd (pathKeyCreate L io b name x fresh now) = snd (pathKeyCreate L io b' name x fresh now) \<and>
      storage (fst (pathKeyCreate L io b name x fresh now)) = storage (fst (pathKeyCreate L io b' name x fresh now))"
    "snd (pathKeyImport L io b name ct x now) = snd (pathKeyImport L io b' name ct x now) \<and>
      storage (fst (pathKeyImport L io b name ct x now)) = storage (fst (pathKeyImport L io b' name ct x now))"
    "snd (pathKeyDelete io b name) = snd (pathKeyDelete io b' name) \<and>
      storage (fst (pathKeyDelete io b name)) = storage (fst (pathKeyDelete io b' name))"
  using assms
  by (auto simp: handler_defs exists_check_def create_store_def store_entry_def Let_def split: option.splits)

lemma existence_alike:
  assumes "coherent b" "coherent b'" "storage b = storage b'" "reads_work io"
  shows "snd (handle_request L b (io, ExistenceCheck name)) = snd (handle_request L b' (io, ExistenceCheck name))"
  using getKey_alike [OF assms, of name] by (auto simp: pathKeyExistenceCheck_def split: prod.splits sum.splits)

lemma reader_response_alike:
  assumes "coherent b" "coherent b'" "storage b = storage b'" "reads_work io"
  shows "snd (pathKeyRead L io b name) = snd (pathKeyRead L io b' name)"
    "snd (pathKeyExport L io b name) = snd (pathKeyExport L io b' name)"
    "snd (pathSignWrite L io b name i p a f) = snd (pathSignWrite L io b' name i p a f)"
    "snd (pathSignEVMWrite L io b name h c) = snd (pathSignEVMWrite L io b' name h c)"
    "snd (pathVerifyWrite L io b name i s p a) = snd (pathVerifyWrite L io b' name i s p a)"
  using with_key_alike [OF assms, of name]
  by (auto simp: handler_defs Let_def split: option.splits sum.splits)

lemma pathKeysList_alike:
  assumes "coherent b" "coherent b'" "storage b = storage b'" "reads_work io"
  shows "snd (pathKeysList L io b names) = snd (pathKeysList L io b' names)"
  using list_infos_alike [OF assms, of L names]
  by (auto simp: pathKeysList_def split: prod.splits sum.splits)

lemma reader_storage [simp]:
  "storage (fst (pathKeyRead L io b name)) = storage b"
  "storage (fst (pathKeyExport L io b name)) = storage b"
  "storage (fst (pathSignWrite L io b name i p a f)) = storage b"
  "storage (fst (pathSignEVMWrite L io b name h c)) = storage b"
  "storage (fst (pathVerifyWrite L io b name i s p a)) = storage b"
  "storage (fst (pathKeysList L io b names)) = storage b"
  using reader_state(2-7) [of L io b] getKey_storage [of io b] list_infos_storage [of L io b]
  by (metis empty_iff insert_iff)+

lemma handle_alike:
  assumes "coherent b" "coherent b'" "storage b = storage b'" "reads_work io"
  shows "snd (handle_request L b (io, req)) = snd (handle_request L b' (io, req)) \<and>
    storage (next_backend L b (io, req)) = storage (next_backend L b' (io, req))"
proof (cases req)
  case (ExistenceCheck name)
  then show ?thesis using existence_alike [OF assms, of L name] assms(3) by simp
next
  case (KeysList names)
  then show ?thesis using pathKeysList_alike [OF assms, of L names] assms(3) by (simp add: next_backend_def)
next
  case (Invalidate k)
  then show ?thesis using assms(3) by (simp add: next_backend_def invalidate_def)
next
  case Cleanup
  then show ?thesis using assms(3) by (simp add: next_backend_def cleanup_def)
qed (use reader_response_alike [OF assms] writer_alike [OF assms(3)] assms(3) in \<open>simp_all add: next_backend_def\<close>)

text \<open>The engine without a cache: its state is the storage alone; every request starts cold.\<close>

definition cold_request ::
  "('sk, 'pk, 'sg) curve \<Rightarrow> (string \<Rightarrow> stored option) \<Rightarrow> storage_io \<times> 'sk request \<Rightarrow>
     (string \<Rightarrow> stored option) \<times> (go_error + response)" where
  "cold_request L st q = (case handle_request L (Factory st) q of (b, r) \<Rightarrow> (storage b, r))"

fun cold_run ::
  "('sk, 'pk, 'sg) curve \<Rightarrow> (string \<Rightarrow> stored option) \<Rightarrow> (storage_io \<times> 'sk request) list \<Rightarrow>
     (go_error + response) list" where
  "cold_run L st [] = []"
| "cold_run L st (q # qs) = snd (cold_request L st q) # cold_run L (fst (cold_request L st q)) qs"

fun responses ::
  "('sk, 'pk, 'sg) curve \<Rightarrow> backend \<Rightarrow> (storage_io \<times> 'sk request) list \<Rightarrow> (go_error + response) list" where
  "responses L b [] = []"
| "responses L b (q # qs) = snd (handle_request L b q) # responses L (next_backend L b q) qs"

lemma responses_cold:
  "coherent b \<Longrightarrow> \<forall>q\<in>set qs. reads_work (fst q) \<Longrightarrow> responses L b qs = cold_run L (storage b) qs"
proof (induction qs arbitrary: b)
  case (Cons q qs)
  obtain io req where q: "q = (io, req)" by (cases q)
  have f: "coherent (Factory (storage b))" "storage b = storage (Factory (storage b))"
    by (simp_all add: coherent_Factory) (simp add: Factory_def)
  have a: "snd (handle_request L b q) = snd (cold_request L (storage b) q)"
    "storage (next_backend L b q) = fst (cold_request L (storage b) q)"
    using handle_alike [OF Cons.prems(1) f, of io L req] Cons.prems(2)
    by (simp_all add: q cold_request_def next_backend_def split_beta)
  have "responses L (next_backend L b q) qs = cold_run L (storage (next_backend L b q)) qs"
    using Cons.IH [OF coherent_next [OF Cons.prems(1)]] Cons.prems(2) by simp
  then show ?case using a by simp
qed simp

section \<open>Entries are written once\<close>

definition deletes :: "string \<Rightarrow> storage_io \<times> 'sk request \<Rightarrow> bool" where
  "deletes name q \<longleftrightarrow> snd q = KeyDelete name"

lemma entry_kept_step:
  assumes "storage b (key_path name) = Some v" "\<not> deletes name q"
  shows "storage (next_backend L b q) (key_path name) = Some v"
proof (cases L b q rule: next_backend_cases)
  case same
  then show ?thesis using assms by simp
next
  case (stored name' e)
  then have "next_backend L b q = b\<lparr>storage := (storage b)(key_path name' \<mapsto> Stored e),
      keyCache := (keyCache b)(name' \<mapsto> e)\<rparr>"
    by (simp add: store_entry_def split: if_splits)
  then show ?thesis using assms stored(1) by auto
next
  case (deleted name')
  then show ?thesis using assms by (auto simp: deletes_def)
qed

lemma entry_kept_run:
  "storage b (key_path name) = Some v \<Longrightarrow> \<forall>q\<in>set qs. \<not> deletes name q \<Longrightarrow>
     storage (run_backend L b qs) (key_path name) = Some v"
  by (induction qs arbitrary: b) (simp_all add: entry_kept_step)

lemma getKey_Some:
  assumes "coherent b" "storage b (key_path name) = Some (Stored e)"
  shows "snd (getKey io b name) = Inr (Some e) \<or> snd (getKey io b name) = Inl StorageError"
  using getKey_result [OF assms(1), of io name] assms(2) by (auto simp: stored_key_def)

lemma getKey_Some_ok:
  assumes "coherent b" "storage b (key_path name) = Some (Stored e)" "reads_work io"
  shows "snd (getKey io b name) = Inr (Some e)"
  using getKey_stored [OF assms(1,3), of name] assms(2) by (simp add: stored_key_def)

section \<open>Keys through the handlers\<close>

lemma b64_encode_nonempty [simp]: "b64_encode bs = [] \<longleftrightarrow> bs = []"
  by (cases bs rule: b64_encode.cases) (simp_all add: Let_def)

definition writes_work :: "storage_io \<Rightarrow> bool" where
  "writes_work io \<longleftrightarrow> \<not> json_fails io \<and> \<not> put_fails io"

lemma no_faults_work [simp]: "reads_work no_faults" "writes_work no_faults"
  by (simp_all add: reads_work_def writes_work_def no_faults_def)

lemma exists_check_free:
  "reads_work io \<Longrightarrow> storage b (key_path name) = None \<Longrightarrow> exists_check io b name = None"
  by (simp add: exists_check_def reads_work_def)

definition import_entry :: "('sk, 'pk, 'sg) curve \<Rightarrow> bytes \<Rightarrow> bool \<Rightarrow> nat \<Rightarrow> keyEntry" where
  "import_entry L key exportable now = \<lparr>PrivateKey = key,
     PublicKey = lib_compressed L (lib_pub L (lib_priv_from_bytes L key)),
     PublicKeyUncompressed = [], Exportable = exportable, CreatedAt = now, Imported = True\<rparr>"

lemma import_stores:
  assumes "storage b (key_path name) = None" "name \<noteq> []" "length key = 32" "reads_work io" "writes_work io"
  shows "storage (next_backend L b (io, KeyImport name (b64_encode key) x now)) (key_path name) =
     Some (Stored (import_entry L key x now))"
  using assms exists_check_free [OF assms(4,1)]
  by (auto simp: next_backend_def pathKeyImport_def validatePrivateKeyBytes_def ParsePrivateKey_def
      store_entry_def writes_work_def Let_def import_entry_def)

definition created_entry :: "('sk, 'pk, 'sg) curve \<Rightarrow> 'sk \<Rightarrow> bool \<Rightarrow> nat \<Rightarrow> keyEntry" where
  "created_entry L k exportable now = \<lparr>PrivateKey = lib_priv_serialize L k,
     PublicKey = lib_compressed L (lib_pub L k), PublicKeyUncompressed = lib_uncompressed L (lib_pub L k),
     Exportable = exportable, CreatedAt = now, Imported = False\<rparr>"

lemma create_stores:
  assumes "storage b (key_path name) = None" "name \<noteq> []" "reads_work io" "writes_work io"
  shows "storage (next_backend L b (io, KeyCreate name x (Some k) now)) (key_path name) =
     Some (Stored (created_entry L k x now))"
  using assms exists_check_free [OF assms(3,1)]
  by (auto simp: next_backend_def pathKeyCreate_def create_store_def store_entry_def writes_work_def
      Let_def created_entry_def)

text \<open>
  What signing and verifying a message rely on beyond \<open>curve_ok\<close>: the library verifies its own
  signatures, in their low form too, and a key pair survives its serialisation.
\<close>

definition verify_ok :: "('sk, 'pk, 'sg) curve \<Rightarrow> nat \<Rightarrow> ('sg \<Rightarrow> nat \<times> nat) \<Rightarrow> 'sk \<Rightarrow> bool" where
  "verify_ok L n rs k \<longleftrightarrow>
     (\<forall>h. length h = 32 \<longrightarrow> lib_verify L
        (lib_new_signature L (fst (rs (lib_sign L k h))) (canonical n (snd (rs (lib_sign L k h))))) h (lib_pub L k))"

definition key_pair_ok :: "('sk, 'pk, 'sg) curve \<Rightarrow> 'sk \<Rightarrow> bool" where
  "key_pair_ok L k \<longleftrightarrow> length (lib_priv_serialize L k) = 32 \<and>
     lib_priv_from_bytes L (lib_priv_serialize L k) = k \<and>
     lib_compressed L (lib_pub L k) \<noteq> [] \<and> lib_parse_pub L (lib_compressed L (lib_pub L k)) = Some (lib_pub L k)"

lemma sign_then_verify:
  assumes "curve_ok L n rs" "verify_ok L n rs k" "length hash = 32"
  obtains sig where "SignMessage L (Some k) hash = Inr sig" "length sig = 64"
    "VerifySignature L (Some (lib_pub L k)) hash sig = Inr True"
proof -
  obtain sig where s: "formatCosmosSignature L (lib_sign L k hash) = Some sig"
    "sig = lib_put_bytes L (fst (rs (lib_sign L k hash))) @
       lib_put_bytes L (canonical n (snd (rs (lib_sign L k hash))))"
    using format_cosmos [OF assms(1)] sign_scalars [OF assms(1,3)] by blast
  note c = canonical_bounds [OF sign_scalars(3,4) [OF assms(1,3), of k]]
  have "length sig = 64"
    using s(2) put_bytes [OF assms(1)] sign_scalars(2) [OF assms(1,3), of k] c by simp
  moreover have "parseCosmosSignature L sig = Inr (lib_new_signature L (fst (rs (lib_sign L k hash)))
      (canonical n (snd (rs (lib_sign L k hash)))))"
    unfolding s(2) using parse_cosmos [OF assms(1)] sign_scalars [OF assms(1,3), of k] c by simp
  ultimately show ?thesis
    using that s(1) assms(2,3) by (simp add: SignMessage_def VerifySignature_def verify_ok_def)
qed

lemma sign_request:
  assumes "coherent b" "reads_work io" "storage b (key_path name) = Some (Stored (created_entry L k x now))"
    and "name \<noteq> []" "input \<noteq> []" "compute_hash L input pre algo = Inr hash"
    and "key_pair_ok L k" "SignMessage L (Some k) hash = Inr sig"
  shows "snd (handle_request L b (io, Sign name (b64_encode input) pre algo ''cosmos'')) =
     Inr (SignResponse (b64_encode sig) (hex_encode (lib_compressed L (lib_pub L k))))"
  using assms getKey_Some_ok [OF assms(1,3,2)]
  by (simp add: pathSignWrite_def with_key_snd sign_with_entry_def created_entry_def ParsePrivateKey_def key_pair_ok_def)

lemma verify_request:
  assumes "coherent b" "reads_work io" "storage b (key_path name) = Some (Stored (created_entry L k x now))"
    and "name \<noteq> []" "input \<noteq> []" "compute_hash L input pre algo = Inr hash"
    and "key_pair_ok L k" "length sig = 64" "VerifySignature L (Some (lib_pub L k)) hash sig = Inr ok"
  shows "snd (handle_request L b (io, Verify name (b64_encode input) (b64_encode sig) pre algo)) =
     Inr (VerifyResponse ok (hex_encode (lib_compressed L (lib_pub L k))))"
proof -
  have "sig \<noteq> []" using assms(8) by auto
  then show ?thesis
    using assms getKey_Some_ok [OF assms(1,3,2)]
    by (simp add: pathVerifyWrite_def with_key_snd verify_with_entry_def created_entry_def ParsePublicKey_def key_pair_ok_def)
qed

section \<open>Properties\<close>

text \<open>
  Whatever requests have been served and whichever storage operations failed on the
  way, an entry in the key cache is the entry in storage under the same name.
\<close>

lemma plugin_cache_coherent: "coherent (run_backend L (Factory st) qs)"
  by (rule plugin.inv_foldl) (rule coherent_Factory)

text \<open>
  Property C13. The cache cannot be observed: as long as reads of storage succeed, the engine answers a
  sequence of requests as an engine without a cache does, whatever other faults occur.
\<close>

theorem plugin_cache_transparent:
  assumes "\<forall>q\<in>set qs. reads_work (fst q)"
  shows "responses L (Factory st) qs = cold_run L st qs"
  using responses_cold [OF coherent_Factory assms, of L st] by (simp add: Factory_def)

definition demo_requests :: "(storage_io \<times> nat request) list" where
  "demo_requests = [(no_faults, KeyCreate ''a'' False (Some 5) 1), (no_faults, KeyExport ''a''),
     (no_faults\<lparr>put_fails := True\<rparr>, KeyCreate ''b'' True (Some 6) 2), (no_faults, KeyDelete ''a''),
     (no_faults, KeyExport ''a'')]"

theorem plugin_cache_transparent_witness:
  "responses toy_curve (Factory Map.empty) demo_requests = cold_run toy_curve Map.empty demo_requests"
  by (rule plugin_cache_transparent) (simp add: demo_requests_def reads_work_def no_faults_def)

text \<open>
  Property C5. A stored key is never overwritten or altered: through any run of requests that does not
  delete it, with any storage faults, the entry under its name stays the same, private key and
  exportable flag included.
\<close>

theorem plugin_entry_immutable:
  assumes "storage (run_backend L (Factory st) qs) (key_path name) = Some v"
    and "\<forall>q\<in>set qs'. \<not> deletes name q"
  shows "storage (run_backend L (Factory st) (qs @ qs')) (key_path name) = Some v"
  using entry_kept_run [OF assms] by simp

text \<open>
  Property C6. A key stored as not exportable is never exported: after any further requests that do not delete
  it, with any faults, the export request is refused.
\<close>

theorem plugin_never_exports:
  assumes "storage (run_backend L (Factory st) qs) (key_path name) = Some (Stored e)"
    and "\<not> Exportable e" "name \<noteq> []"
    and "\<forall>q\<in>set qs'. \<not> deletes name q"
  shows "snd (handle_request L (run_backend L (Factory st) (qs @ qs')) (io, KeyExport name))
     \<in> {Inr (ErrorResponse ''key is not exportable''), Inl StorageError}"
proof -
  let ?b = "run_backend L (Factory st) (qs @ qs')"
  have c: "coherent ?b" by (rule plugin.inv_foldl) (rule coherent_Factory)
  have s: "storage ?b (key_path name) = Some (Stored e)"
    using entry_kept_run [OF assms(1,4)] by simp
  show ?thesis
    using getKey_Some [OF c s, of io] assms(2,3) by (auto simp: pathKeyExport_def with_key_snd)
qed

definition demo_start :: "string \<Rightarrow> stored option" where
  "demo_start = [key_path ''a'' \<mapsto> Stored \<lparr>PrivateKey = replicate 32 7, PublicKey = [2],
     PublicKeyUncompressed = [], Exportable = False, CreatedAt = 1, Imported = True\<rparr>]"

theorem plugin_entry_immutable_witness:
  "storage (run_backend toy_curve (Factory demo_start) ([] @ [(no_faults, KeyImport ''a'' ''AA=='' True 2)]))
     (key_path ''a'') = demo_start (key_path ''a'')"
  using plugin_entry_immutable [of toy_curve demo_start "[]" "''a''" "the (demo_start (key_path ''a''))"
      "[(no_faults, KeyImport ''a'' ''AA=='' True 2)]"]
  by (simp add: demo_start_def Factory_def deletes_def)

theorem plugin_never_exports_witness:
  "snd (handle_request toy_curve (run_backend toy_curve (Factory demo_start)
       ([] @ [(no_faults, KeyImport ''a'' ''AA=='' True 2)])) (no_faults, KeyExport ''a''))
     \<in> {Inr (ErrorResponse ''key is not exportable''), Inl StorageError}"
  using plugin_never_exports [of toy_curve demo_start "[]" "''a''" _ "[(no_faults, KeyImport ''a'' ''AA=='' True 2)]" no_faults]
  by (simp add: demo_start_def Factory_def deletes_def)

text \<open>
  A key imported as exportable comes back byte for byte from the export request, in
  every later state in which it was not deleted. The import looks at nothing but the length of
  the key material: any 32 bytes are accepted, zero and values above the group order included.
\<close>

lemma plugin_import_export:
  assumes "storage (run_backend L (Factory st) qs) (key_path name) = None"
    and "name \<noteq> []" "length key = 32" "reads_work io" "writes_work io" "reads_work io'"
    and "\<forall>q\<in>set qs'. \<not> deletes name q"
  shows "\<exists>info. snd (handle_request L
     (run_backend L (Factory st) (qs @ (io, KeyImport name (b64_encode key) True now) # qs'))
     (io', KeyExport name)) = Inr (ExportResponse info (b64_encode key))"
proof -
  let ?b = "run_backend L (Factory st) (qs @ (io, KeyImport name (b64_encode key) True now) # qs')"
  have c: "coherent ?b" by (rule plugin.inv_foldl) (rule coherent_Factory)
  have "storage ?b (key_path name) = Some (Stored (import_entry L key True now))"
    using entry_kept_run [OF import_stores [OF assms(1-5), where L = L and x = True and now = now] assms(7)] by simp
  then have "snd (getKey io' ?b name) = Inr (Some (import_entry L key True now))"
    by (rule getKey_Some_ok [OF c _ assms(6)])
  then show ?thesis using assms(2) by (simp add: pathKeyExport_def with_key_snd import_entry_def)
qed

theorem plugin_import_export_witness:
  "\<exists>info. snd (handle_request toy_curve (run_backend toy_curve (Factory Map.empty)
     ([] @ (no_faults, KeyImport ''a'' (b64_encode (replicate 32 0)) True 7) # [(no_faults, Cleanup)]))
     (no_faults, KeyExport ''a'')) = Inr (ExportResponse info (b64_encode (replicate 32 0)))"
  by (rule plugin_import_export) (simp_all add: Factory_def deletes_def)

text \<open>
  A key created through the engine signs, in every later state in which it was not
  deleted, and the signature verifies through the engine in every state after that, with the
  same input and hash options, caches warm or cold.
\<close>

lemma plugin_sign_verifies:
  assumes "curve_ok L n rs" "verify_ok L n rs k" "key_pair_ok L k"
    and "storage (run_backend L (Factory st) qs) (key_path name) = None" "name \<noteq> []"
    and "reads_work io" "writes_work io" "reads_work io1" "reads_work io2"
    and "\<forall>q\<in>set (qs1 @ qs2). \<not> deletes name q"
    and "input \<noteq> []" "compute_hash L input pre algo = Inr hash" "length hash = 32"
  shows "\<exists>sig pk. snd (handle_request L
       (run_backend L (Factory st) (qs @ (io, KeyCreate name x (Some k) now) # qs1))
       (io1, Sign name (b64_encode input) pre algo ''cosmos'')) = Inr (SignResponse sig pk) \<and>
     snd (handle_request L
       (run_backend L (Factory st) (qs @ (io, KeyCreate name x (Some k) now) # qs1 @ qs2))
       (io2, Verify name (b64_encode input) sig pre algo)) = Inr (VerifyResponse True pk)"
proof -
  obtain sig where s: "SignMessage L (Some k) hash = Inr sig" "length sig = 64"
    "VerifySignature L (Some (lib_pub L k)) hash sig = Inr True"
    by (rule sign_then_verify [OF assms(1,2,13)])
  have c: "coherent (run_backend L (Factory st) qs')" for qs'
    by (rule plugin.inv_foldl) (rule coherent_Factory)
  have e: "storage (run_backend L (Factory st) (qs @ (io, KeyCreate name x (Some k) now) # qs')) (key_path name) =
      Some (Stored (created_entry L k x now))" if "\<forall>q\<in>set qs'. \<not> deletes name q" for qs'
    using entry_kept_run [OF create_stores [OF assms(4-7), where L = L and x = x and k = k and now = now] that] by simp
  have d: "\<forall>q\<in>set qs1. \<not> deletes name q" using assms(10) by auto
  show ?thesis
    using sign_request [OF c assms(8) e [OF d] assms(5,11,12,3) s(1)]
      verify_request [OF c assms(9) e [OF assms(10)] assms(5,11,12,3) s(2,3)] by blast
qed

lemma toy_verify_ok: "verify_ok toy_curve n id k"
  by (simp add: verify_ok_def toy_curve_def)

lemma toy_key_pair_ok: "key_pair_ok toy_curve 5"
  using put32 [of 5]
  by (simp add: key_pair_ok_def toy_curve_def secp_n_def put32_def be_nat_append)

theorem plugin_sign_verifies_witness:
  "\<exists>sig pk. snd (handle_request toy_curve
       (run_backend toy_curve (Factory Map.empty) ([] @ (no_faults, KeyCreate ''a'' False (Some 5) 1) # []))
       (no_faults, Sign ''a'' (b64_encode (replicate 32 9)) True ''sha256'' ''cosmos'')) = Inr (SignResponse sig pk) \<and>
     snd (handle_request toy_curve
       (run_backend toy_curve (Factory Map.empty)
          ([] @ (no_faults, KeyCreate ''a'' False (Some 5) 1) # [] @ [(no_faults, Cleanup)]))
       (no_faults, Verify ''a'' (b64_encode (replicate 32 9)) sig True ''sha256'')) = Inr (VerifyResponse True pk)"
  by (rule plugin_sign_verifies [OF toy_curve_ok toy_verify_ok toy_key_pair_ok, where hash = "replicate 32 9"])
    (simp_all add: Factory_def deletes_def compute_hash_def)

end
