(* ===== verification/PluginConcurrency.thy ===== *)
theory PluginConcurrency
  imports PluginBackend
begin

text \<open>
  The plugin under concurrent requests. OpenBao serves requests in parallel; \<open>cacheMu\<close> protects
  single accesses of the cache, not the pairs of a storage access and the cache access that
  follows it. The atomic steps are the accesses themselves: a thread that has done the first
  half of \<open>getKey\<close>, \<open>pathKeyDelete\<close> or \<open>pathKeyCreate\<close> waits in the pool for its second half. The
  lemmas show what survives every interleaving and, by reachable states, what does not.
\<close>

section \<open>Interleavings\<close>

text \<open>What a thread in flight will do next.\<close>

datatype thread =
    Caching string keyEntry   \<comment> \<open>loaded from storage or stored there, about to enter the cache\<close>
  | Dropping string           \<comment> \<open>deleted from storage, about to leave the cache\<close>
  | Storing string keyEntry   \<comment> \<open>found the name free, about to store the new key\<close>

record system =
  engine :: backend
  pool :: "thread list"
  written :: "(string \<times> keyEntry) list"   \<comment> \<open>every entry storage ever held\<close>

inductive plugin_step :: "system \<Rightarrow> system \<Rightarrow> bool" where
  load: "getKey_load no_faults b name = Inr (Some (entry, True)) \<Longrightarrow>
    plugin_step \<lparr>engine = b, pool = ts, written = w\<rparr>
      \<lparr>engine = b, pool = Caching name entry # ts, written = w\<rparr>"
| caching: "t = Caching name entry \<Longrightarrow>
    plugin_step \<lparr>engine = b, pool = us @ t # vs, written = w\<rparr>
      \<lparr>engine = setKeyInCache name entry b, pool = us @ vs, written = w\<rparr>"
| delete: "plugin_step \<lparr>engine = b, pool = ts, written = w\<rparr>
      \<lparr>engine = b\<lparr>storage := (storage b)(key_path name := None)\<rparr>, pool = Dropping name # ts, written = w\<rparr>"
| dropping: "plugin_step \<lparr>engine = b, pool = us @ Dropping name # vs, written = w\<rparr>
      \<lparr>engine = b\<lparr>keyCache := (keyCache b)(name := None)\<rparr>, pool = us @ vs, written = w\<rparr>"
| check: "exists_check no_faults b name = None \<Longrightarrow>
    plugin_step \<lparr>engine = b, pool = ts, written = w\<rparr>
      \<lparr>engine = b, pool = Storing name entry # ts, written = w\<rparr>"
| storing: "plugin_step \<lparr>engine = b, pool = us @ Storing name entry # vs, written = w\<rparr>
      \<lparr>engine = b\<lparr>storage := (storage b)(key_path name \<mapsto> Stored entry)\<rparr>,
       pool = Caching name entry # us @ vs, written = (name, entry) # w\<rparr>"
| dropped: "plugin_step \<lparr>engine = b, pool = ts, written = w\<rparr>
      \<lparr>engine = invalidate key b, pool = ts, written = w\<rparr>"
| cleaned: "plugin_step \<lparr>engine = b, pool = ts, written = w\<rparr>
      \<lparr>engine = cleanup b, pool = ts, written = w\<rparr>"

abbreviation reachable_from :: "system \<Rightarrow> system \<Rightarrow> bool" where
  "reachable_from \<equiv> plugin_step\<^sup>*\<^sup>*"

text \<open>A freshly loaded plugin over a storage that holds no key.\<close>

definition plugin_start :: system where
  "plugin_start = \<lparr>engine = Factory Map.empty, pool = [], written = []\<rparr>"

section \<open>What every interleaving keeps\<close>

text \<open>Whatever is in storage, in the cache or on its way there was written under that very name.\<close>

definition provenance :: "system \<Rightarrow> bool" where
  "provenance s \<longleftrightarrow>
     (\<forall>name entry. storage (engine s) (key_path name) = Some (Stored entry) \<longrightarrow> (name, entry) \<in> set (written s)) \<and>
     (\<forall>name entry. keyCache (engine s) name = Some entry \<longrightarrow> (name, entry) \<in> set (written s)) \<and>
     (\<forall>name entry. Caching name entry \<in> set (pool s) \<longrightarrow> (name, entry) \<in> set (written s))"

lemma provenance_step: "plugin_step s s' \<Longrightarrow> provenance s \<Longrightarrow> provenance s'"
proof (induction rule: plugin_step.induct)
  case (load b name entry ts w)
  then show ?case
    by (auto simp: provenance_def getKey_load_def getKeyFromCache_def split: option.splits stored.splits if_splits)
next
  case (caching t name entry b us vs w)
  then show ?case by (auto simp: provenance_def setKeyInCache_def)
next
  case (dropped b ts w key)
  then show ?case by (auto simp: provenance_def invalidate_def split: if_splits)
next
  case (cleaned b ts w)
  then show ?case by (simp add: provenance_def cleanup_def)
qed (auto simp: provenance_def)

lemma provenance_reachable: "reachable_from s s' \<Longrightarrow> provenance s \<Longrightarrow> provenance s'"
  by (induction rule: rtranclp_induct) (auto intro: provenance_step)

lemma provenance_start: "provenance plugin_start"
  by (simp add: provenance_def plugin_start_def Factory_def)

text \<open>
  Under every interleaving of requests, a key the cache serves under a name was
  written to storage under that same name: no race mixes up the keys of two names.
\<close>

lemma concurrent_cache_provenance:
  assumes "reachable_from plugin_start s" "getKey no_faults (engine s) name = (b', Inr (Some entry))"
  shows "(name, entry) \<in> set (written s)"
proof -
  have "provenance s" by (rule provenance_reachable [OF assms(1) provenance_start])
  then show ?thesis using assms(2)
    by (auto simp: provenance_def getKey_def getKey_load_def getKeyFromCache_def
        split: option.splits stored.splits if_splits sum.splits)
qed

section \<open>What the races break\<close>

definition race_entry :: "nat \<Rightarrow> keyEntry" where
  "race_entry k = created_entry toy_curve k False 1"

lemmas race_defs = plugin_start_def Factory_def getKey_load_def getKeyFromCache_def setKeyInCache_def
  exists_check_def no_faults_def

text \<open>Creating a key without interference: check, store, cache.\<close>

lemma reach_created:
  "reachable_from plugin_start
     \<lparr>engine = \<lparr>storage = [key_path n \<mapsto> Stored e], keyCache = Map.empty\<rparr>, pool = [Caching n e],
      written = [(n, e)]\<rparr>"
proof -
  let ?b = "\<lparr>storage = Map.empty, keyCache = Map.empty\<rparr> :: backend"
  have "plugin_step plugin_start \<lparr>engine = ?b, pool = [Storing n e], written = []\<rparr>"
    using plugin_step.check [of ?b n "[]" "[]" e] by (simp add: race_defs)
  moreover have "plugin_step \<lparr>engine = ?b, pool = [Storing n e], written = []\<rparr>
      \<lparr>engine = \<lparr>storage = [key_path n \<mapsto> Stored e], keyCache = Map.empty\<rparr>, pool = [Caching n e],
       written = [(n, e)]\<rparr>"
    using plugin_step.storing [of ?b "[]" n e "[]" "[]"] by simp
  ultimately show ?thesis by (meson rtranclp.rtrancl_refl rtranclp.rtrancl_into_rtrancl)
qed

lemma stale_reachable:
  "\<exists>s. reachable_from plugin_start s \<and> pool s = [] \<and> storage (engine s) (key_path n) = None \<and>
     snd (getKey no_faults (engine s) n) = Inr (Some e)"
proof -
  let ?e0 = "\<lparr>storage = [key_path n \<mapsto> Stored e], keyCache = Map.empty\<rparr> :: backend"
  let ?e1 = "\<lparr>storage = Map.empty, keyCache = Map.empty\<rparr> :: backend"
  let ?e2 = "\<lparr>storage = Map.empty, keyCache = [n \<mapsto> e]\<rparr> :: backend"
  let ?w = "[(n, e)]"
  have "plugin_step \<lparr>engine = ?e0, pool = [Caching n e], written = ?w\<rparr>
      \<lparr>engine = ?e1, pool = [Dropping n, Caching n e], written = ?w\<rparr>"
    using plugin_step.delete [of ?e0 "[Caching n e]" ?w n] by simp
  moreover have "plugin_step \<lparr>engine = ?e1, pool = [Dropping n, Caching n e], written = ?w\<rparr>
      \<lparr>engine = ?e1, pool = [Caching n e], written = ?w\<rparr>"
    using plugin_step.dropping [of ?e1 "[]" n "[Caching n e]" ?w] by simp
  moreover have "plugin_step \<lparr>engine = ?e1, pool = [Caching n e], written = ?w\<rparr>
      \<lparr>engine = ?e2, pool = [], written = ?w\<rparr>"
    using plugin_step.caching [OF refl, of ?e1 "[]" n e "[]" ?w] by (simp add: setKeyInCache_def)
  ultimately have "reachable_from plugin_start \<lparr>engine = ?e2, pool = [], written = ?w\<rparr>"
    using reach_created by (meson rtranclp.rtrancl_into_rtrancl)
  then show ?thesis
    by (intro exI conjI, assumption) (simp_all add: getKey_def getKey_load_def getKeyFromCache_def)
qed

text \<open>
  A key can be served after its deletion: between the storage access and the cache
  access of a creation or a load, a whole deletion fits. In the state reached no request is in
  flight, storage has no such key, and \<open>getKey\<close> answers with it, as it will until the
  cache is dropped.
\<close>

lemma deleted_key_still_served:
  "\<exists>s. reachable_from plugin_start s \<and> pool s = [] \<and> storage (engine s) (key_path n) = None \<and>
     snd (getKey no_faults (engine s) n) = Inr (Some e)"
  by (rule stale_reachable)

text \<open>
  Two creations of one name can both find the name free. The second then overwrites the
  first key in storage, while the cache may go on serving the first: until the plugin restarts
  it signs with a key that is stored nowhere.
\<close>

lemma concurrent_creates_lose_a_key:
  "\<exists>s. reachable_from plugin_start s \<and> pool s = [] \<and>
     storage (engine s) (key_path n) = Some (Stored e2) \<and>
     snd (getKey no_faults (engine s) n) = Inr (Some e1)"
proof -
  let ?b0 = "\<lparr>storage = Map.empty, keyCache = Map.empty\<rparr> :: backend"
  let ?b1 = "\<lparr>storage = [key_path n \<mapsto> Stored e1], keyCache = Map.empty\<rparr> :: backend"
  let ?b2 = "\<lparr>storage = [key_path n \<mapsto> Stored e2], keyCache = Map.empty\<rparr> :: backend"
  let ?b3 = "\<lparr>storage = [key_path n \<mapsto> Stored e2], keyCache = [n \<mapsto> e2]\<rparr> :: backend"
  let ?b4 = "\<lparr>storage = [key_path n \<mapsto> Stored e2], keyCache = [n \<mapsto> e1]\<rparr> :: backend"
  have free: "exists_check no_faults ?b0 n = None" by (simp add: exists_check_def no_faults_def)
  have "plugin_step plugin_start \<lparr>engine = ?b0, pool = [Storing n e1], written = []\<rparr>"
    using plugin_step.check [OF free, of "[]" "[]" e1] by (simp add: plugin_start_def Factory_def)
  moreover have "plugin_step \<lparr>engine = ?b0, pool = [Storing n e1], written = []\<rparr>
      \<lparr>engine = ?b0, pool = [Storing n e2, Storing n e1], written = []\<rparr>"
    using plugin_step.check [OF free, of "[Storing n e1]" "[]" e2] by simp
  moreover have "plugin_step \<lparr>engine = ?b0, pool = [Storing n e2, Storing n e1], written = []\<rparr>
      \<lparr>engine = ?b1, pool = [Caching n e1, Storing n e2], written = [(n, e1)]\<rparr>"
    using plugin_step.storing [of ?b0 "[Storing n e2]" n e1 "[]" "[]"] by simp
  moreover have "plugin_step \<lparr>engine = ?b1, pool = [Caching n e1, Storing n e2], written = [(n, e1)]\<rparr>
      \<lparr>engine = ?b2, pool = [Caching n e2, Caching n e1], written = [(n, e2), (n, e1)]\<rparr>"
    using plugin_step.storing [of ?b1 "[Caching n e1]" n e2 "[]" "[(n, e1)]"] by simp
  moreover have "plugin_step \<lparr>engine = ?b2, pool = [Caching n e2, Caching n e1], written = [(n, e2), (n, e1)]\<rparr>
      \<lparr>engine = ?b3, pool = [Caching n e1], written = [(n, e2), (n, e1)]\<rparr>"
    using plugin_step.caching [OF refl, of ?b2 "[]" n e2 "[Caching n e1]" "[(n, e2), (n, e1)]"]
    by (simp add: setKeyInCache_def)
  moreover have "plugin_step \<lparr>engine = ?b3, pool = [Caching n e1], written = [(n, e2), (n, e1)]\<rparr>
      \<lparr>engine = ?b4, pool = [], written = [(n, e2), (n, e1)]\<rparr>"
    using plugin_step.caching [OF refl, of ?b3 "[]" n e1 "[]" "[(n, e2), (n, e1)]"]
    by (simp add: setKeyInCache_def)
  ultimately have "reachable_from plugin_start
      \<lparr>engine = ?b4, pool = [], written = [(n, e2), (n, e1)]\<rparr>"
    by (meson rtranclp.rtrancl_refl rtranclp.rtrancl_into_rtrancl)
  then show ?thesis
    by (intro exI conjI, assumption) (simp_all add: getKey_def getKey_load_def getKeyFromCache_def)
qed

text \<open>A state in which the first property has something to say: the cache serves a key.\<close>

theorem concurrent_cache_provenance_witness:
  "\<exists>s. reachable_from plugin_start s \<and> (''a'', race_entry 5) \<in> set (written s)"
proof -
  obtain s where s: "reachable_from plugin_start s"
    "snd (getKey no_faults (engine s) ''a'') = Inr (Some (race_entry 5))"
    using stale_reachable by blast
  then have "getKey no_faults (engine s) ''a'' =
      (fst (getKey no_faults (engine s) ''a''), Inr (Some (race_entry 5)))"
    by (metis prod.collapse)
  then show ?thesis using concurrent_cache_provenance [OF s(1)] s(1) by blast
qed

end
