(* ===== verification/BaoErrors.thy ===== *)
theory BaoErrors
  imports GoText
begin

text \<open>
  The error values of the client library (\<open>errors.go\<close>) and its configuration (\<open>types.go\<close>).
  A Go error is a tree: a sentinel, an API error with its HTTP status, or a wrapper around
  another error. \<open>err_is\<close> is \<open>errors.Is\<close> on them, with the status mapping of
  \<open>BaoError.Is\<close>; the lemmas say which sentinel every reply of the server is taken for.
\<close>

section \<open>errors.go\<close>

datatype sentinel =
    ErrMissingBaoAddr | ErrMissingBaoToken | ErrMissingStorePath
  | ErrKeyNotFound | ErrKeyExists | ErrKeyNotExportable
  | ErrBaoConnection | ErrBaoAuth | ErrBaoSealed | ErrBaoUnavailable
  | ErrSigningFailed | ErrInvalidSignature | ErrUnsupportedAlgo | ErrStorePersist | ErrStoreCorrupted
  | ErrExportNotConfirmed

text \<open>
  \<open>Plain\<close> is an error made with \<open>errors.New\<close> or \<open>fmt.Errorf\<close> without \<open>%w\<close>, \<open>Wrapf\<close> one made
  with \<open>%w\<close>; \<open>IsNotExist\<close> is the error of opening a file that is not there.
\<close>

datatype goerr =
    Sentinel sentinel
  | BaoError nat "string list" string
  | KeyError string string goerr
  | Wrapf string goerr
  | Plain string
  | IsNotExist
  | Panicked

definition BaoError_Is :: "nat \<Rightarrow> sentinel \<Rightarrow> bool" where
  "BaoError_Is status target =
     (if status = 403 then target = ErrBaoAuth
      else if status = 404 then target = ErrKeyNotFound
      else if status = 503 then target = ErrBaoSealed
      else False)"

fun err_is :: "goerr \<Rightarrow> sentinel \<Rightarrow> bool" where
  "err_is (Sentinel s) target = (s = target)"
| "err_is (BaoError status errs rid) target = BaoError_Is status target"
| "err_is (KeyError op name e) target = err_is e target"
| "err_is (Wrapf msg e) target = err_is e target"
| "err_is (Plain msg) target = False"
| "err_is IsNotExist target = False"
| "err_is Panicked target = False"

definition BaoError_Error :: "nat \<Rightarrow> string list \<Rightarrow> string" where
  "BaoError_Error status errs =
     (case errs of
        [] \<Rightarrow> ''OpenBao error (HTTP '' @ dec_of_nat status @ '')''
      | e # _ \<Rightarrow> ''OpenBao error (HTTP '' @ dec_of_nat status @ ''): '' @ e)"

definition NewBaoError :: "nat \<Rightarrow> string list \<Rightarrow> string \<Rightarrow> goerr" where
  "NewBaoError status errs rid = BaoError status errs rid"

definition WrapKeyError :: "string \<Rightarrow> string \<Rightarrow> goerr option \<Rightarrow> goerr option" where
  "WrapKeyError op keyName err = (case err of None \<Rightarrow> None | Some e \<Rightarrow> Some (KeyError keyName op e))"

definition wrap_key :: "string \<Rightarrow> string \<Rightarrow> goerr + 'a \<Rightarrow> goerr + 'a" where
  "wrap_key op keyName r =
     (case r of Inl e \<Rightarrow> Inl (the (WrapKeyError op keyName (Some e))) | Inr a \<Rightarrow> Inr a)"

lemma wrap_key_simps [simp]:
  "wrap_key op n (Inl e) = Inl (KeyError n op e)" "wrap_key op n (Inr a) = Inr a"
  by (simp_all add: wrap_key_def WrapKeyError_def)

lemma wrap_key_Inr [simp]: "wrap_key op n r = Inr a \<longleftrightarrow> r = Inr a"
  by (cases r) simp_all

lemma err_is_KeyError: "err_is (KeyError n op e) = err_is e"
  by (rule ext) simp

section \<open>types.go\<close>

record Config =
  BaoAddr :: string
  BaoToken :: string
  BaoNamespace :: string
  Secp256k1Path :: string
  StorePath :: string
  HTTPTimeout :: int

text \<open>Thirty seconds in nanoseconds.\<close>

definition DefaultHTTPTimeout :: int where "DefaultHTTPTimeout = 30 * 10 ^ 9"

definition WithDefaults :: "Config \<Rightarrow> Config" where
  "WithDefaults c =
     (let c' = (if Secp256k1Path c = [] then c\<lparr>Secp256k1Path := ''secp256k1''\<rparr> else c)
      in if HTTPTimeout c' = 0 then c'\<lparr>HTTPTimeout := DefaultHTTPTimeout\<rparr> else c')"

definition Config_Validate :: "Config \<Rightarrow> sentinel option" where
  "Config_Validate c =
     (if BaoAddr c = [] then Some ErrMissingBaoAddr
      else if BaoToken c = [] then Some ErrMissingBaoToken
      else if StorePath c = [] then Some ErrMissingStorePath
      else None)"

lemma WithDefaults_idem: "WithDefaults (WithDefaults c) = WithDefaults c"
  by (simp add: WithDefaults_def DefaultHTTPTimeout_def Let_def)

lemma WithDefaults_usable:
  "Secp256k1Path (WithDefaults c) \<noteq> []" "HTTPTimeout (WithDefaults c) \<noteq> 0"
  by (simp_all add: WithDefaults_def DefaultHTTPTimeout_def Let_def)

end
