(* ===== verification/BaoStore.thy ===== *)
theory BaoStore
  imports BaoErrors
begin

text \<open>
  The local metadata store of the client library, \<open>bao_store.go\<close>: a map from UID to key metadata,
  written to one JSON file with the temp-file-and-rename pattern. The file system keeps, next
  to what a path shows, which contents it may show after a crash; each system call is one
  step, so that a crash can come between any two. A content is what \<open>json.Unmarshal\<close> makes of it.
  Iteration over the Go map takes its order as an argument.
\<close>

section \<open>Files\<close>

record KeyMetadata =
  md_UID :: string
  md_Name :: string
  md_PubKeyBytes :: bytes
  md_PubKeyType :: string
  md_Address :: string
  md_BaoKeyPath :: string
  md_Algorithm :: string
  md_Exportable :: bool
  md_CreatedAt :: nat
  md_Source :: string

record StoreData =
  sd_Version :: int
  sd_Keys :: "string \<Rightarrow> KeyMetadata option"

definition DefaultStoreVersion :: int where "DefaultStoreVersion = 1"

datatype content = FEmpty | FGarbage | FJson StoreData

record filesystem =
  files :: "string \<Rightarrow> content option"
  durable :: "string \<Rightarrow> content option \<Rightarrow> bool"

text \<open>
  Opening with \<open>O_TRUNC\<close> and writing leave open what a crash makes of the file, and its name;
  \<open>fsync\<close> settles it; a rename is atomic, but until the directory reaches the disk a crash may
  undo it.
\<close>

definition fs_create :: "string \<Rightarrow> filesystem \<Rightarrow> filesystem" where
  "fs_create p fs = fs\<lparr>files := (files fs)(p \<mapsto> FEmpty), durable := (durable fs)(p := \<lambda>_. True)\<rparr>"

definition fs_write :: "string \<Rightarrow> content \<Rightarrow> filesystem \<Rightarrow> filesystem" where
  "fs_write p c fs = fs\<lparr>files := (files fs)(p \<mapsto> c), durable := (durable fs)(p := \<lambda>_. True)\<rparr>"

definition fs_fsync :: "string \<Rightarrow> filesystem \<Rightarrow> filesystem" where
  "fs_fsync p fs = fs\<lparr>durable := (durable fs)(p := (\<lambda>c. c = files fs p))\<rparr>"

definition fs_rename :: "string \<Rightarrow> string \<Rightarrow> filesystem \<Rightarrow> filesystem" where
  "fs_rename p q fs =
     fs\<lparr>files := (files fs)(q := files fs p, p := None),
        durable := (durable fs)(q := (\<lambda>c. durable fs q c \<or> durable fs p c), p := \<lambda>_. True)\<rparr>"

definition fs_remove :: "string \<Rightarrow> filesystem \<Rightarrow> filesystem" where
  "fs_remove p fs = fs\<lparr>files := (files fs)(p := None), durable := (durable fs)(p := \<lambda>_. True)\<rparr>"

definition fs_crash :: "filesystem \<Rightarrow> filesystem \<Rightarrow> bool" where
  "fs_crash fs fs' \<longleftrightarrow> (\<forall>p. durable fs p (files fs' p))"

lemmas fs_defs = fs_create_def fs_write_def fs_fsync_def fs_rename_def fs_remove_def

section \<open>The store\<close>

record store =
  st_path :: string
  st_data :: StoreData
  st_dirty :: bool

abbreviation keys_of :: "store \<Rightarrow> string \<Rightarrow> KeyMetadata option" where
  "keys_of s \<equiv> sd_Keys (st_data s)"

text \<open>Which system calls of a sync fail.\<close>

record sync_io =
  marshal_fails :: bool
  create_fails :: bool
  write_fails :: bool
  fsync_fails :: bool
  close_fails :: bool
  rename_fails :: bool
  remove_fails :: bool

definition sync_ok :: sync_io where
  "sync_ok = \<lparr>marshal_fails = False, create_fails = False, write_fails = False,
     fsync_fails = False, close_fails = False, rename_fails = False, remove_fails = False\<rparr>"

definition tmp_path :: "string \<Rightarrow> string" where
  "tmp_path p = p @ ''.tmp''"

lemma tmp_path_other [simp]: "tmp_path p \<noteq> p" "p \<noteq> tmp_path p"
  by (simp_all add: tmp_path_def)

definition empty_store :: "string \<Rightarrow> store" where
  "empty_store path = \<lparr>st_path = path,
     st_data = \<lparr>sd_Version = DefaultStoreVersion, sd_Keys = Map.empty\<rparr>, st_dirty = False\<rparr>"

definition load :: "bool \<Rightarrow> filesystem \<Rightarrow> store \<Rightarrow> store \<times> goerr option" where
  "load read_fails fs s =
     (case files fs (st_path s) of
        None \<Rightarrow> (s, Some IsNotExist)
      | Some c \<Rightarrow>
          if read_fails then (s, Some (Plain ''read file''))
          else (case c of
             FEmpty \<Rightarrow> (s, None)
           | FGarbage \<Rightarrow> (s, Some (Wrapf '''' (Sentinel ErrStoreCorrupted)))
           | FJson d \<Rightarrow>
               if sd_Version d > DefaultStoreVersion
               then (s, Some (Wrapf ''unsupported version'' (Sentinel ErrStoreCorrupted)))
               else (s\<lparr>st_data := d, st_dirty := False\<rparr>, None)))"

definition NewBaoStore :: "bool \<Rightarrow> bool \<Rightarrow> filesystem \<Rightarrow> string \<Rightarrow> goerr + store" where
  "NewBaoStore mkdir_fails read_fails fs path =
     (if mkdir_fails then Inl (Plain ''create directory'')
      else case load read_fails fs (empty_store path) of
        (s, Some e) \<Rightarrow> if e = IsNotExist then Inr s else Inl e
      | (s, None) \<Rightarrow> Inr s)"

definition persist_error :: "string \<Rightarrow> goerr" where
  "persist_error msg = Wrapf msg (Sentinel ErrStorePersist)"

definition syncLocked :: "sync_io \<Rightarrow> store \<times> filesystem \<Rightarrow> (store \<times> filesystem) \<times> goerr option" where
  "syncLocked io = (\<lambda>(s, fs).
     (let tmp = tmp_path (st_path s);
          fail = (\<lambda>msg fs'. ((s, if remove_fails io then fs' else fs_remove tmp fs'),
            Some (persist_error msg)));
          fs1 = fs_create tmp fs;
          fs2 = fs_write tmp (FJson (st_data s)) fs1;
          fs3 = fs_fsync tmp fs2
      in if \<not> st_dirty s then ((s, fs), None)
         else if marshal_fails io then ((s, fs), Some (Plain ''marshal''))
         else if create_fails io then ((s, fs), Some (persist_error ''create temp''))
         else if write_fails io then fail ''write'' (fs_write tmp FGarbage fs1)
         else if fsync_fails io then fail ''fsync'' fs2
         else if close_fails io then fail ''close'' fs3
         else if rename_fails io then fail ''rename'' fs3
         else ((s\<lparr>st_dirty := False\<rparr>, fs_rename tmp (st_path s) fs3), None)))"

definition Sync :: "sync_io \<Rightarrow> store \<times> filesystem \<Rightarrow> (store \<times> filesystem) \<times> goerr option" where
  "Sync io sf = syncLocked io sf"

definition Close :: "sync_io \<Rightarrow> store \<times> filesystem \<Rightarrow> (store \<times> filesystem) \<times> goerr option" where
  "Close io sf = Sync io sf"

text \<open>The map updates, and the change that every mutator ends with.\<close>

definition put_meta :: "string \<Rightarrow> KeyMetadata \<Rightarrow> store \<Rightarrow> store" where
  "put_meta uid meta s = s\<lparr>st_data := (st_data s)\<lparr>sd_Keys := (keys_of s)(uid \<mapsto> meta)\<rparr>\<rparr>"

definition del_meta :: "string \<Rightarrow> store \<Rightarrow> store" where
  "del_meta uid s = s\<lparr>st_data := (st_data s)\<lparr>sd_Keys := (keys_of s)(uid := None)\<rparr>\<rparr>"

definition commit :: "sync_io \<Rightarrow> filesystem \<Rightarrow> store \<Rightarrow> (store \<times> filesystem) \<times> goerr option" where
  "commit io fs s = syncLocked io (s\<lparr>st_dirty := True\<rparr>, fs)"

definition Save ::
  "sync_io \<Rightarrow> KeyMetadata option \<Rightarrow> store \<times> filesystem \<Rightarrow> (store \<times> filesystem) \<times> goerr option" where
  "Save io meta = (\<lambda>(s, fs).
     (case meta of
        None \<Rightarrow> ((s, fs), Some (Plain ''metadata cannot be nil''))
      | Some m \<Rightarrow>
          if md_UID m = [] then ((s, fs), Some (Plain ''metadata UID is required''))
          else if (case keys_of s (md_UID m) of None \<Rightarrow> False | Some m' \<Rightarrow> md_Address m' \<noteq> md_Address m)
          then ((s, fs), Some (Wrapf (md_UID m) (Sentinel ErrKeyExists)))
          else commit io fs (put_meta (md_UID m) m s)))"

definition Get :: "store \<Rightarrow> string \<Rightarrow> goerr + KeyMetadata" where
  "Get s uid =
     (case keys_of s uid of
        None \<Rightarrow> Inl (Wrapf uid (Sentinel ErrKeyNotFound))
      | Some m \<Rightarrow> Inr m)"

fun find_address :: "(string \<Rightarrow> KeyMetadata option) \<Rightarrow> string list \<Rightarrow> string \<Rightarrow> KeyMetadata option" where
  "find_address keys [] address = None"
| "find_address keys (uid # uids) address =
     (case keys uid of
        Some m \<Rightarrow> if md_Address m = address then Some m else find_address keys uids address
      | None \<Rightarrow> find_address keys uids address)"

definition GetByAddress :: "string list \<Rightarrow> store \<Rightarrow> string \<Rightarrow> goerr + KeyMetadata" where
  "GetByAddress order s address =
     (case find_address (keys_of s) order address of
        None \<Rightarrow> Inl (Wrapf (''address '' @ address) (Sentinel ErrKeyNotFound))
      | Some m \<Rightarrow> Inr m)"

definition List_metas :: "string list \<Rightarrow> store \<Rightarrow> KeyMetadata list" where
  "List_metas order s = List.map_filter (keys_of s) order"

definition Delete_meta ::
  "sync_io \<Rightarrow> string \<Rightarrow> store \<times> filesystem \<Rightarrow> (store \<times> filesystem) \<times> goerr option" where
  "Delete_meta io uid = (\<lambda>(s, fs).
     (if keys_of s uid = None then ((s, fs), Some (Wrapf uid (Sentinel ErrKeyNotFound)))
      else commit io fs (del_meta uid s)))"

definition Rename_meta ::
  "sync_io \<Rightarrow> string \<Rightarrow> string \<Rightarrow> store \<times> filesystem \<Rightarrow> (store \<times> filesystem) \<times> goerr option" where
  "Rename_meta io oldUID newUID = (\<lambda>(s, fs).
     (if oldUID = newUID then ((s, fs), None)
      else case keys_of s oldUID of
        None \<Rightarrow> ((s, fs), Some (Wrapf oldUID (Sentinel ErrKeyNotFound)))
      | Some m \<Rightarrow>
          if keys_of s newUID \<noteq> None then ((s, fs), Some (Wrapf newUID (Sentinel ErrKeyExists)))
          else commit io fs (del_meta oldUID (put_meta newUID (m\<lparr>md_UID := newUID, md_Name := newUID\<rparr>) s))))"

definition Has :: "store \<Rightarrow> string \<Rightarrow> bool" where
  "Has s uid \<longleftrightarrow> keys_of s uid \<noteq> None"

definition Count :: "string list \<Rightarrow> store \<Rightarrow> nat" where
  "Count order s = length (List_metas order s)"

text \<open>\<open>ForEach\<close> stops at the first error of the callback, which threads a state of its own.\<close>

fun ForEach ::
  "(string \<Rightarrow> KeyMetadata option) \<Rightarrow> string list \<Rightarrow>
     (string \<Rightarrow> KeyMetadata \<Rightarrow> 'x \<Rightarrow> 'x \<times> goerr option) \<Rightarrow> 'x \<Rightarrow> 'x \<times> goerr option" where
  "ForEach keys [] fn x = (x, None)"
| "ForEach keys (uid # uids) fn x =
     (case keys uid of
        None \<Rightarrow> ForEach keys uids fn x
      | Some m \<Rightarrow>
          (case fn uid m x of
             (x', Some e) \<Rightarrow> (x', Some e)
           | (x', None) \<Rightarrow> ForEach keys uids fn x'))"

section \<open>The steps of a sync\<close>

datatype sync_pc = AtCreate | AtWrite | AtFsync | AtClose | AtRename | AtAbort | AtReturn

text \<open>
  \<open>syncLocked\<close> of a dirty store, one system call a step. A call that fails sends it to the
  clean-up, which may fail too.
\<close>

inductive sync_step :: "store \<Rightarrow> sync_pc \<times> filesystem \<Rightarrow> sync_pc \<times> filesystem \<Rightarrow> bool" for s where
  do_create: "sync_step s (AtCreate, fs) (AtWrite, fs_create (tmp_path (st_path s)) fs)"
| do_create_err: "sync_step s (AtCreate, fs) (AtReturn, fs)"
| do_write: "sync_step s (AtWrite, fs) (AtFsync, fs_write (tmp_path (st_path s)) (FJson (st_data s)) fs)"
| do_write_err: "sync_step s (AtWrite, fs) (AtAbort, fs_write (tmp_path (st_path s)) FGarbage fs)"
| do_fsync: "sync_step s (AtFsync, fs) (AtClose, fs_fsync (tmp_path (st_path s)) fs)"
| do_fsync_err: "sync_step s (AtFsync, fs) (AtAbort, fs)"
| do_close: "sync_step s (AtClose, fs) (AtRename, fs)"
| do_close_err: "sync_step s (AtClose, fs) (AtAbort, fs)"
| do_rename: "sync_step s (AtRename, fs) (AtReturn, fs_rename (tmp_path (st_path s)) (st_path s) fs)"
| do_rename_err: "sync_step s (AtRename, fs) (AtAbort, fs)"
| do_abort: "sync_step s (AtAbort, fs) (AtReturn, fs_remove (tmp_path (st_path s)) fs)"
| do_abort_err: "sync_step s (AtAbort, fs) (AtReturn, fs)"

abbreviation sync_reach :: "store \<Rightarrow> sync_pc \<times> filesystem \<Rightarrow> sync_pc \<times> filesystem \<Rightarrow> bool" where
  "sync_reach s \<equiv> (sync_step s)\<^sup>*\<^sup>*"

lemma sync_chain:
  "sync_step s a b \<Longrightarrow> sync_reach s b c \<Longrightarrow> sync_reach s a c"
  by (rule converse_rtranclp_into_rtranclp)

lemma sync_aborts:
  "sync_reach s (AtAbort, fs) (AtReturn, if b then fs else fs_remove (tmp_path (st_path s)) fs)"
  by (auto intro: sync_step.do_abort sync_step.do_abort_err)

lemma sync_reaches:
  assumes "st_dirty s" "\<not> marshal_fails io"
  shows "sync_reach s (AtCreate, fs) (AtReturn, snd (fst (syncLocked io (s, fs))))"
proof -
  let ?t = "tmp_path (st_path s)"
  let ?fs1 = "fs_create ?t fs" and ?fs2 = "fs_write ?t (FJson (st_data s)) (fs_create ?t fs)"
  let ?fs3 = "fs_fsync ?t ?fs2"
  note st = sync_chain [OF sync_step.do_create]
  have w: "sync_reach s (AtWrite, ?fs1) p" if "sync_reach s (AtFsync, ?fs2) p" for p
    by (rule sync_chain [OF sync_step.do_write that])
  have f: "sync_reach s (AtFsync, ?fs2) p" if "sync_reach s (AtClose, ?fs3) p" for p
    by (rule sync_chain [OF sync_step.do_fsync that])
  consider "create_fails io" | "\<not> create_fails io" "write_fails io"
    | "\<not> create_fails io" "\<not> write_fails io" "fsync_fails io"
    | "\<not> create_fails io" "\<not> write_fails io" "\<not> fsync_fails io" "close_fails io"
    | "\<not> create_fails io" "\<not> write_fails io" "\<not> fsync_fails io" "\<not> close_fails io" "rename_fails io"
    | "\<not> create_fails io" "\<not> write_fails io" "\<not> fsync_fails io" "\<not> close_fails io" "\<not> rename_fails io"
    by blast
  then show ?thesis
  proof cases
    case 1
    then show ?thesis using assms sync_step.do_create_err [of s fs] by (simp add: syncLocked_def Let_def)
  next
    case 2
    then show ?thesis using assms
      st [OF sync_chain [OF sync_step.do_write_err sync_aborts]] by (simp add: syncLocked_def Let_def)
  next
    case 3
    then show ?thesis using assms
      st [OF w [OF sync_chain [OF sync_step.do_fsync_err sync_aborts]]] by (simp add: syncLocked_def Let_def)
  next
    case 4
    then show ?thesis using assms
      st [OF w [OF f [OF sync_chain [OF sync_step.do_close_err sync_aborts]]]] by (simp add: syncLocked_def Let_def)
  next
    case 5
    then show ?thesis using assms
      st [OF w [OF f [OF sync_chain [OF sync_step.do_close sync_chain [OF sync_step.do_rename_err sync_aborts]]]]]
      by (simp add: syncLocked_def Let_def)
  next
    case 6
    then show ?thesis using assms
      st [OF w [OF f [OF sync_chain [OF sync_step.do_close sync_chain [OF sync_step.do_rename rtranclp.rtrancl_refl]]]]]
      by (simp add: syncLocked_def Let_def)
  qed
qed

section \<open>Crashes\<close>

text \<open>
  What holds at every step: the file may become, in a crash, only what it could become before
  or the complete new contents; from the fsync on, the temporary file is complete.
\<close>

definition sync_inv :: "store \<Rightarrow> filesystem \<Rightarrow> sync_pc \<times> filesystem \<Rightarrow> bool" where
  "sync_inv s fs0 = (\<lambda>(pc, fs).
     (\<forall>c. durable fs (st_path s) c \<longrightarrow> durable fs0 (st_path s) c \<or> c = Some (FJson (st_data s))) \<and>
     (pc = AtFsync \<longrightarrow> files fs (tmp_path (st_path s)) = Some (FJson (st_data s))) \<and>
     (pc = AtClose \<or> pc = AtRename \<longrightarrow>
        (\<forall>c. durable fs (tmp_path (st_path s)) c \<longrightarrow> c = Some (FJson (st_data s)))))"

lemma sync_inv_step: "sync_step s a b \<Longrightarrow> sync_inv s fs0 a \<Longrightarrow> sync_inv s fs0 b"
  by (induction rule: sync_step.induct) (auto simp: sync_inv_def fs_defs)

lemma sync_inv_reach: "sync_reach s a b \<Longrightarrow> sync_inv s fs0 a \<Longrightarrow> sync_inv s fs0 b"
  by (induction rule: rtranclp_induct) (auto intro: sync_inv_step)

lemma crash_contents:
  assumes "sync_reach s (AtCreate, fs) (pc, fs1)" "fs_crash fs1 fs2"
  shows "durable fs (st_path s) (files fs2 (st_path s)) \<or>
    files fs2 (st_path s) = Some (FJson (st_data s))"
proof -
  have "sync_inv s fs (AtCreate, fs)" by (simp add: sync_inv_def)
  then have "sync_inv s fs (pc, fs1)" by (rule sync_inv_reach [OF assms(1)])
  then show ?thesis using assms(2) by (auto simp: sync_inv_def fs_crash_def)
qed

section \<open>The store and its file\<close>

interpretation metas: key_value keys_of put_meta del_meta
  by unfold_locales (simp_all add: put_meta_def del_meta_def)

datatype store_op =
    OpSave "KeyMetadata option"
  | OpDelete string
  | OpRename string string
  | OpSync

fun apply_op :: "store \<times> filesystem \<Rightarrow> sync_io \<times> store_op \<Rightarrow> (store \<times> filesystem) \<times> goerr option" where
  "apply_op sf (io, OpSave m) = Save io m sf"
| "apply_op sf (io, OpDelete uid) = Delete_meta io uid sf"
| "apply_op sf (io, OpRename old new) = Rename_meta io old new sf"
| "apply_op sf (io, OpSync) = Sync io sf"

definition next_store :: "store \<times> filesystem \<Rightarrow> sync_io \<times> store_op \<Rightarrow> store \<times> filesystem" where
  "next_store sf q = fst (apply_op sf q)"

text \<open>Every UID names the metadata filed under it, and a clean store is what its file loads as.\<close>

definition keyed :: "store \<Rightarrow> bool" where
  "keyed s \<longleftrightarrow> (\<forall>uid m. keys_of s uid = Some m \<longrightarrow> md_UID m = uid)"

definition store_inv :: "string \<Rightarrow> store \<times> filesystem \<Rightarrow> bool" where
  "store_inv path = (\<lambda>(s, fs). st_path s = path \<and> sd_Version (st_data s) \<le> DefaultStoreVersion \<and>
     (\<not> st_dirty s \<longrightarrow> NewBaoStore False False fs path = Inr s))"

lemma keyedD: "keyed s \<Longrightarrow> keys_of s uid = Some m \<Longrightarrow> md_UID m = uid"
  by (simp add: keyed_def)

lemma put_meta_simps [simp]:
  "st_path (put_meta u m s) = st_path s" "st_dirty (put_meta u m s) = st_dirty s"
  "sd_Version (st_data (put_meta u m s)) = sd_Version (st_data s)"
  "keys_of (put_meta u m s) = (keys_of s)(u \<mapsto> m)"
  by (simp_all add: put_meta_def)

lemma del_meta_simps [simp]:
  "st_path (del_meta u s) = st_path s" "st_dirty (del_meta u s) = st_dirty s"
  "sd_Version (st_data (del_meta u s)) = sd_Version (st_data s)"
  "keys_of (del_meta u s) = (keys_of s)(u := None)"
  by (simp_all add: del_meta_def)

text \<open>
  The two outcomes of a sync of a dirty store: clean, with the file holding the data, or an
  error, dirty, with the file as it was.
\<close>

lemma syncLocked_data [simp]:
  "st_data (fst (fst (syncLocked io (s, fs)))) = st_data s" "st_path (fst (fst (syncLocked io (s, fs)))) = st_path s"
  by (simp_all add: syncLocked_def Let_def)

lemma syncLocked_outcome:
  assumes "st_dirty s"
  obtains (clean) fs' where "syncLocked io (s, fs) = ((s\<lparr>st_dirty := False\<rparr>, fs'), None)"
      "files fs' (st_path s) = Some (FJson (st_data s))"
  | (failed) fs' e where "syncLocked io (s, fs) = ((s, fs'), Some e)"
      "files fs' (st_path s) = files fs (st_path s)"
proof (cases "snd (syncLocked io (s, fs))")
  case None
  then have "syncLocked io (s, fs) = ((s\<lparr>st_dirty := False\<rparr>, snd (fst (syncLocked io (s, fs)))), None) \<and>
      files (snd (fst (syncLocked io (s, fs)))) (st_path s) = Some (FJson (st_data s))"
    using assms by (simp add: syncLocked_def Let_def fs_defs split: if_splits)
  then show ?thesis using clean by blast
next
  case (Some e)
  then have "syncLocked io (s, fs) = ((s, snd (fst (syncLocked io (s, fs)))), Some e) \<and>
      files (snd (fst (syncLocked io (s, fs)))) (st_path s) = files fs (st_path s)"
    using assms by (simp add: syncLocked_def Let_def fs_defs split: if_splits)
  then show ?thesis using failed by blast
qed

lemma commit_keys [simp]: "keys_of (fst (fst (commit io fs s))) = keys_of s"
  by (simp add: commit_def)

lemma loads_back:
  "files fs (st_path s) = Some (FJson (st_data s)) \<Longrightarrow> \<not> st_dirty s \<Longrightarrow>
     sd_Version (st_data s) \<le> DefaultStoreVersion \<Longrightarrow> NewBaoStore False False fs (st_path s) = Inr s"
  by (simp add: NewBaoStore_def load_def empty_store_def)

lemma sync_inv_kept:
  assumes "st_path s = path" "sd_Version (st_data s) \<le> DefaultStoreVersion" "st_dirty s"
  shows "store_inv path (fst (syncLocked io (s, fs)))"
  using assms(3)
proof (cases rule: syncLocked_outcome [of s io fs])
  case (clean fs')
  then show ?thesis
    using loads_back [of fs' "s\<lparr>st_dirty := False\<rparr>"] assms by (simp add: store_inv_def)
next
  case (failed fs' e)
  then show ?thesis using assms by (simp add: store_inv_def)
qed

lemma commit_inv:
  "st_path s = path \<Longrightarrow> sd_Version (st_data s) \<le> DefaultStoreVersion \<Longrightarrow>
     store_inv path (fst (commit io fs s))"
  by (simp add: commit_def sync_inv_kept)

lemma clean_sync: "\<not> st_dirty s \<Longrightarrow> syncLocked io (s, fs) = ((s, fs), None)"
  by (simp add: syncLocked_def)

lemma store_inv_next: "store_inv path sf \<Longrightarrow> store_inv path (next_store sf q)"
proof -
  assume inv: "store_inv path sf"
  obtain s fs where sf: "sf = (s, fs)" by (cases sf)
  obtain io op where q: "q = (io, op)" by (cases q)
  have p: "st_path s = path" "sd_Version (st_data s) \<le> DefaultStoreVersion"
    using inv by (simp_all add: sf store_inv_def)
  show ?thesis
  proof (cases op)
    case (OpSave m)
    then show ?thesis using inv p by (auto simp: next_store_def sf q Save_def intro: commit_inv split: option.splits)
  next
    case (OpDelete uid)
    then show ?thesis using inv p by (auto simp: next_store_def sf q Delete_meta_def intro: commit_inv)
  next
    case (OpRename old new)
    then show ?thesis using inv p
      by (auto simp: next_store_def sf q Rename_meta_def intro: commit_inv split: option.splits)
  next
    case OpSync
    then show ?thesis using inv p sync_inv_kept [OF p, of io fs]
      by (cases "st_dirty s") (simp_all add: next_store_def sf q Sync_def clean_sync)
  qed
qed

interpretation stores: invariant_machine next_store "store_inv path"
  by unfold_locales (rule store_inv_next)

lemma keyed_next: "keyed (fst sf) \<Longrightarrow> keyed (fst (next_store sf q))"
proof -
  assume k: "keyed (fst sf)"
  obtain s fs where sf: "sf = (s, fs)" by (cases sf)
  obtain io op where q: "q = (io, op)" by (cases q)
  show ?thesis
    by (cases op) (use k in \<open>auto simp: next_store_def sf q keyed_def Save_def Delete_meta_def Rename_meta_def
      Sync_def split: option.splits if_splits\<close>)
qed

interpretation store_keys: invariant_machine next_store "keyed \<circ> fst"
  by unfold_locales (simp add: keyed_next)

lemma NewBaoStore_inv:
  "NewBaoStore False False fs path = Inr s \<Longrightarrow> store_inv path (s, fs)"
  by (auto simp: NewBaoStore_def load_def store_inv_def empty_store_def DefaultStoreVersion_def
      split: option.splits content.splits prod.splits if_splits)

section \<open>Properties\<close>

text \<open>Contents \<open>load\<close> accepts.\<close>

definition readable :: "content option \<Rightarrow> bool" where
  "readable c \<longleftrightarrow> (case c of None \<Rightarrow> True | Some FEmpty \<Rightarrow> True | Some FGarbage \<Rightarrow> False
     | Some (FJson d) \<Rightarrow> sd_Version d \<le> DefaultStoreVersion)"

lemma readable_opens:
  assumes "readable (files fs path)"
  obtains s where "NewBaoStore False False fs path = Inr s"
    "\<And>d. files fs path = Some (FJson d) \<Longrightarrow> st_data s = d"
  using assms
  by (cases "files fs path")
    (auto simp: readable_def NewBaoStore_def load_def empty_store_def split: content.splits)

text \<open>
  Property C16. A sync is atomic under crashes. Wherever between two of its system calls the machine
  stops, and whichever calls failed before, the store opens again: with the data it was
  writing, or with a content the file could already have had before. It is never corrupted.
\<close>

theorem sync_crash_atomic:
  assumes "sync_reach s (AtCreate, fs) (pc, fs1)" "fs_crash fs1 fs2"
    and "\<forall>c. durable fs (st_path s) c \<longrightarrow> readable c" "sd_Version (st_data s) \<le> DefaultStoreVersion"
  shows "\<exists>s'. NewBaoStore False False fs2 (st_path s) = Inr s' \<and>
    (st_data s' = st_data s \<or> durable fs (st_path s) (files fs2 (st_path s)))"
proof -
  note c = crash_contents [OF assms(1,2)]
  then have r: "readable (files fs2 (st_path s))"
    using assms(3,4) by (auto simp: readable_def)
  obtain s' where "NewBaoStore False False fs2 (st_path s) = Inr s'"
    "\<And>d. files fs2 (st_path s) = Some (FJson d) \<Longrightarrow> st_data s' = d"
    using readable_opens [OF r] by blast
  then show ?thesis using c by blast
qed

definition demo_meta :: KeyMetadata where
  "demo_meta = \<lparr>md_UID = ''a'', md_Name = ''a'', md_PubKeyBytes = [2], md_PubKeyType = ''secp256k1'',
     md_Address = ''x'', md_BaoKeyPath = ''secp256k1/keys/a'', md_Algorithm = ''secp256k1'',
     md_Exportable = False, md_CreatedAt = 1, md_Source = ''generated''\<rparr>"

definition demo_store :: store where
  "demo_store = (put_meta ''a'' demo_meta (empty_store ''s''))\<lparr>st_dirty := True\<rparr>"

definition blank_disk :: filesystem where
  "blank_disk = \<lparr>files = Map.empty, durable = (\<lambda>_ c. c = None)\<rparr>"

theorem sync_crash_atomic_witness:
  "\<exists>s'. NewBaoStore False False blank_disk ''s'' = Inr s'"
proof -
  let ?fs1 = "fs_create (tmp_path (st_path demo_store)) blank_disk"
  have r: "sync_reach demo_store (AtCreate, blank_disk) (AtWrite, ?fs1)"
    by (rule r_into_rtranclp) (rule sync_step.do_create)
  have c: "fs_crash ?fs1 blank_disk" by (simp add: fs_crash_def fs_defs blank_disk_def)
  show ?thesis
    using sync_crash_atomic [OF r c]
    by (auto simp: blank_disk_def readable_def demo_store_def put_meta_def empty_store_def DefaultStoreVersion_def)
qed

text \<open>
  Syncing, as the function the operations call, is one run of the system-call steps the crash
  theorem is about, whichever of its calls fail.
\<close>

lemma sync_refines_steps:
  assumes "st_dirty s" "\<not> marshal_fails io"
  shows "sync_reach s (AtCreate, fs) (AtReturn, snd (fst (syncLocked io (s, fs))))"
  by (rule sync_reaches [OF assms])

text \<open>
  Through any sequence of saves, deletions, renames and syncs, with any failures of system calls, a
  store without pending changes reopens from its file exactly as it is in memory.
\<close>

lemma store_reopens:
  assumes "NewBaoStore False False fs path = Inr s0"
    and "foldl next_store (s0, fs) ops = (s, fs')" "\<not> st_dirty s"
  shows "NewBaoStore False False fs' path = Inr s"
  using stores.inv_foldl [OF NewBaoStore_inv [OF assms(1)], of ops] assms(2,3)
  by (simp add: store_inv_def)

theorem store_reopens_witness:
  "\<exists>s fs'. foldl next_store (empty_store ''s'', blank_disk)
       [(sync_ok\<lparr>rename_fails := True\<rparr>, OpSave (Some demo_meta)), (sync_ok, OpRename ''a'' ''b'')] = (s, fs') \<and>
     NewBaoStore False False fs' ''s'' = Inr s"
proof -
  let ?r = "foldl next_store (empty_store ''s'', blank_disk)
       [(sync_ok\<lparr>rename_fails := True\<rparr>, OpSave (Some demo_meta)), (sync_ok, OpRename ''a'' ''b'')]"
  have o: "NewBaoStore False False blank_disk ''s'' = Inr (empty_store ''s'')"
    by (simp add: NewBaoStore_def load_def blank_disk_def empty_store_def)
  have d: "\<not> st_dirty (fst ?r)"
    by (simp add: next_store_def Save_def Rename_meta_def commit_def syncLocked_def sync_ok_def
        empty_store_def demo_meta_def put_meta_def del_meta_def Let_def)
  show ?thesis using store_reopens [OF o, of _ "fst ?r" "snd ?r"] d by (metis prod.collapse)
qed

text \<open>
  Saving valid metadata always changes the store in memory, also when it reports an error: then
  the file is as before and the change is pending, to be written by the next operation that
  syncs. (The caller \<open>NewAccount\<close> deletes the key in OpenBao in that case; the metadata stays.)
\<close>

lemma save_error_keeps_metadata:
  assumes "Save io (Some m) (s, fs) = ((s', fs'), r)" "md_UID m \<noteq> []"
    and "\<And>m'. keys_of s (md_UID m) = Some m' \<Longrightarrow> md_Address m' = md_Address m"
  shows "Get s' (md_UID m) = Inr m \<and> Has s' (md_UID m) \<and>
    (\<forall>e. r = Some e \<longrightarrow> st_dirty s' \<and> files fs' (st_path s) = files fs (st_path s)) \<and>
    (r = None \<longrightarrow> \<not> st_dirty s' \<and> files fs' (st_path s) = Some (FJson (st_data s')))"
proof -
  let ?s = "(put_meta (md_UID m) m s)\<lparr>st_dirty := True\<rparr>"
  have c: "syncLocked io (?s, fs) = ((s', fs'), r)"
    using assms by (auto simp: Save_def commit_def split: option.splits if_splits)
  have k: "keys_of s' (md_UID m) = Some m" using syncLocked_data(1) [of io ?s fs] c by simp
  have "st_dirty ?s" by simp
  then show ?thesis
    by (cases rule: syncLocked_outcome [of ?s io fs]) (use c k in \<open>auto simp: Get_def Has_def\<close>)
qed

theorem save_error_keeps_metadata_witness:
  "\<exists>s' fs'. Save (sync_ok\<lparr>create_fails := True\<rparr>) (Some demo_meta) (empty_store ''s'', blank_disk) =
       ((s', fs'), Some (persist_error ''create temp'')) \<and> Has s' ''a'' \<and> st_dirty s'"
proof -
  obtain s' fs' r where v: "Save (sync_ok\<lparr>create_fails := True\<rparr>) (Some demo_meta)
      (empty_store ''s'', blank_disk) = ((s', fs'), r)"
    by (metis prod.collapse)
  moreover have "r = Some (persist_error ''create temp'')"
    using v by (simp add: Save_def commit_def syncLocked_def sync_ok_def empty_store_def demo_meta_def Let_def)
  ultimately show ?thesis
    using save_error_keeps_metadata [OF v] by (auto simp: empty_store_def demo_meta_def)
qed

lemma find_address_sound:
  "find_address keys order a = Some m \<Longrightarrow> \<exists>uid\<in>set order. keys uid = Some m \<and> md_Address m = a"
  by (induction order) (auto split: option.splits if_splits)

lemma find_address_complete:
  "find_address keys order a = None \<Longrightarrow> uid \<in> set order \<Longrightarrow> keys uid = Some m \<Longrightarrow> md_Address m \<noteq> a"
  by (induction order) (auto split: option.splits if_splits)

text \<open>
  Looking up an address finds metadata with that address whenever there is some, whatever
  order Go iterates the map in, and reports a missing key only when there is none.
\<close>

lemma lookup_by_address:
  assumes "set order = dom (keys_of s)"
  shows "(case GetByAddress order s a of
       Inl e \<Rightarrow> err_is e ErrKeyNotFound \<and> (\<forall>m\<in>ran (keys_of s). md_Address m \<noteq> a)
     | Inr m \<Rightarrow> m \<in> ran (keys_of s) \<and> md_Address m = a)"
proof (cases "find_address (keys_of s) order a")
  case None
  then have "md_Address m \<noteq> a" if "m \<in> ran (keys_of s)" for m
    using that find_address_complete [OF None] assms by (auto simp: ran_def)
  then show ?thesis using None by (simp add: GetByAddress_def)
next
  case (Some m)
  then show ?thesis using find_address_sound [OF Some] by (auto simp: GetByAddress_def ran_def)
qed

end
