(* ===== verification/GoJson.thy ===== *)
theory GoJson
  imports GoText
begin

text \<open>
  What the clients use of \<open>encoding/json\<close>: decoding an already parsed value into Go structs,
  strings, booleans, slices and maps. \<open>None\<close> is an unmarshalling error. A field is looked up the
  way the package does it: without regard to case, the last occurrence counting, \<open>null\<close> and an
  absent field both leaving the zero value. (That \<open>null\<close> leaves an earlier occurrence alone is
  part of \<open>json_get\<close>.)
\<close>

section \<open>Fields\<close>

definition fold_char :: "char \<Rightarrow> char" where
  "fold_char c = (let n = of_char c :: nat in if 65 \<le> n \<and> n \<le> 90 then char_of (n + 32) else c)"

definition same_field :: "string \<Rightarrow> string \<Rightarrow> bool" where
  "same_field a b \<longleftrightarrow> map fold_char a = map fold_char b"

fun last_field :: "string \<Rightarrow> (string \<times> jsonv) list \<Rightarrow> jsonv" where
  "last_field name [] = JNull"
| "last_field name ((k, v) # kvs) =
     (if last_field name kvs = JNull then (if same_field k name then v else JNull)
      else last_field name kvs)"

definition json_get :: "string \<Rightarrow> jsonv \<Rightarrow> jsonv" where
  "json_get name j = (case j of JObject kvs \<Rightarrow> last_field name kvs | _ \<Rightarrow> JNull)"

fun is_struct :: "jsonv \<Rightarrow> bool" where
  "is_struct (JObject kvs) = True"
| "is_struct JNull = True"
| "is_struct _ = False"

section \<open>Values\<close>

fun json_text :: "jsonv \<Rightarrow> string option" where
  "json_text (JString s) = Some s"
| "json_text JNull = Some []"
| "json_text _ = None"

fun json_flag :: "jsonv \<Rightarrow> bool option" where
  "json_flag (JBool b) = Some b"
| "json_flag JNull = Some False"
| "json_flag _ = None"

text \<open>An integer literal, without fraction or exponent, in the range of \<open>int64\<close>.\<close>

definition is_digit :: "char \<Rightarrow> bool" where
  "is_digit c \<longleftrightarrow> 48 \<le> (of_char c :: nat) \<and> (of_char c :: nat) \<le> 57"

definition int_literal :: "string \<Rightarrow> int option" where
  "int_literal s =
     (let neg = (s \<noteq> [] \<and> hd s = CHR ''-''); ds = (if neg then tl s else s)
      in if ds \<noteq> [] \<and> list_all is_digit ds then Some (if neg then - int (dec_val ds) else int (dec_val ds))
         else None)"

fun json_int64 :: "jsonv \<Rightarrow> int option" where
  "json_int64 (JNumber s) =
     (case int_literal s of
        None \<Rightarrow> None
      | Some i \<Rightarrow> if - (2 ^ 63) \<le> i \<and> i < 2 ^ 63 then Some i else None)"
| "json_int64 JNull = Some 0"
| "json_int64 _ = None"

fun json_slice :: "(jsonv \<Rightarrow> 'a option) \<Rightarrow> jsonv \<Rightarrow> 'a list option" where
  "json_slice f (JArray xs) = map_res f xs"
| "json_slice f JNull = Some []"
| "json_slice f _ = None"

fun json_string_map :: "jsonv \<Rightarrow> (string \<rightharpoonup> string) option" where
  "json_string_map (JObject kvs) =
     (case map_res (\<lambda>(k, v). map_option (Pair k) (json_text v)) kvs of
        None \<Rightarrow> None
      | Some kvs' \<Rightarrow> Some (map_of (rev kvs')))"
| "json_string_map JNull = Some Map.empty"
| "json_string_map _ = None"

text \<open>The literal \<open>%d\<close> writes for a natural number.\<close>

lemma dec_of_nat_digits: "c \<in> set (dec_of_nat n) \<Longrightarrow> is_digit c"
proof (induction n rule: dec_of_nat.induct)
  case (1 n)
  have "is_digit (char_of (48 + n mod 10))"
  proof -
    have "n mod 10 < 10" by simp
    then have "48 + n mod 10 < 256" by linarith
    then show ?thesis by (simp add: is_digit_def)
  qed
  then show ?case using 1 by (subst (asm) dec_of_nat.simps) (auto split: if_splits)
qed

lemma dec_of_nat_Cons: "\<exists>c cs. dec_of_nat n = c # cs \<and> is_digit c"
proof (cases "dec_of_nat n")
  case Nil
  then show ?thesis by (simp add: dec_of_nat.simps [of n] split: if_splits)
next
  case (Cons c cs)
  then show ?thesis using dec_of_nat_digits [of c n] by simp
qed

end
