(* ===== verification/BaoClient.thy ===== *)
theory BaoClient
  imports BaoErrors GoJson
begin

text \<open>
  The HTTP client of the library, \<open>bao_client.go\<close>. The network and the OpenBao server behind it
  are a parameter: a function that takes the state of the outside world and a request and
  gives the new state and a reply, or no reply (a connection that fails, a body that cannot be
  read, a URL that does not parse). A reply body is the JSON value in it, if it is JSON. Parsing
  of time stamps (\<open>time.Time\<close>) is a parameter too.
\<close>

section \<open>The transport\<close>

record http_request =
  hq_method :: string
  hq_url :: string
  hq_token :: string
  hq_namespace :: "string option"
  hq_body :: "jsonv option"

datatype http_reply = NoReply | Reply nat "jsonv option"

type_synonym 'w transport = "'w \<Rightarrow> http_request \<Rightarrow> 'w \<times> http_reply"

record client =
  cl_baseURL :: string
  cl_token :: string
  cl_namespace :: string
  cl_path :: string

definition NewBaoClient :: "Config \<Rightarrow> client" where
  "NewBaoClient cfg = (let c = WithDefaults cfg in
     \<lparr>cl_baseURL = trim_suffix ''/'' (BaoAddr c), cl_token = BaoToken c,
      cl_namespace = BaoNamespace c, cl_path = Secp256k1Path c\<rparr>)"

definition error_list :: "jsonv option \<Rightarrow> string list" where
  "error_list body =
     (case body of
        None \<Rightarrow> []
      | Some j \<Rightarrow> (case json_slice json_text (json_get ''errors'' j) of None \<Rightarrow> [] | Some es \<Rightarrow> es))"

definition doRequest ::
  "'w transport \<Rightarrow> client \<Rightarrow> string \<Rightarrow> string \<Rightarrow> jsonv option \<Rightarrow> 'w \<Rightarrow> 'w \<times> (goerr + jsonv option)" where
  "doRequest http c method path body w =
     (case http w \<lparr>hq_method = method, hq_url = cl_baseURL c @ path, hq_token = cl_token c,
          hq_namespace = (if cl_namespace c = [] then None else Some (cl_namespace c)), hq_body = body\<rparr> of
        (w', NoReply) \<Rightarrow> (w', Inl (Sentinel ErrBaoConnection))
      | (w', Reply status resp) \<Rightarrow>
          (w', if 400 \<le> status then Inl (NewBaoError status (error_list resp) []) else Inr resp))"

definition http_get :: "'w transport \<Rightarrow> client \<Rightarrow> string \<Rightarrow> 'w \<Rightarrow> 'w \<times> (goerr + jsonv option)" where
  "http_get http c path w = doRequest http c ''GET'' path None w"

definition http_post :: "'w transport \<Rightarrow> client \<Rightarrow> string \<Rightarrow> jsonv \<Rightarrow> 'w \<Rightarrow> 'w \<times> (goerr + jsonv option)" where
  "http_post http c path body w = doRequest http c ''POST'' path (Some body) w"

definition http_delete :: "'w transport \<Rightarrow> client \<Rightarrow> string \<Rightarrow> 'w \<Rightarrow> 'w \<times> goerr option" where
  "http_delete http c path w =
     (case doRequest http c ''DELETE'' path None w of
        (w', Inl e) \<Rightarrow> (w', Some e) | (w', Inr _) \<Rightarrow> (w', None))"

definition http_list :: "'w transport \<Rightarrow> client \<Rightarrow> string \<Rightarrow> 'w \<Rightarrow> 'w \<times> (goerr + jsonv option)" where
  "http_list http c path w = doRequest http c ''LIST'' path None w"

section \<open>Decoding\<close>

record KeyInfo =
  inf_Name :: string
  inf_PublicKey :: string
  inf_Address :: string
  inf_Exportable :: bool
  inf_CreatedAt :: nat

definition unmarshal_error :: goerr where
  "unmarshal_error = Plain ''json''"

text \<open>The \<open>data\<close> object of a reply; \<open>zero\<close> is the zero time.\<close>

definition json_data :: "jsonv option \<Rightarrow> jsonv option" where
  "json_data body =
     (case body of
        None \<Rightarrow> None
      | Some j \<Rightarrow> if is_struct j \<and> is_struct (json_get ''data'' j) then Some (json_get ''data'' j) else None)"

definition json_time :: "(string \<Rightarrow> nat option) \<Rightarrow> jsonv \<Rightarrow> nat option" where
  "json_time time_of j = (case j of JNull \<Rightarrow> Some 0 | JString s \<Rightarrow> time_of s | _ \<Rightarrow> None)"

definition decode_KeyInfo :: "(string \<Rightarrow> nat option) \<Rightarrow> jsonv \<Rightarrow> KeyInfo option" where
  "decode_KeyInfo time_of d =
     Option.bind (json_text (json_get ''name'' d)) (\<lambda>n.
     Option.bind (json_text (json_get ''public_key'' d)) (\<lambda>p.
     Option.bind (json_text (json_get ''address'' d)) (\<lambda>a.
     Option.bind (json_flag (json_get ''exportable'' d)) (\<lambda>x.
     Option.bind (json_time time_of (json_get ''created_at'' d)) (\<lambda>t.
       Some \<lparr>inf_Name = n, inf_PublicKey = p, inf_Address = a, inf_Exportable = x, inf_CreatedAt = t\<rparr>)))))"

definition key_info_of :: "(string \<Rightarrow> nat option) \<Rightarrow> jsonv option \<Rightarrow> goerr + KeyInfo" where
  "key_info_of time_of body =
     of_option unmarshal_error (Option.bind (json_data body) (decode_KeyInfo time_of))"

section \<open>Operations\<close>

definition key_url :: "client \<Rightarrow> string \<Rightarrow> string" where
  "key_url c name = ''/v1/'' @ cl_path c @ ''/keys/'' @ name"

definition CreateKey ::
  "'w transport \<Rightarrow> client \<Rightarrow> (string \<Rightarrow> nat option) \<Rightarrow> string \<Rightarrow> bool \<Rightarrow> 'w \<Rightarrow> 'w \<times> (goerr + KeyInfo)" where
  "CreateKey http c time_of name exportable w =
     (case http_post http c (key_url c name) (JObject [(''exportable'', JBool exportable)]) w of
        (w', r) \<Rightarrow> (w', wrap_key ''create'' name (res_bind r (key_info_of time_of))))"

definition GetKey ::
  "'w transport \<Rightarrow> client \<Rightarrow> (string \<Rightarrow> nat option) \<Rightarrow> string \<Rightarrow> 'w \<Rightarrow> 'w \<times> (goerr + KeyInfo)" where
  "GetKey http c time_of name w =
     (case http_get http c (key_url c name) w of
        (w', r) \<Rightarrow> (w', wrap_key ''get'' name (res_bind r (key_info_of time_of))))"

definition ListKeys :: "'w transport \<Rightarrow> client \<Rightarrow> 'w \<Rightarrow> 'w \<times> (goerr + string list)" where
  "ListKeys http c w =
     (case http_list http c (''/v1/'' @ cl_path c @ ''/keys'') w of
        (w', r) \<Rightarrow> (w', res_bind r (\<lambda>body. of_option unmarshal_error
          (Option.bind (json_data body) (\<lambda>d. json_slice json_text (json_get ''keys'' d))))))"

definition DeleteKey :: "'w transport \<Rightarrow> client \<Rightarrow> string \<Rightarrow> 'w \<Rightarrow> 'w \<times> goerr option" where
  "DeleteKey http c name w =
     (let w' = fst (http_post http c (key_url c name @ ''/config'') (JObject [(''deletion_allowed'', JBool True)]) w)
      in http_delete http c (key_url c name) w')"

definition sign_body :: "bytes \<Rightarrow> bool \<Rightarrow> jsonv" where
  "sign_body data prehashed =
     JObject ([(''input'', JString (b64_encode data)), (''prehashed'', JBool prehashed),
        (''output_format'', JString ''cosmos'')] @
        (if prehashed then [] else [(''hash_algorithm'', JString ''sha256'')]))"

definition signature_of :: "jsonv option \<Rightarrow> goerr + bytes" where
  "signature_of body =
     res_bind (of_option unmarshal_error (Option.bind (json_data body) (\<lambda>d.
        Option.bind (json_text (json_get ''signature'' d)) (\<lambda>s.
        Option.bind (json_text (json_get ''public_key'' d)) (\<lambda>_.
        Option.bind (json_int64 (json_get ''key_version'' d)) (\<lambda>_. Some s)))))) (\<lambda>s.
     case b64_decode s of
       None \<Rightarrow> Inl (Plain ''base64'')
     | Some sig \<Rightarrow> if length sig \<noteq> 64 then Inl (Sentinel ErrInvalidSignature) else Inr sig)"

definition Client_Sign ::
  "'w transport \<Rightarrow> client \<Rightarrow> string \<Rightarrow> bytes \<Rightarrow> bool \<Rightarrow> 'w \<Rightarrow> 'w \<times> (goerr + bytes)" where
  "Client_Sign http c keyName data prehashed w =
     (case http_post http c (''/v1/'' @ cl_path c @ ''/sign/'' @ keyName) (sign_body data prehashed) w of
        (w', r) \<Rightarrow> (w', wrap_key ''sign'' keyName (res_bind r signature_of)))"

definition Client_ImportKey ::
  "'w transport \<Rightarrow> client \<Rightarrow> (string \<Rightarrow> nat option) \<Rightarrow> string \<Rightarrow> string \<Rightarrow> bool \<Rightarrow> 'w \<Rightarrow> 'w \<times> (goerr + KeyInfo)" where
  "Client_ImportKey http c time_of name ciphertext exportable w =
     (case http_post http c (key_url c name @ ''/import'')
          (JObject [(''ciphertext'', JString ciphertext), (''exportable'', JBool exportable)]) w of
        (w', r) \<Rightarrow> (w', wrap_key ''import'' name (res_bind r (key_info_of time_of))))"

definition exported_of :: "(string \<Rightarrow> nat option) \<Rightarrow> jsonv option \<Rightarrow> goerr + (string \<times> KeyInfo)" where
  "exported_of time_of body =
     res_bind (of_option unmarshal_error (Option.bind (json_data body) (\<lambda>d.
        Option.bind (json_text (json_get ''name'' d)) (\<lambda>n.
        Option.bind (json_text (json_get ''public_key'' d)) (\<lambda>p.
        Option.bind (json_text (json_get ''address'' d)) (\<lambda>a.
        Option.bind (json_string_map (json_get ''keys'' d)) (\<lambda>ks.
        Option.bind (json_time time_of (json_get ''created_at'' d)) (\<lambda>t.
        Option.bind (json_flag (json_get ''imported'' d)) (\<lambda>_.
          Some (ks, \<lparr>inf_Name = n, inf_PublicKey = p, inf_Address = a, inf_Exportable = False,
             inf_CreatedAt = t\<rparr>)))))))))) (\<lambda>(ks, info).
     case ks ''1'' of
       None \<Rightarrow> Inl (Sentinel ErrKeyNotFound)
     | Some keyData \<Rightarrow> Inr (keyData, info))"

definition Client_ExportKey ::
  "'w transport \<Rightarrow> client \<Rightarrow> (string \<Rightarrow> nat option) \<Rightarrow> string \<Rightarrow> 'w \<Rightarrow> 'w \<times> (goerr + (string \<times> KeyInfo))" where
  "Client_ExportKey http c time_of name w =
     (case http_get http c (''/v1/'' @ cl_path c @ ''/export/'' @ name) w of
        (w', r) \<Rightarrow> (w', wrap_key ''export'' name (res_bind r (exported_of time_of))))"

text \<open>The health check sends no token and reads only the status.\<close>

definition Health :: "'w transport \<Rightarrow> client \<Rightarrow> 'w \<Rightarrow> 'w \<times> goerr option" where
  "Health http c w =
     (case http w \<lparr>hq_method = ''GET'', hq_url = cl_baseURL c @ ''/v1/sys/health'', hq_token = [],
          hq_namespace = None, hq_body = None\<rparr> of
        (w', NoReply) \<Rightarrow> (w', Some (Sentinel ErrBaoConnection))
      | (w', Reply status resp) \<Rightarrow>
          (w', if status = 200 then None
               else if status = 503 then Some (Sentinel ErrBaoSealed)
               else Some (Sentinel ErrBaoUnavailable)))"

section \<open>Properties\<close>

lemma doRequest_reply:
  assumes "\<forall>q. http w q = (w', Reply status resp)"
  shows "doRequest http c method path body w =
     (w', if 400 \<le> status then Inl (NewBaoError status (error_list resp) []) else Inr resp)"
  by (simp add: doRequest_def assms)

lemmas call_defs = CreateKey_def GetKey_def ListKeys_def Client_Sign_def Client_ImportKey_def
  Client_ExportKey_def http_get_def http_post_def http_list_def http_delete_def

text \<open>What an operation gives back for a status of 400 or more.\<close>

definition status_error :: "nat \<Rightarrow> goerr + 'a \<Rightarrow> bool" where
  "status_error status r \<longleftrightarrow> (\<exists>e. r = Inl e \<and> (\<forall>t. err_is e t \<longleftrightarrow> BaoError_Is status t))"

text \<open>
  Every operation turns an HTTP error status into an error that \<open>errors.Is\<close> takes for exactly the
  sentinel of that status, through the key-context wrapper: 403 for failed authentication,
  404 for a missing key, 503 for a sealed server, and nothing else for any other status.
\<close>

lemma client_error_classes:
  assumes "\<forall>q. http w q = (w', Reply status resp)" "400 \<le> status"
  shows "status_error status (snd (CreateKey http c time_of name x w)) \<and>
    status_error status (snd (GetKey http c time_of name w)) \<and>
    status_error status (snd (ListKeys http c w)) \<and>
    status_error status (snd (Client_Sign http c name d pre w)) \<and>
    status_error status (snd (Client_ImportKey http c time_of name ct x w)) \<and>
    status_error status (snd (Client_ExportKey http c time_of name w))"
  using assms(2)
  by (simp add: call_defs
      doRequest_reply [where http = http and w = w and w' = w' and status = status and resp = resp, OF assms(1)] status_error_def NewBaoError_def)

definition sealed_server :: "unit transport" where
  "sealed_server w q = (w, Reply 503 None)"

definition demo_client :: client where
  "demo_client = NewBaoClient \<lparr>BaoAddr = ''http://bao/'', BaoToken = ''t'', BaoNamespace = [],
     Secp256k1Path = [], StorePath = ''s'', HTTPTimeout = 0\<rparr>"

theorem client_error_classes_witness:
  "status_error 503 (snd (Client_Sign sealed_server demo_client ''a'' [] True ()))"
proof -
  have r: "\<forall>q. sealed_server () q = ((), Reply 503 None)" by (simp add: sealed_server_def)
  show ?thesis using client_error_classes [where http = sealed_server and w = "()" and w' = "()" and status = 503
        and resp = None and name = "''a''" and d = "[]" and pre = True, OF r] by simp
qed

text \<open>
  Whatever the server sends, a signature the client returns has 64 bytes; any other length is an
  error that is \<open>ErrInvalidSignature\<close>.
\<close>

lemma client_sign_length:
  "(\<forall>sig. snd (Client_Sign http c name d pre w) = Inr sig \<longrightarrow> length sig = 64) \<and>
   (\<forall>body s sig. json_data body = Some (JObject [(''signature'', JString s)]) \<longrightarrow> b64_decode s = Some sig \<longrightarrow>
      length sig \<noteq> 64 \<longrightarrow> (\<exists>e. signature_of body = Inl e \<and> err_is e ErrInvalidSignature))"
  by (auto simp: Client_Sign_def signature_of_def json_get_def same_field_def fold_char_def
      split: option.splits prod.splits if_splits)

definition signing_server :: "unit transport" where
  "signing_server w q = (w, Reply 200 (Some (JObject [(''data'',
     JObject [(''signature'', JString (b64_encode (replicate 64 1)))])])))"

end
