(* ===== verification/Schedules.thy ===== *)
theory Schedules
  imports Prelude
begin

text \<open>
  The goroutines of a batch operation, as the client library, the key service and the RPC handler
  start them: one per index, all writing to their own slot of a result slice, in the order of a
  schedule that is an argument.
\<close>

section \<open>Running a batch\<close>

text \<open>
  One goroutine an index, run in the order the scheduler picks; each writes its own slot of the
  result slices.
\<close>

fun run_schedule :: "(nat \<Rightarrow> 'k \<Rightarrow> 'k \<times> 'r) \<Rightarrow> nat list \<Rightarrow> 'k \<times> 'r list \<Rightarrow> 'k \<times> 'r list" where
  "run_schedule f [] (k, rs) = (k, rs)"
| "run_schedule f (i # is) (k, rs) = (case f i k of (k', r) \<Rightarrow> run_schedule f is (k', rs[i := r]))"

section \<open>What every schedule gives\<close>

lemma run_schedule_length [simp]: "length (snd (run_schedule f sch krs)) = length (snd krs)"
  by (induction f sch krs rule: run_schedule.induct) (simp_all split: prod.split)

text \<open>When every goroutine's result is the same in all states the run goes through, the schedule is immaterial.\<close>

lemma run_schedule_steady:
  assumes "\<And>i k. P k \<Longrightarrow> P (fst (f i k)) \<and> snd (f i k) = g i" "P k" "i < length rs"
  shows "P (fst (run_schedule f sch (k, rs))) \<and>
    snd (run_schedule f sch (k, rs)) ! i = (if i \<in> set sch then g i else rs ! i)"
  using assms(2,3)
proof (induction sch arbitrary: k rs)
  case (Cons j js)
  obtain k' r where f: "f j k = (k', r)" by fastforce
  then have "P k'" "r = g j" using assms(1) [OF Cons.prems(1), of j] by simp_all
  then show ?case
    using Cons.IH [of k' "rs[j := r]"] Cons.prems(2) f by (auto simp: nth_list_update)
qed simp

text \<open>
  A fact \<open>Q i\<close> about slot i and the state, which its own goroutine establishes and the others
  keep, holds at the end.
\<close>

lemma run_schedule_established:
  assumes "\<And>i k. Q i (fst (f i k)) (snd (f i k))"
    and "\<And>i j k r. i \<noteq> j \<Longrightarrow> Q i k r \<Longrightarrow> Q i (fst (f j k)) r"
    and "distinct sch" "i < length rs" "i \<in> set sch \<or> Q i k (rs ! i)"
  shows "Q i (fst (run_schedule f sch (k, rs))) (snd (run_schedule f sch (k, rs)) ! i)"
  using assms(3-5)
proof (induction sch arbitrary: k rs)
  case (Cons j js)
  obtain k' r where f: "f j k = (k', r)" by fastforce
  have q: "i \<in> set js \<or> Q i k' (rs[j := r] ! i)"
    using Cons.prems assms(1) [of j k] assms(2) [of i j k "rs ! i"] f
    by (cases "i = j") auto
  have d: "distinct js" and l: "i < length (rs[j := r])" using Cons.prems(1,2) by simp_all
  show ?case using Cons.IH [OF d l q] f by simp
qed simp

end
