(* ===== verification/BaoKeyring.thy ===== *)
theory BaoKeyring
  imports BaoClient BaoStore Schedules
begin

text \<open>
  The Cosmos keyring over OpenBao, \<open>bao_keyring.go\<close>: the client and the metadata store put
  together. An operation takes the state of the outside world, the store and the disk, and the
  faults of its store syncs; the clock is an argument. What the Cosmos SDK makes of metadata (a
  keyring record, an armored public key) is a parameter. Batch operations run one goroutine a
  request; their schedule is an argument.
\<close>

section \<open>State and parameters\<close>

record 'w world =
  wd_remote :: 'w
  wd_store :: store
  wd_disk :: filesystem

record ('w, 'rec) env =
  ev_http :: "'w transport"
  ev_client :: client
  ev_time_of :: "string \<Rightarrow> nat option"
  ev_name :: "'rec \<Rightarrow> string"
  ev_record :: "string \<Rightarrow> bytes \<Rightarrow> goerr + 'rec"
  ev_sha256 :: "bytes \<Rightarrow> bytes"
  ev_armor :: "bytes \<Rightarrow> string"

definition with_store ::
  "(store \<times> filesystem \<Rightarrow> (store \<times> filesystem) \<times> goerr option) \<Rightarrow> 'w world \<Rightarrow> 'w world \<times> goerr option" where
  "with_store f k =
     (case f (wd_store k, wd_disk k) of
        ((s, fs), r) \<Rightarrow> (k\<lparr>wd_store := s, wd_disk := fs\<rparr>, r))"

definition unsupported :: "string \<Rightarrow> goerr" where
  "unsupported msg = Wrapf msg (Sentinel ErrUnsupportedAlgo)"

section \<open>Keys\<close>

definition New ::
  "'w transport \<Rightarrow> Config \<Rightarrow> bool \<Rightarrow> bool \<Rightarrow> 'w \<Rightarrow> filesystem \<Rightarrow> goerr + (client \<times> 'w world)" where
  "New http cfg mkdir_fails read_fails w fs =
     (case Config_Validate cfg of
        Some e \<Rightarrow> Inl (Sentinel e)
      | None \<Rightarrow>
          let c = NewBaoClient cfg in
          (case Health http c w of
             (w', Some e) \<Rightarrow> Inl (Wrapf ''health check'' e)
           | (w', None) \<Rightarrow>
               (case NewBaoStore mkdir_fails read_fails fs (StorePath cfg) of
                  Inl e \<Rightarrow> Inl (Wrapf ''create store'' e)
                | Inr s \<Rightarrow> Inr (c, \<lparr>wd_remote = w', wd_store = s, wd_disk = fs\<rparr>))))"

definition metadataToRecord :: "('w, 'rec) env \<Rightarrow> KeyMetadata \<Rightarrow> goerr + 'rec" where
  "metadataToRecord E m = ev_record E (md_Name m) (md_PubKeyBytes m)"

definition Keyring_List :: "('w, 'rec) env \<Rightarrow> string list \<Rightarrow> 'w world \<Rightarrow> 'rec list" where
  "Keyring_List E order k =
     List.map_filter (\<lambda>m. case metadataToRecord E m of Inl _ \<Rightarrow> None | Inr r \<Rightarrow> Some r)
       (List_metas order (wd_store k))"

definition Keyring_Key :: "('w, 'rec) env \<Rightarrow> string \<Rightarrow> 'w world \<Rightarrow> goerr + 'rec" where
  "Keyring_Key E uid k = res_bind (Get (wd_store k) uid) (metadataToRecord E)"

definition KeyByAddress :: "('w, 'rec) env \<Rightarrow> string list \<Rightarrow> string \<Rightarrow> 'w world \<Rightarrow> goerr + 'rec" where
  "KeyByAddress E order address k =
     res_bind (GetByAddress order (wd_store k) address) (metadataToRecord E)"

definition Keyring_Delete :: "('w, 'rec) env \<Rightarrow> sync_io \<Rightarrow> string \<Rightarrow> 'w world \<Rightarrow> 'w world \<times> goerr option" where
  "Keyring_Delete E io uid k =
     (case DeleteKey (ev_http E) (ev_client E) uid (wd_remote k) of
        (w', Some e) \<Rightarrow> (k\<lparr>wd_remote := w'\<rparr>, Some e)
      | (w', None) \<Rightarrow> with_store (Delete_meta io uid) (k\<lparr>wd_remote := w'\<rparr>))"

definition DeleteByAddress ::
  "('w, 'rec) env \<Rightarrow> sync_io \<Rightarrow> string list \<Rightarrow> string \<Rightarrow> 'w world \<Rightarrow> 'w world \<times> goerr option" where
  "DeleteByAddress E io order address k =
     (case GetByAddress order (wd_store k) address of
        Inl e \<Rightarrow> (k, Some e)
      | Inr m \<Rightarrow> Keyring_Delete E io (md_UID m) k)"

definition Keyring_Rename :: "sync_io \<Rightarrow> string \<Rightarrow> string \<Rightarrow> 'w world \<Rightarrow> 'w world \<times> goerr option" where
  "Keyring_Rename io from to k = with_store (Rename_meta io from to) k"

definition NewMnemonic :: "goerr" where
  "NewMnemonic = unsupported ''NewMnemonic not supported, use NewAccount instead''"

text \<open>
  The end that creating and importing share: decode the public key, file the metadata, and
  delete the key in OpenBao again when either fails.
\<close>

definition new_metadata :: "('w, 'rec) env \<Rightarrow> string \<Rightarrow> bytes \<Rightarrow> string \<Rightarrow> bool \<Rightarrow> nat \<Rightarrow> string \<Rightarrow> KeyMetadata" where
  "new_metadata E uid pubKey address exportable now source =
     \<lparr>md_UID = uid, md_Name = uid, md_PubKeyBytes = pubKey, md_PubKeyType = ''secp256k1'',
      md_Address = address, md_BaoKeyPath = cl_path (ev_client E) @ ''/keys/'' @ uid,
      md_Algorithm = ''secp256k1'', md_Exportable = exportable, md_CreatedAt = now, md_Source = source\<rparr>"

definition forget_remote :: "('w, 'rec) env \<Rightarrow> string \<Rightarrow> 'w world \<Rightarrow> 'w world" where
  "forget_remote E uid k = k\<lparr>wd_remote := fst (DeleteKey (ev_http E) (ev_client E) uid (wd_remote k))\<rparr>"

definition file_key ::
  "('w, 'rec) env \<Rightarrow> sync_io \<Rightarrow> string \<Rightarrow> KeyInfo \<Rightarrow> bool \<Rightarrow> nat \<Rightarrow> string \<Rightarrow> 'w world \<Rightarrow> 'w world \<times> (goerr + 'rec)" where
  "file_key E io uid info exportable now source k =
     (case hex_decode (inf_PublicKey info) of
        None \<Rightarrow> (forget_remote E uid k, Inl (Plain ''failed to decode public key''))
      | Some pubKey \<Rightarrow>
          let m = new_metadata E uid pubKey (inf_Address info) exportable now source in
          (case with_store (Save io (Some m)) k of
             (k', Some e) \<Rightarrow> (forget_remote E uid k', Inl e)
           | (k', None) \<Rightarrow> (k', metadataToRecord E m)))"

definition already_there :: "string \<Rightarrow> goerr" where
  "already_there uid = Wrapf uid (Sentinel ErrKeyExists)"

definition NewAccountWithOptions ::
  "('w, 'rec) env \<Rightarrow> sync_io \<Rightarrow> string \<Rightarrow> bool \<Rightarrow> nat \<Rightarrow> 'w world \<Rightarrow> 'w world \<times> (goerr + 'rec)" where
  "NewAccountWithOptions E io uid exportable now k =
     (if Has (wd_store k) uid then (k, Inl (already_there uid))
      else case CreateKey (ev_http E) (ev_client E) (ev_time_of E) uid exportable (wd_remote k) of
        (w', Inl e) \<Rightarrow> (k\<lparr>wd_remote := w'\<rparr>, Inl e)
      | (w', Inr info) \<Rightarrow> file_key E io uid info exportable now ''generated'' (k\<lparr>wd_remote := w'\<rparr>))"

definition NewAccount ::
  "('w, 'rec) env \<Rightarrow> sync_io \<Rightarrow> string \<Rightarrow> string option \<Rightarrow> nat \<Rightarrow> 'w world \<Rightarrow> 'w world \<times> (goerr + 'rec)" where
  "NewAccount E io uid algo now k =
     (if algo \<noteq> None \<and> algo \<noteq> Some ''secp256k1'' then (k, Inl (Sentinel ErrUnsupportedAlgo))
      else if Has (wd_store k) uid then (k, Inl (already_there uid))
      else case CreateKey (ev_http E) (ev_client E) (ev_time_of E) uid False (wd_remote k) of
        (w', Inl e) \<Rightarrow> (k\<lparr>wd_remote := w'\<rparr>, Inl e)
      | (w', Inr info) \<Rightarrow> file_key E io uid info False now ''generated'' (k\<lparr>wd_remote := w'\<rparr>))"

definition ImportKey ::
  "('w, 'rec) env \<Rightarrow> sync_io \<Rightarrow> string \<Rightarrow> string \<Rightarrow> bool \<Rightarrow> nat \<Rightarrow> 'w world \<Rightarrow> 'w world \<times> (goerr + 'rec)" where
  "ImportKey E io uid ciphertext exportable now k =
     (if Has (wd_store k) uid then (k, Inl (already_there uid))
      else case Client_ImportKey (ev_http E) (ev_client E) (ev_time_of E) uid ciphertext exportable (wd_remote k) of
        (w', Inl e) \<Rightarrow> (k\<lparr>wd_remote := w'\<rparr>, Inl e)
      | (w', Inr info) \<Rightarrow> file_key E io uid info exportable now ''imported'' (k\<lparr>wd_remote := w'\<rparr>))"

definition ExportKey :: "('w, 'rec) env \<Rightarrow> string \<Rightarrow> 'w world \<Rightarrow> 'w world \<times> (goerr + string)" where
  "ExportKey E uid k =
     (case Get (wd_store k) uid of
        Inl e \<Rightarrow> (k, Inl e)
      | Inr m \<Rightarrow>
          if \<not> md_Exportable m then (k, Inl (Wrapf uid (Sentinel ErrKeyNotExportable)))
          else (case Client_ExportKey (ev_http E) (ev_client E) (ev_time_of E) uid (wd_remote k) of
             (w', Inl e) \<Rightarrow> (k\<lparr>wd_remote := w'\<rparr>, Inl e)
           | (w', Inr (keyData, info)) \<Rightarrow> (k\<lparr>wd_remote := w'\<rparr>, Inr keyData)))"

definition GetMetadata :: "string \<Rightarrow> 'w world \<Rightarrow> goerr + KeyMetadata" where
  "GetMetadata uid k = Get (wd_store k) uid"

section \<open>Signing\<close>

definition Keyring_Sign ::
  "('w, 'rec) env \<Rightarrow> string \<Rightarrow> bytes \<Rightarrow> 'w world \<Rightarrow> 'w world \<times> (goerr + (bytes \<times> bytes))" where
  "Keyring_Sign E uid msg k =
     (case Get (wd_store k) uid of
        Inl e \<Rightarrow> (k, Inl e)
      | Inr m \<Rightarrow>
          (case Client_Sign (ev_http E) (ev_client E) uid (ev_sha256 E msg) True (wd_remote k) of
             (w', Inl e) \<Rightarrow> (k\<lparr>wd_remote := w'\<rparr>, Inl e)
           | (w', Inr sig) \<Rightarrow> (k\<lparr>wd_remote := w'\<rparr>, Inr (sig, md_PubKeyBytes m))))"

definition SignByAddress ::
  "('w, 'rec) env \<Rightarrow> string list \<Rightarrow> string \<Rightarrow> bytes \<Rightarrow> 'w world \<Rightarrow> 'w world \<times> (goerr + (bytes \<times> bytes))" where
  "SignByAddress E order address msg k =
     (case GetByAddress order (wd_store k) address of
        Inl e \<Rightarrow> (k, Inl e)
      | Inr m \<Rightarrow> Keyring_Sign E (md_UID m) msg k)"

definition ExportPubKeyArmor :: "('w, 'rec) env \<Rightarrow> string \<Rightarrow> 'w world \<Rightarrow> goerr + string" where
  "ExportPubKeyArmor E uid k =
     res_bind (Get (wd_store k) uid) (\<lambda>m. Inr (ev_armor E (md_PubKeyBytes m)))"

definition ExportPubKeyArmorByAddress ::
  "('w, 'rec) env \<Rightarrow> string list \<Rightarrow> string \<Rightarrow> 'w world \<Rightarrow> goerr + string" where
  "ExportPubKeyArmorByAddress E order address k =
     res_bind (GetByAddress order (wd_store k) address) (\<lambda>m. Inr (ev_armor E (md_PubKeyBytes m)))"

definition ExportPrivKeyArmor :: goerr where
  "ExportPrivKeyArmor = Wrapf ''private keys never leave OpenBao'' (Sentinel ErrKeyNotExportable)"

definition MigrateAll :: "('w, 'rec) env \<Rightarrow> string list \<Rightarrow> 'w world \<Rightarrow> 'rec list" where
  "MigrateAll E order k = Keyring_List E order k"

definition Keyring_Close :: "sync_io \<Rightarrow> 'w world \<Rightarrow> 'w world \<times> goerr option" where
  "Keyring_Close io k = with_store (Close io) k"

section \<open>Batches\<close>

record SignResult =
  sr_UID :: string
  sr_Signature :: bytes
  sr_PubKey :: bytes
  sr_Error :: "goerr option"

definition sign_one ::
  "('w, 'rec) env \<Rightarrow> string \<times> bytes \<Rightarrow> 'w world \<Rightarrow> 'w world \<times> SignResult" where
  "sign_one E r k =
     (case Keyring_Sign E (fst r) (snd r) k of
        (k', Inl e) \<Rightarrow> (k', \<lparr>sr_UID = fst r, sr_Signature = [], sr_PubKey = [], sr_Error = Some e\<rparr>)
      | (k', Inr (sig, pk)) \<Rightarrow> (k', \<lparr>sr_UID = fst r, sr_Signature = sig, sr_PubKey = pk, sr_Error = None\<rparr>))"

definition zero_result :: SignResult where
  "zero_result = \<lparr>sr_UID = [], sr_Signature = [], sr_PubKey = [], sr_Error = None\<rparr>"

definition SignBatch ::
  "('w, 'rec) env \<Rightarrow> nat list \<Rightarrow> (string \<times> bytes) list \<Rightarrow> 'w world \<Rightarrow> 'w world \<times> SignResult list" where
  "SignBatch E sched reqs k =
     (if reqs = [] then (k, [])
      else run_schedule (\<lambda>i. sign_one E (reqs ! i)) sched (k, replicate (length reqs) zero_result))"

record KeyRecord =
  kr_Name :: string
  kr_PubKey :: bytes
  kr_Address :: string
  kr_Algorithm :: string

definition batch_uid :: "string \<Rightarrow> nat \<Rightarrow> string" where
  "batch_uid prefix idx = prefix @ ''-'' @ dec_of_nat (idx + 1)"

definition create_one ::
  "('w, 'rec) env \<Rightarrow> (nat \<Rightarrow> sync_io) \<Rightarrow> string \<Rightarrow> bool \<Rightarrow> nat \<Rightarrow> nat \<Rightarrow> 'w world \<Rightarrow>
     'w world \<times> (goerr + KeyRecord)" where
  "create_one E ios prefix exportable now idx k =
     (let uid = batch_uid prefix idx in
      case NewAccountWithOptions E (ios idx) uid exportable now k of
        (k', Inl e) \<Rightarrow> (k', Inl e)
      | (k', Inr r) \<Rightarrow>
          (case Get (wd_store k') uid of
             Inl e \<Rightarrow> (k', Inl e)
           | Inr m \<Rightarrow> (k', Inr \<lparr>kr_Name = ev_name E r, kr_PubKey = md_PubKeyBytes m,
               kr_Address = md_Address m, kr_Algorithm = md_Algorithm m\<rparr>)))"

record CreateBatchResult =
  cb_Keys :: "KeyRecord option list"
  cb_Errors :: "goerr option list"

definition CreateBatch ::
  "('w, 'rec) env \<Rightarrow> (nat \<Rightarrow> sync_io) \<Rightarrow> nat list \<Rightarrow> string \<Rightarrow> int \<Rightarrow> bool \<Rightarrow> nat \<Rightarrow> 'w world \<Rightarrow>
     'w world \<times> CreateBatchResult option \<times> goerr option" where
  "CreateBatch E ios sched prefix count exportable now k =
     (if count \<le> 0 \<or> count > 100 then (k, None, Some (Plain ''count must be between 1 and 100''))
      else if prefix = [] then (k, None, Some (Plain ''prefix is required''))
      else case run_schedule (create_one E ios prefix exportable now) sched
             (k, replicate (nat count) (Inl (Plain ''not run''))) of
        (k', rs) \<Rightarrow>
          let errs = map (\<lambda>r. case r of Inl e \<Rightarrow> Some e | Inr _ \<Rightarrow> None) rs;
              ks = map (\<lambda>r. case r of Inl _ \<Rightarrow> None | Inr x \<Rightarrow> Some x) rs
          in (k', Some \<lparr>cb_Keys = ks, cb_Errors = errs\<rparr>,
              if list_ex (\<lambda>e. e \<noteq> None) errs then Some (Plain ''batch create partial failure'') else None))"

section \<open>Accounts\<close>

lemma with_store_simps [simp]:
  "wd_remote (fst (with_store f k)) = wd_remote k"
  by (simp add: with_store_def split: prod.splits)

lemma forget_remote_simps [simp]:
  "wd_store (forget_remote E uid k) = wd_store k" "wd_disk (forget_remote E uid k) = wd_disk k"
  by (simp_all add: forget_remote_def)

text \<open>A save touches its own UID only.\<close>

lemma Save_other:
  "u \<noteq> md_UID m \<Longrightarrow> keys_of (fst (fst (Save io (Some m) (s, fs)))) u = keys_of s u"
  by (simp add: Save_def)

lemma file_key_other:
  "u \<noteq> uid \<Longrightarrow> keys_of (wd_store (fst (file_key E io uid info x now src k))) u = keys_of (wd_store k) u"
proof -
  assume u: "u \<noteq> uid"
  have "keys_of (fst (fst (Save io (Some (new_metadata E uid pk a x now src)) (wd_store k, wd_disk k)))) u =
      keys_of (wd_store k) u" for pk a
    by (rule Save_other) (simp add: u new_metadata_def)
  then show ?thesis
    by (auto simp: file_key_def with_store_def Let_def split: option.splits prod.splits)
      (metis fst_conv)+
qed

lemma NewAccountWithOptions_other:
  "u \<noteq> uid \<Longrightarrow> keys_of (wd_store (fst (NewAccountWithOptions E io uid x now k))) u = keys_of (wd_store k) u"
  by (simp add: NewAccountWithOptions_def file_key_other split: prod.split sum.split)

text \<open>The outcomes of filing a key that is not in the store yet.\<close>

lemma file_key_outcome:
  assumes "keys_of (wd_store k) uid = None" "uid \<noteq> []" "hex_decode (inf_PublicKey info) = Some pk"
  obtains (filed) k' where "file_key E io uid info x now src k = (k', metadataToRecord E (new_metadata E uid pk (inf_Address info) x now src))"
      "keys_of (wd_store k') = (keys_of (wd_store k))(uid \<mapsto> new_metadata E uid pk (inf_Address info) x now src)"
      "wd_remote k' = wd_remote k" "\<not> st_dirty (wd_store k')"
      "files (wd_disk k') (st_path (wd_store k)) = Some (FJson (st_data (wd_store k')))"
  | (failed) k' e where "file_key E io uid info x now src k = (k', Inl e)"
      "keys_of (wd_store k') = (keys_of (wd_store k))(uid \<mapsto> new_metadata E uid pk (inf_Address info) x now src)"
      "wd_remote k' = fst (DeleteKey (ev_http E) (ev_client E) uid (wd_remote k))" "st_dirty (wd_store k')"
      "files (wd_disk k') (st_path (wd_store k)) = files (wd_disk k) (st_path (wd_store k))"
proof -
  let ?m = "new_metadata E uid pk (inf_Address info) x now src"
  let ?s = "(put_meta uid ?m (wd_store k))\<lparr>st_dirty := True\<rparr>"
  have sv: "Save io (Some ?m) (wd_store k, wd_disk k) = syncLocked io (?s, wd_disk k)"
    using assms(1,2) by (simp add: Save_def commit_def new_metadata_def)
  have "st_dirty ?s" by simp
  then show ?thesis
  proof (cases rule: syncLocked_outcome [of ?s io "wd_disk k"])
    case (clean fs')
    then show ?thesis using filed assms(3) by (simp add: file_key_def with_store_def sv Let_def)
  next
    case (failed fs' e)
    then show ?thesis using that(2) assms(3)
      by (simp add: file_key_def with_store_def sv forget_remote_def Let_def)
  qed
qed

section \<open>Steady servers\<close>

text \<open>A server that answers the same request the same way in every state.\<close>

definition steady :: "'w transport \<Rightarrow> bool" where
  "steady http \<longleftrightarrow> (\<forall>w w' q. snd (http w q) = snd (http w' q))"

lemma doRequest_snd:
  "snd (http w q) = snd (http w' q) \<Longrightarrow> q = \<lparr>hq_method = m, hq_url = cl_baseURL c @ p, hq_token = cl_token c,
     hq_namespace = (if cl_namespace c = [] then None else Some (cl_namespace c)), hq_body = b\<rparr> \<Longrightarrow>
     snd (doRequest http c m p b w) = snd (doRequest http c m p b w')"
  by (simp add: doRequest_def split_beta split: http_reply.split)

lemma steady_sign:
  assumes "steady http"
  shows "snd (Client_Sign http c n d pre w) = snd (Client_Sign http c n d pre w')"
proof -
  have "snd (doRequest http c m p b w) = snd (doRequest http c m p b w')" for m p b
    by (rule doRequest_snd [OF _ refl]) (use assms in \<open>simp add: steady_def\<close>)
  then show ?thesis by (simp add: Client_Sign_def http_post_def split_beta)
qed

lemma steady_sign_one:
  assumes "steady (ev_http E)" "wd_store k = wd_store k'"
  shows "snd (sign_one E r k) = snd (sign_one E r k')"
  using steady_sign [OF assms(1), of "ev_client E" "fst r" "ev_sha256 E (snd r)" True "wd_remote k" "wd_remote k'"] assms(2)
  by (auto simp: sign_one_def Keyring_Sign_def split: prod.splits sum.splits)

lemma sign_one_store: "wd_store (fst (sign_one E r k)) = wd_store k"
  by (simp add: sign_one_def Keyring_Sign_def split: prod.split sum.split)

section \<open>Properties\<close>


lemma batch_uid_inject [simp]: "batch_uid p i = batch_uid p j \<longleftrightarrow> i = j"
  by (simp add: batch_uid_def)

definition slot_filed :: "string \<Rightarrow> nat \<Rightarrow> 'w world \<Rightarrow> goerr + KeyRecord \<Rightarrow> bool" where
  "slot_filed prefix i k r \<longleftrightarrow>
     (\<forall>rec. r = Inr rec \<longrightarrow> (\<exists>m. keys_of (wd_store k) (batch_uid prefix i) = Some m \<and>
        kr_PubKey rec = md_PubKeyBytes m \<and> kr_Address rec = md_Address m))"

lemma create_one_files: "slot_filed prefix i (fst (create_one E ios prefix x now i k)) (snd (create_one E ios prefix x now i k))"
  by (auto simp: slot_filed_def create_one_def Get_def Let_def split: prod.splits sum.splits option.splits)

lemma create_one_other:
  "i \<noteq> j \<Longrightarrow> keys_of (wd_store (fst (create_one E ios prefix x now j k))) (batch_uid prefix i) =
     keys_of (wd_store k) (batch_uid prefix i)"
  using NewAccountWithOptions_other [of "batch_uid prefix i" "batch_uid prefix j" E "ios j" x now k]
  by (auto simp: create_one_def Let_def split: prod.splits sum.splits)

lemma create_one_keeps: "i \<noteq> j \<Longrightarrow> slot_filed prefix i k r \<Longrightarrow> slot_filed prefix i (fst (create_one E ios prefix x now j k)) r"
  by (simp add: slot_filed_def create_one_other)

text \<open>
  A server for the examples: every request succeeds and answers with one public key, one
  address and one signature.
\<close>

definition demo_server :: "unit transport" where
  "demo_server w q = (w, Reply 200 (Some (JObject [(''data'', JObject
     [(''public_key'', JString ''02''), (''address'', JString ''ad''),
      (''signature'', JString (b64_encode (replicate 64 1)))])])))"

definition demo_env :: "(unit, string) env" where
  "demo_env = \<lparr>ev_http = demo_server, ev_client = demo_client, ev_time_of = (\<lambda>_. None), ev_name = id,
     ev_record = (\<lambda>n pk. Inr n), ev_sha256 = (\<lambda>b. replicate 32 0), ev_armor = (\<lambda>_. [])\<rparr>"

definition demo_world :: "unit world" where
  "demo_world = \<lparr>wd_remote = (), wd_store = empty_store ''s'', wd_disk = blank_disk\<rparr>"

lemma demo_steady: "steady (ev_http demo_env)"
  by (simp add: steady_def demo_env_def demo_server_def)


text \<open>
  A batch creation accepts one to a hundred keys. Under every schedule of its goroutines and with any
  server and disk faults, each slot holds either a key or an error, a key in slot i is filed in the
  store under prefix-(i+1) with the public key and address reported, and the call reports
  success exactly when no slot has an error.
\<close>

lemma create_batch_slots:
  assumes "CreateBatch E ios sched prefix count x now k = (k', Some res, err)"
    and "distinct sched" "set sched = {..<nat count}"
  shows "0 < count \<and> count \<le> 100 \<and> length (cb_Keys res) = nat count \<and> length (cb_Errors res) = nat count \<and>
    (err = None \<longleftrightarrow> (\<forall>e\<in>set (cb_Errors res). e = None)) \<and>
    (\<forall>i<nat count. (cb_Keys res ! i = None \<longleftrightarrow> cb_Errors res ! i \<noteq> None) \<and>
      (\<forall>rec. cb_Keys res ! i = Some rec \<longrightarrow>
        (\<exists>m. keys_of (wd_store k') (batch_uid prefix i) = Some m \<and>
           kr_PubKey rec = md_PubKeyBytes m \<and> kr_Address rec = md_Address m)))"
proof -
  let ?f = "create_one E ios prefix x now"
  let ?r0 = "replicate (nat count) (Inl (Plain ''not run'')) :: (goerr + KeyRecord) list"
  have c: "0 < count" "count \<le> 100" using assms(1) by (auto simp: CreateBatch_def split: if_splits)
  obtain k1 rs where r1: "run_schedule ?f sched (k, ?r0) = (k1, rs)" by fastforce
  have rs: "run_schedule ?f sched (k, ?r0) = (k', rs)"
    "cb_Keys res = map (\<lambda>r. case r of Inl _ \<Rightarrow> None | Inr v \<Rightarrow> Some v) rs"
    "cb_Errors res = map (\<lambda>r. case r of Inl e \<Rightarrow> Some e | Inr _ \<Rightarrow> None) rs"
    "err = None \<longleftrightarrow> (\<forall>e\<in>set (cb_Errors res). e = None)"
    using assms(1) c r1 by (auto simp: CreateBatch_def Let_def list_ex_iff split: if_splits)
  have l: "length rs = nat count" using run_schedule_length [of ?f sched "(k, ?r0)"] rs(1) by simp
  have s: "slot_filed prefix i k' (rs ! i)" if "i < nat count" for i
    using run_schedule_established [where Q = "slot_filed prefix" and f = ?f and rs = ?r0 and i = i and sch = sched and k = k,
        OF create_one_files create_one_keeps assms(2)] that assms(3) rs(1) by simp
  have "cb_Keys res ! i = None \<longleftrightarrow> cb_Errors res ! i \<noteq> None" if "i < nat count" for i
    using that l by (simp add: rs(2,3) split: sum.split)
  moreover have "\<exists>m. keys_of (wd_store k') (batch_uid prefix i) = Some m \<and>
      kr_PubKey rec = md_PubKeyBytes m \<and> kr_Address rec = md_Address m"
    if "i < nat count" "cb_Keys res ! i = Some rec" for i rec
    using s [OF that(1)] that l by (auto simp: slot_filed_def rs(2) split: sum.splits)
  ultimately show ?thesis using c l rs by simp
qed

lemma create_batch_runs:
  "0 < count \<Longrightarrow> count \<le> 100 \<Longrightarrow> prefix \<noteq> [] \<Longrightarrow>
     \<exists>k' res err. CreateBatch E ios sched prefix count x now k = (k', Some res, err)"
  by (simp add: CreateBatch_def Let_def split: prod.split)

theorem create_batch_slots_witness:
  "\<exists>k' res err. CreateBatch demo_env (\<lambda>_. sync_ok) [1, 0] ''w'' 2 False 7 demo_world = (k', Some res, err) \<and>
     length (cb_Keys res) = 2 \<and> (err = None \<longleftrightarrow> (\<forall>e\<in>set (cb_Errors res). e = None))"
proof -
  obtain k' res err where v: "CreateBatch demo_env (\<lambda>_. sync_ok) [1, 0] ''w'' 2 False 7 demo_world = (k', Some res, err)"
    using create_batch_runs [of 2 "''w''" demo_env "\<lambda>_. sync_ok" "[1, 0]" False 7 demo_world] by auto
  have "set [1, 0] = {..<nat 2}" "distinct [1, 0 :: nat]" by auto
  then show ?thesis using create_batch_slots [OF v] v by auto
qed

text \<open>
  When the server has created a key but its metadata cannot be persisted, the new account fails
  and the key is deleted in OpenBao again; the store in memory keeps the metadata all the same, so that
  the account looks present, a second attempt is refused as existing, and the pending entry is
  written out by the next sync.
\<close>

lemma failed_account_blocks_retry:
  assumes "CreateKey (ev_http E) (ev_client E) (ev_time_of E) uid False (wd_remote k) = (w1, Inr info)"
    and "hex_decode (inf_PublicKey info) = Some pk" "keys_of (wd_store k) uid = None" "uid \<noteq> []"
    and "NewAccount E io uid None now k = (k', Inl e)" "st_dirty (wd_store k')"
  shows "wd_remote k' = fst (DeleteKey (ev_http E) (ev_client E) uid w1) \<and>
    (\<exists>m. GetMetadata uid k' = Inr m \<and> md_PubKeyBytes m = pk) \<and>
    NewAccount E io' uid None now' k' = (k', Inl (already_there uid))"
proof -
  let ?k = "k\<lparr>wd_remote := w1\<rparr>"
  have f: "file_key E io uid info False now ''generated'' ?k = (k', Inl e)"
    using assms(1,3,5) by (simp add: NewAccount_def Has_def)
  have n: "keys_of (wd_store ?k) uid = None" using assms(3) by simp
  from n assms(4,2) show ?thesis
  proof (cases rule: file_key_outcome [of ?k uid info pk E io False now "''generated''"])
    case (filed k1)
    then show ?thesis using f assms(6) by simp
  next
    case (failed k1 e1)
    then have "k' = k1" using f by simp
    then show ?thesis using failed
      by (simp add: GetMetadata_def Get_def Has_def NewAccount_def new_metadata_def)
  qed
qed

theorem failed_account_blocks_retry_witness:
  "\<exists>k' e m. NewAccount demo_env (sync_ok\<lparr>rename_fails := True\<rparr>) ''a'' None 7 demo_world = (k', Inl e) \<and>
     GetMetadata ''a'' k' = Inr m \<and>
     NewAccount demo_env sync_ok ''a'' None 8 k' = (k', Inl (already_there ''a''))"
proof -
  let ?io = "sync_ok\<lparr>rename_fails := True\<rparr>"
  have c: "CreateKey (ev_http demo_env) (ev_client demo_env) (ev_time_of demo_env) ''a'' False (wd_remote demo_world) =
      ((), Inr \<lparr>inf_Name = [], inf_PublicKey = ''02'', inf_Address = ''ad'', inf_Exportable = False, inf_CreatedAt = 0\<rparr>)"
    by (simp add: CreateKey_def http_post_def doRequest_def demo_env_def demo_server_def key_info_of_def
        json_data_def json_get_def same_field_def fold_char_def decode_KeyInfo_def json_time_def)
  have d: "hex_decode ''02'' = Some [2]" by (simp add: hex_val_def)
  have n: "keys_of (wd_store demo_world) ''a'' = None" by (simp add: demo_world_def empty_store_def)
  obtain k' r where v: "NewAccount demo_env ?io ''a'' None 7 demo_world = (k', r)" by fastforce
  then have "file_key demo_env ?io ''a'' \<lparr>inf_Name = [], inf_PublicKey = ''02'', inf_Address = ''ad'',
      inf_Exportable = False, inf_CreatedAt = 0\<rparr> False 7 ''generated'' (demo_world\<lparr>wd_remote := ()\<rparr>) = (k', r)"
    using c n by (simp add: NewAccount_def Has_def)
  then have "st_dirty (wd_store k') \<and> r = Inl (persist_error ''rename'')"
    by (simp add: file_key_def d with_store_def Save_def commit_def syncLocked_def sync_ok_def
        demo_world_def empty_store_def new_metadata_def Let_def put_meta_def forget_remote_def del: hex_decode.simps) auto
  then have r: "st_dirty (wd_store k')" "r = Inl (persist_error ''rename'')" by simp_all
  have k: "hex_decode (inf_PublicKey \<lparr>inf_Name = [], inf_PublicKey = ''02'', inf_Address = ''ad'',
      inf_Exportable = False, inf_CreatedAt = 0\<rparr>) = Some [2]"
    using d by (simp del: hex_decode.simps)
  note f = failed_account_blocks_retry [OF c k n list.distinct(2) v [unfolded r(2)] r(1), of sync_ok 8]
  show ?thesis
    using f v unfolding r(2) by (elim conjE exE) (intro exI conjI, assumption+)
qed

text \<open>
  Renaming an account changes the local metadata only; the key keeps its name in OpenBao, which the
  metadata still records as its path. Signing under the new name then asks OpenBao for a key of
  that name: with no such key there it fails as not found, though the keyring lists the account.
\<close>

lemma renamed_account_cannot_sign:
  assumes "Keyring_Rename io a b k = (k', None)" "a \<noteq> b"
    and "\<forall>w q. hq_url q = cl_baseURL (ev_client E) @ ''/v1/'' @ cl_path (ev_client E) @ ''/sign/'' @ b \<longrightarrow>
           snd (ev_http E w q) = Reply 404 body"
  shows "wd_remote k' = wd_remote k \<and>
    (\<exists>m. GetMetadata a k = Inr m \<and> GetMetadata b k' = Inr (m\<lparr>md_UID := b, md_Name := b\<rparr>)) \<and>
    (\<exists>e. snd (Keyring_Sign E b msg k') = Inl e \<and> err_is e ErrKeyNotFound)"
proof -
  obtain m where m: "keys_of (wd_store k) a = Some m" "keys_of (wd_store k) b = None"
    using assms(1,2) by (auto simp: Keyring_Rename_def with_store_def Rename_meta_def split: option.splits if_splits prod.splits)
  have k: "k' = fst (with_store (Rename_meta io a b) k)" using assms(1) by (simp add: Keyring_Rename_def)
  have "keys_of (wd_store k') b = Some (m\<lparr>md_UID := b, md_Name := b\<rparr>)"
    using m assms(2) by (simp add: k with_store_def Rename_meta_def split_beta)
  moreover have "snd (doRequest (ev_http E) (ev_client E) ''POST''
      (''/v1/'' @ cl_path (ev_client E) @ ''/sign/'' @ b) d w) = Inl (BaoError 404 (error_list body) [])" for d w
    using assms(3) by (simp add: doRequest_def NewBaoError_def split_beta)
  ultimately show ?thesis
    using m(1) by (simp add: k GetMetadata_def Get_def Keyring_Sign_def Client_Sign_def http_post_def split_beta BaoError_Is_def)
qed

definition no_key_server :: "unit transport" where
  "no_key_server w q = (w, Reply 404 None)"

theorem renamed_account_cannot_sign_witness:
  "\<exists>k' e. Keyring_Rename sync_ok ''a'' ''b'' (demo_world\<lparr>wd_store := put_meta ''a'' demo_meta (empty_store ''s'')\<rparr>) =
       (k', None) \<and> snd (Keyring_Sign (demo_env\<lparr>ev_http := no_key_server\<rparr>) ''b'' [1] k') = Inl e \<and>
     err_is e ErrKeyNotFound"
proof -
  let ?k = "demo_world\<lparr>wd_store := put_meta ''a'' demo_meta (empty_store ''s'')\<rparr>"
  obtain k' r where v: "Keyring_Rename sync_ok ''a'' ''b'' ?k = (k', r)" by fastforce
  have "r = None"
    using v by (simp add: Keyring_Rename_def with_store_def Rename_meta_def commit_def syncLocked_def sync_ok_def
        demo_world_def empty_store_def put_meta_def del_meta_def Let_def)
  then show ?thesis
    using renamed_account_cannot_sign [OF v [unfolded \<open>r = None\<close>], of "demo_env\<lparr>ev_http := no_key_server\<rparr>" None "[1]"] v
    by (auto simp: no_key_server_def)
qed

text \<open>
  A new account that is reported as created is filed under its UID with the public key and the address the
  server gave, not exportable, and nothing else in the store changes; the file on disk holds exactly this
  store.
\<close>

lemma new_account_filed:
  assumes "NewAccount E io uid algo now k = (k', Inr rec)" "uid \<noteq> []"
  shows "\<exists>info pk. snd (CreateKey (ev_http E) (ev_client E) (ev_time_of E) uid False (wd_remote k)) = Inr info \<and>
    hex_decode (inf_PublicKey info) = Some pk \<and>
    keys_of (wd_store k') = (keys_of (wd_store k))
      (uid \<mapsto> new_metadata E uid pk (inf_Address info) False now ''generated'') \<and>
    ev_record E uid pk = Inr rec \<and>
    files (wd_disk k') (st_path (wd_store k)) = Some (FJson (st_data (wd_store k')))"
proof -
  obtain w1 info where c: "CreateKey (ev_http E) (ev_client E) (ev_time_of E) uid False (wd_remote k) = (w1, Inr info)"
    and n: "keys_of (wd_store (k\<lparr>wd_remote := w1\<rparr>)) uid = None"
    and f: "file_key E io uid info False now ''generated'' (k\<lparr>wd_remote := w1\<rparr>) = (k', Inr rec)"
    using assms(1) by (auto simp: NewAccount_def Has_def split: if_splits prod.splits sum.splits)
  obtain pk where pk: "hex_decode (inf_PublicKey info) = Some pk"
    using f by (auto simp: file_key_def split: option.splits)
  from n assms(2) pk show ?thesis
  proof (cases rule: file_key_outcome [of "k\<lparr>wd_remote := w1\<rparr>" uid info pk E io False now "''generated''"])
    case (filed k1)
    then show ?thesis using f c pk
      by (intro exI [of _ info] exI [of _ pk]) (simp add: metadataToRecord_def new_metadata_def)
  next
    case (failed k1 e)
    then show ?thesis using f by simp
  qed
qed

theorem new_account_filed_witness:
  "\<exists>k'. NewAccount demo_env sync_ok ''a'' (Some ''secp256k1'') 7 demo_world = (k', Inr ''a'') \<and>
     files (wd_disk k') ''s'' = Some (FJson (st_data (wd_store k')))"
proof -
  obtain k' r where v: "NewAccount demo_env sync_ok ''a'' (Some ''secp256k1'') 7 demo_world = (k', r)" by fastforce
  have c: "CreateKey (ev_http demo_env) (ev_client demo_env) (ev_time_of demo_env) ''a'' False (wd_remote demo_world) =
      ((), Inr \<lparr>inf_Name = [], inf_PublicKey = ''02'', inf_Address = ''ad'', inf_Exportable = False, inf_CreatedAt = 0\<rparr>)"
    by (simp add: CreateKey_def http_post_def doRequest_def demo_env_def demo_server_def key_info_of_def
        json_data_def json_get_def same_field_def fold_char_def decode_KeyInfo_def json_time_def)
  have d: "hex_decode ''02'' = Some [2]" by (simp add: hex_val_def)
  have "file_key demo_env sync_ok ''a'' \<lparr>inf_Name = [], inf_PublicKey = ''02'', inf_Address = ''ad'',
      inf_Exportable = False, inf_CreatedAt = 0\<rparr> False 7 ''generated'' (demo_world\<lparr>wd_remote := ()\<rparr>) = (k', r)"
    using v c by (simp add: NewAccount_def Has_def demo_world_def empty_store_def)
  then have "r = Inr ''a''"
    by (simp add: file_key_def d with_store_def Save_def commit_def syncLocked_def sync_ok_def
        demo_world_def empty_store_def new_metadata_def Let_def put_meta_def metadataToRecord_def demo_env_def
        del: hex_decode.simps)
  then show ?thesis
    using new_account_filed [of demo_env sync_ok "''a''" "Some ''secp256k1''" 7 demo_world k' "''a''"] v
    by (auto simp: demo_world_def empty_store_def)
qed

end
