(* ===== verification/Migration.thy ===== *)
theory Migration
  imports BaoKeyring "HOL-Library.Multiset"
begin

text \<open>
  Moving keys between a local Cosmos keyring and OpenBao, \<open>migration/import.go\<close> and
  \<open>migration/export.go\<close>. The local keyring (\<open>keyring.Keyring\<close>) and the ASCII armor of private
  keys belong to the Cosmos SDK: they are the record \<open>sdk\<close>, whose operations work on a state of
  their own. Cancellation of the context is a predicate on the position in the batch.
\<close>

section \<open>The local keyring\<close>

record ('s, 'rec) sdk =
  sk_export_armor :: "'s \<Rightarrow> string \<Rightarrow> goerr + string"
  sk_unarmor :: "string \<Rightarrow> goerr + (bytes \<times> string)"
  sk_armor :: "bytes \<Rightarrow> string"
  sk_import_armor :: "'s \<Rightarrow> string \<Rightarrow> string \<Rightarrow> 's \<times> goerr option"
  sk_delete :: "'s \<Rightarrow> string \<Rightarrow> 's"
  sk_list :: "'s \<Rightarrow> goerr + string list"
  sk_has_key :: "'s \<Rightarrow> string \<Rightarrow> goerr option"
  sk_sign :: "'s \<Rightarrow> string \<Rightarrow> bytes \<Rightarrow> goerr option"
  sk_address_of :: "'rec \<Rightarrow> string option"
  sk_pubkey_of :: "'rec \<Rightarrow> bytes option"

record ImportConfig =
  ic_KeyName :: string
  ic_NewKeyName :: string
  ic_DeleteAfterImport :: bool
  ic_Exportable :: bool
  ic_VerifyAfterImport :: bool

record ImportResult =
  ir_KeyName :: string
  ir_Address :: string
  ir_PubKey :: bytes
  ir_BaoKeyPath :: string
  ir_Verified :: bool

record ExportConfig =
  ec_KeyName :: string
  ec_NewKeyName :: string
  ec_DeleteAfterExport :: bool
  ec_VerifyAfterExport :: bool
  ec_Confirmed :: bool

record ExportResult =
  er_KeyName :: string
  er_Address :: string
  er_Verified :: bool

definition dest_name :: "string \<Rightarrow> string \<Rightarrow> string" where
  "dest_name keyName newName = (if newName \<noteq> [] then newName else keyName)"

section \<open>import.go\<close>

definition verifyImportedKey ::
  "('w, 'rec) env \<Rightarrow> string \<Rightarrow> 'w world \<Rightarrow> 'w world \<times> bool" where
  "verifyImportedKey E name k =
     (case Keyring_Sign E name (bytes_of_ascii ''verification-test-message'') k of
        (k', Inl e) \<Rightarrow> (k', False)
      | (k', Inr (sig, pubKey)) \<Rightarrow> (k', length sig = 64))"

definition import_result ::
  "('s, 'rec) sdk \<Rightarrow> string \<Rightarrow> 'rec \<Rightarrow> 'w world \<Rightarrow> bool \<Rightarrow> ImportResult" where
  "import_result K destName rec k verified =
     \<lparr>ir_KeyName = destName,
      ir_Address = (case sk_address_of K rec of None \<Rightarrow> [] | Some a \<Rightarrow> a),
      ir_PubKey = (case sk_pubkey_of K rec of None \<Rightarrow> [] | Some p \<Rightarrow> p),
      ir_BaoKeyPath = (case GetMetadata destName k of Inl _ \<Rightarrow> [] | Inr m \<Rightarrow> md_BaoKeyPath m),
      ir_Verified = verified\<rparr>"

definition source_key :: "('s, 'rec) sdk \<Rightarrow> 's \<Rightarrow> string \<Rightarrow> goerr + bytes" where
  "source_key K s name =
     (case sk_export_armor K s name of
        Inl e \<Rightarrow> Inl (Wrapf ''failed to export key from source'' e)
      | Inr armor \<Rightarrow>
          (case sk_unarmor K armor of
             Inl e \<Rightarrow> Inl (Wrapf ''failed to parse armored key'' e)
           | Inr (key, algo) \<Rightarrow>
               if algo \<noteq> ''secp256k1'' then Inl (Plain ''unsupported key algorithm'') else Inr key))"

definition Import ::
  "('w, 'rec) env \<Rightarrow> ('s, 'rec) sdk \<Rightarrow> sync_io \<Rightarrow> ImportConfig \<Rightarrow> nat \<Rightarrow> 's \<times> 'w world \<Rightarrow>
     ('s \<times> 'w world) \<times> (goerr + ImportResult)" where
  "Import E K io cfg now = (\<lambda>(s, k).
     (if ic_KeyName cfg = [] then ((s, k), Inl (Plain ''key name is required''))
      else let destName = dest_name (ic_KeyName cfg) (ic_NewKeyName cfg) in
        (case source_key K s (ic_KeyName cfg) of
           Inl e \<Rightarrow> ((s, k), Inl e)
         | Inr key \<Rightarrow>
             (case ImportKey E io destName (b64_encode key) (ic_Exportable cfg) now k of
                (k1, Inl e) \<Rightarrow> ((s, k1), Inl (Wrapf ''failed to import key to destination'' e))
              | (k1, Inr rec) \<Rightarrow>
                  let (k2, verified) =
                        (if ic_VerifyAfterImport cfg then verifyImportedKey E destName k1 else (k1, False));
                      s' = (if ic_DeleteAfterImport cfg \<and> (\<not> ic_VerifyAfterImport cfg \<or> verified)
                            then sk_delete K s (ic_KeyName cfg) else s)
                  in ((s', k2), Inr (import_result K destName rec k1 verified))))))"

record BatchImportResult =
  bi_Successful :: "ImportResult list"
  bi_Failed :: "(string \<times> goerr) list"

definition canceled :: goerr where
  "canceled = Plain ''context canceled''"

text \<open>The loop over the names; \<open>stop i\<close> says whether the context is done before the i-th of them.\<close>

fun import_loop ::
  "('w, 'rec) env \<Rightarrow> ('s, 'rec) sdk \<Rightarrow> (nat \<Rightarrow> sync_io) \<Rightarrow> ImportConfig \<Rightarrow> nat \<Rightarrow> (nat \<Rightarrow> bool) \<Rightarrow>
     nat \<Rightarrow> string list \<Rightarrow> 's \<times> 'w world \<Rightarrow> ('s \<times> 'w world) \<times> BatchImportResult" where
  "import_loop E K ios cfg now stop i [] sk = (sk, \<lparr>bi_Successful = [], bi_Failed = []\<rparr>)"
| "import_loop E K ios cfg now stop i (name # names) sk =
     (if stop i then (sk, \<lparr>bi_Successful = [], bi_Failed = [(name, canceled)]\<rparr>)
      else case Import E K (ios i) (cfg\<lparr>ic_KeyName := name, ic_NewKeyName := []\<rparr>) now sk of
        (sk1, r) \<Rightarrow>
          (case import_loop E K ios cfg now stop (i + 1) names sk1 of
             (sk2, res) \<Rightarrow>
               (sk2, case r of
                  Inl e \<Rightarrow> res\<lparr>bi_Failed := (name, e) # bi_Failed res\<rparr>
                | Inr x \<Rightarrow> res\<lparr>bi_Successful := x # bi_Successful res\<rparr>)))"

definition BatchImport ::
  "('w, 'rec) env \<Rightarrow> ('s, 'rec) sdk \<Rightarrow> (nat \<Rightarrow> sync_io) \<Rightarrow> ImportConfig \<Rightarrow> string list \<Rightarrow> nat \<Rightarrow> bool \<Rightarrow> (nat \<Rightarrow> bool) \<Rightarrow>
     's \<times> 'w world \<Rightarrow> ('s \<times> 'w world) \<times> (goerr + BatchImportResult)" where
  "BatchImport E K ios cfg keyNames now stopped stop sk =
     (case (if keyNames = [] then sk_list K (fst sk) else Inr keyNames) of
        Inl e \<Rightarrow> (sk, Inl (Wrapf ''failed to list source keys'' e))
      | Inr names \<Rightarrow>
          if stopped then (sk, Inl canceled)
          else (case import_loop E K ios cfg now stop 0 names sk of (sk', res) \<Rightarrow> (sk', Inr res)))"

definition ListSourceKeys :: "('s, 'rec) sdk \<Rightarrow> 's \<Rightarrow> goerr + string list" where
  "ListSourceKeys K s = (case sk_list K s of Inl e \<Rightarrow> Inl (Wrapf ''failed to list keys'' e) | Inr ns \<Rightarrow> Inr ns)"

definition ValidateSourceKey :: "('s, 'rec) sdk \<Rightarrow> 's \<Rightarrow> string \<Rightarrow> goerr option" where
  "ValidateSourceKey K s keyName =
     (if keyName = [] then Some (Plain ''key name is required'')
      else case sk_has_key K s keyName of
        Some e \<Rightarrow> Some (Wrapf ''key not found'' e)
      | None \<Rightarrow>
          (case sk_export_armor K s keyName of
             Inl e \<Rightarrow> Some (Wrapf ''key cannot be exported'' e)
           | Inr _ \<Rightarrow> None))"

definition ValidateImport ::
  "('w, 'rec) env \<Rightarrow> ('s, 'rec) sdk \<Rightarrow> ImportConfig \<Rightarrow> 's \<times> 'w world \<Rightarrow> goerr option" where
  "ValidateImport E K cfg = (\<lambda>(s, k).
     (if ic_KeyName cfg = [] then Some (Plain ''key name is required'')
      else case ValidateSourceKey K s (ic_KeyName cfg) of
        Some e \<Rightarrow> Some e
      | None \<Rightarrow>
          (case Keyring_Key E (dest_name (ic_KeyName cfg) (ic_NewKeyName cfg)) k of
             Inr _ \<Rightarrow> Some (Plain ''already exists in destination'')
           | Inl _ \<Rightarrow> None)))"

section \<open>export.go\<close>

definition verifyLocalKey :: "('s, 'rec) sdk \<Rightarrow> 's \<Rightarrow> string \<Rightarrow> bool" where
  "verifyLocalKey K s name = (sk_sign K s name (bytes_of_ascii ''verification'') = None)"

definition Export ::
  "('w, 'rec) env \<Rightarrow> ('s, 'rec) sdk \<Rightarrow> sync_io \<Rightarrow> ExportConfig \<Rightarrow> 's \<times> 'w world \<Rightarrow>
     ('s \<times> 'w world) \<times> ExportResult option \<times> goerr option" where
  "Export E K io cfg = (\<lambda>(s, k).
     (if \<not> ec_Confirmed cfg then ((s, k), None, Some (Sentinel ErrExportNotConfirmed))
      else if ec_KeyName cfg = [] then ((s, k), None, Some (Plain ''key name is required''))
      else case GetMetadata (ec_KeyName cfg) k of
        Inl e \<Rightarrow> ((s, k), None, Some (Wrapf ''get key metadata'' e))
      | Inr m \<Rightarrow>
          if \<not> md_Exportable m then ((s, k), None, Some (Sentinel ErrKeyNotExportable))
          else let destName = dest_name (ec_KeyName cfg) (ec_NewKeyName cfg) in
            (case ExportKey E (ec_KeyName cfg) k of
               (k1, Inl e) \<Rightarrow> ((s, k1), None, Some (Wrapf ''export from OpenBao'' e))
             | (k1, Inr b64) \<Rightarrow>
                 (case b64_decode b64 of
                    None \<Rightarrow> ((s, k1), None, Some (Plain ''decode private key''))
                  | Some key \<Rightarrow>
                      (case sk_import_armor K s destName (sk_armor K key) of
                         (s1, Some e) \<Rightarrow> ((s1, k1), None, Some (Wrapf ''import to local keyring'' e))
                       | (s1, None) \<Rightarrow>
                           let verified = (ec_VerifyAfterExport cfg \<and> verifyLocalKey K s1 destName);
                               res = \<lparr>er_KeyName = destName, er_Address = md_Address m, er_Verified = verified\<rparr>
                           in if \<not> ec_DeleteAfterExport cfg then ((s1, k1), Some res, None)
                              else if ec_VerifyAfterExport cfg \<and> \<not> verified
                              then ((s1, k1), Some res, Some (Plain ''verification failed, key not deleted from source''))
                              else (case Keyring_Delete E io (ec_KeyName cfg) k1 of
                                 (k2, Some e) \<Rightarrow> ((s1, k2), Some res, Some (Wrapf ''delete from source'' e))
                               | (k2, None) \<Rightarrow> ((s1, k2), Some res, None)))))))"

definition ValidateExport :: "ExportConfig \<Rightarrow> 'w world \<Rightarrow> goerr option" where
  "ValidateExport cfg k =
     (if ec_KeyName cfg = [] then Some (Plain ''key name is required'')
      else case GetMetadata (ec_KeyName cfg) k of
        Inl e \<Rightarrow> Some (Wrapf ''key not found'' e)
      | Inr m \<Rightarrow> if \<not> md_Exportable m then Some (Sentinel ErrKeyNotExportable) else None)"

section \<open>Keys that arrive\<close>

lemma Save_success:
  assumes "Save io (Some m) (s, fs) = ((s', fs'), None)"
  shows "keys_of s' = (keys_of s)(md_UID m \<mapsto> m)"
proof -
  have "s' = fst (fst (commit io fs (put_meta (md_UID m) m s)))"
    using assms by (auto simp: Save_def split: if_splits)
  then show ?thesis by simp
qed

lemma file_key_success:
  assumes "file_key E io uid info x now src k = (k', Inr rec)"
  shows "\<exists>m. GetMetadata uid k' = Inr m"
proof -
  obtain pk s fs where s: "Save io (Some (new_metadata E uid pk (inf_Address info) x now src))
      (wd_store k, wd_disk k) = ((s, fs), None)" "wd_store k' = s"
    using assms by (auto simp: file_key_def with_store_def Let_def split: option.splits prod.splits)
  then show ?thesis
    using Save_success [OF s(1)] by (simp add: GetMetadata_def Get_def new_metadata_def)
qed

lemma ImportKey_success:
  "ImportKey E io uid ct x now k = (k', Inr rec) \<Longrightarrow> \<exists>m. GetMetadata uid k' = Inr m"
  by (auto simp: ImportKey_def split: if_splits prod.splits sum.splits dest: file_key_success)

lemma Keyring_Sign_store [simp]: "wd_store (fst (Keyring_Sign E uid msg k)) = wd_store k"
  by (simp add: Keyring_Sign_def split: sum.split prod.split)

lemma verifyImportedKey_store: "wd_store (fst (verifyImportedKey E name k)) = wd_store k"
proof -
  have "fst (verifyImportedKey E name k) = fst (Keyring_Sign E name (bytes_of_ascii ''verification-test-message'') k)"
    unfolding verifyImportedKey_def by (simp split: prod.split sum.split)
  then show ?thesis by simp
qed

definition reported :: "BatchImportResult \<Rightarrow> string multiset" where
  "reported res = mset (map ir_KeyName (bi_Successful res)) + mset (map fst (bi_Failed res))"

lemma reported_simps [simp]:
  "reported \<lparr>bi_Successful = [], bi_Failed = []\<rparr> = {#}"
  "reported \<lparr>bi_Successful = [], bi_Failed = [(n, e)]\<rparr> = {#n#}"
  "reported (res\<lparr>bi_Failed := (n, e) # bi_Failed res\<rparr>) = add_mset n (reported res)"
  "reported (res\<lparr>bi_Successful := x # bi_Successful res\<rparr>) = add_mset (ir_KeyName x) (reported res)"
  by (simp_all add: reported_def)

lemma Import_name:
  "Import E K io (cfg\<lparr>ic_KeyName := name, ic_NewKeyName := []\<rparr>) now sk = (sk1, Inr x) \<Longrightarrow> ir_KeyName x = name"
  by (cases sk) (auto simp: Import_def import_result_def dest_name_def Let_def
      split: if_splits sum.splits prod.splits)

lemma import_loop_accounts:
  "import_loop E K ios cfg now stop i names sk = (sk', res) \<Longrightarrow>
     reported res \<subseteq># mset names \<and> ((\<forall>i. \<not> stop i) \<longrightarrow> reported res = mset names)"
proof (induction names arbitrary: i sk res)
  case (Cons n ns)
  show ?case
  proof (cases "stop i")
    case True
    then show ?thesis using Cons.prems by auto
  next
    case False
    obtain sk1 r where r: "Import E K (ios i) (cfg\<lparr>ic_KeyName := n, ic_NewKeyName := []\<rparr>) now sk = (sk1, r)" by fastforce
    obtain sk2 res1 where l: "import_loop E K ios cfg now stop (i + 1) ns sk1 = (sk2, res1)" by fastforce
    have "sk2 = sk'" using False Cons.prems r l by simp
    moreover have "reported res = add_mset n (reported res1)"
    proof (cases r)
      case (Inl e)
      then have "res = res1\<lparr>bi_Failed := (n, e) # bi_Failed res1\<rparr>" using False Cons.prems r l by simp
      then show ?thesis by (simp only: reported_simps)
    next
      case (Inr x)
      then have "res = res1\<lparr>bi_Successful := x # bi_Successful res1\<rparr>" using False Cons.prems r l by simp
      then show ?thesis using Import_name [OF r [unfolded Inr]] by (simp only: reported_simps)
    qed
    ultimately show ?thesis using Cons.IH [of "i + 1" sk1 res1] l by simp
  qed
qed auto

section \<open>Properties\<close>


text \<open>A local keyring for the examples: a list of names, all with the same key.\<close>

definition demo_sdk :: "(string list, string) sdk" where
  "demo_sdk = \<lparr>sk_export_armor = (\<lambda>s n. if n \<in> set s then Inr n else Inl IsNotExist),
     sk_unarmor = (\<lambda>a. Inr (replicate 32 1, ''secp256k1'')), sk_armor = (\<lambda>b. ''armor''),
     sk_import_armor = (\<lambda>s n a. (n # s, None)), sk_delete = (\<lambda>s n. removeAll n s), sk_list = Inr,
     sk_has_key = (\<lambda>s n. None), sk_sign = (\<lambda>s n m. None), sk_address_of = (\<lambda>_. None), sk_pubkey_of = (\<lambda>_. None)\<rparr>"

definition demo_import :: ImportConfig where
  "demo_import = \<lparr>ic_KeyName = ''a'', ic_NewKeyName = ''b'', ic_DeleteAfterImport = True,
     ic_Exportable = True, ic_VerifyAfterImport = False\<rparr>"

text \<open>
  A batch import accounts for every key: without cancellation each name is reported exactly once, as imported or
  as failed, and one failing key does not stop the others; when the context is cancelled the names
  reported are a part of those asked for.
\<close>

lemma batch_import_accounts:
  assumes "BatchImport E K ios cfg names now stopped stop sk = (sk', Inr res)" "names \<noteq> []"
  shows "mset (map ir_KeyName (bi_Successful res)) + mset (map fst (bi_Failed res)) \<subseteq># mset names \<and>
    ((\<forall>i. \<not> stop i) \<longrightarrow>
      mset (map ir_KeyName (bi_Successful res)) + mset (map fst (bi_Failed res)) = mset names)"
  using assms import_loop_accounts [of E K ios cfg now stop 0 names sk sk' res]
  by (auto simp: BatchImport_def reported_def split: if_splits prod.splits)

theorem batch_import_accounts_witness:
  "\<exists>sk' res. BatchImport demo_env demo_sdk (\<lambda>_. sync_ok) demo_import [''a'', ''q''] 1 False (\<lambda>_. False)
       ([''a''], demo_world) = (sk', Inr res) \<and>
     mset (map ir_KeyName (bi_Successful res)) + mset (map fst (bi_Failed res)) = {#''a'', ''q''#}"
proof -
  obtain sk' res where l: "import_loop demo_env demo_sdk (\<lambda>_. sync_ok) demo_import 1 (\<lambda>_. False) 0
      [''a'', ''q''] ([''a''], demo_world) = (sk', res)" by (metis prod.collapse)
  then have v: "BatchImport demo_env demo_sdk (\<lambda>_. sync_ok) demo_import [''a'', ''q''] 1 False (\<lambda>_. False)
      ([''a''], demo_world) = (sk', Inr res)"
    by (simp add: BatchImport_def del: import_loop.simps)
  show ?thesis using batch_import_accounts [OF v] v by auto
qed

lemma demo_import_call:
  "Client_ImportKey (ev_http demo_env) (ev_client demo_env) (ev_time_of demo_env) uid ct x w =
     ((), Inr \<lparr>inf_Name = [], inf_PublicKey = ''02'', inf_Address = ''ad'', inf_Exportable = False, inf_CreatedAt = 0\<rparr>)"
  by (simp add: Client_ImportKey_def http_post_def doRequest_def demo_env_def demo_server_def key_info_of_def
      json_data_def json_get_def same_field_def fold_char_def decode_KeyInfo_def json_time_def)

lemma demo_env_record: "ev_record demo_env n pk = Inr n"
  by (simp add: demo_env_def)


text \<open>
  An export touches the key in OpenBao or its metadata only with the user's confirmation, for a key marked
  exportable, after the local keyring has taken exactly the private key OpenBao gave out, and,
  where verification was asked for, after the local keyring has signed with it.
\<close>

lemma export_keeps_remote_until_safe:
  assumes "Export E K io cfg (s, k) = ((s', k'), res, err)"
    and "k' \<noteq> k" "k' \<noteq> fst (ExportKey E (ec_KeyName cfg) k)"
  shows "ec_Confirmed cfg \<and> ec_DeleteAfterExport cfg \<and>
    (\<exists>m b64 key. GetMetadata (ec_KeyName cfg) k = Inr m \<and> md_Exportable m \<and>
       snd (ExportKey E (ec_KeyName cfg) k) = Inr b64 \<and> b64_decode b64 = Some key \<and>
       sk_import_armor K s (dest_name (ec_KeyName cfg) (ec_NewKeyName cfg)) (sk_armor K key) = (s', None) \<and>
       (ec_VerifyAfterExport cfg \<longrightarrow> verifyLocalKey K s' (dest_name (ec_KeyName cfg) (ec_NewKeyName cfg))))"
proof -
  let ?d = "dest_name (ec_KeyName cfg) (ec_NewKeyName cfg)"
  have c: "ec_Confirmed cfg" "ec_KeyName cfg \<noteq> []" using assms(1,2) by (auto simp: Export_def split: if_splits)
  obtain m where m: "GetMetadata (ec_KeyName cfg) k = Inr m" "md_Exportable m"
    using assms(1,2) c by (auto simp: Export_def split: sum.splits if_splits)
  obtain k1 b64 where x: "ExportKey E (ec_KeyName cfg) k = (k1, Inr b64)"
    using assms c m by (auto simp: Export_def Let_def split: sum.splits prod.splits)
  obtain key where d: "b64_decode b64 = Some key"
    using assms c m x by (auto simp: Export_def Let_def split: option.splits)
  obtain s1 where i: "sk_import_armor K s ?d (sk_armor K key) = (s1, None)"
    using assms c m x d by (auto simp: Export_def Let_def split: option.splits prod.splits)
  have e: "ec_DeleteAfterExport cfg" "ec_VerifyAfterExport cfg \<Longrightarrow> verifyLocalKey K s1 ?d"
    using assms c m x d i by (auto simp: Export_def Let_def split: if_splits)
  then have "s1 = s'"
    using assms(1) c m x d i by (auto simp: Export_def Let_def split: if_splits prod.splits option.splits)
  then show ?thesis using c m x d i e by auto
qed

definition exporting_server :: "unit transport" where
  "exporting_server w q = (w, Reply 200 (Some (JObject [(''data'', JObject
     [(''keys'', JObject [(''1'', JString (b64_encode [5]))])])])))"

definition demo_export :: ExportConfig where
  "demo_export = \<lparr>ec_KeyName = ''a'', ec_NewKeyName = [], ec_DeleteAfterExport = True,
     ec_VerifyAfterExport = True, ec_Confirmed = True\<rparr>"

definition export_world :: "unit world" where
  "export_world = demo_world\<lparr>wd_store := put_meta ''a'' (demo_meta\<lparr>md_Exportable := True\<rparr>) (empty_store ''s'')\<rparr>"

theorem export_keeps_remote_until_safe_witness:
  "\<exists>s' k' res err. Export (demo_env\<lparr>ev_http := exporting_server\<rparr>) demo_sdk sync_ok demo_export ([], export_world) =
       ((s', k'), res, err) \<and> k' \<noteq> export_world \<and>
     sk_import_armor demo_sdk [] ''a'' (sk_armor demo_sdk [5]) = (s', None)"
proof -
  let ?E = "demo_env\<lparr>ev_http := exporting_server\<rparr>"
  have x: "ExportKey ?E ''a'' export_world = (export_world, Inr (b64_encode [5]))"
    by (simp add: ExportKey_def export_world_def put_meta_def empty_store_def Get_def Client_ExportKey_def http_get_def
        doRequest_def exporting_server_def exported_of_def json_data_def json_get_def same_field_def fold_char_def
        json_time_def demo_world_def del: b64_encode.simps)
  have m: "GetMetadata ''a'' export_world = Inr (demo_meta\<lparr>md_Exportable := True\<rparr>)"
    by (simp add: GetMetadata_def Get_def export_world_def put_meta_def)
  obtain s' k' res err where v: "Export ?E demo_sdk sync_ok demo_export ([], export_world) = ((s', k'), res, err)"
    by (metis prod.collapse)
  have dl: "DeleteKey (ev_http ?E) (ev_client ?E) ''a'' () = ((), None)"
    by (simp add: DeleteKey_def http_post_def http_delete_def doRequest_def exporting_server_def Let_def)
  have "k' = fst (Keyring_Delete ?E sync_ok ''a'' export_world)"
    using v x m by (simp add: Export_def demo_export_def dest_name_def demo_sdk_def verifyLocalKey_def Let_def
        del: b64_encode.simps split: prod.splits option.splits)
  also have "\<dots> = fst (with_store (Delete_meta sync_ok ''a'') (export_world\<lparr>wd_remote := ()\<rparr>))"
    using dl by (simp add: Keyring_Delete_def)
  finally have "keys_of (wd_store k') ''a'' = None"
    by (simp add: with_store_def Delete_meta_def export_world_def put_meta_def split_beta)
  moreover have "keys_of (wd_store export_world) ''a'' \<noteq> None" by (simp add: export_world_def put_meta_def)
  ultimately have ne: "k' \<noteq> export_world" by metis
  have ne': "k' \<noteq> fst (ExportKey ?E (ec_KeyName demo_export) export_world)"
    using ne x by (simp add: demo_export_def)
  from export_keeps_remote_until_safe [OF v ne ne'] show ?thesis
    using v ne x by (auto simp: demo_export_def dest_name_def simp del: b64_encode.simps)
qed

end
