(* ===== verification/CpAccess.thy ===== *)
theory CpAccess
  imports GoText
begin

text \<open>
  Who may use which key in the control plane: API keys and their scopes
  (\<open>models/api_key.go\<close>), the binding of an API key to signing keys (\<open>service/key_access.go\<close>),
  the authentication middleware that puts both into the request context
  (\<open>middleware/api_key_auth.go\<close>), the key table (\<open>repository/key_repo.go\<close>, as the list of its
  rows) and the two checks of the JSON-RPC methods (\<open>handler/jsonrpc/key_access.go\<close>). A UUID is a
  number, the nil UUID 0. Checking a raw API key against the database is a parameter.
\<close>

type_synonym uuid = nat

section \<open>API keys\<close>

record APIKey =
  ak_ID :: uuid
  ak_OrgID :: uuid
  ak_Scopes :: "string list"
  ak_AllowedKeyIDs :: "uuid list"
  ak_ExpiresAt :: "nat option"
  ak_RevokedAt :: "nat option"

definition AllScopes :: "string list" where
  "AllScopes = [''keys:read'', ''keys:write'', ''keys:sign'', ''audit:read'', ''billing:read'',
     ''billing:write'', ''webhooks:read'', ''webhooks:write'']"

definition IsValidScope :: "string \<Rightarrow> bool" where
  "IsValidScope scope \<longleftrightarrow> scope \<in> set [''keys:read'', ''keys:write'', ''keys:sign'', ''audit:read'',
     ''billing:read'', ''billing:write'', ''webhooks:read'', ''webhooks:write'', ''*'']"

definition ValidateScopes :: "string list \<Rightarrow> bool" where
  "ValidateScopes scopes = list_all IsValidScope scopes"

definition APIKey_IsValid :: "nat \<Rightarrow> APIKey \<Rightarrow> bool" where
  "APIKey_IsValid now k \<longleftrightarrow>
     ak_RevokedAt k = None \<and> (case ak_ExpiresAt k of Some t \<Rightarrow> \<not> t < now | None \<Rightarrow> True)"

definition IsBound :: "APIKey \<Rightarrow> bool" where
  "IsBound k \<longleftrightarrow> length (ak_AllowedKeyIDs k) > 0"

fun has_scope :: "string list \<Rightarrow> string \<Rightarrow> bool" where
  "has_scope [] scope = False"
| "has_scope (s # ss) scope = (if s = scope \<or> s = ''*'' then True else has_scope ss scope)"

definition HasScope :: "APIKey \<Rightarrow> string \<Rightarrow> bool" where
  "HasScope k scope = has_scope (ak_Scopes k) scope"

definition HasAnyScope :: "APIKey \<Rightarrow> string list \<Rightarrow> bool" where
  "HasAnyScope k scopes = list_ex (HasScope k) scopes"

lemma has_scope_iff: "has_scope ss scope \<longleftrightarrow> scope \<in> set ss \<or> ''*'' \<in> set ss"
  by (induction ss) auto

section \<open>The request context\<close>

record identity =
  id_KeyID :: uuid
  id_AllowedKeyIDs :: "uuid list"

record reqctx =
  cx_org :: uuid
  cx_apikey :: "APIKey option"
  cx_identity :: "identity option"

definition anonymous :: reqctx where
  "anonymous = \<lparr>cx_org = 0, cx_apikey = None, cx_identity = None\<rparr>"

definition GetOrgIDFromContext :: "reqctx \<Rightarrow> uuid" where
  "GetOrgIDFromContext cx = cx_org cx"

definition GetAPIKeyFromContext :: "reqctx \<Rightarrow> APIKey option" where
  "GetAPIKeyFromContext cx = cx_apikey cx"

fun allowed_in :: "uuid list \<Rightarrow> uuid \<Rightarrow> bool" where
  "allowed_in [] keyID = False"
| "allowed_in (a # as) keyID = (if a = keyID then True else allowed_in as keyID)"

definition AllowsKey :: "reqctx \<Rightarrow> uuid \<Rightarrow> bool" where
  "AllowsKey cx keyID =
     (case cx_identity cx of
        None \<Rightarrow> True
      | Some i \<Rightarrow> if length (id_AllowedKeyIDs i) = 0 then True else allowed_in (id_AllowedKeyIDs i) keyID)"

lemma allowed_in_iff: "allowed_in as k \<longleftrightarrow> k \<in> set as"
  by (induction as) auto

record http_headers =
  hd_Authorization :: string
  hd_XAPIKey :: string

definition extractAPIKey :: "http_headers \<Rightarrow> string" where
  "extractAPIKey h =
     (if hd_Authorization h \<noteq> [] \<and> has_prefix ''Bearer '' (hd_Authorization h)
      then trim_prefix ''Bearer '' (hd_Authorization h)
      else if hd_Authorization h \<noteq> [] \<and> has_prefix ''ApiKey '' (hd_Authorization h)
      then trim_prefix ''ApiKey '' (hd_Authorization h)
      else hd_XAPIKey h)"

text \<open>
  The context of an authenticated request. The scopes it stores besides are those of the key.
\<close>

definition apikey_context :: "APIKey \<Rightarrow> reqctx" where
  "apikey_context k = \<lparr>cx_org = ak_OrgID k, cx_apikey = Some k,
     cx_identity = Some \<lparr>id_KeyID = ak_ID k, id_AllowedKeyIDs = ak_AllowedKeyIDs k\<rparr>\<rparr>"

text \<open>\<open>None\<close> is the answer 401; \<open>validate\<close> is the API key service.\<close>

definition APIKeyAuth :: "(string \<Rightarrow> APIKey option) \<Rightarrow> http_headers \<Rightarrow> reqctx option" where
  "APIKeyAuth validate h =
     (let rawKey = extractAPIKey h
      in if rawKey = [] then None
         else case validate rawKey of None \<Rightarrow> None | Some k \<Rightarrow> Some (apikey_context k))"

definition OptionalAPIKeyAuth :: "(string \<Rightarrow> APIKey option) \<Rightarrow> http_headers \<Rightarrow> reqctx" where
  "OptionalAPIKeyAuth validate h =
     (let rawKey = extractAPIKey h
      in if rawKey = [] then anonymous
         else case validate rawKey of None \<Rightarrow> anonymous | Some k \<Rightarrow> apikey_context k)"

datatype http_refusal = Unauthorized401 | Forbidden403

definition RequireAPIKeyScope :: "string \<Rightarrow> reqctx \<Rightarrow> http_refusal option" where
  "RequireAPIKeyScope scope cx =
     (case GetAPIKeyFromContext cx of
        None \<Rightarrow> Some Unauthorized401
      | Some k \<Rightarrow> if \<not> HasScope k scope then Some Forbidden403 else None)"

definition RequireAPIKeyScopes :: "string list \<Rightarrow> reqctx \<Rightarrow> http_refusal option" where
  "RequireAPIKeyScopes scopes cx =
     (case GetAPIKeyFromContext cx of
        None \<Rightarrow> Some Unauthorized401
      | Some k \<Rightarrow> if \<not> HasAnyScope k scopes then Some Forbidden403 else None)"

section \<open>The key table\<close>

text \<open>\<open>models.Key\<close> without its timestamps; \<open>ky_Deleted\<close> says whether \<open>deleted_at\<close> is set.\<close>

record key_row =
  ky_ID :: uuid
  ky_OrgID :: uuid
  ky_NamespaceID :: uuid
  ky_Name :: string
  ky_PublicKey :: bytes
  ky_Address :: string
  ky_EthAddress :: "string option"
  ky_NetworkType :: string
  ky_Algorithm :: string
  ky_BaoKeyPath :: string
  ky_Exportable :: bool
  ky_Metadata :: "(string \<times> string) list"
  ky_Version :: nat
  ky_Deleted :: bool

definition lower_char :: "char \<Rightarrow> char" where
  "lower_char c = (let n = of_char c :: nat in if 65 \<le> n \<and> n \<le> 90 then char_of (n + 32) else c)"

definition lower :: "string \<Rightarrow> string" where
  "lower s = map lower_char s"

text \<open>
  A query either fails (\<open>db_fails\<close>) or reads the rows; \<open>QueryRow\<close> takes the first that matches.
\<close>

definition GetByEthAddress :: "bool \<Rightarrow> key_row list \<Rightarrow> uuid \<Rightarrow> string \<Rightarrow> unit + key_row option" where
  "GetByEthAddress db_fails rows orgID ethAddress =
     (if db_fails then Inl ()
      else Inr (find (\<lambda>k. ky_OrgID k = orgID \<and> map_option lower (ky_EthAddress k) = Some (lower ethAddress) \<and>
                         \<not> ky_Deleted k) rows))"

definition ListByOrg :: "bool \<Rightarrow> key_row list \<Rightarrow> uuid \<Rightarrow> unit + key_row list" where
  "ListByOrg db_fails rows orgID =
     (if db_fails then Inl () else Inr (filter (\<lambda>k. ky_OrgID k = orgID \<and> \<not> ky_Deleted k) rows))"

definition ListEthAddresses :: "bool \<Rightarrow> key_row list \<Rightarrow> uuid \<Rightarrow> unit + string list" where
  "ListEthAddresses db_fails rows orgID =
     (if db_fails then Inl ()
      else Inr (List.map_filter ky_EthAddress (filter (\<lambda>k. ky_OrgID k = orgID \<and> \<not> ky_Deleted k) rows)))"

section \<open>The checks of the JSON-RPC methods\<close>

record rpc_error =
  re_Code :: int
  re_Message :: string
  re_Data :: "string option"

definition NewError :: "int \<Rightarrow> string \<Rightarrow> string option \<Rightarrow> rpc_error" where
  "NewError code message data = \<lparr>re_Code = code, re_Message = message, re_Data = data\<rparr>"

definition ErrParseError :: "string \<Rightarrow> rpc_error" where
  "ErrParseError d = NewError (- 32700) ''Parse error'' (Some d)"

definition ErrInvalidRequest :: "string \<Rightarrow> rpc_error" where
  "ErrInvalidRequest d = NewError (- 32600) ''Invalid Request'' (Some d)"

definition ErrMethodNotFound :: "string \<Rightarrow> rpc_error" where
  "ErrMethodNotFound m = NewError (- 32601) ''Method not found'' (Some m)"

definition ErrInvalidParams :: "string \<Rightarrow> rpc_error" where
  "ErrInvalidParams d = NewError (- 32602) ''Invalid params'' (Some d)"

definition ErrInternal :: "string \<Rightarrow> rpc_error" where
  "ErrInternal d = NewError (- 32603) ''Internal error'' (Some d)"

definition ErrUnauthorized :: "string \<Rightarrow> rpc_error" where
  "ErrUnauthorized d = NewError (- 32021) ''Unauthorized'' (Some d)"

definition RpcErrSigningFailed :: "string \<Rightarrow> rpc_error" where
  "RpcErrSigningFailed d = NewError (- 32020) ''Signing failed'' (Some d)"

definition ErrResourceNotFound :: "string \<Rightarrow> rpc_error" where
  "ErrResourceNotFound r = NewError (- 32001) (r @ '' not found'') None"

definition requireScope :: "reqctx \<Rightarrow> string \<Rightarrow> rpc_error option" where
  "requireScope cx scope =
     (case GetAPIKeyFromContext cx of
        None \<Rightarrow> None
      | Some k \<Rightarrow> if HasScope k scope then None
                  else Some (ErrUnauthorized (''API key does not have required scope: '' @ scope)))"

definition resolveKey ::
  "reqctx \<Rightarrow> bool \<Rightarrow> key_row list \<Rightarrow> uuid \<Rightarrow> string \<Rightarrow> rpc_error + key_row" where
  "resolveKey cx db_fails rows orgID ethAddress =
     (case GetByEthAddress db_fails rows orgID ethAddress of
        Inl _ \<Rightarrow> Inl (ErrInternal ''failed to lookup key'')
      | Inr None \<Rightarrow> Inl (ErrResourceNotFound (''no key found for address '' @ ethAddress))
      | Inr (Some k) \<Rightarrow>
          if AllowsKey cx (ky_ID k) then Inr k
          else Inl (ErrResourceNotFound (''no key found for address '' @ ethAddress)))"

text \<open>What a resolved key is.\<close>

definition may_use :: "reqctx \<Rightarrow> key_row list \<Rightarrow> string \<Rightarrow> key_row \<Rightarrow> bool" where
  "may_use cx rows address k \<longleftrightarrow> k \<in> set rows \<and> ky_OrgID k = cx_org cx \<and> \<not> ky_Deleted k \<and>
     map_option lower (ky_EthAddress k) = Some (lower address) \<and>
     (\<forall>i. cx_identity cx = Some i \<longrightarrow> id_AllowedKeyIDs i = [] \<or> ky_ID k \<in> set (id_AllowedKeyIDs i))"

lemma AllowsKey_iff:
  "AllowsKey cx k \<longleftrightarrow> (\<forall>i. cx_identity cx = Some i \<longrightarrow> id_AllowedKeyIDs i = [] \<or> k \<in> set (id_AllowedKeyIDs i))"
  by (auto simp: AllowsKey_def allowed_in_iff split: option.splits)

lemma resolveKey_may_use: "resolveKey cx f rows (cx_org cx) address = Inr k \<Longrightarrow> may_use cx rows address k"
  by (auto simp: resolveKey_def GetByEthAddress_def may_use_def AllowsKey_iff find_Some_iff
      split: sum.splits option.splits if_splits)

text \<open>A key the binding excludes is answered exactly as a key that does not exist.\<close>

lemma resolveKey_unknown:
  assumes "\<not> f" "\<And>k. \<not> may_use cx rows address k"
  shows "resolveKey cx f rows (cx_org cx) address = Inl (ErrResourceNotFound (''no key found for address '' @ address))"
proof (cases "resolveKey cx f rows (cx_org cx) address")
  case (Inl e)
  then show ?thesis using assms(1)
    by (auto simp: resolveKey_def GetByEthAddress_def split: option.splits if_splits)
next
  case (Inr k)
  then show ?thesis using resolveKey_may_use assms(2) by metis
qed

definition holds_scope :: "reqctx \<Rightarrow> string \<Rightarrow> bool" where
  "holds_scope cx scope \<longleftrightarrow>
     (\<forall>k. cx_apikey cx = Some k \<longrightarrow> scope \<in> set (ak_Scopes k) \<or> ''*'' \<in> set (ak_Scopes k))"

lemma requireScope_None: "requireScope cx scope = None \<longleftrightarrow> holds_scope cx scope"
  by (auto simp: requireScope_def GetAPIKeyFromContext_def HasScope_def has_scope_iff holds_scope_def
      split: option.splits)

end
