(* ===== verification/JsonRpc.thy ===== *)
theory JsonRpc
  imports CpAccess GoJson "HOL-Library.Multiset"
begin

text \<open>
  The JSON-RPC 2.0 endpoint of the control plane, \<open>handler/jsonrpc/types.go\<close> and
  \<open>handler/jsonrpc/handler.go\<close>. A registered method is a function on the state of the outside
  world; a batch runs one goroutine a request and appends the responses in the order they
  finish, which is an argument. Logging and the request id in the context have no counterpart.
\<close>

section \<open>types.go\<close>

record Request =
  rq_JSONRPC :: string
  rq_Method :: string
  rq_Params :: "jsonv option"
  rq_ID :: jsonv

record Response =
  rs_Result :: "jsonv option"
  rs_Error :: "rpc_error option"
  rs_ID :: jsonv

definition Request_Validate :: "Request \<Rightarrow> rpc_error option" where
  "Request_Validate r =
     (if rq_JSONRPC r \<noteq> ''2.0'' then Some (ErrInvalidRequest ''jsonrpc must be 2.0'')
      else if rq_Method r = [] then Some (ErrInvalidRequest ''method is required'')
      else None)"

text \<open>
  Decoding a request: \<open>params\<close> is kept as it is, absent or present; \<open>id\<close> may be any value, and an absent one is
  nil like \<open>null\<close>.
\<close>

fun raw_field :: "string \<Rightarrow> (string \<times> jsonv) list \<Rightarrow> jsonv option" where
  "raw_field name [] = None"
| "raw_field name ((k, v) # kvs) =
     (case raw_field name kvs of
        Some v' \<Rightarrow> Some v'
      | None \<Rightarrow> if same_field k name then Some v else None)"

definition decode_Request :: "jsonv \<Rightarrow> Request option" where
  "decode_Request j =
     (if \<not> is_struct j then None
      else Option.bind (json_text (json_get ''jsonrpc'' j)) (\<lambda>v.
        Option.bind (json_text (json_get ''method'' j)) (\<lambda>m.
          Some \<lparr>rq_JSONRPC = v, rq_Method = m,
            rq_Params = (case j of JObject kvs \<Rightarrow> raw_field ''params'' kvs | _ \<Rightarrow> None),
            rq_ID = (case j of JObject kvs \<Rightarrow> (case raw_field ''id'' kvs of Some v \<Rightarrow> v | None \<Rightarrow> JNull)
                     | _ \<Rightarrow> JNull)\<rparr>)))"

section \<open>handler.go\<close>

type_synonym 'w rpc_method = "'w \<Rightarrow> jsonv option \<Rightarrow> 'w \<times> (rpc_error + jsonv)"
type_synonym 'w methods = "string \<Rightarrow> 'w rpc_method option"

definition NewHandler :: "'w methods" where
  "NewHandler = Map.empty"

definition RegisterMethod :: "string \<Rightarrow> 'w rpc_method \<Rightarrow> 'w methods \<Rightarrow> 'w methods" where
  "RegisterMethod name handler ms = ms(name \<mapsto> handler)"

definition HasMethod :: "'w methods \<Rightarrow> string \<Rightarrow> bool" where
  "HasMethod ms name \<longleftrightarrow> ms name \<noteq> None"

definition processRequest :: "'w methods \<Rightarrow> Request \<Rightarrow> 'w \<Rightarrow> 'w \<times> Response" where
  "processRequest ms req w =
     (case Request_Validate req of
        Some e \<Rightarrow> (w, \<lparr>rs_Result = None, rs_Error = Some e, rs_ID = rq_ID req\<rparr>)
      | None \<Rightarrow>
          (case ms (rq_Method req) of
             None \<Rightarrow> (w, \<lparr>rs_Result = None, rs_Error = Some (ErrMethodNotFound (rq_Method req)), rs_ID = rq_ID req\<rparr>)
           | Some handler \<Rightarrow>
               (case handler w (rq_Params req) of
                  (w', Inl e) \<Rightarrow> (w', \<lparr>rs_Result = None, rs_Error = Some e, rs_ID = rq_ID req\<rparr>)
                | (w', Inr v) \<Rightarrow> (w', \<lparr>rs_Result = Some v, rs_Error = None, rs_ID = rq_ID req\<rparr>))))"

datatype http_out = NoContent | Single Response | Batch "Response list"

definition writeError :: "rpc_error \<Rightarrow> http_out" where
  "writeError e = Single \<lparr>rs_Result = None, rs_Error = Some e, rs_ID = JNull\<rparr>"

definition handleSingle :: "'w methods \<Rightarrow> jsonv option \<Rightarrow> 'w \<Rightarrow> 'w \<times> http_out" where
  "handleSingle ms body w =
     (case Option.bind body decode_Request of
        None \<Rightarrow> (w, writeError (ErrParseError ''json''))
      | Some req \<Rightarrow>
          (case processRequest ms req w of
             (w', resp) \<Rightarrow> (w', if rq_ID req = JNull then NoContent else Single resp)))"

text \<open>The goroutines of a batch, by the positions of their requests in the order they finish.\<close>

fun run_batch :: "'w methods \<Rightarrow> Request list \<Rightarrow> nat list \<Rightarrow> 'w \<Rightarrow> 'w \<times> Response list" where
  "run_batch ms reqs [] w = (w, [])"
| "run_batch ms reqs (i # sched) w =
     (case processRequest ms (reqs ! i) w of
        (w', resp) \<Rightarrow>
          (case run_batch ms reqs sched w' of
             (w'', resps) \<Rightarrow> (w'', if rq_ID (reqs ! i) \<noteq> JNull then resp # resps else resps)))"

definition handleBatch :: "'w methods \<Rightarrow> (nat \<Rightarrow> nat list) \<Rightarrow> jsonv option \<Rightarrow> 'w \<Rightarrow> 'w \<times> http_out" where
  "handleBatch ms sched body w =
     (case Option.bind body (json_slice decode_Request) of
        None \<Rightarrow> (w, writeError (ErrParseError ''json''))
      | Some reqs \<Rightarrow>
          if reqs = [] then (w, writeError (ErrInvalidRequest ''empty batch''))
          else (case run_batch ms reqs (sched (length reqs)) w of
             (w', resps) \<Rightarrow> (w', if resps = [] then NoContent else Batch resps)))"

record http_in =
  hi_Method :: string
  hi_ContentType :: string
  hi_read_fails :: bool
  hi_empty :: bool
  hi_bracket :: bool
  hi_json :: "jsonv option"

text \<open>\<open>hi_bracket\<close> says whether the first byte of the body is \<open>[\<close>.\<close>

definition ServeHTTP :: "'w methods \<Rightarrow> (nat \<Rightarrow> nat list) \<Rightarrow> http_in \<Rightarrow> 'w \<Rightarrow> 'w \<times> http_out" where
  "ServeHTTP ms sched r w =
     (if hi_Method r \<noteq> ''POST''
      then (w, writeError (NewError (- 32600) ''Method not allowed'' (Some ''use POST'')))
      else if hi_ContentType r \<noteq> ''application/json'' \<and> hi_ContentType r \<noteq> []
      then (w, writeError (NewError (- 32600) ''Invalid content type'' (Some ''use application/json'')))
      else if hi_read_fails r then (w, writeError (ErrParseError ''failed to read request body''))
      else if hi_empty r then (w, writeError (ErrInvalidRequest ''empty request body''))
      else if hi_bracket r then handleBatch ms sched (hi_json r) w
      else handleSingle ms (hi_json r) w)"

section \<open>Properties\<close>

interpretation method_table: key_value id RegisterMethod "\<lambda>name ms. ms(name := None)"
  by unfold_locales (simp_all add: RegisterMethod_def)

text \<open>
  A processed request is answered under its own id with a result or an error, never both or
  neither; an invalid one with -32600 and an unknown method with -32601, both without effect.
\<close>

lemma process_request_answers:
  "rs_ID (snd (processRequest ms req w)) = rq_ID req \<and>
   (rs_Result (snd (processRequest ms req w)) = None \<longleftrightarrow> rs_Error (snd (processRequest ms req w)) \<noteq> None) \<and>
   (Request_Validate req \<noteq> None \<longrightarrow> fst (processRequest ms req w) = w \<and>
      map_option re_Code (rs_Error (snd (processRequest ms req w))) = Some (- 32600)) \<and>
   (Request_Validate req = None \<and> \<not> HasMethod ms (rq_Method req) \<longrightarrow> fst (processRequest ms req w) = w \<and>
      map_option re_Code (rs_Error (snd (processRequest ms req w))) = Some (- 32601))"
  by (auto simp: processRequest_def HasMethod_def Request_Validate_def ErrInvalidRequest_def ErrMethodNotFound_def
      NewError_def split: option.split prod.split sum.split)

theorem process_request_answers_witness:
  "map_option re_Code (rs_Error (snd (processRequest Map.empty
     \<lparr>rq_JSONRPC = ''2.0'', rq_Method = ''x'', rq_Params = None, rq_ID = JNull\<rparr> ()))) = Some (- 32601)"
  using process_request_answers [of Map.empty "\<lparr>rq_JSONRPC = ''2.0'', rq_Method = ''x'', rq_Params = None, rq_ID = JNull\<rparr>" "()"]
  by (simp add: Request_Validate_def HasMethod_def)

definition expects_answer :: "Request \<Rightarrow> bool" where
  "expects_answer r \<longleftrightarrow> rq_ID r \<noteq> JNull"

lemma processRequest_id: "processRequest ms req w = (w', resp) \<Longrightarrow> rs_ID resp = rq_ID req"
  by (auto simp: processRequest_def split: option.splits prod.splits sum.splits)

lemma run_batch_ids:
  "map rs_ID (snd (run_batch ms reqs sched w)) = map rq_ID (filter expects_answer (map (\<lambda>i. reqs ! i) sched))"
proof (induction sched arbitrary: w)
  case (Cons i sched)
  obtain w' resp where p: "processRequest ms (reqs ! i) w = (w', resp)" by fastforce
  obtain w'' resps where b: "run_batch ms reqs sched w' = (w'', resps)" by fastforce
  show ?case using Cons.IH [of w'] processRequest_id [OF p] p b by (simp add: expects_answer_def)
qed simp

lemma mset_schedule:
  assumes "distinct sched" "set sched = {..<length xs}"
  shows "mset (map (\<lambda>i. xs ! i) sched) = mset xs"
proof -
  have "mset sched = mset [0..<length xs]"
    using assms by (metis distinct_upt lessThan_atLeast0 mset_set_set set_upt)
  then have "mset (map (\<lambda>i. xs ! i) sched) = mset (map (\<lambda>i. xs ! i) [0..<length xs])"
    by (metis mset_map)
  then show ?thesis by (simp add: map_nth)
qed

text \<open>
  A batch is answered with exactly one response for each request that has an id and none for the
  notifications, whatever order the goroutines finish in; when all are notifications there is no
  content.
\<close>

lemma batch_answers_every_call:
  assumes "Option.bind body (json_slice decode_Request) = Some reqs" "reqs \<noteq> []"
    and "distinct (sched (length reqs))" "set (sched (length reqs)) = {..<length reqs}"
  shows "(case snd (handleBatch ms sched body w) of
      NoContent \<Rightarrow> \<forall>r\<in>set reqs. \<not> expects_answer r
    | Single resp \<Rightarrow> False
    | Batch resps \<Rightarrow> resps \<noteq> [] \<and> mset (map rs_ID resps) = mset (map rq_ID (filter expects_answer reqs)))"
proof -
  let ?r = "run_batch ms reqs (sched (length reqs)) w"
  have "mset (map rs_ID (snd ?r)) = image_mset rq_ID (filter_mset expects_answer
      (mset (map (\<lambda>i. reqs ! i) (sched (length reqs)))))"
    by (simp add: run_batch_ids)
  then have m: "mset (map rs_ID (snd ?r)) = mset (map rq_ID (filter expects_answer reqs))"
    using mset_schedule [OF assms(3,4)] by simp
  then have "snd ?r = [] \<longleftrightarrow> (\<forall>r\<in>set reqs. \<not> expects_answer r)"
    by (metis (no_types, lifting) filter_empty_conv map_is_Nil_conv mset_zero_iff)
  then show ?thesis
    using m assms(1,2) by (auto simp: handleBatch_def split: prod.split)
qed

theorem batch_answers_every_call_witness:
  "(case snd (handleBatch (Map.empty :: unit methods) (\<lambda>n. rev [0..<n])
       (Some (JArray [JObject [(''jsonrpc'', JString ''2.0''), (''method'', JString ''m''), (''id'', JNumber ''1'')], JNull])) ()) of
      NoContent \<Rightarrow> False | Single resp \<Rightarrow> False | Batch resps \<Rightarrow> length resps = 1)"
proof -
  let ?r = "\<lparr>rq_JSONRPC = ''2.0'', rq_Method = ''m'', rq_Params = None, rq_ID = JNumber ''1''\<rparr>"
  let ?n = "\<lparr>rq_JSONRPC = [], rq_Method = [], rq_Params = None, rq_ID = JNull\<rparr>"
  have d: "Option.bind (Some (JArray [JObject [(''jsonrpc'', JString ''2.0''), (''method'', JString ''m''), (''id'', JNumber ''1'')], JNull]))
      (json_slice decode_Request) = Some [?r, ?n]"
    by (simp add: decode_Request_def json_get_def same_field_def fold_char_def)
  have s: "distinct (rev [0..<length [?r, ?n]])" "set (rev [0..<length [?r, ?n]]) = {..<length [?r, ?n]}" by auto
  show ?thesis
    using batch_answers_every_call [where sched = "\<lambda>n. rev [0..<n]" and ms = Map.empty and w = "()", OF d list.distinct(2) s]
    by (auto simp: expects_answer_def split: http_out.splits dest: arg_cong [of _ _ size])
qed

end
