(* ===== verification/EthRpc.thy ===== *)
theory EthRpc
  imports JsonRpc BaoClient EthTx Secp256k1
begin

text \<open>
  The JSON-RPC methods of the control plane, \<open>handler/jsonrpc/eth_*.go\<close>,
  \<open>opsigner_sign_block.go\<close>, \<open>health_status.go\<close> and \<open>server.go\<close>, and the call they make to the
  plugin, \<open>SignEVM\<close> of \<open>openbao/client.go\<close>. The transport to OpenBao is the one of the client
  library. A method threads the state of the outside world; the asynchronous audit and usage
  records are not part of it. Keccak-256 and the decoding of go-ethereum's hex types are parameters.
\<close>

section \<open>openbao/client.go\<close>

record cp_client =
  cp_address :: string
  cp_token :: string
  cp_mount :: string

definition NewClient :: "string \<Rightarrow> string \<Rightarrow> string \<Rightarrow> cp_client" where
  "NewClient address token mount =
     \<lparr>cp_address = address, cp_token = token, cp_mount = (if mount = [] then ''transit'' else mount)\<rparr>"

record SignEVMResponse =
  se_V :: string
  se_R :: string
  se_S :: string
  se_VInt :: int
  se_PublicKey :: string
  se_EthAddress :: string

definition decode_SignEVMResponse :: "jsonv \<Rightarrow> SignEVMResponse option" where
  "decode_SignEVMResponse d =
     Option.bind (json_text (json_get ''v'' d)) (\<lambda>v.
     Option.bind (json_text (json_get ''r'' d)) (\<lambda>r.
     Option.bind (json_text (json_get ''s'' d)) (\<lambda>s.
     Option.bind (json_int64 (json_get ''v_int'' d)) (\<lambda>vi.
     Option.bind (json_text (json_get ''public_key'' d)) (\<lambda>p.
     Option.bind (json_text (json_get ''eth_address'' d)) (\<lambda>a.
       Some \<lparr>se_V = v, se_R = r, se_S = s, se_VInt = vi, se_PublicKey = p, se_EthAddress = a\<rparr>))))))"

definition SignEVM ::
  "'w transport \<Rightarrow> cp_client \<Rightarrow> string \<Rightarrow> string \<Rightarrow> int \<Rightarrow> 'w \<Rightarrow> 'w \<times> (string + SignEVMResponse)" where
  "SignEVM http c keyName hashB64 chainID w =
     (case http w \<lparr>hq_method = ''POST'',
          hq_url = cp_address c @ ''/v1/'' @ cp_mount c @ ''/sign-evm/'' @ keyName,
          hq_token = cp_token c, hq_namespace = None,
          hq_body = Some (JObject [(''hash'', JString hashB64), (''chain_id'', JNumber (int_text chainID))])\<rparr> of
        (w', NoReply) \<Rightarrow> (w', Inl ''request failed'')
      | (w', Reply status body) \<Rightarrow>
          (w', if status \<noteq> 200 then Inl (''OpenBao error (status '' @ dec_of_nat status @ '')'')
               else of_option ''failed to parse response''
                 (Option.bind (json_data body) decode_SignEVMResponse)))"

section \<open>The methods\<close>

record 'w rpc_env =
  rv_http :: "'w transport"
  rv_client :: cp_client
  rv_keccak :: "bytes \<Rightarrow> bytes"
  rv_db_fails :: bool
  rv_rows :: "key_row list"

definition missing_org :: rpc_error where
  "missing_org = ErrUnauthorized ''missing organization context''"

subsection \<open>eth\_sign\_transaction.go\<close>

definition parseSignatureResponse :: "SignEVMResponse \<Rightarrow> string + (int \<times> nat \<times> nat)" where
  "parseSignatureResponse resp =
     (case DecodeBytes (zero_x @ se_R resp) of
        Inl _ \<Rightarrow> Inl ''failed to decode r''
      | Inr rBytes \<Rightarrow>
          (case DecodeBytes (zero_x @ se_S resp) of
             Inl _ \<Rightarrow> Inl ''failed to decode s''
           | Inr sBytes \<Rightarrow> Inr (se_VInt resp, be_nat rBytes, be_nat sBytes)))"

text \<open>
  A pointer field: absent or \<open>null\<close> is nil. A field that is not a pointer keeps its zero value
  only when absent.
\<close>

definition fields_of :: "jsonv \<Rightarrow> (string \<times> jsonv) list" where
  "fields_of j = (case j of JObject kvs \<Rightarrow> kvs | _ \<Rightarrow> [])"

definition ptr_field :: "(jsonv \<Rightarrow> 'e + 'a) \<Rightarrow> string \<Rightarrow> jsonv \<Rightarrow> 'a option option" where
  "ptr_field f name j =
     (case raw_field name (fields_of j) of
        None \<Rightarrow> Some None
      | Some JNull \<Rightarrow> Some None
      | Some v \<Rightarrow> (case f v of Inl _ \<Rightarrow> None | Inr a \<Rightarrow> Some (Some a)))"

definition res_option :: "'e + 'a \<Rightarrow> 'a option" where
  "res_option r = (case r of Inl _ \<Rightarrow> None | Inr a \<Rightarrow> Some a)"

definition slice_field :: "(jsonv \<Rightarrow> 'a option) \<Rightarrow> string \<Rightarrow> jsonv \<Rightarrow> 'a list option" where
  "slice_field f name j =
     (case raw_field name (fields_of j) of None \<Rightarrow> Some [] | Some v \<Rightarrow> json_slice f v)"

definition decode_tuple :: "jsonv \<Rightarrow> access_tuple option" where
  "decode_tuple j =
     (if \<not> is_struct j then None
      else Option.bind (case raw_field ''address'' (fields_of j) of
             None \<Rightarrow> Some (replicate 20 0) | Some v \<Rightarrow> res_option (Address_UnmarshalJSON v)) (\<lambda>a.
        Option.bind (slice_field (\<lambda>v. res_option (Hash_UnmarshalJSON v)) ''storageKeys'' j) (\<lambda>ks.
          Some \<lparr>at_address = a, at_keys = ks\<rparr>)))"

definition decode_args :: "jsonv \<Rightarrow> TransactionArgs option" where
  "decode_args j =
     (if \<not> is_struct j then None
      else Option.bind (ptr_field Address_UnmarshalJSON ''from'' j) (\<lambda>fr.
        Option.bind (ptr_field Address_UnmarshalJSON ''to'' j) (\<lambda>to.
        Option.bind (ptr_field Uint64_UnmarshalJSON ''gas'' j) (\<lambda>gas.
        Option.bind (ptr_field Big_UnmarshalJSON ''gasPrice'' j) (\<lambda>gp.
        Option.bind (ptr_field Big_UnmarshalJSON ''maxFeePerGas'' j) (\<lambda>mf.
        Option.bind (ptr_field Big_UnmarshalJSON ''maxPriorityFeePerGas'' j) (\<lambda>mp.
        Option.bind (ptr_field Big_UnmarshalJSON ''value'' j) (\<lambda>val.
        Option.bind (ptr_field Uint64_UnmarshalJSON ''nonce'' j) (\<lambda>nonce.
        Option.bind (ptr_field Bytes_UnmarshalJSON ''data'' j) (\<lambda>dat.
        Option.bind (ptr_field Bytes_UnmarshalJSON ''input'' j) (\<lambda>inp.
        Option.bind (ptr_field Big_UnmarshalJSON ''chainId'' j) (\<lambda>c.
        Option.bind (slice_field decode_tuple ''accessList'' j) (\<lambda>al.
          Some \<lparr>arg_From = fr, arg_To = to, arg_Gas = gas, arg_GasPrice = gp, arg_MaxFeePerGas = mf,
            arg_MaxPriorityFeePerGas = mp, arg_Value = val, arg_Nonce = nonce, arg_Data = dat,
            arg_Input = inp, arg_ChainID = c, arg_AccessList = al\<rparr>)))))))))))))"

text \<open>The transaction to sign, the chain ID and the chain ID the plugin is told.\<close>

definition unsigned_of :: "TransactionArgs \<Rightarrow> UnsignedTransaction option" where
  "unsigned_of args =
     (if arg_MaxFeePerGas args \<noteq> None then NewEIP1559Transaction args else NewLegacyTransaction args)"

definition sign_chain_id :: "UnsignedTransaction \<Rightarrow> int \<Rightarrow> int" where
  "sign_chain_id tx chainID = (if tx_Type tx = EIP1559TxType then 0 else sint (big_Int64 chainID))"

definition y_parity :: "UnsignedTransaction \<Rightarrow> int \<Rightarrow> int" where
  "y_parity tx v =
     (if tx_Type tx = EIP1559TxType \<and> sint (big_Int64 v) \<ge> 27 then sint (big_Int64 v) - 27 else v)"

definition sign_and_encode ::
  "'w rpc_env \<Rightarrow> key_row \<Rightarrow> UnsignedTransaction \<Rightarrow> int \<Rightarrow> 'w \<Rightarrow> 'w \<times> (rpc_error + jsonv)" where
  "sign_and_encode E key tx chainID w =
     (case SignEVM (rv_http E) (rv_client E) (ky_BaoKeyPath key)
          (b64_encode (SigningHash (rv_keccak E) tx (Some chainID))) (sign_chain_id tx chainID) w of
        (w', Inl msg) \<Rightarrow> (w', Inl (RpcErrSigningFailed msg))
      | (w', Inr resp) \<Rightarrow>
          (case parseSignatureResponse resp of
             Inl msg \<Rightarrow> (w', Inl (ErrInternal msg))
           | Inr (v, r, s) \<Rightarrow>
               (w', Inr (JString (EncodeBytes (EncodeRLP
                  (WithSignature tx (Some (y_parity tx v)) (Some (int r)) (Some (int s)))))))))"

definition EthSignTransaction :: "'w rpc_env \<Rightarrow> reqctx \<Rightarrow> 'w rpc_method" where
  "EthSignTransaction E cx w params =
     (if GetOrgIDFromContext cx = 0 then (w, Inl missing_org)
      else case Option.bind params (json_slice decode_args) of
        None \<Rightarrow> (w, Inl (ErrInvalidParams ''json''))
      | Some [] \<Rightarrow> (w, Inl (ErrInvalidParams ''transaction arguments required''))
      | Some (args # _) \<Rightarrow>
          (case Args_Validate args of
             Some e \<Rightarrow> (w, Inl (ErrInvalidParams ''transaction''))
           | None \<Rightarrow>
               (case requireScope cx ''keys:sign'' of
                  Some e \<Rightarrow> (w, Inl e)
                | None \<Rightarrow>
                    (case resolveKey cx (rv_db_fails E) (rv_rows E) (GetOrgIDFromContext cx)
                         (EncodeAddress (the (arg_From args))) of
                       Inl e \<Rightarrow> (w, Inl e)
                     | Inr key \<Rightarrow>
                         (case unsigned_of args of
                            None \<Rightarrow> (w, Inl (ErrInternal ''panic''))
                          | Some tx \<Rightarrow> sign_and_encode E key tx (the (arg_ChainID args)) w)))))"

subsection \<open>eth\_sign.go\<close>

definition personal_prefix :: "nat \<Rightarrow> bytes" where
  "personal_prefix n = 0x19 # bytes_of_ascii ''Ethereum Signed Message:'' @ [10] @ bytes_of_ascii (dec_of_nat n)"

definition HashPersonalMessage :: "(bytes \<Rightarrow> bytes) \<Rightarrow> bytes \<Rightarrow> bytes" where
  "HashPersonalMessage keccak data = keccak (personal_prefix (length data) @ data)"

text \<open>
  r is copied into the first 32 bytes up to their end, then s up to the end of 64 bytes, over the
  tail of r when it is longer than 32; a negative slice bound panics (\<open>None\<close>). A field that does
  not decode counts as empty.
\<close>

definition decode_or_empty :: "string \<Rightarrow> bytes" where
  "decode_or_empty s = (case DecodeBytes (zero_x @ s) of Inl _ \<Rightarrow> [] | Inr b \<Rightarrow> b)"

definition signature65 :: "SignEVMResponse \<Rightarrow> bytes option" where
  "signature65 resp =
     Option.bind (pad_left 32 (decode_or_empty (se_R resp))) (\<lambda>r.
     let s = decode_or_empty (se_S resp) in
       if 64 < length s then None
       else Some (take (64 - length s) (r @ replicate 32 0) @ s @ [word_of_int (se_VInt resp)]))"

definition EthSign_signMessage :: "'w rpc_env \<Rightarrow> reqctx \<Rightarrow> bool \<Rightarrow> 'w rpc_method" where
  "EthSign_signMessage E cx personalSign w params =
     (if GetOrgIDFromContext cx = 0 then (w, Inl missing_org)
      else case Option.bind params (json_slice json_text) of
        None \<Rightarrow> (w, Inl (ErrInvalidParams ''json''))
      | Some args \<Rightarrow>
          if length args < 2 then (w, Inl (ErrInvalidParams ''requires [address, data] or [data, address]''))
          else let (addressHex, dataHex) =
                 (if personalSign then (args ! 1, args ! 0) else (args ! 0, args ! 1)) in
            (case requireScope cx ''keys:sign'' of
               Some e \<Rightarrow> (w, Inl e)
             | None \<Rightarrow>
                 (case resolveKey cx (rv_db_fails E) (rv_rows E) (GetOrgIDFromContext cx) addressHex of
                    Inl e \<Rightarrow> (w, Inl e)
                  | Inr key \<Rightarrow>
                      (case DecodeBytes dataHex of
                         Inl _ \<Rightarrow> (w, Inl (ErrInvalidParams ''invalid data hex''))
                       | Inr data \<Rightarrow>
                           (case SignEVM (rv_http E) (rv_client E) (ky_BaoKeyPath key)
                                (b64_encode (HashPersonalMessage (rv_keccak E) data)) 0 w of
                              (w', Inl msg) \<Rightarrow> (w', Inl (RpcErrSigningFailed msg))
                            | (w', Inr resp) \<Rightarrow>
                                (case signature65 resp of
                                   None \<Rightarrow> (w', Inl (ErrInternal ''panic''))
                                 | Some sig \<Rightarrow> (w', Inr (JString (EncodeBytes sig)))))))))"

definition HandleEthSign :: "'w rpc_env \<Rightarrow> reqctx \<Rightarrow> 'w rpc_method" where
  "HandleEthSign E cx = EthSign_signMessage E cx False"

definition HandlePersonalSign :: "'w rpc_env \<Rightarrow> reqctx \<Rightarrow> 'w rpc_method" where
  "HandlePersonalSign E cx = EthSign_signMessage E cx True"

subsection \<open>opsigner\_sign\_block.go\<close>

text \<open>The decoders of go-ethereum's \<open>hexutil\<close> and \<open>common\<close>, and its encoders.\<close>

record geth =
  gt_bytes :: "jsonv \<Rightarrow> bytes option"
  gt_big :: "jsonv \<Rightarrow> nat option"
  gt_address :: "jsonv \<Rightarrow> bytes option"
  gt_hex :: "bytes \<Rightarrow> string"
  gt_decode :: "string \<Rightarrow> bytes option"
  gt_encode :: "bytes \<Rightarrow> string"

record BlockPayloadArgs =
  bp_Domain :: bytes
  bp_ChainID :: "nat option"
  bp_PayloadHash :: bytes
  bp_SenderAddress :: "bytes option"

record BlockPayloadArgsV2 =
  b2_Domain :: bytes
  b2_ChainID :: bytes
  b2_PayloadHash :: bytes
  b2_SenderAddress :: "bytes option"

definition bytes_field :: "geth \<Rightarrow> string \<Rightarrow> jsonv \<Rightarrow> bytes option" where
  "bytes_field G name j = (case raw_field name (fields_of j) of None \<Rightarrow> Some [] | Some v \<Rightarrow> gt_bytes G v)"

definition decode_payload :: "geth \<Rightarrow> jsonv \<Rightarrow> BlockPayloadArgs option" where
  "decode_payload G j =
     (if \<not> is_struct j then None
      else Option.bind (bytes_field G ''domain'' j) (\<lambda>d.
        Option.bind (ptr_field (\<lambda>v. of_option () (gt_big G v)) ''chainId'' j) (\<lambda>c.
        Option.bind (bytes_field G ''payloadHash'' j) (\<lambda>p.
        Option.bind (ptr_field (\<lambda>v. of_option () (gt_address G v)) ''senderAddress'' j) (\<lambda>a.
          Some \<lparr>bp_Domain = d, bp_ChainID = c, bp_PayloadHash = p, bp_SenderAddress = a\<rparr>)))))"

definition decode_payload_v2 :: "geth \<Rightarrow> jsonv \<Rightarrow> BlockPayloadArgsV2 option" where
  "decode_payload_v2 G j =
     (if \<not> is_struct j then None
      else Option.bind (bytes_field G ''domain'' j) (\<lambda>d.
        Option.bind (bytes_field G ''chainId'' j) (\<lambda>c.
        Option.bind (bytes_field G ''payloadHash'' j) (\<lambda>p.
        Option.bind (ptr_field (\<lambda>v. of_option () (gt_address G v)) ''senderAddress'' j) (\<lambda>a.
          Some \<lparr>b2_Domain = d, b2_ChainID = c, b2_PayloadHash = p, b2_SenderAddress = a\<rparr>)))))"

definition chainIDToBytes32 :: "nat \<Rightarrow> bytes option" where
  "chainIDToBytes32 chainID = pad_left 32 (nat_be chainID)"

text \<open>The result is an error, a panic (\<open>Inr None\<close>) or the signature.\<close>

definition y_parity65 :: "int \<Rightarrow> int" where
  "y_parity65 v = (if v \<ge> 27 then v - 27 else v)"

definition buildSignature65 :: "geth \<Rightarrow> SignEVMResponse \<Rightarrow> string + bytes option" where
  "buildSignature65 G resp =
     (case gt_decode G (zero_x @ se_R resp) of
        None \<Rightarrow> Inl ''decode r''
      | Some rBytes \<Rightarrow>
          (case gt_decode G (zero_x @ se_S resp) of
             None \<Rightarrow> Inl ''decode s''
           | Some sBytes \<Rightarrow>
               Inr (Option.bind (pad_left 32 rBytes) (\<lambda>r.
                 Option.bind (pad_left 32 sBytes) (\<lambda>s.
                   Some (r @ s @ [word_of_int (y_parity65 (se_VInt resp))]))))))"

text \<open>
  The end both versions share, from the three 32-byte parts of the signing input: look the
  sender up, have the hash signed and build the signature.
\<close>

definition sign_block ::
  "'w rpc_env \<Rightarrow> geth \<Rightarrow> reqctx \<Rightarrow> bytes \<Rightarrow> bytes \<Rightarrow> bytes \<Rightarrow> bytes \<Rightarrow> 'w \<Rightarrow> 'w \<times> (rpc_error + jsonv)" where
  "sign_block E G cx domain chain payload sender w =
     (let signingHash = rv_keccak E (domain @ chain @ payload) in
      case resolveKey cx (rv_db_fails E) (rv_rows E) (GetOrgIDFromContext cx) (gt_hex G sender) of
        Inl e \<Rightarrow> (w, Inl e)
      | Inr key \<Rightarrow>
          (case SignEVM (rv_http E) (rv_client E) (ky_BaoKeyPath key) (b64_encode signingHash) 0 w of
             (w', Inl msg) \<Rightarrow> (w', Inl (RpcErrSigningFailed msg))
           | (w', Inr resp) \<Rightarrow>
               (case buildSignature65 G resp of
                  Inl msg \<Rightarrow> (w', Inl (ErrInternal msg))
                | Inr None \<Rightarrow> (w', Inl (ErrInternal ''panic''))
                | Inr (Some sig) \<Rightarrow> (w', Inr (JString (gt_encode G sig))))))"

definition SignBlockPayload :: "'w rpc_env \<Rightarrow> geth \<Rightarrow> reqctx \<Rightarrow> 'w rpc_method" where
  "SignBlockPayload E G cx w params =
     (if GetOrgIDFromContext cx = 0 then (w, Inl missing_org)
      else case requireScope cx ''keys:sign'' of
        Some e \<Rightarrow> (w, Inl e)
      | None \<Rightarrow>
          (case Option.bind params (json_slice (decode_payload G)) of
             None \<Rightarrow> (w, Inl (ErrInvalidParams ''json''))
           | Some [] \<Rightarrow> (w, Inl (ErrInvalidParams ''block payload arguments required''))
           | Some (a # _) \<Rightarrow>
               if length (bp_Domain a) \<noteq> 32 then (w, Inl (ErrInvalidParams ''domain must be 32 bytes''))
               else if length (bp_PayloadHash a) \<noteq> 32 then (w, Inl (ErrInvalidParams ''payloadHash must be 32 bytes''))
               else (case bp_ChainID a of
                  None \<Rightarrow> (w, Inl (ErrInvalidParams ''chainId is required''))
                | Some c \<Rightarrow>
                    (case bp_SenderAddress a of
                       None \<Rightarrow> (w, Inl (ErrInvalidParams ''senderAddress is required''))
                     | Some sender \<Rightarrow>
                         (case chainIDToBytes32 c of
                            None \<Rightarrow> (w, Inl (ErrInternal ''panic''))
                          | Some chain \<Rightarrow> sign_block E G cx (bp_Domain a) chain (bp_PayloadHash a) sender w)))))"

definition SignBlockPayloadV2 :: "'w rpc_env \<Rightarrow> geth \<Rightarrow> reqctx \<Rightarrow> 'w rpc_method" where
  "SignBlockPayloadV2 E G cx w params =
     (if GetOrgIDFromContext cx = 0 then (w, Inl missing_org)
      else case requireScope cx ''keys:sign'' of
        Some e \<Rightarrow> (w, Inl e)
      | None \<Rightarrow>
          (case Option.bind params (json_slice (decode_payload_v2 G)) of
             None \<Rightarrow> (w, Inl (ErrInvalidParams ''json''))
           | Some [] \<Rightarrow> (w, Inl (ErrInvalidParams ''block payload arguments required''))
           | Some (a # _) \<Rightarrow>
               if length (b2_Domain a) \<noteq> 32 then (w, Inl (ErrInvalidParams ''domain must be 32 bytes''))
               else if length (b2_ChainID a) \<noteq> 32 then (w, Inl (ErrInvalidParams ''chainId must be 32 bytes for V2''))
               else if length (b2_PayloadHash a) \<noteq> 32 then (w, Inl (ErrInvalidParams ''payloadHash must be 32 bytes''))
               else (case b2_SenderAddress a of
                  None \<Rightarrow> (w, Inl (ErrInvalidParams ''senderAddress is required''))
                | Some sender \<Rightarrow> sign_block E G cx (b2_Domain a) (b2_ChainID a) (b2_PayloadHash a) sender w)))"

subsection \<open>eth\_accounts.go, health\_status.go and server.go\<close>

definition boundAddresses :: "reqctx \<Rightarrow> key_row list \<Rightarrow> string list" where
  "boundAddresses cx keys =
     List.map_filter (\<lambda>k. case ky_EthAddress k of
        None \<Rightarrow> None
      | Some a \<Rightarrow> if a \<noteq> [] \<and> AllowsKey cx (ky_ID k) then Some a else None) keys"

definition EthAccounts :: "'w rpc_env \<Rightarrow> reqctx \<Rightarrow> 'w rpc_method" where
  "EthAccounts E cx w params =
     (if GetOrgIDFromContext cx = 0 then (w, Inl missing_org)
      else case requireScope cx ''keys:read'' of
        Some e \<Rightarrow> (w, Inl e)
      | None \<Rightarrow>
          if (case cx_identity cx of Some i \<Rightarrow> length (id_AllowedKeyIDs i) > 0 | None \<Rightarrow> False)
          then (case ListByOrg (rv_db_fails E) (rv_rows E) (GetOrgIDFromContext cx) of
             Inl _ \<Rightarrow> (w, Inl (ErrInternal ''list''))
           | Inr keys \<Rightarrow> (w, Inr (JArray (map JString (boundAddresses cx keys)))))
          else (case ListEthAddresses (rv_db_fails E) (rv_rows E) (GetOrgIDFromContext cx) of
             Inl _ \<Rightarrow> (w, Inl (ErrInternal ''list''))
           | Inr addresses \<Rightarrow> (w, Inr (JArray (map JString addresses)))))"

definition HealthStatus :: "'w rpc_method" where
  "HealthStatus w params = (w, Inr (JString ''popsigner-v1.0.0''))"

text \<open>The table of methods; the context is that of the HTTP request.\<close>

definition NewServer :: "'w rpc_env \<Rightarrow> geth \<Rightarrow> reqctx \<Rightarrow> 'w methods" where
  "NewServer E G cx =
     RegisterMethod ''opsigner_signBlockPayloadV2'' (SignBlockPayloadV2 E G cx)
     (RegisterMethod ''opsigner_signBlockPayload'' (SignBlockPayload E G cx)
     (RegisterMethod ''personal_sign'' (HandlePersonalSign E cx)
     (RegisterMethod ''eth_sign'' (HandleEthSign E cx)
     (RegisterMethod ''eth_signTransaction'' (EthSignTransaction E cx)
     (RegisterMethod ''eth_accounts'' (EthAccounts E cx)
     (RegisterMethod ''health_status'' HealthStatus NewHandler))))))"

section \<open>Properties\<close>

text \<open>
  What a method may do to the outside world: nothing, or one signature by a key the caller may
  use, for an organization, with the signing scope.
\<close>

definition authorized_call :: "'w rpc_env \<Rightarrow> reqctx \<Rightarrow> 'w \<Rightarrow> 'w \<Rightarrow> bool" where
  "authorized_call E cx w w' \<longleftrightarrow> cx_org cx \<noteq> 0 \<and> holds_scope cx ''keys:sign'' \<and>
     (\<exists>k address hash c. may_use cx (rv_rows E) address k \<and>
        w' = fst (SignEVM (rv_http E) (rv_client E) (ky_BaoKeyPath k) hash c w))"

lemma authorized_callI:
  "cx_org cx \<noteq> 0 \<Longrightarrow> requireScope cx ''keys:sign'' = None \<Longrightarrow>
     resolveKey cx (rv_db_fails E) (rv_rows E) (cx_org cx) address = Inr k \<Longrightarrow>
     SignEVM (rv_http E) (rv_client E) (ky_BaoKeyPath k) hash c w = (w', r) \<Longrightarrow> authorized_call E cx w w'"
  unfolding authorized_call_def requireScope_None [symmetric]
  using resolveKey_may_use by (metis fst_conv)

lemma sign_and_encode_state:
  "fst (sign_and_encode E key tx c w) = fst (SignEVM (rv_http E) (rv_client E) (ky_BaoKeyPath key)
     (b64_encode (SigningHash (rv_keccak E) tx (Some c))) (sign_chain_id tx c) w)"
  by (simp add: sign_and_encode_def split: prod.split sum.split)

lemma EthSignTransaction_state:
  "fst (EthSignTransaction E cx w params) = w \<or> authorized_call E cx w (fst (EthSignTransaction E cx w params))"
  by (auto simp: EthSignTransaction_def GetOrgIDFromContext_def sign_and_encode_state
      split: if_splits option.splits list.splits sum.splits intro!: authorized_callI prod.collapse [symmetric])

lemma EthSign_state:
  "fst (EthSign_signMessage E cx p w params) = w \<or> authorized_call E cx w (fst (EthSign_signMessage E cx p w params))"
  by (auto simp: EthSign_signMessage_def GetOrgIDFromContext_def Let_def
      split: if_splits option.splits sum.splits prod.splits intro: authorized_callI)

lemma sign_block_state:
  "cx_org cx \<noteq> 0 \<Longrightarrow> requireScope cx ''keys:sign'' = None \<Longrightarrow>
     fst (sign_block E G cx d c p a w) = w \<or> authorized_call E cx w (fst (sign_block E G cx d c p a w))"
  by (auto simp: sign_block_def GetOrgIDFromContext_def Let_def
      split: option.splits sum.splits prod.splits intro: authorized_callI)

lemma SignBlockPayload_state:
  "fst (SignBlockPayload E G cx w params) = w \<or> authorized_call E cx w (fst (SignBlockPayload E G cx w params))"
  "fst (SignBlockPayloadV2 E G cx w params) = w \<or> authorized_call E cx w (fst (SignBlockPayloadV2 E G cx w params))"
  using sign_block_state [of cx E G]
  by (auto simp: SignBlockPayload_def SignBlockPayloadV2_def GetOrgIDFromContext_def Let_def
      split: if_splits option.splits list.splits)


definition example_reply :: "nat transport" where
  "example_reply w q = (Suc w, Reply 200 (Some (JObject [(''data'', JObject [(''v'', JString ''1b''), (''r'', JString ''01''),
     (''s'', JString ''02''), (''v_int'', JNumber ''27'')])])))"

definition example_env :: "nat rpc_env" where
  "example_env = \<lparr>rv_http = example_reply, rv_client = NewClient ''bao'' ''t'' [], rv_keccak = take 32, rv_db_fails = False,
     rv_rows = [\<lparr>ky_ID = 7, ky_OrgID = 2, ky_NamespaceID = 4, ky_Name = ''n'', ky_PublicKey = [], ky_Address = [],
     ky_EthAddress = Some ''0x1'', ky_NetworkType = ''all'', ky_Algorithm = ''secp256k1'', ky_BaoKeyPath = ''k'',
     ky_Exportable = False, ky_Metadata = [], ky_Version = 1, ky_Deleted = False\<rparr>]\<rparr>"

definition example_ctx :: reqctx where
  "example_ctx = apikey_context \<lparr>ak_ID = 9, ak_OrgID = 2, ak_Scopes = [''keys:sign''], ak_AllowedKeyIDs = [7],
     ak_ExpiresAt = None, ak_RevokedAt = None\<rparr>"

lemma example_SignEVM: "SignEVM (rv_http example_env) (rv_client example_env) k h c w =
    (Suc w, Inr \<lparr>se_V = ''1b'', se_R = ''01'', se_S = ''02'', se_VInt = 27, se_PublicKey = [], se_EthAddress = []\<rparr>)"
  by (simp add: SignEVM_def example_env_def example_reply_def json_data_def json_get_def same_field_def fold_char_def
      decode_SignEVMResponse_def int_literal_def is_digit_def dec_val_def)

definition example_row :: key_row where
  "example_row = \<lparr>ky_ID = 7, ky_OrgID = 2, ky_NamespaceID = 4, ky_Name = ''n'', ky_PublicKey = [], ky_Address = [],
     ky_EthAddress = Some ''0x1'', ky_NetworkType = ''all'', ky_Algorithm = ''secp256k1'', ky_BaoKeyPath = ''k'',
     ky_Exportable = False, ky_Metadata = [], ky_Version = 1, ky_Deleted = False\<rparr>"

lemma example_access:
  "GetOrgIDFromContext example_ctx = 2" "requireScope example_ctx ''keys:sign'' = None"
  "resolveKey example_ctx (rv_db_fails example_env) (rv_rows example_env) 2 ''0x1'' = Inr example_row"
  by (simp_all add: example_ctx_def apikey_context_def GetOrgIDFromContext_def requireScope_def GetAPIKeyFromContext_def
      HasScope_def resolveKey_def GetByEthAddress_def example_env_def lower_def lower_char_def AllowsKey_def example_row_def)

lemma example_signs:
  "fst (HandlePersonalSign example_env example_ctx 0 (Some (JArray [JString ''0x'', JString ''0x1'']))) = 1"
  by (simp add: HandlePersonalSign_def EthSign_signMessage_def example_SignEVM example_access DecodeBytes_def trim_prefix_def
      split: option.split)


section \<open>Accounts\<close>

lemma map_filter_Some: "a \<in> set (List.map_filter f xs) \<longleftrightarrow> (\<exists>x\<in>set xs. f x = Some a)"
  by (induction xs) (auto simp: map_filter_simps split: option.split)

lemma boundAddresses_iff:
  "a \<noteq> [] \<Longrightarrow> a \<in> set (boundAddresses cx keys) \<longleftrightarrow>
     (\<exists>k\<in>set keys. ky_EthAddress k = Some a \<and> AllowsKey cx (ky_ID k))"
  by (induction keys) (auto simp: boundAddresses_def map_filter_simps split: option.split)

text \<open>
  A caller with the read scope is told exactly the addresses of the keys it may sign with: those of
  its organization that are not deleted and, when its API key is bound, within the binding.
\<close>

lemma accounts_are_usable_keys:
  assumes "cx_org cx \<noteq> 0" "holds_scope cx ''keys:read''" "\<not> rv_db_fails E"
  shows "\<exists>xs. EthAccounts E cx w params = (w, Inr (JArray (map JString xs))) \<and>
     (\<forall>a. a \<noteq> [] \<longrightarrow> a \<in> set xs \<longleftrightarrow> (\<exists>k. may_use cx (rv_rows E) a k \<and> ky_EthAddress k = Some a))"
proof -
  let ?keys = "filter (\<lambda>k. ky_OrgID k = cx_org cx \<and> \<not> ky_Deleted k) (rv_rows E)"
  have s: "requireScope cx ''keys:read'' = None" using assms(2) requireScope_None by simp
  have use: "(\<exists>k. may_use cx (rv_rows E) a k \<and> ky_EthAddress k = Some a) \<longleftrightarrow>
      (\<exists>k\<in>set ?keys. ky_EthAddress k = Some a \<and> AllowsKey cx (ky_ID k))" for a
    by (auto simp: may_use_def AllowsKey_iff)
  show ?thesis
  proof (cases "\<exists>i. cx_identity cx = Some i \<and> id_AllowedKeyIDs i \<noteq> []")
    case True
    then have "EthAccounts E cx w params = (w, Inr (JArray (map JString (boundAddresses cx ?keys))))"
      using assms s by (auto simp: EthAccounts_def GetOrgIDFromContext_def ListByOrg_def)
    then show ?thesis using boundAddresses_iff use by blast
  next
    case False
    then have "AllowsKey cx k" for k by (auto simp: AllowsKey_def split: option.splits)
    moreover have "EthAccounts E cx w params = (w, Inr (JArray (map JString (List.map_filter ky_EthAddress ?keys))))"
      using assms s False by (auto simp: EthAccounts_def GetOrgIDFromContext_def ListEthAddresses_def split: option.splits)
    moreover have "a \<in> set (List.map_filter ky_EthAddress ?keys) \<longleftrightarrow> (\<exists>k\<in>set ?keys. ky_EthAddress k = Some a)" for a
      by (rule map_filter_Some)
    ultimately show ?thesis using use by blast
  qed
qed

theorem accounts_are_usable_keys_witness:
  "\<exists>xs. EthAccounts example_env (example_ctx\<lparr>cx_apikey := None\<rparr>) 0 None = (0, Inr (JArray (map JString xs))) \<and> ''0x1'' \<in> set xs"
proof -
  have "cx_org (example_ctx\<lparr>cx_apikey := None\<rparr>) \<noteq> 0" "holds_scope (example_ctx\<lparr>cx_apikey := None\<rparr>) ''keys:read''"
    "\<not> rv_db_fails example_env"
    by (simp_all add: example_ctx_def apikey_context_def holds_scope_def example_env_def)
  from accounts_are_usable_keys [OF this, of 0 None] obtain xs where
    "EthAccounts example_env (example_ctx\<lparr>cx_apikey := None\<rparr>) 0 None = (0, Inr (JArray (map JString xs)))"
    "''0x1'' \<in> set xs \<longleftrightarrow> (\<exists>k. may_use (example_ctx\<lparr>cx_apikey := None\<rparr>) (rv_rows example_env) ''0x1'' k \<and> ky_EthAddress k = Some ''0x1'')"
    by auto
  moreover have "may_use (example_ctx\<lparr>cx_apikey := None\<rparr>) (rv_rows example_env) ''0x1'' example_row \<and> ky_EthAddress example_row = Some ''0x1''"
    by (simp add: may_use_def example_env_def example_row_def example_ctx_def apikey_context_def)
  ultimately show ?thesis by blast
qed

section \<open>The two versions of block signing\<close>

lemma chainIDToBytes32_be_nat: "length c = 32 \<Longrightarrow> chainIDToBytes32 (be_nat c) = Some c"
proof -
  assume c: "length c = 32"
  then have "be_nat c < 256 ^ 32" using be_nat_less [of c] by simp
  then obtain p where "pad_left 32 (nat_be (be_nat c)) = Some p" "length p = 32" "be_nat p = be_nat c"
    using pad_left_nat_be by blast
  then show ?thesis using be_nat_inj [of p c] c by (simp add: chainIDToBytes32_def)
qed

text \<open>
  Both versions of block signing answer alike, with the same request to OpenBao, when the 32 bytes of the
  second are the chain ID of the first.
\<close>

lemma block_versions_agree:
  assumes "Option.bind p1 (json_slice (decode_payload G)) = Some (a # as)"
    and "Option.bind p2 (json_slice (decode_payload_v2 G)) = Some (a2 # as2)"
    and "b2_Domain a2 = bp_Domain a" "b2_PayloadHash a2 = bp_PayloadHash a" "b2_SenderAddress a2 = bp_SenderAddress a"
    and "bp_ChainID a = Some (be_nat (b2_ChainID a2))" "length (b2_ChainID a2) = 32"
  shows "SignBlockPayload E G cx w p1 = SignBlockPayloadV2 E G cx w p2"
  using assms chainIDToBytes32_be_nat [OF assms(7)]
  by (simp add: SignBlockPayload_def SignBlockPayloadV2_def split: option.split)

definition example_geth :: geth where
  "example_geth = \<lparr>gt_bytes = \<lambda>j. Some (replicate 32 1), gt_big = \<lambda>j. Some (be_nat (replicate 32 1)),
     gt_address = \<lambda>j. Some [1], gt_hex = \<lambda>_. ''0x1'', gt_decode = \<lambda>_. Some [1], gt_encode = \<lambda>_. ''0x''\<rparr>"

definition example_block :: jsonv where
  "example_block = JArray [JObject [(''domain'', JString ''0x01''), (''chainId'', JString ''0x01''),
     (''payloadHash'', JString ''0x01''), (''senderAddress'', JString ''0x1'')]]"

lemma example_block_decodes:
  "json_slice (decode_payload example_geth) example_block = Some [\<lparr>bp_Domain = replicate 32 1,
     bp_ChainID = Some (be_nat (replicate 32 1)), bp_PayloadHash = replicate 32 1, bp_SenderAddress = Some [1]\<rparr>]"
  "json_slice (decode_payload_v2 example_geth) example_block = Some [\<lparr>b2_Domain = replicate 32 1,
     b2_ChainID = replicate 32 1, b2_PayloadHash = replicate 32 1, b2_SenderAddress = Some [1]\<rparr>]"
  by (simp_all add: example_block_def decode_payload_def decode_payload_v2_def bytes_field_def ptr_field_def fields_of_def
      same_field_def fold_char_def example_geth_def del: be_nat_replicate_0)

theorem block_versions_agree_witness:
  "SignBlockPayload example_env example_geth example_ctx 0 (Some example_block) =
     SignBlockPayloadV2 example_env example_geth example_ctx 0 (Some example_block)"
  by (rule block_versions_agree [where a = "\<lparr>bp_Domain = replicate 32 1,
     bp_ChainID = Some (be_nat (replicate 32 1)), bp_PayloadHash = replicate 32 1, bp_SenderAddress = Some [1]\<rparr>" and as = "[]"
     and ?a2.0 = "\<lparr>b2_Domain = replicate 32 1,
     b2_ChainID = replicate 32 1, b2_PayloadHash = replicate 32 1, b2_SenderAddress = Some [1]\<rparr>" and ?as2.0 = "[]"])
    (simp_all only: example_block_decodes bind.bind_lunit, simp_all)

end
