(* ===== verification/EndToEnd.thy ===== *)
theory EndToEnd
  imports EthRpc PluginBackend
begin

text \<open>
  The JSON-RPC methods on top of the plugin. OpenBao stands between the two: it routes a request
  to the plugin's handler and wraps the data of the response (\<open>serves_sign_evm\<close>,
  \<open>serves_export\<close>), which is its documented behaviour and a hypothesis here. The theorems follow a
  request of a caller down to the stored key and the signature back to the caller.
\<close>

section \<open>What OpenBao does with a response\<close>

definition evm_data :: "string \<Rightarrow> string \<Rightarrow> string \<Rightarrow> u64 \<Rightarrow> string \<Rightarrow> string \<Rightarrow> jsonv" where
  "evm_data v r s vi pk address = JObject [(''eth_address'', JString address), (''public_key'', JString pk), (''r'', JString r),
     (''s'', JString s), (''v'', JString v), (''v_int'', JNumber (int_text (sint vi)))]"

definition evm_request :: "cp_client \<Rightarrow> string \<Rightarrow> string \<Rightarrow> int \<Rightarrow> http_request" where
  "evm_request c name hash chain = \<lparr>hq_method = ''POST'',
     hq_url = cp_address c @ ''/v1/'' @ cp_mount c @ ''/sign-evm/'' @ name, hq_token = cp_token c, hq_namespace = None,
     hq_body = Some (JObject [(''hash'', JString hash), (''chain_id'', JNumber (int_text chain))])\<rparr>"

definition serves_sign_evm ::
  "('sk, 'pk, 'sg) curve \<Rightarrow> storage_io \<Rightarrow> backend transport \<Rightarrow> cp_client \<Rightarrow> bool" where
  "serves_sign_evm L io http c \<longleftrightarrow> (\<forall>b name hash chain b' v r s vi pk a.
     pathSignEVMWrite L io b name hash chain = (b', Inr (EvmResponse v r s vi pk a)) \<longrightarrow>
     http b (evm_request c name hash chain) = (b', Reply 200 (Some (JObject [(''data'', evm_data v r s vi pk a)]))))"

section \<open>Numbers on the wire\<close>

lemma int_literal_text [simp]: "int_literal (int_text i) = Some i"
proof -
  have d: "list_all is_digit (dec_of_nat n)" "dec_of_nat n \<noteq> []" for n
    using dec_of_nat_digits dec_of_nat_Cons [of n] by (auto simp: list_all_iff)
  show ?thesis
  proof (cases "i < 0")
    case True
    then show ?thesis using d [of "nat (- i)"] by (simp add: int_literal_def int_text_def Let_def)
  next
    case False
    obtain c cs where c: "dec_of_nat (nat i) = c # cs" "is_digit c" using dec_of_nat_Cons by blast
    then have "c \<noteq> CHR ''-''" by (auto simp: is_digit_def)
    then show ?thesis using False c d [of "nat i"] dec_val_of_nat [of "nat i"]
      by (auto simp: int_literal_def int_text_def Let_def)
  qed
qed

lemma json_int64_word [simp]: "json_int64 (JNumber (int_text (sint (v :: u64)))) = Some (sint v)"
  using sint_range_size [of v] by (simp add: word_size)

lemma decode_evm_data:
  "decode_SignEVMResponse (evm_data v r s vi pk a) =
     Some \<lparr>se_V = v, se_R = r, se_S = s, se_VInt = sint vi, se_PublicKey = pk, se_EthAddress = a\<rparr>"
  by (simp add: decode_SignEVMResponse_def evm_data_def json_get_def same_field_def fold_char_def
      del: json_int64.simps)

lemma SignEVM_served:
  assumes "serves_sign_evm L io http c"
    and "pathSignEVMWrite L io b name hash chain = (b', Inr (EvmResponse v r s vi pk a))"
  shows "EthRpc.SignEVM http c name hash chain b =
    (b', Inr \<lparr>se_V = v, se_R = r, se_S = s, se_VInt = sint vi, se_PublicKey = pk, se_EthAddress = a\<rparr>)"
proof -
  have "http b (evm_request c name hash chain) = (b', Reply 200 (Some (JObject [(''data'', evm_data v r s vi pk a)])))"
    using assms unfolding serves_sign_evm_def by blast
  then show ?thesis
    by (simp add: EthRpc.SignEVM_def evm_request_def json_data_def json_get_def same_field_def decode_evm_data
        evm_data_def [THEN arg_cong, of is_struct])
qed

section \<open>Signing a hash\<close>

text \<open>The key behind a row of the key table: the plugin holds it and can read it.\<close>

definition signing_ready ::
  "('sk, 'pk, 'sg) curve \<Rightarrow> storage_io \<Rightarrow> backend rpc_env \<Rightarrow> backend \<Rightarrow> key_row \<Rightarrow> 'sk \<Rightarrow> bool" where
  "signing_ready L io E b key k \<longleftrightarrow>
     serves_sign_evm L io (rv_http E) (rv_client E) \<and> coherent b \<and> reads_work io \<and> ky_BaoKeyPath key \<noteq> [] \<and>
     (\<exists>e. storage b (key_path (ky_BaoKeyPath key)) = Some (Stored e) \<and> ParsePrivateKey L (PrivateKey e) = Inr k)"

definition recovers :: "('sk, 'pk, 'sg) curve \<Rightarrow> 'sk \<Rightarrow> bytes \<Rightarrow> byte \<Rightarrow> bytes \<Rightarrow> bytes \<Rightarrow> bool" where
  "recovers L k hash rid R S \<longleftrightarrow>
     (\<exists>pk. lib_recover L ((27 + rid) # R @ S) hash = Some pk \<and> lib_pub_equal L pk (lib_pub L k))"

definition evm_v :: "int \<Rightarrow> byte \<Rightarrow> int" where
  "evm_v chain rid = (if 0 < chain then chain * 2 + 35 + uint rid else 27 + uint rid)"

lemma plugin_signs_hash:
  assumes "curve_ok L n rs" "recover_ok L n rs" and ready: "signing_ready L io E b key k" and h: "length hash = 32"
  obtains rid R S b' resp where
    "EthRpc.SignEVM (rv_http E) (rv_client E) (ky_BaoKeyPath key) (b64_encode hash) chain b = (b', Inr resp)"
    "rid = 0 \<or> rid = 1" "length R = 32" "length S = 32" "se_R resp = hex064 (be_nat R)" "se_S resp = hex064 (be_nat S)"
    "se_VInt resp = sint (big_Int64 (evm_v chain rid))" "recovers L k hash rid R S"
proof -
  obtain rid R S where s:
    "sign_recoverable L k hash = Some (rid, fst (rs (lib_sign L k hash)), canonical n (snd (rs (lib_sign L k hash))))"
    "rid = 0 \<or> rid = 1" "length R = 32" "length S = 32"
    "be_nat R = fst (rs (lib_sign L k hash))" "be_nat S = canonical n (snd (rs (lib_sign L k hash)))"
    "recovers L k hash rid R S"
    unfolding recovers_def by (rule sign_recoverable_spec [OF assms(1,2) h, of k])
  obtain e where e: "storage b (key_path (ky_BaoKeyPath key)) = Some (Stored e)" "ParsePrivateKey L (PrivateKey e) = Inr k"
    and c: "coherent b" and w: "reads_work io" and p: "ky_BaoKeyPath key \<noteq> []"
    and serves: "serves_sign_evm L io (rv_http E) (rv_client E)"
    using ready unfolding signing_ready_def by blast
  obtain b' where g: "getKey io b (ky_BaoKeyPath key) = (b', Inr (Some e))"
    using getKey_Some_ok [OF c e(1) w] by (metis prod.collapse)
  define answer where "answer = EvmResponse (hex_of_int (evm_v chain rid)) (hex064 (be_nat R)) (hex064 (be_nat S))
    (big_Int64 (evm_v chain rid)) (hex_encode (PublicKey e)) (formatEthereumAddress L (deriveEthereumAddress L (lib_pub L k)))"
  have "pathSignEVMWrite L io b (ky_BaoKeyPath key) (b64_encode hash) chain = (b', Inr answer)"
    using p h g e(2) s(1) by (auto simp: pathSignEVMWrite_def with_key_def evm_with_entry_def SignEIP155_def SignLegacy_def
        evm_v_def answer_def s(5,6))
  then show ?thesis
    using SignEVM_served [OF serves] s by (intro that) (auto simp: answer_def)
qed

lemma DecodeBytes_hex_bytes:
  assumes "length R = 32"
  shows "DecodeBytes (zero_x @ hex064 (be_nat R)) = Inr R"
proof -
  have "be_nat R < 2 ^ 256" using be_nat_less [of R] assms by simp
  then show ?thesis
    by (rule DecodeBytes_hex064) (use be_nat_inj [of _ R] assms in auto)
qed

lemma signature65_bytes:
  assumes "length R = 32" "length S = 32" "se_R resp = hex064 (be_nat R)" "se_S resp = hex064 (be_nat S)"
  shows "signature65 resp = Some (R @ S @ [word_of_int (se_VInt resp)])"
  using assms DecodeBytes_hex_bytes [OF assms(1)] DecodeBytes_hex_bytes [OF assms(2)]
  by (simp add: signature65_def decode_or_empty_def pad_left_def Let_def)

lemma parse_signature_bytes:
  assumes "length R = 32" "length S = 32" "se_R resp = hex064 (be_nat R)" "se_S resp = hex064 (be_nat S)"
  shows "parseSignatureResponse resp = Inr (se_VInt resp, be_nat R, be_nat S)"
  using assms DecodeBytes_hex_bytes [OF assms(1)] DecodeBytes_hex_bytes [OF assms(2)]
  by (simp add: parseSignatureResponse_def)

lemma sint_big_Int64: "- (2 ^ 63) \<le> i \<Longrightarrow> i < 2 ^ 63 \<Longrightarrow> sint (big_Int64 i) = i"
  by (simp add: big_Int64_def signed_of_int signed_take_bit_int_eq_self)

section \<open>Messages\<close>

text \<open>
  Property C12. A message signed with \<open>personal_sign\<close> comes back as 65 bytes from which the plugin's own recovery gives
  the public key stored under the caller's address: the request passes through the RPC method, the client,
  the plugin and its library and back.
\<close>

theorem personal_sign_recovers:
  assumes "curve_ok L n rs" "recover_ok L n rs" "\<And>x. length (rv_keccak E x) = 32"
    and "cx_org cx \<noteq> 0" "holds_scope cx ''keys:sign''"
    and "resolveKey cx (rv_db_fails E) (rv_rows E) (cx_org cx) address = Inr key"
    and "signing_ready L io E b key k" "DecodeBytes dataHex = Inr data"
  shows "\<exists>b' sig pk. HandlePersonalSign E cx b (Some (JArray [JString dataHex, JString address])) =
       (b', Inr (JString (EncodeBytes sig))) \<and>
     RecoverPubKeyFromSignature L (HashPersonalMessage (rv_keccak E) data) sig None = Inr pk \<and> lib_pub_equal L pk (lib_pub L k)"
proof -
  let ?hash = "HashPersonalMessage (rv_keccak E) data"
  have h: "length ?hash = 32" using assms(3) by (simp add: HashPersonalMessage_def)
  obtain rid R S b' resp where s:
    "EthRpc.SignEVM (rv_http E) (rv_client E) (ky_BaoKeyPath key) (b64_encode ?hash) 0 b = (b', Inr resp)"
    "rid = 0 \<or> rid = 1" "length R = 32" "length S = 32" "se_R resp = hex064 (be_nat R)" "se_S resp = hex064 (be_nat S)"
    "se_VInt resp = sint (big_Int64 (evm_v 0 rid))" "recovers L k ?hash rid R S"
    by (rule plugin_signs_hash [OF assms(1,2,7) h, of 0])
  have v: "se_VInt resp = 27 + uint rid" using s(2,7) sint_big_Int64 [of "27 + uint rid"] by (auto simp: evm_v_def)
  have sig: "signature65 resp = Some (R @ S @ [word_of_int (27 + uint rid)])"
    using signature65_bytes [OF s(3-6)] v by simp
  have "HandlePersonalSign E cx b (Some (JArray [JString dataHex, JString address])) =
      (b', Inr (JString (EncodeBytes (R @ S @ [word_of_int (27 + uint rid)]))))"
    using assms(4,6,8) s(1) sig requireScope_None [of cx "''keys:sign''"] assms(5)
    by (simp add: HandlePersonalSign_def EthSign_signMessage_def GetOrgIDFromContext_def)
  moreover have "recovery_id_of_v (word_of_int (27 + uint rid)) None = rid"
    using s(2) by (auto simp: recovery_id_of_v_def)
  then have "RecoverPubKeyFromSignature L ?hash (R @ S @ [word_of_int (27 + uint rid)]) None =
      of_option RecoverFailed (lib_recover L ((27 + rid) # R @ S) ?hash)"
    using h s(3,4) by (simp add: RecoverPubKeyFromSignature_def nth_append)
  ultimately show ?thesis using s(8) unfolding recovers_def by fastforce
qed

section \<open>Transactions\<close>

lemma unsigned_of_total:
  assumes "Args_Validate args = None"
  obtains tx where "unsigned_of args = Some tx" "tx_Type tx = EIP1559TxType \<longleftrightarrow> IsEIP1559 args"
  using assms
  by (cases "arg_MaxFeePerGas args")
    (auto simp: Args_Validate_def unsigned_of_def NewEIP1559Transaction_def NewLegacyTransaction_def IsEIP1559_def
      LegacyTxType_def EIP1559TxType_def split: if_splits)

lemma sign_transaction_served:
  assumes "curve_ok L n rs" "recover_ok L n rs" "\<And>x. length (rv_keccak E x) = 32"
    and "cx_org cx \<noteq> 0" "holds_scope cx ''keys:sign''"
    and "Option.bind params (json_slice decode_args) = Some (args # as)" "Args_Validate args = None"
    and "resolveKey cx (rv_db_fails E) (rv_rows E) (cx_org cx) (EncodeAddress (the (arg_From args))) = Inr key"
    and "signing_ready L io E b key k" "arg_ChainID args = Some c" "0 < c" "c * 2 + 36 < 2 ^ 63"
  shows "\<exists>b' tx rid R S. EthSignTransaction E cx b params = (b', Inr (JString (EncodeBytes (EncodeRLP
       (WithSignature tx (Some (if IsEIP1559 args then uint rid else c * 2 + 35 + uint rid))
          (Some (int (be_nat R))) (Some (int (be_nat S)))))))) \<and>
     unsigned_of args = Some tx \<and> (rid = 0 \<or> rid = 1) \<and> length R = 32 \<and> length S = 32 \<and>
     recovers L k (SigningHash (rv_keccak E) tx (Some c)) rid R S"
proof -
  obtain tx where tx: "unsigned_of args = Some tx" "tx_Type tx = EIP1559TxType \<longleftrightarrow> IsEIP1559 args"
    using unsigned_of_total [OF assms(7)] by blast
  let ?hash = "SigningHash (rv_keccak E) tx (Some c)"
  have h: "length ?hash = 32" using assms(3) by (simp add: SigningHash_def)
  obtain rid R S b' resp where s:
    "EthRpc.SignEVM (rv_http E) (rv_client E) (ky_BaoKeyPath key) (b64_encode ?hash) (sign_chain_id tx c) b = (b', Inr resp)"
    "rid = 0 \<or> rid = 1" "length R = 32" "length S = 32" "se_R resp = hex064 (be_nat R)" "se_S resp = hex064 (be_nat S)"
    "se_VInt resp = sint (big_Int64 (evm_v (sign_chain_id tx c) rid))" "recovers L k ?hash rid R S"
    by (rule plugin_signs_hash [OF assms(1,2,9) h, of "sign_chain_id tx c"])
  have chain: "sign_chain_id tx c = (if IsEIP1559 args then 0 else c)"
    using tx(2) sint_big_Int64 [of c] assms(11,12) by (simp add: sign_chain_id_def)
  have u: "uint rid = 0 \<or> uint rid = 1" using s(2) by auto
  have v: "y_parity tx (se_VInt resp) = (if IsEIP1559 args then uint rid else c * 2 + 35 + uint rid)"
  proof (cases "IsEIP1559 args")
    case True
    then have "se_VInt resp = 27 + uint rid" using s(7) chain u sint_big_Int64 [of "27 + uint rid"] by (auto simp: evm_v_def)
    then show ?thesis using True tx(2) u sint_big_Int64 [of "27 + uint rid"] by (auto simp: y_parity_def)
  next
    case False
    then have "se_VInt resp = c * 2 + 35 + uint rid"
      using s(7) chain u assms(11,12) sint_big_Int64 [of "c * 2 + 35 + uint rid"] by (auto simp: evm_v_def)
    then show ?thesis using False tx(2) by (simp add: y_parity_def)
  qed
  have "EthSignTransaction E cx b params = (b', Inr (JString (EncodeBytes (EncodeRLP
      (WithSignature tx (Some (y_parity tx (se_VInt resp))) (Some (int (be_nat R))) (Some (int (be_nat S))))))))"
    using assms(4,6,7,8,10) tx(1) s(1) parse_signature_bytes [OF s(3-6)] requireScope_None [of cx "''keys:sign''"] assms(5)
    by (simp add: EthSignTransaction_def GetOrgIDFromContext_def sign_and_encode_def)
  then show ?thesis using v s tx(1) by auto
qed

text \<open>
  Property C1. A transaction request that passes validation comes back as the signed encoding of that transaction: r and s
  sign its hash under the key stored for the sender, and v is the recovery id for EIP-1559 and 2 * chain + 35 + id
  for a legacy transaction, up to the chain IDs whose v fits an int64.
\<close>

theorem signed_transaction_end_to_end:
  assumes "curve_ok L n rs" "recover_ok L n rs" "\<And>x. length (rv_keccak E x) = 32"
    and "cx_org cx \<noteq> 0" "holds_scope cx ''keys:sign''"
    and "Option.bind params (json_slice decode_args) = Some (args # as)" "Args_Validate args = None"
    and "resolveKey cx (rv_db_fails E) (rv_rows E) (cx_org cx) (EncodeAddress (the (arg_From args))) = Inr key"
    and "signing_ready L io E b key k" "arg_ChainID args = Some c" "0 < c" "c * 2 + 36 < 2 ^ 63"
  shows "\<exists>b' tx rid R S. EthSignTransaction E cx b params = (b', Inr (JString (EncodeBytes (EncodeRLP
       (WithSignature tx (Some (if IsEIP1559 args then uint rid else c * 2 + 35 + uint rid))
          (Some (int (be_nat R))) (Some (int (be_nat S)))))))) \<and>
     unsigned_of args = Some tx \<and> (rid = 0 \<or> rid = 1) \<and> length R = 32 \<and> length S = 32 \<and>
     recovers L k (SigningHash (rv_keccak E) tx (Some c)) rid R S"
  by (rule sign_transaction_served [OF assms])

section \<open>A running instance\<close>

definition route_sign_evm :: "('sk, 'pk, 'sg) curve \<Rightarrow> storage_io \<Rightarrow> cp_client \<Rightarrow> backend transport" where
  "route_sign_evm L io c b q =
     (let name = trim_prefix (cp_address c @ ''/v1/'' @ cp_mount c @ ''/sign-evm/'') (hq_url q); body = the (hq_body q)
      in case (json_text (json_get ''hash'' body), (case json_get ''chain_id'' body of JNumber t \<Rightarrow> int_literal t | _ \<Rightarrow> None)) of
        (Some hash, Some chain) \<Rightarrow>
          (case pathSignEVMWrite L io b name hash chain of
             (b', Inr (EvmResponse v r s vi pk a)) \<Rightarrow> (b', Reply 200 (Some (JObject [(''data'', evm_data v r s vi pk a)])))
           | (b', _) \<Rightarrow> (b', Reply 400 None))
      | _ \<Rightarrow> (b, Reply 400 None))"

lemma route_serves: "serves_sign_evm L io (route_sign_evm L io c) c"
proof -
  have "trim_prefix (cp_address c @ ''/v1/'' @ cp_mount c @ ''/sign-evm/'')
      (cp_address c @ ''/v1/'' @ cp_mount c @ ''/sign-evm/'' @ name) = name" for name
    using trim_prefix_append [of "cp_address c @ ''/v1/'' @ cp_mount c @ ''/sign-evm/''" name]
    by (simp only: append_assoc)
  then show ?thesis
    unfolding serves_sign_evm_def evm_request_def route_sign_evm_def
    by (simp only: Let_def http_request.simps option.sel)
      (simp add: json_get_def same_field_def fold_char_def)
qed

definition e2e_address :: bytes where
  "e2e_address = replicate 20 1"

definition e2e_row :: key_row where
  "e2e_row = \<lparr>ky_ID = 7, ky_OrgID = 2, ky_NamespaceID = 4, ky_Name = ''n'', ky_PublicKey = [], ky_Address = [],
     ky_EthAddress = Some (EncodeAddress e2e_address), ky_NetworkType = ''all'', ky_Algorithm = ''secp256k1'', ky_BaoKeyPath = ''k'',
     ky_Exportable = False, ky_Metadata = [], ky_Version = 1, ky_Deleted = False\<rparr>"

definition e2e_env :: "backend rpc_env" where
  "e2e_env = \<lparr>rv_http = route_sign_evm toy_curve no_faults (NewClient ''bao'' ''t'' []), rv_client = NewClient ''bao'' ''t'' [],
     rv_keccak = \<lambda>_. replicate 32 7, rv_db_fails = False, rv_rows = [e2e_row]\<rparr>"

definition e2e_entry :: keyEntry where
  "e2e_entry = \<lparr>PrivateKey = replicate 32 3, PublicKey = [], PublicKeyUncompressed = [], Exportable = False, CreatedAt = 0,
     Imported = True\<rparr>"

definition e2e_backend :: backend where
  "e2e_backend = Factory [key_path ''k'' \<mapsto> Stored e2e_entry]"

lemma e2e_setup:
  "\<And>x. length (rv_keccak e2e_env x) = 32" "cx_org example_ctx \<noteq> 0" "holds_scope example_ctx ''keys:sign''"
  "resolveKey example_ctx (rv_db_fails e2e_env) (rv_rows e2e_env) (cx_org example_ctx) (EncodeAddress e2e_address) = Inr e2e_row"
  by (simp_all add: e2e_env_def example_ctx_def apikey_context_def holds_scope_def resolveKey_def GetByEthAddress_def
      e2e_row_def AllowsKey_def)

lemma e2e_ready:
  "signing_ready toy_curve no_faults e2e_env e2e_backend e2e_row (lib_priv_from_bytes toy_curve (replicate 32 3))"
  unfolding signing_ready_def
  using route_serves coherent_Factory
  by (simp add: e2e_env_def e2e_row_def e2e_backend_def e2e_entry_def Factory_def ParsePrivateKey_def)

theorem personal_sign_recovers_witness:
  "\<exists>b' sig pk. HandlePersonalSign e2e_env example_ctx e2e_backend
       (Some (JArray [JString (EncodeBytes [1, 2]), JString (EncodeAddress e2e_address)])) = (b', Inr (JString (EncodeBytes sig))) \<and>
     RecoverPubKeyFromSignature toy_curve (replicate 32 7) sig None = Inr pk"
  using personal_sign_recovers [OF toy_curve_ok toy_recover_ok e2e_setup e2e_ready DecodeBytes_Encode [of "[1, 2]"]]
  by (auto simp: HashPersonalMessage_def e2e_env_def)

definition e2e_tx :: jsonv where
  "e2e_tx = JArray [JObject [(''from'', JString (EncodeAddress e2e_address)), (''gas'', JString (EncodeUint64 21000)),
     (''gasPrice'', JString (EncodeBig (Some 1))), (''nonce'', JString (EncodeUint64 0)),
     (''chainId'', JString (EncodeBig (Some 8453)))]]"

definition e2e_args :: TransactionArgs where
  "e2e_args = \<lparr>arg_From = Some e2e_address, arg_To = None, arg_Gas = Some 21000, arg_GasPrice = Some 1, arg_MaxFeePerGas = None,
     arg_MaxPriorityFeePerGas = None, arg_Value = None, arg_Nonce = Some 0, arg_Data = None, arg_Input = None,
     arg_ChainID = Some 8453, arg_AccessList = []\<rparr>"

lemma e2e_tx_decodes: "Option.bind (Some e2e_tx) (json_slice decode_args) = Some [e2e_args]"
proof -
  have "Address_UnmarshalJSON (JString (EncodeAddress e2e_address)) = Inr e2e_address"
    using DecodeAddress_Encode [of e2e_address] by (simp add: Address_UnmarshalJSON_def e2e_address_def)
  moreover have "Uint64_UnmarshalJSON (JString (EncodeUint64 x)) = Inr x" for x
    using DecodeUint64_Encode by (simp add: Uint64_UnmarshalJSON_def)
  moreover have "Big_UnmarshalJSON (JString (EncodeBig (Some x))) = Inr x" for x
    using DecodeBig_Encode by (simp add: Big_UnmarshalJSON_def)
  ultimately show ?thesis
    by (simp add: e2e_tx_def e2e_args_def decode_args_def ptr_field_def slice_field_def fields_of_def same_field_def fold_char_def)
qed

theorem signed_transaction_end_to_end_witness:
  "\<exists>b' tx rid R S. EthSignTransaction e2e_env example_ctx e2e_backend (Some e2e_tx) = (b', Inr (JString (EncodeBytes (EncodeRLP
       (WithSignature tx (Some (8453 * 2 + 35 + uint (rid :: byte))) (Some (int (be_nat R))) (Some (int (be_nat S)))))))) \<and>
     unsigned_of e2e_args = Some tx \<and> length R = 32 \<and> length S = 32"
proof -
  have a: "Args_Validate e2e_args = None" "arg_ChainID e2e_args = Some 8453" "\<not> IsEIP1559 e2e_args"
    by (simp_all add: Args_Validate_def e2e_args_def IsEIP1559_def)
  have f: "resolveKey example_ctx (rv_db_fails e2e_env) (rv_rows e2e_env) (cx_org example_ctx)
      (EncodeAddress (the (arg_From e2e_args))) = Inr e2e_row"
    using e2e_setup(4) by (simp add: e2e_args_def)
  have c: "(0 :: int) < 8453" "(8453 :: int) * 2 + 36 < 2 ^ 63" by simp_all
  show ?thesis
    using signed_transaction_end_to_end [OF toy_curve_ok toy_recover_ok e2e_setup(1-3) e2e_tx_decodes a(1) f e2e_ready a(2) c]
    unfolding if_not_P [OF a(3)] by blast
qed

section \<open>Exporting through the control plane\<close>

text \<open>\<open>ExportKey\<close> of \<open>openbao/client.go\<close>: the string \<open>private_key\<close> of the data.\<close>

definition cp_export_request :: "cp_client \<Rightarrow> string \<Rightarrow> http_request" where
  "cp_export_request c uid = \<lparr>hq_method = ''GET'',
     hq_url = cp_address c @ ''/v1/'' @ cp_mount c @ ''/export/'' @ uid, hq_token = cp_token c, hq_namespace = None,
     hq_body = None\<rparr>"

definition cp_ExportKey :: "'w transport \<Rightarrow> cp_client \<Rightarrow> string \<Rightarrow> 'w \<Rightarrow> 'w \<times> (string + string)" where
  "cp_ExportKey http c uid w =
     (case http w (cp_export_request c uid) of
        (w', NoReply) \<Rightarrow> (w', Inl ''request failed'')
      | (w', Reply status body) \<Rightarrow>
          (w', if status \<noteq> 200 then Inl (''OpenBao error (status '' @ dec_of_nat status @ '')'')
               else of_option ''failed to parse response''
                 (Option.bind (json_data body) (\<lambda>d. json_text (json_get ''private_key'' d)))))"

text \<open>The data of the plugin's export handler in \<open>path_export.go\<close>.\<close>

definition export_data :: "(nat \<Rightarrow> string) \<Rightarrow> key_info \<Rightarrow> string \<Rightarrow> jsonv" where
  "export_data fmt i key = JObject [(''address'', JString (ki_address i)), (''created_at'', JString (fmt (ki_created_at i))),
     (''imported'', JBool (ki_imported i = Some True)), (''keys'', JObject [(''1'', JString key)]), (''name'', JString (ki_name i)),
     (''public_key'', JString (ki_public_key i))]"

definition serves_export ::
  "('sk, 'pk, 'sg) curve \<Rightarrow> storage_io \<Rightarrow> (nat \<Rightarrow> string) \<Rightarrow> backend transport \<Rightarrow> cp_client \<Rightarrow> bool" where
  "serves_export L io fmt http c \<longleftrightarrow> (\<forall>b name b' i key.
     pathKeyExport L io b name = (b', Inr (ExportResponse i key)) \<longrightarrow>
     http b (cp_export_request c name) = (b', Reply 200 (Some (JObject [(''data'', export_data fmt i key)]))))"

text \<open>
  Exporting an exportable key through the control plane succeeds with the empty string: the plugin
  sends the private key as version 1 in \<open>keys\<close>, where the client library finds it, and the control plane
  reads a field \<open>private_key\<close> that is not there.
\<close>

lemma control_plane_export_is_empty:
  assumes "serves_export L io fmt http c" "coherent b" "reads_work io" "name \<noteq> []"
    and "storage b (key_path name) = Some (Stored e)" "Exportable e" "time_of (fmt (CreatedAt e)) = Some t"
  shows "snd (cp_ExportKey http c name b) = Inr [] \<and>
     (\<exists>b' body i. http b (cp_export_request c name) = (b', Reply 200 body) \<and>
        exported_of time_of body = Inr (b64_encode (PrivateKey e), i))"
proof -
  obtain b' where g: "getKey io b name = (b', Inr (Some e))"
    using getKey_Some_ok [OF assms(2,5,3)] by (metis prod.collapse)
  then obtain i where x: "pathKeyExport L io b name = (b', Inr (ExportResponse i (b64_encode (PrivateKey e))))"
    "ki_created_at i = CreatedAt e"
    using assms(4,6) by (simp add: pathKeyExport_def with_key_def)
  then have h: "http b (cp_export_request c name) =
      (b', Reply 200 (Some (JObject [(''data'', export_data fmt i (b64_encode (PrivateKey e)))])))"
    using assms(1) unfolding serves_export_def by blast
  note json = json_data_def json_get_def same_field_def fold_char_def export_data_def
  have "snd (cp_ExportKey http c name b) = Inr []"
    using h by (simp add: cp_ExportKey_def json)
  moreover have "\<exists>j. exported_of time_of (Some (JObject [(''data'', export_data fmt i (b64_encode (PrivateKey e)))])) =
      Inr (b64_encode (PrivateKey e), j)"
    using assms(7) x(2) by (simp add: exported_of_def json json_time_def)
  ultimately show ?thesis using h by blast
qed

definition route_export :: "('sk, 'pk, 'sg) curve \<Rightarrow> storage_io \<Rightarrow> (nat \<Rightarrow> string) \<Rightarrow> cp_client \<Rightarrow> backend transport" where
  "route_export L io fmt c b q =
     (case pathKeyExport L io b (trim_prefix (cp_address c @ ''/v1/'' @ cp_mount c @ ''/export/'') (hq_url q)) of
        (b', Inr (ExportResponse i key)) \<Rightarrow> (b', Reply 200 (Some (JObject [(''data'', export_data fmt i key)])))
      | (b', _) \<Rightarrow> (b', Reply 400 None))"

lemma route_serves_export: "serves_export L io fmt (route_export L io fmt c) c"
proof -
  have "trim_prefix (cp_address c @ ''/v1/'' @ cp_mount c @ ''/export/'')
      (cp_address c @ ''/v1/'' @ cp_mount c @ ''/export/'' @ name) = name" for name
    using trim_prefix_append [of "cp_address c @ ''/v1/'' @ cp_mount c @ ''/export/''" name]
    by (simp only: append_assoc)
  then show ?thesis
    unfolding serves_export_def cp_export_request_def route_export_def
    by (simp only: http_request.simps) simp
qed

theorem control_plane_export_is_empty_witness:
  "snd (cp_ExportKey (route_export toy_curve no_faults (\<lambda>_. ''t'') (NewClient ''bao'' ''t'' [])) (NewClient ''bao'' ''t'' []) ''k''
     (Factory [key_path ''k'' \<mapsto> Stored (e2e_entry\<lparr>Exportable := True\<rparr>)])) = Inr []"
  by (rule control_plane_export_is_empty [OF route_serves_export coherent_Factory no_faults_work(1),
      where e = "e2e_entry\<lparr>Exportable := True\<rparr>" and time_of = "\<lambda>_. Some 0" and t = 0, THEN conjunct1])
    (simp_all add: Factory_def)

end
