(* ===== verification/CpBao.thy ===== *)
theory CpBao
  imports EthRpc
begin

text \<open>
  The rest of the control plane's OpenBao client, \<open>openbao/client.go\<close>: creating, importing,
  signing with, deleting and describing a key of the plugin, the secrets of the KV store, and the
  decompression of public keys it derives Ethereum addresses with when the plugin sends none.
  Requests go through the transport of the client library; Keccak-256 is a parameter.
\<close>

section \<open>Decompression of public keys\<close>

definition secp_p :: nat where
  "secp_p = 2 ^ 256 - 2 ^ 32 - 977"

fun pow_mod :: "nat \<Rightarrow> nat \<Rightarrow> nat \<Rightarrow> nat" where
  "pow_mod m b e =
     (if e = 0 then 1 mod m
      else if even e then pow_mod m (b * b mod m) (e div 2)
      else b * pow_mod m (b * b mod m) (e div 2) mod m)"

declare pow_mod.simps [simp del]

text \<open>\<open>big.Int.ModSqrt\<close> for a prime that is 3 modulo 4, as the field prime is.\<close>

definition mod_sqrt :: "nat \<Rightarrow> nat \<Rightarrow> nat option" where
  "mod_sqrt x p = (let y = pow_mod p x ((p + 1) div 4) in if y * y mod p = x mod p then Some y else None)"

text \<open>The root whose parity the prefix names: even for 2, odd otherwise.\<close>

definition choose_root :: "byte \<Rightarrow> nat \<Rightarrow> nat" where
  "choose_root prefix y =
     (if prefix = 2 then (if odd y then secp_p - y else y) else (if even y then secp_p - y else y))"

definition UnmarshalCompressed :: "bytes \<Rightarrow> (nat \<times> nat) option" where
  "UnmarshalCompressed data =
     (if length data \<noteq> 33 \<or> (data ! 0 \<noteq> 2 \<and> data ! 0 \<noteq> 3) then None
      else let x = be_nat (drop 1 data); x3 = (x * x * x) mod secp_p; y2 = (x3 + 7) mod secp_p in
        map_option (\<lambda>y. (x, choose_root (data ! 0) y)) (mod_sqrt y2 secp_p))"

definition decompressSecp256k1PubKey :: "bytes \<Rightarrow> bytes option" where
  "decompressSecp256k1PubKey compressed =
     (case UnmarshalCompressed compressed of
        None \<Rightarrow> None
      | Some (x, y) \<Rightarrow>
          Option.bind (pad_left 32 (nat_be x)) (\<lambda>xs.
          Option.bind (pad_left 32 (nat_be y)) (\<lambda>ys. Some (4 # xs @ ys))))"

definition deriveEthAddressFromPubKey :: "(bytes \<Rightarrow> bytes) \<Rightarrow> bytes \<Rightarrow> string option" where
  "deriveEthAddressFromPubKey keccak compressed =
     (if length compressed \<noteq> 33 then None
      else if compressed ! 0 \<noteq> 2 \<and> compressed ! 0 \<noteq> 3 then None
      else case decompressSecp256k1PubKey compressed of
        None \<Rightarrow> None
      | Some uncompressed \<Rightarrow> Some (zero_x @ hex_encode (drop 12 (keccak (drop 1 uncompressed)))))"

section \<open>Replies\<close>

record keyResponse =
  kd_Name :: string
  kd_Address :: string
  kd_EthAddress :: string
  kd_PublicKey :: string
  kd_Errors :: "string list"

text \<open>
  The whole body is decoded; a field of a wrong type anywhere fails the decoding. The fields
  nobody reads are only checked for their type.
\<close>

definition decode_keyResponse :: "jsonv option \<Rightarrow> keyResponse option" where
  "decode_keyResponse body =
     Option.bind body (\<lambda>j.
     Option.bind (json_data (Some j)) (\<lambda>d.
     Option.bind (json_text (json_get ''request_id'' j)) (\<lambda>_.
     Option.bind (json_text (json_get ''name'' d)) (\<lambda>n.
     Option.bind (json_text (json_get ''address'' d)) (\<lambda>a.
     Option.bind (json_text (json_get ''eth_address'' d)) (\<lambda>e.
     Option.bind (json_text (json_get ''public_key'' d)) (\<lambda>p.
     Option.bind (json_flag (json_get ''exportable'' d)) (\<lambda>_.
     Option.bind (json_flag (json_get ''imported'' d)) (\<lambda>_.
     Option.bind (json_text (json_get ''created_at'' d)) (\<lambda>_.
     Option.bind (json_slice json_text (json_get ''errors'' j)) (\<lambda>es.
       Some \<lparr>kd_Name = n, kd_Address = a, kd_EthAddress = e, kd_PublicKey = p, kd_Errors = es\<rparr>)))))))))))"

definition status_error :: "nat \<Rightarrow> string" where
  "status_error status = ''OpenBao error (status '' @ dec_of_nat status @ '')''"

text \<open>The Ethereum address of the reply, or the one derived from the public key.\<close>

definition reply_eth :: "(bytes \<Rightarrow> bytes) \<Rightarrow> keyResponse \<Rightarrow> bytes \<Rightarrow> string" where
  "reply_eth keccak r pubKey =
     (if kd_EthAddress r = [] \<and> length pubKey = 33
      then case deriveEthAddressFromPubKey keccak pubKey of None \<Rightarrow> kd_EthAddress r | Some a \<Rightarrow> a
      else kd_EthAddress r)"

definition key_of_reply :: "(bytes \<Rightarrow> bytes) \<Rightarrow> bool \<Rightarrow> jsonv option \<Rightarrow> string + (keyResponse \<times> bytes \<times> string)" where
  "key_of_reply keccak check_errors body =
     (case decode_keyResponse body of
        None \<Rightarrow> Inl ''failed to parse response''
      | Some r \<Rightarrow>
          if check_errors \<and> kd_Errors r \<noteq> [] then Inl ''OpenBao error''
          else case hex_decode (kd_PublicKey r) of
            None \<Rightarrow> Inl ''failed to decode public key''
          | Some pubKey \<Rightarrow> Inr (r, pubKey, reply_eth keccak r pubKey))"

section \<open>The operations\<close>

definition cp_request :: "cp_client \<Rightarrow> string \<Rightarrow> string \<Rightarrow> jsonv option \<Rightarrow> http_request" where
  "cp_request c method path body = \<lparr>hq_method = method, hq_url = cp_address c @ ''/v1/'' @ path, hq_token = cp_token c,
     hq_namespace = None, hq_body = body\<rparr>"

definition keys_path :: "cp_client \<Rightarrow> string \<Rightarrow> string" where
  "keys_path c uid = cp_mount c @ ''/keys/'' @ uid"

definition cp_NewAccountWithOptions ::
  "'w transport \<Rightarrow> cp_client \<Rightarrow> (bytes \<Rightarrow> bytes) \<Rightarrow> string \<Rightarrow> bool \<Rightarrow> 'w \<Rightarrow> 'w \<times> (string + (bytes \<times> string \<times> string))" where
  "cp_NewAccountWithOptions http c keccak uid exportable w =
     (case http w (cp_request c ''POST'' (keys_path c uid) (Some (JObject [(''exportable'', JBool exportable)]))) of
        (w', NoReply) \<Rightarrow> (w', Inl ''request failed'')
      | (w', Reply status body) \<Rightarrow>
          (w', if status \<noteq> 200 \<and> status \<noteq> 204 then Inl (status_error status)
               else case key_of_reply keccak True body of
                 Inl e \<Rightarrow> Inl e
               | Inr (r, pubKey, eth) \<Rightarrow> Inr (pubKey, kd_Address r, eth)))"

definition cp_ImportKey ::
  "'w transport \<Rightarrow> cp_client \<Rightarrow> (bytes \<Rightarrow> bytes) \<Rightarrow> string \<Rightarrow> string \<Rightarrow> bool \<Rightarrow> 'w \<Rightarrow>
     'w \<times> (string + (bytes \<times> string \<times> string))" where
  "cp_ImportKey http c keccak uid ciphertext exportable w =
     (case http w (cp_request c ''POST'' (keys_path c uid @ ''/import'')
          (Some (JObject [(''ciphertext'', JString ciphertext), (''exportable'', JBool exportable)]))) of
        (w', NoReply) \<Rightarrow> (w', Inl ''request failed'')
      | (w', Reply status body) \<Rightarrow>
          (w', if status \<noteq> 200 then Inl (status_error status)
               else case key_of_reply keccak False body of
                 Inl e \<Rightarrow> Inl e
               | Inr (r, pubKey, eth) \<Rightarrow> Inr (pubKey, kd_Address r, eth)))"

definition cp_GetMetadata ::
  "'w transport \<Rightarrow> cp_client \<Rightarrow> (bytes \<Rightarrow> bytes) \<Rightarrow> string \<Rightarrow> 'w \<Rightarrow>
     'w \<times> (string + (string \<times> bytes \<times> string \<times> string) option)" where
  "cp_GetMetadata http c keccak uid w =
     (case http w (cp_request c ''GET'' (keys_path c uid) None) of
        (w', NoReply) \<Rightarrow> (w', Inl ''request failed'')
      | (w', Reply status body) \<Rightarrow>
          (w', if status = 404 then Inr None
               else if status \<noteq> 200 then Inl (status_error status)
               else case key_of_reply keccak False body of
                 Inl e \<Rightarrow> Inl e
               | Inr (r, pubKey, eth) \<Rightarrow> Inr (Some (kd_Name r, pubKey, kd_Address r, eth))))"

text \<open>A 404 counts as deleted.\<close>

definition cp_Delete :: "'w transport \<Rightarrow> cp_client \<Rightarrow> string \<Rightarrow> 'w \<Rightarrow> 'w \<times> string option" where
  "cp_Delete http c uid w =
     (case http w (cp_request c ''DELETE'' (keys_path c uid) None) of
        (w', NoReply) \<Rightarrow> (w', Some ''request failed'')
      | (w', Reply status body) \<Rightarrow>
          (w', if status \<noteq> 200 \<and> status \<noteq> 204 \<and> status \<noteq> 404 then Some (status_error status) else None))"

definition decode_signResponse :: "jsonv option \<Rightarrow> (string \<times> string) option" where
  "decode_signResponse body =
     Option.bind body (\<lambda>j.
     Option.bind (json_data (Some j)) (\<lambda>d.
     Option.bind (json_text (json_get ''request_id'' j)) (\<lambda>_.
     Option.bind (json_text (json_get ''signature'' d)) (\<lambda>s.
     Option.bind (json_text (json_get ''public_key'' d)) (\<lambda>p.
     Option.bind (json_slice json_text (json_get ''errors'' j)) (\<lambda>_. Some (s, p)))))))"

definition cp_Sign ::
  "'w transport \<Rightarrow> cp_client \<Rightarrow> string \<Rightarrow> bytes \<Rightarrow> bool \<Rightarrow> 'w \<Rightarrow> 'w \<times> (string + (bytes \<times> bytes))" where
  "cp_Sign http c uid msg prehashed w =
     (case http w (cp_request c ''POST'' (cp_mount c @ ''/sign/'' @ uid)
          (Some (JObject [(''input'', JString (b64_encode msg)), (''prehashed'', JBool prehashed)]))) of
        (w', NoReply) \<Rightarrow> (w', Inl ''request failed'')
      | (w', Reply status body) \<Rightarrow>
          (w', if status \<noteq> 200 then Inl (status_error status)
               else case decode_signResponse body of
                 None \<Rightarrow> Inl ''failed to parse response''
               | Some (s, p) \<Rightarrow>
                   if s = [] then Inl ''empty signature returned''
                   else case b64_decode s of
                     None \<Rightarrow> Inl ''failed to decode signature''
                   | Some sig \<Rightarrow>
                       (case hex_decode p of
                          None \<Rightarrow> Inl ''failed to decode public key''
                        | Some pubKey \<Rightarrow> Inr (sig, pubKey))))"

definition HealthCheck :: "'w transport \<Rightarrow> cp_client \<Rightarrow> 'w \<Rightarrow> 'w \<times> string option" where
  "HealthCheck http c w =
     (case http w ((cp_request c ''GET'' ''sys/health'' None)\<lparr>hq_token := []\<rparr>) of
        (w', NoReply) \<Rightarrow> (w', Some ''request failed'')
      | (w', Reply status body) \<Rightarrow>
          (w', if status = 200 \<or> status = 429 \<or> status = 472 \<or> status = 473 then None
               else Some ''OpenBao unhealthy''))"

section \<open>Secrets\<close>

definition decode_object :: "jsonv \<Rightarrow> (string \<times> jsonv) list option" where
  "decode_object j = (case j of JNull \<Rightarrow> Some [] | JObject kvs \<Rightarrow> Some kvs | _ \<Rightarrow> None)"

text \<open>The metadata and the errors of a KV reply are only checked for their types.\<close>

definition decode_kvResponse :: "jsonv option \<Rightarrow> ((string \<times> jsonv) list \<times> string list) option" where
  "decode_kvResponse body =
     Option.bind body (\<lambda>j.
     Option.bind (json_data (Some j)) (\<lambda>d.
     Option.bind (json_text (json_get ''request_id'' j)) (\<lambda>_.
     Option.bind (decode_object (json_get ''data'' d)) (\<lambda>kvs.
     if \<not> is_struct (json_get ''metadata'' d) then None else
     (let m = json_get ''metadata'' d in
     Option.bind (json_text (json_get ''created_time'' m)) (\<lambda>_.
     Option.bind (json_int64 (json_get ''version'' m)) (\<lambda>_.
     Option.bind (json_flag (json_get ''destroyed'' m)) (\<lambda>_.
     Option.bind (json_text (json_get ''deletion_time'' m)) (\<lambda>_.
     Option.bind (json_slice json_text (json_get ''errors'' j)) (\<lambda>es. Some (kvs, es)))))))))))"

definition ReadKVSecret ::
  "'w transport \<Rightarrow> cp_client \<Rightarrow> string \<Rightarrow> 'w \<Rightarrow> 'w \<times> (string + (string \<times> jsonv) list option)" where
  "ReadKVSecret http c path w =
     (case http w (cp_request c ''GET'' (''secret/data/'' @ path) None) of
        (w', NoReply) \<Rightarrow> (w', Inl ''request failed'')
      | (w', Reply status body) \<Rightarrow>
          (w', if status = 404 then Inr None
               else if status \<noteq> 200 then Inl (status_error status)
               else case decode_kvResponse body of
                 None \<Rightarrow> Inl ''failed to parse response''
               | Some (kvs, es) \<Rightarrow> if es \<noteq> [] then Inl ''OpenBao error'' else Inr (Some kvs)))"

definition WriteKVSecret ::
  "'w transport \<Rightarrow> cp_client \<Rightarrow> string \<Rightarrow> (string \<times> jsonv) list \<Rightarrow> 'w \<Rightarrow> 'w \<times> string option" where
  "WriteKVSecret http c path data w =
     (case http w (cp_request c ''POST'' (''secret/data/'' @ path) (Some (JObject [(''data'', JObject data)]))) of
        (w', NoReply) \<Rightarrow> (w', Some ''request failed'')
      | (w', Reply status body) \<Rightarrow>
          (w', if status \<noteq> 200 \<and> status \<noteq> 204 then Some (status_error status) else None))"

definition DeleteKVSecret :: "'w transport \<Rightarrow> cp_client \<Rightarrow> string \<Rightarrow> 'w \<Rightarrow> 'w \<times> string option" where
  "DeleteKVSecret http c path w =
     (case http w (cp_request c ''DELETE'' (''secret/data/'' @ path) None) of
        (w', NoReply) \<Rightarrow> (w', Some ''request failed'')
      | (w', Reply status body) \<Rightarrow>
          (w', if status \<noteq> 200 \<and> status \<noteq> 204 \<and> status \<noteq> 404 then Some (status_error status) else None))"

section \<open>What a decompressed key is\<close>

lemma secp_p_facts: "odd secp_p" "0 < secp_p" "secp_p < 2 ^ 256"
  by (simp_all add: secp_p_def)

lemma square_negated:
  assumes "y \<le> p"
  shows "(p - y) * (p - y) mod p = y * y mod (p :: nat)"
proof -
  have "int ((p - y) * (p - y)) = (int p - int y) * (int p - int y)" using assms by (simp add: of_nat_diff)
  also have "\<dots> mod int p = (int y * int y) mod int p"
    by (simp add: mod_eq_dvd_iff algebra_simps)
  finally have "int ((p - y) * (p - y) mod p) = int (y * y mod p)" by (simp add: zmod_int)
  then show ?thesis by simp
qed

lemma pow_mod_less: "0 < m \<Longrightarrow> pow_mod m b e < m"
proof (induction m b e rule: pow_mod.induct)
  case (1 m b e)
  then show ?case by (subst pow_mod.simps) auto
qed

lemma mod_sqrt_Some:
  assumes "mod_sqrt x p = Some y" "0 < p"
  shows "y < p \<and> y * y mod p = x mod p"
  using assms pow_mod_less [OF assms(2)] by (auto simp: mod_sqrt_def Let_def split: if_splits)

lemma UnmarshalCompressed_Some:
  assumes "UnmarshalCompressed k = Some (x, y)"
  shows "length k = 33 \<and> (k ! 0 = 2 \<or> k ! 0 = 3) \<and> x = be_nat (drop 1 k) \<and> y \<le> secp_p \<and>
    y * y mod secp_p = (x * x * x + 7) mod secp_p \<and> (odd y \<longleftrightarrow> k ! 0 = 3)"
proof -
  let ?x = "be_nat (drop 1 k)"
  have k: "length k = 33" "k ! 0 = 2 \<or> k ! 0 = 3"
    using assms by (auto simp: UnmarshalCompressed_def split: if_splits)
  then obtain y0 where y0: "mod_sqrt ((?x * ?x * ?x mod secp_p + 7) mod secp_p) secp_p = Some y0" "x = ?x"
    "y = choose_root (k ! 0) y0"
    using assms by (auto simp: UnmarshalCompressed_def Let_def)
  have s: "y0 < secp_p" "y0 * y0 mod secp_p = (?x * ?x * ?x + 7) mod secp_p"
    using mod_sqrt_Some [OF y0(1) secp_p_facts(2)] by (simp_all add: mod_simps)
  have "y * y mod secp_p = y0 * y0 mod secp_p"
    using y0(3) s(1) square_negated [of y0 secp_p] by (auto simp: choose_root_def)
  moreover have "odd y \<longleftrightarrow> k ! 0 = 3"
    using y0(3) s(1) k(2) secp_p_facts(1) by (auto simp: choose_root_def)
  moreover have "y \<le> secp_p" using y0(3) s(1) by (simp add: choose_root_def)
  ultimately show ?thesis using s y0 k by auto
qed

lemma pad_left_be_nat: "length xs = n \<Longrightarrow> pad_left n (nat_be (be_nat xs)) = Some xs"
proof -
  assume n: "length xs = n"
  then have "be_nat xs < 256 ^ n" using be_nat_less [of xs] by simp
  then obtain p where "pad_left n (nat_be (be_nat xs)) = Some p" "length p = n" "be_nat p = be_nat xs"
    using pad_left_nat_be by blast
  then show ?thesis using be_nat_inj [of p xs] n by simp
qed

text \<open>
  A compressed public key is expanded to 65 bytes: the marker 4, the same x and a y such that the point
  is on the curve modulo the field prime and the parity of y is the one the prefix names; only 33 bytes with
  the prefix 2 or 3 are expanded. (The x of the key is not reduced and may exceed the prime.)
\<close>

lemma decompressed_key_on_curve:
  "case decompressSecp256k1PubKey k of
     None \<Rightarrow> UnmarshalCompressed k = None
   | Some u \<Rightarrow> length k = 33 \<and> length u = 65 \<and> u ! 0 = 4 \<and> take 32 (drop 1 u) = drop 1 k \<and>
       (let x = be_nat (drop 1 k); y = be_nat (drop 33 u)
        in y * y mod secp_p = (x * x * x + 7) mod secp_p \<and> (odd y \<longleftrightarrow> k ! 0 = 3))"
proof (cases "UnmarshalCompressed k")
  case None
  then show ?thesis by (simp add: decompressSecp256k1PubKey_def)
next
  case (Some xy)
  obtain x y where xy: "UnmarshalCompressed k = Some (x, y)" using Some by (cases xy) simp
  note u = UnmarshalCompressed_Some [OF xy]
  have "y < 256 ^ 32" using u secp_p_facts(3) by simp
  then obtain ys where y: "pad_left 32 (nat_be y) = Some ys" "length ys = 32" "be_nat ys = y"
    using pad_left_nat_be by blast
  have x: "pad_left 32 (nat_be x) = Some (drop 1 k)" using pad_left_be_nat [of "drop 1 k" 32] u by simp
  then have "decompressSecp256k1PubKey k = Some (4 # drop 1 k @ ys)"
    using xy y(1) by (simp add: decompressSecp256k1PubKey_def)
  then show ?thesis using u y by (simp add: Let_def)
qed

end
