(* ===== verification/KeyService.thy ===== *)
theory KeyService
  imports CpAccess GoJson Schedules
begin

text \<open>
  The key service of the control plane, \<open>service/key_service.go\<close>, over the key table and the
  other queries it makes (\<open>repository/key_repo.go\<close>, \<open>org_repo.go\<close>, \<open>usage_repo.go\<close>) and the plan
  limits of \<open>models/organization.go\<close>. OpenBao is behind the interface
  \<open>BaoKeyringInterface\<close>, a record of functions on a state of its own, whose contract is the
  locale \<open>bao_keyring\<close>. Every query may fail (a predicate \<open>f\<close> on the queries of a call). The usage
  counter is increased by a goroutine: it is put into \<open>db_pending\<close> and \<open>settle_usage\<close> runs it.
  Audit records and timestamps have no counterpart; a new row gets its UUID as an argument.
\<close>

section \<open>The interface to OpenBao\<close>

record 'w keyring =
  bk_New :: "string \<Rightarrow> bool \<Rightarrow> 'w \<Rightarrow> 'w \<times> (string + (bytes \<times> string \<times> string))"
  bk_Import :: "string \<Rightarrow> string \<Rightarrow> bool \<Rightarrow> 'w \<Rightarrow> 'w \<times> (string + (bytes \<times> string \<times> string))"
  bk_Sign :: "string \<Rightarrow> bytes \<Rightarrow> bool \<Rightarrow> 'w \<Rightarrow> 'w \<times> (string + (bytes \<times> bytes))"
  bk_Delete :: "string \<Rightarrow> 'w \<Rightarrow> 'w \<times> string option"
  bk_Export :: "string \<Rightarrow> 'w \<Rightarrow> 'w \<times> (string + string)"

section \<open>Plans, rows and queries\<close>

record PlanLimits =
  pl_Keys :: int
  pl_SignaturesPerMonth :: int
  pl_Namespaces :: int
  pl_TeamMembers :: int
  pl_AuditRetentionDays :: int

definition PlanLimitsMap :: "string \<rightharpoonup> PlanLimits" where
  "PlanLimitsMap =
     [''free'' \<mapsto> \<lparr>pl_Keys = 3, pl_SignaturesPerMonth = 10000, pl_Namespaces = 1, pl_TeamMembers = 1, pl_AuditRetentionDays = 7\<rparr>,
      ''pro'' \<mapsto> \<lparr>pl_Keys = 25, pl_SignaturesPerMonth = 500000, pl_Namespaces = 5, pl_TeamMembers = 10, pl_AuditRetentionDays = 90\<rparr>,
      ''enterprise'' \<mapsto> \<lparr>pl_Keys = - 1, pl_SignaturesPerMonth = - 1, pl_Namespaces = - 1, pl_TeamMembers = - 1,
         pl_AuditRetentionDays = 365\<rparr>]"

definition GetPlanLimits :: "string \<Rightarrow> PlanLimits" where
  "GetPlanLimits plan = (case PlanLimitsMap plan of Some l \<Rightarrow> l | None \<Rightarrow> the (PlanLimitsMap ''free''))"

record keydb =
  db_keys :: "key_row list"
  db_plans :: "uuid \<rightharpoonup> string"           \<comment> \<open>the organizations and their plans\<close>
  db_namespaces :: "uuid \<rightharpoonup> uuid"       \<comment> \<open>the namespaces and their organizations\<close>
  db_usage :: "uuid \<Rightarrow> int"             \<comment> \<open>signatures in the current period\<close>
  db_pending :: "uuid list"             \<comment> \<open>increments not yet run\<close>

datatype query = GetOrg | GetNamespace | GetKeyRow | CountKeys | InsertKey | SoftDeleteKey | GetUsage | ListKeys

type_synonym query_faults = "query \<Rightarrow> bool"

definition live_of :: "uuid \<Rightarrow> key_row \<Rightarrow> bool" where
  "live_of orgID k \<longleftrightarrow> ky_OrgID k = orgID \<and> \<not> ky_Deleted k"

definition GetByID :: "keydb \<Rightarrow> uuid \<Rightarrow> key_row option" where
  "GetByID db keyID = find (\<lambda>k. ky_ID k = keyID) (db_keys db)"

definition CountByOrg :: "keydb \<Rightarrow> uuid \<Rightarrow> int" where
  "CountByOrg db orgID = int (length (filter (live_of orgID) (db_keys db)))"

text \<open>The two partial unique indexes of the migrations and the primary key.\<close>

definition clashes :: "key_row \<Rightarrow> key_row \<Rightarrow> bool" where
  "clashes k k' \<longleftrightarrow> ky_ID k = ky_ID k' \<or>
     \<not> ky_Deleted k' \<and> ky_OrgID k = ky_OrgID k' \<and>
       (ky_NamespaceID k = ky_NamespaceID k' \<and> ky_Name k = ky_Name k' \<or>
        ky_EthAddress k \<noteq> None \<and> ky_EthAddress k \<noteq> Some [] \<and> ky_EthAddress k = ky_EthAddress k')"

definition repo_Create :: "query_faults \<Rightarrow> key_row \<Rightarrow> keydb \<Rightarrow> keydb option" where
  "repo_Create f k db =
     (let k' = (if ky_Version k = 0 then k\<lparr>ky_Version := 1\<rparr> else k)
      in if f InsertKey \<or> list_ex (clashes k') (db_keys db) then None
         else Some (db\<lparr>db_keys := db_keys db @ [k']\<rparr>))"

definition mark_deleted :: "uuid \<Rightarrow> key_row \<Rightarrow> key_row" where
  "mark_deleted keyID k = (if ky_ID k = keyID \<and> \<not> ky_Deleted k then k\<lparr>ky_Deleted := True\<rparr> else k)"

text \<open>No row affected is an error.\<close>

definition SoftDelete :: "query_faults \<Rightarrow> uuid \<Rightarrow> keydb \<Rightarrow> keydb option" where
  "SoftDelete f keyID db =
     (if f SoftDeleteKey then None
      else if \<not> list_ex (\<lambda>k. ky_ID k = keyID \<and> \<not> ky_Deleted k) (db_keys db) then None
      else Some (db\<lparr>db_keys := map (mark_deleted keyID) (db_keys db)\<rparr>))"

definition settle_usage :: "keydb \<Rightarrow> keydb" where
  "settle_usage db = (case db_pending db of
     [] \<Rightarrow> db | org # rest \<Rightarrow> db\<lparr>db_usage := (db_usage db)(org := db_usage db org + 1), db_pending := rest\<rparr>)"

section \<open>Errors and helpers\<close>

datatype svc_error =
    SvcFailed string          \<comment> \<open>a wrapped failure\<close>
  | SvcNotFound string
  | SvcQuota
  | SvcForbidden
  | SvcInternal string

definition checkKeyQuota :: "query_faults \<Rightarrow> keydb \<Rightarrow> uuid \<Rightarrow> svc_error option" where
  "checkKeyQuota f db orgID =
     (if f GetOrg then Some (SvcFailed ''failed to get organization'')
      else case db_plans db orgID of
        None \<Rightarrow> Some (SvcNotFound ''Organization'')
      | Some plan \<Rightarrow>
          if pl_Keys (GetPlanLimits plan) < 0 then None
          else if f CountKeys then Some (SvcFailed ''failed to count keys'')
          else if CountByOrg db orgID \<ge> pl_Keys (GetPlanLimits plan) then Some SvcQuota
          else None)"

definition checkSignatureQuota :: "query_faults \<Rightarrow> keydb \<Rightarrow> uuid \<Rightarrow> svc_error option" where
  "checkSignatureQuota f db orgID =
     (if f GetOrg then Some (SvcInternal ''failed to get organization'')
      else case db_plans db orgID of
        None \<Rightarrow> Some (SvcNotFound ''Organization'')
      | Some plan \<Rightarrow>
          if pl_SignaturesPerMonth (GetPlanLimits plan) < 0 then None
          else if f GetUsage then Some (SvcInternal ''failed to get usage'')
          else if db_usage db orgID \<ge> pl_SignaturesPerMonth (GetPlanLimits plan) then Some SvcQuota
          else None)"

definition incrementUsage :: "uuid \<Rightarrow> keydb \<Rightarrow> keydb" where
  "incrementUsage orgID db = db\<lparr>db_pending := db_pending db @ [orgID]\<rparr>"

definition check_namespace :: "query_faults \<Rightarrow> keydb \<Rightarrow> uuid \<Rightarrow> uuid \<Rightarrow> svc_error option" where
  "check_namespace f db orgID nsID =
     (if f GetNamespace then Some (SvcFailed ''failed to get namespace'')
      else if db_namespaces db nsID = Some orgID then None else Some (SvcNotFound ''Namespace''))"

text \<open>\<open>%s_%s_%s\<close>; the text form of a UUID is an argument.\<close>

definition bao_key_name :: "(uuid \<Rightarrow> string) \<Rightarrow> uuid \<Rightarrow> uuid \<Rightarrow> string \<Rightarrow> string" where
  "bao_key_name ut orgID nsID name = ut orgID @ ''_'' @ ut nsID @ ''_'' @ name"

definition network_type :: "string \<Rightarrow> string" where
  "network_type t = (if t \<in> {''celestia'', ''evm'', ''all''} then t else ''all'')"

section \<open>The operations\<close>

record CreateKeyRequest =
  cr_OrgID :: uuid
  cr_NamespaceID :: uuid
  cr_Name :: string
  cr_NetworkType :: string
  cr_Exportable :: bool
  cr_Metadata :: "(string \<times> string) list"

text \<open>Everything before OpenBao is asked: the quota, then the namespace.\<close>

definition admit_key :: "query_faults \<Rightarrow> keydb \<Rightarrow> uuid \<Rightarrow> uuid \<Rightarrow> svc_error option" where
  "admit_key f db orgID nsID =
     (case checkKeyQuota f db orgID of Some e \<Rightarrow> Some e | None \<Rightarrow> check_namespace f db orgID nsID)"

definition key_record ::
  "(uuid \<Rightarrow> string) \<Rightarrow> uuid \<Rightarrow> CreateKeyRequest \<Rightarrow> bytes \<times> string \<times> string \<Rightarrow> key_row" where
  "key_record ut keyID req made = (case made of (pubKey, address, eth) \<Rightarrow>
     \<lparr>ky_ID = keyID, ky_OrgID = cr_OrgID req, ky_NamespaceID = cr_NamespaceID req, ky_Name = cr_Name req,
      ky_PublicKey = pubKey, ky_Address = address, ky_EthAddress = Some eth,
      ky_NetworkType = network_type (cr_NetworkType req), ky_Algorithm = ''secp256k1'',
      ky_BaoKeyPath = bao_key_name ut (cr_OrgID req) (cr_NamespaceID req) (cr_Name req),
      ky_Exportable = cr_Exportable req, ky_Metadata = cr_Metadata req, ky_Version = 0, ky_Deleted = False\<rparr>)"

text \<open>
  The rest of creation and import: OpenBao makes the key, then its row is inserted, and a row that
  cannot be inserted has the key deleted again, whatever that returns.
\<close>

definition make_and_record ::
  "'w keyring \<Rightarrow> query_faults \<Rightarrow> (uuid \<Rightarrow> string) \<Rightarrow> uuid \<Rightarrow> CreateKeyRequest \<Rightarrow>
     ('w \<Rightarrow> 'w \<times> (string + (bytes \<times> string \<times> string))) \<Rightarrow> 'w \<times> keydb \<Rightarrow> ('w \<times> keydb) \<times> (svc_error + key_row)" where
  "make_and_record K f ut keyID req mk = (\<lambda>(w, db).
     (case mk w of
        (w1, Inl e) \<Rightarrow> ((w1, db), Inl (SvcFailed e))
      | (w1, Inr made) \<Rightarrow>
          (let k = key_record ut keyID req made in
           case repo_Create f k db of
             None \<Rightarrow> ((fst (bk_Delete K (ky_BaoKeyPath k) w1), db), Inl (SvcFailed ''failed to save key metadata''))
           | Some db' \<Rightarrow> ((w1, db'), Inr (last (db_keys db'))))))"

definition ks_Create ::
  "'w keyring \<Rightarrow> query_faults \<Rightarrow> (uuid \<Rightarrow> string) \<Rightarrow> uuid \<Rightarrow> CreateKeyRequest \<Rightarrow> 'w \<times> keydb \<Rightarrow>
     ('w \<times> keydb) \<times> (svc_error + key_row)" where
  "ks_Create K f ut keyID req s =
     (case admit_key f (snd s) (cr_OrgID req) (cr_NamespaceID req) of
        Some e \<Rightarrow> (s, Inl e)
      | None \<Rightarrow> make_and_record K f ut keyID req
          (bk_New K (bao_key_name ut (cr_OrgID req) (cr_NamespaceID req) (cr_Name req)) (cr_Exportable req)) s)"

record ImportKeyRequest =
  im_OrgID :: uuid
  im_NamespaceID :: uuid
  im_Name :: string
  im_PrivateKey :: string
  im_Exportable :: bool

definition import_as_create :: "ImportKeyRequest \<Rightarrow> CreateKeyRequest" where
  "import_as_create req = \<lparr>cr_OrgID = im_OrgID req, cr_NamespaceID = im_NamespaceID req, cr_Name = im_Name req,
     cr_NetworkType = ''all'', cr_Exportable = im_Exportable req, cr_Metadata = []\<rparr>"

definition ks_Import ::
  "'w keyring \<Rightarrow> query_faults \<Rightarrow> (uuid \<Rightarrow> string) \<Rightarrow> uuid \<Rightarrow> ImportKeyRequest \<Rightarrow> 'w \<times> keydb \<Rightarrow>
     ('w \<times> keydb) \<times> (svc_error + key_row)" where
  "ks_Import K f ut keyID req s =
     (case admit_key f (snd s) (im_OrgID req) (im_NamespaceID req) of
        Some e \<Rightarrow> (s, Inl e)
      | None \<Rightarrow> make_and_record K f ut keyID (import_as_create req)
          (bk_Import K (bao_key_name ut (im_OrgID req) (im_NamespaceID req) (im_Name req)) (im_PrivateKey req)
             (im_Exportable req)) s)"

definition visible :: "reqctx \<Rightarrow> uuid \<Rightarrow> key_row \<Rightarrow> bool" where
  "visible cx orgID k \<longleftrightarrow> ky_OrgID k = orgID \<and> \<not> ky_Deleted k \<and> AllowsKey cx (ky_ID k)"

definition ks_Get :: "reqctx \<Rightarrow> query_faults \<Rightarrow> keydb \<Rightarrow> uuid \<Rightarrow> uuid \<Rightarrow> svc_error + key_row" where
  "ks_Get cx f db orgID keyID =
     (if f GetKeyRow then Inl (SvcFailed ''failed to get key'')
      else case GetByID db keyID of
        None \<Rightarrow> Inl (SvcNotFound ''Key'')
      | Some k \<Rightarrow> if visible cx orgID k then Inr k else Inl (SvcNotFound ''Key''))"

definition ks_List ::
  "reqctx \<Rightarrow> query_faults \<Rightarrow> keydb \<Rightarrow> uuid \<Rightarrow> uuid option \<Rightarrow> string option \<Rightarrow> svc_error + key_row list" where
  "ks_List cx f db orgID nsID networkType =
     (case (case nsID of
              Some ns \<Rightarrow> (case check_namespace f db orgID ns of
                 Some e \<Rightarrow> Inl e
               | None \<Rightarrow> Inr (filter (\<lambda>k. ky_NamespaceID k = ns \<and> \<not> ky_Deleted k) (db_keys db)))
            | None \<Rightarrow> Inr (filter (live_of orgID) (db_keys db))) of
        Inl e \<Rightarrow> Inl e
      | Inr keys \<Rightarrow>
          if f ListKeys then Inl (SvcFailed ''failed to list keys'')
          else let bound = filter (\<lambda>k. AllowsKey cx (ky_ID k)) keys in
            Inr (case networkType of
               None \<Rightarrow> bound
             | Some t \<Rightarrow> if t = ''all'' then bound
                         else filter (\<lambda>k. ky_NetworkType k = t \<or> ky_NetworkType k = ''all'') bound))"

text \<open>Deletion does not look at \<open>deleted_at\<close>.\<close>

definition ks_Delete ::
  "'w keyring \<Rightarrow> reqctx \<Rightarrow> query_faults \<Rightarrow> uuid \<Rightarrow> uuid \<Rightarrow> 'w \<times> keydb \<Rightarrow> ('w \<times> keydb) \<times> svc_error option" where
  "ks_Delete K cx f orgID keyID = (\<lambda>(w, db).
     (if f GetKeyRow then ((w, db), Some (SvcFailed ''failed to get key''))
      else case GetByID db keyID of
        None \<Rightarrow> ((w, db), Some (SvcNotFound ''Key''))
      | Some k \<Rightarrow>
          if ky_OrgID k \<noteq> orgID \<or> \<not> AllowsKey cx keyID then ((w, db), Some (SvcNotFound ''Key''))
          else (case (if ky_BaoKeyPath k \<noteq> [] then bk_Delete K (ky_BaoKeyPath k) w else (w, None)) of
             (w1, Some e) \<Rightarrow> ((w1, db), Some (SvcFailed e))
           | (w1, None) \<Rightarrow>
               (case SoftDelete f keyID db of
                  None \<Rightarrow> ((w1, db), Some (SvcFailed ''failed to delete key metadata''))
                | Some db' \<Rightarrow> ((w1, db'), None)))))"

record SignKeyResponse =
  kr_KeyID :: uuid
  kr_Signature :: string
  kr_PublicKey :: string
  kr_Error :: "svc_error option"

definition ks_Sign ::
  "'w keyring \<Rightarrow> reqctx \<Rightarrow> query_faults \<Rightarrow> uuid \<Rightarrow> uuid \<Rightarrow> bytes \<Rightarrow> bool \<Rightarrow> 'w \<times> keydb \<Rightarrow>
     ('w \<times> keydb) \<times> (svc_error + SignKeyResponse)" where
  "ks_Sign K cx f orgID keyID data prehashed = (\<lambda>(w, db).
     (if f GetKeyRow then ((w, db), Inl (SvcInternal ''failed to get key''))
      else case GetByID db keyID of
        None \<Rightarrow> ((w, db), Inl (SvcNotFound ''Key''))
      | Some k \<Rightarrow>
          if \<not> visible cx orgID k then ((w, db), Inl (SvcNotFound ''Key''))
          else (case checkSignatureQuota f db orgID of
             Some e \<Rightarrow> ((w, db), Inl e)
           | None \<Rightarrow>
               (case bk_Sign K (ky_BaoKeyPath k) data prehashed w of
                  (w1, Inl e) \<Rightarrow> ((w1, db), Inl (SvcInternal e))
                | (w1, Inr (sig, pubKey)) \<Rightarrow>
                    ((w1, incrementUsage orgID db), Inr \<lparr>kr_KeyID = keyID, kr_Signature = b64_encode sig,
                       kr_PublicKey = hex_encode pubKey, kr_Error = None\<rparr>)))))"

record SignKeyRequest =
  sq_KeyID :: uuid
  sq_Data :: string
  sq_Prehashed :: bool

definition failed_sign :: "uuid \<Rightarrow> svc_error \<Rightarrow> SignKeyResponse" where
  "failed_sign keyID e = \<lparr>kr_KeyID = keyID, kr_Signature = [], kr_PublicKey = [], kr_Error = Some e\<rparr>"

definition batch_sign_one ::
  "'w keyring \<Rightarrow> reqctx \<Rightarrow> query_faults \<Rightarrow> uuid \<Rightarrow> SignKeyRequest \<Rightarrow> 'w \<times> keydb \<Rightarrow> ('w \<times> keydb) \<times> SignKeyResponse" where
  "batch_sign_one K cx f orgID r s =
     (case b64_decode (sq_Data r) of
        None \<Rightarrow> (s, failed_sign (sq_KeyID r) (SvcFailed ''invalid base64''))
      | Some data \<Rightarrow>
          (case ks_Sign K cx f orgID (sq_KeyID r) data (sq_Prehashed r) s of
             (s', Inl e) \<Rightarrow> (s', failed_sign (sq_KeyID r) e)
           | (s', Inr resp) \<Rightarrow> (s', resp)))"

text \<open>One goroutine a request, each with the faults of its own queries.\<close>

definition ks_SignBatch ::
  "'w keyring \<Rightarrow> reqctx \<Rightarrow> query_faults \<Rightarrow> (nat \<Rightarrow> query_faults) \<Rightarrow> nat list \<Rightarrow> uuid \<Rightarrow> SignKeyRequest list \<Rightarrow>
     'w \<times> keydb \<Rightarrow> ('w \<times> keydb) \<times> (svc_error + SignKeyResponse list)" where
  "ks_SignBatch K cx f fs sched orgID reqs s =
     (if \<not> list_all (\<lambda>r. AllowsKey cx (sq_KeyID r)) reqs then (s, Inl SvcForbidden)
      else case checkSignatureQuota f (snd s) orgID of
        Some e \<Rightarrow> (s, Inl e)
      | None \<Rightarrow>
          (case run_schedule (\<lambda>i. batch_sign_one K cx (fs i) orgID (reqs ! i)) sched
                  (s, replicate (length reqs) (failed_sign 0 (SvcFailed []))) of
             (s', rs) \<Rightarrow> (s', Inr rs)))"

record CreateBatchKeyRequest =
  cbr_OrgID :: uuid
  cbr_NamespaceID :: uuid
  cbr_Prefix :: string
  cbr_Count :: nat
  cbr_Exportable :: bool

definition batch_request :: "CreateBatchKeyRequest \<Rightarrow> nat \<Rightarrow> CreateKeyRequest" where
  "batch_request req idx = \<lparr>cr_OrgID = cbr_OrgID req, cr_NamespaceID = cbr_NamespaceID req,
     cr_Name = cbr_Prefix req @ ''-'' @ dec_of_nat (idx + 1), cr_NetworkType = [], cr_Exportable = cbr_Exportable req,
     cr_Metadata = []\<rparr>"

definition ks_CreateBatch ::
  "'w keyring \<Rightarrow> query_faults \<Rightarrow> (nat \<Rightarrow> query_faults) \<Rightarrow> (uuid \<Rightarrow> string) \<Rightarrow> (nat \<Rightarrow> uuid) \<Rightarrow> nat list \<Rightarrow>
     CreateBatchKeyRequest \<Rightarrow> 'w \<times> keydb \<Rightarrow> ('w \<times> keydb) \<times> (svc_error + key_row list)" where
  "ks_CreateBatch K f fs ut ids sched req s =
     (if f GetOrg then (s, Inl (SvcFailed ''failed to get organization''))
      else case db_plans (snd s) (cbr_OrgID req) of
        None \<Rightarrow> (s, Inl (SvcNotFound ''Organization''))
      | Some plan \<Rightarrow>
          if f CountKeys then (s, Inl (SvcFailed ''failed to count keys''))
          else if pl_Keys (GetPlanLimits plan) > 0 \<and>
             CountByOrg (snd s) (cbr_OrgID req) + int (cbr_Count req) > pl_Keys (GetPlanLimits plan) then (s, Inl SvcQuota)
          else (case run_schedule (\<lambda>i. ks_Create K (fs i) ut (ids i) (batch_request req i)) sched
                       (s, replicate (cbr_Count req) (Inl (SvcFailed []))) of
             (s', rs) \<Rightarrow>
               (let result = List.map_filter (\<lambda>r. case r of Inl _ \<Rightarrow> None | Inr k \<Rightarrow> Some k) rs in
                (s', if result = [] \<and> rs \<noteq> []
                     then (case hd rs of Inl e \<Rightarrow> Inl e | Inr k \<Rightarrow> Inr [])
                     else Inr result))))"

definition ks_Export ::
  "'w keyring \<Rightarrow> reqctx \<Rightarrow> query_faults \<Rightarrow> uuid \<Rightarrow> uuid \<Rightarrow> 'w \<times> keydb \<Rightarrow> ('w \<times> keydb) \<times> (svc_error + string)" where
  "ks_Export K cx f orgID keyID = (\<lambda>(w, db).
     (if f GetKeyRow then ((w, db), Inl (SvcFailed ''failed to get key''))
      else case GetByID db keyID of
        None \<Rightarrow> ((w, db), Inl (SvcNotFound ''Key''))
      | Some k \<Rightarrow>
          if \<not> visible cx orgID k then ((w, db), Inl (SvcNotFound ''Key''))
          else if \<not> ky_Exportable k then ((w, db), Inl SvcForbidden)
          else (case bk_Export K (ky_BaoKeyPath k) w of
             (w1, Inl e) \<Rightarrow> ((w1, db), Inl (SvcFailed e))
           | (w1, Inr key) \<Rightarrow> ((w1, db), Inr key))))"

section \<open>Rows\<close>

lemma repo_Create_Some:
  assumes "repo_Create f k db = Some db'" "ky_Version k = 0"
  shows "db' = db\<lparr>db_keys := db_keys db @ [k\<lparr>ky_Version := 1\<rparr>]\<rparr> \<and> ky_ID k \<notin> ky_ID ` set (db_keys db)"
  using assms by (auto simp: repo_Create_def Let_def list_ex_iff clashes_def split: if_splits)

lemma key_record_simps [simp]:
  "ky_ID (key_record ut i req m) = i" "ky_OrgID (key_record ut i req m) = cr_OrgID req"
  "ky_NamespaceID (key_record ut i req m) = cr_NamespaceID req" "ky_Name (key_record ut i req m) = cr_Name req"
  "ky_Version (key_record ut i req m) = 0" "\<not> ky_Deleted (key_record ut i req m)"
  "ky_BaoKeyPath (key_record ut i req m) = bao_key_name ut (cr_OrgID req) (cr_NamespaceID req) (cr_Name req)"
  "ky_PublicKey (key_record ut i req m) = fst m" "ky_Exportable (key_record ut i req m) = cr_Exportable req"
  by (simp_all add: key_record_def split: prod.split)

lemma GetByID_Some: "GetByID db i = Some k \<Longrightarrow> k \<in> set (db_keys db) \<and> ky_ID k = i"
  by (auto simp: GetByID_def find_Some_iff)

lemma find_by_id: "distinct (map ky_ID ks) \<Longrightarrow> k \<in> set ks \<Longrightarrow> find (\<lambda>k'. ky_ID k' = ky_ID k) ks = Some k"
  by (induction ks) auto

lemma GetByID_unique: "distinct (map ky_ID (db_keys db)) \<Longrightarrow> k \<in> set (db_keys db) \<Longrightarrow> GetByID db (ky_ID k) = Some k"
  unfolding GetByID_def by (rule find_by_id)

lemma SoftDelete_Some:
  "SoftDelete f i db = Some db' \<Longrightarrow> db' = db\<lparr>db_keys := map (mark_deleted i) (db_keys db)\<rparr>"
  by (simp add: SoftDelete_def split: if_splits)

lemma mark_deleted_simps [simp]:
  "ky_ID (mark_deleted i k) = ky_ID k" "ky_OrgID (mark_deleted i k) = ky_OrgID k"
  "ky_BaoKeyPath (mark_deleted i k) = ky_BaoKeyPath k" "ky_PublicKey (mark_deleted i k) = ky_PublicKey k"
  "ky_Exportable (mark_deleted i k) = ky_Exportable k"
  "ky_Deleted (mark_deleted i k) \<longleftrightarrow> ky_Deleted k \<or> ky_ID k = i"
  by (auto simp: mark_deleted_def)

section \<open>What a call does to the key table\<close>

text \<open>One step of the service: a call that changes something, with its outcome.\<close>

inductive ks_step ::
  "'w keyring \<Rightarrow> (uuid \<Rightarrow> string) \<Rightarrow> 'w \<times> keydb \<Rightarrow> 'w \<times> keydb \<Rightarrow> bool" for K ut where
  create: "ks_Create K f ut i req s = (s', r) \<Longrightarrow> ks_step K ut s s'"
| import_key: "ks_Import K f ut i im s = (s', r) \<Longrightarrow> ks_step K ut s s'"
| sign: "ks_Sign K cx f org i d h s = (s', r') \<Longrightarrow> ks_step K ut s s'"
| export_key: "ks_Export K cx f org i s = (s', r'') \<Longrightarrow> ks_step K ut s s'"
| delete: "ks_Delete K cx f org i s = (s', e) \<Longrightarrow> ks_step K ut s s'"
| settle: "ks_step K ut (w, db) (w, settle_usage db)"

text \<open>
  The calls the service means to make: names that can be routed, and deletions of live rows whose
  update does not fail.
\<close>

inductive clean_step ::
  "'w keyring \<Rightarrow> (uuid \<Rightarrow> string) \<Rightarrow> (string \<Rightarrow> bool) \<Rightarrow> 'w \<times> keydb \<Rightarrow> 'w \<times> keydb \<Rightarrow> bool" for K ut routable where
  create: "ks_Create K f ut i req s = (s', r) \<Longrightarrow>
    routable (bao_key_name ut (cr_OrgID req) (cr_NamespaceID req) (cr_Name req)) \<Longrightarrow> clean_step K ut routable s s'"
| import_key: "ks_Import K f ut i im s = (s', r) \<Longrightarrow>
    routable (bao_key_name ut (im_OrgID im) (im_NamespaceID im) (im_Name im)) \<Longrightarrow> clean_step K ut routable s s'"
| sign: "ks_Sign K cx f org i d h s = (s', r') \<Longrightarrow> clean_step K ut routable s s'"
| export_key: "ks_Export K cx f org i s = (s', r'') \<Longrightarrow> clean_step K ut routable s s'"
| delete: "ks_Delete K cx f org i s = (s', e) \<Longrightarrow> \<not> f SoftDeleteKey \<Longrightarrow>
    (\<And>k. GetByID (snd s) i = Some k \<Longrightarrow> \<not> ky_Deleted k) \<Longrightarrow> clean_step K ut routable s s'"
| settle: "clean_step K ut routable (w, db) (w, settle_usage db)"

lemma make_and_record_db:
  assumes "make_and_record K f ut i req mk (w, db) = ((w', db'), r)"
  shows "(case r of Inl _ \<Rightarrow> db' = db
    | Inr k \<Rightarrow> db' = db\<lparr>db_keys := db_keys db @ [k]\<rparr> \<and> ky_OrgID k = cr_OrgID req \<and> \<not> ky_Deleted k \<and>
        ky_ID k \<notin> ky_ID ` set (db_keys db) \<and> ky_BaoKeyPath k = bao_key_name ut (cr_OrgID req) (cr_NamespaceID req) (cr_Name req))"
  using assms
  by (auto simp: make_and_record_def Let_def split: prod.splits sum.splits option.splits dest!: repo_Create_Some)

lemma make_and_record_added:
  assumes "make_and_record K f ut i req mk s = (s', r)"
  shows "snd s' = snd s \<or>
    (\<exists>k. snd s' = (snd s)\<lparr>db_keys := db_keys (snd s) @ [k]\<rparr> \<and> ky_OrgID k = cr_OrgID req \<and> \<not> ky_Deleted k)"
  using make_and_record_db [of K f ut i req mk "fst s" "snd s" "fst s'" "snd s'" r] assms
  by (cases r) auto

lemma Create_db:
  assumes "ks_Create K f ut i req s = (s', r)"
  shows "snd s' = snd s \<or> admit_key f (snd s) (cr_OrgID req) (cr_NamespaceID req) = None \<and>
    (\<exists>k. snd s' = (snd s)\<lparr>db_keys := db_keys (snd s) @ [k]\<rparr> \<and> ky_OrgID k = cr_OrgID req \<and> \<not> ky_Deleted k)"
  using assms by (auto simp: ks_Create_def split: option.splits dest!: make_and_record_added)

lemma Import_db:
  assumes "ks_Import K f ut i req s = (s', r)"
  shows "snd s' = snd s \<or> admit_key f (snd s) (im_OrgID req) (im_NamespaceID req) = None \<and>
    (\<exists>k. snd s' = (snd s)\<lparr>db_keys := db_keys (snd s) @ [k]\<rparr> \<and> ky_OrgID k = im_OrgID req \<and> \<not> ky_Deleted k)"
  using assms by (auto simp: ks_Import_def import_as_create_def split: option.splits dest!: make_and_record_added)

lemma Delete_db:
  assumes "ks_Delete K cx f org i s = (s', e)"
  shows "snd s' = snd s \<or> snd s' = (snd s)\<lparr>db_keys := map (mark_deleted i) (db_keys (snd s))\<rparr>"
  using assms
  by (auto simp: ks_Delete_def split_beta split: if_splits option.splits prod.splits dest!: SoftDelete_Some)

lemma Sign_db:
  assumes "ks_Sign K cx f org i d h s = (s', r)"
  shows "snd s' = snd s \<or> snd s' = incrementUsage org (snd s)"
  using assms by (auto simp: ks_Sign_def split_beta split: if_splits option.splits prod.splits sum.splits)

lemma Export_db: "ks_Export K cx f org i s = (s', r) \<Longrightarrow> snd s' = snd s"
  by (auto simp: ks_Export_def split_beta split: if_splits option.splits prod.splits sum.splits)

section \<open>Quotas\<close>

definition within_quota :: "keydb \<Rightarrow> bool" where
  "within_quota db \<longleftrightarrow> (\<forall>org plan. db_plans db org = Some plan \<longrightarrow> 0 \<le> pl_Keys (GetPlanLimits plan) \<longrightarrow>
     CountByOrg db org \<le> pl_Keys (GetPlanLimits plan))"

lemma CountByOrg_append:
  "CountByOrg (db\<lparr>db_keys := db_keys db @ [k]\<rparr>) org = CountByOrg db org + (if live_of org k then 1 else 0)"
  by (simp add: CountByOrg_def)

lemma CountByOrg_mark: "CountByOrg (db\<lparr>db_keys := map (mark_deleted i) (db_keys db)\<rparr>) org \<le> CountByOrg db org"
proof -
  have "length (filter (live_of org) (map (mark_deleted i) ks)) \<le> length (filter (live_of org) ks)" for ks
    by (induction ks) (auto simp: live_of_def)
  then show ?thesis by (simp add: CountByOrg_def)
qed

lemma within_quota_append:
  assumes "within_quota db" "admit_key f db org ns = None" "ky_OrgID k = org"
  shows "within_quota (db\<lparr>db_keys := db_keys db @ [k]\<rparr>)"
  using assms
  by (auto simp: within_quota_def CountByOrg_append live_of_def admit_key_def checkKeyQuota_def split: option.splits if_splits)

lemma within_quota_same_keys:
  "db_keys db' = db_keys db \<Longrightarrow> db_plans db' = db_plans db \<Longrightarrow> within_quota db' = within_quota db"
  by (simp add: within_quota_def CountByOrg_def)

lemma within_quota_fewer:
  assumes "within_quota db" "db_plans db' = db_plans db" "\<And>org. CountByOrg db' org \<le> CountByOrg db org"
  shows "within_quota db'"
  unfolding within_quota_def
proof (intro allI impI)
  fix org plan assume p: "db_plans db' org = Some plan" "0 \<le> pl_Keys (GetPlanLimits plan)"
  then have "CountByOrg db org \<le> pl_Keys (GetPlanLimits plan)"
    using assms(1,2) unfolding within_quota_def by simp
  then show "CountByOrg db' org \<le> pl_Keys (GetPlanLimits plan)" using assms(3) [of org] by linarith
qed

lemma within_quota_step: "ks_step K ut s s' \<Longrightarrow> within_quota (snd s) \<Longrightarrow> within_quota (snd s')"
proof (induction rule: ks_step.induct)
  case (create f i req s s' r)
  then show ?case using Create_db [OF create.hyps] within_quota_append by auto
next
  case (import_key f i im s s' r)
  then show ?case using Import_db [OF import_key.hyps] within_quota_append by auto
next
  case (sign cx f org i d h s s' r)
  then show ?case using Sign_db [OF sign.hyps] within_quota_same_keys [of "snd s'" "snd s"] by (auto simp: incrementUsage_def)
next
  case (export_key cx f org i s s' r)
  then show ?case using Export_db [OF export_key.hyps] by simp
next
  case (delete cx f org i s s' e)
  then show ?case
    using Delete_db [OF delete.hyps] within_quota_fewer [OF delete.prems, of "snd s'"] CountByOrg_mark [where db = "snd s" and i = i] by auto
next
  case (settle w db)
  then show ?case by (auto simp: settle_usage_def within_quota_def CountByOrg_def split: list.split)
qed

text \<open>
  Property C14. However its calls follow one another and whatever fails in them, the service never lets an organization
  have more live keys than its plan allows.
\<close>

theorem key_quota_bound:
  assumes "(ks_step K ut)\<^sup>*\<^sup>* s s'" "within_quota (snd s)"
    and "db_plans (snd s') org = Some plan" "0 \<le> pl_Keys (GetPlanLimits plan)"
  shows "CountByOrg (snd s') org \<le> pl_Keys (GetPlanLimits plan)"
proof -
  have "within_quota (snd s')"
    using assms(1,2) by (induction rule: rtranclp_induct) (auto intro: within_quota_step)
  then show ?thesis using assms(3,4) by (simp add: within_quota_def)
qed

lemma batch_sign_one_eq:
  assumes "b64_decode (sq_Data r) = Some d"
  shows "batch_sign_one K cx f org r s =
    (fst (ks_Sign K cx f org (sq_KeyID r) d (sq_Prehashed r) s),
     case snd (ks_Sign K cx f org (sq_KeyID r) d (sq_Prehashed r) s) of
       Inl e \<Rightarrow> failed_sign (sq_KeyID r) e | Inr resp \<Rightarrow> resp)"
  using assms by (simp add: batch_sign_one_def split: prod.split sum.split)

text \<open>A small OpenBao for the examples: the names it holds, every key with the same public key.\<close>

definition example_keyring :: "string set keyring" where
  "example_keyring = \<lparr>
     bk_New = (\<lambda>p x w. if p \<in> w then (w, Inl ''exists'') else (insert p w, Inr ([2], ''a'', p))),
     bk_Import = (\<lambda>p c x w. (w, Inl ''no'')), bk_Sign = (\<lambda>p d h w. (w, Inr ([1], [2]))),
     bk_Delete = (\<lambda>p w. (w - {p}, None)), bk_Export = (\<lambda>p w. (w, Inl ''no''))\<rparr>"

definition example_db :: keydb where
  "example_db = \<lparr>db_keys = [], db_plans = [1 \<mapsto> ''free''], db_namespaces = [2 \<mapsto> 1], db_usage = (\<lambda>_. 0), db_pending = []\<rparr>"

definition example_create :: "string \<Rightarrow> CreateKeyRequest" where
  "example_create n = \<lparr>cr_OrgID = 1, cr_NamespaceID = 2, cr_Name = n, cr_NetworkType = ''evm'', cr_Exportable = False, cr_Metadata = []\<rparr>"

abbreviation example_text :: "uuid \<Rightarrow> string" where "example_text \<equiv> \<lambda>_. ''u''"

definition example_after :: "string set \<times> keydb \<Rightarrow> uuid \<times> string \<Rightarrow> string set \<times> keydb" where
  "example_after s c = fst (ks_Create example_keyring (\<lambda>_. False) example_text (fst c) (example_create (snd c)) s)"

lemma example_steps: "(ks_step example_keyring example_text)\<^sup>*\<^sup>* s (foldl example_after s cs)"
proof (induction cs arbitrary: s)
  case (Cons c cs)
  have "ks_step example_keyring example_text s (example_after s c)"
    by (rule ks_step.create [where f = "\<lambda>_. False" and i = "fst c" and req = "example_create (snd c)"])
      (simp add: example_after_def prod_eq_iff)
  then show ?case using Cons.IH [of "example_after s c"] by simp
qed simp

lemma example_within: "within_quota example_db"
  by (auto simp: within_quota_def example_db_def CountByOrg_def)

theorem key_quota_bound_witness:
  "CountByOrg (snd (foldl example_after ({}, example_db) [(5, ''a''), (6, ''b''), (7, ''c''), (8, ''d'')])) 1 \<le> 3 \<and>
   length (db_keys (snd (foldl example_after ({}, example_db) [(5, ''a''), (6, ''b''), (7, ''c''), (8, ''d'')]))) = 3"
  using key_quota_bound [OF example_steps, of "({}, example_db)" "[(5, ''a''), (6, ''b''), (7, ''c''), (8, ''d'')]" 1 "''free''"]
    example_within
  by (simp add: example_after_def ks_Create_def admit_key_def checkKeyQuota_def check_namespace_def make_and_record_def
      example_db_def example_create_def GetPlanLimits_def PlanLimitsMap_def CountByOrg_def live_of_def key_record_def
      repo_Create_def clashes_def bao_key_name_def example_keyring_def Let_def network_type_def)

text \<open>
  The quota is checked before the key is made and not again when its row is inserted: two creations that
  are both admitted while one place is left both succeed, and the organization has one key more than its
  plan allows.
\<close>

lemma concurrent_creates_exceed_quota:
  assumes "db_plans db org = Some plan" "CountByOrg db org + 1 = pl_Keys (GetPlanLimits plan)"
    and "admit_key f db org ns = None" "admit_key f' db org ns' = None"
    and "cr_OrgID req = org" "cr_OrgID req' = org"
    and "make_and_record K f ut i req mk (w, db) = ((w1, db1), Inr k1)"
    and "make_and_record K f' ut i' req' mk' (w1, db1) = ((w2, db2), Inr k2)"
  shows "CountByOrg db2 org = pl_Keys (GetPlanLimits plan) + 1 \<and> admit_key f' db1 org ns' = Some SvcQuota"
proof -
  have d1: "db1 = db\<lparr>db_keys := db_keys db @ [k1]\<rparr>" "live_of org k1"
    using make_and_record_db [OF assms(7)] assms(5) by (simp_all add: live_of_def)
  have d2: "db2 = db1\<lparr>db_keys := db_keys db1 @ [k2]\<rparr>" "live_of org k2"
    using make_and_record_db [OF assms(8)] assms(6) by (simp_all add: live_of_def)
  have c1: "CountByOrg db1 org = pl_Keys (GetPlanLimits plan)"
    using d1 assms(2) CountByOrg_append [of db k1 org] by simp
  moreover have "CountByOrg db2 org = pl_Keys (GetPlanLimits plan) + 1"
    using d2 c1 CountByOrg_append [of db1 k2 org] by simp
  moreover have "0 \<le> CountByOrg db1 org" by (simp add: CountByOrg_def)
  moreover have "checkKeyQuota f' db org = None" using assms(4) by (auto simp: admit_key_def split: option.splits)
  ultimately show ?thesis
    using assms(1) d1(1) by (auto simp: admit_key_def checkKeyQuota_def split: if_splits)
qed

definition two_left :: "string set \<times> keydb" where
  "two_left = foldl example_after ({}, example_db) [(5, ''a''), (6, ''b'')]"

theorem concurrent_creates_exceed_quota_witness:
  "\<exists>w1 db1 k1 w2 db2 k2.
     make_and_record example_keyring (\<lambda>_. False) example_text 7 (example_create ''c'')
       (bk_New example_keyring ''u_u_c'' False) two_left = ((w1, db1), Inr k1) \<and>
     make_and_record example_keyring (\<lambda>_. False) example_text 8 (example_create ''d'')
       (bk_New example_keyring ''u_u_d'' False) (w1, db1) = ((w2, db2), Inr k2) \<and> CountByOrg db2 1 = 4"
proof -
  note defs = two_left_def example_after_def ks_Create_def admit_key_def checkKeyQuota_def check_namespace_def
    make_and_record_def example_db_def example_create_def GetPlanLimits_def PlanLimitsMap_def CountByOrg_def live_of_def
    key_record_def repo_Create_def clashes_def bao_key_name_def example_keyring_def Let_def network_type_def
  obtain w db where t: "two_left = (w, db)" by (cases two_left)
  obtain w1 db1 k1 where a: "make_and_record example_keyring (\<lambda>_. False) example_text 7 (example_create ''c'')
       (bk_New example_keyring ''u_u_c'' False) (w, db) = ((w1, db1), Inr k1)"
    using t by (auto simp: defs)
  obtain w2 db2 k2 where b: "make_and_record example_keyring (\<lambda>_. False) example_text 8 (example_create ''d'')
       (bk_New example_keyring ''u_u_d'' False) (w1, db1) = ((w2, db2), Inr k2)"
    using t a by (auto simp: defs)
  have p: "db_plans db 1 = Some ''free''" "CountByOrg db 1 + 1 = pl_Keys (GetPlanLimits ''free'')"
    "admit_key (\<lambda>_. False) db 1 2 = None" "cr_OrgID (example_create n) = 1" for n
    using t by (auto simp: defs)
  have "CountByOrg db2 1 = 4"
    using concurrent_creates_exceed_quota [OF p(1,2,3,3,4,4) a b] by (simp add: GetPlanLimits_def PlanLimitsMap_def)
  then show ?thesis using t a b by metis
qed

section \<open>The contract of OpenBao\<close>

text \<open>
  \<open>held w\<close> is the map from names to stored keys in state \<open>w\<close>, of which the service sees the public key and the
  exportable flag; \<open>good\<close> is what the provider keeps of its own state and \<open>routable\<close> the names a request
  can carry (the service puts a name into the request's path as it is).
\<close>

locale bao_keyring =
  fixes K :: "'w keyring"
    and held :: "'w \<Rightarrow> string \<Rightarrow> 'e option"
    and pub_of :: "'e \<Rightarrow> bytes"
    and exp_of :: "'e \<Rightarrow> bool"
    and good :: "'w \<Rightarrow> bool"
    and routable :: "string \<Rightarrow> bool"
  assumes routable_nonempty: "routable p \<Longrightarrow> p \<noteq> []"
    and new_made: "good w \<Longrightarrow> routable p \<Longrightarrow> bk_New K p x w = (w', Inr (pk, a, h)) \<Longrightarrow>
      good w' \<and> held w p = None \<and> (\<exists>e. held w' = (held w)(p \<mapsto> e) \<and> pub_of e = pk \<and> exp_of e = x)"
    and new_failed: "good w \<Longrightarrow> routable p \<Longrightarrow> bk_New K p x w = (w', Inl m) \<Longrightarrow> good w' \<and> held w' = held w"
    and import_made: "good w \<Longrightarrow> routable p \<Longrightarrow> bk_Import K p c x w = (w', Inr (pk, a, h)) \<Longrightarrow>
      good w' \<and> held w p = None \<and> (\<exists>e. held w' = (held w)(p \<mapsto> e) \<and> pub_of e = pk \<and> exp_of e = x)"
    and import_failed: "good w \<Longrightarrow> routable p \<Longrightarrow> bk_Import K p c x w = (w', Inl m) \<Longrightarrow> good w' \<and> held w' = held w"
    and sign_keeps: "good w \<Longrightarrow> routable p \<Longrightarrow>
      good (fst (bk_Sign K p d ph w)) \<and> held (fst (bk_Sign K p d ph w)) = held w"
    and sign_steady: "good w \<Longrightarrow> good w2 \<Longrightarrow> routable p \<Longrightarrow> held w = held w2 \<Longrightarrow>
      snd (bk_Sign K p d ph w) = snd (bk_Sign K p d ph w2)"
    and export_keeps: "good w \<Longrightarrow> routable p \<Longrightarrow>
      good (fst (bk_Export K p w)) \<and> held (fst (bk_Export K p w)) = held w"
    and deleted: "good w \<Longrightarrow> routable p \<Longrightarrow> snd (bk_Delete K p w) = None \<and> good (fst (bk_Delete K p w)) \<and>
      held (fst (bk_Delete K p w)) = (held w)(p := None)"
begin

text \<open>Creation and import either leave both sides as they were or change both.\<close>

lemma recorded:
  assumes "good w" "make_and_record K f ut i req mk (w, db) = ((w', db'), r)" "routable p"
    and p: "bao_key_name ut (cr_OrgID req) (cr_NamespaceID req) (cr_Name req) = p"
    and made: "\<And>w' pk a h. mk w = (w', Inr (pk, a, h)) \<Longrightarrow>
      good w' \<and> held w p = None \<and> (\<exists>e. held w' = (held w)(p \<mapsto> e) \<and> pub_of e = pk \<and> exp_of e = cr_Exportable req)"
    and failed: "\<And>w' m. mk w = (w', Inl m) \<Longrightarrow> good w' \<and> held w' = held w"
  shows "good w' \<and> (case r of Inl _ \<Rightarrow> held w' = held w \<and> db' = db
    | Inr k \<Rightarrow> db' = db\<lparr>db_keys := db_keys db @ [k]\<rparr> \<and> \<not> ky_Deleted k \<and> ky_ID k = i \<and> i \<notin> ky_ID ` set (db_keys db) \<and>
        ky_OrgID k = cr_OrgID req \<and> ky_BaoKeyPath k = p \<and> held w p = None \<and>
        (\<exists>e. held w' = (held w)(p \<mapsto> e) \<and> pub_of e = ky_PublicKey k \<and> exp_of e = ky_Exportable k))"
proof (cases "mk w")
  case (Pair w1 x)
  show ?thesis
  proof (cases x)
    case (Inl m)
    then show ?thesis using failed [of w1 m] Pair assms(2) by (auto simp: make_and_record_def)
  next
    case (Inr m)
    obtain pk a h where m: "m = (pk, a, h)" by (cases m)
    let ?k = "key_record ut i req m"
    obtain e where e: "good w1" "held w p = None" "held w1 = (held w)(p \<mapsto> e)" "pub_of e = pk" "exp_of e = cr_Exportable req"
      using made [of w1 pk a h] Pair Inr m by blast
    show ?thesis
    proof (cases "repo_Create f ?k db")
      case None
      then have "r = Inl (SvcFailed ''failed to save key metadata'')" "db' = db" "w' = fst (bk_Delete K p w1)"
        using assms(2) p Pair Inr by (auto simp: make_and_record_def Let_def)
      moreover have "good w' \<and> held w' = held w"
        using deleted [OF e(1) assms(3)] e(2,3) calculation(3) by auto
      ultimately show ?thesis by simp
    next
      case (Some db1)
      have c: "db1 = db\<lparr>db_keys := db_keys db @ [?k\<lparr>ky_Version := 1\<rparr>]\<rparr>" "i \<notin> ky_ID ` set (db_keys db)"
        using repo_Create_Some [OF Some] by simp_all
      then have "r = Inr (?k\<lparr>ky_Version := 1\<rparr>)" "db' = db\<lparr>db_keys := db_keys db @ [?k\<lparr>ky_Version := 1\<rparr>]\<rparr>" "w' = w1"
        using assms(2) Pair Inr Some by (auto simp: make_and_record_def Let_def)
      then show ?thesis using c e m p by auto
    qed
  qed
qed

text \<open>Every live row has its key, no two live rows share one, and identifiers are not reused.\<close>

definition in_step :: "'w \<times> keydb \<Rightarrow> bool" where
  "in_step s \<longleftrightarrow> good (fst s) \<and> distinct (map ky_ID (db_keys (snd s))) \<and>
     (\<forall>k\<in>set (db_keys (snd s)). routable (ky_BaoKeyPath k)) \<and>
     (\<forall>k\<in>set (db_keys (snd s)). \<not> ky_Deleted k \<longrightarrow>
        (\<exists>e. held (fst s) (ky_BaoKeyPath k) = Some e \<and> pub_of e = ky_PublicKey k \<and> exp_of e = ky_Exportable k)) \<and>
     (\<forall>k\<in>set (db_keys (snd s)). \<forall>k'\<in>set (db_keys (snd s)). \<not> ky_Deleted k \<longrightarrow> \<not> ky_Deleted k' \<longrightarrow>
        ky_BaoKeyPath k = ky_BaoKeyPath k' \<longrightarrow> k = k')"

text \<open>What a call may change: nothing, one key with its row, or a live row marked and its key removed.\<close>

definition unchanged :: "'w \<times> keydb \<Rightarrow> 'w \<times> keydb \<Rightarrow> bool" where
  "unchanged s s' \<longleftrightarrow> held (fst s') = held (fst s) \<and> db_keys (snd s') = db_keys (snd s)"

definition added :: "'w \<times> keydb \<Rightarrow> 'w \<times> keydb \<Rightarrow> bool" where
  "added s s' \<longleftrightarrow> (\<exists>k e. db_keys (snd s') = db_keys (snd s) @ [k] \<and> \<not> ky_Deleted k \<and>
     ky_ID k \<notin> ky_ID ` set (db_keys (snd s)) \<and> routable (ky_BaoKeyPath k) \<and> held (fst s) (ky_BaoKeyPath k) = None \<and>
     held (fst s') = (held (fst s))(ky_BaoKeyPath k \<mapsto> e) \<and> pub_of e = ky_PublicKey k \<and> exp_of e = ky_Exportable k)"

definition removed :: "'w \<times> keydb \<Rightarrow> 'w \<times> keydb \<Rightarrow> bool" where
  "removed s s' \<longleftrightarrow> (\<exists>k\<in>set (db_keys (snd s)). \<not> ky_Deleted k \<and>
     held (fst s') = (held (fst s))(ky_BaoKeyPath k := None) \<and>
     db_keys (snd s') = map (mark_deleted (ky_ID k)) (db_keys (snd s)))"

definition changes :: "'w \<times> keydb \<Rightarrow> 'w \<times> keydb \<Rightarrow> bool" where
  "changes s s' \<longleftrightarrow> good (fst s') \<and> (unchanged s s' \<or> added s s' \<or> removed s s')"

lemma recorded_changes:
  assumes "good w" "make_and_record K f ut i req mk (w, db) = (s', r)" "routable p"
    and p: "bao_key_name ut (cr_OrgID req) (cr_NamespaceID req) (cr_Name req) = p"
    and "\<And>w' pk a h. mk w = (w', Inr (pk, a, h)) \<Longrightarrow>
      good w' \<and> held w p = None \<and> (\<exists>e. held w' = (held w)(p \<mapsto> e) \<and> pub_of e = pk \<and> exp_of e = cr_Exportable req)"
    and "\<And>w' m. mk w = (w', Inl m) \<Longrightarrow> good w' \<and> held w' = held w"
  shows "changes (w, db) s'"
proof -
  obtain w' db' where s': "s' = (w', db')" by (cases s')
  have m: "make_and_record K f ut i req mk (w, db) = ((w', db'), r)" using assms(2) s' by simp
  have rec: "good w' \<and> (case r of Inl _ \<Rightarrow> held w' = held w \<and> db' = db
    | Inr k \<Rightarrow> db' = db\<lparr>db_keys := db_keys db @ [k]\<rparr> \<and> \<not> ky_Deleted k \<and> ky_ID k = i \<and> i \<notin> ky_ID ` set (db_keys db) \<and>
        ky_OrgID k = cr_OrgID req \<and> ky_BaoKeyPath k = p \<and> held w p = None \<and>
        (\<exists>e. held w' = (held w)(p \<mapsto> e) \<and> pub_of e = ky_PublicKey k \<and> exp_of e = ky_Exportable k))"
    by (rule recorded [OF assms(1) m assms(3) p]) (erule assms(5), erule assms(6))
  show ?thesis
  proof (cases r)
    case (Inr k)
    then have "added (w, db) (w', db')" using rec assms(3) unfolding added_def by auto
    then show ?thesis using rec s' by (simp add: changes_def)
  qed (use rec s' in \<open>simp add: changes_def unchanged_def\<close>)
qed

lemma stays: "in_step s \<Longrightarrow> changes s s"
  by (simp add: changes_def unchanged_def in_step_def)

lemma create_changes:
  assumes "in_step s" "ks_Create K f ut i req s = (s', r)"
    and r: "routable (bao_key_name ut (cr_OrgID req) (cr_NamespaceID req) (cr_Name req))"
  shows "changes s s'"
proof (cases "admit_key f (snd s) (cr_OrgID req) (cr_NamespaceID req)")
  case None
  have g: "good (fst s)" using assms(1) by (simp add: in_step_def)
  let ?p = "bao_key_name ut (cr_OrgID req) (cr_NamespaceID req) (cr_Name req)"
  have "make_and_record K f ut i req (bk_New K ?p (cr_Exportable req)) (fst s, snd s) = (s', r)"
    using None assms(2) by (simp add: ks_Create_def)
  from recorded_changes [OF g this r refl new_made [OF g r] new_failed [OF g r]] show ?thesis by simp
qed (use assms stays in \<open>simp add: ks_Create_def\<close>)

lemma create_recorded:
  assumes "good w" "ks_Create K f ut i req (w, db) = ((w', db'), r)"
    and p: "bao_key_name ut (cr_OrgID req) (cr_NamespaceID req) (cr_Name req) = p" and r: "routable p"
  shows "case r of Inl _ \<Rightarrow> held w' = held w \<and> db' = db
    | Inr k \<Rightarrow> db' = db\<lparr>db_keys := db_keys db @ [k]\<rparr> \<and> \<not> ky_Deleted k \<and> ky_ID k = i \<and> i \<notin> ky_ID ` set (db_keys db) \<and>
        ky_OrgID k = cr_OrgID req \<and> ky_BaoKeyPath k = p \<and> held w p = None \<and>
        (\<exists>e. held w' = (held w)(p \<mapsto> e) \<and> pub_of e = ky_PublicKey k \<and> exp_of e = ky_Exportable k)"
proof (cases "admit_key f db (cr_OrgID req) (cr_NamespaceID req)")
  case None
  then have "make_and_record K f ut i req (bk_New K p (cr_Exportable req)) (w, db) = ((w', db'), r)"
    using assms(2) p by (simp add: ks_Create_def)
  from recorded [OF assms(1) this r p new_made [OF assms(1) r] new_failed [OF assms(1) r]] show ?thesis by simp
qed (use assms(2) in \<open>auto simp: ks_Create_def\<close>)

lemma import_changes:
  assumes "in_step s" "ks_Import K f ut i req s = (s', r)"
    and r: "routable (bao_key_name ut (im_OrgID req) (im_NamespaceID req) (im_Name req))"
  shows "changes s s'"
proof (cases "admit_key f (snd s) (im_OrgID req) (im_NamespaceID req)")
  case None
  have g: "good (fst s)" using assms(1) by (simp add: in_step_def)
  let ?p = "bao_key_name ut (im_OrgID req) (im_NamespaceID req) (im_Name req)"
  have m: "make_and_record K f ut i (import_as_create req) (bk_Import K ?p (im_PrivateKey req) (im_Exportable req))
      (fst s, snd s) = (s', r)"
    using None assms(2) by (simp add: ks_Import_def)
  have p: "bao_key_name ut (cr_OrgID (import_as_create req)) (cr_NamespaceID (import_as_create req))
      (cr_Name (import_as_create req)) = ?p"
    and x: "cr_Exportable (import_as_create req) = im_Exportable req"
    by (simp_all add: import_as_create_def)
  show ?thesis
    using recorded_changes [OF g m r p] import_made [OF g r] import_failed [OF g r] x by simp
qed (use assms stays in \<open>simp add: ks_Import_def\<close>)

lemma routable_row: "in_step (w, db) \<Longrightarrow> GetByID db i = Some k \<Longrightarrow> routable (ky_BaoKeyPath k)"
  using GetByID_Some by (auto simp: in_step_def)

lemma sign_changes:
  assumes "in_step s" "ks_Sign K cx f org i d ph s = (s', r)"
  shows "changes s s'"
proof -
  obtain w db where s: "s = (w, db)" by (cases s)
  have g: "good w" using assms(1) s by (simp add: in_step_def)
  have "(fst s' = w \<or> (\<exists>p. routable p \<and> fst s' = fst (bk_Sign K p d ph w))) \<and> db_keys (snd s') = db_keys db"
    using assms s routable_row
    by (auto simp: ks_Sign_def incrementUsage_def split: if_splits option.splits prod.splits sum.splits)
      (metis fst_conv)+
  then show ?thesis using sign_keeps [OF g] g s by (auto simp: changes_def unchanged_def)
qed

lemma export_changes:
  assumes "in_step s" "ks_Export K cx f org i s = (s', r)"
  shows "changes s s'"
proof -
  obtain w db where s: "s = (w, db)" by (cases s)
  have g: "good w" using assms(1) s by (simp add: in_step_def)
  have "(fst s' = w \<or> (\<exists>p. routable p \<and> fst s' = fst (bk_Export K p w))) \<and> snd s' = db"
    using assms s routable_row
    by (auto simp: ks_Export_def split: if_splits option.splits prod.splits sum.splits) (metis fst_conv)+
  then show ?thesis using export_keeps [OF g] g s by (auto simp: changes_def unchanged_def)
qed

text \<open>A deletion whose row is live and whose update does not fail.\<close>

lemma delete_changes:
  assumes "in_step s" "ks_Delete K cx f org i s = (s', e)" "\<not> f SoftDeleteKey"
    and live: "\<And>k. GetByID (snd s) i = Some k \<Longrightarrow> \<not> ky_Deleted k"
  shows "changes s s'"
proof (cases "s' = s")
  case False
  obtain w db where s: "s = (w, db)" by (cases s)
  obtain k where k: "GetByID db i = Some k" and c: "\<not> f GetKeyRow" "ky_OrgID k = org" "AllowsKey cx i"
    using assms(2) s False by (auto simp: ks_Delete_def split: if_splits option.splits)
  have kin: "k \<in> set (db_keys db)" "ky_ID k = i" using GetByID_Some [OF k] by simp_all
  have l: "\<not> ky_Deleted k" using live k s by simp
  have st: "in_step (w, db)" using assms(1) s by simp
  have p: "ky_BaoKeyPath k \<noteq> []" "routable (ky_BaoKeyPath k)" and g: "good w"
    using st kin routable_nonempty by (auto simp: in_step_def)
  have "list_ex (\<lambda>k. ky_ID k = i \<and> \<not> ky_Deleted k) (db_keys db)" using kin l by (auto simp: list_ex_iff)
  then have sd: "SoftDelete f i db = Some (db\<lparr>db_keys := map (mark_deleted i) (db_keys db)\<rparr>)"
    using assms(3) by (simp add: SoftDelete_def)
  have d: "snd (bk_Delete K (ky_BaoKeyPath k) w) = None" "good (fst (bk_Delete K (ky_BaoKeyPath k) w))"
      "held (fst (bk_Delete K (ky_BaoKeyPath k) w)) = (held w)(ky_BaoKeyPath k := None)"
    using deleted [OF g p(2)] by simp_all
  have "s' = (fst (bk_Delete K (ky_BaoKeyPath k) w), db\<lparr>db_keys := map (mark_deleted i) (db_keys db)\<rparr>)"
    using assms(2) s k c p(1) sd d(1) by (auto simp: ks_Delete_def split: prod.splits option.splits)
  then have "removed s s'" using kin l d(3) s unfolding removed_def by auto
  then show ?thesis using d(2) \<open>s' = _\<close> by (simp add: changes_def)
qed (use assms(1) stays in simp)

lemma settle_changes: "in_step (w, db) \<Longrightarrow> changes (w, db) (w, settle_usage db)"
  by (simp add: changes_def unchanged_def settle_usage_def in_step_def split: list.split)

lemma clean_changes: "clean_step K ut routable s s' \<Longrightarrow> in_step s \<Longrightarrow> changes s s'"
  by (induction rule: clean_step.induct)
    (rule create_changes import_changes sign_changes export_changes delete_changes settle_changes; assumption)+

text \<open>The change keeps the two sides in step, and what a row that stays live refers to.\<close>

lemma in_step_changes:
  assumes "in_step s" "changes s s'"
  shows "in_step s'"
proof -
  have g: "good (fst s')" using assms(2) by (simp add: changes_def)
  consider "unchanged s s'" | "added s s'" | "removed s s'" using assms(2) by (auto simp: changes_def)
  then show ?thesis
  proof cases
    case 1
    then show ?thesis using assms(1) g by (simp add: in_step_def unchanged_def)
  next
    case 2
    then obtain k e where a: "db_keys (snd s') = db_keys (snd s) @ [k]" "\<not> ky_Deleted k"
      "ky_ID k \<notin> ky_ID ` set (db_keys (snd s))" "routable (ky_BaoKeyPath k)" "held (fst s) (ky_BaoKeyPath k) = None"
      "held (fst s') = (held (fst s))(ky_BaoKeyPath k \<mapsto> e)" "pub_of e = ky_PublicKey k" "exp_of e = ky_Exportable k"
      unfolding added_def by blast
    have "ky_BaoKeyPath k' \<noteq> ky_BaoKeyPath k" if "k' \<in> set (db_keys (snd s))" "\<not> ky_Deleted k'" for k'
      using assms(1) a(5) that by (fastforce simp: in_step_def)
    then show ?thesis using assms(1) a g by (auto simp: in_step_def)
  next
    case 3
    then obtain k where r: "k \<in> set (db_keys (snd s))" "\<not> ky_Deleted k"
      "held (fst s') = (held (fst s))(ky_BaoKeyPath k := None)"
      "db_keys (snd s') = map (mark_deleted (ky_ID k)) (db_keys (snd s))"
      unfolding removed_def by blast
    have other: "ky_BaoKeyPath k' \<noteq> ky_BaoKeyPath k"
      if "k' \<in> set (db_keys (snd s))" "\<not> ky_Deleted k'" "ky_ID k' \<noteq> ky_ID k" for k'
      using assms(1) that r by (auto simp: in_step_def)
    have unique: "x = y" if "x \<in> set (db_keys (snd s))" "y \<in> set (db_keys (snd s))" "\<not> ky_Deleted x" "\<not> ky_Deleted y"
        "ky_BaoKeyPath x = ky_BaoKeyPath y" for x y
      using assms(1) that by (simp add: in_step_def)
    show ?thesis
      using assms(1) g r(3,4) other unique unfolding in_step_def by (auto simp: comp_def)
  qed
qed

lemma kept_changes:
  assumes "in_step s" "changes s s'" "k \<in> set (db_keys (snd s))" "\<not> ky_Deleted k"
  shows "k \<in> set (db_keys (snd s')) \<and> held (fst s') (ky_BaoKeyPath k) = held (fst s) (ky_BaoKeyPath k) \<or>
    k\<lparr>ky_Deleted := True\<rparr> \<in> set (db_keys (snd s'))"
proof -
  obtain e where h: "held (fst s) (ky_BaoKeyPath k) = Some e" using assms(1,3,4) by (auto simp: in_step_def)
  consider "unchanged s s'" | "added s s'" | "removed s s'" using assms(2) by (auto simp: changes_def)
  then show ?thesis
  proof cases
    case 3
    then obtain r where r: "r \<in> set (db_keys (snd s))" "\<not> ky_Deleted r"
      "held (fst s') = (held (fst s))(ky_BaoKeyPath r := None)"
      "db_keys (snd s') = map (mark_deleted (ky_ID r)) (db_keys (snd s))"
      unfolding removed_def by blast
    show ?thesis
    proof (cases "ky_ID k = ky_ID r")
      case True
      then have "mark_deleted (ky_ID r) k = k\<lparr>ky_Deleted := True\<rparr>" using assms(4) by (simp add: mark_deleted_def)
      then show ?thesis using r(4) assms(3) by force
    next
      case False
      then have "ky_BaoKeyPath k \<noteq> ky_BaoKeyPath r" using assms(1,3,4) r(1,2) unfolding in_step_def by metis
      moreover have "mark_deleted (ky_ID r) k = k" using False by (simp add: mark_deleted_def)
      ultimately show ?thesis using r(3,4) assms(3) by force
    qed
  qed (use assms(3) h in \<open>auto simp: unchanged_def added_def\<close>)
qed

lemma deleted_stays:
  assumes "changes s s'" "k \<in> set (db_keys (snd s))" "ky_Deleted k"
  shows "k \<in> set (db_keys (snd s'))"
proof -
  have "mark_deleted i k = k" for i using assms(3) by (simp add: mark_deleted_def)
  then show ?thesis
    using assms(1,2) by (auto simp: changes_def unchanged_def added_def removed_def image_iff) metis
qed

lemma clean_run:
  assumes "(clean_step K ut routable)\<^sup>*\<^sup>* s s'" "in_step s"
  shows "in_step s' \<and> (\<forall>k\<in>set (db_keys (snd s)). \<not> ky_Deleted k \<longrightarrow>
    k \<in> set (db_keys (snd s')) \<and> held (fst s') (ky_BaoKeyPath k) = held (fst s) (ky_BaoKeyPath k) \<or>
    k\<lparr>ky_Deleted := True\<rparr> \<in> set (db_keys (snd s')))"
  using assms(1)
proof (induction rule: rtranclp_induct)
  case base
  then show ?case using assms(2) by simp
next
  case (step t u)
  have c: "changes t u" using clean_changes step.hyps(2) step.IH by blast
  have "k \<in> set (db_keys (snd u)) \<and> held (fst u) (ky_BaoKeyPath k) = held (fst s) (ky_BaoKeyPath k) \<or>
      k\<lparr>ky_Deleted := True\<rparr> \<in> set (db_keys (snd u))"
    if k: "k \<in> set (db_keys (snd s))" "\<not> ky_Deleted k" for k
  proof (cases "k\<lparr>ky_Deleted := True\<rparr> \<in> set (db_keys (snd t))")
    case True
    then show ?thesis using deleted_stays [OF c True] by simp
  next
    case False
    then have "k \<in> set (db_keys (snd t))" "held (fst t) (ky_BaoKeyPath k) = held (fst s) (ky_BaoKeyPath k)"
      using step.IH k by auto
    then show ?thesis using kept_changes [OF _ c _ k(2)] step.IH by simp
  qed
  then show ?case using in_step_changes [OF _ c] step.IH by simp
qed

text \<open>A row that is live at the end still has its key.\<close>

lemma live_row_signs:
  assumes "in_step s" "k \<in> set (db_keys (snd s))" "\<not> ky_Deleted k"
  obtains e where "held (fst s) (ky_BaoKeyPath k) = Some e" "pub_of e = ky_PublicKey k" "exp_of e = ky_Exportable k"
  using assms by (auto simp: in_step_def)

text \<open>What a batch of signatures does is what its requests do one by one.\<close>

definition same_view :: "'w \<times> keydb \<Rightarrow> 'w \<times> keydb \<Rightarrow> bool" where
  "same_view s t \<longleftrightarrow> good (fst t) \<and> held (fst t) = held (fst s) \<and> db_keys (snd t) = db_keys (snd s) \<and>
     db_plans (snd t) = db_plans (snd s) \<and> db_usage (snd t) = db_usage (snd s)"

lemma sign_same_view:
  assumes "in_step s" "same_view s t"
  shows "same_view s (fst (ks_Sign K cx f org i d ph t)) \<and>
    snd (ks_Sign K cx f org i d ph t) = snd (ks_Sign K cx f org i d ph s)"
proof -
  obtain w db w2 db2 where st: "s = (w, db)" "t = (w2, db2)" by (cases s, cases t)
  have eqs: "GetByID db2 i = GetByID db i" "checkSignatureQuota f db2 org = checkSignatureQuota f db org"
    using assms(2) st by (simp_all add: same_view_def GetByID_def checkSignatureQuota_def split: option.split)
  have g: "good w" "good w2" "held w2 = held w" using assms st by (simp_all add: in_step_def same_view_def)
  have r: "routable (ky_BaoKeyPath k)" if "GetByID db i = Some k" for k
    using routable_row [OF _ that] assms(1) st by simp
  show ?thesis
    using assms(2) st eqs sign_keeps [OF g(2) r, of _ d ph] sign_steady [OF g(2,1) r g(3), of _ d ph]
    by (auto simp: ks_Sign_def same_view_def incrementUsage_def split: option.splits sum.splits prod.splits)
qed

lemma batch_one_same_view:
  assumes "in_step s" "same_view s t"
  shows "same_view s (fst (batch_sign_one K cx f org r t)) \<and>
    snd (batch_sign_one K cx f org r t) = snd (batch_sign_one K cx f org r s)"
proof (cases "b64_decode (sq_Data r)")
  case (Some d)
  show ?thesis
    using sign_same_view [OF assms, of cx f org "sq_KeyID r" d "sq_Prehashed r"]
    by (simp add: batch_sign_one_eq [OF Some])
qed (use assms in \<open>simp add: batch_sign_one_def\<close>)

lemma batch_results:
  assumes "in_step s" "set sch = {..<length reqs}"
    and "list_all (\<lambda>r. AllowsKey cx (sq_KeyID r)) reqs" "checkSignatureQuota f (snd s) org = None"
  shows "snd (ks_SignBatch K cx f fs sch org reqs s) =
    Inr (List.map (\<lambda>i. snd (batch_sign_one K cx (fs i) org (reqs ! i) s)) [0..<length reqs])"
proof -
  let ?one = "\<lambda>i. batch_sign_one K cx (fs i) org (reqs ! i)"
  let ?rs = "replicate (length reqs) (failed_sign 0 (SvcFailed []))"
  have steady: "same_view s (fst (?one i k)) \<and> snd (?one i k) = snd (?one i s)" if "same_view s k" for i k
    by (rule batch_one_same_view [OF assms(1) that])
  have self: "same_view s s" using assms(1) by (simp add: same_view_def in_step_def)
  have "snd (run_schedule ?one sch (s, ?rs)) ! i = snd (?one i s)" if "i < length reqs" for i
  proof -
    have "i < length ?rs" "i \<in> set sch" using that assms(2) by simp_all
    then show ?thesis using run_schedule_steady [where P = "same_view s" and f = ?one and i = i and rs = ?rs and sch = sch, OF steady self] by (simp del: length_replicate)
  qed
  then have "snd (run_schedule ?one sch (s, ?rs)) = List.map (\<lambda>i. snd (?one i s)) [0..<length reqs]"
    by (intro nth_equalityI) simp_all
  then show ?thesis
    using assms(3,4) by (cases "run_schedule ?one sch (s, ?rs)") (simp add: ks_SignBatch_def)
qed

text \<open>
  The deletion of a row that is already deleted still reaches OpenBao, and takes the key of the live row that has the
  name now.
\<close>

lemma deleted_again:
  assumes "in_step (w, db)" "k \<in> set (db_keys db)" "ky_Deleted k" "ky_OrgID k = org" "AllowsKey cx (ky_ID k)" "\<not> f GetKeyRow"
  shows "ks_Delete K cx f org (ky_ID k) (w, db) =
      ((fst (bk_Delete K (ky_BaoKeyPath k) w), db), Some (SvcFailed ''failed to delete key metadata'')) \<and>
    held (fst (bk_Delete K (ky_BaoKeyPath k) w)) (ky_BaoKeyPath k) = None"
proof -
  have g: "GetByID db (ky_ID k) = Some k" "routable (ky_BaoKeyPath k)" "ky_BaoKeyPath k \<noteq> []" "good w"
    using assms(1,2) GetByID_unique routable_nonempty by (auto simp: in_step_def)
  have "\<not> list_ex (\<lambda>k'. ky_ID k' = ky_ID k \<and> \<not> ky_Deleted k') (db_keys db)"
    using assms(1-3) by (auto simp: in_step_def list_ex_iff distinct_map inj_on_def)
  then have "SoftDelete f (ky_ID k) db = None" by (simp add: SoftDelete_def)
  then show ?thesis
    using assms(4-6) g deleted [OF g(4,2)] by (auto simp: ks_Delete_def split: prod.splits option.splits)
qed

end

end
