(* ===== verification/KeyPlugin.thy ===== *)
theory KeyPlugin
  imports KeyService CpBao EndToEnd
begin

text \<open>
  The key service on top of the control plane's OpenBao client on top of the plugin. OpenBao's
  router and its HTTP server stand between client and plugin; \<open>serves_keys\<close> is what they are relied
  on for, and \<open>route_keys\<close> is a router that does it. With it the client fulfils the contract
  \<open>bao_keyring\<close> of the key service, and what the contract gives holds of the plugin's storage.
\<close>

section \<open>Requests and replies\<close>

definition new_key_request :: "cp_client \<Rightarrow> string \<Rightarrow> bool \<Rightarrow> http_request" where
  "new_key_request c p x = cp_request c ''POST'' (keys_path c p) (Some (JObject [(''exportable'', JBool x)]))"

definition import_key_request :: "cp_client \<Rightarrow> string \<Rightarrow> string \<Rightarrow> bool \<Rightarrow> http_request" where
  "import_key_request c p ct x = cp_request c ''POST'' (keys_path c p @ ''/import'')
     (Some (JObject [(''ciphertext'', JString ct), (''exportable'', JBool x)]))"

definition sign_key_request :: "cp_client \<Rightarrow> string \<Rightarrow> bytes \<Rightarrow> bool \<Rightarrow> http_request" where
  "sign_key_request c p d ph = cp_request c ''POST'' (cp_mount c @ ''/sign/'' @ p)
     (Some (JObject [(''input'', JString (b64_encode d)), (''prehashed'', JBool ph)]))"

definition delete_key_request :: "cp_client \<Rightarrow> string \<Rightarrow> http_request" where
  "delete_key_request c p = cp_request c ''DELETE'' (keys_path c p) None"

text \<open>The data of the plugin's responses, fields in the order of the encoder.\<close>

definition info_data :: "(nat \<Rightarrow> string) \<Rightarrow> key_info \<Rightarrow> jsonv" where
  "info_data fmt i = JObject ([(''address'', JString (ki_address i)), (''created_at'', JString (fmt (ki_created_at i)))] @
     (case ki_eth_address i of None \<Rightarrow> [] | Some a \<Rightarrow> [(''eth_address'', JString a)]) @
     (case ki_exportable i of None \<Rightarrow> [] | Some x \<Rightarrow> [(''exportable'', JBool x)]) @
     (case ki_imported i of None \<Rightarrow> [] | Some x \<Rightarrow> [(''imported'', JBool x)]) @
     [(''name'', JString (ki_name i)), (''public_key'', JString (ki_public_key i))])"

definition sign_data :: "string \<Rightarrow> string \<Rightarrow> jsonv" where
  "sign_data s p = JObject [(''public_key'', JString p), (''signature'', JString s)]"

text \<open>Error responses have status 400, Go errors 500, no response 204; the bodies of errors and the
  replies to the operations the service does not use are left open.\<close>

definition reply_matches :: "(nat \<Rightarrow> string) \<Rightarrow> go_error + response \<Rightarrow> http_reply \<Rightarrow> bool" where
  "reply_matches fmt r rep = (case r of
     Inl e \<Rightarrow> (case rep of Reply st body \<Rightarrow> st = 500 | NoReply \<Rightarrow> False)
   | Inr (ErrorResponse m) \<Rightarrow> (case rep of Reply st body \<Rightarrow> st = 400 | NoReply \<Rightarrow> False)
   | Inr EmptyResponse \<Rightarrow> rep = Reply 204 None
   | Inr (KeyResponse i) \<Rightarrow> rep = Reply 200 (Some (JObject [(''data'', info_data fmt i)]))
   | Inr (SignResponse s p) \<Rightarrow> rep = Reply 200 (Some (JObject [(''data'', sign_data s p)]))
   | Inr (ExportResponse i k) \<Rightarrow> rep = Reply 200 (Some (JObject [(''data'', export_data fmt i k)]))
   | _ \<Rightarrow> True)"

definition faultless :: "storage_io \<Rightarrow> bool" where
  "faultless io \<longleftrightarrow> reads_work io \<and> writes_work io \<and> \<not> delete_fails io"

text \<open>A request is run by the plugin, after an existence check where the path declares one.\<close>

definition plugin_answers ::
  "('sk, 'pk, 'sg) curve \<Rightarrow> (nat \<Rightarrow> string) \<Rightarrow> ('w \<Rightarrow> backend) \<Rightarrow> 'w transport \<Rightarrow> 'w \<Rightarrow> http_request \<Rightarrow>
     'sk request list \<Rightarrow> 'sk request \<Rightarrow> bool" where
  "plugin_answers L fmt bk http w q pre req \<longleftrightarrow> (\<exists>io. faultless io \<and>
     (let b = run_backend L (bk w) (map (Pair io) pre) in
      bk (fst (http w q)) = next_backend L b (io, req) \<and>
      reply_matches fmt (snd (handle_request L b (io, req))) (snd (http w q))))"

definition serves_keys ::
  "('sk, 'pk, 'sg) curve \<Rightarrow> (nat \<Rightarrow> string) \<Rightarrow> ('w \<Rightarrow> backend) \<Rightarrow> 'w transport \<Rightarrow> cp_client \<Rightarrow> (string \<Rightarrow> bool) \<Rightarrow> bool" where
  "serves_keys L fmt bk http c routable \<longleftrightarrow> (\<forall>w p. routable p \<longrightarrow> p \<noteq> [] \<and>
     (\<forall>x. \<exists>fresh now. plugin_answers L fmt bk http w (new_key_request c p x) [ExistenceCheck p] (KeyCreate p x fresh now)) \<and>
     (\<forall>ct x. \<exists>now. plugin_answers L fmt bk http w (import_key_request c p ct x) [] (KeyImport p ct x now)) \<and>
     (\<forall>d ph. plugin_answers L fmt bk http w (sign_key_request c p d ph) [] (Sign p (b64_encode d) ph ''sha256'' ''cosmos'')) \<and>
     plugin_answers L fmt bk http w (delete_key_request c p) [] (KeyDelete p) \<and>
     plugin_answers L fmt bk http w (cp_export_request c p) [] (KeyExport p))"

section \<open>The client as the service's keyring\<close>

definition openbao_keyring :: "'w transport \<Rightarrow> cp_client \<Rightarrow> (bytes \<Rightarrow> bytes) \<Rightarrow> 'w keyring" where
  "openbao_keyring http c keccak = \<lparr>bk_New = cp_NewAccountWithOptions http c keccak, bk_Import = cp_ImportKey http c keccak,
     bk_Sign = cp_Sign http c, bk_Delete = cp_Delete http c, bk_Export = cp_ExportKey http c\<rparr>"

definition plugin_holds :: "('w \<Rightarrow> backend) \<Rightarrow> 'w \<Rightarrow> string \<Rightarrow> stored option" where
  "plugin_holds bk w p = storage (bk w) (key_path p)"

definition stored_public :: "stored \<Rightarrow> bytes" where
  "stored_public s = (case s of Stored e \<Rightarrow> PublicKey e | Undecodable \<Rightarrow> [])"

definition stored_exportable :: "stored \<Rightarrow> bool" where
  "stored_exportable s = (case s of Stored e \<Rightarrow> Exportable e | Undecodable \<Rightarrow> False)"

section \<open>What the plugin does\<close>

lemma decode_info_data:
  "decode_keyResponse (Some (JObject [(''data'', info_data fmt i)])) = Some
     \<lparr>kd_Name = ki_name i, kd_Address = ki_address i, kd_EthAddress = (case ki_eth_address i of None \<Rightarrow> [] | Some a \<Rightarrow> a),
      kd_PublicKey = ki_public_key i, kd_Errors = []\<rparr>"
  by (cases "ki_eth_address i"; cases "ki_exportable i"; cases "ki_imported i")
    (simp_all add: decode_keyResponse_def json_data_def json_get_def same_field_def fold_char_def info_data_def)

text \<open>The two handlers that make a key store one under a free name and answer with it, or refuse and change nothing.\<close>

definition stores_or_refuses :: "backend \<Rightarrow> string \<Rightarrow> bool \<Rightarrow> backend \<times> (go_error + response) \<Rightarrow> bool" where
  "stores_or_refuses b p x out \<longleftrightarrow>
     (\<exists>e i. storage b (key_path p) = None \<and>
        out = (b\<lparr>storage := (storage b)(key_path p \<mapsto> Stored e), keyCache := (keyCache b)(p \<mapsto> e)\<rparr>, Inr (KeyResponse i)) \<and>
        ki_public_key i = hex_encode (PublicKey e) \<and> Exportable e = x) \<or>
     fst out = b \<and> (case snd out of Inl _ \<Rightarrow> True | Inr r \<Rightarrow> (\<exists>m. r = ErrorResponse m))"

lemma faultless_exists_check:
  "faultless io \<Longrightarrow> exists_check io b p = (if storage b (key_path p) = None then None else Some (Inr (ErrorResponse ''key already exists'')))"
  by (simp add: exists_check_def faultless_def reads_work_def)

lemma create_outcome: "faultless io \<Longrightarrow> stores_or_refuses b p x (pathKeyCreate L io b p x fresh now)"
  by (auto simp: stores_or_refuses_def pathKeyCreate_def faultless_exists_check create_store_def store_entry_def faultless_def
      writes_work_def Let_def split: option.splits)

lemma import_outcome: "faultless io \<Longrightarrow> stores_or_refuses b p x (pathKeyImport L io b p ct x now)"
  by (auto simp: stores_or_refuses_def pathKeyImport_def faultless_exists_check store_entry_def faultless_def
      writes_work_def Let_def split: option.splits)

text \<open>What the client makes of the two kinds of answer.\<close>

lemma key_of_reply_info:
  assumes "ki_public_key i = hex_encode pk"
  shows "\<exists>r eth. key_of_reply keccak chk (Some (JObject [(''data'', info_data fmt i)])) = Inr (r, pk, eth)"
  using assms by (simp add: key_of_reply_def decode_info_data)

definition made_result ::
  "(string \<Rightarrow> stored option) \<Rightarrow> (string \<Rightarrow> stored option) \<Rightarrow> string \<Rightarrow> bool \<Rightarrow> string + (bytes \<times> string \<times> string) \<Rightarrow> bool" where
  "made_result st st' p x res \<longleftrightarrow> (case res of
      Inl _ \<Rightarrow> st' = st
    | Inr (pk, _, _) \<Rightarrow> st (key_path p) = None \<and>
        (\<exists>e. st' = st(key_path p \<mapsto> Stored e) \<and> PublicKey e = pk \<and> Exportable e = x))"

lemma stored_then_made:
  assumes "stores_or_refuses b p x (b', r)" "reply_matches fmt r rep" "storage b = held"
    and "res = (case rep of NoReply \<Rightarrow> Inl m | Reply status body \<Rightarrow>
      if status \<noteq> 200 \<and> (status \<noteq> 204 \<or> only200) then Inl (status_error status)
      else case key_of_reply keccak chk body of Inl e \<Rightarrow> Inl e | Inr (r, pk, eth) \<Rightarrow> Inr (pk, kd_Address r, eth))"
  shows "made_result held (storage b') p x res"
  using assms(1) unfolding stores_or_refuses_def
proof
  assume "\<exists>e i. storage b (key_path p) = None \<and>
    (b', r) = (b\<lparr>storage := (storage b)(key_path p \<mapsto> Stored e), keyCache := (keyCache b)(p \<mapsto> e)\<rparr>, Inr (KeyResponse i)) \<and>
    ki_public_key i = hex_encode (PublicKey e) \<and> Exportable e = x"
  then obtain e i where o: "storage b (key_path p) = None" "storage b' = (storage b)(key_path p \<mapsto> Stored e)"
    "r = Inr (KeyResponse i)" "ki_public_key i = hex_encode (PublicKey e)" "Exportable e = x" by auto
  obtain y eth where "key_of_reply keccak chk (Some (JObject [(''data'', info_data fmt i)])) = Inr (y, PublicKey e, eth)"
    using key_of_reply_info [OF o(4)] by blast
  then show ?thesis using o assms(2-4) by (auto simp: reply_matches_def made_result_def)
next
  assume n: "fst (b', r) = b \<and> (case snd (b', r) of Inl _ \<Rightarrow> True | Inr r \<Rightarrow> (\<exists>m. r = ErrorResponse m))"
  then obtain status body where "rep = Reply status body" "status = 400 \<or> status = 500"
    using assms(2) by (auto simp: reply_matches_def split: sum.splits http_reply.splits)
  then show ?thesis using n assms(3,4) by (auto simp: made_result_def)
qed

section \<open>The contract\<close>

lemma run_pre:
  assumes "coherent b" "faultless io"
  shows "coherent (run_backend L b (map (Pair io) [ExistenceCheck p]))"
    and "storage (run_backend L b (map (Pair io) [ExistenceCheck p])) = storage b"
  using coherent_next [OF assms(1), of L "(io, ExistenceCheck p)"] by simp_all

lemma serves_keysD:
  assumes "serves_keys L fmt bk http c routable" "routable p"
  shows "p \<noteq> []"
    and "\<exists>fresh now. plugin_answers L fmt bk http w (new_key_request c p x) [ExistenceCheck p] (KeyCreate p x fresh now)"
    and "\<exists>now. plugin_answers L fmt bk http w (import_key_request c p ct x) [] (KeyImport p ct x now)"
    and "plugin_answers L fmt bk http w (sign_key_request c p d ph) [] (Sign p (b64_encode d) ph ''sha256'' ''cosmos'')"
    and "plugin_answers L fmt bk http w (delete_key_request c p) [] (KeyDelete p)"
    and "plugin_answers L fmt bk http w (cp_export_request c p) [] (KeyExport p)"
  using assms unfolding serves_keys_def by blast+

lemma openbao_new:
  assumes "serves_keys L fmt bk http c routable" "coherent (bk w)" "routable p"
    and r: "cp_NewAccountWithOptions http c keccak p x w = (w', res)"
  shows "coherent (bk w') \<and> made_result (storage (bk w)) (storage (bk w')) p x res"
proof -
  let ?q = "new_key_request c p x"
  obtain fresh now io where a: "faultless io"
    "bk (fst (http w ?q)) = next_backend L (run_backend L (bk w) (map (Pair io) [ExistenceCheck p])) (io, KeyCreate p x fresh now)"
    "reply_matches fmt (snd (handle_request L (run_backend L (bk w) (map (Pair io) [ExistenceCheck p])) (io, KeyCreate p x fresh now)))
       (snd (http w ?q))"
    using serves_keysD(2) [OF assms(1,3), of w x] unfolding plugin_answers_def Let_def by blast
  define b where "b = run_backend L (bk w) (map (Pair io) [ExistenceCheck p])"
  have w': "w' = fst (http w ?q)"
    using r by (auto simp: cp_NewAccountWithOptions_def new_key_request_def split: prod.splits http_reply.splits)
  have res: "res = (case snd (http w ?q) of NoReply \<Rightarrow> Inl ''request failed'' | Reply status body \<Rightarrow>
      if status \<noteq> 200 \<and> (status \<noteq> 204 \<or> False) then Inl (status_error status)
      else case key_of_reply keccak True body of Inl e \<Rightarrow> Inl e | Inr (r, pk, eth) \<Rightarrow> Inr (pk, kd_Address r, eth))"
    using r by (auto simp: cp_NewAccountWithOptions_def new_key_request_def split: prod.splits http_reply.splits)
  obtain b' rr where o: "pathKeyCreate L io b p x fresh now = (b', rr)" by fastforce
  have "bk w' = b'" using a(2) w' o by (simp add: b_def next_backend_def)
  moreover have "reply_matches fmt rr (snd (http w ?q))" using a(3) o by (simp add: b_def)
  ultimately have "made_result (storage (bk w)) (storage (bk w')) p x res"
    using stored_then_made [OF _ _ _ res, of b p x b' rr fmt "storage (bk w)"] create_outcome [OF a(1), of b p x L fresh now] o
      run_pre(2) [OF assms(2) a(1), of L p] by (simp add: b_def)
  moreover have "coherent (bk w')"
    using coherent_next [OF run_pre(1) [OF assms(2) a(1)]] a(2) w' by simp
  ultimately show ?thesis by simp
qed

lemma openbao_import:
  assumes "serves_keys L fmt bk http c routable" "coherent (bk w)" "routable p"
    and r: "cp_ImportKey http c keccak p ct x w = (w', res)"
  shows "coherent (bk w') \<and> made_result (storage (bk w)) (storage (bk w')) p x res"
proof -
  let ?q = "import_key_request c p ct x"
  obtain now io where a: "faultless io"
    "bk (fst (http w ?q)) = next_backend L (bk w) (io, KeyImport p ct x now)"
    "reply_matches fmt (snd (handle_request L (bk w) (io, KeyImport p ct x now))) (snd (http w ?q))"
    using serves_keysD(3) [OF assms(1,3), of w ct x] unfolding plugin_answers_def Let_def by auto
  have w': "w' = fst (http w ?q)"
    using r by (auto simp: cp_ImportKey_def import_key_request_def split: prod.splits http_reply.splits)
  have res: "res = (case snd (http w ?q) of NoReply \<Rightarrow> Inl ''request failed'' | Reply status body \<Rightarrow>
      if status \<noteq> 200 \<and> (status \<noteq> 204 \<or> True) then Inl (status_error status)
      else case key_of_reply keccak False body of Inl e \<Rightarrow> Inl e | Inr (r, pk, eth) \<Rightarrow> Inr (pk, kd_Address r, eth))"
    using r by (auto simp: cp_ImportKey_def import_key_request_def split: prod.splits http_reply.splits)
  obtain b' rr where o: "pathKeyImport L io (bk w) p ct x now = (b', rr)" by fastforce
  have "bk w' = b'" "reply_matches fmt rr (snd (http w ?q))" using a(2,3) w' o by (simp_all add: next_backend_def)
  then have "made_result (storage (bk w)) (storage (bk w')) p x res"
    using stored_then_made [OF _ _ refl res, of "bk w" p x b' rr fmt] import_outcome [OF a(1), of "bk w" p x L ct now] o by simp
  moreover have "coherent (bk w')" using coherent_next [OF assms(2)] a(2) w' by simp
  ultimately show ?thesis by simp
qed

text \<open>The requests that write nothing, and the deletion.\<close>

lemma openbao_reads:
  assumes "coherent (bk w)" "plugin_answers L fmt bk http w q [] req"
    and "\<And>io b. storage (next_backend L b (io, req)) = storage b"
  shows "coherent (bk (fst (http w q))) \<and> plugin_holds bk (fst (http w q)) = plugin_holds bk w"
  using assms coherent_next [OF assms(1)] by (auto simp: plugin_answers_def Let_def plugin_holds_def)

lemma cp_fst:
  "fst (cp_Sign http c p d ph w) = fst (http w (sign_key_request c p d ph))"
  "fst (cp_ExportKey http c p w) = fst (http w (cp_export_request c p))"
  "fst (cp_Delete http c p w) = fst (http w (delete_key_request c p))"
  by (simp_all add: cp_Sign_def sign_key_request_def cp_ExportKey_def cp_Delete_def delete_key_request_def
      split: prod.split http_reply.split)

lemma openbao_deleted:
  assumes "serves_keys L fmt bk http c routable" "coherent (bk w)" "routable p"
  shows "snd (cp_Delete http c p w) = None \<and> coherent (bk (fst (cp_Delete http c p w))) \<and>
    plugin_holds bk (fst (cp_Delete http c p w)) = (plugin_holds bk w)(p := None)"
proof -
  let ?q = "delete_key_request c p"
  obtain io where a: "faultless io" "bk (fst (http w ?q)) = next_backend L (bk w) (io, KeyDelete p)"
    "reply_matches fmt (snd (handle_request L (bk w) (io, KeyDelete p))) (snd (http w ?q))"
    using serves_keysD(5) [OF assms(1,3), of w] unfolding plugin_answers_def Let_def by auto
  have h: "handle_request L (bk w) (io, KeyDelete p) =
      ((bk w)\<lparr>storage := (storage (bk w))(key_path p := None), keyCache := (keyCache (bk w))(p := None)\<rparr>, Inr EmptyResponse)"
    using a(1) serves_keysD(1) [OF assms(1,3)] by (simp add: pathKeyDelete_def faultless_def)
  have "snd (http w ?q) = Reply 204 None" using a(3) h by (simp add: reply_matches_def)
  then have "snd (cp_Delete http c p w) = None"
    by (cases "http w ?q") (simp add: cp_Delete_def delete_key_request_def)
  moreover have "coherent (bk (fst (cp_Delete http c p w)))"
    using coherent_next [OF assms(2)] a(2) by (simp add: cp_fst)
  moreover have "plugin_holds bk (fst (cp_Delete http c p w)) = (plugin_holds bk w)(p := None)"
    using a(2) h by (auto simp: cp_fst plugin_holds_def next_backend_def)
  ultimately show ?thesis by simp
qed

text \<open>The answer to a signing request is a function of the plugin's storage.\<close>

definition sign_answer :: "go_error + response \<Rightarrow> string + (bytes \<times> bytes)" where
  "sign_answer r = (case r of
     Inl _ \<Rightarrow> Inl (status_error 500)
   | Inr (SignResponse s p) \<Rightarrow>
       if s = [] then Inl ''empty signature returned''
       else (case b64_decode s of None \<Rightarrow> Inl ''failed to decode signature''
        | Some sig \<Rightarrow> (case hex_decode p of None \<Rightarrow> Inl ''failed to decode public key'' | Some pubKey \<Rightarrow> Inr (sig, pubKey)))
   | Inr _ \<Rightarrow> Inl (status_error 400))"

lemma sign_response_kind:
  "case snd (pathSignWrite L io b p i ph a f) of Inl _ \<Rightarrow> True | Inr r \<Rightarrow> (\<exists>m. r = ErrorResponse m) \<or> (\<exists>s k. r = SignResponse s k)"
  by (auto simp: pathSignWrite_def with_key_def sign_with_entry_def Let_def split: option.split sum.split prod.split)

lemma decode_sign_data [simp]: "decode_signResponse (Some (JObject [(''data'', sign_data s p)])) = Some (s, p)"
  by (simp add: decode_signResponse_def json_data_def json_get_def same_field_def fold_char_def sign_data_def)

lemma sign_answered:
  assumes "plugin_answers L fmt bk http w (sign_key_request c p d ph) [] (Sign p (b64_encode d) ph ''sha256'' ''cosmos'')"
  shows "\<exists>io. faultless io \<and>
    snd (cp_Sign http c p d ph w) = sign_answer (snd (pathSignWrite L io (bk w) p (b64_encode d) ph ''sha256'' ''cosmos''))"
proof -
  let ?q = "sign_key_request c p d ph"
  obtain io where a: "faultless io"
    "reply_matches fmt (snd (pathSignWrite L io (bk w) p (b64_encode d) ph ''sha256'' ''cosmos'')) (snd (http w ?q))"
    using assms unfolding plugin_answers_def Let_def by auto
  have k: "snd (cp_Sign http c p d ph w) = (case snd (http w ?q) of NoReply \<Rightarrow> Inl ''request failed'' | Reply status body \<Rightarrow>
      if status \<noteq> 200 then Inl (status_error status)
      else case decode_signResponse body of
        None \<Rightarrow> Inl ''failed to parse response''
      | Some (s, p) \<Rightarrow>
          if s = [] then Inl ''empty signature returned''
          else case b64_decode s of
            None \<Rightarrow> Inl ''failed to decode signature''
          | Some sig \<Rightarrow>
              (case hex_decode p of None \<Rightarrow> Inl ''failed to decode public key'' | Some pubKey \<Rightarrow> Inr (sig, pubKey)))"
    by (simp add: cp_Sign_def sign_key_request_def split: prod.split http_reply.split)
  have "snd (cp_Sign http c p d ph w) = sign_answer (snd (pathSignWrite L io (bk w) p (b64_encode d) ph ''sha256'' ''cosmos''))"
    using a(2) sign_response_kind [of L io "bk w" p "b64_encode d" ph "''sha256''" "''cosmos''"] unfolding k
    by (auto simp: reply_matches_def sign_answer_def split: sum.splits http_reply.splits)
  then show ?thesis using a(1) by blast
qed

lemma sign_same_io:
  assumes "coherent b" "coherent b'" "storage b (key_path p) = storage b' (key_path p)" "faultless io" "faultless io'"
  shows "snd (pathSignWrite L io b p i ph a f) = snd (pathSignWrite L io' b' p i ph a f)"
proof -
  have "snd (getKey io b p) = snd (getKey io' b' p)"
    using getKey_stored [OF assms(1), of io p] getKey_stored [OF assms(2), of io' p] assms(3-5)
    by (simp add: faultless_def stored_key_def)
  then have "snd (with_key io b p g) = snd (with_key io' b' p g)" for g by (simp add: with_key_snd)
  then show ?thesis by (simp add: pathSignWrite_def split: option.split sum.split)
qed

lemma openbao_sign_steady:
  assumes "serves_keys L fmt bk http c routable" "coherent (bk w)" "coherent (bk w2)" "routable p"
    and st: "storage (bk w) (key_path p) = storage (bk w2) (key_path p)"
  shows "snd (cp_Sign http c p d ph w) = snd (cp_Sign http c p d ph w2)"
proof -
  obtain io io' where "faultless io" "faultless io'"
    "snd (cp_Sign http c p d ph w) = sign_answer (snd (pathSignWrite L io (bk w) p (b64_encode d) ph ''sha256'' ''cosmos''))"
    "snd (cp_Sign http c p d ph w2) = sign_answer (snd (pathSignWrite L io' (bk w2) p (b64_encode d) ph ''sha256'' ''cosmos''))"
    using sign_answered serves_keysD(4) [OF assms(1,4)] by metis
  then show ?thesis using sign_same_io [OF assms(2,3) st, of io io' L "b64_encode d" ph "''sha256''" "''cosmos''"] by simp
qed

lemma made_holds:
  assumes "made_result (storage (bk w)) (storage (bk w')) p x (Inr (pk, a, h))"
  shows "plugin_holds bk w p = None \<and>
    (\<exists>e. plugin_holds bk w' = (plugin_holds bk w)(p \<mapsto> e) \<and> stored_public e = pk \<and> stored_exportable e = x)"
proof -
  obtain e where e: "storage (bk w) (key_path p) = None" "storage (bk w') = (storage (bk w))(key_path p \<mapsto> Stored e)"
    "PublicKey e = pk" "Exportable e = x" using assms by (auto simp: made_result_def)
  then have "plugin_holds bk w' = (plugin_holds bk w)(p \<mapsto> Stored e)" by (auto simp: plugin_holds_def)
  then show ?thesis using e by (auto simp: plugin_holds_def stored_public_def stored_exportable_def)
qed

lemma openbao_contract:
  assumes s: "serves_keys L fmt bk http c routable"
  shows "bao_keyring (openbao_keyring http c keccak) (plugin_holds bk) stored_public stored_exportable
    (\<lambda>w. coherent (bk w)) routable"
proof
  fix w w' p x pk a h m ct d ph w2
  note defs = openbao_keyring_def plugin_holds_def made_result_def fun_eq_iff
  show "routable p \<Longrightarrow> p \<noteq> []" by (rule serves_keysD(1) [OF s])
  show "coherent (bk w') \<and> plugin_holds bk w p = None \<and>
      (\<exists>e. plugin_holds bk w' = (plugin_holds bk w)(p \<mapsto> e) \<and> stored_public e = pk \<and> stored_exportable e = x)"
    if "coherent (bk w)" "routable p" "bk_New (openbao_keyring http c keccak) p x w = (w', Inr (pk, a, h))"
    using openbao_new [OF s that(1,2), of keccak x w' "Inr (pk, a, h)"] that(3)
      made_holds [of bk w w' p x pk a h]
    by (simp add: openbao_keyring_def)
  show "coherent (bk w') \<and> plugin_holds bk w' = plugin_holds bk w"
    if "coherent (bk w)" "routable p" "bk_New (openbao_keyring http c keccak) p x w = (w', Inl m)"
    using openbao_new [OF s that(1,2), of keccak x w' "Inl m"] that(3) by (simp add: defs)
  show "coherent (bk w') \<and> plugin_holds bk w p = None \<and>
      (\<exists>e. plugin_holds bk w' = (plugin_holds bk w)(p \<mapsto> e) \<and> stored_public e = pk \<and> stored_exportable e = x)"
    if "coherent (bk w)" "routable p" "bk_Import (openbao_keyring http c keccak) p ct x w = (w', Inr (pk, a, h))"
    using openbao_import [OF s that(1,2), of keccak ct x w' "Inr (pk, a, h)"] that(3)
      made_holds [of bk w w' p x pk a h]
    by (simp add: openbao_keyring_def)
  show "coherent (bk w') \<and> plugin_holds bk w' = plugin_holds bk w"
    if "coherent (bk w)" "routable p" "bk_Import (openbao_keyring http c keccak) p ct x w = (w', Inl m)"
    using openbao_import [OF s that(1,2), of keccak ct x w' "Inl m"] that(3) by (simp add: defs)
  show "coherent (bk (fst (bk_Sign (openbao_keyring http c keccak) p d ph w))) \<and>
      plugin_holds bk (fst (bk_Sign (openbao_keyring http c keccak) p d ph w)) = plugin_holds bk w"
    if "coherent (bk w)" "routable p"
    using openbao_reads [where bk = bk and w = w and L = L and fmt = fmt and http = http and q = "sign_key_request c p d ph", OF that(1) serves_keysD(4) [OF s that(2)]]
    by (simp add: openbao_keyring_def cp_fst next_backend_def)
  show "coherent (bk (fst (bk_Export (openbao_keyring http c keccak) p w))) \<and>
      plugin_holds bk (fst (bk_Export (openbao_keyring http c keccak) p w)) = plugin_holds bk w"
    if "coherent (bk w)" "routable p"
    using openbao_reads [where bk = bk and w = w and L = L and fmt = fmt and http = http and q = "cp_export_request c p", OF that(1) serves_keysD(6) [OF s that(2)]]
    by (simp add: openbao_keyring_def cp_fst next_backend_def)
  show "snd (bk_Sign (openbao_keyring http c keccak) p d ph w) = snd (bk_Sign (openbao_keyring http c keccak) p d ph w2)"
    if "coherent (bk w)" "coherent (bk w2)" "routable p" "plugin_holds bk w = plugin_holds bk w2"
    using openbao_sign_steady [OF s that(1-3), of d ph] fun_cong [OF that(4), of p]
    by (simp add: openbao_keyring_def plugin_holds_def)
  show "snd (bk_Delete (openbao_keyring http c keccak) p w) = None \<and>
      coherent (bk (fst (bk_Delete (openbao_keyring http c keccak) p w))) \<and>
      plugin_holds bk (fst (bk_Delete (openbao_keyring http c keccak) p w)) = (plugin_holds bk w)(p := None)"
    if "coherent (bk w)" "routable p"
    using openbao_deleted [OF s that] by (simp add: openbao_keyring_def)
qed

section \<open>A router\<close>

text \<open>
  A router that serves the keys: names without a slash, the plugin's own random source and clock read at the number
  of the request. It makes the contract a fact about the model's own client and handlers.
\<close>

definition plain_name :: "string \<Rightarrow> bool" where
  "plain_name p \<longleftrightarrow> p \<noteq> [] \<and> CHR ''/'' \<notin> set p"

definition route_segments ::
  "(nat \<Rightarrow> 'sk option) \<Rightarrow> (nat \<Rightarrow> nat) \<Rightarrow> nat \<Rightarrow> string \<Rightarrow> jsonv \<Rightarrow> string list \<Rightarrow> ('sk request list \<times> 'sk request) option" where
  "route_segments ent clk n meth body segs =
     (let name = segs ! 1 in
      if length segs = 3 \<and> segs ! 0 = ''keys'' \<and> segs ! 2 = ''import'' \<and> meth = ''POST'' then
        Option.bind (json_text (json_get ''ciphertext'' body)) (\<lambda>ct.
          map_option (\<lambda>x. ([], KeyImport name ct x (clk n))) (json_flag (json_get ''exportable'' body)))
      else if length segs \<noteq> 2 then None
      else if segs ! 0 = ''keys'' \<and> meth = ''POST'' then
        map_option (\<lambda>x. ([ExistenceCheck name], KeyCreate name x (ent n) (clk n))) (json_flag (json_get ''exportable'' body))
      else if segs ! 0 = ''keys'' \<and> meth = ''DELETE'' then Some ([], KeyDelete name)
      else if segs ! 0 = ''export'' \<and> meth = ''GET'' then Some ([], KeyExport name)
      else if segs ! 0 = ''sign'' \<and> meth = ''POST'' then
        Option.bind (json_text (json_get ''input'' body)) (\<lambda>i.
          map_option (\<lambda>ph. ([], Sign name i ph ''sha256'' ''cosmos'')) (json_flag (json_get ''prehashed'' body)))
      else None)"

definition url_segments :: "cp_client \<Rightarrow> http_request \<Rightarrow> string list" where
  "url_segments c q = split_on (CHR ''/'') (trim_prefix (cp_address c @ ''/v1/'' @ cp_mount c @ ''/'') (hq_url q))"

definition body_of :: "http_request \<Rightarrow> jsonv" where
  "body_of q = (case hq_body q of None \<Rightarrow> JNull | Some j \<Rightarrow> j)"

definition route_request ::
  "(nat \<Rightarrow> 'sk option) \<Rightarrow> (nat \<Rightarrow> nat) \<Rightarrow> cp_client \<Rightarrow> nat \<Rightarrow> http_request \<Rightarrow> ('sk request list \<times> 'sk request) option" where
  "route_request ent clk c n q = route_segments ent clk n (hq_method q) (body_of q) (url_segments c q)"

definition reply_of :: "(nat \<Rightarrow> string) \<Rightarrow> go_error + response \<Rightarrow> http_reply" where
  "reply_of fmt r = (case r of
     Inl e \<Rightarrow> Reply 500 None
   | Inr (ErrorResponse m) \<Rightarrow> Reply 400 None
   | Inr EmptyResponse \<Rightarrow> Reply 204 None
   | Inr (KeyResponse i) \<Rightarrow> Reply 200 (Some (JObject [(''data'', info_data fmt i)]))
   | Inr (SignResponse s p) \<Rightarrow> Reply 200 (Some (JObject [(''data'', sign_data s p)]))
   | Inr (ExportResponse i k) \<Rightarrow> Reply 200 (Some (JObject [(''data'', export_data fmt i k)]))
   | _ \<Rightarrow> Reply 200 None)"

definition route_keys ::
  "('sk, 'pk, 'sg) curve \<Rightarrow> (nat \<Rightarrow> string) \<Rightarrow> (nat \<Rightarrow> 'sk option) \<Rightarrow> (nat \<Rightarrow> nat) \<Rightarrow> cp_client \<Rightarrow> (backend \<times> nat) transport" where
  "route_keys L fmt ent clk c w q =
     (case route_request ent clk c (snd w) q of
        None \<Rightarrow> (w, Reply 404 None)
      | Some (pre, req) \<Rightarrow>
          (let b = run_backend L (fst w) (map (Pair no_faults) pre) in
           ((next_backend L b (no_faults, req), Suc (snd w)), reply_of fmt (snd (handle_request L b (no_faults, req))))))"

lemma reply_of_matches: "reply_matches fmt r (reply_of fmt r)"
  by (simp add: reply_matches_def reply_of_def split: sum.split response.split)

lemma faultless_no_faults: "faultless no_faults"
  by (simp add: faultless_def) (simp add: no_faults_def)

lemma route_answers:
  assumes "\<And>n. route_request ent clk c n q = Some (pre, req n)"
  shows "plugin_answers L fmt fst (route_keys L fmt ent clk c) w q pre (req (snd w))"
  using assms faultless_no_faults reply_of_matches
  by (auto simp: plugin_answers_def route_keys_def Let_def)

lemma segments_keys: "plain_name p \<Longrightarrow> split_on (CHR ''/'') (''keys/'' @ p) = [''keys'', p]"
  and segments_sign: "plain_name p \<Longrightarrow> split_on (CHR ''/'') (''sign/'' @ p) = [''sign'', p]"
  and segments_export: "plain_name p \<Longrightarrow> split_on (CHR ''/'') (''export/'' @ p) = [''export'', p]"
  by (simp_all add: plain_name_def split_on_plain)

lemma segments_import: "plain_name p \<Longrightarrow> split_on (CHR ''/'') (''keys/'' @ p @ ''/import'') = [''keys'', p, ''import'']"
  using split_on_sep [of "CHR ''/''" p "''import''"] by (simp add: plain_name_def)

lemma trim_url:
  "trim_prefix (cp_address c @ ''/v1/'' @ cp_mount c @ ''/'') (cp_address c @ ''/v1/'' @ cp_mount c @ ''/'' @ r) = r"
  using trim_prefix_append [of "cp_address c @ ''/v1/'' @ cp_mount c @ ''/''" r] by (simp only: append_assoc)

lemma url_of:
  "hq_url (new_key_request c p x) = cp_address c @ ''/v1/'' @ cp_mount c @ ''/'' @ ''keys/'' @ p"
  "hq_url (import_key_request c p ct x) = cp_address c @ ''/v1/'' @ cp_mount c @ ''/'' @ ''keys/'' @ p @ ''/import''"
  "hq_url (sign_key_request c p d ph) = cp_address c @ ''/v1/'' @ cp_mount c @ ''/'' @ ''sign/'' @ p"
  "hq_url (delete_key_request c p) = cp_address c @ ''/v1/'' @ cp_mount c @ ''/'' @ ''keys/'' @ p"
  "hq_url (cp_export_request c p) = cp_address c @ ''/v1/'' @ cp_mount c @ ''/'' @ ''export/'' @ p"
  by (simp_all add: new_key_request_def import_key_request_def sign_key_request_def delete_key_request_def
      cp_export_request_def cp_request_def keys_path_def)

lemma method_body_of:
  "hq_method (new_key_request c p x) = ''POST''" "body_of (new_key_request c p x) = JObject [(''exportable'', JBool x)]"
  "hq_method (import_key_request c p ct x) = ''POST''"
  "body_of (import_key_request c p ct x) = JObject [(''ciphertext'', JString ct), (''exportable'', JBool x)]"
  "hq_method (sign_key_request c p d ph) = ''POST''"
  "body_of (sign_key_request c p d ph) = JObject [(''input'', JString (b64_encode d)), (''prehashed'', JBool ph)]"
  "hq_method (delete_key_request c p) = ''DELETE''" "hq_method (cp_export_request c p) = ''GET''"
  by (simp_all add: new_key_request_def import_key_request_def sign_key_request_def delete_key_request_def
      cp_export_request_def cp_request_def body_of_def)

lemma routed:
  assumes "plain_name p"
  shows "route_request ent clk c n (new_key_request c p x) = Some ([ExistenceCheck p], KeyCreate p x (ent n) (clk n))"
    and "route_request ent clk c n (import_key_request c p ct x) = Some ([], KeyImport p ct x (clk n))"
    and "route_request ent clk c n (sign_key_request c p d ph) = Some ([], Sign p (b64_encode d) ph ''sha256'' ''cosmos'')"
    and "route_request ent clk c n (delete_key_request c p) = Some ([], KeyDelete p)"
    and "route_request ent clk c n (cp_export_request c p) = Some ([], KeyExport p)"
  unfolding route_request_def url_segments_def url_of trim_url segments_keys [OF assms] segments_sign [OF assms]
    segments_export [OF assms] segments_import [OF assms] method_body_of
  by (simp_all add: route_segments_def json_get_def same_field_def fold_char_def)

lemma route_serves_keys: "serves_keys L fmt fst (route_keys L fmt ent clk c) c plain_name"
  unfolding serves_keys_def
proof (intro allI impI conjI)
  fix w p x ct d ph assume p: "plain_name p"
  show "p \<noteq> []" using p by (simp add: plain_name_def)
  show "\<exists>fresh now. plugin_answers L fmt fst (route_keys L fmt ent clk c) w (new_key_request c p x) [ExistenceCheck p]
      (KeyCreate p x fresh now)"
    using route_answers [OF routed(1) [OF p], where L = L and fmt = fmt and w = w] by blast
  show "\<exists>now. plugin_answers L fmt fst (route_keys L fmt ent clk c) w (import_key_request c p ct x) [] (KeyImport p ct x now)"
    using route_answers [OF routed(2) [OF p], where L = L and fmt = fmt and w = w] by blast
  show "plugin_answers L fmt fst (route_keys L fmt ent clk c) w (sign_key_request c p d ph) []
      (Sign p (b64_encode d) ph ''sha256'' ''cosmos'')"
    by (rule route_answers) (rule routed(3) [OF p])
  show "plugin_answers L fmt fst (route_keys L fmt ent clk c) w (delete_key_request c p) [] (KeyDelete p)"
    by (rule route_answers) (rule routed(4) [OF p])
  show "plugin_answers L fmt fst (route_keys L fmt ent clk c) w (cp_export_request c p) [] (KeyExport p)"
    by (rule route_answers) (rule routed(5) [OF p])
qed

interpretation routed: bao_keyring "openbao_keyring (route_keys L fmt ent clk c) c keccak" "plugin_holds fst" stored_public
    stored_exportable "\<lambda>w. coherent (fst w)" plain_name
  for L fmt ent clk c keccak
  by (rule openbao_contract [OF route_serves_keys])

section \<open>The key table and the plugin's storage\<close>

definition keys_in_step :: "('w \<Rightarrow> backend) \<Rightarrow> (string \<Rightarrow> bool) \<Rightarrow> 'w \<times> keydb \<Rightarrow> bool" where
  "keys_in_step bk routable s \<longleftrightarrow> coherent (bk (fst s)) \<and> distinct (map ky_ID (db_keys (snd s))) \<and>
     (\<forall>k\<in>set (db_keys (snd s)). routable (ky_BaoKeyPath k)) \<and>
     (\<forall>k\<in>set (db_keys (snd s)). \<not> ky_Deleted k \<longrightarrow>
        (\<exists>e. plugin_holds bk (fst s) (ky_BaoKeyPath k) = Some e \<and> stored_public e = ky_PublicKey k \<and>
           stored_exportable e = ky_Exportable k)) \<and>
     (\<forall>k\<in>set (db_keys (snd s)). \<forall>k'\<in>set (db_keys (snd s)). \<not> ky_Deleted k \<longrightarrow> \<not> ky_Deleted k' \<longrightarrow>
        ky_BaoKeyPath k = ky_BaoKeyPath k' \<longrightarrow> k = k')"

lemma in_step_openbao:
  assumes "serves_keys L fmt bk http c routable"
  shows "bao_keyring.in_step (plugin_holds bk) stored_public stored_exportable (\<lambda>w. coherent (bk w)) routable =
    keys_in_step bk routable"
  by (intro ext) (simp add: bao_keyring.in_step_def [OF openbao_contract [OF assms]] keys_in_step_def)


text \<open>An empty service over an empty plugin, and creations.\<close>

definition demo_client :: cp_client where
  "demo_client = NewClient ''bao'' ''t'' []"

definition demo_keyring :: "(backend \<times> nat) keyring" where
  "demo_keyring = openbao_keyring (route_keys toy_curve (\<lambda>_. ''now'') Some id demo_client) demo_client (\<lambda>_. replicate 32 7)"

definition demo_service :: "(backend \<times> nat) \<times> keydb" where
  "demo_service = ((Factory Map.empty, 1), example_db)"

definition demo_create :: "uuid \<Rightarrow> string \<Rightarrow> (backend \<times> nat) \<times> keydb \<Rightarrow> (backend \<times> nat) \<times> keydb" where
  "demo_create i n s = fst (ks_Create demo_keyring (\<lambda>_. False) example_text i (example_create n) s)"

lemma demo_serves:
  "serves_keys toy_curve (\<lambda>_. ''now'') fst (route_keys toy_curve (\<lambda>_. ''now'') Some id demo_client) demo_client plain_name"
  by (rule route_serves_keys)

lemma demo_create_step: "CHR ''/'' \<notin> set n \<Longrightarrow> clean_step demo_keyring example_text plain_name s (demo_create i n s)"
  by (rule clean_step.create [where f = "\<lambda>_. False" and i = i and req = "example_create n"])
    (simp_all add: demo_create_def prod_eq_iff plain_name_def bao_key_name_def example_create_def)

lemma demo_service_in_step: "keys_in_step fst plain_name demo_service"
  using coherent_Factory by (simp add: keys_in_step_def demo_service_def example_db_def)


text \<open>
  Deleting a key twice destroys its successor: a deletion does not look whether the row is deleted already,
  so a second request for it removes from the plugin whatever key has the name now, fails, and leaves the
  row of the new key live without a key.
\<close>

lemma repeated_delete_destroys_new_key:
  assumes "serves_keys L fmt bk http c routable" "keys_in_step bk routable (w, db)"
    and "old \<in> set (db_keys db)" "ky_Deleted old" "new \<in> set (db_keys db)" "\<not> ky_Deleted new"
    and "ky_BaoKeyPath new = ky_BaoKeyPath old" "AllowsKey cx (ky_ID old)" "\<not> f GetKeyRow"
  shows "\<exists>w'. ks_Delete (openbao_keyring http c keccak) cx f (ky_OrgID old) (ky_ID old) (w, db) =
      ((w', db), Some (SvcFailed ''failed to delete key metadata'')) \<and>
    storage (bk w) (key_path (ky_BaoKeyPath new)) \<noteq> None \<and> storage (bk w') (key_path (ky_BaoKeyPath new)) = None"
proof -
  have "plugin_holds bk w (ky_BaoKeyPath new) \<noteq> None" using assms(2,5,6) by (auto simp: keys_in_step_def)
  then show ?thesis
    using bao_keyring.deleted_again [OF openbao_contract [OF assms(1)], of w db old "ky_OrgID old" cx f keccak]
      assms(2-4,7-9)
    unfolding in_step_openbao [OF assms(1)] by (auto simp: plugin_holds_def)
qed

definition twice_rows :: "key_row \<times> key_row" where
  "twice_rows = (e2e_row\<lparr>ky_Deleted := True\<rparr>, e2e_row\<lparr>ky_ID := 1\<rparr>)"

definition twice_state :: "(backend \<times> nat) \<times> keydb" where
  "twice_state = ((Factory [key_path ''k'' \<mapsto> Stored e2e_entry], 1),
     example_db\<lparr>db_keys := [fst twice_rows, snd twice_rows]\<rparr>)"

lemma twice_in_step: "keys_in_step fst plain_name twice_state"
  using coherent_Factory
  by (simp add: keys_in_step_def twice_state_def twice_rows_def e2e_row_def e2e_entry_def plain_name_def plugin_holds_def
      stored_public_def stored_exportable_def Factory_def)

theorem repeated_delete_destroys_new_key_witness:
  "\<exists>w'. ks_Delete demo_keyring example_ctx (\<lambda>_. False) 2 7 twice_state =
      ((w', snd twice_state), Some (SvcFailed ''failed to delete key metadata'')) \<and> storage (fst w') (key_path ''k'') = None"
proof -
  obtain w db where t: "twice_state = (w, db)" by (cases twice_state)
  have r: "fst twice_rows \<in> set (db_keys db)" "ky_Deleted (fst twice_rows)" "snd twice_rows \<in> set (db_keys db)"
    "\<not> ky_Deleted (snd twice_rows)" "ky_BaoKeyPath (snd twice_rows) = ky_BaoKeyPath (fst twice_rows)"
    "AllowsKey example_ctx (ky_ID (fst twice_rows))"
    using t by (auto simp: twice_state_def twice_rows_def e2e_row_def AllowsKey_def example_ctx_def apikey_context_def)
  have i: "ky_OrgID (fst twice_rows) = 2" "ky_ID (fst twice_rows) = 7" "ky_BaoKeyPath (snd twice_rows) = ''k''"
    by (simp_all add: twice_rows_def e2e_row_def)
  show ?thesis
    using repeated_delete_destroys_new_key [OF demo_serves twice_in_step [unfolded t] r, of "\<lambda>_. False" "\<lambda>_. replicate 32 7"]
    unfolding i t demo_keyring_def by auto
qed




text \<open>
  A batch signs like its requests one by one: once the batch is admitted, whatever the order in which the
  goroutines run, slot i of the answer is what signing request i alone answers in the state the batch
  started in. (Its usage counter with it, so a batch of any size passes a quota with one signature left.)
\<close>

lemma batch_signatures_like_single:
  assumes "serves_keys L fmt bk http c routable" "keys_in_step bk routable s" "set sched = {..<length reqs}"
    and "list_all (\<lambda>r. AllowsKey cx (sq_KeyID r)) reqs" "checkSignatureQuota f (snd s) org = None"
  shows "snd (ks_SignBatch (openbao_keyring http c keccak) cx f fs sched org reqs s) =
    Inr (List.map (\<lambda>i. snd (batch_sign_one (openbao_keyring http c keccak) cx (fs i) org (reqs ! i) s)) [0..<length reqs])"
  using bao_keyring.batch_results [OF openbao_contract [OF assms(1)] _ assms(3-5)] assms(2)
  unfolding in_step_openbao [OF assms(1)] by blast

definition signing_row :: key_row where
  "signing_row = e2e_row\<lparr>ky_OrgID := 1, ky_PublicKey := lib_compressed toy_curve (lib_pub toy_curve 5)\<rparr>"

definition signing_state :: "(backend \<times> nat) \<times> keydb" where
  "signing_state = ((Factory [key_path ''k'' \<mapsto> Stored (created_entry toy_curve 5 False 0)], 1),
     example_db\<lparr>db_keys := [signing_row]\<rparr>)"

lemma signing_in_step: "keys_in_step fst plain_name signing_state"
  using coherent_Factory
  by (simp add: keys_in_step_def signing_state_def signing_row_def e2e_row_def plain_name_def plugin_holds_def
      stored_public_def stored_exportable_def created_entry_def Factory_def)

lemma signing_admitted: "checkSignatureQuota (\<lambda>_. False) (snd signing_state) 1 = None"
  by (simp add: checkSignatureQuota_def signing_state_def example_db_def GetPlanLimits_def PlanLimitsMap_def)


theorem batch_signatures_like_single_witness:
  "\<exists>rs. snd (ks_SignBatch demo_keyring example_ctx (\<lambda>_. False) (\<lambda>_ _. False) [1, 0] 1
      [\<lparr>sq_KeyID = 7, sq_Data = b64_encode (replicate 32 9), sq_Prehashed = True\<rparr>,
       \<lparr>sq_KeyID = 7, sq_Data = ''!'', sq_Prehashed = False\<rparr>] signing_state) = Inr rs \<and> length rs = 2"
proof -
  let ?reqs = "[\<lparr>sq_KeyID = 7, sq_Data = b64_encode (replicate 32 9), sq_Prehashed = True\<rparr>,
       \<lparr>sq_KeyID = 7, sq_Data = ''!'', sq_Prehashed = False\<rparr>]"
  have "set [1, 0] = {..<length ?reqs}" by auto
  moreover have "list_all (\<lambda>r. AllowsKey example_ctx (sq_KeyID r)) ?reqs"
    by (simp add: AllowsKey_def example_ctx_def apikey_context_def)
  ultimately show ?thesis
    using batch_signatures_like_single [OF demo_serves signing_in_step _ _ signing_admitted, of "[1, 0]" ?reqs]
    unfolding demo_keyring_def by simp
qed

end
