(* ===== verification/ApiKeyService.thy ===== *)
theory ApiKeyService
  imports KeyService
begin

text \<open>
  The API key service, \<open>service/api_key_service.go\<close>, over the table of
  \<open>repository/api_key_repo.go\<close>: the format of a raw key, its Argon2 hash with the encoded
  parameters, creation with its checks, validation, revocation and deletion. Argon2 is a parameter
  (\<open>argon\<close>, \<open>None\<close> for its panic on zero parameters), random bytes are arguments of a call, \<open>None\<close>
  when reading them fails, and the clock is an argument in nanoseconds. White space of a name is
  that of ASCII, a day has 24 hours, and the update of the last use has no counterpart.
\<close>

section \<open>The table\<close>

record api_row = APIKey +
  ar_UserID :: "uuid option"
  ar_Name :: string
  ar_KeyPrefix :: string
  ar_KeyHash :: string

datatype api_query = InsertApiKey | SelectApiKey | RevokeApiKey | DeleteApiKey | SelectSigningKey

type_synonym api_faults = "api_query \<Rightarrow> bool"

definition repo_insert :: "api_faults \<Rightarrow> api_row \<Rightarrow> api_row list \<Rightarrow> api_row list option" where
  "repo_insert f k rows =
     (if f InsertApiKey \<or> list_ex (\<lambda>r. ak_ID r = ak_ID k) rows then None else Some (rows @ [k]))"

definition api_GetByID :: "api_row list \<Rightarrow> uuid \<Rightarrow> api_row option" where
  "api_GetByID rows i = find (\<lambda>r. ak_ID r = i) rows"

definition api_GetByPrefix :: "api_row list \<Rightarrow> string \<Rightarrow> api_row option" where
  "api_GetByPrefix rows p = find (\<lambda>r. ar_KeyPrefix r = p) rows"

text \<open>The list leaves the hash out.\<close>

definition api_ListByOrg :: "api_row list \<Rightarrow> uuid \<Rightarrow> api_row list" where
  "api_ListByOrg rows orgID = map (\<lambda>r. r\<lparr>ar_KeyHash := []\<rparr>) (filter (\<lambda>r. ak_OrgID r = orgID) rows)"

text \<open>No row affected is an error of both.\<close>

definition repo_revoke :: "api_faults \<Rightarrow> nat \<Rightarrow> uuid \<Rightarrow> api_row list \<Rightarrow> api_row list option" where
  "repo_revoke f now i rows =
     (if f RevokeApiKey \<or> \<not> list_ex (\<lambda>r. ak_ID r = i \<and> ak_RevokedAt r = None) rows then None
      else Some (map (\<lambda>r. if ak_ID r = i \<and> ak_RevokedAt r = None then r\<lparr>ak_RevokedAt := Some now\<rparr> else r) rows))"

definition repo_delete :: "api_faults \<Rightarrow> uuid \<Rightarrow> api_row list \<Rightarrow> api_row list option" where
  "repo_delete f i rows =
     (if f DeleteApiKey \<or> \<not> list_ex (\<lambda>r. ak_ID r = i) rows then None
      else Some (filter (\<lambda>r. ak_ID r \<noteq> i) rows))"

section \<open>Raw keys and their hashes\<close>

definition base62Alphabet :: string where
  "base62Alphabet = ''0123456789ABCDEFGHIJKLMNOPQRSTUVWXYZabcdefghijklmnopqrstuvwxyz''"

definition base62Encode :: "bytes \<Rightarrow> string" where
  "base62Encode bs = map (\<lambda>b. base62Alphabet ! (unat b mod 62)) bs"

definition generateKey :: "string \<Rightarrow> bytes option \<Rightarrow> (string \<times> string) option" where
  "generateKey env secretBytes =
     (case secretBytes of
        None \<Rightarrow> None
      | Some bs \<Rightarrow>
          (let secret = base62Encode bs in
           Some (''bbr_'' @ env @ ''_'' @ secret,
             ''bbr_'' @ env @ ''_'' @ (if length secret > 8 then take 8 secret else secret))))"

text \<open>\<open>IDKey\<close>: password, salt, time, memory, threads and length.\<close>

type_synonym argon2 = "string \<Rightarrow> bytes \<Rightarrow> nat \<Rightarrow> nat \<Rightarrow> nat \<Rightarrow> nat \<Rightarrow> bytes option"

definition hashKey :: "argon2 \<Rightarrow> bytes option \<Rightarrow> string \<Rightarrow> string option" where
  "hashKey argon saltBytes rawKey =
     Option.bind saltBytes (\<lambda>salt.
     Option.bind (argon rawKey salt 1 65536 4 32) (\<lambda>hash.
       Some (''$argon2id$v=19$m='' @ dec_of_nat 65536 @ '',t='' @ dec_of_nat 1 @ '',p='' @ dec_of_nat 4 @ ''$'' @
         raw_b64_encode salt @ ''$'' @ raw_b64_encode hash)))"

text \<open>\<open>Sscanf\<close> with a \<open>%d\<close> into a \<open>uint32\<close>: spaces are skipped, the digits must fit.\<close>

definition scan_uint32 :: "string \<Rightarrow> (nat \<times> string) option" where
  "scan_uint32 s =
     (let s' = dropWhile (\<lambda>c. c = CHR '' '' \<or> c = CHR 0x09 \<or> c = CHR 0x0D) s;
          ds = takeWhile (\<lambda>c. c \<in> set ''0123456789'') s'
      in if ds = [] \<or> 2 ^ 32 \<le> dec_val ds then None
         else Some (dec_val ds, dropWhile (\<lambda>c. c \<in> set ''0123456789'') s'))"

definition scan_literal :: "string \<Rightarrow> string \<Rightarrow> string option" where
  "scan_literal l s = (if has_prefix l s then Some (trim_prefix l s) else None)"

definition scan_params :: "string \<Rightarrow> (nat \<times> nat \<times> nat) option" where
  "scan_params s =
     Option.bind (Option.bind (scan_literal ''m='' s) scan_uint32) (\<lambda>(m, s1).
     Option.bind (Option.bind (scan_literal '',t='' s1) scan_uint32) (\<lambda>(t, s2).
     Option.bind (Option.bind (scan_literal '',p='' s2) scan_uint32) (\<lambda>(p, _). Some (m, t, p))))"

text \<open>\<open>None\<close> is the panic of Argon2.\<close>

definition verifyKey :: "argon2 \<Rightarrow> string \<Rightarrow> string \<Rightarrow> bool option" where
  "verifyKey argon rawKey encodedHash =
     (let parts = split_on (CHR ''$'') encodedHash in
      if length parts \<noteq> 6 \<or> parts ! 1 \<noteq> ''argon2id'' then Some False
      else case scan_params (parts ! 3) of
        None \<Rightarrow> Some False
      | Some (m, t, p) \<Rightarrow>
          (case raw_b64_decode (parts ! 4) of
             None \<Rightarrow> Some False
           | Some salt \<Rightarrow>
               (case raw_b64_decode (parts ! 5) of
                  None \<Rightarrow> Some False
                | Some expected \<Rightarrow>
                    map_option (\<lambda>computed. computed = expected) (argon rawKey salt t m (p mod 256) (length expected)))))"

section \<open>The service\<close>

datatype api_error =
    ApiInvalid string            \<comment> \<open>a validation error and its field\<close>
  | ApiUnauthorized
  | ApiNotFound
  | ApiConflict
  | ApiFailed string
  | ApiPanic

record CreateAPIKeyRequest =
  ca_Name :: string
  ca_Scopes :: "string list"
  ca_AllowedKeyIDs :: "uuid list"
  ca_UserID :: "uuid option"
  ca_ExpiresInDays :: "int option"
  ca_Environment :: string

text \<open>The checks of the bound keys, one after the other.\<close>

fun check_bound :: "api_faults \<Rightarrow> keydb \<Rightarrow> uuid \<Rightarrow> uuid list \<Rightarrow> api_error option" where
  "check_bound f db orgID [] = None"
| "check_bound f db orgID (keyID # ids) =
     (if f SelectSigningKey then Some (ApiFailed ''failed to look up key'')
      else case GetByID db keyID of
        None \<Rightarrow> Some (ApiInvalid ''allowed_key_ids'')
      | Some k \<Rightarrow>
          if ky_OrgID k \<noteq> orgID \<or> ky_Deleted k then Some (ApiInvalid ''allowed_key_ids'')
          else check_bound f db orgID ids)"

definition day :: nat where "day = 86400 * 10 ^ 9"

definition expires_at :: "nat \<Rightarrow> int option \<Rightarrow> nat option" where
  "expires_at now days = (case days of None \<Rightarrow> None | Some d \<Rightarrow> if d > 0 then Some (now + nat d * day) else None)"

definition check_create :: "api_faults \<Rightarrow> keydb \<Rightarrow> uuid \<Rightarrow> CreateAPIKeyRequest \<Rightarrow> api_error + string" where
  "check_create f db orgID req =
     (if \<not> list_all IsValidScope (ca_Scopes req) then Inl (ApiInvalid ''scopes'')
      else if TrimSpace (ca_Name req) = [] then Inl (ApiInvalid ''name'')
      else if length (ca_Name req) > 255 then Inl (ApiInvalid ''name'')
      else if ca_Environment req \<noteq> [] \<and> ca_Environment req \<noteq> ''live'' \<and> ca_Environment req \<noteq> ''test''
      then Inl (ApiInvalid ''environment'')
      else case check_bound f db orgID (ca_AllowedKeyIDs req) of
        Some e \<Rightarrow> Inl e
      | None \<Rightarrow> Inr (if ca_Environment req = [] then ''live'' else ca_Environment req))"

definition api_Create ::
  "argon2 \<Rightarrow> api_faults \<Rightarrow> nat \<Rightarrow> uuid \<Rightarrow> bytes option \<Rightarrow> bytes option \<Rightarrow> keydb \<Rightarrow> uuid \<Rightarrow> CreateAPIKeyRequest \<Rightarrow>
     api_row list \<Rightarrow> api_row list \<times> (api_error + (api_row \<times> string))" where
  "api_Create argon f now keyID secretBytes saltBytes db orgID req rows =
     (case check_create f db orgID req of
        Inl e \<Rightarrow> (rows, Inl e)
      | Inr env \<Rightarrow>
          (case generateKey env secretBytes of
             None \<Rightarrow> (rows, Inl (ApiFailed ''failed to generate key''))
           | Some (rawKey, prefix) \<Rightarrow>
               (case hashKey argon saltBytes rawKey of
                  None \<Rightarrow> (rows, Inl (ApiFailed ''failed to hash key''))
                | Some hash \<Rightarrow>
                    (let row = \<lparr>ak_ID = keyID, ak_OrgID = orgID, ak_Scopes = ca_Scopes req,
                           ak_AllowedKeyIDs = ca_AllowedKeyIDs req, ak_ExpiresAt = expires_at now (ca_ExpiresInDays req),
                           ak_RevokedAt = None, ar_UserID = ca_UserID req, ar_Name = ca_Name req, ar_KeyPrefix = prefix,
                           ar_KeyHash = hash\<rparr>
                     in case repo_insert f row rows of
                          None \<Rightarrow> (rows, Inl (ApiFailed ''failed to create key''))
                        | Some rows' \<Rightarrow> (rows', Inr (row, rawKey))))))"

definition api_Validate :: "argon2 \<Rightarrow> api_faults \<Rightarrow> nat \<Rightarrow> api_row list \<Rightarrow> string \<Rightarrow> api_error + APIKey" where
  "api_Validate argon f now rows rawKey =
     (let parts = split_on (CHR ''_'') rawKey in
      if length parts \<noteq> 3 then Inl ApiUnauthorized
      else if parts ! 0 \<noteq> ''bbr'' then Inl ApiUnauthorized
      else if parts ! 1 \<noteq> ''live'' \<and> parts ! 1 \<noteq> ''test'' then Inl ApiUnauthorized
      else if length (parts ! 2) < 8 then Inl ApiUnauthorized
      else if f SelectApiKey then Inl (ApiFailed ''failed to lookup key'')
      else case api_GetByPrefix rows (parts ! 0 @ ''_'' @ parts ! 1 @ ''_'' @ take 8 (parts ! 2)) of
        None \<Rightarrow> Inl ApiUnauthorized
      | Some row \<Rightarrow>
          (case verifyKey argon rawKey (ar_KeyHash row) of
             None \<Rightarrow> Inl ApiPanic
           | Some ok \<Rightarrow>
               if \<not> ok then Inl ApiUnauthorized
               else if \<not> APIKey_IsValid now (APIKey.truncate row) then Inl ApiUnauthorized
               else Inr (APIKey.truncate row)))"

definition api_List :: "api_faults \<Rightarrow> api_row list \<Rightarrow> uuid \<Rightarrow> api_error + api_row list" where
  "api_List f rows orgID =
     (if f SelectApiKey then Inl (ApiFailed ''failed to list keys'') else Inr (api_ListByOrg rows orgID))"

definition api_Get :: "api_faults \<Rightarrow> api_row list \<Rightarrow> uuid \<Rightarrow> uuid \<Rightarrow> api_error + api_row" where
  "api_Get f rows orgID keyID =
     (if f SelectApiKey then Inl (ApiFailed ''failed to get key'')
      else case api_GetByID rows keyID of
        None \<Rightarrow> Inl ApiNotFound
      | Some k \<Rightarrow> if ak_OrgID k \<noteq> orgID then Inl ApiNotFound else Inr k)"

definition api_Revoke ::
  "api_faults \<Rightarrow> nat \<Rightarrow> uuid \<Rightarrow> uuid \<Rightarrow> api_row list \<Rightarrow> api_row list \<times> api_error option" where
  "api_Revoke f now orgID keyID rows =
     (case api_Get f rows orgID keyID of
        Inl e \<Rightarrow> (rows, Some e)
      | Inr k \<Rightarrow>
          if ak_RevokedAt k \<noteq> None then (rows, Some ApiConflict)
          else case repo_revoke f now keyID rows of
            None \<Rightarrow> (rows, Some (ApiFailed ''failed to revoke key''))
          | Some rows' \<Rightarrow> (rows', None))"

definition api_Delete :: "api_faults \<Rightarrow> uuid \<Rightarrow> uuid \<Rightarrow> api_row list \<Rightarrow> api_row list \<times> api_error option" where
  "api_Delete f orgID keyID rows =
     (case api_Get f rows orgID keyID of
        Inl e \<Rightarrow> (rows, Some e)
      | Inr k \<Rightarrow>
          (case repo_delete f keyID rows of
             None \<Rightarrow> (rows, Some (ApiFailed ''failed to delete key''))
           | Some rows' \<Rightarrow> (rows', None)))"

section \<open>Round trips of the formats\<close>

text \<open>What is relied on of Argon2: parameters of at least 1 never panic and the hash has the length asked for.\<close>

definition argon_ok :: "argon2 \<Rightarrow> bool" where
  "argon_ok argon \<longleftrightarrow> (\<forall>raw salt t m p n. 1 \<le> t \<longrightarrow> 1 \<le> p \<longrightarrow> (\<exists>h. argon raw salt t m p n = Some h \<and> length h = n))"

lemma base62_length [simp]: "length (base62Encode bs) = length bs"
  by (simp add: base62Encode_def)

lemma base62_chars: "c \<in> set (base62Encode bs) \<Longrightarrow> c \<in> set base62Alphabet"
proof -
  assume "c \<in> set (base62Encode bs)"
  then obtain b where "c = base62Alphabet ! (unat (b :: byte) mod 62)" by (auto simp: base62Encode_def)
  moreover have "unat b mod 62 < length base62Alphabet" by (simp add: base62Alphabet_def)
  ultimately show ?thesis by (metis nth_mem)
qed

lemma base62_plain: "CHR ''_'' \<notin> set (base62Encode bs)"
  using base62_chars by (force simp: base62Alphabet_def)

lemma split_generated:
  assumes "env = ''live'' \<or> env = ''test''"
  shows "split_on (CHR ''_'') (''bbr_'' @ env @ ''_'' @ base62Encode bs) = [''bbr'', env, base62Encode bs]"
  using assms split_on_plain [OF base62_plain] by auto

lemma own_params: "dec_of_nat 65536 = ''65536''" "dec_of_nat 1 = ''1''" "dec_of_nat 4 = ''4''"
  by (simp_all add: dec_of_nat.simps char_of_def bit_0)

lemma scan_own_params: "scan_params ''m=65536,t=1,p=4'' = Some (65536, 1, 4)"
  by (simp add: scan_params_def scan_literal_def scan_uint32_def has_prefix_def trim_prefix_def dec_val_def Let_def)

lemma params_plain: "CHR ''$'' \<notin> set ''m=65536,t=1,p=4''"
  by simp

lemma raw_b64_plain: "CHR ''$'' \<notin> set (raw_b64_encode bs)"
  using raw_b64_chars [of "CHR ''$''" bs] by (auto simp: b64_val_def)

lemma hash_text:
  "''$argon2id$v=19$m='' @ dec_of_nat 65536 @ '',t='' @ dec_of_nat 1 @ '',p='' @ dec_of_nat 4 @ ''$'' @ salt @ ''$'' @ hash =
   ''$argon2id$v=19$'' @ ''m=65536,t=1,p=4'' @ CHR ''$'' # salt @ CHR ''$'' # hash"
  unfolding own_params by simp

lemma split_hash:
  "split_on (CHR ''$'') (''$argon2id$v=19$'' @ ''m=65536,t=1,p=4'' @ CHR ''$'' # raw_b64_encode salt @ CHR ''$'' # raw_b64_encode hash) =
   [[], ''argon2id'', ''v=19'', ''m=65536,t=1,p=4'', raw_b64_encode salt, raw_b64_encode hash]"
proof -
  have "split_on (CHR ''$'') (''m=65536,t=1,p=4'' @ CHR ''$'' # raw_b64_encode salt @ CHR ''$'' # raw_b64_encode hash) =
      [''m=65536,t=1,p=4'', raw_b64_encode salt, raw_b64_encode hash]"
    unfolding split_on_sep [OF params_plain] split_on_sep [OF raw_b64_plain] split_on_plain [OF raw_b64_plain] ..
  then show ?thesis by simp
qed

lemma verify_own_hash:
  assumes "argon_ok argon" "hashKey argon saltBytes raw = Some h"
  shows "verifyKey argon raw h = Some True"
proof -
  obtain salt hash where s: "argon raw salt 1 65536 4 32 = Some hash"
    "h = ''$argon2id$v=19$'' @ ''m=65536,t=1,p=4'' @ CHR ''$'' # raw_b64_encode salt @ CHR ''$'' # raw_b64_encode hash"
    using assms(2) unfolding hashKey_def hash_text by (auto simp: bind_eq_Some_conv)
  moreover have "length hash = 32"
  proof -
    have "\<exists>h. argon raw salt 1 65536 4 32 = Some h \<and> length h = 32"
      using assms(1) unfolding argon_ok_def by (metis one_le_numeral order_refl)
    then show ?thesis using s(1) by simp
  qed
  ultimately show ?thesis
    unfolding verifyKey_def s(2) split_hash Let_def by (simp add: scan_own_params del: append.simps)
qed

section \<open>Creating and validating\<close>

lemma join_split: "joined sep (split_on sep s) = s"
proof (induction s)
  case (Cons c s)
  obtain x xs where "split_on sep s = x # xs" by (cases "split_on sep s") (auto split: if_splits list.splits elim: split_on.elims)
  then show ?case using Cons by (cases xs) auto
qed simp

lemma generateKey_Some:
  "generateKey env (Some bs) = Some (''bbr_'' @ env @ ''_'' @ base62Encode bs, ''bbr_'' @ env @ ''_'' @ take 8 (base62Encode bs))"
  by (simp add: generateKey_def Let_def)

lemma api_Create_Inr:
  assumes "api_Create argon f now i secret salt db org req rows = (rows', Inr (row, raw))"
  obtains env bs hash where "check_create f db org req = Inr env" "secret = Some bs"
    "raw = ''bbr_'' @ env @ ''_'' @ base62Encode bs" "ar_KeyPrefix row = ''bbr_'' @ env @ ''_'' @ take 8 (base62Encode bs)"
    "hashKey argon salt raw = Some hash" "ar_KeyHash row = hash" "rows' = rows @ [row]" "ak_ID row = i" "ak_OrgID row = org"
    "ak_AllowedKeyIDs row = ca_AllowedKeyIDs req" "ak_Scopes row = ca_Scopes req" "ak_RevokedAt row = None"
    "ak_ExpiresAt row = expires_at now (ca_ExpiresInDays req)" "i \<notin> ak_ID ` set rows"
proof -
  obtain env where env: "check_create f db org req = Inr env"
    using assms by (auto simp: api_Create_def split: sum.splits)
  obtain bs where bs: "secret = Some bs" using assms env by (auto simp: api_Create_def generateKey_def split: option.splits)
  let ?raw = "''bbr_'' @ env @ ''_'' @ base62Encode bs"
  obtain hash where h: "hashKey argon salt ?raw = Some hash"
    using assms env bs by (simp add: api_Create_def generateKey_Some split: option.splits)
  let ?row = "\<lparr>ak_ID = i, ak_OrgID = org, ak_Scopes = ca_Scopes req, ak_AllowedKeyIDs = ca_AllowedKeyIDs req,
    ak_ExpiresAt = expires_at now (ca_ExpiresInDays req), ak_RevokedAt = None, ar_UserID = ca_UserID req,
    ar_Name = ca_Name req, ar_KeyPrefix = ''bbr_'' @ env @ ''_'' @ take 8 (base62Encode bs), ar_KeyHash = hash\<rparr>"
  have "repo_insert f ?row rows = Some rows' \<and> row = ?row \<and> raw = ?raw"
    using assms unfolding api_Create_def env bs generateKey_Some
    by (auto simp: h Let_def simp del: append.simps split: option.splits)
  then show ?thesis
    using that [OF env bs, of hash] h by (auto simp: repo_insert_def list_ex_iff simp del: append.simps split: if_splits)
qed

lemma check_create_env: "check_create f db org req = Inr env \<Longrightarrow> env = ''live'' \<or> env = ''test''"
  by (auto simp: check_create_def split: if_splits option.splits)

lemma find_append_new: "\<forall>x\<in>set xs. \<not> P x \<Longrightarrow> P y \<Longrightarrow> find P (xs @ [y]) = Some y"
  by (induction xs) auto

text \<open>A fresh API key works, if no other row has its prefix.\<close>

lemma created_key_validates:
  assumes "argon_ok argon" "length bs = 24"
    and "api_Create argon f now i (Some bs) salt db org req rows = (rows', Inr (row, raw))"
    and "\<forall>r\<in>set rows. ar_KeyPrefix r \<noteq> ar_KeyPrefix row" "\<not> f' SelectApiKey"
    and "case expires_at now (ca_ExpiresInDays req) of None \<Rightarrow> True | Some t \<Rightarrow> now' \<le> t"
  shows "\<exists>k. api_Validate argon f' now' rows' raw = Inr k \<and> ak_ID k = i \<and> ak_OrgID k = org \<and>
    ak_Scopes k = ca_Scopes req \<and> ak_AllowedKeyIDs k = ca_AllowedKeyIDs req"
proof -
  obtain env hash where c: "check_create f db org req = Inr env"
    "raw = ''bbr_'' @ env @ ''_'' @ base62Encode bs" "ar_KeyPrefix row = ''bbr_'' @ env @ ''_'' @ take 8 (base62Encode bs)"
    "hashKey argon salt raw = Some hash" "ar_KeyHash row = hash" "rows' = rows @ [row]" "ak_ID row = i" "ak_OrgID row = org"
    "ak_AllowedKeyIDs row = ca_AllowedKeyIDs req" "ak_Scopes row = ca_Scopes req" "ak_RevokedAt row = None"
    "ak_ExpiresAt row = expires_at now (ca_ExpiresInDays req)"
    using api_Create_Inr [OF assms(3)] by (metis option.inject)
  have env: "env = ''live'' \<or> env = ''test''" by (rule check_create_env [OF c(1)])
  have s: "split_on (CHR ''_'') raw = [''bbr'', env, base62Encode bs]" unfolding c(2) by (rule split_generated [OF env])
  have v: "verifyKey argon raw (ar_KeyHash row) = Some True" using verify_own_hash [OF assms(1) c(4)] c(5) by simp
  have ok: "APIKey_IsValid now' (APIKey.truncate row)"
    using c(11,12) assms(6) by (auto simp: APIKey_IsValid_def APIKey.truncate_def split: option.splits)
  have "api_GetByPrefix rows' (''bbr'' @ ''_'' @ env @ ''_'' @ take 8 (base62Encode bs)) = Some row"
    unfolding api_GetByPrefix_def c(6) using assms(4) c(3) by (intro find_append_new) simp_all
  then have "api_Validate argon f' now' rows' raw = Inr (APIKey.truncate row)"
    using s v ok env assms(2,5) by (auto simp: api_Validate_def Let_def)
  then show ?thesis using c by (simp add: APIKey.truncate_def)
qed

text \<open>
  Property C19. A fresh API key works: the raw key that creation returns validates to the new row, in the organization and
  with the scopes and the bound keys that were asked for, until it expires; no other row may have its prefix.
\<close>

theorem created_api_key_validates:
  assumes "argon_ok argon" "length bs = 24"
    and "api_Create argon f now i (Some bs) salt db org req rows = (rows', Inr (row, raw))"
    and "\<forall>r\<in>set rows. ar_KeyPrefix r \<noteq> ar_KeyPrefix row" "\<not> f' SelectApiKey"
    and "case expires_at now (ca_ExpiresInDays req) of None \<Rightarrow> True | Some t \<Rightarrow> now' \<le> t"
  shows "\<exists>k. api_Validate argon f' now' rows' raw = Inr k \<and> ak_ID k = i \<and> ak_OrgID k = org \<and>
    ak_Scopes k = ca_Scopes req \<and> ak_AllowedKeyIDs k = ca_AllowedKeyIDs req"
  using assms by (rule created_key_validates)

text \<open>What validation lets through.\<close>

lemma api_Validate_Inr:
  assumes "api_Validate argon f now rows raw = Inr k"
  obtains row where "row \<in> set rows" "k = APIKey.truncate row" "verifyKey argon raw (ar_KeyHash row) = Some True"
    "ak_RevokedAt row = None" "\<forall>t. ak_ExpiresAt row = Some t \<longrightarrow> now \<le> t" "has_prefix (ar_KeyPrefix row) raw"
proof -
  let ?p = "split_on (CHR ''_'') raw"
  let ?prefix = "?p ! 0 @ ''_'' @ ?p ! 1 @ ''_'' @ take 8 (?p ! 2)"
  obtain row where r: "api_GetByPrefix rows ?prefix = Some row" "k = APIKey.truncate row"
      "verifyKey argon raw (ar_KeyHash row) = Some True" "APIKey_IsValid now (APIKey.truncate row)"
    and l: "length ?p = 3"
    using assms by (auto simp: api_Validate_def Let_def split: if_splits option.splits)
  have "row \<in> set rows" "ar_KeyPrefix row = ?prefix" using r(1) by (auto simp: api_GetByPrefix_def find_Some_iff)
  moreover have "has_prefix ?prefix raw"
  proof -
    obtain x y z where "?p = [x, y, z]" using l by (auto simp: length_Suc_conv numeral_3_eq_3)
    then have "raw = x @ ''_'' @ y @ ''_'' @ z" using join_split [of "CHR ''_''" raw] by simp
    then have "raw = ?prefix @ drop 8 z" using \<open>?p = [x, y, z]\<close> by simp
    then show ?thesis by (metis has_prefix_append)
  qed
  ultimately show ?thesis
    using r that by (auto simp: APIKey_IsValid_def APIKey.truncate_def split: option.splits)
qed

section \<open>Revocation and bindings over time\<close>

text \<open>
  The steps of the API key table, next to those of the key service: \<open>spent\<close> are the identifiers that a fresh UUID
  does not repeat.
\<close>

inductive api_step :: "argon2 \<Rightarrow> uuid set \<Rightarrow> keydb \<Rightarrow> api_row list \<Rightarrow> api_row list \<Rightarrow> bool" for argon spent db where
  create: "api_Create argon f now i secret salt db org req rows = (rows', r) \<Longrightarrow> i \<notin> spent \<Longrightarrow>
    api_step argon spent db rows rows'"
| revoke: "api_Revoke f now org i rows = (rows', e) \<Longrightarrow> api_step argon spent db rows rows'"
| delete: "api_Delete f org i rows = (rows', e) \<Longrightarrow> api_step argon spent db rows rows'"

lemma api_Create_rows:
  assumes "api_Create argon f now i secret salt db org req rows = (rows', r)"
  shows "rows' = rows \<or> (\<exists>row env. rows' = rows @ [row] \<and> ak_ID row = i \<and> ak_OrgID row = org \<and>
    ak_AllowedKeyIDs row = ca_AllowedKeyIDs req \<and> check_create f db org req = Inr env)"
proof (cases r)
  case (Inl e)
  then show ?thesis using assms
    by (auto simp: api_Create_def Let_def split: sum.splits option.splits prod.splits)
next
  case (Inr x)
  then obtain row raw where "api_Create argon f now i secret salt db org req rows = (rows', Inr (row, raw))"
    using assms by (cases x) simp
  then show ?thesis by (rule api_Create_Inr) blast
qed

lemma api_Revoke_rows:
  "api_Revoke f now org i rows = (rows', e) \<Longrightarrow> rows' = rows \<or>
     rows' = map (\<lambda>r. if ak_ID r = i \<and> ak_RevokedAt r = None then r\<lparr>ak_RevokedAt := Some now\<rparr> else r) rows"
  by (auto simp: api_Revoke_def repo_revoke_def split: sum.splits if_splits option.splits)

lemma api_Delete_rows: "api_Delete f org i rows = (rows', e) \<Longrightarrow> rows' = rows \<or> rows' = filter (\<lambda>r. ak_ID r \<noteq> i) rows"
  by (auto simp: api_Delete_def repo_delete_def split: sum.splits if_splits option.splits)

text \<open>No row with the identifier is usable.\<close>

definition all_revoked :: "uuid \<Rightarrow> api_row list \<Rightarrow> bool" where
  "all_revoked i rows \<longleftrightarrow> (\<forall>r\<in>set rows. ak_ID r = i \<longrightarrow> ak_RevokedAt r \<noteq> None)"

lemma all_revoked_step:
  assumes "api_step argon spent db rows rows'" "i \<in> spent" "all_revoked i rows"
  shows "all_revoked i rows'"
  using assms
proof (induction rule: api_step.induct)
  case (create f now j secret salt org req rows rows' r)
  then show ?case using api_Create_rows [OF create.hyps(1)] by (auto simp: all_revoked_def)
next
  case (revoke f now org j rows rows' e)
  then show ?case using api_Revoke_rows [OF revoke.hyps] by (auto simp: all_revoked_def)
next
  case (delete f org j rows rows' e)
  then show ?case using api_Delete_rows [OF delete.hyps] by (auto simp: all_revoked_def)
qed

lemma Revoke_all_revoked: "api_Revoke f now org i rows = (rows', None) \<Longrightarrow> all_revoked i rows'"
proof -
  assume "api_Revoke f now org i rows = (rows', None)"
  then have "repo_revoke f now i rows = Some rows'"
    by (simp add: api_Revoke_def split: sum.splits if_splits option.splits)
  then have "rows' = map (\<lambda>r. if ak_ID r = i \<and> ak_RevokedAt r = None then r\<lparr>ak_RevokedAt := Some now\<rparr> else r) rows"
    by (simp add: repo_revoke_def split: if_splits)
  moreover have "ak_RevokedAt (if ak_ID r = i \<and> ak_RevokedAt r = None then r\<lparr>ak_RevokedAt := Some now\<rparr> else r) \<noteq> None"
    if "ak_ID (if ak_ID r = i \<and> ak_RevokedAt r = None then r\<lparr>ak_RevokedAt := Some now\<rparr> else r) = i" for r :: api_row
    using that by (cases "ak_ID r = i \<and> ak_RevokedAt r = None") auto
  ultimately show ?thesis unfolding all_revoked_def by (metis (no_types, lifting) in_set_conv_nth length_map nth_map)
qed

lemma Delete_all_revoked: "api_Delete f org i rows = (rows', None) \<Longrightarrow> all_revoked i rows'"
proof -
  assume "api_Delete f org i rows = (rows', None)"
  then have "repo_delete f i rows = Some rows'"
    by (simp add: api_Delete_def split: sum.splits option.splits)
  then have "rows' = filter (\<lambda>r. ak_ID r \<noteq> i) rows" by (simp add: repo_delete_def split: if_splits)
  then show ?thesis by (simp add: all_revoked_def)
qed

lemma all_revoked_invalid:
  assumes "all_revoked i rows" "api_Validate argon f now rows raw = Inr k"
  shows "ak_ID k \<noteq> i"
  by (rule api_Validate_Inr [OF assms(2)]) (use assms(1) in \<open>auto simp: all_revoked_def APIKey.truncate_def\<close>)

text \<open>
  Property C11. Revoking or deleting an API key is final: after either has succeeded, whatever is created, revoked and deleted
  later, no raw key validates to that API key at any time.
\<close>

theorem revoked_key_never_validates:
  assumes "api_Revoke f now org i rows = (rows', None) \<or> api_Delete f org i rows = (rows', None)"
    and "(api_step argon spent db)\<^sup>*\<^sup>* rows' rows''" "i \<in> spent"
    and "api_Validate argon f' now' rows'' raw = Inr k"
  shows "ak_ID k \<noteq> i"
proof -
  have "all_revoked i rows'" using assms(1) Revoke_all_revoked Delete_all_revoked by blast
  with assms(2) have "all_revoked i rows''"
    by (induction rule: rtranclp_induct) (auto intro: all_revoked_step [OF _ assms(3)])
  then show ?thesis using all_revoked_invalid assms(4) by blast
qed

text \<open>The service and its table next to the key service: a state of OpenBao, the database and the API keys.\<close>

inductive control_step ::
  "'w keyring \<Rightarrow> (uuid \<Rightarrow> string) \<Rightarrow> argon2 \<Rightarrow> ('w \<times> keydb) \<times> api_row list \<Rightarrow> ('w \<times> keydb) \<times> api_row list \<Rightarrow> bool"
  for K ut argon where
  keys: "ks_step K ut s s' \<Longrightarrow> control_step K ut argon (s, rows) (s', rows)"
| api: "api_step argon {} (snd s) rows rows' \<Longrightarrow> control_step K ut argon (s, rows) (s, rows')"

definition bindings_own :: "('w \<times> keydb) \<times> api_row list \<Rightarrow> bool" where
  "bindings_own x \<longleftrightarrow> (\<forall>r\<in>set (snd x). \<forall>i\<in>set (ak_AllowedKeyIDs r).
     \<exists>k\<in>set (db_keys (snd (fst x))). ky_ID k = i \<and> ky_OrgID k = ak_OrgID r)"

lemma check_bound_None: "check_bound f db org ids = None \<Longrightarrow> i \<in> set ids \<Longrightarrow>
    \<exists>k\<in>set (db_keys db). ky_ID k = i \<and> ky_OrgID k = org"
  by (induction ids) (auto split: if_splits option.splits dest: GetByID_Some)

lemma check_create_bound: "check_create f db org req = Inr env \<Longrightarrow> check_bound f db org (ca_AllowedKeyIDs req) = None"
  by (auto simp: check_create_def split: if_splits option.splits)

text \<open>A key row is never dropped and never changes hands.\<close>

lemma ks_step_rows:
  assumes "ks_step K ut s s'" "k \<in> set (db_keys (snd s))"
  shows "\<exists>k'\<in>set (db_keys (snd s')). ky_ID k' = ky_ID k \<and> ky_OrgID k' = ky_OrgID k"
  using assms
proof (induction rule: ks_step.induct)
  case (create f i req s s' r)
  then show ?case using Create_db [OF create.hyps] by auto
next
  case (import_key f i im s s' r)
  then show ?case using Import_db [OF import_key.hyps] by auto
next
  case (sign cx f org i d h s s' r)
  then show ?case using Sign_db [OF sign.hyps] by (auto simp: incrementUsage_def)
next
  case (export_key cx f org i s s' r)
  then show ?case using Export_db [OF export_key.hyps] by auto
next
  case (delete cx f org i s s' e)
  then show ?case using Delete_db [OF delete.hyps] by force
next
  case (settle w db)
  then show ?case by (auto simp: settle_usage_def split: list.splits)
qed

lemma bindings_api_step:
  assumes "api_step argon spent db rows rows'" "bindings_own ((w, db), rows)"
  shows "bindings_own ((w, db), rows')"
  using assms
proof (induction rule: api_step.induct)
  case (create f now j secret salt org req rows rows' r)
  have old: "\<exists>k\<in>set (db_keys db). ky_ID k = b \<and> ky_OrgID k = ak_OrgID x"
    if "x \<in> set rows" "b \<in> set (ak_AllowedKeyIDs x)" for x b
    using create.prems that by (simp add: bindings_own_def)
  consider "rows' = rows" | row env where "rows' = rows @ [row]" "ak_OrgID row = org"
    "ak_AllowedKeyIDs row = ca_AllowedKeyIDs req" "check_create f db org req = Inr env"
    using api_Create_rows [OF create.hyps(1)] by blast
  then show ?case
  proof cases
    case 1
    then show ?thesis using create.prems by simp
  next
    case 2
    have "\<exists>k\<in>set (db_keys db). ky_ID k = b \<and> ky_OrgID k = org" if "b \<in> set (ca_AllowedKeyIDs req)" for b
      by (rule check_bound_None [OF check_create_bound [OF 2(4)] that])
    then show ?thesis using old 2(1-3) by (auto simp: bindings_own_def)
  qed
next
  case (revoke f now org j rows rows' e)
  then show ?case using api_Revoke_rows [OF revoke.hyps] by (auto simp: bindings_own_def)
next
  case (delete f org j rows rows' e)
  then show ?case using api_Delete_rows [OF delete.hyps] by (auto simp: bindings_own_def)
qed

lemma bindings_own_step: "control_step K ut argon x y \<Longrightarrow> bindings_own x \<Longrightarrow> bindings_own y"
proof (induction rule: control_step.induct)
  case (keys s s' rows)
  then show ?case using ks_step_rows [OF keys.hyps] by (simp add: bindings_own_def) metis
next
  case (api s rows rows')
  then show ?case using bindings_api_step [of argon "{}" "snd s" rows rows' "fst s"] by simp
qed

text \<open>
  Property C9. Authentication never crosses organizations: whatever has happened to keys and API keys, a request that passes
  the middleware acts in the organization of an API key that is neither revoked nor expired and whose hash
  its secret matches, and every signing key its context is bound to is a key of that organization.
\<close>

theorem authenticated_within_org:
  assumes "(control_step K ut argon)\<^sup>*\<^sup>* ((w, db), []) ((w', db'), rows)"
    and "APIKeyAuth (\<lambda>raw. case api_Validate argon f now rows raw of Inl _ \<Rightarrow> None | Inr k \<Rightarrow> Some k) h = Some cx"
  shows "\<exists>row\<in>set rows. cx_org cx = ak_OrgID row \<and> ak_RevokedAt row = None \<and>
    (case ak_ExpiresAt row of None \<Rightarrow> True | Some t \<Rightarrow> now \<le> t) \<and>
    verifyKey argon (extractAPIKey h) (ar_KeyHash row) = Some True \<and>
    (ak_AllowedKeyIDs row = [] \<or>
     (\<forall>i. AllowsKey cx i \<longrightarrow> (\<exists>k\<in>set (db_keys db'). ky_ID k = i \<and> ky_OrgID k = cx_org cx)))"
proof -
  have "bindings_own ((w', db'), rows)"
    using assms(1) by (induction rule: rtranclp_induct) (auto intro: bindings_own_step simp: bindings_own_def [of "((w, db), [])"])
  moreover obtain k where k: "api_Validate argon f now rows (extractAPIKey h) = Inr k" "cx = apikey_context k"
    using assms(2) by (auto simp: APIKeyAuth_def Let_def split: if_splits sum.splits)
  obtain row where r: "row \<in> set rows" "k = APIKey.truncate row" "verifyKey argon (extractAPIKey h) (ar_KeyHash row) = Some True"
    "ak_RevokedAt row = None" "\<forall>t. ak_ExpiresAt row = Some t \<longrightarrow> now \<le> t"
    by (rule api_Validate_Inr [OF k(1)])
  ultimately show ?thesis
    unfolding k(2) r(2)
    by (intro bexI [OF _ r(1)])
      (auto simp: AllowsKey_iff apikey_context_def APIKey.truncate_def bindings_own_def split: option.splits)
qed

section \<open>Examples\<close>

definition toy_argon :: argon2 where
  "toy_argon raw salt t m p n = (if t = 0 \<or> p = 0 then None else Some (replicate n (word_of_nat (length raw))))"

definition example_secret :: bytes where
  "example_secret = replicate 24 0"

definition example_salt :: bytes where
  "example_salt = replicate 16 0"

lemma toy_argon_ok: "argon_ok toy_argon"
  by (auto simp: argon_ok_def toy_argon_def)

definition example_request :: CreateAPIKeyRequest where
  "example_request = \<lparr>ca_Name = ''ci'', ca_Scopes = [''keys:sign''], ca_AllowedKeyIDs = [], ca_UserID = None,
     ca_ExpiresInDays = Some 1, ca_Environment = []\<rparr>"

definition example_row :: api_row where
  "example_row = \<lparr>ak_ID = 9, ak_OrgID = 1, ak_Scopes = [''keys:sign''], ak_AllowedKeyIDs = [], ak_ExpiresAt = Some (5 + day),
     ak_RevokedAt = None, ar_UserID = None, ar_Name = ''ci'', ar_KeyPrefix = ''bbr_live_'' @ take 8 (base62Encode example_secret),
     ar_KeyHash = the (hashKey toy_argon (Some example_salt) (''bbr_live_'' @ base62Encode example_secret))\<rparr>"

lemma example_length: "length example_secret = 24"
  by (simp add: example_secret_def)

lemma example_hash: "hashKey toy_argon (Some example_salt) raw = Some (the (hashKey toy_argon (Some example_salt) raw))"
  by (simp add: hashKey_def toy_argon_def)

lemma example_created:
  "api_Create toy_argon (\<lambda>_. False) 5 9 (Some example_secret) (Some example_salt) example_db 1 example_request [] =
     ([example_row], Inr (example_row, ''bbr_live_'' @ base62Encode example_secret))"
proof -
  have c: "check_create (\<lambda>_. False) example_db 1 example_request = Inr ''live''"
    by (simp add: check_create_def example_request_def IsValidScope_def TrimSpace_def space_char_def)
  have h: "hashKey toy_argon (Some example_salt) (''bbr_'' @ ''live'' @ ''_'' @ base62Encode example_secret) =
      Some (ar_KeyHash example_row)"
    using example_hash [of "''bbr_live_'' @ base62Encode example_secret"] by (simp add: example_row_def)
  show ?thesis
    unfolding api_Create_def c generateKey_Some
    by (simp add: h del: append.simps)
      (simp add: example_row_def example_request_def expires_at_def repo_insert_def Let_def)
qed

theorem created_api_key_validates_witness:
  "\<exists>k. api_Validate toy_argon (\<lambda>_. False) (5 + day) [example_row] (''bbr_live_'' @ base62Encode example_secret) = Inr k \<and>
     ak_ID k = 9 \<and> ak_OrgID k = 1"
  using created_api_key_validates [OF toy_argon_ok example_length example_created, of "\<lambda>_. False" "5 + day"]
  by (auto simp: expires_at_def example_request_def)

theorem revoked_key_never_validates_witness:
  "\<exists>rows'. api_Revoke (\<lambda>_. False) 6 1 9 [example_row] = (rows', None) \<and>
     (\<forall>raw k. api_Validate toy_argon (\<lambda>_. False) 7 rows' raw = Inr k \<longrightarrow> ak_ID k \<noteq> 9)"
proof -
  obtain rows' where r: "api_Revoke (\<lambda>_. False) 6 1 9 [example_row] = (rows', None)"
    by (simp add: api_Revoke_def api_Get_def api_GetByID_def repo_revoke_def example_row_def)
  show ?thesis
    using revoked_key_never_validates [OF disjI1 [OF r] rtranclp.rtrancl_refl, where spent = "{9}" and f' = "\<lambda>_. False" and now' = 7] r by blast
qed

theorem authenticated_within_org_witness:
  "\<exists>cx. APIKeyAuth (\<lambda>raw. case api_Validate toy_argon (\<lambda>_. False) 6 [example_row] raw of Inl _ \<Rightarrow> None | Inr k \<Rightarrow> Some k)
      \<lparr>hd_Authorization = ''Bearer '' @ ''bbr_live_'' @ base62Encode example_secret, hd_XAPIKey = []\<rparr> = Some cx \<and> cx_org cx = 1"
  (is "\<exists>cx. APIKeyAuth ?v ?h = Some cx \<and> cx_org cx = 1")
proof -
  let ?raw = "''bbr_live_'' @ base62Encode example_secret"
  have steps: "(control_step example_keyring example_text toy_argon)\<^sup>*\<^sup>* (({}, example_db), []) (({}, example_db), [example_row])"
    using control_step.api [where s = "({}, example_db)" and rows = "[]" and rows' = "[example_row]" and argon = toy_argon
        and K = example_keyring and ut = example_text]
      api_step.create [OF example_created, of "{}"] by (intro r_into_rtranclp) simp
  obtain k where k: "api_Validate toy_argon (\<lambda>_. False) 6 [example_row] ?raw = Inr k"
  proof -
    have "\<exists>k. api_Validate toy_argon (\<lambda>_. False) 6 [example_row] ?raw = Inr k"
    proof -
      have p: "split_on (CHR ''_'') ?raw = [''bbr'', ''live'', base62Encode example_secret]"
        using split_generated [of "''live''" example_secret] by simp
      have v: "verifyKey toy_argon ?raw (ar_KeyHash example_row) = Some True"
        using verify_own_hash [OF toy_argon_ok example_hash] by (simp add: example_row_def)
      show ?thesis
        using p v by (simp add: api_Validate_def api_GetByPrefix_def APIKey_IsValid_def APIKey.truncate_def Let_def
            del: append.simps) (simp add: example_row_def day_def example_length)
    qed
    then show ?thesis using that by blast
  qed
  have "extractAPIKey ?h = ?raw" by (simp add: extractAPIKey_def has_prefix_def trim_prefix_def)
  then have a: "APIKeyAuth ?v ?h = Some (apikey_context k)" using k by (simp add: APIKeyAuth_def)
  then show ?thesis
    using authenticated_within_org [OF steps a] by (auto simp: example_row_def)
qed

end
