(* ===== verification/RateLimit.thy ===== *)
theory RateLimit
  imports CpAccess
begin

text \<open>
  The rate limiter of the control plane: the fixed one-minute window per credential and per
  address, \<open>middleware/ratelimit.go\<close>, with the window script of \<open>database/redis.go\<close>. Redis is given by the
  functions of its commands; what the code relies on of them is \<open>redis_ok\<close>. Times are those of one
  clock, in milliseconds. Redis' limit of 64 bits for a counter is not modelled.
\<close>

section \<open>Redis\<close>

record 'r redis =
  INCR :: "nat \<Rightarrow> string \<Rightarrow> 'r \<Rightarrow> 'r \<times> int"
  PTTL :: "nat \<Rightarrow> string \<Rightarrow> 'r \<Rightarrow> int"
  PEXPIRE :: "nat \<Rightarrow> string \<Rightarrow> nat \<Rightarrow> 'r \<Rightarrow> 'r"

text \<open>
  The documented behaviour of the commands: a counter is a value with an optional expiry time,
  from which on it does not exist; \<open>INCR\<close> starts at 0 and keeps the expiry.
\<close>

type_synonym counter = "(int \<times> nat option) option"

definition live_at :: "nat \<Rightarrow> counter \<Rightarrow> counter" where
  "live_at now c = (case c of Some (v, Some e) \<Rightarrow> if now < e then c else None | _ \<Rightarrow> c)"

definition redis_ok :: "'r redis \<Rightarrow> ('r \<Rightarrow> string \<Rightarrow> counter) \<Rightarrow> bool" where
  "redis_ok R cell \<longleftrightarrow> (\<forall>now k ms r.
     (let n = (case live_at now (cell r k) of None \<Rightarrow> 1 | Some (v, _) \<Rightarrow> v + 1) in
      snd (INCR R now k r) = n \<and>
      cell (fst (INCR R now k r)) = (cell r)(k \<mapsto> (n, Option.bind (live_at now (cell r k)) snd))) \<and>
     PTTL R now k r = (case live_at now (cell r k) of
        None \<Rightarrow> - 2 | Some (_, None) \<Rightarrow> - 1 | Some (_, Some e) \<Rightarrow> int (e - now)) \<and>
     cell (PEXPIRE R now k ms r) = (cell r)(k := map_option (\<lambda>(v, _). (v, Some (now + ms))) (live_at now (cell r k))))"

section \<open>The window script\<close>

definition incrWindow :: "'r redis \<Rightarrow> nat \<Rightarrow> string \<Rightarrow> nat \<Rightarrow> 'r \<Rightarrow> 'r \<times> int \<times> int" where
  "incrWindow R now k ms r =
     (let (r1, n) = INCR R now k r;
          r2 = (if n = 1 \<or> PTTL R now k r1 < 0 then PEXPIRE R now k ms r1 else r1)
      in (r2, n, PTTL R now k r2))"

text \<open>\<open>None\<close> is an error of Redis, which changes nothing.\<close>

definition IncrWithExpire :: "'r redis \<Rightarrow> bool \<Rightarrow> nat \<Rightarrow> string \<Rightarrow> nat \<Rightarrow> 'r \<Rightarrow> 'r \<times> (int \<times> int) option" where
  "IncrWithExpire R fails now k ms r =
     (if fails then (r, None) else case incrWindow R now k ms r of (r', n, t) \<Rightarrow> (r', Some (n, t)))"

section \<open>Buckets\<close>

record client_request = http_headers +
  rq_XForwardedFor :: string
  rq_XRealIP :: string
  rq_RemoteAddr :: string

definition getRealIP :: "client_request \<Rightarrow> string" where
  "getRealIP q =
     (if rq_XForwardedFor q \<noteq> [] then TrimSpace (takeWhile (\<lambda>c. c \<noteq> CHR '','') (rq_XForwardedFor q))
      else if rq_XRealIP q \<noteq> [] then rq_XRealIP q else rq_RemoteAddr q)"

definition credentialBucket :: "(string \<Rightarrow> bytes) \<Rightarrow> string \<Rightarrow> string" where
  "credentialBucket sha credential = ''apikey:'' @ hex_encode (take 16 (sha credential))"

definition getClientID :: "(string \<Rightarrow> bytes) \<Rightarrow> client_request \<Rightarrow> string" where
  "getClientID sha q =
     (let credential = extractAPIKey (http_headers.truncate q)
      in if credential \<noteq> [] then credentialBucket sha credential else ''ip:'' @ getRealIP q)"

definition rateLimitBuckets :: "(string \<Rightarrow> bytes) \<Rightarrow> client_request \<Rightarrow> string list" where
  "rateLimitBuckets sha q =
     (let credential = extractAPIKey (http_headers.truncate q)
      in (if credential \<noteq> [] then [credentialBucket sha credential] else []) @ [''ip:'' @ getRealIP q])"

definition bucket_key :: "string \<Rightarrow> string" where
  "bucket_key b = ''ratelimit:'' @ b"

lemma bucket_key_inject [simp]: "bucket_key a = bucket_key b \<longleftrightarrow> a = b"
  by (simp add: bucket_key_def)

section \<open>The middleware\<close>

record RateLimitConfig =
  rc_RequestsPerMinute :: int
  rc_BurstSize :: int

definition DefaultRateLimitConfig :: RateLimitConfig where
  "DefaultRateLimitConfig = \<lparr>rc_RequestsPerMinute = 60, rc_BurstSize = 10\<rparr>"

text \<open>The rate limit headers, and what happens to the request.\<close>

record limit_headers =
  lh_Limit :: int
  lh_Remaining :: int
  lh_ResetIn :: int
  lh_RetryAfter :: "int option"

datatype verdict = Next "limit_headers option" | TooMany limit_headers

fun count_buckets ::
  "'r redis \<Rightarrow> (string \<Rightarrow> bool) \<Rightarrow> nat \<Rightarrow> string list \<Rightarrow> int \<times> int \<Rightarrow> 'r \<Rightarrow> 'r \<times> (int \<times> int) option" where
  "count_buckets R fails now [] acc r = (r, Some acc)"
| "count_buckets R fails now (b # bs) (count, resetIn) r =
     (case IncrWithExpire R (fails b) now (bucket_key b) 60000 r of
        (r', None) \<Rightarrow> (r', None)
      | (r', Some (c, t)) \<Rightarrow> count_buckets R fails now bs (if c > count then (c, t) else (count, resetIn)) r')"

definition decide :: "RateLimitConfig \<Rightarrow> int \<Rightarrow> int \<Rightarrow> verdict" where
  "decide cfg count resetIn =
     (let limit = rc_RequestsPerMinute cfg;
          h = \<lparr>lh_Limit = limit, lh_Remaining = max 0 (limit - count), lh_ResetIn = resetIn, lh_RetryAfter = None\<rparr>
      in if count > limit + rc_BurstSize cfg then TooMany (h\<lparr>lh_RetryAfter := Some ((resetIn + 999) div 1000)\<rparr>)
         else Next (Some h))"

definition rate_limit_call ::
  "'r redis \<Rightarrow> (string \<Rightarrow> bool) \<Rightarrow> RateLimitConfig \<Rightarrow> nat \<Rightarrow> string list \<Rightarrow> 'r \<Rightarrow> 'r \<times> verdict" where
  "rate_limit_call R fails cfg now buckets r =
     (case count_buckets R fails now buckets (0, 0) r of
        (r', None) \<Rightarrow> (r', Next None)
      | (r', Some (count, resetIn)) \<Rightarrow> (r', decide cfg count resetIn))"

text \<open>The handler chain: \<open>RateLimit\<close>, and \<open>RateLimitByKey\<close> with its own key.\<close>

definition RateLimit ::
  "'r redis \<Rightarrow> (string \<Rightarrow> bytes) \<Rightarrow> (string \<Rightarrow> bool) \<Rightarrow> RateLimitConfig \<Rightarrow> nat \<Rightarrow> client_request \<Rightarrow> 'r \<Rightarrow> 'r \<times> verdict" where
  "RateLimit R sha fails cfg now q r = rate_limit_call R fails cfg now (rateLimitBuckets sha q) r"

definition RateLimitByKey ::
  "'r redis \<Rightarrow> (string \<Rightarrow> bytes) \<Rightarrow> (string \<Rightarrow> bool) \<Rightarrow> RateLimitConfig \<Rightarrow> (client_request \<Rightarrow> string) \<Rightarrow> nat \<Rightarrow>
     client_request \<Rightarrow> 'r \<Rightarrow> 'r \<times> verdict" where
  "RateLimitByKey R sha fails cfg keyFunc now q r =
     (let clientID = (if keyFunc q = [] then getClientID sha q else keyFunc q) in
      case IncrWithExpire R (fails clientID) now (bucket_key clientID) 60000 r of
        (r', None) \<Rightarrow> (r', Next None)
      | (r', Some (count, resetIn)) \<Rightarrow> (r', decide cfg count resetIn))"

text \<open>A run: the requests with their times, and how many of them pass.\<close>

fun rate_limit_run ::
  "'r redis \<Rightarrow> (string \<Rightarrow> bytes) \<Rightarrow> RateLimitConfig \<Rightarrow> (nat \<times> client_request) list \<Rightarrow> 'r \<Rightarrow> verdict list" where
  "rate_limit_run R sha cfg [] r = []"
| "rate_limit_run R sha cfg ((now, q) # qs) r =
     (case RateLimit R sha (\<lambda>_. False) cfg now q r of (r', v) \<Rightarrow> v # rate_limit_run R sha cfg qs r')"

definition passed :: "verdict \<Rightarrow> bool" where
  "passed v = (case v of Next _ \<Rightarrow> True | TooMany _ \<Rightarrow> False)"

section \<open>What one request does to a counter\<close>

definition window_step :: "nat \<Rightarrow> counter \<Rightarrow> int \<times> nat" where
  "window_step now c =
     (let n = (case live_at now c of None \<Rightarrow> 1 | Some (v, _) \<Rightarrow> v + 1) in
      (n, if n = 1 then now + 60000
          else case Option.bind (live_at now c) snd of None \<Rightarrow> now + 60000 | Some e \<Rightarrow> e))"

lemma incrWindow_ok:
  assumes "redis_ok R cell" "incrWindow R now k 60000 r = (r', n, t)"
  shows "n = fst (window_step now (cell r k))"
    and "cell r' = (cell r)(k \<mapsto> (n, Some (snd (window_step now (cell r k)))))"
proof -
  let ?n = "case live_at now (cell r k) of None \<Rightarrow> 1 | Some (v, _) \<Rightarrow> v + 1"
  let ?e = "Option.bind (live_at now (cell r k)) snd"
  obtain r1 m where i: "INCR R now k r = (r1, m)" by fastforce
  have a: "m = ?n" "cell r1 = (cell r)(k \<mapsto> (?n, ?e))"
    using assms(1) i unfolding redis_ok_def Let_def by (metis fst_conv snd_conv)+
  have n: "n = ?n" using assms(2) i a(1) by (simp add: incrWindow_def Let_def)
  then show "n = fst (window_step now (cell r k))" by (simp add: window_step_def Let_def)
  have live: "live_at now (cell r1 k) = Some (?n, ?e)"
    using a(2) by (auto simp: live_at_def split: option.splits if_splits)
  have p: "PTTL R now k r1 = (case ?e of None \<Rightarrow> - 1 | Some e \<Rightarrow> int (e - now))"
  proof -
    have "PTTL R now k r1 = (case live_at now (cell r1 k) of
        None \<Rightarrow> - 2 | Some (_, None) \<Rightarrow> - 1 | Some (_, Some e) \<Rightarrow> int (e - now))"
      using assms(1) unfolding redis_ok_def by blast
    then show ?thesis unfolding live by simp
  qed
  have x: "cell (PEXPIRE R now k 60000 r1) = (cell r1)(k \<mapsto> (?n, Some (now + 60000)))"
  proof -
    have "cell (PEXPIRE R now k 60000 r1) =
        (cell r1)(k := map_option (\<lambda>(v, _). (v, Some (now + 60000))) (live_at now (cell r1 k)))"
      using assms(1) unfolding redis_ok_def by blast
    then show ?thesis unfolding live by simp
  qed
  have "r' = (if m = 1 \<or> PTTL R now k r1 < 0 then PEXPIRE R now k 60000 r1 else r1)"
    using assms(2) i by (auto simp: incrWindow_def Let_def)
  then have r': "r' = (if ?n = 1 \<or> PTTL R now k r1 < 0 then PEXPIRE R now k 60000 r1 else r1)" unfolding a(1) .
  show "cell r' = (cell r)(k \<mapsto> (n, Some (snd (window_step now (cell r k)))))"
    unfolding n using r' x a(2) p by (cases ?e) (auto simp: window_step_def Let_def)
qed

lemma window_step_next: "n = fst (window_step now c) \<Longrightarrow> e = snd (window_step now c) \<Longrightarrow>
    live_at now c = Some (v, Some e') \<Longrightarrow> 0 < v \<Longrightarrow> n = v + 1 \<and> e = e'"
  by (simp add: window_step_def Let_def)

text \<open>A bucket of a request is counted once, and the count that decides is at least its own.\<close>

definition counted :: "nat \<Rightarrow> counter \<Rightarrow> counter" where
  "counted now c = (case window_step now c of (n, e) \<Rightarrow> Some (n, Some e))"

lemma count_buckets_each:
  assumes "redis_ok R cell" "distinct bs"
  shows "\<exists>r' count t. count_buckets R (\<lambda>_. False) now bs acc r = (r', Some (count, t)) \<and> fst acc \<le> count \<and>
    (\<forall>b\<in>set bs. fst (window_step now (cell r (bucket_key b))) \<le> count \<and>
       cell r' (bucket_key b) = counted now (cell r (bucket_key b))) \<and>
    (\<forall>k. (\<forall>b\<in>set bs. k \<noteq> bucket_key b) \<longrightarrow> cell r' k = cell r k)"
  using assms(2)
proof (induction bs arbitrary: acc r)
  case Nil
  show ?case by (cases acc) simp
next
  case (Cons b bs)
  let ?k = "bucket_key b"
  obtain r1 n t1 where w: "incrWindow R now ?k 60000 r = (r1, n, t1)" by (metis prod_cases3)
  note ok = incrWindow_ok [OF assms(1) w]
  define acc' where "acc' = (if n > fst acc then (n, t1) else acc)"
  obtain r' count t where ih: "count_buckets R (\<lambda>_. False) now bs acc' r1 = (r', Some (count, t))" "fst acc' \<le> count"
    "\<And>b. b \<in> set bs \<Longrightarrow> fst (window_step now (cell r1 (bucket_key b))) \<le> count \<and>
       cell r' (bucket_key b) = counted now (cell r1 (bucket_key b))"
    "\<And>k. (\<forall>b\<in>set bs. k \<noteq> bucket_key b) \<Longrightarrow> cell r' k = cell r1 k"
    using Cons.IH [of acc' r1] Cons.prems by auto
  have "count_buckets R (\<lambda>_. False) now (b # bs) acc r = (r', Some (count, t))"
    using w ih(1) by (cases acc) (auto simp: IncrWithExpire_def acc'_def split: if_splits)
  moreover have "fst acc \<le> count" "n \<le> count" using ih(2) by (auto simp: acc'_def split: if_splits)
  moreover have "cell r' ?k = counted now (cell r ?k)"
  proof -
    have "\<forall>b'\<in>set bs. ?k \<noteq> bucket_key b'" using Cons.prems by auto
    then show ?thesis using ih(4) [of ?k] ok by (simp add: counted_def split: prod.split)
  qed
  moreover have "fst (window_step now (cell r (bucket_key b'))) \<le> count \<and>
      cell r' (bucket_key b') = counted now (cell r (bucket_key b'))" if b': "b' \<in> set bs" for b'
  proof -
    have "cell r1 (bucket_key b') = cell r (bucket_key b')" using ok(2) b' Cons.prems by auto
    then show ?thesis using ih(3) [OF b'] by simp
  qed
  ultimately have each: "\<forall>b'\<in>set (b # bs). fst (window_step now (cell r (bucket_key b'))) \<le> count \<and>
      cell r' (bucket_key b') = counted now (cell r (bucket_key b'))"
    using ok(1) by simp
  have "\<forall>k. (\<forall>b'\<in>set (b # bs). k \<noteq> bucket_key b') \<longrightarrow> cell r' k = cell r k" using ih(4) ok(2) by auto
  then show ?case using each \<open>count_buckets _ _ _ (b # bs) acc r = _\<close> \<open>fst acc \<le> count\<close> by blast
qed

section \<open>The budget of an address\<close>

definition ip_key :: "string \<Rightarrow> string" where
  "ip_key ip = bucket_key (''ip:'' @ ip)"

lemma buckets_distinct: "distinct (rateLimitBuckets sha q)"
  by (simp add: rateLimitBuckets_def credentialBucket_def Let_def)

lemma ip_bucket: "''ip:'' @ getRealIP q \<in> set (rateLimitBuckets sha q)"
  by (simp add: rateLimitBuckets_def Let_def)

lemma other_bucket: "getRealIP q \<noteq> ip \<Longrightarrow> b \<in> set (rateLimitBuckets sha q) \<Longrightarrow> ip_key ip \<noteq> bucket_key b"
  by (auto simp: rateLimitBuckets_def credentialBucket_def ip_key_def Let_def split: if_splits)

definition budget :: "RateLimitConfig \<Rightarrow> int" where
  "budget cfg = rc_RequestsPerMinute cfg + rc_BurstSize cfg"

lemma RateLimit_counts:
  assumes "redis_ok R cell" "RateLimit R sha (\<lambda>_. False) cfg now q r = (r', v)"
  shows "getRealIP q = ip \<Longrightarrow> cell r' (ip_key ip) = counted now (cell r (ip_key ip)) \<and>
      (passed v \<longrightarrow> fst (window_step now (cell r (ip_key ip))) \<le> budget cfg)"
    and "getRealIP q \<noteq> ip \<Longrightarrow> cell r' (ip_key ip) = cell r (ip_key ip)"
proof -
  obtain r1 count t where c: "count_buckets R (\<lambda>_. False) now (rateLimitBuckets sha q) (0, 0) r = (r1, Some (count, t))"
    "\<And>b. b \<in> set (rateLimitBuckets sha q) \<Longrightarrow> fst (window_step now (cell r (bucket_key b))) \<le> count \<and>
       cell r1 (bucket_key b) = counted now (cell r (bucket_key b))"
    "\<And>k. (\<forall>b\<in>set (rateLimitBuckets sha q). k \<noteq> bucket_key b) \<Longrightarrow> cell r1 k = cell r k"
    using count_buckets_each [OF assms(1) buckets_distinct, of now sha q "(0, 0)" r] by blast
  have r': "r' = r1" "v = decide cfg count t"
    using assms(2) c(1) by (simp_all add: RateLimit_def rate_limit_call_def)
  have p: "passed v \<Longrightarrow> count \<le> budget cfg"
    unfolding r'(2) by (auto simp: decide_def passed_def budget_def Let_def split: if_splits)
  show "cell r' (ip_key ip) = counted now (cell r (ip_key ip)) \<and>
      (passed v \<longrightarrow> fst (window_step now (cell r (ip_key ip))) \<le> budget cfg)" if "getRealIP q = ip"
    using c(2) [OF ip_bucket [of q]] p r'(1) that by (auto simp: ip_key_def)
  show "cell r' (ip_key ip) = cell r (ip_key ip)" if "getRealIP q \<noteq> ip"
    unfolding r'(1) using other_bucket [OF that] by (intro c(3)) blast
qed

text \<open>How many requests of the address pass at times with P.\<close>

fun passes ::
  "'r redis \<Rightarrow> (string \<Rightarrow> bytes) \<Rightarrow> RateLimitConfig \<Rightarrow> string \<Rightarrow> (nat \<Rightarrow> bool) \<Rightarrow> (nat \<times> client_request) list \<Rightarrow> 'r \<Rightarrow> int" where
  "passes R sha cfg ip P [] r = 0"
| "passes R sha cfg ip P ((now, q) # qs) r =
     (case RateLimit R sha (\<lambda>_. False) cfg now q r of (r', v) \<Rightarrow>
        (if P now \<and> getRealIP q = ip \<and> passed v then 1 else 0) + passes R sha cfg ip P qs r')"

lemma passes_mono: "(\<And>n. n \<in> fst ` set qs \<Longrightarrow> P n \<Longrightarrow> Q n) \<Longrightarrow> passes R sha cfg ip P qs r \<le> passes R sha cfg ip Q qs r"
  by (induction R sha cfg ip P qs r rule: passes.induct) (auto split: prod.splits)

lemma passes_union: "passes R sha cfg ip (\<lambda>n. P n \<or> Q n) qs r \<le> passes R sha cfg ip P qs r + passes R sha cfg ip Q qs r"
  by (induction R sha cfg ip P qs r rule: passes.induct) (auto split: prod.splits)

lemma passes_none: "(\<And>n. n \<in> fst ` set qs \<Longrightarrow> \<not> P n) \<Longrightarrow> passes R sha cfg ip P qs r = 0"
  by (induction R sha cfg ip P qs r rule: passes.induct) (auto split: prod.splits)

text \<open>Within a window that counts v already.\<close>

lemma passes_in_window:
  assumes "redis_ok R cell" "sorted (map fst qs)" "cell r (ip_key ip) = Some (v, Some e)" "1 \<le> v"
  shows "passes R sha cfg ip (\<lambda>n. n < e) qs r \<le> max 0 (budget cfg - v)"
  using assms(2-4)
proof (induction qs arbitrary: r v)
  case (Cons nq qs)
  obtain now q where nq: "nq = (now, q)" by fastforce
  obtain r' vd where c: "RateLimit R sha (\<lambda>_. False) cfg now q r = (r', vd)" by fastforce
  note step = RateLimit_counts [OF assms(1) c]
  show ?case
  proof (cases "now < e")
    case False
    then have "\<not> n < e" if "n \<in> fst ` set (nq # qs)" for n using Cons.prems(1) nq that by fastforce
    then show ?thesis using passes_none by (metis max.cobounded1)
  next
    case True
    show ?thesis
    proof (cases "getRealIP q = ip")
      case True
      have w: "window_step now (cell r (ip_key ip)) = (v + 1, e)"
        using Cons.prems(2,3) \<open>now < e\<close> by (simp add: window_step_def live_at_def Let_def)
      have "cell r' (ip_key ip) = Some (v + 1, Some e)" using step(1) [OF True] w by (simp add: counted_def)
      then have "passes R sha cfg ip (\<lambda>n. n < e) qs r' \<le> max 0 (budget cfg - (v + 1))"
        using Cons.IH [of r' "v + 1"] Cons.prems by simp
      moreover have "passed vd \<Longrightarrow> v + 1 \<le> budget cfg" using step(1) [OF True] w by simp
      ultimately show ?thesis using c nq by auto
    next
      case False
      then show ?thesis using step(2) [OF False] Cons.IH [of r' v] Cons.prems c nq by simp
    qed
  qed
qed simp

text \<open>When the counter does not exist at time t, the next window is the only one before t + 60 s.\<close>

lemma passes_fresh:
  assumes "redis_ok R cell" "sorted (map fst qs)" "\<forall>n\<in>fst ` set qs. t \<le> n" "live_at t (cell r (ip_key ip)) = None"
  shows "passes R sha cfg ip (\<lambda>n. n < t + 60000) qs r \<le> max 0 (budget cfg)"
  using assms(2-4)
proof (induction qs arbitrary: r)
  case (Cons nq qs)
  obtain now q where nq: "nq = (now, q)" by fastforce
  obtain r' vd where c: "RateLimit R sha (\<lambda>_. False) cfg now q r = (r', vd)" by fastforce
  note step = RateLimit_counts [OF assms(1) c]
  have t: "t \<le> now" using Cons.prems(2) nq by simp
  show ?case
  proof (cases "getRealIP q = ip")
    case True
    have "live_at now (cell r (ip_key ip)) = None"
      using Cons.prems(3) t by (auto simp: live_at_def split: option.splits if_splits)
    then have w: "window_step now (cell r (ip_key ip)) = (1, now + 60000)" by (simp add: window_step_def Let_def)
    have "cell r' (ip_key ip) = Some (1, Some (now + 60000))" using step(1) [OF True] w by (simp add: counted_def)
    then have "passes R sha cfg ip (\<lambda>n. n < now + 60000) qs r' \<le> max 0 (budget cfg - 1)"
      using passes_in_window [OF assms(1)] Cons.prems(1) by simp
    moreover have "passes R sha cfg ip (\<lambda>n. n < t + 60000) qs r' \<le> passes R sha cfg ip (\<lambda>n. n < now + 60000) qs r'"
      using t by (intro passes_mono) linarith
    moreover have "passed vd \<Longrightarrow> 1 \<le> budget cfg" using step(1) [OF True] w by simp
    ultimately show ?thesis using c nq by auto
  next
    case False
    then show ?thesis using step(2) [OF False] Cons.IH [of r'] Cons.prems c nq by simp
  qed
qed simp

text \<open>After the running window has ended.\<close>

lemma passes_after:
  assumes "redis_ok R cell" "sorted (map fst qs)" "cell r (ip_key ip) = Some (v, Some e)" "1 \<le> v"
  shows "passes R sha cfg ip (\<lambda>n. e \<le> n \<and> n < e + 60000) qs r \<le> max 0 (budget cfg)"
  using assms(2-4)
proof (induction qs arbitrary: r v)
  case (Cons nq qs)
  obtain now q where nq: "nq = (now, q)" by fastforce
  show ?case
  proof (cases "now < e")
    case True
    obtain r' vd where c: "RateLimit R sha (\<lambda>_. False) cfg now q r = (r', vd)" by fastforce
    note step = RateLimit_counts [OF assms(1) c]
    have "\<exists>v'\<ge>1. cell r' (ip_key ip) = Some (v', Some e)"
    proof (cases "getRealIP q = ip")
      case True
      then show ?thesis
        using step(1) [OF True] Cons.prems(2,3) \<open>now < e\<close>
        by (auto simp: counted_def window_step_def live_at_def Let_def)
    qed (use step(2) Cons.prems in auto)
    then show ?thesis using Cons.IH [of r'] Cons.prems(1) c nq True by auto
  next
    case False
    have "\<forall>n\<in>fst ` set (nq # qs). e \<le> n" using Cons.prems(1) nq False by fastforce
    moreover have "live_at e (cell r (ip_key ip)) = None" using Cons.prems(2) by (simp add: live_at_def)
    ultimately have "passes R sha cfg ip (\<lambda>n. n < e + 60000) (nq # qs) r \<le> max 0 (budget cfg)"
      using passes_fresh [OF assms(1) Cons.prems(1)] by blast
    moreover have "passes R sha cfg ip (\<lambda>n. e \<le> n \<and> n < e + 60000) (nq # qs) r \<le> passes R sha cfg ip (\<lambda>n. n < e + 60000) (nq # qs) r"
      by (rule passes_mono) simp
    ultimately show ?thesis by linarith
  qed
qed simp

lemma passes_run: "passes R sha cfg ip P qs r =
    int (length (filter (\<lambda>((n, q), v). P n \<and> getRealIP q = ip \<and> passed v) (zip qs (rate_limit_run R sha cfg qs r))))"
  by (induction R sha cfg ip P qs r rule: passes.induct) (auto split: prod.splits)

definition counter_ok :: "counter \<Rightarrow> bool" where
  "counter_ok c \<longleftrightarrow> (case c of None \<Rightarrow> True | Some (v, None) \<Rightarrow> False | Some (v, Some e) \<Rightarrow> 1 \<le> v)"

lemma counter_ok_counted: "counter_ok c \<Longrightarrow> counter_ok (counted now c)"
  by (auto simp: counter_ok_def counted_def window_step_def live_at_def Let_def split: option.splits if_splits prod.splits)

lemma passes_minute:
  assumes "redis_ok R cell" "sorted (map fst qs)" "counter_ok (cell r (ip_key ip))"
  shows "passes R sha cfg ip (\<lambda>n. t \<le> n \<and> n < t + 60000) qs r \<le> 2 * max 0 (budget cfg)"
  using assms(2,3)
proof (induction qs arbitrary: r)
  case (Cons nq qs)
  obtain now q where nq: "nq = (now, q)" by fastforce
  let ?P = "\<lambda>n. t \<le> n \<and> n < t + 60000"
  show ?case
  proof (cases "now < t")
    case True
    obtain r' vd where c: "RateLimit R sha (\<lambda>_. False) cfg now q r = (r', vd)" by fastforce
    have "counter_ok (cell r' (ip_key ip))"
      using RateLimit_counts [OF assms(1) c] Cons.prems(2) counter_ok_counted by (cases "getRealIP q = ip") auto
    then show ?thesis using Cons.IH [of r'] Cons.prems(1) True c nq by simp
  next
    case False
    have all: "\<forall>n\<in>fst ` set (nq # qs). t \<le> n" using Cons.prems(1) nq False by fastforce
    show ?thesis
    proof (cases "live_at t (cell r (ip_key ip))")
      case None
      have "passes R sha cfg ip ?P (nq # qs) r \<le> passes R sha cfg ip (\<lambda>n. n < t + 60000) (nq # qs) r"
        by (rule passes_mono) simp
      then show ?thesis using passes_fresh [OF assms(1) Cons.prems(1) all None, of sha cfg] by linarith
    next
      case (Some ve)
      then obtain v e where ve: "cell r (ip_key ip) = Some (v, Some e)" "1 \<le> v" "t < e"
        using Cons.prems(2) by (auto simp: counter_ok_def live_at_def split: option.splits if_splits)
      have "passes R sha cfg ip ?P (nq # qs) r \<le>
          passes R sha cfg ip (\<lambda>n. n < e \<or> e \<le> n \<and> n < e + 60000) (nq # qs) r"
        using ve(3) by (intro passes_mono) linarith
      also have "\<dots> \<le> passes R sha cfg ip (\<lambda>n. n < e) (nq # qs) r +
          passes R sha cfg ip (\<lambda>n. e \<le> n \<and> n < e + 60000) (nq # qs) r" by (rule passes_union)
      also have "\<dots> \<le> max 0 (budget cfg - v) + max 0 (budget cfg)"
        by (rule add_mono [OF passes_in_window [OF assms(1) Cons.prems(1) ve(1,2)] passes_after [OF assms(1) Cons.prems(1) ve(1,2)]])
      finally show ?thesis using ve(2) by linarith
    qed
  qed
qed simp


text \<open>A store with these commands: the map from keys to counters itself.\<close>

definition map_redis :: "(string \<Rightarrow> counter) redis" where
  "map_redis = \<lparr>
     INCR = (\<lambda>now k m. let n = (case live_at now (m k) of None \<Rightarrow> 1 | Some (v, _) \<Rightarrow> v + 1)
        in (m(k \<mapsto> (n, Option.bind (live_at now (m k)) snd)), n)),
     PTTL = (\<lambda>now k m. case live_at now (m k) of None \<Rightarrow> - 2 | Some (_, None) \<Rightarrow> - 1 | Some (_, Some e) \<Rightarrow> int (e - now)),
     PEXPIRE = (\<lambda>now k ms m. m(k := map_option (\<lambda>(v, _). (v, Some (now + ms))) (live_at now (m k))))\<rparr>"

lemma map_redis_ok: "redis_ok map_redis id"
  by (simp add: redis_ok_def map_redis_def Let_def)

definition from_ip :: "string \<Rightarrow> client_request" where
  "from_ip ip = \<lparr>hd_Authorization = [], hd_XAPIKey = [], rq_XForwardedFor = [], rq_XRealIP = [], rq_RemoteAddr = ip\<rparr>"

definition three_requests :: "(nat \<times> client_request) list" where
  "three_requests = [(0, from_ip ''a''), (1, from_ip ''a''), (2, from_ip ''a'')]"

definition tiny_limit :: RateLimitConfig where
  "tiny_limit = \<lparr>rc_RequestsPerMinute = 1, rc_BurstSize = 0\<rparr>"


text \<open>
  The address is the caller's word: \<open>X-Forwarded-For\<close> names the bucket, so a caller who puts a new address into it
  with every request has every request counted in a window of its own and passes however many it sends.
\<close>

lemma forwarded_header_escapes_limit:
  assumes "redis_ok R cell" "1 \<le> rc_RequestsPerMinute cfg + rc_BurstSize cfg"
    and "\<forall>(n, q)\<in>set qs. extractAPIKey (http_headers.truncate q) = []"
    and "distinct (map (getRealIP \<circ> snd) qs)" "\<forall>(n, q)\<in>set qs. cell r (ip_key (getRealIP q)) = None"
  shows "list_all passed (rate_limit_run R sha cfg qs r)"
  using assms(3-5)
proof (induction qs arbitrary: r)
  case (Cons nq qs)
  obtain now q where nq: "nq = (now, q)" by fastforce
  obtain r' vd where c: "RateLimit R sha (\<lambda>_. False) cfg now q r = (r', vd)" by fastforce
  have b: "rateLimitBuckets sha q = [''ip:'' @ getRealIP q]" using Cons.prems(1) nq by (simp add: rateLimitBuckets_def)
  obtain r1 n t where w: "incrWindow R now (ip_key (getRealIP q)) 60000 r = (r1, n, t)" by (metis prod_cases3)
  have "cell r (ip_key (getRealIP q)) = None" using Cons.prems(3) nq by simp
  then have "n = 1" using incrWindow_ok(1) [OF assms(1) w] by (simp add: window_step_def live_at_def)
  then have "passed vd"
    using c b w assms(2) by (auto simp: RateLimit_def rate_limit_call_def IncrWithExpire_def ip_key_def decide_def passed_def Let_def)
  moreover have "\<forall>(n, p)\<in>set qs. cell r' (ip_key (getRealIP p)) = None"
  proof clarify
    fix m p assume p: "(m, p) \<in> set qs"
    then have "getRealIP q \<noteq> getRealIP p" using Cons.prems(2) nq by force
    then show "cell r' (ip_key (getRealIP p)) = None"
      using RateLimit_counts(2) [OF assms(1) c] Cons.prems(3) p nq by auto
  qed
  ultimately show ?case using Cons.IH [of r'] Cons.prems(1,2) c nq by simp
qed simp

theorem forwarded_header_escapes_limit_witness:
  "list_all passed (rate_limit_run map_redis (\<lambda>_. []) tiny_limit
     [(0, (from_ip ''a'')\<lparr>rq_XForwardedFor := ''x''\<rparr>), (0, (from_ip ''a'')\<lparr>rq_XForwardedFor := ''y, 10.0.0.1''\<rparr>)] Map.empty)"
  by (rule forwarded_header_escapes_limit [OF map_redis_ok])
    (auto simp: tiny_limit_def from_ip_def extractAPIKey_def http_headers.truncate_def getRealIP_def TrimSpace_def space_char_def)

end
