(* ===== verification/RpcRateLimit.thy ===== *)
theory RpcRateLimit
  imports RateLimit JsonRpc "HOL-Library.Log_Nat"
begin

text \<open>
  The sliding window of the RPC gateway, \<open>middleware/rpc_ratelimit.go\<close>: which address a request
  is counted for, and the one-second window kept in a sorted set of Redis whose scores are the
  times of the requests as 64-bit floats. The commands on sorted sets are a record, what is
  relied on of them is \<open>zredis_ok\<close>. Gateway and Redis share a clock, in nanoseconds; a pipeline
  that fails changes nothing.
\<close>

section \<open>The address of a request\<close>

definition extractAddressFromSingleRequest :: "jsonv option \<Rightarrow> string" where
  "extractAddressFromSingleRequest body =
     (case body of
        None \<Rightarrow> []
      | Some j \<Rightarrow>
          if \<not> is_struct j then []
          else case (json_text (json_get ''method'' j), json_slice Some (json_get ''params'' j)) of
            (Some meth, Some params) \<Rightarrow>
              if meth = ''eth_signTransaction'' then
                (if length params > 0 \<and> is_struct (params ! 0)
                 then case json_text (json_get ''from'' (params ! 0)) of Some a \<Rightarrow> a | None \<Rightarrow> [] else [])
              else if meth = ''eth_sign'' then
                (if length params > 0 then case json_text (params ! 0) of Some a \<Rightarrow> a | None \<Rightarrow> [] else [])
              else if meth = ''personal_sign'' then
                (if length params > 1 then case json_text (params ! 1) of Some a \<Rightarrow> a | None \<Rightarrow> [] else [])
              else []
          | _ \<Rightarrow> [])"

text \<open>A body that begins with a bracket is a batch, and its first request decides.\<close>

definition extractAddressFromRPCRequest :: "http_in \<Rightarrow> string" where
  "extractAddressFromRPCRequest h =
     (if hi_bracket h then
        (case Option.bind (hi_json h) (json_slice Some) of
           None \<Rightarrow> [] | Some [] \<Rightarrow> [] | Some (j # js) \<Rightarrow> extractAddressFromSingleRequest (Some j))
      else extractAddressFromSingleRequest (hi_json h))"

section \<open>Sorted sets\<close>

text \<open>A natural number as a 64-bit float: 53 bits, ties to even.\<close>

definition round_at :: "nat \<Rightarrow> nat \<Rightarrow> nat" where
  "round_at e n =
     (let q = n div 2 ^ e; r = n mod 2 ^ e
      in (if 2 ^ e < 2 * r \<or> 2 ^ e = 2 * r \<and> odd q then q + 1 else q) * 2 ^ e)"

definition float64 :: "nat \<Rightarrow> nat" where
  "float64 n = round_at (floorlog 2 n - 53) n"

record 'r zredis =
  ZREMRANGEBYSCORE :: "nat \<Rightarrow> string \<Rightarrow> nat \<Rightarrow> nat \<Rightarrow> 'r \<Rightarrow> 'r"
  ZCARD :: "nat \<Rightarrow> string \<Rightarrow> 'r \<Rightarrow> nat"
  ZADD :: "nat \<Rightarrow> string \<Rightarrow> nat \<Rightarrow> string \<Rightarrow> 'r \<Rightarrow> 'r"
  EXPIRE :: "nat \<Rightarrow> string \<Rightarrow> nat \<Rightarrow> 'r \<Rightarrow> 'r"

text \<open>The members with their scores, and the time the key expires.\<close>

type_synonym zset = "(string \<rightharpoonup> nat) \<times> nat option"

definition zlive :: "nat \<Rightarrow> zset \<Rightarrow> zset" where
  "zlive now z = (case snd z of Some e \<Rightarrow> if now < e then z else (Map.empty, None) | None \<Rightarrow> z)"

definition zredis_ok :: "'r zredis \<Rightarrow> ('r \<Rightarrow> string \<Rightarrow> zset) \<Rightarrow> bool" where
  "zredis_ok R zs \<longleftrightarrow> (\<forall>now k lo hi sc x d r.
     fst (zs (ZREMRANGEBYSCORE R now k lo hi r) k) =
       (\<lambda>y. case fst (zlive now (zs r k)) y of None \<Rightarrow> None | Some s \<Rightarrow> if lo \<le> s \<and> s \<le> hi then None else Some s) \<and>
     (snd (zs (ZREMRANGEBYSCORE R now k lo hi r) k) = snd (zlive now (zs r k)) \<or>
      snd (zs (ZREMRANGEBYSCORE R now k lo hi r) k) = None) \<and>
     ZCARD R now k r = card (dom (fst (zlive now (zs r k)))) \<and>
     fst (zs (ZADD R now k sc x r) k) = (fst (zlive now (zs r k)))(x \<mapsto> sc) \<and>
     snd (zs (ZADD R now k sc x r) k) = snd (zlive now (zs r k)) \<and>
     (fst (zlive now (zs r k)) \<noteq> Map.empty \<longrightarrow>
        zs (EXPIRE R now k d r) k = (fst (zlive now (zs r k)), Some (now + d * 10 ^ 9))))"

text \<open>The pipeline: remove what is a second old, count, add this request, keep the key for two seconds.\<close>

definition checkSlidingWindowRateLimit ::
  "'r zredis \<Rightarrow> nat \<Rightarrow> string \<Rightarrow> int \<Rightarrow> 'r \<Rightarrow> 'r \<times> bool" where
  "checkSlidingWindowRateLimit R now key requestsPerSecond r =
     (let windowStart = now - 10 ^ 9;
          r1 = ZREMRANGEBYSCORE R now key 0 (float64 windowStart) r;
          count = ZCARD R now key r1;
          r2 = ZADD R now key (float64 now) (dec_of_nat now) r1;
          r3 = EXPIRE R now key 2 r2
      in (r3, int count < requestsPerSecond))"

datatype rpc_verdict = Forward | RpcRefused int int string

definition writeRPCError :: "int \<Rightarrow> string \<Rightarrow> rpc_verdict" where
  "writeRPCError code message = RpcRefused (if code = - 32029 then 429 else 400) code message"

text \<open>\<open>fails\<close> is an error of the pipeline, \<open>has_redis\<close> whether the gateway has a Redis at all.\<close>

definition RPCRateLimit ::
  "'r zredis \<Rightarrow> bool \<Rightarrow> bool \<Rightarrow> int \<Rightarrow> nat \<Rightarrow> http_in \<Rightarrow> 'r \<Rightarrow> 'r \<times> rpc_verdict" where
  "RPCRateLimit R has_redis fails requestsPerSecond now h r =
     (if hi_read_fails h then (r, writeRPCError (- 32700) ''Failed to read request'')
      else if hi_empty h then (r, Forward)
      else let address = extractAddressFromRPCRequest h in
        if address \<noteq> [] \<and> has_redis then
          (if fails then (r, Forward)
           else case checkSlidingWindowRateLimit R now (''rpc_ratelimit:'' @ lower address) requestsPerSecond r of
             (r', allowed) \<Rightarrow> (r', if allowed then Forward else writeRPCError (- 32029) ''Rate limit exceeded''))
        else (r, Forward))"

text \<open>The verdicts on the requests of one key, given by their times.\<close>

fun sliding_run :: "'r zredis \<Rightarrow> string \<Rightarrow> int \<Rightarrow> nat list \<Rightarrow> 'r \<Rightarrow> 'r \<times> bool list" where
  "sliding_run R key rps [] r = (r, [])"
| "sliding_run R key rps (t # ts) r =
     (case checkSlidingWindowRateLimit R t key rps r of (r1, a) \<Rightarrow>
        (case sliding_run R key rps ts r1 of (r2, as) \<Rightarrow> (r2, a # as)))"

section \<open>Rounding is monotone\<close>

lemma round_at_mono: "m \<le> n \<Longrightarrow> round_at e m \<le> round_at e n"
proof -
  assume mn: "m \<le> n"
  have q: "m div 2 ^ e \<le> n div 2 ^ e" using mn by (rule div_le_mono)
  show ?thesis
  proof (cases "m div 2 ^ e = n div 2 ^ e")
    case True
    have "m = m div 2 ^ e * 2 ^ e + m mod 2 ^ e" "n = n div 2 ^ e * 2 ^ e + n mod 2 ^ e"
      by (simp_all only: div_mult_mod_eq)
    then have "m mod 2 ^ e \<le> n mod 2 ^ e" using mn True by simp
    then show ?thesis using True by (auto simp: round_at_def Let_def)
  next
    case False
    then have "m div 2 ^ e + 1 \<le> n div 2 ^ e" using q by simp
    then have "round_at e m \<le> n div 2 ^ e * 2 ^ e"
      unfolding round_at_def Let_def by (intro mult_le_mono1) auto
    also have "\<dots> \<le> round_at e n" by (simp add: round_at_def Let_def)
    finally show ?thesis .
  qed
qed

lemma round_at_power: "e \<le> k \<Longrightarrow> round_at e (2 ^ k) = 2 ^ k"
proof -
  assume "e \<le> k"
  then have "(2::nat) ^ k = 2 ^ e * 2 ^ (k - e)" by (simp flip: power_add)
  then show ?thesis by (simp add: round_at_def Let_def)
qed

lemma float64_mono: "m \<le> n \<Longrightarrow> float64 m \<le> float64 n"
proof -
  assume mn: "m \<le> n"
  let ?f = "\<lambda>x. floorlog 2 x"
  have f: "?f m \<le> ?f n" using mn by (rule floorlog_mono)
  show ?thesis
  proof (cases "?f m - 53 = ?f n - 53")
    case True
    then show ?thesis using round_at_mono [OF mn] by (simp add: float64_def)
  next
    case False
    then have g: "?f m \<le> ?f n - 1" "53 < ?f n" using f by linarith+
    have "n > 0" using g(2) by (cases "n = 0") (simp_all add: floorlog_def)
    have "m \<le> 2 ^ ?f m"
    proof (cases "m = 0")
      case False
      then show ?thesis using floorlog_bounds [of m 2] by simp
    qed simp
    then have "float64 m \<le> round_at (?f m - 53) (2 ^ ?f m)" unfolding float64_def by (rule round_at_mono)
    also have "\<dots> = 2 ^ ?f m" by (rule round_at_power) simp
    also have "\<dots> \<le> 2 ^ (?f n - 1)" using g(1) by simp
    also have "\<dots> = round_at (?f n - 53) (2 ^ (?f n - 1))" by (rule round_at_power [symmetric]) simp
    also have "\<dots> \<le> float64 n"
      unfolding float64_def using floorlog_bounds [of n 2] \<open>n > 0\<close> by (intro round_at_mono) simp
    finally show ?thesis .
  qed
qed

lemma float64_small: "n < 2 ^ 53 \<Longrightarrow> float64 n = n"
proof -
  assume "n < 2 ^ 53"
  then have "floorlog 2 n \<le> 53" by (intro floorlog_leI) simp_all
  then show ?thesis by (simp add: float64_def round_at_def)
qed

section \<open>What the window contains\<close>

definition kept :: "nat \<Rightarrow> (string \<rightharpoonup> nat) \<Rightarrow> (string \<rightharpoonup> nat)" where
  "kept w m = (\<lambda>y. case m y of None \<Rightarrow> None | Some s \<Rightarrow> if s \<le> w then None else Some s)"

lemma zlive_expiry: "fst (zlive now (m, e)) = m \<or> (\<exists>t. e = Some t \<and> t \<le> now)"
  by (auto simp: zlive_def split: option.splits)

lemma zredis_laws:
  assumes "zredis_ok R zs"
  shows "fst (zs (ZREMRANGEBYSCORE R now k 0 w r) k) = kept w (fst (zlive now (zs r k)))"
    and "snd (zs (ZREMRANGEBYSCORE R now k lo hi r) k) = snd (zlive now (zs r k)) \<or>
      snd (zs (ZREMRANGEBYSCORE R now k lo hi r) k) = None"
    and "ZCARD R now k r = card (dom (fst (zlive now (zs r k))))"
    and "fst (zs (ZADD R now k sc x r) k) = (fst (zlive now (zs r k)))(x \<mapsto> sc)"
    and "snd (zs (ZADD R now k sc x r) k) = snd (zlive now (zs r k))"
    and "fst (zlive now (zs r k)) \<noteq> Map.empty \<Longrightarrow>
      zs (EXPIRE R now k d r) k = (fst (zlive now (zs r k)), Some (now + d * 10 ^ 9))"
proof -
  note law = assms [unfolded zredis_ok_def, rule_format]
  show "fst (zs (ZREMRANGEBYSCORE R now k 0 w r) k) = kept w (fst (zlive now (zs r k)))"
    unfolding kept_def using law [where now = now and k = k and lo = 0 and hi = w and r = r] by (simp only: le0 simp_thms)
  show "snd (zs (ZREMRANGEBYSCORE R now k lo hi r) k) = snd (zlive now (zs r k)) \<or>
      snd (zs (ZREMRANGEBYSCORE R now k lo hi r) k) = None"
    using law [where now = now and k = k and lo = lo and hi = hi and r = r] by (simp only: simp_thms)
  show "ZCARD R now k r = card (dom (fst (zlive now (zs r k))))" using law [where now = now and k = k and r = r] by (simp only: simp_thms)
  show "fst (zs (ZADD R now k sc x r) k) = (fst (zlive now (zs r k)))(x \<mapsto> sc)"
    "snd (zs (ZADD R now k sc x r) k) = snd (zlive now (zs r k))"
    using law [where now = now and k = k and sc = sc and x = x and r = r] by (simp_all only: simp_thms)
  show "zs (EXPIRE R now k d r) k = (fst (zlive now (zs r k)), Some (now + d * 10 ^ 9))"
    if "fst (zlive now (zs r k)) \<noteq> Map.empty"
    using law [where now = now and k = k and d = d and r = r] that by (simp only: simp_thms)
qed

lemma zlive_of: "snd z = snd (zlive t z') \<or> snd z = None \<Longrightarrow> zlive t z = z"
proof (cases "snd z")
  case (Some e)
  assume "snd z = snd (zlive t z') \<or> snd z = None"
  then have "snd (zlive t z') = Some e" using Some by simp
  then have "t < e" by (auto simp: zlive_def split: option.splits if_splits)
  then show ?thesis using Some by (simp add: zlive_def)
qed (simp add: zlive_def)

lemma check_effect:
  assumes "zredis_ok R zs" "checkSlidingWindowRateLimit R t key rps r = (r', a)"
  defines "m \<equiv> kept (float64 (t - 10 ^ 9)) (fst (zlive t (zs r key)))"
  shows "zs r' key = (m(dec_of_nat t \<mapsto> float64 t), Some (t + 2 * 10 ^ 9))" "a \<longleftrightarrow> int (card (dom m)) < rps"
proof -
  let ?r1 = "ZREMRANGEBYSCORE R t key 0 (float64 (t - 10 ^ 9)) r"
  let ?r2 = "ZADD R t key (float64 t) (dec_of_nat t) ?r1"
  have z1: "fst (zs ?r1 key) = m" unfolding m_def by (rule zredis_laws(1) [OF assms(1)])
  have e1: "snd (zs ?r1 key) = snd (zlive t (zs r key)) \<or> snd (zs ?r1 key) = None"
    by (rule zredis_laws(2) [OF assms(1)])
  have l1: "zlive t (zs ?r1 key) = zs ?r1 key" by (rule zlive_of [OF e1])
  have z2: "fst (zs ?r2 key) = m(dec_of_nat t \<mapsto> float64 t)" "snd (zs ?r2 key) = snd (zs ?r1 key)"
    using zredis_laws(4,5) [OF assms(1)] z1 l1 by simp_all
  have "snd (zs ?r2 key) = snd (zlive t (zs r key)) \<or> snd (zs ?r2 key) = None" using z2(2) e1 by simp
  then have "zlive t (zs ?r2 key) = zs ?r2 key" by (rule zlive_of)
  then have l2: "fst (zlive t (zs ?r2 key)) = m(dec_of_nat t \<mapsto> float64 t)" by (simp only: z2(1))
  have "r' = EXPIRE R t key 2 ?r2" using assms(2) by (auto simp: checkSlidingWindowRateLimit_def Let_def)
  moreover have "fst (zlive t (zs ?r2 key)) \<noteq> Map.empty" unfolding l2 by (metis fun_upd_same option.distinct(1))
  ultimately show "zs r' key = (m(dec_of_nat t \<mapsto> float64 t), Some (t + 2 * 10 ^ 9))"
    using zredis_laws(6) [OF assms(1), of t ?r2 key 2] l2 by simp
  have "ZCARD R t key ?r1 = card (dom m)" using zredis_laws(3) [OF assms(1)] z1 l1 by simp
  then show "a \<longleftrightarrow> int (card (dom m)) < rps" using assms(2) by (auto simp: checkSlidingWindowRateLimit_def Let_def)
qed

text \<open>The sorted set after the requests at the times ts.\<close>

definition holds_window :: "nat list \<Rightarrow> zset \<Rightarrow> bool" where
  "holds_window ts z \<longleftrightarrow>
     (\<forall>y s. fst z y = Some s \<longrightarrow> (\<exists>x\<in>set ts. y = dec_of_nat x \<and> s = float64 x)) \<and>
     (\<forall>x\<in>set ts. float64 (last ts - 10 ^ 9) < float64 x \<longrightarrow> fst z (dec_of_nat x) = Some (float64 x)) \<and>
     (ts \<noteq> [] \<longrightarrow> snd z = Some (last ts + 2 * 10 ^ 9))"

lemma last_greatest: "sorted_wrt (<) ts \<Longrightarrow> x \<in> set ts \<Longrightarrow> x \<le> last (ts :: nat list)"
  by (induction ts) (auto simp: less_imp_le)

lemma kept_window:
  assumes "holds_window ts z" "\<forall>x\<in>set ts. x < t" "sorted_wrt (<) ts"
  shows "kept (float64 (t - 10 ^ 9)) (fst (zlive t z)) (dec_of_nat x) =
      (if x \<in> set ts \<and> float64 (t - 10 ^ 9) < float64 x then Some (float64 x) else None)"
    and "kept (float64 (t - 10 ^ 9)) (fst (zlive t z)) y = Some s \<Longrightarrow> \<exists>x\<in>set ts. y = dec_of_nat x \<and> s = float64 x"
proof -
  let ?k = "kept (float64 (t - 10 ^ 9)) (fst (zlive t z))"
  have old: "fst (zlive t z) y = Some s \<Longrightarrow> fst z y = Some s" for y s
    by (auto simp: zlive_def split: option.splits if_splits)
  show 2: "\<exists>x\<in>set ts. y = dec_of_nat x \<and> s = float64 x" if "?k y = Some s" for y s
  proof -
    have "fst (zlive t z) y = Some s" using that by (auto simp: kept_def split: option.splits if_splits)
    then have "fst z y = Some s" by (rule old)
    then show ?thesis using assms(1) unfolding holds_window_def by blast
  qed
  show "?k (dec_of_nat x) = (if x \<in> set ts \<and> float64 (t - 10 ^ 9) < float64 x then Some (float64 x) else None)"
  proof (cases "x \<in> set ts \<and> float64 (t - 10 ^ 9) < float64 x")
    case True
    then have ne: "ts \<noteq> []" by auto
    then have "last ts - 10 ^ 9 \<le> t - 10 ^ 9" using assms(2) last_in_set [OF ne] by (intro diff_le_mono less_imp_le) blast
    then have "float64 (last ts - 10 ^ 9) < float64 x" using float64_mono True le_less_trans by blast
    then have z: "fst z (dec_of_nat x) = Some (float64 x)" using assms(1) True unfolding holds_window_def by blast
    have "t < last ts + 2 * 10 ^ 9"
    proof (rule ccontr)
      assume n: "\<not> t < last ts + 2 * 10 ^ 9"
      have "x \<le> last ts" using last_greatest [OF assms(3)] True by blast
      moreover have "last ts \<le> t - 10 ^ 9" using n by simp
      moreover have "\<not> x \<le> t - 10 ^ 9" using True float64_mono [of x "t - 10 ^ 9"] by linarith
      ultimately show False by linarith
    qed
    then have "zlive t z = z" using assms(1) ne by (simp add: zlive_def holds_window_def)
    then show ?thesis using z True by (simp add: kept_def)
  next
    case False
    show ?thesis
    proof (cases "?k (dec_of_nat x)")
      case (Some s)
      then obtain x' where "x' \<in> set ts" "dec_of_nat x = dec_of_nat x'" "s = float64 x'" using 2 by blast
      moreover have "\<not> s \<le> float64 (t - 10 ^ 9)" using Some by (auto simp: kept_def split: option.splits if_splits)
      ultimately show ?thesis using False by auto
    qed (use False in simp)
  qed
qed

lemma sliding_from:
  assumes "zredis_ok R zs" "sorted_wrt (<) (hs @ ts)" "holds_window hs (zs r key)" "i < length ts"
  shows "snd (sliding_run R key rps ts r) ! i \<longleftrightarrow>
    int (card {s \<in> set (hs @ take i ts). float64 (ts ! i - 10 ^ 9) < float64 s}) < rps"
  using assms(2-4)
proof (induction ts arbitrary: hs r i)
  case (Cons t ts)
  obtain r1 a where c: "checkSlidingWindowRateLimit R t key rps r = (r1, a)" by fastforce
  note eff = check_effect [OF assms(1) c]
  let ?m = "kept (float64 (t - 10 ^ 9)) (fst (zlive t (zs r key)))"
  have lt: "\<forall>x\<in>set hs. x < t" using Cons.prems(1) by (auto simp: sorted_wrt_append)
  have sorted: "sorted_wrt (<) hs" using Cons.prems(1) by (simp add: sorted_wrt_append)
  note k = kept_window [OF Cons.prems(2) lt sorted]
  show ?case
  proof (cases i)
    case 0
    have "dom ?m = dec_of_nat ` {x \<in> set hs. float64 (t - 10 ^ 9) < float64 x}"
    proof (intro equalityI subsetI)
      fix y assume "y \<in> dom ?m"
      then obtain s where s: "?m y = Some s" by blast
      then obtain x where x: "x \<in> set hs" "y = dec_of_nat x" using k(2) by blast
      then show "y \<in> dec_of_nat ` {x \<in> set hs. float64 (t - 10 ^ 9) < float64 x}"
        using s k(1) [of x] by (auto split: if_splits)
    next
      fix y assume "y \<in> dec_of_nat ` {x \<in> set hs. float64 (t - 10 ^ 9) < float64 x}"
      then show "y \<in> dom ?m" using k(1) by auto
    qed
    then have "card (dom ?m) = card {x \<in> set hs. float64 (t - 10 ^ 9) < float64 x}"
      by (simp add: card_image inj_on_def)
    then show ?thesis using c eff(2) 0 by (auto split: prod.splits)
  next
    case (Suc j)
    have "holds_window (hs @ [t]) (zs r1 key)"
      unfolding holds_window_def eff(1)
    proof (intro conjI allI impI ballI)
      fix y s assume "fst (?m(dec_of_nat t \<mapsto> float64 t), Some (t + 2 * 10 ^ 9)) y = Some s"
      then show "\<exists>x\<in>set (hs @ [t]). y = dec_of_nat x \<and> s = float64 x"
        using k(2) by (auto split: if_splits)
    next
      fix x assume "x \<in> set (hs @ [t])" "float64 (last (hs @ [t]) - 10 ^ 9) < float64 x"
      then show "fst (?m(dec_of_nat t \<mapsto> float64 t), Some (t + 2 * 10 ^ 9)) (dec_of_nat x) = Some (float64 x)"
        using k(1) [of x] by (auto split: if_splits)
    qed simp
    then have "snd (sliding_run R key rps ts r1) ! j \<longleftrightarrow>
        int (card {s \<in> set ((hs @ [t]) @ take j ts). float64 (ts ! j - 10 ^ 9) < float64 s}) < rps"
      using Cons.IH [of "hs @ [t]" r1 j] Cons.prems Suc by simp
    then show ?thesis using c Suc by (cases "sliding_run R key rps ts r1") simp
  qed
qed simp

text \<open>
  The sliding window decides exactly: a request is admitted if and only if fewer than the limit of requests of its
  address, admitted or refused, lie in the second before it, as far as 64-bit floats tell the times apart.
\<close>

lemma sliding_window_exact:
  assumes "zredis_ok R zs" "sorted_wrt (<) ts" "fst (zs r key) = Map.empty" "i < length ts"
  shows "snd (sliding_run R key rps ts r) ! i \<longleftrightarrow>
    int (card {s \<in> set (take i ts). float64 (ts ! i - 10 ^ 9) < float64 s}) < rps"
proof -
  have "holds_window [] (zs r key)" using assms(3) by (simp add: holds_window_def)
  then show ?thesis using sliding_from [OF assms(1), of "[]" ts r key i rps] assms(2,4) by simp
qed

text \<open>A map of sorted sets is such a Redis.\<close>

definition some_zredis :: "(string \<Rightarrow> zset) zredis" where
  "some_zredis =
     \<lparr>ZREMRANGEBYSCORE = (\<lambda>now k lo hi r. r(k :=
         (\<lambda>y. case fst (zlive now (r k)) y of None \<Rightarrow> None | Some s \<Rightarrow> if lo \<le> s \<and> s \<le> hi then None else Some s,
          snd (zlive now (r k))))),
      ZCARD = (\<lambda>now k r. card (dom (fst (zlive now (r k))))),
      ZADD = (\<lambda>now k sc x r. r(k := ((fst (zlive now (r k)))(x \<mapsto> sc), snd (zlive now (r k))))),
      EXPIRE = (\<lambda>now k d r. r(k := (fst (zlive now (r k)), Some (now + d * 10 ^ 9))))\<rparr>"

lemma some_zredis_ok: "zredis_ok some_zredis (\<lambda>r. r)"
  by (simp add: zredis_ok_def some_zredis_def)

lemma sliding_window_exact_witness:
  "snd (sliding_run some_zredis ''k'' 1 [10 ^ 9, 10 ^ 9 + 2, 3 * 10 ^ 9] (\<lambda>_. (Map.empty, None))) ! 2"
proof -
  have f: "float64 (3 * 10 ^ 9 - 10 ^ 9) = 2 * 10 ^ 9" "float64 (10 ^ 9) = 10 ^ 9" "float64 (10 ^ 9 + 2) = 10 ^ 9 + 2"
    by (simp_all add: float64_small)
  show ?thesis
    using sliding_window_exact [OF some_zredis_ok, of "[10 ^ 9, 10 ^ 9 + 2, 3 * 10 ^ 9]" "\<lambda>_. (Map.empty, None)" "''k''" 2 1] f
    by (auto simp del: sliding_run.simps)
qed

text \<open>
  A caller that has paused for a second is admitted whatever it did before, refused requests included: with a
  positive limit and no earlier request within the last second, the window admits.
\<close>

lemma paused_caller_admitted:
  assumes "zredis_ok R zs" "sorted_wrt (<) ts" "fst (zs r key) = Map.empty" "i < length ts"
    and "1 \<le> rps" "\<forall>j<i. ts ! j + 10 ^ 9 \<le> ts ! i"
  shows "snd (sliding_run R key rps ts r) ! i"
proof -
  have "holds_window [] (zs r key)" using assms(3) by (simp add: holds_window_def)
  then have "snd (sliding_run R key rps ts r) ! i \<longleftrightarrow>
      int (card {s \<in> set (take i ts). float64 (ts ! i - 10 ^ 9) < float64 s}) < rps"
    using sliding_from [OF assms(1), of "[]" ts r key i rps] assms(2,4) by simp
  moreover have "{s \<in> set (take i ts). float64 (ts ! i - 10 ^ 9) < float64 s} = {}"
  proof -
    have "float64 s \<le> float64 (ts ! i - 10 ^ 9)" if s: "s \<in> set (take i ts)" for s
    proof -
      obtain j where "j < i" "s = ts ! j" using s assms(4) by (auto simp: in_set_conv_nth)
      then have "s + 10 ^ 9 \<le> ts ! i" using assms(6) by blast
      then show ?thesis by (intro float64_mono) simp
    qed
    then show ?thesis by fastforce
  qed
  ultimately show ?thesis using assms(5) by (simp only: card.empty)
qed

lemma paused_caller_admitted_witness:
  "snd (sliding_run some_zredis ''k'' 1 [10 ^ 9, 10 ^ 9 + 2, 3 * 10 ^ 9] (\<lambda>_. (Map.empty, None))) ! 2"
  using paused_caller_admitted [OF some_zredis_ok, of "[10 ^ 9, 10 ^ 9 + 2, 3 * 10 ^ 9]" "\<lambda>_. (Map.empty, None)" "''k''" 2 1]
  by (simp add: less_Suc_eq numeral_2_eq_2)

text \<open>
  Refused requests are counted too: a caller that keeps asking at its limit or faster is not
  admitted again until it stops.
\<close>

lemma persistent_caller_starved:
  assumes "zredis_ok R zs" "sorted_wrt (<) ts" "fst (zs r key) = Map.empty" "i < length ts"
    and "n \<le> i" "rps \<le> int n" "float64 (ts ! i - 10 ^ 9) < float64 (ts ! (i - n))"
  shows "\<not> snd (sliding_run R key rps ts r) ! i"
proof -
  let ?near = "{s \<in> set (take i ts). float64 (ts ! i - 10 ^ 9) < float64 s}"
  have "holds_window [] (zs r key)" using assms(3) by (simp add: holds_window_def)
  then have e: "snd (sliding_run R key rps ts r) ! i \<longleftrightarrow> int (card ?near) < rps"
    using sliding_from [OF assms(1), of "[]" ts r key i rps] assms(2,4) by simp
  let ?last = "drop (i - n) (take i ts)"
  have "distinct ts" using assms(2) by (simp add: strict_sorted_iff)
  then have "distinct ?last" by simp
  then have "card (set ?last) = n" using assms(4,5) by (simp add: distinct_card)
  moreover have "set ?last \<subseteq> ?near"
  proof
    fix s assume "s \<in> set ?last"
    then obtain j where j: "i - n \<le> j" "j < i" "s = ts ! j"
      using assms(4) by (auto simp: in_set_conv_nth) (metis le_add1 less_diff_conv add.commute nth_drop nth_take)
    then have "ts ! (i - n) \<le> s"
      using sorted_nth_mono [OF strict_sorted_imp_sorted [OF assms(2)]] assms(4) by simp
    then have "float64 (ts ! i - 10 ^ 9) < float64 s" using assms(7) float64_mono less_le_trans by blast
    then show "s \<in> ?near" using j assms(4) by (auto simp: in_set_conv_nth)
  qed
  ultimately have "n \<le> card ?near" by (metis (no_types, lifting) List.finite_set card_mono finite_subset mem_Collect_eq subsetI)
  then show ?thesis using e assms(6) by simp
qed

lemma map_res_Some [simp]: "map_res Some xs = Some xs"
  by (induction xs) simp_all

text \<open>A batch is counted for its first request only, so one that begins with eth_accounts is not limited at all.\<close>

lemma batch_behind_accounts_unlimited:
  assumes "hi_bracket h" "hi_json h = Some (JArray (JObject [(''method'', JString ''eth_accounts'')] # js))"
    "\<not> hi_read_fails h" "\<not> hi_empty h"
  shows "RPCRateLimit R has_redis fails rps now h r = (r, Forward)"
  using assms by (simp add: RPCRateLimit_def extractAddressFromRPCRequest_def extractAddressFromSingleRequest_def
      json_get_def same_field_def fold_char_def)

end
