(* ===== verification/Accounts.thy ===== *)
theory Accounts
  imports CpAccess BaoClient
begin

text \<open>
  Users and their sessions: the tables of \<open>repository/user_repo.go\<close> and \<open>session_repo.go\<close>, the
  password logins of \<open>service/auth_service.go\<close>, the allowlist of \<open>service/login_policy.go\<close> and the
  OAuth logins of \<open>service/oauth_service.go\<close>. bcrypt and the providers' replies are parameters,
  random bytes are arguments (\<open>None\<close> when reading them fails) and so is the clock, in nanoseconds.
  The time of the last login, the data of a session, which is always empty, and the lengths of
  columns have no counterpart.
\<close>

section \<open>The tables\<close>

record user_row =
  us_ID :: uuid
  us_Email :: string
  us_PasswordHash :: "string option"
  us_Name :: "string option"
  us_AvatarURL :: "string option"
  us_EmailVerified :: bool
  us_OAuthProvider :: "string option"
  us_OAuthProviderID :: "string option"

record session_row =
  sn_ID :: string
  sn_UserID :: uuid
  sn_ExpiresAt :: nat

record accounts =
  ac_users :: "user_row list"
  ac_sessions :: "session_row list"

datatype account_query =
    InsertUser | UserByID | UserByEmail | UserByOAuth | UpdateUser | UpdateOAuthLink | UpdatePasswordHash
  | InsertSession | SelectSession | RemoveSession | RemoveUserSessions

type_synonym account_faults = "account_query \<Rightarrow> bool"

text \<open>A query answers \<open>None\<close> when it fails and \<open>Some None\<close> when there is no row.\<close>

definition user_GetByID :: "account_faults \<Rightarrow> uuid \<Rightarrow> accounts \<Rightarrow> user_row option option" where
  "user_GetByID f i s = (if f UserByID then None else Some (find (\<lambda>u. us_ID u = i) (ac_users s)))"

definition user_GetByEmail :: "account_faults \<Rightarrow> string \<Rightarrow> accounts \<Rightarrow> user_row option option" where
  "user_GetByEmail f e s = (if f UserByEmail then None else Some (find (\<lambda>u. us_Email u = e) (ac_users s)))"

definition user_GetByOAuth :: "account_faults \<Rightarrow> string \<Rightarrow> string \<Rightarrow> accounts \<Rightarrow> user_row option option" where
  "user_GetByOAuth f p i s =
     (if f UserByOAuth then None
      else Some (find (\<lambda>u. us_OAuthProvider u = Some p \<and> us_OAuthProviderID u = Some i) (ac_users s)))"

text \<open>The primary key and the unique email.\<close>

definition user_Create :: "account_faults \<Rightarrow> user_row \<Rightarrow> accounts \<Rightarrow> accounts option" where
  "user_Create f u s =
     (if f InsertUser \<or> list_ex (\<lambda>v. us_ID v = us_ID u \<or> us_Email v = us_Email u) (ac_users s) then None
      else Some (s\<lparr>ac_users := ac_users s @ [u]\<rparr>))"

definition change_user :: "uuid \<Rightarrow> (user_row \<Rightarrow> user_row) \<Rightarrow> accounts \<Rightarrow> accounts" where
  "change_user i h s = s\<lparr>ac_users := map (\<lambda>u. if us_ID u = i then h u else u) (ac_users s)\<rparr>"

definition user_Update :: "account_faults \<Rightarrow> user_row \<Rightarrow> accounts \<Rightarrow> accounts option" where
  "user_Update f u s =
     (if f UpdateUser then None
      else Some (change_user (us_ID u) (\<lambda>v. v\<lparr>us_Name := us_Name u, us_AvatarURL := us_AvatarURL u\<rparr>) s))"

definition user_UpdateOAuth :: "account_faults \<Rightarrow> uuid \<Rightarrow> string \<Rightarrow> string \<Rightarrow> accounts \<Rightarrow> accounts option" where
  "user_UpdateOAuth f i p pid s =
     (if f UpdateOAuthLink then None
      else Some (change_user i (\<lambda>v. v\<lparr>us_OAuthProvider := Some p, us_OAuthProviderID := Some pid\<rparr>) s))"

definition user_UpdatePassword :: "account_faults \<Rightarrow> uuid \<Rightarrow> string \<Rightarrow> accounts \<Rightarrow> accounts option" where
  "user_UpdatePassword f i h s =
     (if f UpdatePasswordHash then None else Some (change_user i (\<lambda>v. v\<lparr>us_PasswordHash := Some h\<rparr>) s))"

definition user_SetEmailVerified :: "uuid \<Rightarrow> accounts \<Rightarrow> accounts" where
  "user_SetEmailVerified i s = change_user i (\<lambda>v. v\<lparr>us_EmailVerified := True\<rparr>) s"

text \<open>The primary key and the foreign key of a session.\<close>

definition session_Create :: "account_faults \<Rightarrow> session_row \<Rightarrow> accounts \<Rightarrow> accounts option" where
  "session_Create f x s =
     (if f InsertSession \<or> list_ex (\<lambda>y. sn_ID y = sn_ID x) (ac_sessions s) \<or>
        \<not> list_ex (\<lambda>u. us_ID u = sn_UserID x) (ac_users s) then None
      else Some (s\<lparr>ac_sessions := ac_sessions s @ [x]\<rparr>))"

definition session_Get :: "account_faults \<Rightarrow> string \<Rightarrow> accounts \<Rightarrow> session_row option option" where
  "session_Get f i s = (if f SelectSession then None else Some (find (\<lambda>x. sn_ID x = i) (ac_sessions s)))"

definition session_Delete :: "account_faults \<Rightarrow> string \<Rightarrow> accounts \<Rightarrow> accounts option" where
  "session_Delete f i s =
     (if f RemoveSession then None else Some (s\<lparr>ac_sessions := filter (\<lambda>x. sn_ID x \<noteq> i) (ac_sessions s)\<rparr>))"

definition session_DeleteAllForUser :: "account_faults \<Rightarrow> uuid \<Rightarrow> accounts \<Rightarrow> accounts option" where
  "session_DeleteAllForUser f i s =
     (if f RemoveUserSessions then None
      else Some (s\<lparr>ac_sessions := filter (\<lambda>x. sn_UserID x \<noteq> i) (ac_sessions s)\<rparr>))"

definition session_CleanupExpired :: "nat \<Rightarrow> accounts \<Rightarrow> accounts \<times> nat" where
  "session_CleanupExpired now s =
     (s\<lparr>ac_sessions := filter (\<lambda>x. \<not> sn_ExpiresAt x < now) (ac_sessions s)\<rparr>,
      length (filter (\<lambda>x. sn_ExpiresAt x < now) (ac_sessions s)))"

text \<open>An error that the code ignores.\<close>

definition ignoring :: "accounts option \<Rightarrow> accounts \<Rightarrow> accounts" where
  "ignoring r s = (case r of None \<Rightarrow> s | Some s' \<Rightarrow> s')"

section \<open>Passwords and sessions\<close>

text \<open>\<open>GenerateFromPassword\<close> with its cost and salt, \<open>None\<close> for its error, and \<open>CompareHashAndPassword\<close>.\<close>

record bcrypt =
  bc_Generate :: "nat \<Rightarrow> bytes \<Rightarrow> string \<Rightarrow> string option"
  bc_Compare :: "string \<Rightarrow> string \<Rightarrow> bool"

record AuthServiceConfig =
  au_BCryptCost :: nat
  au_SessionExpiry :: nat
  au_PasswordResetExpiry :: nat
  au_EmailVerifyExpiry :: nat

definition DefaultAuthServiceConfig :: AuthServiceConfig where
  "DefaultAuthServiceConfig = \<lparr>au_BCryptCost = 12, au_SessionExpiry = 7 * 24 * 3600 * 10 ^ 9,
     au_PasswordResetExpiry = 3600 * 10 ^ 9, au_EmailVerifyExpiry = 24 * 3600 * 10 ^ 9\<rparr>"

datatype account_error =
    AccFailed string
  | AccConflict
  | AccUnauthorized
  | AccNotFound
  | AccBadRequest
  | AccNotAllowed

record RegisterRequest =
  rr_Email :: string
  rr_Password :: string
  rr_Name :: string

record UpdateProfileRequest =
  up_Name :: "string option"
  up_AvatarURL :: "string option"

definition generateSecureToken :: "bytes option \<Rightarrow> string option" where
  "generateSecureToken random = map_option b64url_encode random"

definition createSession ::
  "account_faults \<Rightarrow> nat \<Rightarrow> nat \<Rightarrow> bytes option \<Rightarrow> uuid \<Rightarrow> accounts \<Rightarrow> (accounts \<times> string) option" where
  "createSession f expiry now random userID s =
     (case generateSecureToken random of
        None \<Rightarrow> None
      | Some sid \<Rightarrow>
          map_option (\<lambda>s'. (s', sid))
            (session_Create f \<lparr>sn_ID = sid, sn_UserID = userID, sn_ExpiresAt = now + expiry\<rparr> s))"

definition Register ::
  "bcrypt \<Rightarrow> account_faults \<Rightarrow> AuthServiceConfig \<Rightarrow> bytes \<Rightarrow> uuid \<Rightarrow> RegisterRequest \<Rightarrow> accounts \<Rightarrow>
     accounts \<times> (account_error + user_row)" where
  "Register B f cfg salt newID req s =
     (case user_GetByEmail f (rr_Email req) s of
        None \<Rightarrow> (s, Inl (AccFailed ''failed to check existing user''))
      | Some (Some _) \<Rightarrow> (s, Inl AccConflict)
      | Some None \<Rightarrow>
          (case bc_Generate B (au_BCryptCost cfg) salt (rr_Password req) of
             None \<Rightarrow> (s, Inl (AccFailed ''failed to hash password''))
           | Some h \<Rightarrow>
               (let u = \<lparr>us_ID = newID, us_Email = rr_Email req, us_PasswordHash = Some h, us_Name = Some (rr_Name req),
                      us_AvatarURL = None, us_EmailVerified = False, us_OAuthProvider = None, us_OAuthProviderID = None\<rparr>
                in case user_Create f u s of
                  None \<Rightarrow> (s, Inl (AccFailed ''failed to create user''))
                | Some s' \<Rightarrow> (s', Inr u))))"

definition Login ::
  "bcrypt \<Rightarrow> account_faults \<Rightarrow> AuthServiceConfig \<Rightarrow> nat \<Rightarrow> bytes option \<Rightarrow> string \<Rightarrow> string \<Rightarrow> accounts \<Rightarrow>
     accounts \<times> (account_error + user_row \<times> string)" where
  "Login B f cfg now random email password s =
     (case user_GetByEmail f email s of
        None \<Rightarrow> (s, Inl (AccFailed ''failed to get user''))
      | Some None \<Rightarrow> (s, Inl AccUnauthorized)
      | Some (Some u) \<Rightarrow>
          (case us_PasswordHash u of
             None \<Rightarrow> (s, Inl AccUnauthorized)
           | Some h \<Rightarrow>
               if \<not> bc_Compare B h password then (s, Inl AccUnauthorized)
               else (case createSession f (au_SessionExpiry cfg) now random (us_ID u) s of
                  None \<Rightarrow> (s, Inl (AccFailed ''failed to create session''))
                | Some (s', sid) \<Rightarrow> (s', Inr (u, sid)))))"

definition Logout :: "account_faults \<Rightarrow> string \<Rightarrow> accounts \<Rightarrow> accounts \<times> account_error option" where
  "Logout f sid s = (case session_Delete f sid s of None \<Rightarrow> (s, Some (AccFailed ''logout'')) | Some s' \<Rightarrow> (s', None))"

definition LogoutAll :: "account_faults \<Rightarrow> uuid \<Rightarrow> accounts \<Rightarrow> accounts \<times> account_error option" where
  "LogoutAll f userID s =
     (case session_DeleteAllForUser f userID s of None \<Rightarrow> (s, Some (AccFailed ''logout'')) | Some s' \<Rightarrow> (s', None))"

text \<open>A session that has expired, or whose user is gone, is deleted in passing.\<close>

definition ValidateSession ::
  "account_faults \<Rightarrow> nat \<Rightarrow> string \<Rightarrow> accounts \<Rightarrow> accounts \<times> (account_error + user_row)" where
  "ValidateSession f now sid s =
     (case session_Get f sid s of
        None \<Rightarrow> (s, Inl (AccFailed ''failed to get session''))
      | Some None \<Rightarrow> (s, Inl AccUnauthorized)
      | Some (Some x) \<Rightarrow>
          if sn_ExpiresAt x < now then (ignoring (session_Delete f sid s) s, Inl AccUnauthorized)
          else (case user_GetByID f (sn_UserID x) s of
             None \<Rightarrow> (s, Inl (AccFailed ''failed to get user''))
           | Some None \<Rightarrow> (ignoring (session_Delete f sid s) s, Inl AccUnauthorized)
           | Some (Some u) \<Rightarrow> (s, Inr u)))"

definition GetUserByID :: "account_faults \<Rightarrow> uuid \<Rightarrow> accounts \<Rightarrow> account_error + user_row" where
  "GetUserByID f i s =
     (case user_GetByID f i s of
        None \<Rightarrow> Inl (AccFailed ''failed to get user'') | Some None \<Rightarrow> Inl AccNotFound | Some (Some u) \<Rightarrow> Inr u)"

definition UpdateProfile ::
  "account_faults \<Rightarrow> uuid \<Rightarrow> UpdateProfileRequest \<Rightarrow> accounts \<Rightarrow> accounts \<times> (account_error + user_row)" where
  "UpdateProfile f userID req s =
     (case user_GetByID f userID s of
        None \<Rightarrow> (s, Inl (AccFailed ''failed to get user''))
      | Some None \<Rightarrow> (s, Inl AccNotFound)
      | Some (Some u) \<Rightarrow>
          (let u1 = (case up_Name req of None \<Rightarrow> u | Some n \<Rightarrow> u\<lparr>us_Name := Some n\<rparr>);
               u2 = (case up_AvatarURL req of None \<Rightarrow> u1 | Some a \<Rightarrow> u1\<lparr>us_AvatarURL := Some a\<rparr>)
           in case user_Update f u2 s of
             None \<Rightarrow> (s, Inl (AccFailed ''failed to update user''))
           | Some s' \<Rightarrow> (s', Inr u2)))"

text \<open>The sessions are deleted after the password is changed; that deletion may fail unnoticed.\<close>

definition ChangePassword ::
  "bcrypt \<Rightarrow> account_faults \<Rightarrow> AuthServiceConfig \<Rightarrow> bytes \<Rightarrow> uuid \<Rightarrow> string \<Rightarrow> string \<Rightarrow> accounts \<Rightarrow>
     accounts \<times> account_error option" where
  "ChangePassword B f cfg salt userID oldPassword newPassword s =
     (case user_GetByID f userID s of
        None \<Rightarrow> (s, Some (AccFailed ''failed to get user''))
      | Some None \<Rightarrow> (s, Some AccNotFound)
      | Some (Some u) \<Rightarrow>
          (case us_PasswordHash u of
             None \<Rightarrow> (s, Some AccBadRequest)
           | Some h \<Rightarrow>
               if \<not> bc_Compare B h oldPassword then (s, Some AccUnauthorized)
               else (case bc_Generate B (au_BCryptCost cfg) salt newPassword of
                  None \<Rightarrow> (s, Some (AccFailed ''failed to hash password''))
                | Some h' \<Rightarrow>
                    (case user_UpdatePassword f userID h' s of
                       None \<Rightarrow> (s, Some (AccFailed ''failed to update password''))
                     | Some s' \<Rightarrow> (ignoring (session_DeleteAllForUser f userID s') s', None)))))"

definition RequestPasswordReset :: "account_faults \<Rightarrow> bytes option \<Rightarrow> string \<Rightarrow> accounts \<Rightarrow> account_error + string" where
  "RequestPasswordReset f random email s =
     (case user_GetByEmail f email s of
        None \<Rightarrow> Inl (AccFailed ''failed to get user'')
      | Some None \<Rightarrow> Inr []
      | Some (Some _) \<Rightarrow>
          (case generateSecureToken random of None \<Rightarrow> Inl (AccFailed ''failed to generate token'') | Some t \<Rightarrow> Inr t))"

definition ResetPassword :: "string \<Rightarrow> string \<Rightarrow> account_error option" where
  "ResetPassword token newPassword = Some AccBadRequest"

definition VerifyEmail :: "string \<Rightarrow> account_error option" where
  "VerifyEmail token = Some AccBadRequest"

section \<open>The allowlist\<close>

record LoginPolicy =
  lp_domains :: "string list"
  lp_emails :: "string list"

definition normalizeEmail :: "string \<Rightarrow> string" where
  "normalizeEmail s = lower (TrimSpace s)"

definition policy_domain :: "string \<Rightarrow> string" where
  "policy_domain d = trim_prefix ''@'' (normalizeEmail d)"

definition NewLoginPolicy :: "string list \<Rightarrow> string list \<Rightarrow> LoginPolicy" where
  "NewLoginPolicy domains emails =
     \<lparr>lp_domains = filter (\<lambda>d. d \<noteq> []) (map policy_domain domains),
      lp_emails = filter (\<lambda>e. e \<noteq> []) (map normalizeEmail emails)\<rparr>"

text \<open>Whether the lists are accepted.\<close>

definition ValidateLoginAllowlist :: "string list \<Rightarrow> string list \<Rightarrow> bool" where
  "ValidateLoginAllowlist domains emails \<longleftrightarrow>
     list_all (\<lambda>d. let d' = policy_domain d in \<not> (CHR ''@'' \<in> set d' \<or> CHR '' '' \<in> set d') \<and> \<not> (d' = [] \<and> length domains > 0)) domains \<and>
     list_all (\<lambda>e. let e' = normalizeEmail e in CHR ''@'' \<in> set e' \<and> CHR '' '' \<notin> set e') emails"

definition policy_Enabled :: "LoginPolicy \<Rightarrow> bool" where
  "policy_Enabled p \<longleftrightarrow> length (lp_domains p) + length (lp_emails p) > 0"

text \<open>What follows the last at sign.\<close>

definition email_domain :: "string \<Rightarrow> string" where
  "email_domain e = rev (takeWhile (\<lambda>c. c \<noteq> CHR ''@'') (rev e))"

definition policy_Allows :: "LoginPolicy \<Rightarrow> string \<Rightarrow> bool" where
  "policy_Allows p email \<longleftrightarrow>
     (if \<not> policy_Enabled p then True
      else let e = normalizeEmail email in
        if e \<in> set (lp_emails p) then True
        else if CHR ''@'' \<notin> set e then False
        else email_domain e \<in> set (lp_domains p))"

section \<open>Logins through a provider\<close>

record OAuthUserInfo =
  oi_ID :: string
  oi_Email :: string
  oi_Name :: string
  oi_AvatarURL :: string

record AuthConfig =
  ac_SessionExpiry :: nat
  ac_GitHubID :: string
  ac_GitHubSecret :: string
  ac_GoogleID :: string
  ac_GoogleSecret :: string
  ac_AllowedEmailDomains :: "string list"
  ac_AllowedEmails :: "string list"

record oauthService =
  os_providers :: "string list"
  os_sessionExpiry :: nat
  os_policy :: LoginPolicy

definition NewOAuthService :: "AuthConfig \<Rightarrow> oauthService" where
  "NewOAuthService cfg =
     \<lparr>os_providers = (if ac_GitHubID cfg \<noteq> [] \<and> ac_GitHubSecret cfg \<noteq> [] then [''github''] else []) @
        (if ac_GoogleID cfg \<noteq> [] \<and> ac_GoogleSecret cfg \<noteq> [] then [''google''] else []),
      os_sessionExpiry = ac_SessionExpiry cfg,
      os_policy = NewLoginPolicy (ac_AllowedEmailDomains cfg) (ac_AllowedEmails cfg)\<rparr>"

definition dec_of_int :: "int \<Rightarrow> string" where
  "dec_of_int i = (if i < 0 then CHR ''-'' # dec_of_nat (nat (- i)) else dec_of_nat (nat i))"

text \<open>The verified addresses, the primary ones in front.\<close>

definition decode_email_entry :: "jsonv \<Rightarrow> (string \<times> bool \<times> bool) option" where
  "decode_email_entry j =
     (if \<not> is_struct j then None
      else Option.bind (json_text (json_get ''email'' j)) (\<lambda>e.
        Option.bind (json_flag (json_get ''primary'' j)) (\<lambda>p.
        Option.bind (json_flag (json_get ''verified'' j)) (\<lambda>v. Some (e, p, v)))))"

definition verified_emails :: "(string \<times> bool \<times> bool) list \<Rightarrow> string list" where
  "verified_emails es =
     fold (\<lambda>(e, p, v) result. if v \<and> p then e # result else if v then result @ [e] else result) es []"

definition fetchGitHubEmails :: "(string \<Rightarrow> http_reply) \<Rightarrow> string list option" where
  "fetchGitHubEmails get =
     (case get ''https://api.github.com/user/emails'' of
        NoReply \<Rightarrow> None
      | Reply status body \<Rightarrow>
          if status \<noteq> 200 then None
          else map_option verified_emails (Option.bind body (json_slice decode_email_entry)))"

definition fetchGitHubUser :: "(string \<Rightarrow> http_reply) \<Rightarrow> OAuthUserInfo option" where
  "fetchGitHubUser get =
     (case get ''https://api.github.com/user'' of
        NoReply \<Rightarrow> None
      | Reply status body \<Rightarrow>
          if status \<noteq> 200 then None
          else Option.bind body (\<lambda>j.
            if \<not> is_struct j then None
            else Option.bind (json_int64 (json_get ''id'' j)) (\<lambda>i.
              Option.bind (json_text (json_get ''login'' j)) (\<lambda>login.
              Option.bind (json_text (json_get ''email'' j)) (\<lambda>e.
              Option.bind (json_text (json_get ''name'' j)) (\<lambda>n.
              Option.bind (json_text (json_get ''avatar_url'' j)) (\<lambda>a.
                Some \<lparr>oi_ID = dec_of_int i,
                  oi_Email = (if e = [] then (case fetchGitHubEmails get of Some (e' # _) \<Rightarrow> e' | _ \<Rightarrow> e) else e),
                  oi_Name = (if n = [] then login else n), oi_AvatarURL = a\<rparr>)))))))"

definition parseGoogleUser :: "jsonv option \<Rightarrow> OAuthUserInfo option" where
  "parseGoogleUser body = Option.bind body (\<lambda>j.
     if \<not> is_struct j then None
     else Option.bind (json_text (json_get ''id'' j)) (\<lambda>i.
       Option.bind (json_text (json_get ''email'' j)) (\<lambda>e.
       Option.bind (json_flag (json_get ''verified_email'' j)) (\<lambda>v.
       Option.bind (json_text (json_get ''name'' j)) (\<lambda>n.
       Option.bind (json_text (json_get ''picture'' j)) (\<lambda>a.
         if \<not> v then None
         else Some \<lparr>oi_ID = i, oi_Email = e, oi_Name = n, oi_AvatarURL = a\<rparr>))))))"

definition fetchGoogleUser :: "(string \<Rightarrow> http_reply) \<Rightarrow> OAuthUserInfo option" where
  "fetchGoogleUser get =
     (case get ''https://www.googleapis.com/oauth2/v2/userinfo'' of
        NoReply \<Rightarrow> None
      | Reply status body \<Rightarrow> if status \<noteq> 200 then None else parseGoogleUser body)"

definition fetchUserInfo :: "string \<Rightarrow> (string \<Rightarrow> http_reply) \<Rightarrow> OAuthUserInfo option" where
  "fetchUserInfo provider get =
     (if provider = ''github'' then fetchGitHubUser get
      else if provider = ''google'' then fetchGoogleUser get
      else None)"

definition findOrCreateUser ::
  "account_faults \<Rightarrow> uuid \<Rightarrow> string \<Rightarrow> OAuthUserInfo \<Rightarrow> accounts \<Rightarrow> accounts \<times> user_row option" where
  "findOrCreateUser f newID provider info s =
     (case user_GetByOAuth f provider (oi_ID info) s of
        None \<Rightarrow> (s, None)
      | Some (Some u) \<Rightarrow>
          (let u' = u\<lparr>us_Name := Some (oi_Name info), us_AvatarURL := Some (oi_AvatarURL info)\<rparr>
           in (ignoring (user_Update f u' s) s, Some u'))
      | Some None \<Rightarrow>
          (case (if oi_Email info \<noteq> [] then user_GetByEmail f (oi_Email info) s else Some None) of
             None \<Rightarrow> (s, None)
           | Some (Some u) \<Rightarrow>
               (case user_UpdateOAuth f (us_ID u) provider (oi_ID info) s of
                  None \<Rightarrow> (s, None)
                | Some s' \<Rightarrow> (s', Some (u\<lparr>us_OAuthProvider := Some provider, us_OAuthProviderID := Some (oi_ID info)\<rparr>)))
           | Some None \<Rightarrow>
               (let u = \<lparr>us_ID = newID, us_Email = oi_Email info, us_PasswordHash = None, us_Name = Some (oi_Name info),
                      us_AvatarURL = Some (oi_AvatarURL info), us_EmailVerified = True, us_OAuthProvider = Some provider,
                      us_OAuthProviderID = Some (oi_ID info)\<rparr>
                in case user_Create f u s of None \<Rightarrow> (s, None) | Some s' \<Rightarrow> (s', Some u))))"

definition oauth_expiry :: "oauthService \<Rightarrow> nat" where
  "oauth_expiry svc = (if os_sessionExpiry svc = 0 then 7 * 24 * 3600 * 10 ^ 9 else os_sessionExpiry svc)"

text \<open>\<open>exchange\<close> turns the code into a token, with which \<open>get\<close> asks the provider.\<close>

definition HandleCallback ::
  "oauthService \<Rightarrow> account_faults \<Rightarrow> (string \<Rightarrow> string \<Rightarrow> string option) \<Rightarrow> (string \<Rightarrow> string \<Rightarrow> http_reply) \<Rightarrow> nat \<Rightarrow>
     bytes option \<Rightarrow> uuid \<Rightarrow> string \<Rightarrow> string \<Rightarrow> accounts \<Rightarrow> accounts \<times> (account_error + user_row \<times> string)" where
  "HandleCallback svc f exchange get now random newID provider code s =
     (if provider \<notin> set (os_providers svc) then (s, Inl (AccFailed ''unknown or unconfigured provider''))
      else case exchange provider code of
        None \<Rightarrow> (s, Inl (AccFailed ''token exchange failed''))
      | Some token \<Rightarrow>
          (case fetchUserInfo provider (get token) of
             None \<Rightarrow> (s, Inl (AccFailed ''failed to fetch user info''))
           | Some info \<Rightarrow>
               if \<not> policy_Allows (os_policy svc) (oi_Email info) then (s, Inl AccNotAllowed)
               else (case findOrCreateUser f newID provider info s of
                  (s', None) \<Rightarrow> (s', Inl (AccFailed ''failed to find or create user''))
                | (s', Some u) \<Rightarrow>
                    (case createSession f (oauth_expiry svc) now random (us_ID u) s' of
                       None \<Rightarrow> (s', Inl (AccFailed ''failed to create session''))
                     | Some (s'', sid) \<Rightarrow> (s'', Inr (u, sid))))))"

text \<open>The check of every page: the session, its user, and the allowlist again.\<close>

definition getAuthenticatedUser ::
  "LoginPolicy \<Rightarrow> account_faults \<Rightarrow> nat \<Rightarrow> string option \<Rightarrow> accounts \<Rightarrow> accounts \<times> user_row option" where
  "getAuthenticatedUser policy f now cookie s =
     (case cookie of
        None \<Rightarrow> (s, None)
      | Some sid \<Rightarrow>
          (case session_Get f sid s of
             Some (Some x) \<Rightarrow>
               if sn_ExpiresAt x < now then (s, None)
               else (case user_GetByID f (sn_UserID x) s of
                  Some (Some u) \<Rightarrow>
                    if \<not> policy_Allows policy (us_Email u) then (ignoring (session_Delete f sid s) s, None)
                    else (s, Some u)
                | _ \<Rightarrow> (s, None))
           | _ \<Rightarrow> (s, None)))"

definition logoutHandler :: "account_faults \<Rightarrow> string option \<Rightarrow> accounts \<Rightarrow> accounts" where
  "logoutHandler f cookie s =
     (case cookie of None \<Rightarrow> s | Some sid \<Rightarrow> if sid \<noteq> [] then ignoring (session_Delete f sid s) s else s)"

section \<open>Steps and the history of sessions\<close>

datatype session_event =
    Issued string uuid nat       \<comment> \<open>session, user, end of validity\<close>
  | Ended string
  | AllEnded uuid
  | Expired nat
  | Nothing

fun replay_event :: "session_event \<Rightarrow> session_row list \<Rightarrow> session_row list" where
  "replay_event (Issued sid i e) xs = xs @ [\<lparr>sn_ID = sid, sn_UserID = i, sn_ExpiresAt = e\<rparr>]"
| "replay_event (Ended sid) xs = filter (\<lambda>x. sn_ID x \<noteq> sid) xs"
| "replay_event (AllEnded i) xs = filter (\<lambda>x. sn_UserID x \<noteq> i) xs"
| "replay_event (Expired t) xs = filter (\<lambda>x. \<not> sn_ExpiresAt x < t) xs"
| "replay_event Nothing xs = xs"

text \<open>Whether an event ends a session.\<close>

fun ends :: "session_event \<Rightarrow> session_row \<Rightarrow> bool" where
  "ends (Issued sid i e) x = False"
| "ends (Ended sid) x = (sn_ID x = sid)"
| "ends (AllEnded i) x = (sn_UserID x = i)"
| "ends (Expired t) x = (sn_ExpiresAt x < t)"
| "ends Nothing x = False"

inductive account_step ::
  "bcrypt \<Rightarrow> AuthServiceConfig \<Rightarrow> oauthService \<Rightarrow> accounts \<Rightarrow> session_event \<Rightarrow> accounts \<Rightarrow> bool" for B cfg svc where
  registers: "Register B f cfg salt newID req s = (s', r) \<Longrightarrow> account_step B cfg svc s Nothing s'"
| logs_in: "Login B f cfg now random email password s = (s', Inr (u, sid)) \<Longrightarrow>
    account_step B cfg svc s (Issued sid (us_ID u) (now + au_SessionExpiry cfg)) s'"
| is_refused: "Login B f cfg now random email password s = (s', Inl e) \<Longrightarrow> account_step B cfg svc s Nothing s'"
| logs_out: "Logout f sid s = (s', None) \<Longrightarrow> account_step B cfg svc s (Ended sid) s'"
| logs_out_everywhere: "LogoutAll f i s = (s', None) \<Longrightarrow> account_step B cfg svc s (AllEnded i) s'"
| is_validated: "ValidateSession f now sid s = (s', Inr u) \<Longrightarrow> account_step B cfg svc s Nothing s'"
| is_invalid: "ValidateSession f now sid s = (s', Inl e) \<Longrightarrow> \<not> f RemoveSession \<Longrightarrow> s' \<noteq> s \<Longrightarrow>
    account_step B cfg svc s (Ended sid) s'"
| changes_profile: "UpdateProfile f i req1 s = (s', r) \<Longrightarrow> account_step B cfg svc s Nothing s'"
| changes_password: "ChangePassword B f cfg salt i old new s = (s', None) \<Longrightarrow> \<not> f RemoveUserSessions \<Longrightarrow>
    account_step B cfg svc s (AllEnded i) s'"
| keeps_password: "ChangePassword B f cfg salt i old new s = (s', Some e) \<Longrightarrow> account_step B cfg svc s Nothing s'"
| half_changes_password: "ChangePassword B f cfg salt i old new s = (s', None) \<Longrightarrow> f RemoveUserSessions \<Longrightarrow>
    account_step B cfg svc s Nothing s'"
| comes_back: "HandleCallback svc f exchange get now random newID provider code s = (s', Inr (u, sid)) \<Longrightarrow>
    account_step B cfg svc s (Issued sid (us_ID u) (now + oauth_expiry svc)) s'"
| is_turned_away: "HandleCallback svc f exchange get now random newID provider code s = (s', Inl e) \<Longrightarrow>
    account_step B cfg svc s Nothing s'"
| opens_page: "getAuthenticatedUser policy f now cookie s = (s', Some u) \<Longrightarrow> account_step B cfg svc s Nothing s'"
| is_locked_out: "getAuthenticatedUser policy f now (Some sid) s = (s', None) \<Longrightarrow> s' \<noteq> s \<Longrightarrow>
    account_step B cfg svc s (Ended sid) s'"
| leaves: "logoutHandler f (Some sid) s = s' \<Longrightarrow> s' \<noteq> s \<Longrightarrow> account_step B cfg svc s (Ended sid) s'"
| cleans_up: "session_CleanupExpired now s = (s', n) \<Longrightarrow> account_step B cfg svc s (Expired now) s'"

inductive account_run ::
  "bcrypt \<Rightarrow> AuthServiceConfig \<Rightarrow> oauthService \<Rightarrow> accounts \<Rightarrow> session_event list \<Rightarrow> accounts \<Rightarrow> bool" for B cfg svc where
  stays: "account_run B cfg svc s [] s"
| goes_on: "account_run B cfg svc s es s1 \<Longrightarrow> account_step B cfg svc s1 e s2 \<Longrightarrow> account_run B cfg svc s (es @ [e]) s2"

section \<open>What the operations do to the tables\<close>

lemma change_user_simps [simp]:
  "ac_sessions (change_user i h s) = ac_sessions s"
  "ac_users (change_user i h s) = map (\<lambda>u. if us_ID u = i then h u else u) (ac_users s)"
  by (simp_all add: change_user_def)

lemma session_Create_Some:
  "session_Create f x s = Some s' \<longleftrightarrow> \<not> f InsertSession \<and> sn_ID x \<notin> sn_ID ` set (ac_sessions s) \<and>
     sn_UserID x \<in> us_ID ` set (ac_users s) \<and> s' = s\<lparr>ac_sessions := ac_sessions s @ [x]\<rparr>"
  by (auto simp: session_Create_def list_ex_iff image_iff) metis+

lemma session_Delete_Some:
  "session_Delete f sid s = Some s' \<longleftrightarrow> \<not> f RemoveSession \<and> s' = s\<lparr>ac_sessions := filter (\<lambda>x. sn_ID x \<noteq> sid) (ac_sessions s)\<rparr>"
  by (auto simp: session_Delete_def)

lemma createSession_Some:
  assumes "createSession f expiry now random i s = Some (s', sid)"
  shows "s' = s\<lparr>ac_sessions := ac_sessions s @ [\<lparr>sn_ID = sid, sn_UserID = i, sn_ExpiresAt = now + expiry\<rparr>]\<rparr>"
    and "sid \<notin> sn_ID ` set (ac_sessions s)" "i \<in> us_ID ` set (ac_users s)"
  using assms by (auto simp: createSession_def session_Create_Some split: option.splits)

lemma user_Create_Some:
  "user_Create f u s = Some s' \<longleftrightarrow> \<not> f InsertUser \<and> us_ID u \<notin> us_ID ` set (ac_users s) \<and>
     us_Email u \<notin> us_Email ` set (ac_users s) \<and> s' = s\<lparr>ac_users := ac_users s @ [u]\<rparr>"
  by (auto simp: user_Create_def list_ex_iff image_iff) metis+

text \<open>The identifiers of the users that exist never become fewer.\<close>

definition users_kept :: "accounts \<Rightarrow> accounts \<Rightarrow> bool" where
  "users_kept s s' \<longleftrightarrow> us_ID ` set (ac_users s) \<subseteq> us_ID ` set (ac_users s')"

lemma users_kept_refl [simp]: "users_kept s s"
  by (simp add: users_kept_def)

lemma users_kept_same: "map us_ID (ac_users s') = map us_ID (ac_users s) \<Longrightarrow> users_kept s s'"
  unfolding users_kept_def by (metis order_refl set_map)

lemma users_kept_change: "(\<And>u. us_ID (h u) = us_ID u) \<Longrightarrow> users_kept s (change_user i h s)"
  by (rule users_kept_same) simp

lemma users_kept_append [simp]: "users_kept s (s\<lparr>ac_users := ac_users s @ us\<rparr>)"
  by (auto simp: users_kept_def)

lemma ignoring_simps [simp]: "ignoring None s = s" "ignoring (Some s') s = s'"
  by (simp_all add: ignoring_def)

lemma ignoring_cases: "ignoring r s = s \<or> r = Some (ignoring r s)"
  by (cases r) simp_all

lemma Register_effect: "Register B f cfg salt newID req s = (s', r) \<Longrightarrow> ac_sessions s' = ac_sessions s \<and> users_kept s s'"
  by (auto simp: Register_def user_Create_Some users_kept_def Let_def split: option.splits)

lemma Login_effect:
  "Login B f cfg now random email password s = (s', r) \<Longrightarrow>
     (case r of Inl _ \<Rightarrow> s' = s
      | Inr (u, sid) \<Rightarrow> createSession f (au_SessionExpiry cfg) now random (us_ID u) s = Some (s', sid))"
  by (auto simp: Login_def split: option.splits if_splits sum.splits)

lemma UpdateProfile_effect:
  assumes "UpdateProfile f i req s = (s', r)"
  shows "ac_sessions s' = ac_sessions s \<and> users_kept s s'"
  using assms
  by (auto simp: UpdateProfile_def user_Update_def Let_def intro!: users_kept_change split: option.splits if_splits)

lemma users_kept_sessions [simp]: "users_kept s (s'\<lparr>ac_sessions := xs\<rparr>) = users_kept s s'"
  by (simp add: users_kept_def)

lemma ChangePassword_effect:
  assumes "ChangePassword B f cfg salt i old new s = (s', r)"
  shows "users_kept s s'"
    and "ac_sessions s' =
      (if r = None \<and> \<not> f RemoveUserSessions then filter (\<lambda>x. sn_UserID x \<noteq> i) (ac_sessions s) else ac_sessions s)"
  using assms
  by (auto simp: ChangePassword_def user_UpdatePassword_def session_DeleteAllForUser_def intro!: users_kept_change
      split: option.splits if_splits)

lemma user_Update_effect:
  "ac_sessions (ignoring (user_Update f u s) s) = ac_sessions s \<and> users_kept s (ignoring (user_Update f u s) s)"
  by (auto simp: user_Update_def intro!: users_kept_change)

lemma user_UpdateOAuth_Some:
  "user_UpdateOAuth f i p pid s = Some s' \<Longrightarrow> ac_sessions s' = ac_sessions s \<and> users_kept s s'"
  by (auto simp: user_UpdateOAuth_def split: if_splits intro!: users_kept_change)

lemma findOrCreateUser_effect:
  assumes "findOrCreateUser f newID provider info s = (s', r)"
  shows "ac_sessions s' = ac_sessions s \<and> users_kept s s'"
proof (cases "user_GetByOAuth f provider (oi_ID info) s")
  case (Some r1)
  then show ?thesis
  proof (cases r1)
    case None
    let ?q = "if oi_Email info \<noteq> [] then user_GetByEmail f (oi_Email info) s else Some None"
    have found: "user_GetByOAuth f provider (oi_ID info) s = Some None" using Some None by simp
    show ?thesis
    proof (cases ?q)
      case None
      then show ?thesis using assms found by (simp add: findOrCreateUser_def)
    next
      case (Some r2)
      then show ?thesis
        using assms found unfolding findOrCreateUser_def Some Let_def
        by (auto simp: user_Create_Some split: option.splits dest: user_UpdateOAuth_Some)
    qed
  next
    case (Some u)
    then show ?thesis
      using assms \<open>user_GetByOAuth f provider (oi_ID info) s = Some r1\<close> user_Update_effect
      by (auto simp: findOrCreateUser_def Let_def)
  qed
qed (use assms in \<open>simp add: findOrCreateUser_def\<close>)

lemma users_kept_createSession: "createSession f e now random i s = Some (s', sid) \<Longrightarrow> users_kept s s'"
  by (drule createSession_Some(1)) (simp add: users_kept_def)

lemma users_kept_trans: "users_kept s s1 \<Longrightarrow> users_kept s1 s2 \<Longrightarrow> users_kept s s2"
  unfolding users_kept_def by blast

lemma HandleCallback_refused:
  assumes "HandleCallback svc f exchange get now random newID provider code s = (s', Inl e)"
  shows "ac_sessions s' = ac_sessions s \<and> users_kept s s'"
  using assms findOrCreateUser_effect
  by (force simp: HandleCallback_def split: option.splits if_splits prod.splits)

lemma HandleCallback_admitted:
  assumes "HandleCallback svc f exchange get now random newID provider code s = (s', Inr (u, sid))"
  obtains token info s1 where "fetchUserInfo provider (get token) = Some info"
    "policy_Allows (os_policy svc) (oi_Email info)" "findOrCreateUser f newID provider info s = (s1, Some u)"
    "createSession f (oauth_expiry svc) now random (us_ID u) s1 = Some (s', sid)"
  using assms by (auto simp: HandleCallback_def split: option.splits if_splits prod.splits)

lemma ValidateSession_effect:
  assumes "ValidateSession f now sid s = (s', r)"
  shows "s' = s \<or> (\<exists>e. r = Inl e) \<and> session_Delete f sid s = Some s'"
proof -
  consider "s' = s" | "(\<exists>e. r = Inl e) \<and> s' = ignoring (session_Delete f sid s) s"
    using assms by (auto simp: ValidateSession_def split: option.splits if_splits)
  then show ?thesis using ignoring_cases [of "session_Delete f sid s" s] by cases auto
qed

lemma getAuthenticatedUser_effect:
  assumes "getAuthenticatedUser policy f now (Some sid) s = (s', r)"
  shows "s' = s \<or> r = None \<and> session_Delete f sid s = Some s'"
proof -
  consider "s' = s" | "r = None \<and> s' = ignoring (session_Delete f sid s) s"
    using assms by (auto simp: getAuthenticatedUser_def split: option.splits if_splits)
  then show ?thesis using ignoring_cases [of "session_Delete f sid s" s] by cases auto
qed

text \<open>Every step does to the sessions what its event says, and keeps the users.\<close>

lemma account_step_replay:
  "account_step B cfg svc s e s' \<Longrightarrow> ac_sessions s' = replay_event e (ac_sessions s) \<and> users_kept s s'"
proof (induction rule: account_step.induct)
  case (registers f salt newID req s s' r)
  then show ?case using Register_effect by fastforce
next
  case (logs_in f now random email password s s' u sid)
  then have c: "createSession f (au_SessionExpiry cfg) now random (us_ID u) s = Some (s', sid)"
    using Login_effect by fastforce
  show ?case using createSession_Some(1) [OF c] users_kept_createSession [OF c] by simp
next
  case (is_refused f now random email password s s' e)
  then show ?case using Login_effect by fastforce
next
  case (logs_out f sid s s')
  then show ?case by (auto simp: Logout_def session_Delete_Some split: option.splits)
next
  case (logs_out_everywhere f i s s')
  then show ?case by (auto simp: LogoutAll_def session_DeleteAllForUser_def split: option.splits if_splits)
next
  case (is_validated f now sid s s' u)
  then show ?case using ValidateSession_effect by fastforce
next
  case (is_invalid f now sid s s' e)
  then show ?case using ValidateSession_effect [OF is_invalid(1)] by (auto simp: session_Delete_Some)
next
  case (changes_profile f i req1 s s' r)
  then show ?case using UpdateProfile_effect by fastforce
next
  case (changes_password f salt i old new s s')
  then show ?case using ChangePassword_effect [OF changes_password(1)] by simp
next
  case (keeps_password f salt i old new s s' e)
  then show ?case using ChangePassword_effect [OF keeps_password] by simp
next
  case (half_changes_password f salt i old new s s')
  then show ?case using ChangePassword_effect [OF half_changes_password(1)] by simp
next
  case (comes_back f exchange get now random newID provider code s s' u sid)
  then obtain token info s1 where s1: "findOrCreateUser f newID provider info s = (s1, Some u)"
    "createSession f (oauth_expiry svc) now random (us_ID u) s1 = Some (s', sid)"
    by (elim HandleCallback_admitted)
  then show ?case
    using findOrCreateUser_effect [OF s1(1)] createSession_Some(1) [OF s1(2)] by simp
next
  case (is_turned_away f exchange get now random newID provider code s s' e)
  then show ?case using HandleCallback_refused by fastforce
next
  case (opens_page policy f now cookie s s' u)
  then show ?case
    by (auto simp: getAuthenticatedUser_def split: option.splits if_splits)
next
  case (is_locked_out policy f now sid s s')
  then show ?case using getAuthenticatedUser_effect [OF is_locked_out(1)] by (auto simp: session_Delete_Some)
next
  case (leaves f sid s s')
  then show ?case using ignoring_cases [of "session_Delete f sid s" s]
    by (auto simp: logoutHandler_def session_Delete_Some split: if_splits)
next
  case (cleans_up now s s' n)
  then show ?case by (auto simp: session_CleanupExpired_def)
qed

text \<open>Sessions have their own identifiers and users that exist.\<close>

definition accounts_ok :: "accounts \<Rightarrow> bool" where
  "accounts_ok s \<longleftrightarrow> distinct (map sn_ID (ac_sessions s)) \<and> (\<forall>x\<in>set (ac_sessions s). sn_UserID x \<in> us_ID ` set (ac_users s))"

lemma accounts_ok_filter:
  assumes "accounts_ok s" "users_kept s s'" "ac_sessions s' = filter P (ac_sessions s)"
  shows "accounts_ok s'"
proof -
  have "sn_UserID x \<in> us_ID ` set (ac_users s')" if "x \<in> set (ac_sessions s')" for x
    using that assms unfolding accounts_ok_def users_kept_def by (metis filter_is_subset subsetD)
  then show ?thesis using assms(1,3) by (simp add: accounts_ok_def distinct_map_filter)
qed

lemma accounts_ok_issue:
  assumes "accounts_ok s" "users_kept s s1" "ac_sessions s1 = ac_sessions s"
    "createSession f e now random i s1 = Some (s', sid)"
  shows "accounts_ok s'"
proof -
  have "sn_UserID x \<in> us_ID ` set (ac_users s1)" if "x \<in> set (ac_sessions s)" for x
    using that assms(1,2) unfolding accounts_ok_def users_kept_def by blast
  then show ?thesis using assms(1,3) createSession_Some [OF assms(4)] by (simp add: accounts_ok_def)
qed

lemma accounts_ok_step: "account_step B cfg svc s e s' \<Longrightarrow> accounts_ok s \<Longrightarrow> accounts_ok s'"
proof -
  assume st: "account_step B cfg svc s e s'" and ok: "accounts_ok s"
  note r = account_step_replay [OF st]
  show ?thesis
  proof (cases e)
    case (Issued sid i t)
    from st [unfolded Issued] show ?thesis
    proof (cases rule: account_step.cases)
      case (logs_in f now random email password u)
      then have "createSession f (au_SessionExpiry cfg) now random (us_ID u) s = Some (s', sid)"
        using Login_effect by fastforce
      then show ?thesis using accounts_ok_issue [OF ok users_kept_refl refl] by blast
    next
      case (comes_back f exchange get now random newID provider code u)
      then show ?thesis
        using findOrCreateUser_effect accounts_ok_issue [OF ok] by (elim HandleCallback_admitted) blast
    qed
  next
    case Nothing
    then show ?thesis using r accounts_ok_filter [OF ok, of s' "\<lambda>_. True"] by simp
  qed (use r accounts_ok_filter [OF ok] in auto)
qed

lemma account_run_ok: "account_run B cfg svc s es s' \<Longrightarrow> accounts_ok s \<Longrightarrow> accounts_ok s'"
  by (induction rule: account_run.induct) (auto intro: accounts_ok_step)

text \<open>A session is there when it was issued and nothing has ended it since.\<close>

lemma replay_iff:
  "x \<in> set (fold replay_event es []) \<longleftrightarrow>
     (\<exists>pre post. es = pre @ Issued (sn_ID x) (sn_UserID x) (sn_ExpiresAt x) # post \<and> (\<forall>e\<in>set post. \<not> ends e x))"
proof (induction es rule: rev_induct)
  case (snoc e es)
  let ?i = "Issued (sn_ID x) (sn_UserID x) (sn_ExpiresAt x)"
  have split: "(\<exists>pre post. es @ [e] = pre @ ?i # post \<and> (\<forall>e\<in>set post. \<not> ends e x)) \<longleftrightarrow>
      e = ?i \<or> \<not> ends e x \<and> (\<exists>pre post. es = pre @ ?i # post \<and> (\<forall>e\<in>set post. \<not> ends e x))"
    (is "?L \<longleftrightarrow> ?R")
  proof
    assume ?L
    then obtain pre post where p: "es @ [e] = pre @ ?i # post" "\<forall>e\<in>set post. \<not> ends e x" by blast
    then show ?R by (cases post rule: rev_cases) (auto simp: append_eq_append_conv2 Cons_eq_append_conv)
  next
    assume ?R
    then show ?L
    proof
      assume "\<not> ends e x \<and> (\<exists>pre post. es = pre @ ?i # post \<and> (\<forall>e\<in>set post. \<not> ends e x))"
      then obtain pre post where "es = pre @ ?i # post" "\<forall>e\<in>set (post @ [e]). \<not> ends e x" by auto
      then show ?L by (intro exI [of _ pre] exI [of _ "post @ [e]"]) simp
    qed (intro exI [of _ es] exI [of _ "[]"], simp)
  qed
  show ?case unfolding split snoc.IH [symmetric] by (cases e) auto
qed simp

lemma account_run_sessions: "account_run B cfg svc s es s' \<Longrightarrow> ac_sessions s = [] \<Longrightarrow> ac_sessions s' = fold replay_event es []"
  by (induction rule: account_run.induct) (auto dest!: account_step_replay)

lemma validates_iff:
  assumes "accounts_ok s"
  shows "(\<exists>u. snd (ValidateSession (\<lambda>_. False) now sid s) = Inr u \<and> us_ID u = i) \<longleftrightarrow>
    (\<exists>x\<in>set (ac_sessions s). sn_ID x = sid \<and> sn_UserID x = i \<and> now \<le> sn_ExpiresAt x)"
proof (cases "find (\<lambda>x. sn_ID x = sid) (ac_sessions s)")
  case None
  then have "\<forall>x\<in>set (ac_sessions s). sn_ID x \<noteq> sid" by (simp add: find_None_iff)
  then show ?thesis using None by (auto simp: ValidateSession_def session_Get_def)
next
  case (Some x)
  then have x: "x \<in> set (ac_sessions s)" "sn_ID x = sid" by (auto simp: find_Some_iff)
  have unique: "y = x" if "y \<in> set (ac_sessions s)" "sn_ID y = sid" for y
    using that x assms by (auto simp: accounts_ok_def distinct_map inj_on_def)
  obtain v where "v \<in> set (ac_users s)" "us_ID v = sn_UserID x" using assms x(1) by (auto simp: accounts_ok_def)
  then obtain u where u: "find (\<lambda>u. us_ID u = sn_UserID x) (ac_users s) = Some u"
    by (metis (mono_tags, lifting) find_None_iff not_None_eq)
  then have "us_ID u = sn_UserID x" by (auto simp: find_Some_iff)
  then have "snd (ValidateSession (\<lambda>_. False) now sid s) = (if sn_ExpiresAt x < now then Inl AccUnauthorized else Inr u)"
    using Some u by (simp add: ValidateSession_def session_Get_def user_GetByID_def)
  moreover have "(\<exists>x\<in>set (ac_sessions s). sn_ID x = sid \<and> sn_UserID x = i \<and> now \<le> sn_ExpiresAt x) \<longleftrightarrow>
      sn_UserID x = i \<and> now \<le> sn_ExpiresAt x"
    using x unique by blast
  ultimately show ?thesis using \<open>us_ID u = sn_UserID x\<close> by (auto simp: not_less)
qed


definition plain_bcrypt :: bcrypt where
  "plain_bcrypt = \<lparr>bc_Generate = (\<lambda>c salt p. Some p), bc_Compare = (=)\<rparr>"

definition no_oauth :: oauthService where
  "no_oauth = \<lparr>os_providers = [], os_sessionExpiry = 0, os_policy = \<lparr>lp_domains = [], lp_emails = []\<rparr>\<rparr>"

definition alice :: user_row where
  "alice = \<lparr>us_ID = 7, us_Email = ''a@x'', us_PasswordHash = Some ''pw'', us_Name = None, us_AvatarURL = None,
     us_EmailVerified = False, us_OAuthProvider = None, us_OAuthProviderID = None\<rparr>"


section \<open>What the allowlist admits\<close>

lemma of_lower_char:
  "(of_char (lower_char c) :: nat) = (if 65 \<le> (of_char c :: nat) \<and> (of_char c :: nat) \<le> 90 then of_char c + 32 else of_char c)"
  by (simp add: lower_char_def Let_def)

lemma space_char_code: "space_char c \<longleftrightarrow> (of_char c :: nat) \<in> {32, 9, 10, 11, 12, 13}"
  unfolding space_char_def by (auto simp flip: of_char_eq_iff [where ?'a = nat])

lemma space_lower [simp]: "space_char (lower_char c) = space_char c"
  by (auto simp: space_char_code of_lower_char)

lemma lower_char_idem [simp]: "lower_char (lower_char c) = lower_char c"
  by (simp flip: of_char_eq_iff [where ?'a = nat] add: of_lower_char)

lemma dropWhile_lower: "dropWhile space_char (map lower_char s) = map lower_char (dropWhile space_char s)"
  by (induction s) simp_all

lemma trim_lower: "TrimSpace (lower s) = lower (TrimSpace s)"
  by (simp add: TrimSpace_def lower_def dropWhile_lower rev_map)

lemma trim_idem: "TrimSpace (TrimSpace s) = TrimSpace s"
proof -
  define t u where "t = dropWhile space_char s" and "u = dropWhile space_char (rev t)"
  have "rev t = takeWhile space_char (rev t) @ u" unfolding u_def by simp
  then have "t = rev u @ rev (takeWhile space_char (rev t))" by (metis rev_append rev_swap)
  moreover have "\<not> space_char (hd t)" if "t \<noteq> []" using that unfolding t_def by (rule hd_dropWhile)
  ultimately have "dropWhile space_char (rev u) = rev u" by (cases "rev u") (auto, metis append_Cons list.sel(1) list.distinct(1))
  then show ?thesis unfolding TrimSpace_def by (simp add: u_def t_def)
qed

lemma normalize_idem: "normalizeEmail (normalizeEmail e) = normalizeEmail e"
  by (simp add: normalizeEmail_def trim_lower trim_idem) (simp add: lower_def)

lemma trim_ends: "TrimSpace s \<noteq> [] \<Longrightarrow> \<not> space_char (last (TrimSpace s))"
  unfolding TrimSpace_def by (metis hd_dropWhile last_rev rev_is_Nil_conv)

lemma policy_domain_plain:
  assumes "policy_domain d \<noteq> []"
  shows "lower (policy_domain d) = policy_domain d" "\<not> space_char (last (policy_domain d))"
proof -
  have n: "normalizeEmail d = policy_domain d \<or> normalizeEmail d = CHR ''@'' # policy_domain d"
    by (cases "normalizeEmail d") (auto simp: policy_domain_def trim_prefix_def)
  have low: "lower (normalizeEmail d) = normalizeEmail d" by (simp add: normalizeEmail_def lower_def)
  then show "lower (policy_domain d) = policy_domain d" using n by (auto simp: lower_def)
  have "TrimSpace d \<noteq> []" using assms n by (auto simp: normalizeEmail_def lower_def)
  then have "\<not> space_char (last (normalizeEmail d))" using trim_ends by (simp add: normalizeEmail_def lower_def last_map)
  moreover have "last (normalizeEmail d) = last (policy_domain d)" using n assms by auto
  ultimately show "\<not> space_char (last (policy_domain d))" by simp
qed

lemma normalize_at_domain:
  assumes "d \<noteq> []" "lower d = d" "\<not> space_char (last d)"
  shows "\<exists>m. normalizeEmail (n @ CHR ''@'' # d) = m @ CHR ''@'' # d"
proof -
  have at: "\<not> space_char (CHR ''@'')" "lower_char (CHR ''@'') = CHR ''@''" by (simp_all add: space_char_def lower_char_def)
  have front: "\<exists>m. dropWhile space_char (n @ CHR ''@'' # d) = m @ CHR ''@'' # d"
  proof (induction n)
    case Nil
    show ?case using at by (intro exI [of _ "[]"]) simp
  next
    case (Cons c n)
    show ?case
    proof (cases "space_char c")
      case False
      then show ?thesis by (intro exI [of _ "c # n"]) simp
    qed (use Cons in simp)
  qed
  then obtain m where m: "dropWhile space_char (n @ CHR ''@'' # d) = m @ CHR ''@'' # d" by blast
  obtain d' c where d: "d = d' @ [c]" using assms(1) by (cases d rule: rev_cases) auto
  then have "dropWhile space_char (rev (m @ CHR ''@'' # d)) = rev (m @ CHR ''@'' # d)" using assms(3) by simp
  then have "TrimSpace (n @ CHR ''@'' # d) = m @ CHR ''@'' # d" unfolding TrimSpace_def m by simp
  then show ?thesis using assms(2) at by (auto simp: normalizeEmail_def lower_def)
qed

lemma email_domain_at: "CHR ''@'' \<notin> set d \<Longrightarrow> email_domain (m @ CHR ''@'' # d) = d"
proof -
  assume "CHR ''@'' \<notin> set d"
  then have "takeWhile (\<lambda>c. c \<noteq> CHR ''@'') (rev d @ [CHR ''@''] @ rev m) = rev d"
    by (subst takeWhile_append2) auto
  then show ?thesis by (simp add: email_domain_def)
qed

text \<open>
  An allowlist that is accepted at start-up means what it says: it restricts logins unless it is
  empty, every listed address is admitted, and so is every address at a listed domain.
\<close>

lemma accepted_allowlist_admits:
  assumes "ValidateLoginAllowlist domains emails"
  shows "policy_Enabled (NewLoginPolicy domains emails) \<longleftrightarrow> domains \<noteq> [] \<or> emails \<noteq> []"
    and "e \<in> set emails \<Longrightarrow> policy_Allows (NewLoginPolicy domains emails) e"
    and "d \<in> set domains \<Longrightarrow> policy_Allows (NewLoginPolicy domains emails) (n @ CHR ''@'' # policy_domain d)"
proof -
  let ?p = "NewLoginPolicy domains emails"
  have d: "policy_domain d \<noteq> []" "CHR ''@'' \<notin> set (policy_domain d)" if "d \<in> set domains" for d
    using that assms by (auto simp: ValidateLoginAllowlist_def list_all_iff Let_def)
  have e: "normalizeEmail e \<noteq> []" if "e \<in> set emails" for e
    using that assms by (auto simp: ValidateLoginAllowlist_def list_all_iff Let_def)
  have kept: "lp_domains ?p = map policy_domain domains" "lp_emails ?p = map normalizeEmail emails"
    using d(1) e by (simp_all add: NewLoginPolicy_def)
  then show "policy_Enabled ?p \<longleftrightarrow> domains \<noteq> [] \<or> emails \<noteq> []" by (auto simp: policy_Enabled_def)
  show "policy_Allows ?p e" if "e \<in> set emails"
    using that unfolding policy_Allows_def Let_def kept by simp
  show "policy_Allows ?p (n @ CHR ''@'' # policy_domain d)" if dom: "d \<in> set domains"
  proof -
    obtain m where m: "normalizeEmail (n @ CHR ''@'' # policy_domain d) = m @ CHR ''@'' # policy_domain d"
      using normalize_at_domain [OF d(1) [OF dom] policy_domain_plain [OF d(1) [OF dom]], of n] by blast
    then show ?thesis
      using email_domain_at [OF d(2) [OF dom], of m] dom unfolding policy_Allows_def Let_def kept by simp
  qed
qed

end
