(* ===== verification/Organizations.thy ===== *)
theory Organizations
  imports Accounts KeyService
begin

text \<open>
  Organizations, their members, namespaces and invitations: the tables of
  \<open>repository/org_repo.go\<close> with the keys and cascades of the first migration, the roles of
  \<open>models/organization.go\<close>, and the service \<open>service/org_service.go\<close>. A call runs as one step, the
  clock and new identifiers are its arguments, and each of its queries may fail. Timestamps nobody
  compares and the lengths of columns have no counterpart; a listing has the order of its table.
\<close>

section \<open>The tables\<close>

record org_row =
  og_ID :: uuid
  og_Name :: string
  og_Slug :: string
  og_Plan :: string
  og_StripeCustomerID :: "string option"
  og_StripeSubscriptionID :: "string option"

record member_row =
  mb_OrgID :: uuid
  mb_UserID :: uuid
  mb_Role :: string
  mb_InvitedBy :: "uuid option"

record namespace_row =
  nm_ID :: uuid
  nm_OrgID :: uuid
  nm_Name :: string
  nm_Description :: "string option"

record invitation_row =
  iv_ID :: uuid
  iv_OrgID :: uuid
  iv_Email :: string
  iv_Role :: string
  iv_Token :: string
  iv_InvitedBy :: uuid
  iv_ExpiresAt :: nat
  iv_AcceptedAt :: "nat option"

record orgdb =
  or_users :: "user_row list"
  or_orgs :: "org_row list"
  or_members :: "member_row list"
  or_namespaces :: "namespace_row list"
  or_invitations :: "invitation_row list"

datatype org_query =
    QOrg | QOrgBySlug | QInsertOrg | QUpdateOrg | QDeleteOrg | QUserOrgs
  | QAccess | QRole | QMember | QMembers | QCountMembers | QAddMember | QRemoveMember | QSetRole
  | QNamespace | QNamespaceByName | QNamespaces | QCountNamespaces | QInsertNamespace | QDeleteNamespace
  | QInvitation | QInvitationByEmail | QInvitations | QInsertInvitation | QAcceptInvitation | QDeleteInvitation
  | QUserByEmail | QUserByID | QSetPlan

type_synonym org_faults = "org_query \<Rightarrow> bool"

definition RoleLevel :: "string \<Rightarrow> nat" where
  "RoleLevel role =
     (if role = ''owner'' then 4 else if role = ''admin'' then 3 else if role = ''operator'' then 2
      else if role = ''viewer'' then 1 else 0)"

definition ValidRole :: "string \<Rightarrow> bool" where
  "ValidRole role \<longleftrightarrow> role \<in> {''owner'', ''admin'', ''operator'', ''viewer''}"

section \<open>Statements\<close>

text \<open>A query answers \<open>None\<close> when it fails and \<open>Some None\<close> when there is no row.\<close>

definition org_GetByID :: "org_faults \<Rightarrow> orgdb \<Rightarrow> uuid \<Rightarrow> org_row option option" where
  "org_GetByID f db i = (if f QOrg then None else Some (find (\<lambda>o'. og_ID o' = i) (or_orgs db)))"

definition org_GetBySlug :: "org_faults \<Rightarrow> orgdb \<Rightarrow> string \<Rightarrow> org_row option option" where
  "org_GetBySlug f db slug = (if f QOrgBySlug then None else Some (find (\<lambda>o'. og_Slug o' = slug) (or_orgs db)))"

definition slug_char :: "char \<Rightarrow> bool" where
  "slug_char c \<longleftrightarrow> (let n = of_char c :: nat in 97 \<le> n \<and> n \<le> 122 \<or> 48 \<le> n \<and> n \<le> 57) \<or> c = CHR ''-''"

definition generateSlug :: "string \<Rightarrow> string" where
  "generateSlug name = filter slug_char (map (\<lambda>c. if c = CHR '' '' then CHR ''-'' else c) (lower name))"

definition generateUniqueSlug :: "string \<Rightarrow> bytes \<Rightarrow> string" where
  "generateUniqueSlug name suffix = generateSlug name @ ''-'' @ hex_encode suffix"

text \<open>One transaction: the organization, its owner and the first namespace.\<close>

definition org_Create ::
  "org_faults \<Rightarrow> uuid \<Rightarrow> uuid \<Rightarrow> bytes \<Rightarrow> string \<Rightarrow> string \<Rightarrow> uuid \<Rightarrow> orgdb \<Rightarrow> (orgdb \<times> org_row) option" where
  "org_Create f newID nsID suffix name slug ownerID db =
     (let o' = \<lparr>og_ID = newID, og_Name = name, og_Slug = (if slug = [] then generateUniqueSlug name suffix else slug),
           og_Plan = ''free'', og_StripeCustomerID = None, og_StripeSubscriptionID = None\<rparr>
      in if f QInsertOrg \<or> list_ex (\<lambda>p. og_ID p = newID \<or> og_Slug p = og_Slug o') (or_orgs db) \<or>
           \<not> list_ex (\<lambda>u. us_ID u = ownerID) (or_users db) \<or> list_ex (\<lambda>n. nm_ID n = nsID) (or_namespaces db) then None
         else Some (db\<lparr>or_orgs := or_orgs db @ [o'],
             or_members := or_members db @ [\<lparr>mb_OrgID = newID, mb_UserID = ownerID, mb_Role = ''owner'', mb_InvitedBy = None\<rparr>],
             or_namespaces := or_namespaces db @ [\<lparr>nm_ID = nsID, nm_OrgID = newID, nm_Name = ''production'',
               nm_Description = Some ''Production environment''\<rparr>]\<rparr>, o'))"

definition org_Update :: "org_faults \<Rightarrow> bytes \<Rightarrow> org_row \<Rightarrow> orgdb \<Rightarrow> (orgdb \<times> org_row) option" where
  "org_Update f suffix o' db =
     (let o'' = o'\<lparr>og_Slug := generateUniqueSlug (og_Name o') suffix\<rparr>
      in if f QUpdateOrg \<or> list_ex (\<lambda>p. og_ID p \<noteq> og_ID o' \<and> og_Slug p = og_Slug o'') (or_orgs db) then None
         else Some (db\<lparr>or_orgs := map (\<lambda>p. if og_ID p = og_ID o'
             then p\<lparr>og_Name := og_Name o'', og_Slug := og_Slug o''\<rparr> else p) (or_orgs db)\<rparr>, o''))"

definition org_UpdatePlan :: "org_faults \<Rightarrow> uuid \<Rightarrow> string \<Rightarrow> orgdb \<Rightarrow> orgdb option" where
  "org_UpdatePlan f orgID plan db =
     (if f QSetPlan then None
      else Some (db\<lparr>or_orgs := map (\<lambda>p. if og_ID p = orgID then p\<lparr>og_Plan := plan\<rparr> else p) (or_orgs db)\<rparr>))"

definition org_GetByStripeCustomer :: "orgdb \<Rightarrow> string \<Rightarrow> org_row option" where
  "org_GetByStripeCustomer db customerID = find (\<lambda>p. og_StripeCustomerID p = Some customerID) (or_orgs db)"

definition org_UpdateStripeCustomer :: "uuid \<Rightarrow> string \<Rightarrow> orgdb \<Rightarrow> orgdb" where
  "org_UpdateStripeCustomer orgID customerID db =
     db\<lparr>or_orgs := map (\<lambda>p. if og_ID p = orgID then p\<lparr>og_StripeCustomerID := Some customerID\<rparr> else p) (or_orgs db)\<rparr>"

definition org_UpdateStripeSubscription :: "uuid \<Rightarrow> string \<Rightarrow> orgdb \<Rightarrow> orgdb" where
  "org_UpdateStripeSubscription orgID subscriptionID db =
     db\<lparr>or_orgs := map (\<lambda>p. if og_ID p = orgID then p\<lparr>og_StripeSubscriptionID := Some subscriptionID\<rparr> else p) (or_orgs db)\<rparr>"

definition org_ClearStripeSubscription :: "uuid \<Rightarrow> orgdb \<Rightarrow> orgdb" where
  "org_ClearStripeSubscription orgID db =
     db\<lparr>or_orgs := map (\<lambda>p. if og_ID p = orgID then p\<lparr>og_StripeSubscriptionID := None\<rparr> else p) (or_orgs db)\<rparr>"

text \<open>Members, namespaces and invitations go with their organization.\<close>

definition org_Delete :: "org_faults \<Rightarrow> uuid \<Rightarrow> orgdb \<Rightarrow> orgdb option" where
  "org_Delete f i db =
     (if f QDeleteOrg then None
      else Some (db\<lparr>or_orgs := filter (\<lambda>o'. og_ID o' \<noteq> i) (or_orgs db),
        or_members := filter (\<lambda>m. mb_OrgID m \<noteq> i) (or_members db),
        or_namespaces := filter (\<lambda>n. nm_OrgID n \<noteq> i) (or_namespaces db),
        or_invitations := filter (\<lambda>v. iv_OrgID v \<noteq> i) (or_invitations db)\<rparr>))"

definition is_member :: "uuid \<Rightarrow> uuid \<Rightarrow> member_row \<Rightarrow> bool" where
  "is_member orgID userID m \<longleftrightarrow> mb_OrgID m = orgID \<and> mb_UserID m = userID"

definition org_GetMember :: "org_faults \<Rightarrow> org_query \<Rightarrow> orgdb \<Rightarrow> uuid \<Rightarrow> uuid \<Rightarrow> member_row option option" where
  "org_GetMember f q db orgID userID = (if f q then None else Some (find (is_member orgID userID) (or_members db)))"

definition org_AddMember ::
  "org_faults \<Rightarrow> uuid \<Rightarrow> uuid \<Rightarrow> string \<Rightarrow> uuid option \<Rightarrow> orgdb \<Rightarrow> orgdb option" where
  "org_AddMember f orgID userID role invitedBy db =
     (if f QAddMember \<or> list_ex (is_member orgID userID) (or_members db) \<or>
        \<not> list_ex (\<lambda>o'. og_ID o' = orgID) (or_orgs db) \<or> \<not> list_ex (\<lambda>u. us_ID u = userID) (or_users db) then None
      else Some (db\<lparr>or_members := or_members db @
        [\<lparr>mb_OrgID = orgID, mb_UserID = userID, mb_Role = role, mb_InvitedBy = invitedBy\<rparr>]\<rparr>))"

definition org_RemoveMember :: "org_faults \<Rightarrow> uuid \<Rightarrow> uuid \<Rightarrow> orgdb \<Rightarrow> orgdb option" where
  "org_RemoveMember f orgID userID db =
     (if f QRemoveMember then None
      else Some (db\<lparr>or_members := filter (\<lambda>m. \<not> is_member orgID userID m) (or_members db)\<rparr>))"

definition org_UpdateMemberRole :: "org_faults \<Rightarrow> uuid \<Rightarrow> uuid \<Rightarrow> string \<Rightarrow> orgdb \<Rightarrow> orgdb option" where
  "org_UpdateMemberRole f orgID userID role db =
     (if f QSetRole then None
      else Some (db\<lparr>or_members := map (\<lambda>m. if is_member orgID userID m then m\<lparr>mb_Role := role\<rparr> else m) (or_members db)\<rparr>))"

definition org_CountMembers :: "orgdb \<Rightarrow> uuid \<Rightarrow> nat" where
  "org_CountMembers db orgID = length (filter (\<lambda>m. mb_OrgID m = orgID) (or_members db))"

text \<open>Names are unique in an organization.\<close>

definition org_CreateNamespace :: "org_faults \<Rightarrow> namespace_row \<Rightarrow> orgdb \<Rightarrow> orgdb option" where
  "org_CreateNamespace f n db =
     (if f QInsertNamespace \<or> list_ex (\<lambda>k. nm_ID k = nm_ID n \<or> nm_OrgID k = nm_OrgID n \<and> nm_Name k = nm_Name n) (or_namespaces db) \<or>
        \<not> list_ex (\<lambda>o'. og_ID o' = nm_OrgID n) (or_orgs db) then None
      else Some (db\<lparr>or_namespaces := or_namespaces db @ [n]\<rparr>))"

definition org_GetNamespace :: "org_faults \<Rightarrow> orgdb \<Rightarrow> uuid \<Rightarrow> namespace_row option option" where
  "org_GetNamespace f db i = (if f QNamespace then None else Some (find (\<lambda>n. nm_ID n = i) (or_namespaces db)))"

definition org_GetNamespaceByName :: "org_faults \<Rightarrow> orgdb \<Rightarrow> uuid \<Rightarrow> string \<Rightarrow> namespace_row option option" where
  "org_GetNamespaceByName f db orgID name =
     (if f QNamespaceByName then None else Some (find (\<lambda>n. nm_OrgID n = orgID \<and> nm_Name n = name) (or_namespaces db)))"

definition org_DeleteNamespace :: "org_faults \<Rightarrow> uuid \<Rightarrow> orgdb \<Rightarrow> orgdb option" where
  "org_DeleteNamespace f i db =
     (if f QDeleteNamespace then None
      else Some (db\<lparr>or_namespaces := filter (\<lambda>n. nm_ID n \<noteq> i) (or_namespaces db)\<rparr>))"

definition org_CountNamespaces :: "orgdb \<Rightarrow> uuid \<Rightarrow> nat" where
  "org_CountNamespaces db orgID = length (filter (\<lambda>n. nm_OrgID n = orgID) (or_namespaces db))"

definition org_CreateInvitation :: "org_faults \<Rightarrow> invitation_row \<Rightarrow> orgdb \<Rightarrow> orgdb option" where
  "org_CreateInvitation f v db =
     (if f QInsertInvitation \<or> list_ex (\<lambda>w. iv_ID w = iv_ID v \<or> iv_Token w = iv_Token v) (or_invitations db) \<or>
        \<not> list_ex (\<lambda>o'. og_ID o' = iv_OrgID v) (or_orgs db) \<or> \<not> list_ex (\<lambda>u. us_ID u = iv_InvitedBy v) (or_users db) then None
      else Some (db\<lparr>or_invitations := or_invitations db @ [v]\<rparr>))"

definition org_GetInvitationByToken :: "org_faults \<Rightarrow> orgdb \<Rightarrow> string \<Rightarrow> (invitation_row \<times> org_row) option option" where
  "org_GetInvitationByToken f db token =
     (if f QInvitation then None
      else Some (case find (\<lambda>v. iv_Token v = token) (or_invitations db) of
        None \<Rightarrow> None
      | Some v \<Rightarrow> map_option (Pair v) (find (\<lambda>o'. og_ID o' = iv_OrgID v) (or_orgs db))))"

text \<open>Neither accepted nor expired.\<close>

definition pending_at :: "nat \<Rightarrow> invitation_row \<Rightarrow> bool" where
  "pending_at now v \<longleftrightarrow> iv_AcceptedAt v = None \<and> iv_ExpiresAt v > now"

definition org_GetInvitationByEmail :: "org_faults \<Rightarrow> nat \<Rightarrow> orgdb \<Rightarrow> uuid \<Rightarrow> string \<Rightarrow> invitation_row option option" where
  "org_GetInvitationByEmail f now db orgID email =
     (if f QInvitationByEmail then None
      else Some (find (\<lambda>v. iv_OrgID v = orgID \<and> iv_Email v = email \<and> pending_at now v) (or_invitations db)))"

definition org_ListPendingInvitations :: "nat \<Rightarrow> orgdb \<Rightarrow> uuid \<Rightarrow> invitation_row list" where
  "org_ListPendingInvitations now db orgID = filter (\<lambda>v. iv_OrgID v = orgID \<and> pending_at now v) (or_invitations db)"

text \<open>One transaction again; a user who is a member already stays what he is.\<close>

definition org_AcceptInvitation :: "org_faults \<Rightarrow> nat \<Rightarrow> string \<Rightarrow> uuid \<Rightarrow> orgdb \<Rightarrow> orgdb option" where
  "org_AcceptInvitation f now token userID db =
     (case find (\<lambda>v. iv_Token v = token) (or_invitations db) of
        None \<Rightarrow> None
      | Some v \<Rightarrow>
          if f QAcceptInvitation \<or> iv_AcceptedAt v \<noteq> None \<or> iv_ExpiresAt v < now \<or>
             \<not> list_ex (\<lambda>u. us_ID u = userID) (or_users db) then None
          else Some (db\<lparr>or_invitations := map (\<lambda>w. if iv_ID w = iv_ID v then w\<lparr>iv_AcceptedAt := Some now\<rparr> else w) (or_invitations db),
            or_members := (if list_ex (is_member (iv_OrgID v) userID) (or_members db) then or_members db
              else or_members db @ [\<lparr>mb_OrgID = iv_OrgID v, mb_UserID = userID, mb_Role = iv_Role v,
                mb_InvitedBy = Some (iv_InvitedBy v)\<rparr>])\<rparr>))"

definition org_DeleteInvitation :: "org_faults \<Rightarrow> uuid \<Rightarrow> orgdb \<Rightarrow> orgdb option" where
  "org_DeleteInvitation f i db =
     (if f QDeleteInvitation then None
      else Some (db\<lparr>or_invitations := filter (\<lambda>v. iv_ID v \<noteq> i) (or_invitations db)\<rparr>))"

section \<open>The service\<close>

datatype org_error =
    OrgFailed string
  | OrgInvalid string
  | OrgForbidden
  | OrgNotFound string
  | OrgQuota
  | OrgConflict
  | OrgBadRequest

definition CheckAccess :: "org_faults \<Rightarrow> orgdb \<Rightarrow> uuid \<Rightarrow> uuid \<Rightarrow> string \<Rightarrow> org_error option" where
  "CheckAccess f db orgID userID requiredRole =
     (case org_GetMember f QAccess db orgID userID of
        None \<Rightarrow> Some (OrgFailed ''failed to get member'')
      | Some None \<Rightarrow> Some OrgForbidden
      | Some (Some m) \<Rightarrow> if RoleLevel (mb_Role m) < RoleLevel requiredRole then Some OrgForbidden else None)"

definition GetMemberRole :: "org_faults \<Rightarrow> orgdb \<Rightarrow> uuid \<Rightarrow> uuid \<Rightarrow> org_error + string" where
  "GetMemberRole f db orgID userID =
     (case org_GetMember f QRole db orgID userID of
        None \<Rightarrow> Inl (OrgFailed ''failed to get member'')
      | Some None \<Rightarrow> Inl OrgForbidden
      | Some (Some m) \<Rightarrow> Inr (mb_Role m))"

definition OrgGet :: "org_faults \<Rightarrow> orgdb \<Rightarrow> uuid \<Rightarrow> org_error + org_row" where
  "OrgGet f db i =
     (case org_GetByID f db i of
        None \<Rightarrow> Inl (OrgFailed ''failed to get organization'')
      | Some None \<Rightarrow> Inl (OrgNotFound ''Organization'')
      | Some (Some o') \<Rightarrow> Inr o')"

definition OrgGetBySlug :: "org_faults \<Rightarrow> orgdb \<Rightarrow> string \<Rightarrow> org_error + org_row" where
  "OrgGetBySlug f db slug =
     (case org_GetBySlug f db slug of
        None \<Rightarrow> Inl (OrgFailed ''failed to get organization'')
      | Some None \<Rightarrow> Inl (OrgNotFound ''Organization'')
      | Some (Some o') \<Rightarrow> Inr o')"

definition GetLimits :: "org_faults \<Rightarrow> orgdb \<Rightarrow> uuid \<Rightarrow> org_error + PlanLimits" where
  "GetLimits f db orgID = (case OrgGet f db orgID of Inl e \<Rightarrow> Inl e | Inr o' \<Rightarrow> Inr (GetPlanLimits (og_Plan o')))"

definition OrgCreate ::
  "org_faults \<Rightarrow> uuid \<Rightarrow> uuid \<Rightarrow> bytes \<Rightarrow> string \<Rightarrow> uuid \<Rightarrow> orgdb \<Rightarrow> orgdb \<times> (org_error + org_row)" where
  "OrgCreate f newID nsID suffix name ownerID db =
     (if name = [] then (db, Inl (OrgInvalid ''name''))
      else case org_Create f newID nsID suffix name [] ownerID db of
        None \<Rightarrow> (db, Inl (OrgFailed ''failed to create organization''))
      | Some (db', o') \<Rightarrow> (db', Inr o'))"

definition OrgUpdate ::
  "org_faults \<Rightarrow> bytes \<Rightarrow> uuid \<Rightarrow> string \<Rightarrow> uuid \<Rightarrow> orgdb \<Rightarrow> orgdb \<times> (org_error + org_row)" where
  "OrgUpdate f suffix i name actorID db =
     (case CheckAccess f db i actorID ''admin'' of
        Some e \<Rightarrow> (db, Inl e)
      | None \<Rightarrow>
          (case OrgGet f db i of
             Inl e \<Rightarrow> (db, Inl e)
           | Inr o' \<Rightarrow>
               (case org_Update f suffix (if name \<noteq> [] then o'\<lparr>og_Name := name\<rparr> else o') db of
                  None \<Rightarrow> (db, Inl (OrgFailed ''failed to update organization''))
                | Some (db', o'') \<Rightarrow> (db', Inr o''))))"

definition OrgDelete :: "org_faults \<Rightarrow> uuid \<Rightarrow> uuid \<Rightarrow> orgdb \<Rightarrow> orgdb \<times> org_error option" where
  "OrgDelete f i actorID db =
     (case CheckAccess f db i actorID ''owner'' of
        Some e \<Rightarrow> (db, Some e)
      | None \<Rightarrow>
          (case OrgGet f db i of
             Inl e \<Rightarrow> (db, Some e)
           | Inr o' \<Rightarrow>
               (case org_Delete f i db of
                  None \<Rightarrow> (db, Some (OrgFailed ''failed to delete organization''))
                | Some db' \<Rightarrow> (db', None))))"

definition ListUserOrgs :: "org_faults \<Rightarrow> orgdb \<Rightarrow> uuid \<Rightarrow> org_error + org_row list" where
  "ListUserOrgs f db userID =
     (if f QUserOrgs then Inl (OrgFailed ''failed to list organizations'')
      else Inr (filter (\<lambda>o'. list_ex (is_member (og_ID o') userID) (or_members db)) (or_orgs db)))"

text \<open>The checks of an invitation after the access check, in their order.\<close>

definition check_invite :: "org_faults \<Rightarrow> nat \<Rightarrow> uuid \<Rightarrow> string \<Rightarrow> string \<Rightarrow> orgdb \<Rightarrow> org_error option" where
  "check_invite f now orgID email role db =
     (if \<not> ValidRole role then Some (OrgInvalid ''role'')
      else if role = ''owner'' then Some (OrgInvalid ''role'')
      else case GetLimits f db orgID of
        Inl e \<Rightarrow> Some e
      | Inr limits \<Rightarrow>
          if f QCountMembers then Some (OrgFailed ''failed to count members'')
          else if f QInvitations then Some (OrgFailed ''failed to list invitations'')
          else if pl_TeamMembers limits > 0 \<and>
             int (org_CountMembers db orgID + length (org_ListPendingInvitations now db orgID)) \<ge> pl_TeamMembers limits
          then Some OrgQuota
          else if f QUserByEmail then Some (OrgFailed ''failed to check user'')
          else let user = find (\<lambda>u. us_Email u = email) (or_users db) in
            if user \<noteq> None \<and> f QMember then Some (OrgFailed ''failed to check membership'')
            else if user \<noteq> None \<and> list_ex (is_member orgID (us_ID (the user))) (or_members db) then Some OrgConflict
            else (case org_GetInvitationByEmail f now db orgID email of
               None \<Rightarrow> Some (OrgFailed ''failed to check existing invitation'')
             | Some (Some _) \<Rightarrow> Some OrgConflict
             | Some None \<Rightarrow> None))"

definition InvitationExpiry :: nat where
  "InvitationExpiry = 7 * 24 * 3600 * 10 ^ 9"

definition InviteMember ::
  "org_faults \<Rightarrow> nat \<Rightarrow> nat \<Rightarrow> uuid \<Rightarrow> bytes option \<Rightarrow> uuid \<Rightarrow> string \<Rightarrow> string \<Rightarrow> uuid \<Rightarrow> orgdb \<Rightarrow>
     orgdb \<times> (org_error + invitation_row)" where
  "InviteMember f expiry now newID random orgID email role inviterID db =
     (case CheckAccess f db orgID inviterID ''admin'' of
        Some e \<Rightarrow> (db, Inl e)
      | None \<Rightarrow>
          (case check_invite f now orgID email role db of
             Some e \<Rightarrow> (db, Inl e)
           | None \<Rightarrow>
               (case generateSecureToken random of
                  None \<Rightarrow> (db, Inl (OrgFailed ''failed to generate invitation token''))
                | Some token \<Rightarrow>
                    (let v = \<lparr>iv_ID = newID, iv_OrgID = orgID, iv_Email = email, iv_Role = role, iv_Token = token,
                           iv_InvitedBy = inviterID, iv_ExpiresAt = now + expiry, iv_AcceptedAt = None\<rparr>
                     in case org_CreateInvitation f v db of
                       None \<Rightarrow> (db, Inl (OrgFailed ''failed to create invitation''))
                     | Some db' \<Rightarrow> (db', Inr v)))))"

definition AcceptInvitation ::
  "org_faults \<Rightarrow> nat \<Rightarrow> string \<Rightarrow> uuid \<Rightarrow> orgdb \<Rightarrow> orgdb \<times> (org_error + org_row)" where
  "AcceptInvitation f now token userID db =
     (case org_GetInvitationByToken f db token of
        None \<Rightarrow> (db, Inl (OrgFailed ''failed to get invitation''))
      | Some None \<Rightarrow> (db, Inl (OrgNotFound ''Invitation''))
      | Some (Some (v, o')) \<Rightarrow>
          if iv_ExpiresAt v < now then (db, Inl OrgBadRequest)
          else if iv_AcceptedAt v \<noteq> None then (db, Inl OrgBadRequest)
          else if f QUserByID then (db, Inl (OrgFailed ''failed to get user''))
          else (case find (\<lambda>u. us_ID u = userID) (or_users db) of
             None \<Rightarrow> (db, Inl (OrgNotFound ''User''))
           | Some u \<Rightarrow>
               if us_Email u \<noteq> iv_Email v then (db, Inl OrgForbidden)
               else (case org_AcceptInvitation f now token userID db of
                  None \<Rightarrow> (db, Inl (OrgFailed ''failed to accept invitation''))
                | Some db' \<Rightarrow> (db', Inr o'))))"

definition RemoveMember :: "org_faults \<Rightarrow> uuid \<Rightarrow> uuid \<Rightarrow> uuid \<Rightarrow> orgdb \<Rightarrow> orgdb \<times> org_error option" where
  "RemoveMember f orgID userID actorID db =
     (case CheckAccess f db orgID actorID ''admin'' of
        Some e \<Rightarrow> (db, Some e)
      | None \<Rightarrow>
          (case org_GetMember f QMember db orgID userID of
             None \<Rightarrow> (db, Some (OrgFailed ''failed to get member''))
           | Some None \<Rightarrow> (db, Some (OrgNotFound ''Member''))
           | Some (Some m) \<Rightarrow>
               if mb_Role m = ''owner'' then (db, Some OrgForbidden)
               else (case GetMemberRole f db orgID actorID of
                  Inl e \<Rightarrow> (db, Some e)
                | Inr actorRole \<Rightarrow>
                    if mb_Role m = ''admin'' \<and> actorRole \<noteq> ''owner'' then (db, Some OrgForbidden)
                    else (case org_RemoveMember f orgID userID db of
                       None \<Rightarrow> (db, Some (OrgFailed ''failed to remove member''))
                     | Some db' \<Rightarrow> (db', None)))))"

definition UpdateMemberRole :: "org_faults \<Rightarrow> uuid \<Rightarrow> uuid \<Rightarrow> string \<Rightarrow> uuid \<Rightarrow> orgdb \<Rightarrow> orgdb \<times> org_error option" where
  "UpdateMemberRole f orgID userID role actorID db =
     (case CheckAccess f db orgID actorID ''admin'' of
        Some e \<Rightarrow> (db, Some e)
      | None \<Rightarrow>
          if \<not> ValidRole role then (db, Some (OrgInvalid ''role''))
          else if role = ''owner'' then (db, Some OrgForbidden)
          else (case org_GetMember f QMember db orgID userID of
             None \<Rightarrow> (db, Some (OrgFailed ''failed to get member''))
           | Some None \<Rightarrow> (db, Some (OrgNotFound ''Member''))
           | Some (Some m) \<Rightarrow>
               if mb_Role m = ''owner'' then (db, Some OrgForbidden)
               else (case GetMemberRole f db orgID actorID of
                  Inl e \<Rightarrow> (db, Some e)
                | Inr actorRole \<Rightarrow>
                    if role = ''admin'' \<and> actorRole \<noteq> ''owner'' then (db, Some OrgForbidden)
                    else if mb_Role m = ''admin'' \<and> actorRole \<noteq> ''owner'' then (db, Some OrgForbidden)
                    else (case org_UpdateMemberRole f orgID userID role db of
                       None \<Rightarrow> (db, Some (OrgFailed ''failed to update member role''))
                     | Some db' \<Rightarrow> (db', None)))))"

definition ListMembers :: "org_faults \<Rightarrow> uuid \<Rightarrow> uuid \<Rightarrow> orgdb \<Rightarrow> org_error + member_row list" where
  "ListMembers f orgID actorID db =
     (case CheckAccess f db orgID actorID ''viewer'' of
        Some e \<Rightarrow> Inl e
      | None \<Rightarrow>
          if f QMembers then Inl (OrgFailed ''failed to list members'')
          else Inr (filter (\<lambda>m. mb_OrgID m = orgID) (or_members db)))"

definition ListPendingInvitations :: "org_faults \<Rightarrow> nat \<Rightarrow> uuid \<Rightarrow> uuid \<Rightarrow> orgdb \<Rightarrow> org_error + invitation_row list" where
  "ListPendingInvitations f now orgID actorID db =
     (case CheckAccess f db orgID actorID ''admin'' of
        Some e \<Rightarrow> Inl e
      | None \<Rightarrow>
          if f QInvitations then Inl (OrgFailed ''failed to list invitations'')
          else Inr (org_ListPendingInvitations now db orgID))"

text \<open>The invitation is deleted whatever organization it belongs to.\<close>

definition CancelInvitation :: "org_faults \<Rightarrow> uuid \<Rightarrow> uuid \<Rightarrow> uuid \<Rightarrow> orgdb \<Rightarrow> orgdb \<times> org_error option" where
  "CancelInvitation f orgID invitationID actorID db =
     (case CheckAccess f db orgID actorID ''admin'' of
        Some e \<Rightarrow> (db, Some e)
      | None \<Rightarrow>
          (case org_DeleteInvitation f invitationID db of
             None \<Rightarrow> (db, Some (OrgFailed ''failed to delete invitation''))
           | Some db' \<Rightarrow> (db', None)))"

definition CreateNamespace ::
  "org_faults \<Rightarrow> uuid \<Rightarrow> uuid \<Rightarrow> string \<Rightarrow> string \<Rightarrow> uuid \<Rightarrow> orgdb \<Rightarrow> orgdb \<times> (org_error + namespace_row)" where
  "CreateNamespace f newID orgID name description actorID db =
     (case CheckAccess f db orgID actorID ''operator'' of
        Some e \<Rightarrow> (db, Inl e)
      | None \<Rightarrow>
          if name = [] then (db, Inl (OrgInvalid ''name''))
          else (case GetLimits f db orgID of
             Inl e \<Rightarrow> (db, Inl e)
           | Inr limits \<Rightarrow>
               if f QCountNamespaces then (db, Inl (OrgFailed ''failed to count namespaces''))
               else if pl_Namespaces limits > 0 \<and> int (org_CountNamespaces db orgID) \<ge> pl_Namespaces limits
               then (db, Inl OrgQuota)
               else (case org_GetNamespaceByName f db orgID name of
                  None \<Rightarrow> (db, Inl (OrgFailed ''failed to check namespace''))
                | Some (Some _) \<Rightarrow> (db, Inl OrgConflict)
                | Some None \<Rightarrow>
                    (let n = \<lparr>nm_ID = newID, nm_OrgID = orgID, nm_Name = name,
                           nm_Description = (if description \<noteq> [] then Some description else None)\<rparr>
                     in case org_CreateNamespace f n db of
                       None \<Rightarrow> (db, Inl (OrgFailed ''failed to create namespace''))
                     | Some db' \<Rightarrow> (db', Inr n)))))"

definition OrgGetNamespace :: "org_faults \<Rightarrow> uuid \<Rightarrow> uuid \<Rightarrow> uuid \<Rightarrow> orgdb \<Rightarrow> org_error + namespace_row" where
  "OrgGetNamespace f orgID nsID actorID db =
     (case CheckAccess f db orgID actorID ''viewer'' of
        Some e \<Rightarrow> Inl e
      | None \<Rightarrow>
          (case org_GetNamespace f db nsID of
             None \<Rightarrow> Inl (OrgFailed ''failed to get namespace'')
           | Some None \<Rightarrow> Inl (OrgNotFound ''Namespace'')
           | Some (Some n) \<Rightarrow> if nm_OrgID n \<noteq> orgID then Inl (OrgNotFound ''Namespace'') else Inr n))"

definition ListNamespaces :: "org_faults \<Rightarrow> uuid \<Rightarrow> uuid \<Rightarrow> orgdb \<Rightarrow> org_error + namespace_row list" where
  "ListNamespaces f orgID actorID db =
     (case CheckAccess f db orgID actorID ''viewer'' of
        Some e \<Rightarrow> Inl e
      | None \<Rightarrow>
          if f QNamespaces then Inl (OrgFailed ''failed to list namespaces'')
          else Inr (filter (\<lambda>n. nm_OrgID n = orgID) (or_namespaces db)))"

definition DeleteNamespace :: "org_faults \<Rightarrow> uuid \<Rightarrow> uuid \<Rightarrow> uuid \<Rightarrow> orgdb \<Rightarrow> orgdb \<times> org_error option" where
  "DeleteNamespace f orgID nsID actorID db =
     (case CheckAccess f db orgID actorID ''admin'' of
        Some e \<Rightarrow> (db, Some e)
      | None \<Rightarrow>
          (case org_GetNamespace f db nsID of
             None \<Rightarrow> (db, Some (OrgFailed ''failed to get namespace''))
           | Some None \<Rightarrow> (db, Some (OrgNotFound ''Namespace''))
           | Some (Some n) \<Rightarrow>
               if nm_OrgID n \<noteq> orgID then (db, Some (OrgNotFound ''Namespace''))
               else if f QCountNamespaces then (db, Some (OrgFailed ''failed to count namespaces''))
               else if org_CountNamespaces db orgID \<le> 1 then (db, Some OrgBadRequest)
               else (case org_DeleteNamespace f nsID db of
                  None \<Rightarrow> (db, Some (OrgFailed ''failed to delete namespace''))
                | Some db' \<Rightarrow> (db', None))))"

text \<open>The calls that can change something, by an actor at a time; creation acts for its owner and acceptance for its user.\<close>

inductive org_step :: "nat \<Rightarrow> uuid \<Rightarrow> orgdb \<Rightarrow> orgdb \<Rightarrow> bool" where
  "OrgCreate f newID nsID suffix name actor db = (db', r) \<Longrightarrow> org_step now actor db db'"
| "OrgUpdate f suffix i name actor db = (db', r2) \<Longrightarrow> org_step now actor db db'"
| "OrgDelete f i actor db = (db', r3) \<Longrightarrow> org_step now actor db db'"
| "InviteMember f InvitationExpiry now newID random orgID email role actor db = (db', r4) \<Longrightarrow> org_step now actor db db'"
| "AcceptInvitation f now token actor db = (db', r5) \<Longrightarrow> org_step now actor db db'"
| "RemoveMember f orgID userID actor db = (db', r6) \<Longrightarrow> org_step now actor db db'"
| "UpdateMemberRole f orgID userID role actor db = (db', r7) \<Longrightarrow> org_step now actor db db'"
| "CancelInvitation f orgID invitationID actor db = (db', r8) \<Longrightarrow> org_step now actor db db'"
| "CreateNamespace f newID orgID name description actor db = (db', r9) \<Longrightarrow> org_step now actor db db'"
| "DeleteNamespace f orgID nsID actor db = (db', r10) \<Longrightarrow> org_step now actor db db'"

text \<open>A run of calls at increasing times, the last of them.\<close>

inductive org_run :: "nat \<Rightarrow> orgdb \<Rightarrow> nat \<Rightarrow> orgdb \<Rightarrow> bool" where
  starts: "org_run now db now db"
| continues: "org_run t0 db t1 db1 \<Longrightarrow> t1 < t2 \<Longrightarrow> org_step t2 actor db1 db2 \<Longrightarrow> org_run t0 db t2 db2"

section \<open>What a call may change\<close>

definition has_level :: "orgdb \<Rightarrow> uuid \<Rightarrow> uuid \<Rightarrow> nat \<Rightarrow> bool" where
  "has_level db orgID userID n \<longleftrightarrow> (\<exists>m\<in>set (or_members db). is_member orgID userID m \<and> n \<le> RoleLevel (mb_Role m))"

definition seats :: "nat \<Rightarrow> orgdb \<Rightarrow> uuid \<Rightarrow> nat" where
  "seats now db orgID = org_CountMembers db orgID + length (org_ListPendingInvitations now db orgID)"

definition org_ids :: "orgdb \<Rightarrow> uuid set" where
  "org_ids db = og_ID ` set (or_orgs db)"

text \<open>
  The specification of a call: the changes there are, each with the rank its actor needs in the
  organization it touches.
\<close>

inductive org_change :: "nat \<Rightarrow> uuid \<Rightarrow> orgdb \<Rightarrow> orgdb \<Rightarrow> bool" for now actor db where
  nothing: "org_change now actor db db"
| creates: "og_ID o' \<notin> org_ids db \<Longrightarrow> og_Plan o' = ''free'' \<Longrightarrow> nm_OrgID n = og_ID o' \<Longrightarrow>
    nm_ID n \<notin> nm_ID ` set (or_namespaces db) \<Longrightarrow>
    org_change now actor db (db\<lparr>or_orgs := or_orgs db @ [o'],
      or_members := or_members db @ [\<lparr>mb_OrgID = og_ID o', mb_UserID = actor, mb_Role = ''owner'', mb_InvitedBy = None\<rparr>],
      or_namespaces := or_namespaces db @ [n]\<rparr>)"
| renames: "has_level db i actor 3 \<Longrightarrow>
    org_change now actor db (db\<lparr>or_orgs :=
      map (\<lambda>p. if og_ID p = i then p\<lparr>og_Name := name, og_Slug := slug\<rparr> else p) (or_orgs db)\<rparr>)"
| deletes: "has_level db i actor 4 \<Longrightarrow> org_Delete (\<lambda>_. False) i db = Some db' \<Longrightarrow> org_change now actor db db'"
| invites: "has_level db (iv_OrgID v) actor 3 \<Longrightarrow> iv_Role v \<noteq> ''owner'' \<Longrightarrow> iv_AcceptedAt v = None \<Longrightarrow>
    o' \<in> set (or_orgs db) \<Longrightarrow> og_ID o' = iv_OrgID v \<Longrightarrow>
    (pl_TeamMembers (GetPlanLimits (og_Plan o')) > 0 \<Longrightarrow>
       int (seats now db (iv_OrgID v)) < pl_TeamMembers (GetPlanLimits (og_Plan o'))) \<Longrightarrow>
    iv_ID v \<notin> iv_ID ` set (or_invitations db) \<Longrightarrow>
    org_change now actor db (db\<lparr>or_invitations := or_invitations db @ [v]\<rparr>)"
| accepts: "v \<in> set (or_invitations db) \<Longrightarrow> iv_AcceptedAt v = None \<Longrightarrow> now \<le> iv_ExpiresAt v \<Longrightarrow>
    u \<in> set (or_users db) \<Longrightarrow> us_ID u = actor \<Longrightarrow> us_Email u = iv_Email v \<Longrightarrow>
    org_change now actor db (db\<lparr>
      or_invitations := map (\<lambda>w. if iv_ID w = iv_ID v then w\<lparr>iv_AcceptedAt := Some now\<rparr> else w) (or_invitations db),
      or_members := (if list_ex (is_member (iv_OrgID v) actor) (or_members db) then or_members db
        else or_members db @ [\<lparr>mb_OrgID = iv_OrgID v, mb_UserID = actor, mb_Role = iv_Role v,
          mb_InvitedBy = Some (iv_InvitedBy v)\<rparr>])\<rparr>)"
| removes: "has_level db i actor 3 \<Longrightarrow> find (is_member i userID) (or_members db) = Some m \<Longrightarrow> mb_Role m \<noteq> ''owner'' \<Longrightarrow>
    (mb_Role m = ''admin'' \<Longrightarrow> has_level db i actor 4) \<Longrightarrow>
    org_change now actor db (db\<lparr>or_members := filter (\<lambda>m. \<not> is_member i userID m) (or_members db)\<rparr>)"
| regrades: "has_level db i actor 3 \<Longrightarrow> find (is_member i userID) (or_members db) = Some m \<Longrightarrow> mb_Role m \<noteq> ''owner'' \<Longrightarrow>
    role \<noteq> ''owner'' \<Longrightarrow> (mb_Role m = ''admin'' \<or> role = ''admin'' \<Longrightarrow> has_level db i actor 4) \<Longrightarrow>
    org_change now actor db (db\<lparr>or_members :=
      map (\<lambda>m. if is_member i userID m then m\<lparr>mb_Role := role\<rparr> else m) (or_members db)\<rparr>)"
| cancels: "has_level db i actor 3 \<Longrightarrow>
    org_change now actor db (db\<lparr>or_invitations := filter (\<lambda>v. iv_ID v \<noteq> invitationID) (or_invitations db)\<rparr>)"
| adds_namespace: "has_level db (nm_OrgID n) actor 2 \<Longrightarrow> nm_OrgID n \<in> org_ids db \<Longrightarrow>
    nm_ID n \<notin> nm_ID ` set (or_namespaces db) \<Longrightarrow>
    org_change now actor db (db\<lparr>or_namespaces := or_namespaces db @ [n]\<rparr>)"
| drops_namespace: "has_level db (nm_OrgID n) actor 3 \<Longrightarrow> n \<in> set (or_namespaces db) \<Longrightarrow>
    1 < org_CountNamespaces db (nm_OrgID n) \<Longrightarrow>
    org_change now actor db (db\<lparr>or_namespaces := filter (\<lambda>k. nm_ID k \<noteq> nm_ID n) (or_namespaces db)\<rparr>)"

lemma find_found: "find P xs = Some x \<Longrightarrow> x \<in> set xs \<and> P x"
  by (metis find_Some_iff nth_mem)

lemma GetMember_found: "org_GetMember f q db orgID userID = Some (Some m) \<Longrightarrow>
    find (is_member orgID userID) (or_members db) = Some m \<and> m \<in> set (or_members db) \<and> is_member orgID userID m"
  unfolding org_GetMember_def by (metis find_found option.distinct(1) option.inject)

lemma CheckAccess_None:
  assumes "CheckAccess f db orgID userID role = None"
  shows "has_level db orgID userID (RoleLevel role)"
proof -
  obtain m where "org_GetMember f QAccess db orgID userID = Some (Some m)" "\<not> RoleLevel (mb_Role m) < RoleLevel role"
    using assms by (auto simp: CheckAccess_def split: option.splits if_splits)
  then show ?thesis using GetMember_found by (fastforce simp: has_level_def not_less)
qed

lemma GetMemberRole_owner:
  assumes "GetMemberRole f db orgID userID = Inr ''owner''"
  shows "has_level db orgID userID 4"
proof -
  obtain m where "org_GetMember f QRole db orgID userID = Some (Some m)" "mb_Role m = ''owner''"
    using assms by (auto simp: GetMemberRole_def split: option.splits)
  then have "m \<in> set (or_members db) \<and> is_member orgID userID m \<and> 4 \<le> RoleLevel (mb_Role m)"
    using GetMember_found by (simp add: RoleLevel_def)
  then show ?thesis unfolding has_level_def by blast
qed

lemma OrgGet_Inr: "OrgGet f db i = Inr o' \<Longrightarrow> o' \<in> set (or_orgs db) \<and> og_ID o' = i"
  by (auto simp: OrgGet_def org_GetByID_def split: option.splits if_splits dest: find_found)

lemma check_invite_None:
  assumes "check_invite f now orgID email role db = None"
  shows "role \<noteq> ''owner'' \<and> (\<exists>o'\<in>set (or_orgs db). og_ID o' = orgID \<and>
    (pl_TeamMembers (GetPlanLimits (og_Plan o')) > 0 \<longrightarrow>
       int (seats now db orgID) < pl_TeamMembers (GetPlanLimits (og_Plan o'))))"
  using assms
  by (auto simp: check_invite_def GetLimits_def seats_def Let_def split: if_splits sum.splits dest!: OrgGet_Inr)

lemmas role_levels = RoleLevel_def [of "''owner''", simplified] RoleLevel_def [of "''admin''", simplified]
  RoleLevel_def [of "''operator''", simplified]

lemma org_Create_Some:
  assumes "org_Create f newID nsID suffix name slug ownerID db = Some (db', o')"
  shows "og_ID o' \<notin> org_ids db \<and> og_Plan o' = ''free'' \<and> nsID \<notin> nm_ID ` set (or_namespaces db) \<and>
    db' = db\<lparr>or_orgs := or_orgs db @ [o'],
      or_members := or_members db @ [\<lparr>mb_OrgID = og_ID o', mb_UserID = ownerID, mb_Role = ''owner'', mb_InvitedBy = None\<rparr>],
      or_namespaces := or_namespaces db @ [\<lparr>nm_ID = nsID, nm_OrgID = og_ID o', nm_Name = ''production'',
        nm_Description = Some ''Production environment''\<rparr>]\<rparr>"
  using assms by (auto simp: org_Create_def Let_def list_ex_iff org_ids_def split: if_splits)

lemma org_CreateInvitation_Some:
  "org_CreateInvitation f v db = Some db' \<Longrightarrow>
     iv_ID v \<notin> iv_ID ` set (or_invitations db) \<and> db' = db\<lparr>or_invitations := or_invitations db @ [v]\<rparr>"
  by (auto simp: org_CreateInvitation_def list_ex_iff split: if_splits)

lemma org_CreateNamespace_Some:
  "org_CreateNamespace f n db = Some db' \<Longrightarrow> nm_ID n \<notin> nm_ID ` set (or_namespaces db) \<and> nm_OrgID n \<in> org_ids db \<and>
     db' = db\<lparr>or_namespaces := or_namespaces db @ [n]\<rparr>"
  by (force simp: org_CreateNamespace_def list_ex_iff org_ids_def image_iff split: if_splits)

lemma OrgCreate_change: "OrgCreate f newID nsID suffix name actor db = (db', r) \<Longrightarrow> org_change now actor db db'"
proof (cases r)
  case (Inr o')
  assume "OrgCreate f newID nsID suffix name actor db = (db', r)"
  then have "org_Create f newID nsID suffix name [] actor db = Some (db', o')"
    using Inr by (auto simp: OrgCreate_def split: if_splits option.splits)
  from org_Create_Some [OF this] show ?thesis
    using org_change.creates [of o' db "\<lparr>nm_ID = nsID, nm_OrgID = og_ID o', nm_Name = ''production'',
        nm_Description = Some ''Production environment''\<rparr>" now actor] by simp
qed (auto simp: OrgCreate_def org_change.nothing split: if_splits option.splits)

lemma org_Update_Some:
  "org_Update f suffix o' db = Some (db', o'') \<Longrightarrow> db' = db\<lparr>or_orgs :=
     map (\<lambda>p. if og_ID p = og_ID o' then p\<lparr>og_Name := og_Name o'', og_Slug := og_Slug o''\<rparr> else p) (or_orgs db)\<rparr>"
  unfolding org_Update_def Let_def by (simp split: if_split_asm; elim conjE; hypsubst; simp)

lemma OrgUpdate_change:
  assumes "OrgUpdate f suffix i name actor db = (db', r)"
  shows "org_change now actor db db'"
proof (cases r)
  case (Inr o'')
  obtain o' where o': "CheckAccess f db i actor ''admin'' = None" "OrgGet f db i = Inr o'"
    "org_Update f suffix (if name \<noteq> [] then o'\<lparr>og_Name := name\<rparr> else o') db = Some (db', o'')"
    using assms Inr by (auto simp: OrgUpdate_def split: option.splits sum.splits)
  have "og_ID (if name \<noteq> [] then o'\<lparr>og_Name := name\<rparr> else o') = i"
    using OrgGet_Inr [OF o'(2)] by simp
  then show ?thesis
    using org_change.renames [of db i actor now "og_Slug o''" "og_Name o''"] CheckAccess_None [OF o'(1)]
      org_Update_Some [OF o'(3)] by (simp add: role_levels)
qed (use assms in \<open>auto simp: OrgUpdate_def org_change.nothing split: option.splits sum.splits\<close>)

lemma OrgDelete_change: "OrgDelete f i actor db = (db', r) \<Longrightarrow> org_change now actor db db'"
  using org_change.deletes [of db i actor db' now] CheckAccess_None [of f db i actor "''owner''"]
  by (auto simp: OrgDelete_def org_change.nothing role_levels org_Delete_def split: option.splits sum.splits if_splits)

lemma InviteMember_change:
  assumes "InviteMember f expiry now newID random orgID email role actor db = (db', r)"
  shows "org_change now actor db db'"
proof (cases r)
  case (Inr v)
  then have v: "CheckAccess f db orgID actor ''admin'' = None" "check_invite f now orgID email role db = None"
    "org_CreateInvitation f v db = Some db'" "iv_OrgID v = orgID" "iv_Role v = role" "iv_AcceptedAt v = None"
    using assms by (auto simp: InviteMember_def Let_def split: option.splits)
  obtain o' where "role \<noteq> ''owner''" "o' \<in> set (or_orgs db)" "og_ID o' = orgID"
    "pl_TeamMembers (GetPlanLimits (og_Plan o')) > 0 \<longrightarrow>
       int (seats now db orgID) < pl_TeamMembers (GetPlanLimits (og_Plan o'))"
    using check_invite_None [OF v(2)] by blast
  then show ?thesis
    using org_change.invites [of db v actor o' now] v CheckAccess_None [OF v(1)] org_CreateInvitation_Some [OF v(3)]
    by (simp add: role_levels)
qed (use assms in \<open>auto simp: InviteMember_def org_change.nothing Let_def split: option.splits\<close>)

lemma AcceptInvitation_change:
  assumes "AcceptInvitation f now token actor db = (db', r)"
  shows "org_change now actor db db'"
proof (cases r)
  case (Inr o')
  then obtain v u where v: "org_GetInvitationByToken f db token = Some (Some (v, o'))"
    "find (\<lambda>u. us_ID u = actor) (or_users db) = Some u" "us_Email u = iv_Email v"
    "org_AcceptInvitation f now token actor db = Some db'"
    using assms by (auto simp: AcceptInvitation_def split: option.splits if_splits prod.splits)
  then have f: "find (\<lambda>v. iv_Token v = token) (or_invitations db) = Some v"
    by (auto simp: org_GetInvitationByToken_def split: if_splits option.splits)
  show ?thesis
    using org_change.accepts [of v db now u actor] v find_found [OF f] find_found [OF v(2)]
    by (auto simp: org_AcceptInvitation_def f split: if_splits)
qed (use assms in \<open>auto simp: AcceptInvitation_def org_change.nothing split: option.splits if_splits\<close>)

lemma RemoveMember_change:
  assumes "RemoveMember f orgID userID actor db = (db', r)"
  shows "org_change now actor db db'"
proof (cases r)
  case None
  then obtain m actorRole where m: "CheckAccess f db orgID actor ''admin'' = None" "mb_Role m \<noteq> ''owner''"
    "org_GetMember f QMember db orgID userID = Some (Some m)" "GetMemberRole f db orgID actor = Inr actorRole"
    "mb_Role m = ''admin'' \<longrightarrow> actorRole = ''owner''" "org_RemoveMember f orgID userID db = Some db'"
    using assms by (auto simp: RemoveMember_def split: option.splits if_splits sum.splits)
  then show ?thesis
    using org_change.removes [of db orgID actor userID m now] CheckAccess_None [OF m(1)] GetMember_found [OF m(3)]
      GetMemberRole_owner [of f db orgID actor]
    by (auto simp: org_RemoveMember_def role_levels split: if_splits)
qed (use assms in \<open>auto simp: RemoveMember_def org_change.nothing split: option.splits if_splits sum.splits\<close>)

lemma UpdateMemberRole_change:
  assumes "UpdateMemberRole f orgID userID role actor db = (db', r)"
  shows "org_change now actor db db'"
proof (cases r)
  case None
  then obtain m actorRole where m: "CheckAccess f db orgID actor ''admin'' = None" "mb_Role m \<noteq> ''owner''" "role \<noteq> ''owner''"
    "org_GetMember f QMember db orgID userID = Some (Some m)" "GetMemberRole f db orgID actor = Inr actorRole"
    "mb_Role m = ''admin'' \<or> role = ''admin'' \<longrightarrow> actorRole = ''owner''" "org_UpdateMemberRole f orgID userID role db = Some db'"
    using assms by (auto simp: UpdateMemberRole_def split: option.splits if_splits sum.splits)
  then show ?thesis
    using org_change.regrades [of db orgID actor userID m role now] CheckAccess_None [OF m(1)] GetMember_found [OF m(4)]
      GetMemberRole_owner [of f db orgID actor]
    by (auto simp: org_UpdateMemberRole_def role_levels split: if_splits)
qed (use assms in \<open>auto simp: UpdateMemberRole_def org_change.nothing split: option.splits if_splits sum.splits\<close>)

lemma CancelInvitation_change: "CancelInvitation f orgID invitationID actor db = (db', r) \<Longrightarrow> org_change now actor db db'"
  using org_change.cancels [of db orgID actor now invitationID] CheckAccess_None [of f db orgID actor "''admin''"]
  by (auto simp: CancelInvitation_def org_DeleteInvitation_def org_change.nothing role_levels split: option.splits if_splits)

lemma CreateNamespace_change:
  assumes "CreateNamespace f newID orgID name description actor db = (db', r)"
  shows "org_change now actor db db'"
proof (cases r)
  case (Inr n)
  then have n: "CheckAccess f db orgID actor ''operator'' = None" "org_CreateNamespace f n db = Some db'" "nm_OrgID n = orgID"
    using assms by (auto simp: CreateNamespace_def Let_def split: option.splits if_splits sum.splits)
  then show ?thesis
    using org_change.adds_namespace [of db n actor now] CheckAccess_None [OF n(1)] org_CreateNamespace_Some [OF n(2)]
    by (simp add: role_levels)
qed (use assms in \<open>auto simp: CreateNamespace_def org_change.nothing Let_def split: option.splits if_splits sum.splits\<close>)

lemma DeleteNamespace_change:
  assumes "DeleteNamespace f orgID nsID actor db = (db', r)"
  shows "org_change now actor db db'"
proof (cases r)
  case None
  then obtain n where n: "CheckAccess f db orgID actor ''admin'' = None" "org_GetNamespace f db nsID = Some (Some n)"
    "nm_OrgID n = orgID" "\<not> org_CountNamespaces db orgID \<le> 1" "org_DeleteNamespace f nsID db = Some db'"
    using assms by (auto simp: DeleteNamespace_def split: option.splits if_splits)
  have "n \<in> set (or_namespaces db) \<and> nm_ID n = nsID"
    using n(2) by (auto simp: org_GetNamespace_def split: if_splits dest: find_found)
  then show ?thesis
    using org_change.drops_namespace [of db n actor now] CheckAccess_None [OF n(1)] n
    by (auto simp: org_DeleteNamespace_def role_levels split: if_splits)
qed (use assms in \<open>auto simp: DeleteNamespace_def org_change.nothing split: option.splits if_splits\<close>)

text \<open>The service refines the specification.\<close>

lemma org_step_change: "org_step now actor db db' \<Longrightarrow> org_change now actor db db'"
  by (induction rule: org_step.induct)
    (erule OrgCreate_change OrgUpdate_change OrgDelete_change InviteMember_change AcceptInvitation_change
      RemoveMember_change UpdateMemberRole_change CancelInvitation_change CreateNamespace_change DeleteNamespace_change)+

section \<open>What holds in every state\<close>

text \<open>Keys are keys, references point at rows, and no invitation makes an owner.\<close>

definition orgs_ok :: "orgdb \<Rightarrow> bool" where
  "orgs_ok db \<longleftrightarrow>
     distinct (map og_ID (or_orgs db)) \<and>
     distinct (map (\<lambda>m. (mb_OrgID m, mb_UserID m)) (or_members db)) \<and> distinct (map nm_ID (or_namespaces db)) \<and>
     distinct (map iv_ID (or_invitations db)) \<and>
     (\<forall>m\<in>set (or_members db). mb_OrgID m \<in> org_ids db) \<and> (\<forall>n\<in>set (or_namespaces db). nm_OrgID n \<in> org_ids db) \<and>
     (\<forall>v\<in>set (or_invitations db). iv_OrgID v \<in> org_ids db \<and> iv_Role v \<noteq> ''owner'')"

definition owners :: "orgdb \<Rightarrow> uuid \<Rightarrow> member_row list" where
  "owners db i = filter (\<lambda>m. mb_OrgID m = i \<and> mb_Role m = ''owner'') (or_members db)"

definition staffed :: "orgdb \<Rightarrow> bool" where
  "staffed db \<longleftrightarrow> (\<forall>i\<in>org_ids db. length (owners db i) = 1 \<and> 1 \<le> org_CountNamespaces db i)"

lemma distinct_key_unique: "distinct (map f xs) \<Longrightarrow> x \<in> set xs \<Longrightarrow> y \<in> set xs \<Longrightarrow> f x = f y \<Longrightarrow> x = y"
  by (auto simp: distinct_map inj_on_def)

lemma member_unique:
  assumes "orgs_ok db" "find (is_member i u) (or_members db) = Some m" "m' \<in> set (or_members db)" "is_member i u m'"
  shows "m' = m"
  using find_found [OF assms(2)] assms
    distinct_key_unique [of "\<lambda>m. (mb_OrgID m, mb_UserID m)" "or_members db" m' m]
  by (simp add: orgs_ok_def is_member_def)

lemma is_member_sel: "is_member i u (m\<lparr>mb_Role := r\<rparr>) = is_member i u m"
  by (simp add: is_member_def)

lemma distinct_map_filter_key: "distinct (map f xs) \<Longrightarrow> distinct (map f (filter P xs))"
  by (simp add: distinct_map_filter)

lemma map_key_update: "(\<And>x. f (g x) = f x) \<Longrightarrow> map f (map (\<lambda>x. if P x then g x else x) xs) = map f xs"
  by simp

lemma org_ids_simps [simp]:
  "org_ids (db\<lparr>or_members := ms\<rparr>) = org_ids db" "org_ids (db\<lparr>or_namespaces := ns\<rparr>) = org_ids db"
  "org_ids (db\<lparr>or_invitations := vs\<rparr>) = org_ids db"
  "org_ids (db\<lparr>or_orgs := or_orgs db @ [o']\<rparr>) = insert (og_ID o') (org_ids db)"
  "org_ids (db\<lparr>or_orgs := filter (\<lambda>o'. og_ID o' \<noteq> i) (or_orgs db)\<rparr>) = org_ids db - {i}"
  "org_ids (db\<lparr>or_orgs := map (\<lambda>p. if og_ID p = i then p\<lparr>og_Name := name, og_Slug := slug\<rparr> else p) (or_orgs db)\<rparr>) = org_ids db"
proof -
  show "org_ids (db\<lparr>or_orgs := map (\<lambda>p. if og_ID p = i then p\<lparr>og_Name := name, og_Slug := slug\<rparr> else p) (or_orgs db)\<rparr>) = org_ids db"
    unfolding org_ids_def by (simp only: set_map [symmetric] map_map orgdb.simps)
      (simp add: comp_def if_distrib [of og_ID] cong: if_cong)
qed (auto simp: org_ids_def)

lemma orgs_ok_change:
  assumes "org_change now actor db db'" and ok: "orgs_ok db"
  shows "orgs_ok db'"
  using assms(1)
proof cases
  case (creates o' n)
  then show ?thesis using ok by (auto simp: orgs_ok_def) (auto simp: org_ids_def)
next
  case (deletes i)
  then show ?thesis using ok by (auto simp: orgs_ok_def org_Delete_def intro!: distinct_map_filter_key)
next
  case (invites v o')
  then have "iv_OrgID v \<in> org_ids db" using imageI [of o' "set (or_orgs db)" og_ID] by (simp add: org_ids_def)
  then show ?thesis using ok invites by (auto simp: orgs_ok_def)
next
  case (accepts v u)
  then show ?thesis using ok
    by (auto simp: orgs_ok_def list_ex_iff is_member_def comp_def if_distrib [of iv_ID] cong: if_cong)
next
  case (renames i name slug)
  then show ?thesis using ok by (simp add: orgs_ok_def comp_def if_distrib [of og_ID] cong: if_cong)
next
  case (regrades i u m role)
  then show ?thesis using ok
    by (auto simp: orgs_ok_def comp_def if_distrib [of mb_OrgID] if_distrib [of mb_UserID] cong: if_cong)
qed (use ok in \<open>auto simp: orgs_ok_def intro!: distinct_map_filter_key\<close>)

lemma owners_simps [simp]:
  "owners (db\<lparr>or_orgs := os\<rparr>) i = owners db i" "owners (db\<lparr>or_namespaces := ns\<rparr>) i = owners db i"
  "owners (db\<lparr>or_invitations := vs\<rparr>) i = owners db i"
  "org_CountNamespaces (db\<lparr>or_orgs := os\<rparr>) i = org_CountNamespaces db i"
  "org_CountNamespaces (db\<lparr>or_members := ms\<rparr>) i = org_CountNamespaces db i"
  "org_CountNamespaces (db\<lparr>or_invitations := vs\<rparr>) i = org_CountNamespaces db i"
  by (simp_all add: owners_def org_CountNamespaces_def)

lemma owners_new_org: "orgs_ok db \<Longrightarrow> i \<notin> org_ids db \<Longrightarrow> owners db i = []"
  by (auto simp: owners_def orgs_ok_def filter_empty_conv)

lemma owners_remove:
  assumes "orgs_ok db" "find (is_member j u) (or_members db) = Some m" "mb_Role m \<noteq> ''owner''"
  shows "owners (db\<lparr>or_members := filter (\<lambda>m. \<not> is_member j u m) (or_members db)\<rparr>) i = owners db i"
  using member_unique [OF assms(1,2)] assms(3) by (auto simp: owners_def intro: filter_cong)

lemma filter_map_update:
  "(\<And>x. x \<in> set xs \<Longrightarrow> Q x \<Longrightarrow> \<not> P x \<and> \<not> P (g x)) \<Longrightarrow>
     filter P (map (\<lambda>x. if Q x then g x else x) xs) = filter P xs"
  by (induction xs) auto

lemma owners_regrade:
  assumes "orgs_ok db" "find (is_member j u) (or_members db) = Some m" "mb_Role m \<noteq> ''owner''" "role \<noteq> ''owner''"
  shows "owners (db\<lparr>or_members := map (\<lambda>m. if is_member j u m then m\<lparr>mb_Role := role\<rparr> else m) (or_members db)\<rparr>) i = owners db i"
  using member_unique [OF assms(1,2)] assms(3,4)
  by (auto simp: owners_def intro!: filter_map_update)

lemma count_drop:
  assumes "orgs_ok db" "n \<in> set (or_namespaces db)" "1 < org_CountNamespaces db (nm_OrgID n)"
    "1 \<le> org_CountNamespaces db i"
  shows "1 \<le> org_CountNamespaces (db\<lparr>or_namespaces := filter (\<lambda>k. nm_ID k \<noteq> nm_ID n) (or_namespaces db)\<rparr>) i"
proof -
  have u: "nm_ID k = nm_ID n \<Longrightarrow> k = n" if "k \<in> set (or_namespaces db)" for k
    using assms(1,2) that distinct_key_unique [of nm_ID "or_namespaces db" k n] by (simp add: orgs_ok_def)
  show ?thesis
  proof (cases "i = nm_OrgID n")
    case True
    let ?own = "filter (\<lambda>k. nm_OrgID k = i) (or_namespaces db)"
    have "distinct ?own" using assms(1) by (simp add: orgs_ok_def distinct_map)
    then have "\<exists>k\<in>set ?own. k \<noteq> n"
      using assms(3) True by (cases ?own rule: remdups_adj.cases) (auto simp: org_CountNamespaces_def)
    then show ?thesis using u by (auto simp: org_CountNamespaces_def Suc_le_eq length_greater_0_conv filter_empty_conv)
  next
    case False
    have "filter (\<lambda>k. nm_ID k \<noteq> nm_ID n \<and> nm_OrgID k = i) (or_namespaces db) = filter (\<lambda>k. nm_OrgID k = i) (or_namespaces db)"
      using u False by (auto intro!: filter_cong)
    then show ?thesis using assms(4) by (simp add: org_CountNamespaces_def)
  qed
qed

lemma filter_other:
  "j \<noteq> i \<Longrightarrow> filter (\<lambda>x. f x \<noteq> i \<and> f x = j \<and> P x) xs = filter (\<lambda>x. f x = j \<and> P x) xs"
  "j \<noteq> i \<Longrightarrow> filter (\<lambda>x. f x \<noteq> i \<and> f x = j) xs = filter (\<lambda>x. f x = j) xs"
  by (auto intro: filter_cong)

lemma org_Delete_Some:
  "org_Delete f i db = Some db' \<Longrightarrow> db' = \<lparr>or_users = or_users db, or_orgs = filter (\<lambda>o'. og_ID o' \<noteq> i) (or_orgs db),
     or_members = filter (\<lambda>m. mb_OrgID m \<noteq> i) (or_members db), or_namespaces = filter (\<lambda>n. nm_OrgID n \<noteq> i) (or_namespaces db),
     or_invitations = filter (\<lambda>v. iv_OrgID v \<noteq> i) (or_invitations db)\<rparr>"
  by (auto simp: org_Delete_def split: if_splits)

lemma staffed_change:
  assumes "org_change now actor db db'" and ok: "orgs_ok db" "staffed db"
  shows "staffed db'"
  using assms(1)
proof cases
  case (creates o' n)
  then show ?thesis using ok owners_new_org [OF ok(1) creates(2)]
    by (auto simp: staffed_def owners_def org_CountNamespaces_def)
next
  case (deletes i)
  have "owners db' j = owners db j" "org_CountNamespaces db' j = org_CountNamespaces db j" if "j \<noteq> i" for j
    by (simp_all add: owners_def org_CountNamespaces_def org_Delete_Some [OF deletes(2)] filter_other [OF that])
  then show ?thesis using ok(2) by (auto simp: staffed_def org_ids_def org_Delete_Some [OF deletes(2)])
next
  case (accepts v u)
  then have "iv_Role v \<noteq> ''owner''" using ok(1) by (simp add: orgs_ok_def)
  then show ?thesis using ok(2) accepts by (auto simp: staffed_def owners_def)
next
  case (removes i u m)
  then show ?thesis using ok(2) owners_remove [OF ok(1)] by (simp add: staffed_def)
next
  case (regrades i u m role)
  then show ?thesis using ok(2) owners_regrade [OF ok(1)] by (simp add: staffed_def)
next
  case (drops_namespace n)
  then show ?thesis using ok(2) count_drop [OF ok(1)] by (simp add: staffed_def)
qed (use ok in \<open>auto simp: staffed_def org_CountNamespaces_def\<close>)

lemma org_run_invariants:
  "org_run t0 db t db' \<Longrightarrow> orgs_ok db \<Longrightarrow> staffed db \<Longrightarrow> orgs_ok db' \<and> staffed db'"
  by (induction rule: org_run.induct) (auto dest: org_step_change intro: orgs_ok_change staffed_change)

text \<open>Seats: members and pending invitations against the limit of the plan.\<close>

definition within_plan :: "nat \<Rightarrow> orgdb \<Rightarrow> bool" where
  "within_plan now db \<longleftrightarrow> (\<forall>o'\<in>set (or_orgs db). pl_TeamMembers (GetPlanLimits (og_Plan o')) > 0 \<longrightarrow>
     int (seats now db (og_ID o')) \<le> pl_TeamMembers (GetPlanLimits (og_Plan o')))"

lemma length_filter_mono: "(\<And>x. x \<in> set xs \<Longrightarrow> P x \<Longrightarrow> Q x) \<Longrightarrow> length (filter P xs) \<le> length (filter Q xs)"
  by (induction xs) auto

lemma seats_later: "t1 \<le> t2 \<Longrightarrow> seats t2 db i \<le> seats t1 db i"
  unfolding seats_def org_ListPendingInvitations_def
  by (rule add_left_mono) (rule length_filter_mono, auto simp: pending_at_def)

lemma within_plan_later: "t1 \<le> t2 \<Longrightarrow> within_plan t1 db \<Longrightarrow> within_plan t2 db"
  unfolding within_plan_def using seats_later by (meson dual_order.trans of_nat_mono)

lemma within_plan_fewer:
  assumes "within_plan now db" "\<And>o'. o' \<in> set (or_orgs db') \<Longrightarrow> \<exists>p\<in>set (or_orgs db). og_ID p = og_ID o' \<and> og_Plan p = og_Plan o'"
    "\<And>i. i \<in> org_ids db' \<Longrightarrow> seats now db' i \<le> seats now db i"
  shows "within_plan now db'"
  unfolding within_plan_def
proof (intro ballI impI)
  fix o' assume o': "o' \<in> set (or_orgs db')" and lim: "pl_TeamMembers (GetPlanLimits (og_Plan o')) > 0"
  obtain p where p: "p \<in> set (or_orgs db)" "og_ID p = og_ID o'" "og_Plan p = og_Plan o'" using assms(2) [OF o'] by blast
  have "seats now db' (og_ID o') \<le> seats now db (og_ID o')" using assms(3) o' by (simp add: org_ids_def)
  moreover have "int (seats now db (og_ID o')) \<le> pl_TeamMembers (GetPlanLimits (og_Plan o'))"
    using assms(1) p lim by (fastforce simp: within_plan_def)
  ultimately show "int (seats now db' (og_ID o')) \<le> pl_TeamMembers (GetPlanLimits (og_Plan o'))" by linarith
qed

lemma length_filter_map_le:
  "(\<And>x. x \<in> set xs \<Longrightarrow> P (g x) \<Longrightarrow> Q x) \<Longrightarrow> length (filter P (map g xs)) \<le> length (filter Q xs)"
  by (induction xs) auto

lemma length_filter_map_less:
  assumes "\<And>x. x \<in> set xs \<Longrightarrow> P (g x) \<Longrightarrow> Q x" "v \<in> set xs" "Q v" "\<not> P (g v)"
  shows "length (filter P (map g xs)) < length (filter Q xs)"
  using assms
proof (induction xs)
  case (Cons x xs)
  have "length (filter P (map g xs)) \<le> length (filter Q xs)"
    using Cons.prems(1) length_filter_map_le [of xs P g Q] by auto
  then show ?case using Cons by (cases "v = x") auto
qed simp

lemma seats_accept:
  assumes "t1 < t2" "v \<in> set (or_invitations db)" "iv_AcceptedAt v = None" "t2 \<le> iv_ExpiresAt v"
    "db' = db\<lparr>or_invitations := map (\<lambda>w. if iv_ID w = iv_ID v then w\<lparr>iv_AcceptedAt := Some t2\<rparr> else w) (or_invitations db),
      or_members := (if list_ex (is_member (iv_OrgID v) actor) (or_members db) then or_members db
        else or_members db @ [\<lparr>mb_OrgID = iv_OrgID v, mb_UserID = actor, mb_Role = iv_Role v,
          mb_InvitedBy = Some (iv_InvitedBy v)\<rparr>])\<rparr>"
  shows "seats t2 db' i \<le> seats t1 db i"
proof -
  have inv: "or_invitations db' =
      map (\<lambda>w. if iv_ID w = iv_ID v then w\<lparr>iv_AcceptedAt := Some t2\<rparr> else w) (or_invitations db)"
    by (simp add: assms(5))
  show ?thesis
  proof (cases "i = iv_OrgID v")
  case True
  have "length (org_ListPendingInvitations t2 db' i) < length (org_ListPendingInvitations t1 db i)"
    unfolding org_ListPendingInvitations_def inv
    by (rule length_filter_map_less [of _ _ _ _ v]) (use assms True in \<open>auto simp: pending_at_def split: if_splits\<close>)
  moreover have "org_CountMembers db' i \<le> Suc (org_CountMembers db i)"
    by (simp add: assms(5) org_CountMembers_def)
  ultimately show ?thesis by (simp add: seats_def)
next
  case False
  have "length (org_ListPendingInvitations t2 db' i) \<le> length (org_ListPendingInvitations t1 db i)"
    unfolding org_ListPendingInvitations_def inv
    by (rule length_filter_map_le) (use assms in \<open>auto simp: pending_at_def split: if_splits\<close>)
  moreover have "org_CountMembers db' i = org_CountMembers db i"
    using False by (simp add: assms(5) org_CountMembers_def)
  ultimately show ?thesis by (simp add: seats_def)
  qed
qed

lemma seats_simps [simp]:
  "seats now (db\<lparr>or_orgs := os\<rparr>) i = seats now db i" "seats now (db\<lparr>or_namespaces := ns\<rparr>) i = seats now db i"
  by (simp_all add: seats_def org_CountMembers_def org_ListPendingInvitations_def)

lemma seats_members:
  "length (filter (\<lambda>m. mb_OrgID m = i) ms) \<le> length (filter (\<lambda>m. mb_OrgID m = i) (or_members db)) \<Longrightarrow>
     seats now (db\<lparr>or_members := ms\<rparr>) i \<le> seats now db i"
  by (simp add: seats_def org_CountMembers_def org_ListPendingInvitations_def)

lemma seats_cancel: "seats now (db\<lparr>or_invitations := filter P (or_invitations db)\<rparr>) i \<le> seats now db i"
  unfolding seats_def org_ListPendingInvitations_def org_CountMembers_def
  by (auto intro!: length_filter_mono add_mono)

lemma seats_remove: "seats now (db\<lparr>or_members := filter P (or_members db)\<rparr>) i \<le> seats now db i"
  by (rule seats_members) (auto intro: length_filter_mono)

lemma seats_regrade:
  "seats now (db\<lparr>or_members := map (\<lambda>m. if P m then m\<lparr>mb_Role := role\<rparr> else m) (or_members db)\<rparr>) i \<le> seats now db i"
  by (rule seats_members, rule length_filter_map_le) (simp split: if_splits)

lemma seats_delete: "org_Delete f j db = Some db' \<Longrightarrow> seats now db' i \<le> seats now db i"
  unfolding seats_def org_ListPendingInvitations_def org_CountMembers_def
  by (drule org_Delete_Some) (auto intro!: length_filter_mono add_mono)

lemma within_plan_change:
  assumes "org_change t2 actor db db'" and ok: "orgs_ok db" and w: "within_plan t1 db" and lt: "t1 < t2"
  shows "within_plan t2 db'"
proof -
  have w2: "within_plan t2 db" using within_plan_later [OF _ w] lt by simp
  show ?thesis using assms(1)
  proof cases
    case nothing then show ?thesis using w2 by simp
  next
    case (creates o' n)
    have "seats t2 db' (og_ID o') \<le> 1"
      using creates ok by (auto simp: seats_def org_CountMembers_def org_ListPendingInvitations_def orgs_ok_def filter_empty_conv)
    moreover have "seats t2 db' (og_ID p) = seats t2 db (og_ID p)" if "p \<in> set (or_orgs db)" for p
      using creates that by (auto simp: seats_def org_CountMembers_def org_ListPendingInvitations_def org_ids_def)
    ultimately show ?thesis using w2 creates
      by (auto simp: within_plan_def GetPlanLimits_def PlanLimitsMap_def)
  next
    case (renames i name slug)
    show ?thesis by (rule within_plan_fewer [OF w2]) (use renames in auto)
  next
    case (deletes i)
    show ?thesis
      by (rule within_plan_fewer [OF w2])
        (use org_Delete_Some [OF deletes(2)] seats_delete [OF deletes(2)] in auto)
  next
    case (invites v o')
    have s: "seats t2 db' i = seats t2 db i + (if i = iv_OrgID v \<and> pending_at t2 v then 1 else 0)" for i
      by (simp add: invites(1) seats_def org_CountMembers_def org_ListPendingInvitations_def)
    have "int (seats t2 db' (og_ID p)) \<le> pl_TeamMembers (GetPlanLimits (og_Plan p))"
      if p: "p \<in> set (or_orgs db)" "pl_TeamMembers (GetPlanLimits (og_Plan p)) > 0" for p
    proof (cases "og_ID p = iv_OrgID v")
      case True
      then have "p = o'"
        using ok p invites(5,6) distinct_key_unique [of og_ID "or_orgs db" p o'] by (simp add: orgs_ok_def)
      then show ?thesis using invites(7) p(2) True by (simp add: s)
    next
      case False
      then show ?thesis using w2 p by (simp add: within_plan_def s)
    qed
    then show ?thesis by (simp add: within_plan_def invites(1))
  next
    case (accepts v u)
    have "seats t2 db' i \<le> seats t1 db i" for i using seats_accept [OF lt accepts(2,3,4) accepts(1)] .
    then show ?thesis using w accepts unfolding within_plan_def by (auto intro: dual_order.trans of_nat_mono)
  next
    case (removes i u m)
    show ?thesis by (rule within_plan_fewer [OF w2]) (auto simp: removes(1) seats_remove)
  next
    case (regrades i u m role)
    show ?thesis by (rule within_plan_fewer [OF w2]) (auto simp: regrades(1) seats_regrade)
  next
    case (cancels i v)
    show ?thesis by (rule within_plan_fewer [OF w2]) (auto simp: cancels(1) seats_cancel)
  next
    case (adds_namespace n)
    show ?thesis by (rule within_plan_fewer [OF w2]) (use adds_namespace in auto)
  next
    case (drops_namespace n)
    show ?thesis by (rule within_plan_fewer [OF w2]) (use drops_namespace in auto)
  qed
qed

section \<open>Properties\<close>


text \<open>Property C28. While plans do not change, the members and the pending invitations of an organization together
  stay within the seats of its plan, at every later moment.\<close>

theorem seats_within_plan:
  assumes "org_run t0 db t db'" "orgs_ok db" "within_plan t0 db"
  shows "within_plan t db'"
proof -
  have "orgs_ok db' \<and> within_plan t db'"
    using assms
    by (induction rule: org_run.induct)
      (auto dest: org_step_change intro: orgs_ok_change within_plan_change)
  then show ?thesis ..
qed

text \<open>What an organization shows of itself.\<close>

definition org_view :: "orgdb \<Rightarrow> uuid \<Rightarrow> org_row list \<times> member_row list \<times> namespace_row list" where
  "org_view db i = (filter (\<lambda>o'. og_ID o' = i) (or_orgs db), filter (\<lambda>m. mb_OrgID m = i) (or_members db),
     filter (\<lambda>n. nm_OrgID n = i) (or_namespaces db))"

definition joins :: "nat \<Rightarrow> uuid \<Rightarrow> orgdb \<Rightarrow> uuid \<Rightarrow> invitation_row \<Rightarrow> bool" where
  "joins now actor db i v \<longleftrightarrow> v \<in> set (or_invitations db) \<and> iv_OrgID v = i \<and> iv_AcceptedAt v = None \<and>
     now \<le> iv_ExpiresAt v \<and> (\<exists>u\<in>set (or_users db). us_ID u = actor \<and> us_Email u = iv_Email v)"

lemma org_view_simps [simp]:
  "org_view (db\<lparr>or_invitations := vs\<rparr>) i = org_view db i"
  by (simp add: org_view_def)

lemma has_level_mono: "has_level db i u n \<Longrightarrow> k \<le> n \<Longrightarrow> has_level db i u k"
  unfolding has_level_def by (meson order_trans)

text \<open>Property C27. A call of somebody who is not an operator of an organization leaves its row, its members
  and its namespaces as they are, unless he accepts an invitation addressed to him: then he becomes
  a member with the role of the invitation, which is not owner.\<close>

theorem outsider_changes_nothing:
  assumes "org_step now actor db db'" "orgs_ok db" "i \<in> org_ids db" "\<not> has_level db i actor 2"
  shows "org_view db' i = org_view db i \<or>
    (\<exists>v. joins now actor db i v \<and> iv_Role v \<noteq> ''owner'' \<and>
       org_view db' i = (fst (org_view db i), fst (snd (org_view db i)) @
         [\<lparr>mb_OrgID = i, mb_UserID = actor, mb_Role = iv_Role v, mb_InvitedBy = Some (iv_InvitedBy v)\<rparr>], snd (snd (org_view db i))))"
  using org_step_change [OF assms(1)]
proof cases
  case (renames j name slug)
  then have "j \<noteq> i" using assms(4) has_level_mono by fastforce
  then show ?thesis using filter_map_update [of "or_orgs db" "\<lambda>p. og_ID p = j" "\<lambda>p. og_ID p = i"] by (simp add: renames(1) org_view_def)
next
  case (deletes j)
  then have "j \<noteq> i" using assms(4) has_level_mono by fastforce
  then show ?thesis by (simp add: org_view_def org_Delete_Some [OF deletes(2)] filter_other(2) [of i j])
next
  case (accepts v u)
  show ?thesis
  proof (cases "iv_OrgID v = i \<and> \<not> list_ex (is_member i actor) (or_members db)")
    case True
    then have "joins now actor db i v \<and> iv_Role v \<noteq> ''owner''"
      using accepts assms(2) by (auto simp: joins_def orgs_ok_def)
    then show ?thesis using True accepts(1) by (auto simp: org_view_def)
  qed (use accepts(1) in \<open>auto simp: org_view_def\<close>)
next
  case (removes j u m)
  then have "j \<noteq> i" using assms(4) has_level_mono by fastforce
  then show ?thesis using removes(1) by (auto simp: org_view_def is_member_def intro!: filter_cong disjI1)
next
  case (regrades j u m role)
  then have "j \<noteq> i" using assms(4) has_level_mono by fastforce
  then show ?thesis using filter_map_update [of "or_members db" "is_member j u" "\<lambda>m. mb_OrgID m = i" "\<lambda>m. m\<lparr>mb_Role := role\<rparr>"]
    by (simp add: regrades(1) org_view_def is_member_def)
next
  case (drops_namespace n)
  then have "nm_OrgID n \<noteq> i" using assms(4) has_level_mono by fastforce
  moreover have "k = n" if "k \<in> set (or_namespaces db)" "nm_ID k = nm_ID n" for k
    using assms(2) that drops_namespace(3) distinct_key_unique [of nm_ID "or_namespaces db" k n] by (simp add: orgs_ok_def)
  ultimately show ?thesis using drops_namespace(1) by (auto simp: org_view_def intro!: filter_cong disjI1)
next
  case (adds_namespace n)
  then show ?thesis using assms(4) by (auto simp: org_view_def)
next
  case (creates o' n)
  then show ?thesis using assms(3) by (auto simp: org_view_def)
qed auto

text \<open>An organization of alice and an invitation to bob.\<close>

definition bob :: user_row where
  "bob = \<lparr>us_ID = 8, us_Email = ''b@x'', us_PasswordHash = None, us_Name = None,
     us_AvatarURL = None, us_EmailVerified = True, us_OAuthProvider = None, us_OAuthProviderID = None\<rparr>"

definition empty_orgs :: orgdb where
  "empty_orgs = \<lparr>or_users = [alice, bob], or_orgs = [], or_members = [], or_namespaces = [], or_invitations = []\<rparr>"

definition acme :: orgdb where
  "acme = fst (OrgCreate (\<lambda>_. False) 1 2 [171] ''Acme'' 7 empty_orgs)"

definition to_bob :: invitation_row where
  "to_bob = \<lparr>iv_ID = 5, iv_OrgID = 1, iv_Email = ''b@x'', iv_Role = ''viewer'', iv_Token = ''t'', iv_InvitedBy = 7,
     iv_ExpiresAt = 9, iv_AcceptedAt = None\<rparr>"

lemma acme_eq:
  "acme = \<lparr>or_users = [alice, bob], or_orgs = [\<lparr>og_ID = 1, og_Name = ''Acme'', og_Slug = ''acme-ab'', og_Plan = ''free'',
       og_StripeCustomerID = None, og_StripeSubscriptionID = None\<rparr>],
     or_members = [\<lparr>mb_OrgID = 1, mb_UserID = 7, mb_Role = ''owner'', mb_InvitedBy = None\<rparr>],
     or_namespaces = [\<lparr>nm_ID = 2, nm_OrgID = 1, nm_Name = ''production'', nm_Description = Some ''Production environment''\<rparr>],
     or_invitations = []\<rparr>"
  by code_simp

lemma acme_run: "org_run 0 empty_orgs 1 acme"
proof -
  obtain r where "OrgCreate (\<lambda>_. False) 1 2 [171] ''Acme'' 7 empty_orgs = (acme, r)"
    unfolding acme_def by (metis prod.collapse)
  then show ?thesis by (rule org_run.continues [OF org_run.starts zero_less_one org_step.intros(1)])
qed

lemma empty_orgs_ok: "orgs_ok empty_orgs" "staffed empty_orgs" "within_plan t empty_orgs"
  by (simp_all add: empty_orgs_def orgs_ok_def staffed_def within_plan_def org_ids_def)


lemma seats_within_plan_witness: "within_plan 1 acme \<and> seats 1 acme 1 = 1"
  using seats_within_plan [OF acme_run empty_orgs_ok(1,3)]
  by (simp add: acme_eq seats_def org_CountMembers_def org_ListPendingInvitations_def)

definition acme_invites :: orgdb where
  "acme_invites = acme\<lparr>or_invitations := [to_bob]\<rparr>"

lemma outsider_changes_nothing_witness:
  "\<exists>db'. org_step 4 8 acme_invites db' \<and> org_view db' 1 \<noteq> org_view acme_invites 1 \<and>
     (\<exists>v. joins 4 8 acme_invites 1 v \<and> iv_Role v \<noteq> ''owner'')"
proof -
  let ?r = "AcceptInvitation (\<lambda>_. False) 4 ''t'' 8 acme_invites"
  have step: "org_step 4 8 acme_invites (fst ?r)" by (rule org_step.intros(5), rule prod.collapse [symmetric])
  have "orgs_ok acme_invites" "1 \<in> org_ids acme_invites" "\<not> has_level acme_invites 1 8 2"
    by (simp_all add: acme_invites_def acme_eq orgs_ok_def to_bob_def org_ids_def has_level_def is_member_def)
  note conclusion = outsider_changes_nothing [OF step this]
  have "org_view (fst ?r) 1 \<noteq> org_view acme_invites 1" by code_simp
  then show ?thesis using conclusion step by blast
qed

text \<open>
  An admin of one organization can delete the invitations of another: nothing compares the
  organization of the invitation with the one whose membership was checked.
\<close>

lemma cancels_foreign_invitation:
  assumes "CheckAccess f db orgID actorID ''admin'' = None" "\<not> f QDeleteInvitation" "v \<in> set (or_invitations db)" "iv_OrgID v \<noteq> orgID"
  shows "\<exists>db'. CancelInvitation f orgID (iv_ID v) actorID db = (db', None) \<and> v \<notin> set (or_invitations db')"
  using assms by (simp add: CancelInvitation_def org_DeleteInvitation_def)

text \<open>An admin cannot promote a member to admin, but can invite one.\<close>

lemma admin_may_not_promote:
  assumes "GetMemberRole f db orgID actorID = Inr ''admin''"
  shows "fst (UpdateMemberRole f orgID userID ''admin'' actorID db) = db \<and>
    snd (UpdateMemberRole f orgID userID ''admin'' actorID db) \<noteq> None"
  using assms by (auto simp: UpdateMemberRole_def ValidRole_def split: option.splits)

end
