(* ===== verification/Deployments.thy ===== *)
theory Deployments
  imports GoJson CpAccess
begin

text \<open>
  The records of chain deployments: the tables of \<open>bootstrap/repository\<close> (with the enumerations, keys
  and cascades of the migrations) and the state writer of \<open>bootstrap/opstack/state.go\<close> over them.
  Documents are parsed JSON values, as the JSONB columns keep them. The clock of the database
  stands still during a call. A row carries the time of its last update because stale
  deployments are found by it; a listing has the reverse order of creation.
\<close>

section \<open>The tables\<close>

datatype stack = StackOPStack | StackNitro | StackPopBundle | StackOther string

datatype status = StatusPending | StatusRunning | StatusPaused | StatusCompleted | StatusSimulated | StatusFailed

record deployment =
  dp_ID :: uuid
  dp_OrgID :: uuid
  dp_ChainID :: int
  dp_Stack :: stack
  dp_Status :: status
  dp_CurrentStage :: "string option"
  dp_Config :: jsonv
  dp_ErrorMessage :: "string option"
  dp_UpdatedAt :: nat

record transaction =
  tn_ID :: uuid
  tn_DeploymentID :: uuid
  tn_Stage :: string
  tn_TxHash :: string
  tn_Description :: "string option"

record artifact =
  af_DeploymentID :: uuid
  af_Type :: string
  af_Content :: jsonv

record deploydb =
  dd_now :: nat
  dd_orgs :: "uuid list"
  dd_deployments :: "deployment list"
  dd_transactions :: "transaction list"
  dd_artifacts :: "artifact list"

text \<open>Which statements fail: a statement is named with what tells its occurrences in a call apart.\<close>

datatype deploy_query =
    QCreate | QGet | QStatus status "string option" | QConfig | QSetError | QClearError | QList
  | QRecord | QTransactions | QByHash | QSave string | QArtifact string | QArtifacts | QStale | QMarshal string

type_synonym deploy_faults = "deploy_query \<Rightarrow> bool"

datatype repo_error = ErrNotFound | RepoFailed

text \<open>The values the enumerated columns accept: \<open>simulated\<close> is not among the states.\<close>

definition status_stored :: "status \<Rightarrow> bool" where
  "status_stored st \<longleftrightarrow> st \<noteq> StatusSimulated"

fun stack_stored :: "stack \<Rightarrow> bool" where
  "stack_stored (StackOther _) = False"
| "stack_stored _ = True"

section \<open>Statements\<close>

definition CreateDeployment :: "deploy_faults \<Rightarrow> deployment \<Rightarrow> deploydb \<Rightarrow> repo_error + deploydb" where
  "CreateDeployment f d db =
     (if f QCreate \<or> \<not> status_stored (dp_Status d) \<or> \<not> stack_stored (dp_Stack d) \<or>
         list_ex (\<lambda>e. dp_ID e = dp_ID d \<or> dp_ChainID e = dp_ChainID d) (dd_deployments db) \<or>
         dp_OrgID d \<notin> set (dd_orgs db) then Inl RepoFailed
      else Inr (db\<lparr>dd_deployments := dd_deployments db @ [d\<lparr>dp_UpdatedAt := dd_now db\<rparr>]\<rparr>))"

definition GetDeployment :: "deploy_faults \<Rightarrow> uuid \<Rightarrow> deploydb \<Rightarrow> repo_error + deployment" where
  "GetDeployment f i db =
     (if f QGet then Inl RepoFailed
      else of_option ErrNotFound (find (\<lambda>d. dp_ID d = i) (dd_deployments db)))"

definition GetDeploymentByChainID :: "deploy_faults \<Rightarrow> int \<Rightarrow> deploydb \<Rightarrow> repo_error + deployment" where
  "GetDeploymentByChainID f c db =
     (if f QGet then Inl RepoFailed
      else of_option ErrNotFound (find (\<lambda>d. dp_ChainID d = c) (dd_deployments db)))"

definition GetDeploymentByChainIDAndOrg :: "deploy_faults \<Rightarrow> int \<Rightarrow> uuid \<Rightarrow> deploydb \<Rightarrow> repo_error + deployment" where
  "GetDeploymentByChainIDAndOrg f c orgID db =
     (if f QGet then Inl RepoFailed
      else of_option ErrNotFound (find (\<lambda>d. dp_ChainID d = c \<and> dp_OrgID d = orgID) (dd_deployments db)))"

text \<open>An update by primary key: no such row is an error, and the row gets the time of the update.\<close>

definition update_row :: "bool \<Rightarrow> uuid \<Rightarrow> (deployment \<Rightarrow> deployment) \<Rightarrow> deploydb \<Rightarrow> repo_error + deploydb" where
  "update_row fails i g db =
     (if fails then Inl RepoFailed
      else if \<not> list_ex (\<lambda>d. dp_ID d = i) (dd_deployments db) then Inl ErrNotFound
      else Inr (db\<lparr>dd_deployments :=
        map (\<lambda>d. if dp_ID d = i then (g d)\<lparr>dp_UpdatedAt := dd_now db\<rparr> else d) (dd_deployments db)\<rparr>))"

text \<open>The stage is set with the status, to nothing when no stage is given.\<close>

definition UpdateDeploymentStatus ::
  "deploy_faults \<Rightarrow> uuid \<Rightarrow> status \<Rightarrow> string option \<Rightarrow> deploydb \<Rightarrow> repo_error + deploydb" where
  "UpdateDeploymentStatus f i st stage db =
     update_row (f (QStatus st stage) \<or> \<not> status_stored st) i (\<lambda>d. d\<lparr>dp_Status := st, dp_CurrentStage := stage\<rparr>) db"

definition UpdateDeploymentConfig :: "deploy_faults \<Rightarrow> uuid \<Rightarrow> jsonv \<Rightarrow> deploydb \<Rightarrow> repo_error + deploydb" where
  "UpdateDeploymentConfig f i config db = update_row (f QConfig) i (\<lambda>d. d\<lparr>dp_Config := config\<rparr>) db"

definition SetDeploymentError :: "deploy_faults \<Rightarrow> uuid \<Rightarrow> string \<Rightarrow> deploydb \<Rightarrow> repo_error + deploydb" where
  "SetDeploymentError f i msg db =
     update_row (f QSetError) i (\<lambda>d. d\<lparr>dp_Status := StatusFailed, dp_ErrorMessage := Some msg\<rparr>) db"

definition ClearDeploymentError :: "deploy_faults \<Rightarrow> uuid \<Rightarrow> deploydb \<Rightarrow> repo_error + deploydb" where
  "ClearDeploymentError f i db = update_row (f QClearError) i (\<lambda>d. d\<lparr>dp_ErrorMessage := None\<rparr>) db"

definition list_where :: "deploy_faults \<Rightarrow> (deployment \<Rightarrow> bool) \<Rightarrow> deploydb \<Rightarrow> repo_error + deployment list" where
  "list_where f P db = (if f QList then Inl RepoFailed else Inr (filter P (rev (dd_deployments db))))"

definition ListDeploymentsByStatus :: "deploy_faults \<Rightarrow> status \<Rightarrow> deploydb \<Rightarrow> repo_error + deployment list" where
  "ListDeploymentsByStatus f st db = (if status_stored st then list_where f (\<lambda>d. dp_Status d = st) db else Inl RepoFailed)"

definition ListAllDeployments :: "deploy_faults \<Rightarrow> deploydb \<Rightarrow> repo_error + deployment list" where
  "ListAllDeployments f db = list_where f (\<lambda>_. True) db"

definition ListDeploymentsByOrg :: "deploy_faults \<Rightarrow> uuid \<Rightarrow> deploydb \<Rightarrow> repo_error + deployment list" where
  "ListDeploymentsByOrg f orgID db = list_where f (\<lambda>d. dp_OrgID d = orgID) db"

definition ListDeploymentsByOrgAndStatus :: "deploy_faults \<Rightarrow> uuid \<Rightarrow> status \<Rightarrow> deploydb \<Rightarrow> repo_error + deployment list" where
  "ListDeploymentsByOrgAndStatus f orgID st db =
     (if status_stored st then list_where f (\<lambda>d. dp_OrgID d = orgID \<and> dp_Status d = st) db else Inl RepoFailed)"

definition RecordTransaction :: "deploy_faults \<Rightarrow> transaction \<Rightarrow> deploydb \<Rightarrow> repo_error + deploydb" where
  "RecordTransaction f t db =
     (if f QRecord \<or> list_ex (\<lambda>u. tn_ID u = tn_ID t) (dd_transactions db) \<or>
         \<not> list_ex (\<lambda>d. dp_ID d = tn_DeploymentID t) (dd_deployments db) then Inl RepoFailed
      else Inr (db\<lparr>dd_transactions := dd_transactions db @ [t]\<rparr>))"

definition GetTransactionsByDeployment :: "deploy_faults \<Rightarrow> uuid \<Rightarrow> deploydb \<Rightarrow> repo_error + transaction list" where
  "GetTransactionsByDeployment f i db =
     (if f QTransactions then Inl RepoFailed else Inr (filter (\<lambda>t. tn_DeploymentID t = i) (dd_transactions db)))"

definition GetTransactionByHash :: "deploy_faults \<Rightarrow> string \<Rightarrow> deploydb \<Rightarrow> repo_error + transaction" where
  "GetTransactionByHash f hash db =
     (if f QByHash then Inl RepoFailed
      else of_option ErrNotFound (find (\<lambda>t. tn_TxHash t = hash) (dd_transactions db)))"

definition same_artifact :: "uuid \<Rightarrow> string \<Rightarrow> artifact \<Rightarrow> bool" where
  "same_artifact i ty a \<longleftrightarrow> af_DeploymentID a = i \<and> af_Type a = ty"

text \<open>An artifact of the same deployment and type is overwritten in place.\<close>

definition SaveArtifact :: "deploy_faults \<Rightarrow> artifact \<Rightarrow> deploydb \<Rightarrow> repo_error + deploydb" where
  "SaveArtifact f a db =
     (let old = same_artifact (af_DeploymentID a) (af_Type a)
      in if f (QSave (af_Type a)) \<or> \<not> list_ex (\<lambda>d. dp_ID d = af_DeploymentID a) (dd_deployments db) then Inl RepoFailed
         else Inr (db\<lparr>dd_artifacts :=
           (if list_ex old (dd_artifacts db)
            then map (\<lambda>b. if old b then b\<lparr>af_Content := af_Content a\<rparr> else b) (dd_artifacts db)
            else dd_artifacts db @ [a])\<rparr>))"

definition GetArtifact :: "deploy_faults \<Rightarrow> uuid \<Rightarrow> string \<Rightarrow> deploydb \<Rightarrow> repo_error + artifact" where
  "GetArtifact f i ty db =
     (if f (QArtifact ty) then Inl RepoFailed
      else of_option ErrNotFound (find (same_artifact i ty) (dd_artifacts db)))"

definition GetAllArtifacts :: "deploy_faults \<Rightarrow> uuid \<Rightarrow> deploydb \<Rightarrow> repo_error + artifact list" where
  "GetAllArtifacts f i db =
     (if f QArtifacts then Inl RepoFailed else Inr (filter (\<lambda>a. af_DeploymentID a = i) (dd_artifacts db)))"

definition stale :: "uuid \<Rightarrow> nat \<Rightarrow> deploydb \<Rightarrow> deployment \<Rightarrow> bool" where
  "stale orgID timeout db d \<longleftrightarrow>
     dp_OrgID d = orgID \<and> dp_Status d = StatusRunning \<and> dp_UpdatedAt d + timeout < dd_now db"

definition stale_message :: string where
  "stale_message = ''Deployment timed out - worker may have crashed. Click 'Resume Deployment' to retry.''"

definition MarkStaleDeploymentsFailed :: "deploy_faults \<Rightarrow> uuid \<Rightarrow> nat \<Rightarrow> deploydb \<Rightarrow> repo_error + (deploydb \<times> nat)" where
  "MarkStaleDeploymentsFailed f orgID timeout db =
     (if f QStale then Inl RepoFailed
      else Inr (db\<lparr>dd_deployments := map (\<lambda>d. if stale orgID timeout db d
             then d\<lparr>dp_Status := StatusFailed, dp_ErrorMessage := Some stale_message, dp_UpdatedAt := dd_now db\<rparr> else d)
             (dd_deployments db)\<rparr>,
           length (filter (stale orgID timeout db) (dd_deployments db))))"

section \<open>The state writer of the OP Stack\<close>

text \<open>
  A stage is its string, as in the source. Listeners are told through a callback that changes
  nothing here. The identifier of the deployment is the field of the writer, an argument.
\<close>

definition StageInit :: string where "StageInit = ''init''"
definition StageSuperchain :: string where "StageSuperchain = ''deploy_superchain''"
definition StageImplementations :: string where "StageImplementations = ''deploy_implementations''"
definition StageOPChain :: string where "StageOPChain = ''deploy_opchain''"
definition StageAltDA :: string where "StageAltDA = ''deploy_alt_da''"
definition StageGenesis :: string where "StageGenesis = ''generate_genesis''"
definition StageStartBlock :: string where "StageStartBlock = ''set_start_block''"
definition StageCompleted :: string where "StageCompleted = ''completed''"

lemmas stage_defs = StageInit_def StageSuperchain_def StageImplementations_def StageOPChain_def StageAltDA_def
  StageGenesis_def StageStartBlock_def StageCompleted_def

definition StageOrder :: "string list" where
  "StageOrder = [StageInit, StageSuperchain, StageImplementations, StageOPChain, StageAltDA, StageGenesis,
     StageStartBlock, StageCompleted]"

fun stage_index :: "int \<Rightarrow> string list \<Rightarrow> string \<Rightarrow> int" where
  "stage_index i [] s = - 1"
| "stage_index i (t # ts) s = (if t = s then i else stage_index (i + 1) ts s)"

definition StageIndex :: "string \<Rightarrow> int" where
  "StageIndex s = stage_index 0 StageOrder s"

definition WriteState :: "deploy_faults \<Rightarrow> uuid \<Rightarrow> jsonv \<Rightarrow> deploydb \<Rightarrow> repo_error + deploydb" where
  "WriteState f i st db =
     (if f (QMarshal ''state'') then Inl RepoFailed
      else SaveArtifact f \<lparr>af_DeploymentID = i, af_Type = ''deployment_state'', af_Content = st\<rparr> db)"

definition ReadState :: "deploy_faults \<Rightarrow> uuid \<Rightarrow> deploydb \<Rightarrow> repo_error + jsonv" where
  "ReadState f i db = map_sum id af_Content (GetArtifact f i ''deployment_state'' db)"

definition UpdateStage :: "deploy_faults \<Rightarrow> uuid \<Rightarrow> string \<Rightarrow> deploydb \<Rightarrow> repo_error + deploydb" where
  "UpdateStage f i stage db = UpdateDeploymentStatus f i StatusRunning (Some stage) db"

definition GetCurrentStage :: "deploy_faults \<Rightarrow> uuid \<Rightarrow> deploydb \<Rightarrow> repo_error + string" where
  "GetCurrentStage f i db =
     map_sum id (\<lambda>d. case dp_CurrentStage d of None \<Rightarrow> StageInit | Some s \<Rightarrow> s) (GetDeployment f i db)"

definition writer_RecordTransaction ::
  "deploy_faults \<Rightarrow> uuid \<Rightarrow> uuid \<Rightarrow> string \<Rightarrow> string \<Rightarrow> string \<Rightarrow> deploydb \<Rightarrow> repo_error + deploydb" where
  "writer_RecordTransaction f newID i stage txHash description db =
     RecordTransaction f \<lparr>tn_ID = newID, tn_DeploymentID = i, tn_Stage = stage, tn_TxHash = txHash,
       tn_Description = (if description \<noteq> [] then Some description else None)\<rparr> db"

text \<open>An error counts as not found.\<close>

definition HasTransaction :: "deploy_faults \<Rightarrow> string \<Rightarrow> deploydb \<Rightarrow> bool" where
  "HasTransaction f txHash db = (case GetTransactionByHash f txHash db of Inl _ \<Rightarrow> False | Inr _ \<Rightarrow> True)"

definition GetTransactions :: "deploy_faults \<Rightarrow> uuid \<Rightarrow> deploydb \<Rightarrow> repo_error + transaction list" where
  "GetTransactions f i db = GetTransactionsByDeployment f i db"

definition GetTransactionsByStage :: "deploy_faults \<Rightarrow> uuid \<Rightarrow> string \<Rightarrow> deploydb \<Rightarrow> repo_error + transaction list" where
  "GetTransactionsByStage f i stage db =
     map_sum id (filter (\<lambda>t. tn_Stage t = stage)) (GetTransactionsByDeployment f i db)"

definition MarkComplete :: "deploy_faults \<Rightarrow> uuid \<Rightarrow> deploydb \<Rightarrow> repo_error + deploydb" where
  "MarkComplete f i db = UpdateDeploymentStatus f i StatusCompleted (Some StageCompleted) db"

definition MarkSimulated :: "deploy_faults \<Rightarrow> uuid \<Rightarrow> deploydb \<Rightarrow> repo_error + deploydb" where
  "MarkSimulated f i db = UpdateDeploymentStatus f i StatusSimulated (Some StageCompleted) db"

text \<open>Two statements: the first stays done when the second fails, which is the second component.\<close>

definition MarkFailed :: "deploy_faults \<Rightarrow> uuid \<Rightarrow> string \<Rightarrow> deploydb \<Rightarrow> deploydb \<times> bool" where
  "MarkFailed f i msg db =
     (case SetDeploymentError f i msg db of
        Inl _ \<Rightarrow> (db, False)
      | Inr db1 \<Rightarrow>
          (case UpdateDeploymentStatus f i StatusFailed None db1 of
             Inl _ \<Rightarrow> (db1, False)
           | Inr db2 \<Rightarrow> (db2, True)))"

definition MarkPaused :: "deploy_faults \<Rightarrow> uuid \<Rightarrow> deploydb \<Rightarrow> repo_error + deploydb" where
  "MarkPaused f i db = UpdateDeploymentStatus f i StatusPaused None db"

definition ClearError :: "deploy_faults \<Rightarrow> uuid \<Rightarrow> deploydb \<Rightarrow> repo_error + deploydb" where
  "ClearError f i db = ClearDeploymentError f i db"

definition resumable :: "status \<Rightarrow> bool" where
  "resumable st \<longleftrightarrow> st \<in> {StatusPaused, StatusRunning, StatusFailed}"

definition CanResume :: "deploy_faults \<Rightarrow> uuid \<Rightarrow> deploydb \<Rightarrow> repo_error + bool" where
  "CanResume f i db = map_sum id (\<lambda>d. resumable (dp_Status d)) (GetDeployment f i db)"

definition GetResumePoint :: "deploy_faults \<Rightarrow> uuid \<Rightarrow> deploydb \<Rightarrow> repo_error + (string \<times> jsonv)" where
  "GetResumePoint f i db =
     (case GetCurrentStage f i db of
        Inl e \<Rightarrow> Inl e
      | Inr stage \<Rightarrow> map_sum id (Pair stage) (ReadState f i db))"

definition writer_SaveArtifact :: "deploy_faults \<Rightarrow> uuid \<Rightarrow> string \<Rightarrow> jsonv \<Rightarrow> deploydb \<Rightarrow> repo_error + deploydb" where
  "writer_SaveArtifact f i ty content db =
     SaveArtifact f \<lparr>af_DeploymentID = i, af_Type = ty, af_Content = content\<rparr> db"

definition writer_GetArtifact :: "deploy_faults \<Rightarrow> uuid \<Rightarrow> string \<Rightarrow> deploydb \<Rightarrow> repo_error + jsonv" where
  "writer_GetArtifact f i ty db = map_sum id af_Content (GetArtifact f i ty db)"

definition IsStageComplete :: "deploy_faults \<Rightarrow> uuid \<Rightarrow> string \<Rightarrow> deploydb \<Rightarrow> repo_error + bool" where
  "IsStageComplete f i stage db =
     map_sum id (\<lambda>current. StageIndex current \<noteq> - 1 \<and> StageIndex stage \<noteq> - 1 \<and> StageIndex stage < StageIndex current)
       (GetCurrentStage f i db)"

section \<open>The tables stay well formed\<close>

definition deploys_ok :: "deploydb \<Rightarrow> bool" where
  "deploys_ok db \<longleftrightarrow>
     distinct (map dp_ID (dd_deployments db)) \<and> distinct (map dp_ChainID (dd_deployments db)) \<and>
     distinct (map (\<lambda>a. (af_DeploymentID a, af_Type a)) (dd_artifacts db)) \<and>
     distinct (map tn_ID (dd_transactions db)) \<and>
     (\<forall>d\<in>set (dd_deployments db). status_stored (dp_Status d) \<and> stack_stored (dp_Stack d) \<and> dp_UpdatedAt d \<le> dd_now db) \<and>
     (\<forall>a\<in>set (dd_artifacts db). af_DeploymentID a \<in> dp_ID ` set (dd_deployments db)) \<and>
     (\<forall>t\<in>set (dd_transactions db). tn_DeploymentID t \<in> dp_ID ` set (dd_deployments db))"

definition row_of :: "uuid \<Rightarrow> deploydb \<Rightarrow> deployment option" where
  "row_of i db = find (\<lambda>d. dp_ID d = i) (dd_deployments db)"

definition artifact_of :: "uuid \<Rightarrow> string \<Rightarrow> deploydb \<Rightarrow> jsonv option" where
  "artifact_of i ty db = map_option af_Content (find (same_artifact i ty) (dd_artifacts db))"

lemma map_sum_Inr [simp]: "map_sum g h x = Inr y \<longleftrightarrow> (\<exists>a. x = Inr a \<and> h a = y)"
  by (cases x) auto

lemma find_map_key:
  "(\<And>x. k (g x) = k x) \<Longrightarrow> find (\<lambda>x. k x = i) (map g xs) = map_option g (find (\<lambda>x. k x = i) xs)"
  by (induction xs) auto

text \<open>An update touches one row and nothing else.\<close>

lemma update_row_Inr:
  assumes "update_row b i g db = Inr db'" "\<And>d. dp_ID (g d) = dp_ID d"
  shows "row_of j db' = (if j = i then map_option (\<lambda>d. (g d)\<lparr>dp_UpdatedAt := dd_now db\<rparr>) (row_of i db) else row_of j db)"
    "row_of i db \<noteq> None" "dd_artifacts db' = dd_artifacts db" "dd_now db' = dd_now db"
    "dd_transactions db' = dd_transactions db" "dd_orgs db' = dd_orgs db"
proof -
  have db': "db' = db\<lparr>dd_deployments :=
        map (\<lambda>d. if dp_ID d = i then (g d)\<lparr>dp_UpdatedAt := dd_now db\<rparr> else d) (dd_deployments db)\<rparr>"
    and ex: "list_ex (\<lambda>d. dp_ID d = i) (dd_deployments db)"
    using assms(1) by (auto simp: update_row_def split: if_splits)
  show "row_of j db' = (if j = i then map_option (\<lambda>d. (g d)\<lparr>dp_UpdatedAt := dd_now db\<rparr>) (row_of i db) else row_of j db)"
  proof -
    let ?h = "\<lambda>d. if dp_ID d = i then (g d)\<lparr>dp_UpdatedAt := dd_now db\<rparr> else d"
    have "row_of j db' = map_option ?h (row_of j db)"
      unfolding row_of_def db' by (simp add: find_map_key assms(2))
    moreover have "dp_ID d = j" if "row_of j db = Some d" for d
      using that unfolding row_of_def by (auto simp: find_Some_iff)
    ultimately show ?thesis by (cases "row_of j db") auto
  qed
  show "row_of i db \<noteq> None" using ex by (auto simp: row_of_def find_None_iff list_ex_iff)
qed (use assms(1) in \<open>auto simp: update_row_def split: if_splits\<close>)

lemma row_of_GetDeployment: "GetDeployment f i db = Inr d \<Longrightarrow> row_of i db = Some d"
  by (auto simp: GetDeployment_def row_of_def split: if_splits)

end
