(* ===== verification/OpConfig.thy ===== *)
theory OpConfig
  imports Deployments EthHex
begin

text \<open>
  The configuration of an OP Stack deployment, \<open>bootstrap/opstack/config.go\<close>: decoding, defaults,
  validation and the Celestia namespace, and \<open>weiToETH\<close> of the orchestrator. An unsigned 64-bit
  field is a number that decoding keeps below 2^64; nothing is computed with it.
\<close>

record DeploymentConfig =
  dc_ChainID :: nat
  dc_ChainName :: string
  dc_L1ChainID :: nat
  dc_L1RPC :: string
  dc_POPSignerEndpoint :: string
  dc_POPSignerAPIKey :: string
  dc_DeployerAddress :: string
  dc_BlockTime :: nat
  dc_MaxSequencerDrift :: nat
  dc_SequencerWindowSize :: nat
  dc_GasLimit :: nat
  dc_CelestiaRPC :: string
  dc_CelestiaNamespace :: string
  dc_CelestiaKeyID :: string
  dc_BaseFeeVaultRecipient :: string
  dc_L1FeeVaultRecipient :: string
  dc_SequencerFeeVaultRecipient :: string
  dc_BatcherAddress :: string
  dc_ProposerAddress :: string
  dc_SequencerAddress :: string
  dc_ChallengerAddress :: string
  dc_RequiredFundingWei :: "nat option"
  dc_UseLocalSigning :: bool
  dc_FundDevAccounts :: bool
  dc_ReuseInfrastructure :: bool
  dc_ExistingOPCMAddress :: string
  dc_ExistingSuperchainConfigAddress :: string

section \<open>The namespace\<close>

definition pop_bytes :: bytes where
  "pop_bytes = [112, 111, 112]"

definition generateCelestiaNamespace :: "nat \<Rightarrow> string" where
  "generateCelestiaNamespace chainID =
     (let b = nat_be chainID
      in zero_x @ hex_encode (pop_bytes @ (if length b \<le> 7 then replicate (7 - length b) 0 @ b else take 7 b)))"

section \<open>Validation and defaults\<close>

text \<open>The first missing field.\<close>

definition Validate :: "DeploymentConfig \<Rightarrow> string option" where
  "Validate c =
     (if dc_ChainID c = 0 then Some ''chain_id is required''
      else if dc_ChainName c = [] then Some ''chain_name is required''
      else if dc_L1ChainID c = 0 then Some ''l1_chain_id is required''
      else if dc_L1RPC c = [] then Some ''l1_rpc is required''
      else if \<not> dc_UseLocalSigning c \<and> dc_POPSignerEndpoint c = [] then Some ''popsigner_endpoint is required''
      else if \<not> dc_UseLocalSigning c \<and> dc_POPSignerAPIKey c = [] then Some ''popsigner_api_key is required''
      else if dc_DeployerAddress c = [] then Some ''deployer_address is required''
      else None)"

definition or_number :: "nat \<Rightarrow> nat \<Rightarrow> nat" where
  "or_number d n = (if n = 0 then d else n)"

definition or_text :: "string \<Rightarrow> string \<Rightarrow> string" where
  "or_text d s = (if s = [] then d else s)"

definition ApplyDefaults :: "DeploymentConfig \<Rightarrow> DeploymentConfig" where
  "ApplyDefaults c =
     (let deployer = or_text (dc_DeployerAddress c)
      in c\<lparr>dc_BlockTime := or_number 2 (dc_BlockTime c),
        dc_MaxSequencerDrift := or_number 600 (dc_MaxSequencerDrift c),
        dc_SequencerWindowSize := or_number 3600 (dc_SequencerWindowSize c),
        dc_GasLimit := or_number 30000000 (dc_GasLimit c),
        dc_CelestiaNamespace := or_text (generateCelestiaNamespace (dc_ChainID c)) (dc_CelestiaNamespace c),
        dc_BaseFeeVaultRecipient := deployer (dc_BaseFeeVaultRecipient c),
        dc_L1FeeVaultRecipient := deployer (dc_L1FeeVaultRecipient c),
        dc_SequencerFeeVaultRecipient := deployer (dc_SequencerFeeVaultRecipient c),
        dc_BatcherAddress := deployer (dc_BatcherAddress c),
        dc_ProposerAddress := deployer (dc_ProposerAddress c),
        dc_SequencerAddress := deployer (dc_SequencerAddress c),
        dc_ChallengerAddress := deployer (dc_ChallengerAddress c),
        dc_RequiredFundingWei := (case dc_RequiredFundingWei c of
            Some w \<Rightarrow> Some w
          | None \<Rightarrow> Some (if dc_L1ChainID c = 1 then 5 * 10 ^ 18 else 10 ^ 18))\<rparr>)"

definition IsTestnet :: "DeploymentConfig \<Rightarrow> bool" where
  "IsTestnet c \<longleftrightarrow> dc_L1ChainID c \<noteq> 1"

section \<open>Decoding\<close>

text \<open>A decimal literal without sign in the range of \<open>uint64\<close>.\<close>

fun json_uint64 :: "jsonv \<Rightarrow> nat option" where
  "json_uint64 (JNumber s) =
     (if s \<noteq> [] \<and> list_all is_digit s \<and> dec_val s < 2 ^ 64 then Some (dec_val s) else None)"
| "json_uint64 JNull = Some 0"
| "json_uint64 _ = None"

text \<open>A field of a struct, decoded by its type.\<close>

definition text_field :: "string \<Rightarrow> jsonv \<Rightarrow> string option" where
  "text_field name j = json_text (json_get name j)"

definition number_field :: "string \<Rightarrow> jsonv \<Rightarrow> nat option" where
  "number_field name j = json_uint64 (json_get name j)"

definition flag_field :: "string \<Rightarrow> jsonv \<Rightarrow> bool option" where
  "flag_field name j = json_flag (json_get name j)"

definition decode_config :: "jsonv \<Rightarrow> DeploymentConfig option" where
  "decode_config j =
     (if \<not> is_struct j then None
      else case map_res (\<lambda>name. number_field name j) [''chain_id'', ''l1_chain_id'', ''block_time'', ''max_sequencer_drift'',
          ''sequencer_window_size'', ''gas_limit''] of
        Some [chain, l1, block, drift, window, gas] \<Rightarrow>
          (case map_res (\<lambda>name. text_field name j) [''chain_name'', ''l1_rpc'', ''popsigner_endpoint'', ''popsigner_api_key'',
             ''deployer_address'', ''celestia_rpc'', ''celestia_namespace'', ''celestia_key_id'',
             ''base_fee_vault_recipient'', ''l1_fee_vault_recipient'', ''sequencer_fee_vault_recipient'',
             ''batcher_address'', ''proposer_address'', ''sequencer_address'', ''challenger_address'',
             ''existing_opcm_address'', ''existing_superchain_config_address''] of
           Some [name, rpc, endpoint, key, deployer, crpc, cns, ckey, base, l1fee, seqfee, batcher, proposer, sequencer,
               challenger, opcm, superchain] \<Rightarrow>
             (case map_res (\<lambda>name. flag_field name j) [''use_local_signing'', ''fund_dev_accounts'', ''reuse_infrastructure''] of
              Some [signing, fund, reuse] \<Rightarrow>
                Some \<lparr>dc_ChainID = chain, dc_ChainName = name, dc_L1ChainID = l1, dc_L1RPC = rpc,
                  dc_POPSignerEndpoint = endpoint, dc_POPSignerAPIKey = key, dc_DeployerAddress = deployer,
                  dc_BlockTime = block, dc_MaxSequencerDrift = drift, dc_SequencerWindowSize = window, dc_GasLimit = gas,
                  dc_CelestiaRPC = crpc, dc_CelestiaNamespace = cns, dc_CelestiaKeyID = ckey,
                  dc_BaseFeeVaultRecipient = base, dc_L1FeeVaultRecipient = l1fee, dc_SequencerFeeVaultRecipient = seqfee,
                  dc_BatcherAddress = batcher, dc_ProposerAddress = proposer, dc_SequencerAddress = sequencer,
                  dc_ChallengerAddress = challenger, dc_RequiredFundingWei = None, dc_UseLocalSigning = signing,
                  dc_FundDevAccounts = fund, dc_ReuseInfrastructure = reuse, dc_ExistingOPCMAddress = opcm,
                  dc_ExistingSuperchainConfigAddress = superchain\<rparr>
            | _ \<Rightarrow> None)
         | _ \<Rightarrow> None)
      | _ \<Rightarrow> None)"

definition ParseConfig :: "jsonv \<Rightarrow> string + DeploymentConfig" where
  "ParseConfig raw =
     (case decode_config raw of
        None \<Rightarrow> Inl ''parse config''
      | Some c \<Rightarrow>
          (let c' = ApplyDefaults c
           in case Validate c' of Some e \<Rightarrow> Inl e | None \<Rightarrow> Inr c'))"

section \<open>Encoding\<close>

definition text_out :: "string \<Rightarrow> string \<Rightarrow> (string \<times> jsonv) list" where
  "text_out name s = [(name, JString s)]"

definition text_opt :: "string \<Rightarrow> string \<Rightarrow> (string \<times> jsonv) list" where
  "text_opt name s = (if s = [] then [] else [(name, JString s)])"

definition number_out :: "string \<Rightarrow> nat \<Rightarrow> (string \<times> jsonv) list" where
  "number_out name n = [(name, JNumber (dec_of_nat n))]"

definition flag_opt :: "string \<Rightarrow> bool \<Rightarrow> (string \<times> jsonv) list" where
  "flag_opt name b = (if b then [(name, JBool True)] else [])"

definition config_json :: "DeploymentConfig \<Rightarrow> jsonv" where
  "config_json c = JObject (concat
     [number_out ''chain_id'' (dc_ChainID c), text_out ''chain_name'' (dc_ChainName c),
      number_out ''l1_chain_id'' (dc_L1ChainID c), text_out ''l1_rpc'' (dc_L1RPC c),
      text_out ''popsigner_endpoint'' (dc_POPSignerEndpoint c), text_out ''popsigner_api_key'' (dc_POPSignerAPIKey c),
      text_out ''deployer_address'' (dc_DeployerAddress c), number_out ''block_time'' (dc_BlockTime c),
      number_out ''max_sequencer_drift'' (dc_MaxSequencerDrift c),
      number_out ''sequencer_window_size'' (dc_SequencerWindowSize c), number_out ''gas_limit'' (dc_GasLimit c),
      text_opt ''celestia_rpc'' (dc_CelestiaRPC c), text_opt ''celestia_namespace'' (dc_CelestiaNamespace c),
      text_opt ''celestia_key_id'' (dc_CelestiaKeyID c), text_opt ''base_fee_vault_recipient'' (dc_BaseFeeVaultRecipient c),
      text_opt ''l1_fee_vault_recipient'' (dc_L1FeeVaultRecipient c),
      text_opt ''sequencer_fee_vault_recipient'' (dc_SequencerFeeVaultRecipient c),
      text_opt ''batcher_address'' (dc_BatcherAddress c), text_opt ''proposer_address'' (dc_ProposerAddress c),
      text_opt ''sequencer_address'' (dc_SequencerAddress c), text_opt ''challenger_address'' (dc_ChallengerAddress c),
      flag_opt ''use_local_signing'' (dc_UseLocalSigning c), flag_opt ''fund_dev_accounts'' (dc_FundDevAccounts c),
      flag_opt ''reuse_infrastructure'' (dc_ReuseInfrastructure c),
      text_opt ''existing_opcm_address'' (dc_ExistingOPCMAddress c),
      text_opt ''existing_superchain_config_address'' (dc_ExistingSuperchainConfigAddress c)])"

section \<open>Amounts\<close>

text \<open>Whole ether, with four decimals rounded down when they are not all zero; a missing amount is 0.\<close>

definition pad4 :: "nat \<Rightarrow> string" where
  "pad4 n = replicate (4 - length (dec_of_nat n)) (CHR ''0'') @ dec_of_nat n"

definition weiToETH :: "nat option \<Rightarrow> string" where
  "weiToETH wei =
     (case wei of
        None \<Rightarrow> ''0''
      | Some w \<Rightarrow>
          (let eth = w div 10 ^ 18; r = w mod 10 ^ 18; decimals = r * 10000 div 10 ^ 18
           in if r = 0 \<or> decimals = 0 then dec_of_nat eth
              else dec_of_nat eth @ ''.'' @ pad4 decimals))"

section \<open>A configuration survives its JSON\<close>

definition or_null :: "jsonv \<Rightarrow> jsonv \<Rightarrow> jsonv" where
  "or_null v w = (if v = JNull then w else v)"

lemma or_null_simps [simp]: "or_null JNull w = w" "or_null v JNull = v"
  by (simp_all add: or_null_def)

lemma last_field_append: "last_field n (xs @ ys) = or_null (last_field n ys) (last_field n xs)"
  by (induction xs rule: last_field.induct) (auto simp: or_null_def)

lemma last_field_out [simp]:
  "last_field n (text_out m s) = (if same_field m n then JString s else JNull)"
  "last_field n (text_opt m s) = (if same_field m n \<and> s \<noteq> [] then JString s else JNull)"
  "last_field n (number_out m k) = (if same_field m n then JNumber (dec_of_nat k) else JNull)"
  "last_field n (flag_opt m b) = (if same_field m n \<and> b then JBool True else JNull)"
  by (simp_all add: text_out_def text_opt_def number_out_def flag_opt_def)

definition config_names :: "string list" where
  "config_names = [''chain_id'', ''l1_chain_id'', ''block_time'', ''max_sequencer_drift'', ''sequencer_window_size'', ''gas_limit'', ''chain_name'', ''l1_rpc'', ''popsigner_endpoint'', ''popsigner_api_key'', ''deployer_address'', ''celestia_rpc'', ''celestia_namespace'', ''celestia_key_id'', ''base_fee_vault_recipient'', ''l1_fee_vault_recipient'', ''sequencer_fee_vault_recipient'', ''batcher_address'', ''proposer_address'', ''sequencer_address'', ''challenger_address'', ''existing_opcm_address'', ''existing_superchain_config_address'', ''use_local_signing'', ''fund_dev_accounts'', ''reuse_infrastructure'']"

lemma fold_config_names: "list_all (\<lambda>n. map fold_char n = n) config_names"
  by code_simp

lemma same_config_name: "m \<in> set config_names \<Longrightarrow> n \<in> set config_names \<Longrightarrow> same_field m n \<longleftrightarrow> m = n"
  using fold_config_names by (simp add: same_field_def list_all_iff)

lemma config_names_of [simp]:
  "''chain_id'' \<in> set config_names"
  "''l1_chain_id'' \<in> set config_names"
  "''block_time'' \<in> set config_names"
  "''max_sequencer_drift'' \<in> set config_names"
  "''sequencer_window_size'' \<in> set config_names"
  "''gas_limit'' \<in> set config_names"
  "''chain_name'' \<in> set config_names"
  "''l1_rpc'' \<in> set config_names"
  "''popsigner_endpoint'' \<in> set config_names"
  "''popsigner_api_key'' \<in> set config_names"
  "''deployer_address'' \<in> set config_names"
  "''celestia_rpc'' \<in> set config_names"
  "''celestia_namespace'' \<in> set config_names"
  "''celestia_key_id'' \<in> set config_names"
  "''base_fee_vault_recipient'' \<in> set config_names"
  "''l1_fee_vault_recipient'' \<in> set config_names"
  "''sequencer_fee_vault_recipient'' \<in> set config_names"
  "''batcher_address'' \<in> set config_names"
  "''proposer_address'' \<in> set config_names"
  "''sequencer_address'' \<in> set config_names"
  "''challenger_address'' \<in> set config_names"
  "''existing_opcm_address'' \<in> set config_names"
  "''existing_superchain_config_address'' \<in> set config_names"
  "''use_local_signing'' \<in> set config_names"
  "''fund_dev_accounts'' \<in> set config_names"
  "''reuse_infrastructure'' \<in> set config_names"
  by (simp_all add: config_names_def)

lemma number_of_json: "n < 18446744073709551616 \<Longrightarrow> json_uint64 (JNumber (dec_of_nat n)) = Some n"
proof -
  have "dec_of_nat n \<noteq> []" by (subst dec_of_nat.simps) simp
  then show "json_uint64 (JNumber (dec_of_nat n)) = Some n" if "n < 18446744073709551616"
    using that dec_of_nat_digits by (auto simp: list_all_iff)
qed

lemma config_fields:
  fixes c defines "j \<equiv> config_json c"
  shows
    "json_get ''chain_id'' j = JNumber (dec_of_nat (dc_ChainID c))"
    "json_get ''l1_chain_id'' j = JNumber (dec_of_nat (dc_L1ChainID c))"
    "json_get ''block_time'' j = JNumber (dec_of_nat (dc_BlockTime c))"
    "json_get ''max_sequencer_drift'' j = JNumber (dec_of_nat (dc_MaxSequencerDrift c))"
    "json_get ''sequencer_window_size'' j = JNumber (dec_of_nat (dc_SequencerWindowSize c))"
    "json_get ''gas_limit'' j = JNumber (dec_of_nat (dc_GasLimit c))"
    "json_get ''chain_name'' j = JString (dc_ChainName c)"
    "json_get ''l1_rpc'' j = JString (dc_L1RPC c)"
    "json_get ''popsigner_endpoint'' j = JString (dc_POPSignerEndpoint c)"
    "json_get ''popsigner_api_key'' j = JString (dc_POPSignerAPIKey c)"
    "json_get ''deployer_address'' j = JString (dc_DeployerAddress c)"
    "json_get ''celestia_rpc'' j = (if dc_CelestiaRPC c = [] then JNull else JString (dc_CelestiaRPC c))"
    "json_get ''celestia_namespace'' j = (if dc_CelestiaNamespace c = [] then JNull else JString (dc_CelestiaNamespace c))"
    "json_get ''celestia_key_id'' j = (if dc_CelestiaKeyID c = [] then JNull else JString (dc_CelestiaKeyID c))"
    "json_get ''base_fee_vault_recipient'' j = (if dc_BaseFeeVaultRecipient c = [] then JNull else JString (dc_BaseFeeVaultRecipient c))"
    "json_get ''l1_fee_vault_recipient'' j = (if dc_L1FeeVaultRecipient c = [] then JNull else JString (dc_L1FeeVaultRecipient c))"
    "json_get ''sequencer_fee_vault_recipient'' j = (if dc_SequencerFeeVaultRecipient c = [] then JNull else JString (dc_SequencerFeeVaultRecipient c))"
    "json_get ''batcher_address'' j = (if dc_BatcherAddress c = [] then JNull else JString (dc_BatcherAddress c))"
    "json_get ''proposer_address'' j = (if dc_ProposerAddress c = [] then JNull else JString (dc_ProposerAddress c))"
    "json_get ''sequencer_address'' j = (if dc_SequencerAddress c = [] then JNull else JString (dc_SequencerAddress c))"
    "json_get ''challenger_address'' j = (if dc_ChallengerAddress c = [] then JNull else JString (dc_ChallengerAddress c))"
    "json_get ''existing_opcm_address'' j = (if dc_ExistingOPCMAddress c = [] then JNull else JString (dc_ExistingOPCMAddress c))"
    "json_get ''existing_superchain_config_address'' j = (if dc_ExistingSuperchainConfigAddress c = [] then JNull else JString (dc_ExistingSuperchainConfigAddress c))"
    "json_get ''use_local_signing'' j = (if dc_UseLocalSigning c then JBool True else JNull)"
    "json_get ''fund_dev_accounts'' j = (if dc_FundDevAccounts c then JBool True else JNull)"
    "json_get ''reuse_infrastructure'' j = (if dc_ReuseInfrastructure c then JBool True else JNull)"
  unfolding j_def config_json_def json_get_def
  by (simp_all add: last_field_append same_config_name)

lemma decode_numbers:
  assumes "decode_config j = Some c"
  shows "map_res (\<lambda>name. number_field name j) [''chain_id'', ''l1_chain_id'', ''block_time'', ''max_sequencer_drift'',
      ''sequencer_window_size'', ''gas_limit''] =
    Some [dc_ChainID c, dc_L1ChainID c, dc_BlockTime c, dc_MaxSequencerDrift c, dc_SequencerWindowSize c, dc_GasLimit c]"
  using assms unfolding decode_config_def
  by (auto simp del: map_res.simps split: if_split_asm option.split_asm list.split_asm)

lemma decode_funding: "decode_config j = Some c \<Longrightarrow> dc_RequiredFundingWei c = None"
  unfolding decode_config_def
  by (auto simp del: map_res.simps split: if_split_asm option.split_asm list.split_asm)

lemma json_uint64_less: "json_uint64 v = Some n \<Longrightarrow> n < 2 ^ 64"
  by (cases v) (auto split: if_splits)

definition numbers_fit :: "DeploymentConfig \<Rightarrow> bool" where
  "numbers_fit c \<longleftrightarrow> list_all (\<lambda>n. n < 2 ^ 64)
     [dc_ChainID c, dc_L1ChainID c, dc_BlockTime c, dc_MaxSequencerDrift c, dc_SequencerWindowSize c, dc_GasLimit c]"

lemma decode_numbers_fit:
  assumes "decode_config j = Some c"
  shows "numbers_fit c"
proof -
  have "list_all (\<lambda>n. n < 2 ^ 64) ns" if "map_res (\<lambda>name. number_field name j) names = Some ns" for names ns
    using that by (induction names arbitrary: ns) (auto simp: number_field_def split: option.splits dest!: json_uint64_less)
  from this [OF decode_numbers [OF assms]] show ?thesis by (simp only: numbers_fit_def)
qed

lemma decode_config_json:
  assumes "numbers_fit c"
  shows "decode_config (config_json c) = Some (c\<lparr>dc_RequiredFundingWei := None\<rparr>)"
proof -
  have t: "json_text (if s = [] then JNull else JString s) = Some s" for s by simp
  have b: "json_flag (if x then JBool True else JNull) = Some x" for x by simp
  have s: "is_struct (config_json c)" by (simp add: config_json_def)
  show ?thesis
    using assms by (simp add: decode_config_def s number_field_def text_field_def flag_field_def config_fields t b numbers_fit_def
        number_of_json del: json_uint64.simps)
qed

lemma defaults_fit: "numbers_fit c \<Longrightarrow> numbers_fit (ApplyDefaults c)"
  by (auto simp: numbers_fit_def ApplyDefaults_def or_number_def Let_def)

lemma ApplyDefaults_again:
  "dc_RequiredFundingWei c = None \<Longrightarrow> ApplyDefaults ((ApplyDefaults c)\<lparr>dc_RequiredFundingWei := None\<rparr>) = ApplyDefaults c"
  by (simp add: ApplyDefaults_def or_number_def or_text_def Let_def)

text \<open>A configuration that parses is written as JSON that parses to the same configuration.\<close>

lemma config_roundtrip:
  assumes "ParseConfig raw = Inr c"
  shows "ParseConfig (config_json c) = Inr c"
proof -
  obtain c0 where c0: "decode_config raw = Some c0" "c = ApplyDefaults c0" "Validate c = None"
    using assms by (auto simp: ParseConfig_def Let_def split: option.splits)
  have "decode_config (config_json c) = Some (c\<lparr>dc_RequiredFundingWei := None\<rparr>)"
    using decode_config_json [OF defaults_fit [OF decode_numbers_fit [OF c0(1)]]] c0(2) by simp
  moreover have "ApplyDefaults (c\<lparr>dc_RequiredFundingWei := None\<rparr>) = c"
    using ApplyDefaults_again [OF decode_funding [OF c0(1)]] c0(2) by simp
  ultimately show ?thesis using c0(3) by (simp add: ParseConfig_def)
qed

definition config_complete :: "DeploymentConfig \<Rightarrow> bool" where
  "config_complete c \<longleftrightarrow> numbers_fit c \<and>
     list_all (\<lambda>n. 0 < n) [dc_ChainID c, dc_L1ChainID c, dc_BlockTime c, dc_MaxSequencerDrift c, dc_SequencerWindowSize c, dc_GasLimit c] \<and>
     list_all (\<lambda>s. s \<noteq> []) [dc_ChainName c, dc_L1RPC c, dc_DeployerAddress c, dc_CelestiaNamespace c, dc_BaseFeeVaultRecipient c,
       dc_L1FeeVaultRecipient c, dc_SequencerFeeVaultRecipient c, dc_BatcherAddress c, dc_ProposerAddress c,
       dc_SequencerAddress c, dc_ChallengerAddress c] \<and>
     (dc_UseLocalSigning c \<or> dc_POPSignerEndpoint c \<noteq> [] \<and> dc_POPSignerAPIKey c \<noteq> []) \<and>
     (\<exists>w. dc_RequiredFundingWei c = Some w \<and> 10 ^ 18 \<le> w)"


definition sample_config :: DeploymentConfig where
  "sample_config = ApplyDefaults \<lparr>dc_ChainID = 42069, dc_ChainName = ''pop'', dc_L1ChainID = 11155111, dc_L1RPC = ''http://l1'',
     dc_POPSignerEndpoint = [], dc_POPSignerAPIKey = [], dc_DeployerAddress = ''0xd'', dc_BlockTime = 0, dc_MaxSequencerDrift = 0,
     dc_SequencerWindowSize = 0, dc_GasLimit = 0, dc_CelestiaRPC = [], dc_CelestiaNamespace = [], dc_CelestiaKeyID = [],
     dc_BaseFeeVaultRecipient = [], dc_L1FeeVaultRecipient = [], dc_SequencerFeeVaultRecipient = [], dc_BatcherAddress = [],
     dc_ProposerAddress = [], dc_SequencerAddress = [], dc_ChallengerAddress = [], dc_RequiredFundingWei = None,
     dc_UseLocalSigning = True, dc_FundDevAccounts = False, dc_ReuseInfrastructure = False, dc_ExistingOPCMAddress = [],
     dc_ExistingSuperchainConfigAddress = []\<rparr>"

lemma sample_parses: "ParseConfig (config_json sample_config) = Inr sample_config"
proof -
  have "numbers_fit sample_config" unfolding sample_config_def by (rule defaults_fit) (simp add: numbers_fit_def)
  from decode_config_json [OF this]
  have "decode_config (config_json sample_config) = Some (sample_config\<lparr>dc_RequiredFundingWei := None\<rparr>)" .
  moreover have "ApplyDefaults (sample_config\<lparr>dc_RequiredFundingWei := None\<rparr>) = sample_config"
    unfolding sample_config_def by (rule ApplyDefaults_again) simp
  moreover have "Validate sample_config = None"
    by (simp add: sample_config_def Validate_def ApplyDefaults_def or_text_def Let_def)
  ultimately show ?thesis by (simp add: ParseConfig_def)
qed

lemma config_roundtrip_witness: "ParseConfig (config_json sample_config) = Inr sample_config"
  by (rule config_roundtrip [OF sample_parses])


section \<open>Namespaces\<close>

text \<open>Chains have different namespaces as long as their identifiers stay below 2^56.\<close>

lemma namespaces_differ:
  assumes "m < 2 ^ 56" "n < 2 ^ 56" "generateCelestiaNamespace m = generateCelestiaNamespace n"
  shows "m = n"
proof -
  have l: "length (nat_be m) \<le> 7" "length (nat_be n) \<le> 7" using assms(1,2) nat_be_length_le [of _ 7] by simp_all
  have "replicate (7 - length (nat_be m)) 0 @ nat_be m = replicate (7 - length (nat_be n)) 0 @ nat_be n"
    using assms(3) l by (simp add: generateCelestiaNamespace_def hex_encode_inject Let_def)
  from arg_cong [OF this, of be_nat] show ?thesis by (simp add: be_nat_append)
qed

text \<open>Above that the last byte is cut off.\<close>

lemma namespaces_collide: "generateCelestiaNamespace (2 ^ 56) = generateCelestiaNamespace (2 ^ 56 + 1)"
  by (simp add: generateCelestiaNamespace_def nat_be_pos)

end
