(* ===== verification/OpStack.thy ===== *)
theory OpStack
  imports OpConfig
begin

text \<open>
  The OP Stack orchestrator, \<open>bootstrap/opstack/orchestrator.go\<close>, and the extraction of the bundle
  artifacts, \<open>artifact_extractor.go\<close>, \<open>rollup_builder.go\<close>, \<open>address_extractor.go\<close>. What runs outside is the
  parameter \<open>op_world\<close>: the connections to L1, the op-deployer pipeline with the stages it reports,
  its generation of genesis and rollup (which may panic), the templates of the bundle, random
  bytes and \<open>encoding/json\<close> between texts and values. Progress callbacks and logging change nothing.
\<close>

section \<open>What runs outside\<close>

record l1client =
  l1_ChainID :: "nat option"
  l1_BalanceAt :: "string \<Rightarrow> nat option"    \<comment> \<open>of the address a string denotes\<close>
  l1_Header :: "jsonv option"               \<comment> \<open>a reference to the newest block\<close>

record chain_state =
  cs_ID :: string
  cs_StartBlock :: "jsonv option"
  cs_Contracts :: "(string \<times> jsonv) list"

record op_state =
  os_Chains :: "chain_state list"
  os_Rest :: "(string \<times> jsonv) list"

record DeployResult =
  dr_State :: "op_state option"
  dr_SuperchainContracts :: "jsonv option"
  dr_ImplementationsContracts :: "jsonv option"
  dr_ChainStates :: "chain_state list"

record ContractAddresses =
  ca_SuperchainConfig :: string
  ca_ProtocolVersions :: string
  ca_OptimismPortalProxy :: string
  ca_L1CrossDomainMessengerProxy :: string
  ca_L1StandardBridgeProxy :: string
  ca_L1ERC721BridgeProxy :: string
  ca_SystemConfigProxy :: string
  ca_DisputeGameFactoryProxy :: string
  ca_AnchorStateRegistryProxy :: string
  ca_DelayedWETHProxy :: string
  ca_OptimismMintableERC20Factory :: string
  ca_AddressManager :: string
  ca_BatchInbox :: string

record op_world =
  ow_Dial :: "nat \<Rightarrow> l1client option"                      \<comment> \<open>the connections of a call, in order\<close>
  ow_Deploy :: "DeploymentConfig \<Rightarrow> string list \<times> (string + DeployResult)"
  ow_GenesisAndRollup :: "op_state \<Rightarrow> string \<Rightarrow> (string + jsonv option \<times> jsonv option) option"  \<comment> \<open>\<open>None\<close> is a panic\<close>
  ow_Time :: string
  ow_Random :: "bytes option"
  ow_Compose :: "DeploymentConfig \<Rightarrow> string option"
  ow_Env :: "DeploymentConfig \<Rightarrow> ContractAddresses \<Rightarrow> string"
  ow_AltDA :: "DeploymentConfig \<Rightarrow> string option"
  ow_Readme :: "string \<Rightarrow> string"
  ow_Parse :: "string \<Rightarrow> jsonv option"                     \<comment> \<open>valid JSON and its value\<close>
  ow_Render :: "jsonv \<Rightarrow> string"                           \<comment> \<open>the text the database returns\<close>

definition chain_json :: "chain_state \<Rightarrow> jsonv" where
  "chain_json c = JObject ([(''id'', JString (cs_ID c))] @
     (case cs_StartBlock c of None \<Rightarrow> [] | Some b \<Rightarrow> [(''startBlock'', b)]) @ cs_Contracts c)"

definition state_json :: "op_state option \<Rightarrow> jsonv" where
  "state_json s =
     (case s of None \<Rightarrow> JNull
      | Some s \<Rightarrow> JObject (os_Rest s @ [(''opChainDeployments'', JArray (map chain_json (os_Chains s)))]))"

section \<open>The funds of the deployer\<close>

definition checkDeployerBalance :: "op_world \<Rightarrow> DeploymentConfig \<Rightarrow> string option" where
  "checkDeployerBalance w cfg =
     (case ow_Dial w 0 of
        None \<Rightarrow> Some ''connect to L1''
      | Some l1 \<Rightarrow>
          (case l1_ChainID l1 of
             None \<Rightarrow> Some ''get L1 chain ID''
           | Some actual \<Rightarrow>
               if actual \<noteq> dc_L1ChainID cfg then Some ''L1 chain ID mismatch''
               else (case l1_BalanceAt l1 (dc_DeployerAddress cfg) of
                  None \<Rightarrow> Some ''get deployer balance''
                | Some balance \<Rightarrow>
                    (case dc_RequiredFundingWei (ApplyDefaults cfg) of
                       Some required \<Rightarrow>
                         if balance < required
                         then Some (''insufficient deployer balance: have '' @ weiToETH (Some balance) @ '' ETH, need '' @
                           weiToETH (Some required) @ '' ETH'')
                         else None
                     | None \<Rightarrow> None))))"

section \<open>The artifacts of the bundle\<close>

text \<open>
  \<open>GetArtifact\<close> answers with an artifact or an error, never with neither, and stored content is a
  JSON value, never empty: of each of these functions the first case decides, and the older names
  the source falls back to are not reached.
\<close>

definition extractGenesis :: "deploy_faults \<Rightarrow> uuid \<Rightarrow> deploydb \<Rightarrow> repo_error + jsonv" where
  "extractGenesis f i db = map_sum id af_Content (GetArtifact f i ''genesis.json'' db)"

definition extractRollupConfig :: "deploy_faults \<Rightarrow> uuid \<Rightarrow> deploydb \<Rightarrow> repo_error + jsonv" where
  "extractRollupConfig f i db = map_sum id af_Content (GetArtifact f i ''rollup.json'' db)"

text \<open>A key of a decoded object: the last occurrence counts.\<close>

definition object_key :: "jsonv \<Rightarrow> string \<Rightarrow> jsonv" where
  "object_key j key = (case j of JObject kvs \<Rightarrow> (case map_of (rev kvs) key of Some v \<Rightarrow> v | None \<Rightarrow> JNull) | _ \<Rightarrow> JNull)"

definition getAddressFromState :: "jsonv \<Rightarrow> string \<Rightarrow> string" where
  "getAddressFromState st key = (case object_key st key of JString s \<Rightarrow> s | _ \<Rightarrow> [])"

fun is_object :: "jsonv \<Rightarrow> bool" where
  "is_object (JObject _) = True"
| "is_object _ = False"

text \<open>\<open>%08x\<close> of the chain ID as \<open>uint64\<close>.\<close>

definition calculateBatchInboxAddress :: "u64 \<Rightarrow> string" where
  "calculateBatchInboxAddress chainID =
     (let h = hex_of_nat (unat chainID)
      in ''0xff00000000000000000000000000000000'' @ replicate (8 - length h) (CHR ''0'') @ h)"

definition extractContractAddresses :: "deploy_faults \<Rightarrow> uuid \<Rightarrow> deploydb \<Rightarrow> repo_error + ContractAddresses" where
  "extractContractAddresses f i db =
     (case GetArtifact f i ''deployment_state'' db of
        Inl e \<Rightarrow> Inl e
      | Inr a \<Rightarrow>
          (let st = af_Content a
           in if \<not> is_struct st then Inl RepoFailed
              else let chain = (if is_object (object_key st ''chain_state'') then object_key st ''chain_state'' else st);
                       addr = getAddressFromState chain;
                       super = object_key st ''superchain_deployment''
                   in Inr \<lparr>ca_SuperchainConfig = getAddressFromState super ''SuperchainConfigProxy'',
                        ca_ProtocolVersions = getAddressFromState super ''ProtocolVersionsProxy'',
                        ca_OptimismPortalProxy = addr ''OptimismPortalProxy'',
                        ca_L1CrossDomainMessengerProxy = addr ''L1CrossDomainMessengerProxy'',
                        ca_L1StandardBridgeProxy = addr ''L1StandardBridgeProxy'',
                        ca_L1ERC721BridgeProxy = addr ''L1Erc721BridgeProxy'',
                        ca_SystemConfigProxy = addr ''SystemConfigProxy'',
                        ca_DisputeGameFactoryProxy = addr ''DisputeGameFactoryProxy'',
                        ca_AnchorStateRegistryProxy = addr ''AnchorStateRegistryProxy'',
                        ca_DelayedWETHProxy = addr ''DelayedWethPermissionedGameProxy'',
                        ca_OptimismMintableERC20Factory = addr ''OptimismMintableErc20FactoryProxy'',
                        ca_AddressManager = addr ''AddressManagerImpl'',
                        ca_BatchInbox = (case GetDeployment f i db of
                            Inr d \<Rightarrow> calculateBatchInboxAddress (word_of_int (dp_ChainID d)) | Inl _ \<Rightarrow> [])\<rparr>))"

definition addresses_json :: "ContractAddresses \<Rightarrow> jsonv" where
  "addresses_json a = JObject (concat
     [text_opt ''superchain_config'' (ca_SuperchainConfig a), text_opt ''protocol_versions'' (ca_ProtocolVersions a),
      text_out ''optimism_portal_proxy'' (ca_OptimismPortalProxy a),
      text_out ''l1_cross_domain_messenger_proxy'' (ca_L1CrossDomainMessengerProxy a),
      text_out ''l1_standard_bridge_proxy'' (ca_L1StandardBridgeProxy a),
      text_opt ''l1_erc721_bridge_proxy'' (ca_L1ERC721BridgeProxy a), text_out ''system_config_proxy'' (ca_SystemConfigProxy a),
      text_opt ''dispute_game_factory_proxy'' (ca_DisputeGameFactoryProxy a),
      text_opt ''anchor_state_registry_proxy'' (ca_AnchorStateRegistryProxy a),
      text_opt ''delayed_weth_proxy'' (ca_DelayedWETHProxy a),
      text_opt ''optimism_mintable_erc20_factory'' (ca_OptimismMintableERC20Factory a),
      text_opt ''address_manager'' (ca_AddressManager a), text_out ''batch_inbox'' (ca_BatchInbox a)])"

definition generateJWTSecret :: "bytes option \<Rightarrow> string" where
  "generateJWTSecret random =
     (case random of
        None \<Rightarrow> ''0xdeadbeefdeadbeefdeadbeefdeadbeefdeadbeefdeadbeefdeadbeefdeadbeef''
      | Some secret \<Rightarrow> zero_x @ hex_encode secret)"

text \<open>A text that is no JSON is wrapped as base64; the texts of the bundle are ASCII or UTF-8 bytes, one character each.\<close>

definition wrap_text :: "(string \<Rightarrow> jsonv option) \<Rightarrow> string \<Rightarrow> jsonv" where
  "wrap_text parse content =
     (case parse content of
        Some j \<Rightarrow> j
      | None \<Rightarrow> JObject [(''_type'', JString ''base64''), (''data'', JString (b64_encode (bytes_of_ascii content)))])"

definition saveArtifact :: "deploy_faults \<Rightarrow> uuid \<Rightarrow> string \<Rightarrow> jsonv \<Rightarrow> deploydb \<Rightarrow> repo_error + deploydb" where
  "saveArtifact f i name content db = SaveArtifact f \<lparr>af_DeploymentID = i, af_Type = name, af_Content = content\<rparr> db"

definition opt_file :: "op_world \<Rightarrow> string \<Rightarrow> string \<Rightarrow> (string \<times> jsonv) list" where
  "opt_file w name content = (if content = [] then [] else [(name, wrap_text (ow_Parse w) content)])"

text \<open>The artifacts in the order they are saved; the first failure ends it.\<close>

fun save_all :: "deploy_faults \<Rightarrow> uuid \<Rightarrow> (string \<times> jsonv) list \<Rightarrow> deploydb \<Rightarrow> deploydb \<times> bool" where
  "save_all f i [] db = (db, True)"
| "save_all f i ((name, content) # rest) db =
     (case saveArtifact f i name content db of
        Inl _ \<Rightarrow> (db, False)
      | Inr db' \<Rightarrow> save_all f i rest db')"

definition ExtractArtifacts :: "op_world \<Rightarrow> deploy_faults \<Rightarrow> uuid \<Rightarrow> DeploymentConfig \<Rightarrow> deploydb \<Rightarrow> deploydb \<times> bool" where
  "ExtractArtifacts w f i cfg db =
     (case extractGenesis f i db of
        Inl _ \<Rightarrow> (db, False)
      | Inr genesis \<Rightarrow>
          (case extractRollupConfig f i db of
             Inl _ \<Rightarrow> (db, False)
           | Inr rollup \<Rightarrow>
               (case extractContractAddresses f i db of
                  Inl _ \<Rightarrow> (db, False)
                | Inr addrs \<Rightarrow>
                    (case (ow_Compose w cfg, ow_AltDA w cfg) of
                       (Some compose, Some altda) \<Rightarrow>
                         save_all f i ([(''genesis.json'', genesis), (''rollup.json'', rollup),
                           (''addresses.json'', addresses_json addrs), (''deploy-config.json'', config_json cfg)] @
                           opt_file w ''docker-compose.yml'' compose @ opt_file w ''.env.example'' (ow_Env w cfg addrs) @
                           opt_file w ''jwt.txt'' (generateJWTSecret (ow_Random w)) @ opt_file w ''config.toml'' altda @
                           opt_file w ''README.md'' (ow_Readme w (dc_ChainName cfg))) db
                     | _ \<Rightarrow> (db, False)))))"

section \<open>The pipeline\<close>

text \<open>The stages the deployer reports, by their names in the database.\<close>

definition orchestrator_stage :: "string \<Rightarrow> string" where
  "orchestrator_stage stage =
     (if stage = ''init'' then StageInit else if stage = ''deploy-superchain'' then StageSuperchain
      else if stage = ''deploy-implementations'' then StageImplementations else if stage = ''deploy-opchain'' then StageOPChain
      else if stage = ''generate-genesis'' then StageGenesis else if stage = ''completed'' then StageCompleted else stage)"

definition or_same :: "deploydb \<Rightarrow> repo_error + deploydb \<Rightarrow> deploydb" where
  "or_same db r = (case r of Inl _ \<Rightarrow> db | Inr db' \<Rightarrow> db')"

text \<open>A stage that cannot be written is only logged.\<close>

definition report_stages :: "deploy_faults \<Rightarrow> uuid \<Rightarrow> string list \<Rightarrow> deploydb \<Rightarrow> deploydb" where
  "report_stages f i stages db = foldl (\<lambda>db s. or_same db (UpdateStage f i (orchestrator_stage s) db)) db stages"

text \<open>The start block goes into the chain state and the first chain of the state with its identifier.\<close>

fun set_start :: "string \<Rightarrow> jsonv option \<Rightarrow> chain_state list \<Rightarrow> chain_state list" where
  "set_start i b [] = []"
| "set_start i b (c # cs) = (if cs_ID c = i then c\<lparr>cs_StartBlock := b\<rparr> # cs else c # set_start i b cs)"

definition addresses_artifact :: "op_world \<Rightarrow> DeployResult \<Rightarrow> chain_state \<Rightarrow> jsonv" where
  "addresses_artifact w r chain = JObject
     ([(''deployment_complete'', JBool True), (''deployed_at'', JString (ow_Time w))] @
      (case dr_SuperchainContracts r of None \<Rightarrow> [] | Some j \<Rightarrow> [(''superchain_deployment'', j)]) @
      (case dr_ImplementationsContracts r of None \<Rightarrow> [] | Some j \<Rightarrow> [(''implementations_deployment'', j)]) @
      [(''chain_state'', chain_json chain)])"

text \<open>After the contracts are deployed: what has to be saved, then what may fail to be.\<close>

definition save_outputs ::
  "op_world \<Rightarrow> deploy_faults \<Rightarrow> uuid \<Rightarrow> DeploymentConfig \<Rightarrow> DeployResult \<Rightarrow> chain_state \<Rightarrow> jsonv \<Rightarrow> jsonv \<Rightarrow>
     deploydb \<Rightarrow> deploydb \<times> string option" where
  "save_outputs w f i cfg r chain genesis rollup db =
     (if f (QMarshal ''genesis.json'') then (db, Some ''failed to marshal genesis.json'')
      else case saveArtifact f i ''genesis.json'' genesis db of
        Inl _ \<Rightarrow> (db, Some ''failed to save genesis.json artifact'')
      | Inr db1 \<Rightarrow>
          if f (QMarshal ''rollup.json'') then (db1, Some ''failed to marshal rollup.json'')
          else (case saveArtifact f i ''rollup.json'' rollup db1 of
             Inl _ \<Rightarrow> (db1, Some ''failed to save rollup.json artifact'')
           | Inr db2 \<Rightarrow>
               (let db3 = (if f (QMarshal ''addresses'') then db2
                      else or_same db2 (saveArtifact f i ''deployment_state'' (addresses_artifact w r chain) db2))
                in (fst (ExtractArtifacts w f i cfg db3), None))))"

text \<open>The chain the outputs are generated for, with its start block, and the state that has it.\<close>

definition with_start_block :: "l1client \<Rightarrow> op_state \<Rightarrow> chain_state \<Rightarrow> (op_state \<times> chain_state) option" where
  "with_start_block l1 st chain =
     (if cs_StartBlock chain \<noteq> None then Some (st, chain)
      else case l1_Header l1 of
        None \<Rightarrow> None
      | Some b \<Rightarrow> Some (st\<lparr>os_Chains := set_start (cs_ID chain) (Some b) (os_Chains st)\<rparr>, chain\<lparr>cs_StartBlock := Some b\<rparr>))"

definition generate_outputs ::
  "op_world \<Rightarrow> deploy_faults \<Rightarrow> l1client \<Rightarrow> uuid \<Rightarrow> DeploymentConfig \<Rightarrow> DeployResult \<Rightarrow> deploydb \<Rightarrow> deploydb \<times> string option" where
  "generate_outputs w f l1 i cfg r db =
     (case (dr_ChainStates r, dr_State r) of
        (chain0 # _, Some st0) \<Rightarrow>
          (case with_start_block l1 st0 chain0 of
             None \<Rightarrow> (db, Some ''failed to get L1 header for StartBlock'')
           | Some (st, chain) \<Rightarrow>
               (case ow_GenesisAndRollup w st (cs_ID chain) of
                  None \<Rightarrow> (db, Some ''GenesisAndRollup panicked'')
                | Some (Inl e) \<Rightarrow> (db, Some (''failed to generate genesis.json (REQUIRED): '' @ e))
                | Some (Inr (None, _)) \<Rightarrow> (db, Some ''genesis generation returned nil'')
                | Some (Inr (_, None)) \<Rightarrow> (db, Some ''rollup config generation returned nil'')
                | Some (Inr (Some genesis, Some rollup)) \<Rightarrow> save_outputs w f i cfg r chain genesis rollup db))
      | _ \<Rightarrow> (db, Some ''no chain states returned from deployment - cannot generate genesis.json''))"

definition deployWithOPDeployer ::
  "op_world \<Rightarrow> deploy_faults \<Rightarrow> uuid \<Rightarrow> DeploymentConfig \<Rightarrow> deploydb \<Rightarrow> deploydb \<times> string option" where
  "deployWithOPDeployer w f i cfg db =
     (case checkDeployerBalance w cfg of
        Some e \<Rightarrow> (db, Some e)
      | None \<Rightarrow>
          (case ow_Dial w 1 of
             None \<Rightarrow> (db, Some ''connect to L1'')
           | Some l1 \<Rightarrow>
               (let (stages, result) = ow_Deploy w (ApplyDefaults cfg); db1 = report_stages f i stages db
                in case result of
                  Inl e \<Rightarrow> (db1, Some (''op-deployer pipeline failed: '' @ e))
                | Inr r \<Rightarrow>
                    if f (QMarshal ''opdeployer_state'') then (db1, Some ''marshal op-deployer state'')
                    else (case saveArtifact f i ''opdeployer_state'' (state_json (dr_State r)) db1 of
                       Inl _ \<Rightarrow> (db1, Some ''save op-deployer state'')
                     | Inr db2 \<Rightarrow> generate_outputs w f l1 i (ApplyDefaults cfg) r db2))))"

section \<open>The life of a deployment\<close>

text \<open>A failure is written into the row as well as returned; one that cannot be written is logged.\<close>

definition OpDeploy :: "op_world \<Rightarrow> deploy_faults \<Rightarrow> uuid \<Rightarrow> deploydb \<Rightarrow> deploydb \<times> string option" where
  "OpDeploy w f i db =
     (case GetDeployment f i db of
        Inl _ \<Rightarrow> (db, Some ''load deployment'')
      | Inr d \<Rightarrow>
          (case ParseConfig (dp_Config d) of
             Inl e \<Rightarrow> (db, Some (''parse config: '' @ e))
           | Inr cfg \<Rightarrow>
               (case UpdateStage f i StageInit db of
                  Inl _ \<Rightarrow> (db, Some ''update stage'')
                | Inr db1 \<Rightarrow>
                    (case deployWithOPDeployer w f i cfg db1 of
                       (db2, Some e) \<Rightarrow> (fst (MarkFailed f i e db2), Some e)
                     | (db2, None) \<Rightarrow>
                         (case MarkComplete f i db2 of
                            Inl _ \<Rightarrow> (db2, Some ''mark complete'')
                          | Inr db3 \<Rightarrow> (db3, None))))))"

definition Resume :: "op_world \<Rightarrow> deploy_faults \<Rightarrow> uuid \<Rightarrow> deploydb \<Rightarrow> deploydb \<times> string option" where
  "Resume w f i db =
     (case CanResume f i db of
        Inl _ \<Rightarrow> (db, Some ''check resume capability'')
      | Inr False \<Rightarrow> (db, Some ''deployment cannot be resumed (status is not paused, running, or failed)'')
      | Inr True \<Rightarrow> OpDeploy w f i (or_same db (ClearError f i db)))"

definition Pause :: "deploy_faults \<Rightarrow> uuid \<Rightarrow> deploydb \<Rightarrow> repo_error + deploydb" where
  "Pause f i db = MarkPaused f i db"

record DeploymentStatus =
  ds_DeploymentID :: uuid
  ds_Status :: status
  ds_CurrentStage :: string
  ds_TransactionCount :: nat
  ds_Error :: "string option"

definition GetDeploymentStatus :: "deploy_faults \<Rightarrow> uuid \<Rightarrow> deploydb \<Rightarrow> repo_error + DeploymentStatus" where
  "GetDeploymentStatus f i db =
     (case GetDeployment f i db of
        Inl e \<Rightarrow> Inl e
      | Inr d \<Rightarrow>
          map_sum id (\<lambda>txs. \<lparr>ds_DeploymentID = i, ds_Status = dp_Status d,
              ds_CurrentStage = (case GetCurrentStage f i db of Inl _ \<Rightarrow> [] | Inr s \<Rightarrow> s),
              ds_TransactionCount = length txs, ds_Error = dp_ErrorMessage d\<rparr>)
            (GetTransactions f i db))"

section \<open>The bundle\<close>

definition extractor_GetArtifact :: "deploy_faults \<Rightarrow> uuid \<Rightarrow> string \<Rightarrow> deploydb \<Rightarrow> repo_error + jsonv" where
  "extractor_GetArtifact f i ty db = map_sum id af_Content (GetArtifact f i ty db)"

definition ListArtifacts :: "deploy_faults \<Rightarrow> uuid \<Rightarrow> deploydb \<Rightarrow> repo_error + string list" where
  "ListArtifacts f i db = map_sum id (\<lambda>as. filter (\<lambda>ty. ty \<noteq> ''deployment_state'') (map af_Type as)) (GetAllArtifacts f i db)"

text \<open>The escapes of a string whose quotes are the only JSON left of it.\<close>

fun unescape :: "string \<Rightarrow> string" where
  "unescape (c # d # cs) =
     (if c = CHR 0x5C then
        (if d = CHR 0x22 then CHR 0x22 # unescape cs else if d = CHR 0x5C then CHR 0x5C # unescape cs
         else if d = CHR ''t'' then CHR 0x09 # unescape cs else if d = CHR ''r'' then CHR 0x0D # unescape cs
         else if d = CHR ''n'' then CHR 0x0A # unescape cs else c # unescape (d # cs))
      else c # unescape (d # cs))"
| "unescape cs = cs"

definition ascii_of_bytes :: "bytes \<Rightarrow> string" where
  "ascii_of_bytes bs = map (\<lambda>b. char_of (unat b)) bs"

definition base64_payload :: "jsonv \<Rightarrow> string option" where
  "base64_payload j =
     (if \<not> is_struct j then None
      else case (json_text (json_get ''_type'' j), json_text (json_get ''data'' j)) of
        (Some ty, Some data) \<Rightarrow> if ty = ''base64'' then map_option ascii_of_bytes (b64_decode data) else None
      | _ \<Rightarrow> None)"

definition unwrapJSONString :: "(string \<Rightarrow> jsonv option) \<Rightarrow> string \<Rightarrow> string" where
  "unwrapJSONString parse data =
     (case Option.bind (parse data) base64_payload of
        Some text \<Rightarrow> text
      | None \<Rightarrow>
          (case Option.bind (parse data) json_text of
             Some s \<Rightarrow> s
           | None \<Rightarrow>
               if length data \<ge> 2 \<and> hd data = CHR 0x22 \<and> last data = CHR 0x22
               then unescape (butlast (tl data)) else data))"

definition sanitize_char :: "char \<Rightarrow> string" where
  "sanitize_char c =
     (let n = of_char c :: nat
      in if 97 \<le> n \<and> n \<le> 122 \<or> 65 \<le> n \<and> n \<le> 90 \<or> 48 \<le> n \<and> n \<le> 57 \<or> c = CHR ''-'' \<or> c = CHR ''_'' then [c]
         else if c = CHR '' '' then ''-'' else [])"

definition sanitizeChainName :: "string \<Rightarrow> string" where
  "sanitizeChainName name = (let r = concat (map sanitize_char name) in if r = [] then ''opstack'' else r)"

text \<open>Which artifacts go into the archive under their own name, and which of them are plain texts.\<close>

definition bundle_json_files :: "string list" where
  "bundle_json_files = [''genesis.json'', ''rollup.json'', ''addresses.json'', ''deploy-config.json'']"

definition bundle_text_files :: "string list" where
  "bundle_text_files = [''docker-compose.yml'', ''.env.example'', ''jwt.txt'', ''config.toml'', ''README.md'']"

definition bundle_entry :: "op_world \<Rightarrow> string \<Rightarrow> artifact \<Rightarrow> (string \<times> string) list" where
  "bundle_entry w prefix a =
     (if af_Type a \<in> set bundle_json_files then [(prefix @ af_Type a, ow_Render w (af_Content a))]
      else if af_Type a \<in> set bundle_text_files
      then [(prefix @ af_Type a, unwrapJSONString (ow_Parse w) (ow_Render w (af_Content a)))]
      else [])"

text \<open>The files of the archive; writing the archive itself does not fail here.\<close>

definition CreateBundle :: "op_world \<Rightarrow> deploy_faults \<Rightarrow> uuid \<Rightarrow> string \<Rightarrow> deploydb \<Rightarrow> repo_error + (string \<times> string) list" where
  "CreateBundle w f i chainName db =
     (case GetAllArtifacts f i db of
        Inl e \<Rightarrow> Inl e
      | Inr as \<Rightarrow>
          if as = [] then Inl ErrNotFound
          else Inr (concat (map (bundle_entry w (sanitizeChainName chainName @ ''-opstack-bundle/'')) as)))"

section \<open>Texts survive storage\<close>

lemma ascii_of_bytes_of_ascii [simp]: "ascii_of_bytes (bytes_of_ascii s) = s"
  by (simp add: ascii_of_bytes_def bytes_of_ascii_def comp_def char_of_ascii_byte)

text \<open>Reading back what the database returns for a value gives the value.\<close>

definition reads_back :: "op_world \<Rightarrow> jsonv \<Rightarrow> bool" where
  "reads_back w j \<longleftrightarrow> ow_Parse w (ow_Render w j) = Some j"

text \<open>A text that is no JSON reaches the bundle as it was saved, whatever characters it has.\<close>

lemma bundle_text_roundtrip:
  assumes "reads_back w (wrap_text (ow_Parse w) text)" "ow_Parse w text = None"
  shows "unwrapJSONString (ow_Parse w) (ow_Render w (wrap_text (ow_Parse w) text)) = text"
proof -
  have "same_field ''data'' ''data''" "same_field ''_type'' ''_type''" "\<not> same_field ''_type'' ''data''" "\<not> same_field ''data'' ''_type''"
    by code_simp+
  then have "base64_payload (wrap_text (ow_Parse w) text) = Some text"
    using assms(2) by (simp add: wrap_text_def base64_payload_def json_get_def)
  then show ?thesis using assms(1) by (simp add: unwrapJSONString_def reads_back_def)
qed

section \<open>What a call touches\<close>

text \<open>
  Artifacts stay once they are there, other rows stay as they are, and the row of the deployment keeps
  its identity and does not become completed.
\<close>

definition same_identity :: "deployment \<Rightarrow> deployment \<Rightarrow> bool" where
  "same_identity d d' \<longleftrightarrow> dp_ID d' = dp_ID d \<and> dp_OrgID d' = dp_OrgID d \<and> dp_ChainID d' = dp_ChainID d \<and>
     dp_Stack d' = dp_Stack d"

definition works_on :: "uuid \<Rightarrow> deploydb \<Rightarrow> deploydb \<Rightarrow> bool" where
  "works_on i db db' \<longleftrightarrow>
     (\<forall>j ty. artifact_of j ty db \<noteq> None \<longrightarrow> artifact_of j ty db' \<noteq> None) \<and>
     (\<forall>j. j \<noteq> i \<longrightarrow> row_of j db' = row_of j db) \<and>
     (row_of i db = None \<longrightarrow> row_of i db' = None) \<and>
     (\<forall>d. row_of i db = Some d \<longrightarrow> (\<exists>d'. row_of i db' = Some d' \<and> same_identity d d' \<and>
        (dp_Status d' = StatusCompleted \<longrightarrow> dp_Status d = StatusCompleted)))"

lemma works_on_refl [simp]: "works_on i db db"
  by (simp add: works_on_def same_identity_def)

lemma works_on_trans: "works_on i a b \<Longrightarrow> works_on i b c \<Longrightarrow> works_on i a c"
proof -
  assume ab: "works_on i a b" and bc: "works_on i b c"
  show "works_on i a c"
    unfolding works_on_def
  proof (intro conjI allI impI)
    fix d assume "row_of i a = Some d"
    then obtain d1 where d1: "row_of i b = Some d1" "same_identity d d1" "dp_Status d1 = StatusCompleted \<longrightarrow> dp_Status d = StatusCompleted"
      using ab by (auto simp: works_on_def)
    then obtain d2 where d2: "row_of i c = Some d2" "same_identity d1 d2" "dp_Status d2 = StatusCompleted \<longrightarrow> dp_Status d1 = StatusCompleted"
      using bc by (auto simp: works_on_def)
    show "\<exists>d'. row_of i c = Some d' \<and> same_identity d d' \<and> (dp_Status d' = StatusCompleted \<longrightarrow> dp_Status d = StatusCompleted)"
      using d1 d2 by (auto simp: same_identity_def)
  qed (use ab bc in \<open>auto simp: works_on_def\<close>)
qed

lemma artifacts_same: "dd_artifacts db' = dd_artifacts db \<Longrightarrow> artifact_of j ty db' = artifact_of j ty db"
  by (simp add: artifact_of_def)

lemma update_works_on:
  assumes "update_row b i g db = Inr db'" "\<And>d. same_identity d (g d)" "\<And>d. dp_Status (g d) = StatusCompleted \<Longrightarrow> dp_Status d = StatusCompleted"
  shows "works_on i db db'"
proof -
  have id: "dp_ID (g d) = dp_ID d" for d using assms(2) by (simp add: same_identity_def)
  note u = update_row_Inr [OF assms(1) id]
  show ?thesis
    unfolding works_on_def artifacts_same [OF u(3)] u(1)
    using assms(2,3) by (auto simp: same_identity_def)
qed

lemma find_append: "find P (xs @ ys) = (case find P xs of Some x \<Rightarrow> Some x | None \<Rightarrow> find P ys)"
  by (induction xs) auto

lemma SaveArtifact_Inr:
  assumes "saveArtifact f i ty content db = Inr db'"
  shows "artifact_of j n db' = (if j = i \<and> n = ty then Some content else artifact_of j n db)"
    "dd_deployments db' = dd_deployments db" "dd_now db' = dd_now db"
proof -
  let ?old = "same_artifact i ty" and ?up = "\<lambda>b. if same_artifact i ty b then b\<lparr>af_Content := content\<rparr> else b"
  let ?new = "\<lparr>af_DeploymentID = i, af_Type = ty, af_Content = content\<rparr>"
  have db': "db' = db\<lparr>dd_artifacts := (if list_ex ?old (dd_artifacts db) then map ?up (dd_artifacts db) else dd_artifacts db @ [?new])\<rparr>"
    using assms by (auto simp: saveArtifact_def SaveArtifact_def Let_def split: if_splits)
  have m: "find (same_artifact j n) (map ?up as) = map_option ?up (find (same_artifact j n) as)" for as
    by (induction as) (auto simp: same_artifact_def)
  show "artifact_of j n db' = (if j = i \<and> n = ty then Some content else artifact_of j n db)"
  proof (cases "list_ex ?old (dd_artifacts db)")
    case True
    have "same_artifact j n a" if "find (same_artifact j n) (dd_artifacts db) = Some a" for a
      using that by (auto simp: find_Some_iff)
    moreover have "find ?old (dd_artifacts db) \<noteq> None" using True by (auto simp: find_None_iff list_ex_iff)
    moreover have "artifact_of j n db' = map_option (\<lambda>a. af_Content (?up a)) (find (same_artifact j n) (dd_artifacts db))"
      using True by (simp add: artifact_of_def db' m option.map_comp comp_def)
    ultimately show ?thesis
      by (cases "find (same_artifact j n) (dd_artifacts db)") (auto simp: artifact_of_def same_artifact_def)
  next
    case False
    then have "find ?old (dd_artifacts db) = None" by (auto simp: find_None_iff list_ex_iff)
    then show ?thesis using False
      by (auto simp: artifact_of_def db' find_append same_artifact_def split: option.splits)
  qed
  show "dd_deployments db' = dd_deployments db" "dd_now db' = dd_now db" by (simp_all add: db')
qed

lemma save_works_on: "saveArtifact f i ty content db = Inr db' \<Longrightarrow> works_on k db db'"
  using SaveArtifact_Inr [of f i ty content db db'] by (auto simp: works_on_def row_of_def same_identity_def)

lemma UpdateStage_works_on: "UpdateStage f i s db = Inr db' \<Longrightarrow> works_on i db db'"
  unfolding UpdateStage_def UpdateDeploymentStatus_def by (erule update_works_on) (auto simp: same_identity_def)

lemma SetError_works_on: "SetDeploymentError f i m db = Inr db' \<Longrightarrow> works_on i db db'"
  unfolding SetDeploymentError_def by (erule update_works_on) (auto simp: same_identity_def)

lemma ClearError_works_on: "ClearError f i db = Inr db' \<Longrightarrow> works_on i db db'"
  unfolding ClearError_def ClearDeploymentError_def by (erule update_works_on) (auto simp: same_identity_def)

lemma status_works_on: "UpdateDeploymentStatus f i st s db = Inr db' \<Longrightarrow> st \<noteq> StatusCompleted \<Longrightarrow> works_on i db db'"
  unfolding UpdateDeploymentStatus_def by (erule update_works_on) (auto simp: same_identity_def)

lemma MarkFailed_works_on: "works_on i db (fst (MarkFailed f i m db))"
  unfolding MarkFailed_def using SetError_works_on status_works_on works_on_trans
  by (fastforce split: sum.splits)

lemma or_same_works_on: "(\<And>db'. r = Inr db' \<Longrightarrow> works_on i db db') \<Longrightarrow> works_on i db (or_same db r)"
  by (cases r) (auto simp: or_same_def)

lemma report_works_on: "works_on i db (report_stages f i stages db)"
  unfolding report_stages_def
proof (induction stages arbitrary: db)
  case (Cons s stages)
  have "works_on i db (or_same db (UpdateStage f i (orchestrator_stage s) db))"
    by (rule or_same_works_on) (rule UpdateStage_works_on)
  from works_on_trans [OF this Cons.IH] show ?case by simp
qed simp

lemma save_all_works_on: "save_all f i files db = (db', ok) \<Longrightarrow> works_on k db db'"
proof (induction files arbitrary: db)
  case (Cons x files)
  then show ?case
    by (cases x) (auto split: sum.splits intro: works_on_trans [OF save_works_on])
qed simp

lemma save_all_values:
  "save_all f i files db = (db', ok) \<Longrightarrow>
     artifact_of i n db' = artifact_of i n db \<or> (\<exists>c. (n, c) \<in> set files \<and> artifact_of i n db' = Some c)"
proof (induction files arbitrary: db)
  case (Cons x files)
  obtain name content where x: "x = (name, content)" by force
  show ?case
  proof (cases "saveArtifact f i name content db")
    case (Inr db1)
    then have "save_all f i files db1 = (db', ok)" using Cons.prems by (simp add: x)
    from Cons.IH [OF this] show ?thesis using SaveArtifact_Inr(1) [OF Inr, of i n] by (auto simp: x split: if_splits)
  qed (use Cons.prems x in auto)
qed simp

lemma ExtractArtifacts_works_on: "works_on k db (fst (ExtractArtifacts w f i cfg db))"
proof -
  have "works_on k db (fst (save_all f i files db))" for files
    using save_all_works_on [OF prod.collapse [symmetric]] .
  then show ?thesis
    unfolding ExtractArtifacts_def by (simp del: save_all.simps append.simps split: sum.split option.split)
qed

lemmas save_all_fst = save_all_values [OF prod.collapse [symmetric]]

lemma opt_file_name: "(n, c) \<in> set (opt_file w m t) \<Longrightarrow> n = m"
  by (auto simp: opt_file_def split: if_splits)

lemma GetArtifact_of: "GetArtifact f i ty db = Inr a \<Longrightarrow> artifact_of i ty db = Some (af_Content a)"
  by (auto simp: GetArtifact_def artifact_of_def split: if_splits)

lemma extract_keeps:
  assumes "n = ''genesis.json'' \<or> n = ''rollup.json''"
  shows "artifact_of i n (fst (ExtractArtifacts w f i cfg db)) = artifact_of i n db"
proof (cases "fst (ExtractArtifacts w f i cfg db) = db")
  case False
  then obtain genesis rollup addrs compose altda where g:
    "GetArtifact f i ''genesis.json'' db = Inr genesis" "GetArtifact f i ''rollup.json'' db = Inr rollup"
    and s: "ExtractArtifacts w f i cfg db = save_all f i ([(''genesis.json'', af_Content genesis), (''rollup.json'', af_Content rollup),
        (''addresses.json'', addresses_json addrs), (''deploy-config.json'', config_json cfg)] @
        opt_file w ''docker-compose.yml'' compose @ opt_file w ''.env.example'' (ow_Env w cfg addrs) @
        opt_file w ''jwt.txt'' (generateJWTSecret (ow_Random w)) @ opt_file w ''config.toml'' altda @
        opt_file w ''README.md'' (ow_Readme w (dc_ChainName cfg))) db"
    unfolding ExtractArtifacts_def extractGenesis_def extractRollupConfig_def
    by (auto simp del: save_all.simps append.simps split: sum.splits option.splits)
  define files where "files = [(''genesis.json'', af_Content genesis), (''rollup.json'', af_Content rollup),
        (''addresses.json'', addresses_json addrs), (''deploy-config.json'', config_json cfg)] @
        opt_file w ''docker-compose.yml'' compose @ opt_file w ''.env.example'' (ow_Env w cfg addrs) @
        opt_file w ''jwt.txt'' (generateJWTSecret (ow_Random w)) @ opt_file w ''config.toml'' altda @
        opt_file w ''README.md'' (ow_Readme w (dc_ChainName cfg))"
  have v: "c = (if n = ''genesis.json'' then af_Content genesis else af_Content rollup)" if "(n, c) \<in> set files" for c
    using that assms by (auto simp: files_def dest!: opt_file_name)
  have "artifact_of i n (fst (save_all f i files db)) = artifact_of i n db \<or>
      artifact_of i n (fst (save_all f i files db)) = Some (if n = ''genesis.json'' then af_Content genesis else af_Content rollup)"
    using save_all_fst [where f = f and i = i and n = n and files = files and db = db] v by blast
  moreover have "ExtractArtifacts w f i cfg db = save_all f i files db" by (simp only: s files_def)
  ultimately show ?thesis using GetArtifact_of [OF g(1)] GetArtifact_of [OF g(2)] assms by auto
qed simp

lemma save_outputs_effect:
  assumes "save_outputs w f i cfg r chain genesis rollup db = (db', e)"
  shows "works_on i db db'"
    "e = None \<Longrightarrow> artifact_of i ''genesis.json'' db' = Some genesis \<and> artifact_of i ''rollup.json'' db' = Some rollup"
proof -
  have *: "works_on i db db' \<and> (e = None \<longrightarrow>
      artifact_of i ''genesis.json'' db' = Some genesis \<and> artifact_of i ''rollup.json'' db' = Some rollup)"
  proof (cases e)
    case None
    then obtain db1 db2 where s: "saveArtifact f i ''genesis.json'' genesis db = Inr db1"
      "saveArtifact f i ''rollup.json'' rollup db1 = Inr db2"
      and db': "db' = fst (ExtractArtifacts w f i cfg (if f (QMarshal ''addresses'') then db2
        else or_same db2 (saveArtifact f i ''deployment_state'' (addresses_artifact w r chain) db2)))"
      using assms by (auto simp: save_outputs_def Let_def split: sum.splits if_splits)
    let ?db3 = "if f (QMarshal ''addresses'') then db2
        else or_same db2 (saveArtifact f i ''deployment_state'' (addresses_artifact w r chain) db2)"
    have w3: "works_on i db2 ?db3" by (simp add: or_same_works_on save_works_on)
    have a3: "artifact_of i n ?db3 = artifact_of i n db2" if "n \<noteq> ''deployment_state''" for n
      using that SaveArtifact_Inr(1) [of f i "''deployment_state''" "addresses_artifact w r chain" db2]
      by (auto simp: or_same_def split: sum.split)
    have "works_on i db db'"
      unfolding db' using works_on_trans [OF works_on_trans [OF save_works_on [OF s(1)] save_works_on [OF s(2)]]
        works_on_trans [OF w3 ExtractArtifacts_works_on]] by simp
    moreover have "artifact_of i ''genesis.json'' db' = Some genesis" "artifact_of i ''rollup.json'' db' = Some rollup"
      unfolding db' using a3 SaveArtifact_Inr(1) [OF s(1)] SaveArtifact_Inr(1) [OF s(2)] by (simp_all add: extract_keeps)
    ultimately show ?thesis by simp
  next
    case (Some _)
    then show ?thesis using assms
      by (auto simp: save_outputs_def Let_def intro: save_works_on works_on_trans split: sum.splits if_splits)
  qed
  then show "works_on i db db'" by simp
  show "artifact_of i ''genesis.json'' db' = Some genesis \<and> artifact_of i ''rollup.json'' db' = Some rollup" if "e = None"
    using * that by simp
qed

lemma generate_outputs_effect:
  assumes "generate_outputs w f l1 i cfg r db = (db', e)"
  shows "works_on i db db' \<and> (e = None \<longrightarrow>
    artifact_of i ''genesis.json'' db' \<noteq> None \<and> artifact_of i ''rollup.json'' db' \<noteq> None)"
proof (cases "db' = db \<and> e \<noteq> None")
  case False
  then obtain chain genesis rollup where "save_outputs w f i cfg r chain genesis rollup db = (db', e)"
    using assms by (auto simp: generate_outputs_def split: list.splits option.splits sum.splits prod.splits)
  from save_outputs_effect [OF this] show ?thesis by auto
qed auto

lemma deploy_effect:
  assumes "deployWithOPDeployer w f i cfg db = (db', e)"
  shows "works_on i db db' \<and> (e = None \<longrightarrow>
    artifact_of i ''genesis.json'' db' \<noteq> None \<and> artifact_of i ''rollup.json'' db' \<noteq> None)"
proof (cases "db' = db \<and> e \<noteq> None")
  case False
  then obtain l1 stages result where p: "ow_Deploy w (ApplyDefaults cfg) = (stages, result)"
    and r: "(case result of
                  Inl e \<Rightarrow> (report_stages f i stages db, Some (''op-deployer pipeline failed: '' @ e))
                | Inr r \<Rightarrow>
                    if f (QMarshal ''opdeployer_state'') then (report_stages f i stages db, Some ''marshal op-deployer state'')
                    else (case saveArtifact f i ''opdeployer_state'' (state_json (dr_State r)) (report_stages f i stages db) of
                       Inl _ \<Rightarrow> (report_stages f i stages db, Some ''save op-deployer state'')
                     | Inr db2 \<Rightarrow> generate_outputs w f l1 i (ApplyDefaults cfg) r db2)) = (db', e)"
    using assms by (auto simp: deployWithOPDeployer_def Let_def split: option.splits prod.splits)
  show ?thesis
  proof (cases "db' = report_stages f i stages db \<and> e \<noteq> None")
    case True
    then show ?thesis using report_works_on by auto
  next
    case False
    then obtain r db2 where s: "saveArtifact f i ''opdeployer_state'' (state_json (dr_State r)) (report_stages f i stages db) = Inr db2"
      and g: "generate_outputs w f l1 i (ApplyDefaults cfg) r db2 = (db', e)"
      using r by (auto split: sum.splits if_splits)
    show ?thesis
      using generate_outputs_effect [OF g] works_on_trans [OF works_on_trans [OF report_works_on save_works_on [OF s]]] by blast
  qed
qed auto

text \<open>A call either leaves the deployment uncompleted, or completes it after everything was saved.\<close>

lemma OpDeploy_effect:
  assumes "OpDeploy w f i db = (db', r)"
  obtains "works_on i db db'"
  | db2 where "works_on i db db2" "MarkComplete f i db2 = Inr db'" "r = None"
      "artifact_of i ''genesis.json'' db2 \<noteq> None" "artifact_of i ''rollup.json'' db2 \<noteq> None"
proof (cases "db' = db")
  case False
  then obtain cfg db1 where d: "UpdateStage f i StageInit db = Inr db1"
    and c: "(case deployWithOPDeployer w f i cfg db1 of
                       (db2, Some e) \<Rightarrow> (fst (MarkFailed f i e db2), Some e)
                     | (db2, None) \<Rightarrow>
                         (case MarkComplete f i db2 of
                            Inl _ \<Rightarrow> (db2, Some ''mark complete'')
                          | Inr db3 \<Rightarrow> (db3, None))) = (db', r)"
    using assms by (auto simp: OpDeploy_def split: sum.splits)
  obtain db2 e where p: "deployWithOPDeployer w f i cfg db1 = (db2, e)" by force
  have w2: "works_on i db db2" using works_on_trans [OF UpdateStage_works_on [OF d]] deploy_effect [OF p] by blast
  show ?thesis
  proof (cases e)
    case (Some m)
    then have "db' = fst (MarkFailed f i m db2)" using c p by simp
    then show ?thesis using that(1) works_on_trans [OF w2 MarkFailed_works_on] by simp
  next
    case None
    show ?thesis
    proof (cases "MarkComplete f i db2")
      case (Inl x)
      then show ?thesis using that(1) w2 c p None by simp
    next
      case (Inr db3)
      then have "db' = db3" "r = None" using c p None by simp_all
      then show ?thesis using that(2) [OF w2] Inr deploy_effect [OF p] None by simp
    qed
  qed
qed (use that(1) in simp)

section \<open>Without failing statements\<close>

abbreviation no_faults :: deploy_faults where "no_faults \<equiv> \<lambda>_. False"

lemma row_in: "row_of i db = Some d \<Longrightarrow> d \<in> set (dd_deployments db) \<and> dp_ID d = i"
  unfolding row_of_def by (auto simp: find_Some_iff)

lemma update_row_ok: "row_of i db = Some d \<Longrightarrow> \<exists>db'. update_row False i g db = Inr db'"
  by (auto simp: update_row_def list_ex_iff dest!: row_in)

lemma save_ok: "row_of i db = Some d \<Longrightarrow> \<exists>db'. saveArtifact no_faults i ty c db = Inr db'"
  by (auto simp: saveArtifact_def SaveArtifact_def Let_def list_ex_iff dest!: row_in)

lemma GetDeployment_ok: "row_of i db = Some d \<Longrightarrow> GetDeployment no_faults i db = Inr d"
  by (simp add: GetDeployment_def row_of_def)

lemma save_rows: "saveArtifact f i ty c db = Inr db' \<Longrightarrow> row_of j db' = row_of j db"
  using SaveArtifact_Inr(2) [of f i ty c db db'] by (simp add: row_of_def)

lemma save_all_rows: "row_of j (fst (save_all f i files db)) = row_of j db"
  by (induction f i files db rule: save_all.induct) (auto split: sum.split dest: save_rows)

lemma extract_rows: "row_of j (fst (ExtractArtifacts w f i cfg db)) = row_of j db"
  unfolding ExtractArtifacts_def
  by (simp del: save_all.simps append.simps add: save_all_rows split: sum.split option.split)

lemma UpdateStage_row:
  assumes "row_of i db = Some d"
  obtains db' where "UpdateStage no_faults i s db = Inr db'"
    "row_of i db' = Some (d\<lparr>dp_Status := StatusRunning, dp_CurrentStage := Some s, dp_UpdatedAt := dd_now db\<rparr>)" "dd_now db' = dd_now db"
proof -
  let ?g = "\<lambda>d. d\<lparr>dp_Status := StatusRunning, dp_CurrentStage := Some s\<rparr>"
  obtain db' where u: "update_row False i ?g db = Inr db'" using update_row_ok [OF assms] by blast
  have id: "dp_ID (?g e) = dp_ID e" for e by simp
  from update_row_Inr [OF u id] show ?thesis
    using that u assms by (simp add: UpdateStage_def UpdateDeploymentStatus_def status_stored_def)
qed

text \<open>The row after the reported stages: running, with the last stage and the error it had.\<close>

lemma report_row:
  assumes "row_of i db = Some d" "dp_Status d = StatusRunning"
  shows "\<exists>d'. row_of i (report_stages no_faults i stages db) = Some d' \<and> dp_Status d' = StatusRunning \<and>
    dp_ErrorMessage d' = dp_ErrorMessage d \<and> dp_Config d' = dp_Config d"
  using assms
proof (induction stages arbitrary: db d)
  case (Cons s stages)
  obtain db' where u: "UpdateStage no_faults i (orchestrator_stage s) db = Inr db'"
    "row_of i db' = Some (d\<lparr>dp_Status := StatusRunning, dp_CurrentStage := Some (orchestrator_stage s), dp_UpdatedAt := dd_now db\<rparr>)"
    using UpdateStage_row [OF Cons.prems(1)] by metis
  have "report_stages no_faults i (s # stages) db = report_stages no_faults i stages db'"
    using u(1) by (simp add: report_stages_def or_same_def)
  then show ?case using Cons.IH [OF u(2)] by simp
qed (simp add: report_stages_def)

lemma save_outputs_ok:
  assumes "row_of i db = Some d"
  shows "\<exists>db'. save_outputs w no_faults i cfg r chain genesis rollup db = (db', None) \<and> row_of i db' = Some d"
proof -
  obtain db1 where s1: "saveArtifact no_faults i ''genesis.json'' genesis db = Inr db1" using save_ok [OF assms] by blast
  have r1: "row_of i db1 = Some d" using save_rows [OF s1] assms by simp
  obtain db2 where s2: "saveArtifact no_faults i ''rollup.json'' rollup db1 = Inr db2" using save_ok [OF r1] by blast
  have r2: "row_of i db2 = Some d" using save_rows [OF s2] r1 by simp
  obtain db3 where s3: "saveArtifact no_faults i ''deployment_state'' (addresses_artifact w r chain) db2 = Inr db3"
    using save_ok [OF r2] by blast
  have r3: "row_of i db3 = Some d" using save_rows [OF s3] r2 by simp
  show ?thesis using s1 s2 s3 r3 by (simp add: save_outputs_def or_same_def extract_rows)
qed

definition pipeline_succeeds :: "op_world \<Rightarrow> DeploymentConfig \<Rightarrow> jsonv \<Rightarrow> jsonv \<Rightarrow> bool" where
  "pipeline_succeeds w cfg genesis rollup \<longleftrightarrow>
     checkDeployerBalance w cfg = None \<and>
     (\<exists>l1 stages r st0 chain0 more st chain. ow_Dial w 1 = Some l1 \<and>
        ow_Deploy w (ApplyDefaults cfg) = (stages, Inr r) \<and> dr_State r = Some st0 \<and> dr_ChainStates r = chain0 # more \<and>
        with_start_block l1 st0 chain0 = Some (st, chain) \<and>
        ow_GenesisAndRollup w st (cs_ID chain) = Some (Inr (Some genesis, Some rollup)))"

lemma deploy_ok:
  assumes "pipeline_succeeds w cfg genesis rollup" "row_of i db = Some d" "dp_Status d = StatusRunning"
  obtains db' d' where "deployWithOPDeployer w no_faults i cfg db = (db', None)"
    "row_of i db' = Some d'" "dp_ErrorMessage d' = dp_ErrorMessage d"
    "artifact_of i ''genesis.json'' db' = Some genesis" "artifact_of i ''rollup.json'' db' = Some rollup"
proof -
  obtain l1 stages r st0 chain0 more st chain where p: "checkDeployerBalance w cfg = None" "ow_Dial w 1 = Some l1"
    "ow_Deploy w (ApplyDefaults cfg) = (stages, Inr r)" "dr_State r = Some st0" "dr_ChainStates r = chain0 # more"
    "with_start_block l1 st0 chain0 = Some (st, chain)"
    "ow_GenesisAndRollup w st (cs_ID chain) = Some (Inr (Some genesis, Some rollup))"
    using assms(1) by (auto simp: pipeline_succeeds_def)
  let ?db1 = "report_stages no_faults i stages db"
  obtain d1 where d1: "row_of i ?db1 = Some d1" "dp_ErrorMessage d1 = dp_ErrorMessage d"
    using report_row [OF assms(2,3)] by blast
  obtain db2 where s: "saveArtifact no_faults i ''opdeployer_state'' (state_json (dr_State r)) ?db1 = Inr db2"
    using save_ok [OF d1(1)] by blast
  have d2: "row_of i db2 = Some d1" using save_rows [OF s] d1(1) by simp
  obtain db' where o: "save_outputs w no_faults i (ApplyDefaults cfg) r chain genesis rollup db2 = (db', None)" "row_of i db' = Some d1"
    using save_outputs_ok [OF d2] by blast
  have "deployWithOPDeployer w no_faults i cfg db = (db', None)"
    using p s o(1) by (simp add: deployWithOPDeployer_def generate_outputs_def)
  then show ?thesis using that o(2) d1(2) save_outputs_effect(2) [OF o(1)] by blast
qed

lemma OpDeploy_completes:
  assumes "row_of i db = Some d" "ParseConfig (dp_Config d) = Inr cfg" "pipeline_succeeds w cfg genesis rollup"
  obtains db' d' where "OpDeploy w no_faults i db = (db', None)" "row_of i db' = Some d'" "dp_Status d' = StatusCompleted"
    "dp_ErrorMessage d' = dp_ErrorMessage d" "same_identity d d'"
    "artifact_of i ''genesis.json'' db' = Some genesis" "artifact_of i ''rollup.json'' db' = Some rollup"
proof -
  obtain db1 d1 where u: "UpdateStage no_faults i StageInit db = Inr db1" "row_of i db1 = Some d1"
    "dp_Status d1 = StatusRunning" "dp_ErrorMessage d1 = dp_ErrorMessage d" "same_identity d d1"
    by (rule UpdateStage_row [OF assms(1), of StageInit]) (simp add: same_identity_def)
  obtain db2 d2 where p: "deployWithOPDeployer w no_faults i cfg db1 = (db2, None)" "row_of i db2 = Some d2"
    "dp_ErrorMessage d2 = dp_ErrorMessage d1"
    "artifact_of i ''genesis.json'' db2 = Some genesis" "artifact_of i ''rollup.json'' db2 = Some rollup"
    by (rule deploy_ok [OF assms(3) u(2,3)])
  have id2: "same_identity d1 d2" using deploy_effect [OF p(1)] u(2) p(2) by (auto simp: works_on_def)
  let ?done = "\<lambda>d. d\<lparr>dp_Status := StatusCompleted, dp_CurrentStage := Some StageCompleted\<rparr>"
  obtain db3 where m: "update_row False i ?done db2 = Inr db3" using update_row_ok [OF p(2)] by blast
  have id: "dp_ID (?done e) = dp_ID e" for e by simp
  note r = update_row_Inr [OF m id]
  have mark: "MarkComplete no_faults i db2 = Inr db3"
    using m by (simp add: MarkComplete_def UpdateDeploymentStatus_def status_stored_def)
  have "OpDeploy w no_faults i db = (db3, None)"
    unfolding OpDeploy_def GetDeployment_ok [OF assms(1)] by (simp add: assms(2) u(1) p(1) mark)
  moreover have "row_of i db3 = Some (d2\<lparr>dp_Status := StatusCompleted, dp_CurrentStage := Some StageCompleted, dp_UpdatedAt := dd_now db2\<rparr>)"
    using r(1) [of i] p(2) by simp
  ultimately show ?thesis using that p(3,4,5) u(4,5) id2 artifacts_same [OF r(3)] by (simp add: same_identity_def)
qed

text \<open>Property C30. As long as the database answers, a paused, failed or interrupted deployment whose configuration parses
  and whose pipeline succeeds is completed by resuming it: the call returns without error, the row is completed with its old
  error cleared, and the genesis and rollup files the pipeline generated are stored.\<close>

theorem resumed_deployment_completes:
  assumes "row_of i db = Some d" "resumable (dp_Status d)" "ParseConfig (dp_Config d) = Inr cfg"
    "pipeline_succeeds w cfg genesis rollup"
  shows "\<exists>db' d'. Resume w no_faults i db = (db', None) \<and> row_of i db' = Some d' \<and> dp_Status d' = StatusCompleted \<and>
    dp_ErrorMessage d' = None \<and> artifact_of i ''genesis.json'' db' = Some genesis \<and> artifact_of i ''rollup.json'' db' = Some rollup"
proof -
  let ?clear = "\<lambda>d. d\<lparr>dp_ErrorMessage := None\<rparr>"
  obtain db0 where "update_row False i ?clear db = Inr db0" using update_row_ok [OF assms(1)] by blast
  moreover have "dp_ID (?clear e) = dp_ID e" for e by simp
  ultimately have c: "ClearError no_faults i db = Inr db0"
    "row_of i db0 = Some (d\<lparr>dp_ErrorMessage := None, dp_UpdatedAt := dd_now db\<rparr>)"
    using update_row_Inr(1) [of False i ?clear db db0 i] assms(1) by (simp_all add: ClearError_def ClearDeploymentError_def)
  have "Resume w no_faults i db = OpDeploy w no_faults i db0"
    unfolding Resume_def CanResume_def GetDeployment_ok [OF assms(1)] c(1) by (simp add: assms(2) or_same_def)
  then show ?thesis using OpDeploy_completes [OF c(2) _ assms(4)] assms(3) by (simp, blast)
qed

text \<open>A pipeline that fails leaves its error: the call returns it, and the row is failed and shows it, without a stage.\<close>

lemma failed_deployment_recorded:
  assumes "row_of i db = Some d" "ParseConfig (dp_Config d) = Inr cfg" "OpDeploy w no_faults i db = (db', Some e)"
  shows "\<exists>d'. row_of i db' = Some d' \<and> dp_Status d' = StatusFailed \<and> dp_ErrorMessage d' = Some e \<and> dp_CurrentStage d' = None"
proof -
  obtain db1 where u: "UpdateStage no_faults i StageInit db = Inr db1" using UpdateStage_row [OF assms(1)] by metis
  obtain db2 r where p: "deployWithOPDeployer w no_faults i cfg db1 = (db2, r)" by force
  have "works_on i db db2" using works_on_trans [OF UpdateStage_works_on [OF u]] deploy_effect [OF p] by blast
  then obtain d2 where d2: "row_of i db2 = Some d2" using assms(1) by (auto simp: works_on_def)
  have complete: "\<exists>db3. MarkComplete no_faults i db2 = Inr db3"
    using update_row_ok [OF d2] by (simp add: MarkComplete_def UpdateDeploymentStatus_def status_stored_def)
  have "r = Some e \<and> db' = fst (MarkFailed no_faults i e db2)"
    using assms(3) u p complete GetDeployment_ok [OF assms(1)] assms(2) by (auto simp: OpDeploy_def split: option.splits)
  then have db': "db' = fst (MarkFailed no_faults i e db2)" by simp
  obtain db3 where s: "SetDeploymentError no_faults i e db2 = Inr db3"
    using update_row_ok [OF d2] by (auto simp: SetDeploymentError_def)
  let ?e = "\<lambda>d. d\<lparr>dp_Status := StatusFailed, dp_ErrorMessage := Some e\<rparr>" and ?f = "\<lambda>d. d\<lparr>dp_Status := StatusFailed, dp_CurrentStage := None\<rparr>"
  have id: "dp_ID (?e d) = dp_ID d" "dp_ID (?f d) = dp_ID d" for d by simp_all
  have r3: "row_of i db3 = Some (?e d2\<lparr>dp_UpdatedAt := dd_now db2\<rparr>)"
    using update_row_Inr(1) [OF s [unfolded SetDeploymentError_def] id(1), of i] d2 by simp
  obtain db4 where f: "update_row False i ?f db3 = Inr db4" using update_row_ok [OF r3] by blast
  then have "UpdateDeploymentStatus no_faults i StatusFailed None db3 = Inr db4"
    by (simp add: UpdateDeploymentStatus_def status_stored_def)
  then have "db' = db4" using s db' by (simp add: MarkFailed_def)
  then show ?thesis using update_row_Inr(1) [OF f id(2), of i] r3 by simp
qed

section \<open>An example\<close>

definition sample_chain :: chain_state where
  "sample_chain = \<lparr>cs_ID = ''0x01'', cs_StartBlock = None, cs_Contracts = []\<rparr>"

definition sample_l1 :: l1client where
  "sample_l1 = \<lparr>l1_ChainID = Some 11155111, l1_BalanceAt = (\<lambda>_. Some (10 ^ 21)), l1_Header = Some (JString ''0xb'')\<rparr>"

definition sample_result :: DeployResult where
  "sample_result = \<lparr>dr_State = Some \<lparr>os_Chains = [sample_chain], os_Rest = []\<rparr>, dr_SuperchainContracts = None,
     dr_ImplementationsContracts = None, dr_ChainStates = [sample_chain]\<rparr>"

definition sample_world :: op_world where
  "sample_world = \<lparr>ow_Dial = (\<lambda>_. Some sample_l1), ow_Deploy = (\<lambda>_. ([''init'', ''deploy-opchain''], Inr sample_result)),
     ow_GenesisAndRollup = (\<lambda>_ _. Some (Inr (Some (JString ''genesis''), Some (JString ''rollup'')))), ow_Time = ''now'',
     ow_Random = None, ow_Compose = (\<lambda>_. Some ''services:''), ow_Env = (\<lambda>_ _. ''A=1''), ow_AltDA = (\<lambda>_. Some ''[da]''),
     ow_Readme = (\<lambda>_. ''# chain''),
     ow_Parse = (\<lambda>s. if s = ''{}'' then Some (wrap_text (\<lambda>_. None) ''A=1'') else None), ow_Render = (\<lambda>_. ''{}'')\<rparr>"

definition sample_row :: deployment where
  "sample_row = \<lparr>dp_ID = 1, dp_OrgID = 7, dp_ChainID = 42069, dp_Stack = StackOPStack, dp_Status = StatusFailed,
     dp_CurrentStage = None, dp_Config = config_json sample_config, dp_ErrorMessage = Some ''timeout'', dp_UpdatedAt = 0\<rparr>"

definition sample_tables :: "deployment list \<Rightarrow> deploydb" where
  "sample_tables ds = \<lparr>dd_now = 5, dd_orgs = [7], dd_deployments = ds, dd_transactions = [], dd_artifacts = []\<rparr>"

lemma sample_row_of: "row_of 1 (sample_tables [sample_row]) = Some sample_row"
  by (simp add: row_of_def sample_tables_def sample_row_def)

lemma sample_balance: "checkDeployerBalance sample_world sample_config = None"
  by (simp add: checkDeployerBalance_def sample_world_def sample_l1_def sample_config_def ApplyDefaults_def Let_def)

lemma sample_succeeds: "pipeline_succeeds sample_world sample_config (JString ''genesis'') (JString ''rollup'')"
  unfolding pipeline_succeeds_def
  by (simp add: sample_balance, simp add: sample_world_def sample_result_def with_start_block_def sample_chain_def sample_l1_def)

lemma sample_config_parsed: "ParseConfig (dp_Config sample_row) = Inr sample_config"
  using sample_parses by (simp add: sample_row_def)

lemma bundle_text_roundtrip_witness:
  "unwrapJSONString (ow_Parse sample_world) (ow_Render sample_world (wrap_text (ow_Parse sample_world) ''A=1'')) = ''A=1''"
  by (rule bundle_text_roundtrip) (simp_all add: reads_back_def sample_world_def wrap_text_def)

lemma resumed_deployment_completes_witness:
  "\<exists>db' d'. Resume sample_world no_faults 1 (sample_tables [sample_row]) = (db', None) \<and> row_of 1 db' = Some d' \<and>
    dp_Status d' = StatusCompleted \<and> dp_ErrorMessage d' = None \<and>
    artifact_of 1 ''genesis.json'' db' = Some (JString ''genesis'') \<and> artifact_of 1 ''rollup.json'' db' = Some (JString ''rollup'')"
  by (rule resumed_deployment_completes [OF sample_row_of _ sample_config_parsed sample_succeeds])
    (simp add: sample_row_def resumable_def)

lemma failed_deployment_recorded_witness:
  "\<exists>d'. row_of 1 (fst (OpDeploy (sample_world\<lparr>ow_Dial := \<lambda>_. None\<rparr>) no_faults 1 (sample_tables [sample_row]))) = Some d' \<and>
    dp_Status d' = StatusFailed \<and> dp_ErrorMessage d' = Some ''connect to L1'' \<and> dp_CurrentStage d' = None"
proof -
  let ?w = "sample_world\<lparr>ow_Dial := \<lambda>_. None\<rparr>"
  have "deployWithOPDeployer ?w no_faults 1 sample_config db = (db, Some ''connect to L1'')" for db
    by (simp add: deployWithOPDeployer_def checkDeployerBalance_def)
  moreover obtain db1 where "UpdateStage no_faults 1 StageInit (sample_tables [sample_row]) = Inr db1"
    using UpdateStage_row [OF sample_row_of] by metis
  ultimately have "OpDeploy ?w no_faults 1 (sample_tables [sample_row]) =
      (fst (OpDeploy ?w no_faults 1 (sample_tables [sample_row])), Some ''connect to L1'')"
    by (simp add: OpDeploy_def GetDeployment_ok [OF sample_row_of] sample_config_parsed del: One_nat_def)
  from failed_deployment_recorded [OF sample_row_of sample_config_parsed this] show ?thesis .
qed

end
