(* ===== verification/Orchestration.thy ===== *)
theory Orchestration
  imports OpStack ApiKeyService CpBao
begin

text \<open>
  The orchestrator of all stacks, \<open>bootstrap/orchestrator\<close>: the API key deployments sign with
  (\<open>apikey_manager.go\<close>), the enrichment of a configuration, starting, stopping and picking up
  deployments (\<open>orchestrator.go\<close>). The goroutine of a deployment is the step \<open>run_job\<close>; the pipelines of
  the other two stacks are parameters. Reading a UUID is a parameter.
\<close>

section \<open>The API key of deployments\<close>

record ('w) key_manager =
  km_http :: "'w transport"
  km_bao :: "cp_client option"
  km_argon :: argon2
  km_text :: "uuid \<Rightarrow> string"          \<comment> \<open>the text form of a UUID\<close>

record ('w) key_state =
  kt_world :: 'w                        \<comment> \<open>OpenBao\<close>
  kt_rows :: "api_row list"

definition baoKeyPath :: "'w key_manager \<Rightarrow> uuid \<Rightarrow> string" where
  "baoKeyPath m orgID = ''orgs/'' @ km_text m orgID @ ''/deployment-api-key''"

definition secret_key :: "(string \<times> jsonv) list \<Rightarrow> string option" where
  "secret_key data = (case object_key (JObject data) ''api_key'' of JString k \<Rightarrow> if k = [] then None else Some k | _ \<Rightarrow> None)"

definition getStoredKey :: "'w key_manager \<Rightarrow> uuid \<Rightarrow> 'w \<Rightarrow> 'w \<times> string option" where
  "getStoredKey m orgID w =
     (case km_bao m of
        None \<Rightarrow> (w, None)
      | Some c \<Rightarrow>
          (case ReadKVSecret (km_http m) c (baoKeyPath m orgID) w of
             (w', Inr (Some data)) \<Rightarrow> (w', secret_key data)
           | (w', _) \<Rightarrow> (w', None)))"

definition storeKey :: "'w key_manager \<Rightarrow> uuid \<Rightarrow> string \<Rightarrow> 'w \<Rightarrow> 'w" where
  "storeKey m orgID apiKey w =
     (case km_bao m of
        None \<Rightarrow> w
      | Some c \<Rightarrow> fst (WriteKVSecret (km_http m) c (baoKeyPath m orgID) [(''api_key'', JString apiKey)] w))"

definition deleteStoredKey :: "'w key_manager \<Rightarrow> uuid \<Rightarrow> 'w \<Rightarrow> 'w" where
  "deleteStoredKey m orgID w =
     (case km_bao m of None \<Rightarrow> w | Some c \<Rightarrow> fst (DeleteKVSecret (km_http m) c (baoKeyPath m orgID) w))"

definition deployment_key_request :: CreateAPIKeyRequest where
  "deployment_key_request = \<lparr>ca_Name = ''Deployment Orchestrator'', ca_Scopes = [''keys:sign'', ''keys:read''], ca_AllowedKeyIDs = [],
     ca_UserID = None, ca_ExpiresInDays = None, ca_Environment = []\<rparr>"

text \<open>The stored key while it is valid, else a new one; what storing and deleting answer is only logged.\<close>

definition new_deployment_key ::
  "'w key_manager \<Rightarrow> api_faults \<Rightarrow> nat \<Rightarrow> uuid \<Rightarrow> bytes option \<Rightarrow> bytes option \<Rightarrow> keydb \<Rightarrow> uuid \<Rightarrow> 'w key_state \<Rightarrow>
     'w key_state \<times> (string + string)" where
  "new_deployment_key m f now keyID secret salt db orgID s =
     (case api_Create (km_argon m) f now keyID secret salt db orgID deployment_key_request (kt_rows s) of
        (rows', Inl e) \<Rightarrow> (s\<lparr>kt_rows := rows'\<rparr>, Inl ''create API key'')
      | (rows', Inr (row, raw)) \<Rightarrow> (\<lparr>kt_world = storeKey m orgID raw (kt_world s), kt_rows = rows'\<rparr>, Inr raw))"

definition GetOrCreateForDeployment ::
  "'w key_manager \<Rightarrow> api_faults \<Rightarrow> nat \<Rightarrow> uuid \<Rightarrow> bytes option \<Rightarrow> bytes option \<Rightarrow> keydb \<Rightarrow> uuid \<Rightarrow> 'w key_state \<Rightarrow>
     'w key_state \<times> (string + string)" where
  "GetOrCreateForDeployment m f now keyID secret salt db orgID s =
     (case getStoredKey m orgID (kt_world s) of
        (w1, None) \<Rightarrow> new_deployment_key m f now keyID secret salt db orgID (s\<lparr>kt_world := w1\<rparr>)
      | (w1, Some existing) \<Rightarrow>
          (case api_Validate (km_argon m) f now (kt_rows s) existing of
             Inr _ \<Rightarrow> (s\<lparr>kt_world := w1\<rparr>, Inr existing)
           | Inl _ \<Rightarrow> new_deployment_key m f now keyID secret salt db orgID (s\<lparr>kt_world := deleteStoredKey m orgID w1\<rparr>)))"

section \<open>The enriched configuration\<close>

text \<open>
  A configuration is decoded into a map, where every number is a \<open>float64\<close>, and encoded again: integers
  come back rounded to 53 bits, in the fewest digits that denote the same number, with an exponent from
  \<open>10 ^ 21\<close> on. Literals with a fraction or an exponent are kept as they are; no field of a configuration
  has one, nor an integer above the range of \<open>float64\<close>.
\<close>

fun bit_width :: "nat \<Rightarrow> nat" where
  "bit_width n = (if n = 0 then 0 else Suc (bit_width (n div 2)))"

declare bit_width.simps [simp del]

definition float64_nat :: "nat \<Rightarrow> nat" where
  "float64_nat n =
     (if n < 2 ^ 53 then n
      else let e = bit_width n - 53; q = n div 2 ^ e; r = n mod 2 ^ e
           in (if 2 * r > 2 ^ e \<or> 2 * r = 2 ^ e \<and> odd q then q + 1 else q) * 2 ^ e)"

text \<open>The nearest number of \<open>p\<close> digits that denotes the same \<open>float64\<close>, if there is one.\<close>

definition with_digits :: "nat \<Rightarrow> nat \<Rightarrow> nat option" where
  "with_digits f p =
     (let u = 10 ^ (length (dec_of_nat f) - p); lo = f div u * u; hi = lo + (if f mod u = 0 then 0 else u)
      in if float64_nat lo = f \<and> (float64_nat hi \<noteq> f \<or> f - lo \<le> hi - f) then Some lo
         else if float64_nat hi = f then Some hi else None)"

fun shortest_from :: "nat \<Rightarrow> nat list \<Rightarrow> nat" where
  "shortest_from f [] = f"
| "shortest_from f (p # ps) = (case with_digits f p of Some c \<Rightarrow> c | None \<Rightarrow> shortest_from f ps)"

definition no_trailing_zeros :: "string \<Rightarrow> string" where
  "no_trailing_zeros s = rev (dropWhile (\<lambda>c. c = CHR ''0'') (rev s))"

definition float_digits :: "nat \<Rightarrow> string" where
  "float_digits n =
     (let f = float64_nat n; d = dec_of_nat (if f < 2 ^ 53 then f else shortest_from f [1..<18])
      in if f < 10 ^ 21 then d
         else let m = no_trailing_zeros d
              in hd m # (if tl m = [] then [] else CHR ''.'' # tl m) @ ''e+'' @ dec_of_nat (length d - 1))"

definition float_text :: "string \<Rightarrow> string" where
  "float_text t =
     (case int_literal t of
        None \<Rightarrow> t
      | Some n \<Rightarrow> (if t \<noteq> [] \<and> hd t = CHR ''-'' then ''-'' else []) @ float_digits (nat \<bar>n\<bar>))"

fun through_map :: "jsonv \<Rightarrow> jsonv" where
  "through_map (JNumber t) = JNumber (float_text t)"
| "through_map (JArray xs) = JArray (map through_map xs)"
| "through_map (JObject kvs) = JObject (map (\<lambda>(k, v). (k, through_map v)) kvs)"
| "through_map j = j"

text \<open>What a type assertion to a string reads.\<close>

definition text_of :: "jsonv \<Rightarrow> string option" where
  "text_of j = (case j of JString s \<Rightarrow> Some s | _ \<Rightarrow> None)"

fun set_key :: "string \<Rightarrow> jsonv \<Rightarrow> jsonv \<Rightarrow> jsonv" where
  "set_key k v (JObject kvs) = JObject (filter (\<lambda>kv. fst kv \<noteq> k) kvs @ [(k, v)])"
| "set_key k v j = JObject [(k, v)]"

definition key_address :: "key_row \<Rightarrow> string" where
  "key_address k = (case ky_EthAddress k of Some e \<Rightarrow> if e \<noteq> [] then e else ky_Address k | None \<Rightarrow> ky_Address k)"

text \<open>The key a field names, if it names one.\<close>

definition named_key :: "(string \<Rightarrow> uuid option) \<Rightarrow> string \<Rightarrow> jsonv \<Rightarrow> uuid option" where
  "named_key parse field config =
     (case text_of (object_key config field) of Some s \<Rightarrow> if s \<noteq> [] then parse s else None | None \<Rightarrow> None)"

text \<open>A role whose key cannot be had is left to its default.\<close>

definition set_role :: "(string \<Rightarrow> uuid option) \<Rightarrow> (uuid \<Rightarrow> 'e + key_row) \<Rightarrow> string \<Rightarrow> string \<Rightarrow> jsonv \<Rightarrow> jsonv" where
  "set_role parse get field target config =
     (case named_key parse field config of
        None \<Rightarrow> config
      | Some k \<Rightarrow> (case get k of Inl _ \<Rightarrow> config | Inr row \<Rightarrow> set_key target (JString (key_address row)) config))"

definition resolve_keys :: "(string \<Rightarrow> uuid option) \<Rightarrow> (uuid \<Rightarrow> 'e + key_row) \<Rightarrow> jsonv \<Rightarrow> string + jsonv" where
  "resolve_keys parse get config =
     (case (case named_key parse ''deployer_key'' config of
              None \<Rightarrow> Inr config
            | Some k \<Rightarrow> (case get k of
                Inl _ \<Rightarrow> Inl ''get deployer key''
              | Inr row \<Rightarrow> Inr (set_key ''deployer_address'' (JString (key_address row)) config))) of
        Inl e \<Rightarrow> Inl e
      | Inr c \<Rightarrow> Inr (set_role parse get ''proposer_key'' ''proposer_address'' (set_role parse get ''batcher_key'' ''batcher_address'' c)))"

definition enrichConfig ::
  "(string \<Rightarrow> uuid option) \<Rightarrow> string \<Rightarrow> (uuid \<Rightarrow> 's \<Rightarrow> 's \<times> (string + string)) option \<Rightarrow>
     (uuid \<Rightarrow> uuid \<Rightarrow> 'e + key_row) option \<Rightarrow> jsonv \<Rightarrow> 's \<Rightarrow> 's \<times> (string + jsonv)" where
  "enrichConfig parse endpoint manager resolver raw s =
     (if \<not> is_struct raw then (s, Inl ''parse config'')
      else case text_of (object_key (through_map raw) ''org_id'') of
        None \<Rightarrow> (s, Inl ''org_id not found in config'')
      | Some orgStr \<Rightarrow>
          if orgStr = [] then (s, Inl ''org_id not found in config'')
          else (case parse orgStr of
             None \<Rightarrow> (s, Inl ''invalid org_id'')
           | Some orgID \<Rightarrow>
               (let c1 = set_key ''popsigner_endpoint'' (JString (endpoint @ ''/v1'')) (through_map raw)
                in if text_of (object_key (through_map raw) ''stack'') = Some ''pop-bundle'' then (s, Inr c1)
                   else (case (case manager of None \<Rightarrow> (s, Inr []) | Some m \<Rightarrow> m orgID s) of
                      (s', Inl e) \<Rightarrow> (s', Inl ''get/create API key'')
                    | (s', Inr key) \<Rightarrow>
                        (let c2 = set_key ''popsigner_api_key'' (JString key) c1
                         in (s', case resolver of None \<Rightarrow> Inr c2 | Some get \<Rightarrow> resolve_keys parse (get orgID) c2))))))"

text \<open>The resolver is the key service.\<close>

definition KeyServiceResolver :: "reqctx \<Rightarrow> query_faults \<Rightarrow> keydb \<Rightarrow> uuid \<Rightarrow> uuid \<Rightarrow> svc_error + key_row" where
  "KeyServiceResolver cx f db orgID keyID = ks_Get cx f db orgID keyID"

section \<open>Starting, running, stopping\<close>

text \<open>What \<open>StartDeployment\<close> does before its goroutine; no error means the job of the stack was started.\<close>

definition StartDeployment ::
  "('s \<Rightarrow> jsonv \<Rightarrow> 's \<times> (string + jsonv)) \<Rightarrow> deploy_faults \<Rightarrow> uuid \<Rightarrow> 's \<times> deploydb \<Rightarrow> ('s \<times> deploydb) \<times> (string + stack)" where
  "StartDeployment enrich f i = (\<lambda>(s, db).
     (case GetDeployment f i db of
        Inl _ \<Rightarrow> ((s, db), Inl ''get deployment'')
      | Inr d \<Rightarrow>
          (case enrich s (dp_Config d) of
             (s', Inl e) \<Rightarrow>
               ((s', or_same db (SetDeploymentError f i (''config enrichment failed: '' @ e) db)), Inl ''enrich config'')
           | (s', Inr c) \<Rightarrow>
               (case UpdateDeploymentConfig f i c db of
                  Inl _ \<Rightarrow> ((s', db), Inl ''update config'')
                | Inr db1 \<Rightarrow>
                    (case UpdateDeploymentStatus f i StatusRunning None db1 of
                       Inl _ \<Rightarrow> ((s', db1), Inl ''update status'')
                     | Inr db2 \<Rightarrow> ((s', db2), Inr (dp_Stack d)))))))"

type_synonym pipeline = "deploydb \<Rightarrow> deploydb \<times> string option"

definition not_configured :: "string \<Rightarrow> pipeline option \<Rightarrow> pipeline" where
  "not_configured msg p = (case p of Some run \<Rightarrow> run | None \<Rightarrow> (\<lambda>db. (db, Some msg)))"

text \<open>The goroutine: the pipeline of the stack, and its error into the row.\<close>

definition run_job ::
  "pipeline option \<Rightarrow> pipeline option \<Rightarrow> pipeline option \<Rightarrow> deploy_faults \<Rightarrow> uuid \<Rightarrow> stack \<Rightarrow> deploydb \<Rightarrow> deploydb" where
  "run_job opstack nitro popbundle f i st db =
     (case (case st of
              StackOPStack \<Rightarrow> not_configured ''OP Stack orchestrator not configured'' opstack db
            | StackNitro \<Rightarrow> not_configured ''Nitro orchestrator not configured'' nitro db
            | StackPopBundle \<Rightarrow> not_configured ''POPKins bundle orchestrator not configured'' popbundle db
            | StackOther name \<Rightarrow> (db, Some (''unsupported stack: '' @ name))) of
        (db', None) \<Rightarrow> db'
      | (db', Some e) \<Rightarrow> or_same db' (SetDeploymentError f i e db'))"

definition StopDeployment :: "uuid list \<Rightarrow> deploy_faults \<Rightarrow> uuid \<Rightarrow> deploydb \<Rightarrow> deploydb \<times> string option" where
  "StopDeployment running f i db =
     (if i \<notin> set running then (db, Some ''deployment not running'')
      else case UpdateDeploymentStatus f i StatusPaused None db of
        Inl _ \<Rightarrow> (db, Some ''update status'')
      | Inr db' \<Rightarrow> (db', None))"

definition start_all ::
  "('s \<Rightarrow> jsonv \<Rightarrow> 's \<times> (string + jsonv)) \<Rightarrow> deploy_faults \<Rightarrow> uuid list \<Rightarrow> 's \<times> deploydb \<Rightarrow> 's \<times> deploydb" where
  "start_all enrich f is x = foldl (\<lambda>x i. fst (StartDeployment enrich f i x)) x is"

definition ProcessPendingDeployments ::
  "('s \<Rightarrow> jsonv \<Rightarrow> 's \<times> (string + jsonv)) \<Rightarrow> deploy_faults \<Rightarrow> 's \<times> deploydb \<Rightarrow> ('s \<times> deploydb) \<times> string option" where
  "ProcessPendingDeployments enrich f = (\<lambda>(s, db).
     (case ListDeploymentsByStatus f StatusPending db of
        Inl _ \<Rightarrow> ((s, db), Some ''list pending deployments'')
      | Inr pending \<Rightarrow> (start_all enrich f (map dp_ID pending) (s, db), None)))"

section \<open>Pending deployments\<close>

text \<open>Without failing statements, starting one deployment changes its row only: running, or failed with a reason.\<close>

definition started :: "deployment \<Rightarrow> deployment \<Rightarrow> bool" where
  "started d d' \<longleftrightarrow> same_identity d d' \<and>
     (dp_Status d' = StatusRunning \<or> dp_Status d' = StatusFailed \<and> dp_ErrorMessage d' \<noteq> None)"

definition rows_started :: "uuid list \<Rightarrow> deploydb \<Rightarrow> deploydb \<Rightarrow> bool" where
  "rows_started is db db' \<longleftrightarrow>
     list_all2 (\<lambda>d d'. if dp_ID d \<in> set is then started d d' else d' = d) (dd_deployments db) (dd_deployments db')"

lemma update_rows:
  "update_row False i g db = Inr db' \<Longrightarrow> dd_deployments db' =
     map (\<lambda>d. if dp_ID d = i then (g d)\<lparr>dp_UpdatedAt := dd_now db\<rparr> else d) (dd_deployments db)"
  by (auto simp: update_row_def split: if_splits)

lemma rows_started_map:
  "dd_deployments db' = map (\<lambda>d. if dp_ID d = i then g d else d) (dd_deployments db) \<Longrightarrow>
     (\<And>d. started d (g d)) \<Longrightarrow> rows_started [i] db db'"
  by (auto simp: rows_started_def list_all2_map2 list.rel_refl_strong)

lemma rows_started_trans:
  assumes "rows_started is db db1" "rows_started js db1 db2"
  shows "rows_started (is @ js) db db2"
  unfolding rows_started_def
proof (rule list_all2_trans [OF _ assms [unfolded rows_started_def]])
  fix a b c
  assume "if dp_ID a \<in> set is then started a b else b = a" "if dp_ID b \<in> set js then started b c else c = b"
  then show "if dp_ID a \<in> set (is @ js) then started a c else c = a"
    by (auto simp: started_def same_identity_def split: if_splits)
qed

lemma rows_started_same: "set is = set js \<Longrightarrow> rows_started js db db' \<Longrightarrow> rows_started is db db'"
  by (simp add: rows_started_def)

lemma no_row_updates: "GetDeployment no_faults i db = Inl e \<Longrightarrow> rows_started [i] db db"
  by (auto simp: rows_started_def GetDeployment_def find_None_iff intro!: list.rel_refl_strong)

lemma StartDeployment_rows: "rows_started [i] db (snd (fst (StartDeployment enrich no_faults i (s, db))))"
proof (cases "GetDeployment no_faults i db")
  case (Inl e)
  then show ?thesis by (simp add: StartDeployment_def no_row_updates)
next
  case (Inr d)
  then have row: "row_of i db = Some d" by (rule row_of_GetDeployment)
  obtain s' r where e: "enrich s (dp_Config d) = (s', r)" by force
  show ?thesis
  proof (cases r)
    case (Inl m)
    obtain db' where u: "SetDeploymentError no_faults i (''config enrichment failed: '' @ m) db = Inr db'"
      unfolding SetDeploymentError_def using update_row_ok [OF row] by blast
    have "rows_started [i] db db'"
      by (rule rows_started_map [OF update_rows [OF u [unfolded SetDeploymentError_def]]])
        (simp add: started_def same_identity_def)
    then show ?thesis using Inr e Inl u by (simp add: StartDeployment_def or_same_def)
  next
    case c: (Inr c)
    obtain db1 where u1: "UpdateDeploymentConfig no_faults i c db = Inr db1"
      unfolding UpdateDeploymentConfig_def using update_row_ok [OF row] by blast
    have d1: "row_of i db1 \<noteq> None"
      using update_row_Inr(1) [OF u1 [unfolded UpdateDeploymentConfig_def], of i] row by simp
    then obtain y where "row_of i db1 = Some y" by blast
    then obtain db2 where u2: "UpdateDeploymentStatus no_faults i StatusRunning None db1 = Inr db2"
      using update_row_ok [of i db1 y "\<lambda>d. d\<lparr>dp_Status := StatusRunning, dp_CurrentStage := None\<rparr>"]
      by (auto simp: UpdateDeploymentStatus_def status_stored_def)
    have "dd_deployments db2 = map (\<lambda>d. if dp_ID d = i then d\<lparr>dp_Config := c, dp_Status := StatusRunning,
        dp_CurrentStage := None, dp_UpdatedAt := dd_now db1\<rparr> else d) (dd_deployments db)"
      using update_rows [OF u1 [unfolded UpdateDeploymentConfig_def]] update_rows [of i _ db1 db2] u2
      by (auto simp: UpdateDeploymentStatus_def status_stored_def)
    then have "rows_started [i] db db2" by (rule rows_started_map) (simp add: started_def same_identity_def)
    then show ?thesis using Inr e c u1 u2 by (simp add: StartDeployment_def)
  qed
qed

lemma start_all_rows: "rows_started is db (snd (start_all enrich no_faults is (s, db)))"
proof (induction "is" arbitrary: s db)
  case Nil
  then show ?case by (simp add: rows_started_def start_all_def list.rel_refl_strong)
next
  case (Cons i "is")
  obtain s1 db1 r where x: "StartDeployment enrich no_faults i (s, db) = ((s1, db1), r)" by (metis prod.exhaust)
  have "rows_started ([i] @ is) db (snd (start_all enrich no_faults is (s1, db1)))"
    using rows_started_trans [OF _ Cons.IH] StartDeployment_rows [of i db enrich s] x by fastforce
  then show ?case using x by (simp add: start_all_def)
qed

lemma none_pending:
  assumes "rows_started (map dp_ID (filter (\<lambda>d. dp_Status d = StatusPending) (dd_deployments db))) db db'"
  shows "StatusPending \<notin> dp_Status ` set (dd_deployments db')"
proof
  let ?ids = "map dp_ID (filter (\<lambda>d. dp_Status d = StatusPending) (dd_deployments db))"
  assume "StatusPending \<in> dp_Status ` set (dd_deployments db')"
  then obtain n where n: "n < length (dd_deployments db')" "dp_Status (dd_deployments db' ! n) = StatusPending"
    by (auto simp: in_set_conv_nth)
  let ?d = "dd_deployments db ! n" and ?d' = "dd_deployments db' ! n"
  have l: "n < length (dd_deployments db)" and s: "if dp_ID ?d \<in> set ?ids then started ?d ?d' else ?d' = ?d"
    using assms n(1) unfolding rows_started_def list_all2_conv_all_nth by auto
  show False
  proof (cases "dp_ID ?d \<in> set ?ids")
    case True
    then have "started ?d ?d'" using s by simp
    then show False using n(2) by (simp add: started_def)
  next
    case False
    then have "dp_Status ?d = StatusPending" using s n(2) by simp
    then show False using False l by simp
  qed
qed

text \<open>At startup, as long as the database answers, no deployment stays pending, whatever enriching a
  configuration does: each one that was pending runs afterwards, or is failed and says why, and keeps its identity. Every
  other row is as it was.\<close>

lemma pending_deployments_started:
  "snd (ProcessPendingDeployments enrich no_faults (s, db)) = None \<and>
   (let pending = map dp_ID (filter (\<lambda>d. dp_Status d = StatusPending) (dd_deployments db));
        db' = snd (fst (ProcessPendingDeployments enrich no_faults (s, db)))
    in rows_started pending db db' \<and> StatusPending \<notin> dp_Status ` set (dd_deployments db'))"
proof -
  let ?pending = "map dp_ID (filter (\<lambda>d. dp_Status d = StatusPending) (dd_deployments db))"
  let ?db' = "snd (start_all enrich no_faults (map dp_ID (filter (\<lambda>d. dp_Status d = StatusPending) (rev (dd_deployments db)))) (s, db))"
  have "set ?pending = set (map dp_ID (filter (\<lambda>d. dp_Status d = StatusPending) (rev (dd_deployments db))))" by simp
  then have r: "rows_started ?pending db ?db'" by (rule rows_started_same) (rule start_all_rows)
  have "StatusPending \<notin> dp_Status ` set (dd_deployments ?db')" by (rule none_pending [OF r])
  then show ?thesis
    using r by (simp add: ProcessPendingDeployments_def ListDeploymentsByStatus_def list_where_def status_stored_def Let_def)
qed

section \<open>What completed means\<close>

text \<open>The other pipelines work on rows of their stacks: they keep identities, artifacts and every other row.\<close>

definition works_elsewhere :: "uuid \<Rightarrow> deploydb \<Rightarrow> deploydb \<Rightarrow> bool" where
  "works_elsewhere i db db' \<longleftrightarrow>
     (\<forall>j ty. artifact_of j ty db \<noteq> None \<longrightarrow> artifact_of j ty db' \<noteq> None) \<and>
     (\<forall>j. j \<noteq> i \<longrightarrow> row_of j db' = row_of j db) \<and>
     (\<forall>d'. row_of i db' = Some d' \<longrightarrow> dp_Stack d' \<noteq> StackOPStack)"

text \<open>
  The changes of the tables: rows created by the API, deployments started, run, resumed, paused and
  stopped, deployments found stale, jobs of the other stacks, and time.
\<close>

inductive deploy_step :: "deploydb \<Rightarrow> deploydb \<Rightarrow> bool" where
  create: "CreateDeployment f d db = Inr db' \<Longrightarrow> dp_Status d = StatusPending \<Longrightarrow> deploy_step db db'"
| start: "deploy_step db (snd (fst (StartDeployment (\<lambda>s c. (s, enrich c)) f i ((), db))))"
| job: "row_of i db = Some d \<Longrightarrow> dp_Stack d = StackOPStack \<Longrightarrow>
    deploy_step db (run_job (Some (OpDeploy w f i)) nitro popbundle f i StackOPStack db)"
| elsewhere: "row_of i db = Some d \<Longrightarrow> dp_Stack d \<noteq> StackOPStack \<Longrightarrow> works_elsewhere i db db' \<Longrightarrow> deploy_step db db'"
| resume: "deploy_step db (fst (Resume w f i db))"
| pause: "Pause f i db = Inr db' \<Longrightarrow> deploy_step db db'"
| stop: "deploy_step db (fst (StopDeployment running f i db))"
| stale: "MarkStaleDeploymentsFailed f orgID timeout db = Inr (db', n) \<Longrightarrow> deploy_step db db'"
| tick: "deploy_step db (db\<lparr>dd_now := t, dd_orgs := orgs\<rparr>)"

definition completed_ok :: "deploydb \<Rightarrow> bool" where
  "completed_ok db \<longleftrightarrow> (\<forall>i d. row_of i db = Some d \<longrightarrow> dp_Stack d = StackOPStack \<longrightarrow> dp_Status d = StatusCompleted \<longrightarrow>
     artifact_of i ''genesis.json'' db \<noteq> None \<and> artifact_of i ''rollup.json'' db \<noteq> None)"

lemma works_on_completed: "works_on i db db' \<Longrightarrow> completed_ok db \<Longrightarrow> completed_ok db'"
  unfolding completed_ok_def
proof (intro allI impI)
  fix j d'
  assume w: "works_on i db db'" and ok: "\<forall>i d. row_of i db = Some d \<longrightarrow> dp_Stack d = StackOPStack \<longrightarrow>
      dp_Status d = StatusCompleted \<longrightarrow> artifact_of i ''genesis.json'' db \<noteq> None \<and> artifact_of i ''rollup.json'' db \<noteq> None"
    and d': "row_of j db' = Some d'" "dp_Stack d' = StackOPStack" "dp_Status d' = StatusCompleted"
  obtain d where "row_of j db = Some d" "dp_Stack d = StackOPStack" "dp_Status d = StatusCompleted"
  proof (cases "j = i")
    case True
    then show ?thesis using w d' that by (cases "row_of i db") (auto simp: works_on_def same_identity_def)
  next
    case False
    then show ?thesis using w d' that by (simp add: works_on_def)
  qed
  then show "artifact_of j ''genesis.json'' db' \<noteq> None \<and> artifact_of j ''rollup.json'' db' \<noteq> None"
    using ok w by (simp add: works_on_def)
qed

lemma mark_completed:
  assumes "completed_ok db" "MarkComplete f i db = Inr db'"
    "artifact_of i ''genesis.json'' db \<noteq> None" "artifact_of i ''rollup.json'' db \<noteq> None"
  shows "completed_ok db'"
proof -
  let ?g = "\<lambda>d. d\<lparr>dp_Status := StatusCompleted, dp_CurrentStage := Some StageCompleted\<rparr>"
  have id: "dp_ID (?g d) = dp_ID d" for d by simp
  have "update_row (f (QStatus StatusCompleted (Some StageCompleted)) \<or> \<not> status_stored StatusCompleted) i ?g db = Inr db'"
    using assms(2) by (simp add: MarkComplete_def UpdateDeploymentStatus_def)
  note u = update_row_Inr [OF this id]
  show ?thesis
    using assms(1,3,4) unfolding completed_ok_def artifacts_same [OF u(3)] u(1) by (metis option.distinct(1))
qed

lemma OpDeploy_completed: "completed_ok db \<Longrightarrow> completed_ok (fst (OpDeploy w f i db))"
proof -
  assume ok: "completed_ok db"
  obtain db' r where x: "OpDeploy w f i db = (db', r)" by force
  from OpDeploy_effect [OF x] have "completed_ok db'"
    using ok works_on_completed mark_completed by metis
  then show ?thesis using x by simp
qed

lemma or_same_completed: "completed_ok db \<Longrightarrow> (\<And>db'. r = Inr db' \<Longrightarrow> works_on i db db') \<Longrightarrow> completed_ok (or_same db r)"
  using or_same_works_on works_on_completed by blast

lemma Config_works_on: "UpdateDeploymentConfig f i c db = Inr db' \<Longrightarrow> works_on i db db'"
  unfolding UpdateDeploymentConfig_def by (erule update_works_on) (auto simp: same_identity_def)

lemma StartDeployment_works_on: "works_on i db (snd (fst (StartDeployment enrich f i (s, db))))"
proof -
  have "works_on i db db2" if "UpdateDeploymentConfig f i c db = Inr db1"
    "UpdateDeploymentStatus f i StatusRunning None db1 = Inr db2" for c db1 db2
    using works_on_trans [OF Config_works_on [OF that(1)] status_works_on [OF that(2)]] by simp
  then show ?thesis
    unfolding StartDeployment_def
    by (auto split: sum.split prod.split intro: Config_works_on or_same_works_on SetError_works_on)
qed

lemma created_completed:
  assumes "completed_ok db" "CreateDeployment f d db = Inr db'" "dp_Status d = StatusPending"
  shows "completed_ok db'"
proof -
  have db': "db' = db\<lparr>dd_deployments := dd_deployments db @ [d\<lparr>dp_UpdatedAt := dd_now db\<rparr>]\<rparr>"
    using assms(2) by (auto simp: CreateDeployment_def split: if_splits)
  have "row_of i db = Some e" if "row_of i db' = Some e" "dp_Status e = StatusCompleted" for i e
    using that assms(3) by (auto simp: db' row_of_def find_append split: option.splits if_splits)
  then show ?thesis using assms(1) by (auto simp: completed_ok_def db' artifact_of_def)
qed

lemma stale_completed:
  assumes "completed_ok db" "MarkStaleDeploymentsFailed f orgID timeout db = Inr (db', n)"
  shows "completed_ok db'"
proof -
  let ?g = "\<lambda>d. if stale orgID timeout db d
             then d\<lparr>dp_Status := StatusFailed, dp_ErrorMessage := Some stale_message, dp_UpdatedAt := dd_now db\<rparr> else d"
  have db': "db' = db\<lparr>dd_deployments := map ?g (dd_deployments db)\<rparr>"
    using assms(2) by (auto simp: MarkStaleDeploymentsFailed_def split: if_splits)
  have "dp_ID (?g d) = dp_ID d" for d by simp
  then have "row_of i db' = map_option ?g (row_of i db)" for i
    unfolding row_of_def db' by (simp add: find_map_key)
  then show ?thesis using assms(1) by (auto simp: completed_ok_def db' artifact_of_def split: if_splits)
qed

lemma deploy_step_completed: "deploy_step db db' \<Longrightarrow> completed_ok db \<Longrightarrow> completed_ok db'"
proof (induction rule: deploy_step.induct)
  case (job i db d w f nitro popbundle)
  obtain db1 r where x: "OpDeploy w f i db = (db1, r)" by force
  then have "completed_ok db1" using OpDeploy_completed [OF job.prems, of w f i] by simp
  then show ?case using x or_same_completed [OF _ SetError_works_on]
    by (auto simp: run_job_def not_configured_def split: option.split)
next
  case (elsewhere i db d db')
  then show ?case unfolding completed_ok_def works_elsewhere_def by metis
next
  case (resume db w f i)
  have "completed_ok (or_same db (ClearError f i db))"
    by (rule or_same_completed [OF resume.prems ClearError_works_on])
  then show ?case using resume.prems OpDeploy_completed
    by (auto simp: Resume_def split: sum.split bool.split)
next
  case (pause f i db db')
  then show ?case using works_on_completed [OF status_works_on] by (auto simp: Pause_def MarkPaused_def)
next
  case (stop db running f i)
  then show ?case using works_on_completed [OF status_works_on]
    by (auto simp: StopDeployment_def split: sum.split)
next
  case (tick db t orgs)
  then show ?case by (simp add: completed_ok_def row_of_def artifact_of_def)
next
  case (create f d db db')
  from created_completed [OF create.prems create.hyps] show ?case .
next
  case (start db enrich f i)
  from works_on_completed [OF StartDeployment_works_on start.prems] show ?case .
next
  case (stale f orgID timeout db db' n)
  from stale_completed [OF stale.prems stale.hyps] show ?case .
qed

text \<open>Property C29. Whatever happens to the deployments, from an empty table on, whatever fails and in whatever order they are created,
  started, run, resumed, paused, stopped or found stale: an OP Stack deployment that is shown as completed has its genesis and
  its rollup file stored.\<close>

theorem completed_has_files:
  assumes "deploy_step\<^sup>*\<^sup>* db0 db" "dd_deployments db0 = []"
    "row_of i db = Some d" "dp_Stack d = StackOPStack" "dp_Status d = StatusCompleted"
  shows "artifact_of i ''genesis.json'' db \<noteq> None \<and> artifact_of i ''rollup.json'' db \<noteq> None"
proof -
  have "completed_ok db"
    using assms(1)
  proof (induction rule: rtranclp_induct)
    case base
    show ?case using assms(2) by (simp add: completed_ok_def row_of_def)
  qed (rule deploy_step_completed)
  then show ?thesis using assms(3-5) unfolding completed_ok_def by blast
qed

section \<open>An example\<close>

abbreviation sample_jobs :: "deploydb" where
  "sample_jobs \<equiv> run_job (Some (OpDeploy sample_world no_faults 1)) None None no_faults 1 StackOPStack
     (sample_tables [sample_row\<lparr>dp_Status := StatusPending, dp_UpdatedAt := 5\<rparr>])"

lemma sample_run: "deploy_step\<^sup>*\<^sup>* (sample_tables []) sample_jobs"
proof -
  let ?d = "sample_row\<lparr>dp_Status := StatusPending\<rparr>"
  have "CreateDeployment no_faults ?d (sample_tables []) = Inr (sample_tables [?d\<lparr>dp_UpdatedAt := 5\<rparr>])"
    by (simp add: CreateDeployment_def sample_tables_def sample_row_def status_stored_def)
  then have "deploy_step (sample_tables []) (sample_tables [?d\<lparr>dp_UpdatedAt := 5\<rparr>])" by (rule deploy_step.create) simp
  moreover have "deploy_step (sample_tables [?d\<lparr>dp_UpdatedAt := 5\<rparr>]) sample_jobs"
    by (rule deploy_step.job [of 1 _ "?d\<lparr>dp_UpdatedAt := 5\<rparr>"]) (simp_all add: row_of_def sample_tables_def sample_row_def)
  ultimately show ?thesis by simp
qed

lemma completed_has_files_witness:
  "artifact_of 1 ''genesis.json'' sample_jobs \<noteq> None \<and> artifact_of 1 ''rollup.json'' sample_jobs \<noteq> None"
proof -
  let ?d = "sample_row\<lparr>dp_Status := StatusPending, dp_UpdatedAt := 5\<rparr>"
  have r: "row_of 1 (sample_tables [?d]) = Some ?d" by (simp add: row_of_def sample_tables_def sample_row_def)
  have p: "ParseConfig (dp_Config ?d) = Inr sample_config" using sample_config_parsed by simp
  obtain db' d' where o: "OpDeploy sample_world no_faults 1 (sample_tables [?d]) = (db', None)" "row_of 1 db' = Some d'"
    "dp_Status d' = StatusCompleted" "same_identity ?d d'"
    by (rule OpDeploy_completes [OF r p sample_succeeds])
  have j: "sample_jobs = db'" using o(1) by (simp add: run_job_def not_configured_def)
  have "dp_Stack d' = StackOPStack" using o(4) by (simp add: same_identity_def sample_row_def)
  from completed_has_files [OF sample_run _ _ this o(3), of 1] show ?thesis
    using o(2) j by (simp add: sample_tables_def)
qed

section \<open>The key of a started deployment\<close>

lemma object_key_set [simp]:
  "object_key (set_key k v j) k' = (if k' = k then v else object_key j k')"
proof -
  have "map_of (rev (filter (\<lambda>kv. fst kv \<noteq> k) kvs)) k' = map_of (rev kvs) k'" if "k' \<noteq> k" for kvs :: "(string \<times> jsonv) list"
    using that by (induction kvs) (auto simp: map_add_def split: option.splits)
  then show ?thesis by (cases "(k, v, j)" rule: set_key.cases) (auto simp: object_key_def)
qed

lemma set_role_key: "k \<noteq> target \<Longrightarrow> object_key (set_role parse get field target c) k = object_key c k"
  by (simp add: set_role_def split: option.split sum.split)

lemma resolve_keys_key:
  assumes "resolve_keys parse get c = Inr c'" "k \<notin> {''deployer_address'', ''batcher_address'', ''proposer_address''}"
  shows "object_key c' k = object_key c k"
  using assms by (auto simp: resolve_keys_def set_role_key split: option.splits sum.splits)

text \<open>The configuration keeps every field but those the enrichment is for.\<close>

lemma enrichConfig_Inr:
  assumes "enrichConfig parse endpoint (Some manager) resolver raw s = (s', Inr c)"
    "text_of (object_key (through_map raw) ''stack'') \<noteq> Some ''pop-bundle''"
  obtains org key where "manager org s = (s', Inr key)"
    "object_key c ''popsigner_api_key'' = JString key" "object_key c ''popsigner_endpoint'' = JString (endpoint @ ''/v1'')"
    "\<forall>k. k \<notin> {''popsigner_endpoint'', ''popsigner_api_key'', ''deployer_address'', ''batcher_address'', ''proposer_address''} \<longrightarrow>
       object_key c k = object_key (through_map raw) k"
proof -
  let ?c1 = "set_key ''popsigner_endpoint'' (JString (endpoint @ ''/v1'')) (through_map raw)"
  have struct: "is_struct raw" using assms(1) by (rule contrapos_pp) (simp add: enrichConfig_def)
  obtain orgStr where t: "text_of (object_key (through_map raw) ''org_id'') = Some orgStr"
    using assms(1) struct by (cases "text_of (object_key (through_map raw) ''org_id'')") (simp_all add: enrichConfig_def)
  have ne: "orgStr \<noteq> []" using assms(1) struct t by (auto simp: enrichConfig_def)
  obtain org where o: "parse orgStr = Some org"
    using assms(1) struct t ne by (cases "parse orgStr") (simp_all add: enrichConfig_def)
  obtain s1 r where m: "manager org s = (s1, r)" by force
  have e: "enrichConfig parse endpoint (Some manager) resolver raw s =
      (case (s1, r) of (s', Inl e) \<Rightarrow> (s', Inl ''get/create API key'')
                    | (s', Inr key) \<Rightarrow>
                        (let c2 = set_key ''popsigner_api_key'' (JString key) ?c1
                         in (s', case resolver of None \<Rightarrow> Inr c2 | Some get \<Rightarrow> resolve_keys parse (get org) c2)))"
    by (simp add: enrichConfig_def struct t ne o assms(2) m)
  obtain key where r: "r = Inr key" "s1 = s'" using e assms(1) by (cases r) (auto simp: Let_def)
  let ?c2 = "set_key ''popsigner_api_key'' (JString key) ?c1"
  have c: "(case resolver of None \<Rightarrow> Inr ?c2 | Some get \<Rightarrow> resolve_keys parse (get org) ?c2) = Inr c"
    using e assms(1) r by (simp add: Let_def)
  have k: "object_key c k = object_key ?c2 k" if "k \<notin> {''deployer_address'', ''batcher_address'', ''proposer_address''}" for k
  proof (cases resolver)
    case None
    then have "c = ?c2" using c by simp
    then show ?thesis by simp
  next
    case (Some get)
    then have "resolve_keys parse (get org) ?c2 = Inr c" using c by simp
    then show ?thesis using that by (rule resolve_keys_key)
  qed
  show ?thesis using that [of org key] m r by (simp add: k)
qed

text \<open>The key of an organization's deployments is accepted at the moment it is handed out.\<close>

lemma deployment_key_validates:
  assumes "argon_ok (km_argon m)" "length secret = 24" "\<not> g SelectApiKey"
    "\<forall>r\<in>set (kt_rows s). ar_KeyPrefix r \<noteq> ''bbr_live_'' @ take 8 (base62Encode secret)"
    "GetOrCreateForDeployment m g now keyID (Some secret) salt kdb org s = (s', Inr key)"
  shows "\<exists>k. api_Validate (km_argon m) g now (kt_rows s') key = Inr k"
proof -
  have new: "\<exists>k. api_Validate (km_argon m) g now (kt_rows s') key = Inr k"
    if n: "new_deployment_key m g now keyID (Some secret) salt kdb org s1 = (s', Inr key)" and s1: "kt_rows s1 = kt_rows s" for s1
  proof -
    obtain rows' row where c: "api_Create (km_argon m) g now keyID (Some secret) salt kdb org deployment_key_request (kt_rows s1) =
        (rows', Inr (row, key))" and s': "kt_rows s' = rows'"
      using n by (auto simp: new_deployment_key_def split: prod.splits sum.splits)
    have "ar_KeyPrefix row = ''bbr_live_'' @ take 8 (base62Encode secret)"
    proof -
      from api_Create_Inr [OF c] obtain env where "check_create g kdb org deployment_key_request = Inr env"
        "ar_KeyPrefix row = ''bbr_'' @ env @ ''_'' @ take 8 (base62Encode secret)" by (metis option.inject)
      then show ?thesis by (auto simp: check_create_def deployment_key_request_def split: if_splits option.splits)
    qed
    then have "\<forall>r\<in>set (kt_rows s1). ar_KeyPrefix r \<noteq> ar_KeyPrefix row" using assms(4) s1 by simp
    moreover have "case expires_at now (ca_ExpiresInDays deployment_key_request) of None \<Rightarrow> True | Some t \<Rightarrow> now \<le> t"
      by (simp add: deployment_key_request_def expires_at_def)
    ultimately show ?thesis using created_key_validates [where f' = g and now' = now, OF assms(1,2) c _ assms(3)] s' by blast
  qed
  obtain w1 stored where w: "getStoredKey m org (kt_world s) = (w1, stored)" by force
  show ?thesis
  proof (cases stored)
    case None
    then show ?thesis using assms(5) w new [of "s\<lparr>kt_world := w1\<rparr>"] by (simp add: GetOrCreateForDeployment_def)
  next
    case (Some existing)
    then show ?thesis using assms(5) w new [of "s\<lparr>kt_world := deleteStoredKey m org w1\<rparr>"]
      by (auto simp: GetOrCreateForDeployment_def split: sum.splits)
  qed
qed

lemma StartDeployment_Inr:
  assumes "StartDeployment enrich f i (s, db) = ((s', db'), Inr st)" "row_of i db = Some d"
  shows "\<exists>c db1. enrich s (dp_Config d) = (s', Inr c) \<and> UpdateDeploymentConfig f i c db = Inr db1 \<and>
    UpdateDeploymentStatus f i StatusRunning None db1 = Inr db'"
proof -
  have get: "GetDeployment f i db = Inr d"
    using assms row_of_GetDeployment [of f i db] by (cases "GetDeployment f i db") (auto simp: StartDeployment_def)
  obtain s1 r where e: "enrich s (dp_Config d) = (s1, r)" by force
  show ?thesis
  proof (cases r)
    case (Inr c)
    then show ?thesis using assms(1) get e
      by (cases "UpdateDeploymentConfig f i c db") (auto simp: StartDeployment_def split: sum.splits)
  qed (use assms(1) get e in \<open>simp add: StartDeployment_def\<close>)
qed

text \<open>A deployment that was started is running with a configuration that can authenticate: unless it is a bundle,
  its \<open>popsigner_api_key\<close> is a key that validation accepts at that moment (a stored one was checked, a new one was created),
  its endpoint is the signer's, and every field the enrichment is not for is what it was.\<close>

lemma started_deployment_authenticates:
  assumes "argon_ok (km_argon m)" "length secret = 24" "\<not> g SelectApiKey"
    "\<forall>r\<in>set (kt_rows s). ar_KeyPrefix r \<noteq> ''bbr_live_'' @ take 8 (base62Encode secret)"
    "row_of i db = Some d" "text_of (object_key (through_map (dp_Config d)) ''stack'') \<noteq> Some ''pop-bundle''"
    "StartDeployment (\<lambda>s c. enrichConfig parse endpoint (Some (GetOrCreateForDeployment m g now keyID (Some secret) salt kdb)) resolver c s)
       f i (s, db) = ((s', db'), Inr st)"
  shows "\<exists>d' key k. row_of i db' = Some d' \<and> dp_Status d' = StatusRunning \<and>
    object_key (dp_Config d') ''popsigner_api_key'' = JString key \<and> api_Validate (km_argon m) g now (kt_rows s') key = Inr k \<and>
    object_key (dp_Config d') ''popsigner_endpoint'' = JString (endpoint @ ''/v1'') \<and>
    (\<forall>n. n \<notin> {''popsigner_endpoint'', ''popsigner_api_key'', ''deployer_address'', ''batcher_address'', ''proposer_address''} \<longrightarrow>
       object_key (dp_Config d') n = object_key (through_map (dp_Config d)) n)"
proof -
  let ?enrich = "\<lambda>s c. enrichConfig parse endpoint (Some (GetOrCreateForDeployment m g now keyID (Some secret) salt kdb)) resolver c s"
  from StartDeployment_Inr [OF assms(7,5)] obtain c db1 where e: "?enrich s (dp_Config d) = (s', Inr c)"
    and u: "UpdateDeploymentConfig f i c db = Inr db1" "UpdateDeploymentStatus f i StatusRunning None db1 = Inr db'" by blast
  obtain org key where k: "GetOrCreateForDeployment m g now keyID (Some secret) salt kdb org s = (s', Inr key)"
    "object_key c ''popsigner_api_key'' = JString key" "object_key c ''popsigner_endpoint'' = JString (endpoint @ ''/v1'')"
    "\<forall>k. k \<notin> {''popsigner_endpoint'', ''popsigner_api_key'', ''deployer_address'', ''batcher_address'', ''proposer_address''} \<longrightarrow>
       object_key c k = object_key (through_map (dp_Config d)) k"
    by (rule enrichConfig_Inr [OF e assms(6)])
  have id: "dp_ID (d\<lparr>dp_Config := c\<rparr>) = dp_ID d" "dp_ID (d\<lparr>dp_Status := StatusRunning, dp_CurrentStage := None\<rparr>) = dp_ID d" for d by simp_all
  have r1: "row_of i db1 = Some (d\<lparr>dp_Config := c, dp_UpdatedAt := dd_now db\<rparr>)"
    using update_row_Inr(1) [OF u(1) [unfolded UpdateDeploymentConfig_def] id(1), of i] assms(5) by simp
  have r2: "row_of i db' = Some (d\<lparr>dp_Config := c, dp_Status := StatusRunning, dp_CurrentStage := None, dp_UpdatedAt := dd_now db1\<rparr>)"
    using update_row_Inr(1) [OF u(2) [unfolded UpdateDeploymentStatus_def] id(2), of i] r1 by simp
  show ?thesis using r2 k deployment_key_validates [OF assms(1-4) k(1)] by auto
qed

lemma StartDeployment_ok:
  assumes "row_of i db = Some d" "enrich s (dp_Config d) = (s', Inr c)"
  shows "\<exists>db'. StartDeployment enrich no_faults i (s, db) = ((s', db'), Inr (dp_Stack d))"
proof -
  obtain db1 where u1: "UpdateDeploymentConfig no_faults i c db = Inr db1"
    unfolding UpdateDeploymentConfig_def using update_row_ok [OF assms(1)] by blast
  obtain y where "row_of i db1 = Some y" using Config_works_on [OF u1] assms(1) by (auto simp: works_on_def)
  then obtain db2 where "UpdateDeploymentStatus no_faults i StatusRunning None db1 = Inr db2"
    using update_row_ok [of i db1 y "\<lambda>d. d\<lparr>dp_Status := StatusRunning, dp_CurrentStage := None\<rparr>"]
    by (auto simp: UpdateDeploymentStatus_def status_stored_def)
  then show ?thesis using assms(2) u1 GetDeployment_ok [OF assms(1)] by (simp add: StartDeployment_def)
qed

definition sample_manager :: "unit key_manager" where
  "sample_manager = \<lparr>km_http = (\<lambda>w _. (w, NoReply)), km_bao = None, km_argon = toy_argon, km_text = (\<lambda>_. ''o'')\<rparr>"

definition sample_keys :: "unit key_state" where
  "sample_keys = \<lparr>kt_world = (), kt_rows = []\<rparr>"

definition pending_row :: deployment where
  "pending_row = sample_row\<lparr>dp_Status := StatusPending,
     dp_Config := JObject [(''org_id'', JString ''o''), (''stack'', JString ''opstack'')]\<rparr>"

definition sample_enrich :: "unit key_state \<Rightarrow> jsonv \<Rightarrow> unit key_state \<times> (string + jsonv)" where
  "sample_enrich = (\<lambda>s c. enrichConfig (\<lambda>_. Some 7) ''http://s''
     (Some (GetOrCreateForDeployment sample_manager (\<lambda>_. False) 5 9 (Some example_secret) (Some example_salt) example_db))
     (None :: (uuid \<Rightarrow> uuid \<Rightarrow> svc_error + key_row) option) c s)"

lemma sample_key:
  obtains s' where "GetOrCreateForDeployment sample_manager (\<lambda>_. False) 5 9 (Some example_secret) (Some example_salt) example_db 7
    sample_keys = (s', Inr (''bbr_live_'' @ base62Encode example_secret))"
proof -
  have c: "check_create (\<lambda>_. False) example_db 7 deployment_key_request = Inr ''live''"
    by (simp add: check_create_def deployment_key_request_def IsValidScope_def TrimSpace_def space_char_def)
  have "\<exists>row. api_Create toy_argon (\<lambda>_. False) 5 9 (Some example_secret) (Some example_salt) example_db 7 deployment_key_request [] =
      ([row], Inr (row, ''bbr_live_'' @ base62Encode example_secret))"
  proof -
    obtain h where h: "hashKey toy_argon (Some example_salt) (''bbr_'' @ ''live'' @ ''_'' @ base62Encode example_secret) = Some h"
      using example_hash by blast
    show ?thesis
      unfolding api_Create_def c generateKey_Some by (simp add: h del: append.simps) (simp add: repo_insert_def Let_def)
  qed
  then show ?thesis
    using that by (auto simp: GetOrCreateForDeployment_def getStoredKey_def new_deployment_key_def sample_manager_def sample_keys_def
        storeKey_def split: prod.splits)
qed

lemma sample_start:
  obtains s' db' where "StartDeployment sample_enrich no_faults 1 (sample_keys, sample_tables [pending_row]) = ((s', db'), Inr StackOPStack)"
proof -
  obtain s' where "GetOrCreateForDeployment sample_manager (\<lambda>_. False) 5 9 (Some example_secret) (Some example_salt) example_db 7
    sample_keys = (s', Inr (''bbr_live_'' @ base62Encode example_secret))" by (rule sample_key)
  then obtain c where "sample_enrich sample_keys (dp_Config pending_row) = (s', Inr c)"
    by (simp add: sample_enrich_def enrichConfig_def pending_row_def object_key_def text_of_def)
  then have e: "sample_enrich sample_keys (dp_Config pending_row) = (s', Inr c)" .
  have "row_of 1 (sample_tables [pending_row]) = Some pending_row"
    by (simp add: row_of_def sample_tables_def pending_row_def sample_row_def)
  from StartDeployment_ok [where enrich = sample_enrich, OF this e] show ?thesis using that by (auto simp: pending_row_def sample_row_def)
qed

lemma started_deployment_authenticates_witness:
  "\<exists>s' db' d' key k. StartDeployment sample_enrich no_faults 1 (sample_keys, sample_tables [pending_row]) = ((s', db'), Inr StackOPStack) \<and>
    row_of 1 db' = Some d' \<and> dp_Status d' = StatusRunning \<and> object_key (dp_Config d') ''popsigner_api_key'' = JString key \<and>
    api_Validate toy_argon (\<lambda>_. False) 5 (kt_rows s') key = Inr k"
proof -
  obtain s' db' where s: "StartDeployment sample_enrich no_faults 1 (sample_keys, sample_tables [pending_row]) = ((s', db'), Inr StackOPStack)"
    by (rule sample_start)
  have r: "row_of 1 (sample_tables [pending_row]) = Some pending_row"
    by (simp add: row_of_def sample_tables_def pending_row_def sample_row_def)
  have k: "\<forall>r\<in>set (kt_rows sample_keys). ar_KeyPrefix r \<noteq> ''bbr_live_'' @ take 8 (base62Encode example_secret)"
    by (simp add: sample_keys_def)
  have p: "text_of (object_key (through_map (dp_Config pending_row)) ''stack'') \<noteq> Some ''pop-bundle''"
    by (simp add: pending_row_def object_key_def text_of_def)
  have a: "argon_ok (km_argon sample_manager)" using toy_argon_ok by (simp add: sample_manager_def)
  have f: "\<not> (\<lambda>_. False) SelectApiKey" by simp
  from started_deployment_authenticates [OF a example_length f k r p s [unfolded sample_enrich_def]] s show ?thesis
    by (auto simp: sample_manager_def)
qed

section \<open>Behaviour to know about\<close>

text \<open>A chain ID above \<open>2 ^ 53\<close> is another one after the enrichment.\<close>

lemma chain_id_rounded: "float64_nat 9007199254740993 = 9007199254740992"
  by (simp add: float64_nat_def bit_width.simps)

text \<open>A job that was stopped is first paused, then failed by its own goroutine once its context is cancelled.\<close>

lemma stopped_ends_failed:
  assumes "row_of i db = Some d" "StopDeployment running no_faults i db = (db1, None)"
  shows "\<exists>d'. row_of i (run_job None None (Some (\<lambda>db. (db, Some ''context canceled''))) no_faults i StackPopBundle db1) = Some d' \<and>
    dp_Status d' = StatusFailed \<and> dp_ErrorMessage d' = Some ''context canceled''"
proof -
  have u: "UpdateDeploymentStatus no_faults i StatusPaused None db = Inr db1"
    using assms(2) by (auto simp: StopDeployment_def split: if_splits sum.splits)
  obtain d1 where d1: "row_of i db1 = Some d1" using status_works_on [OF u] assms(1) by (auto simp: works_on_def)
  obtain db2 where e: "SetDeploymentError no_faults i ''context canceled'' db1 = Inr db2"
    using update_row_ok [OF d1] by (auto simp: SetDeploymentError_def)
  let ?g = "\<lambda>d. d\<lparr>dp_Status := StatusFailed, dp_ErrorMessage := Some ''context canceled''\<rparr>"
  have id: "dp_ID (?g d) = dp_ID d" for d by simp
  show ?thesis
    using update_row_Inr(1) [OF e [unfolded SetDeploymentError_def] id, of i] d1 e
    by (simp add: run_job_def not_configured_def or_same_def)
qed

end
