(* ===== verification/Archives.thy ===== *)
theory Archives
  imports GoText
begin

text \<open>
  Unpacking the contract artifacts, \<open>bootstrap/opstack/contract_artifacts.go\<close>: the loop of
  \<open>extractTzst\<close> over the entries of the archive, with \<open>path/filepath\<close> and the file operations it uses.
  Paths are those of Unix. A file system maps absolute paths, lists of names from the root, to
  directories, files and symbolic links; the kernel follows at most 40 links. Decompression is a
  parameter: the entries it delivers. Modes and permissions have no counterpart.
\<close>

section \<open>Lexical paths\<close>

definition slash :: char where "slash = CHR ''/''"

definition rooted :: "string \<Rightarrow> bool" where
  "rooted p \<longleftrightarrow> p \<noteq> [] \<and> hd p = slash"

text \<open>The names between the separators, empty ones and \<open>.\<close> dropped.\<close>

definition names_of :: "string \<Rightarrow> string list" where
  "names_of p = filter (\<lambda>n. n \<noteq> [] \<and> n \<noteq> ''.'') (split_on slash p)"

text \<open>\<open>..\<close> takes back a name; at the root it has no effect, at the start of a relative path it stays.\<close>

definition clean_step :: "bool \<Rightarrow> string list \<Rightarrow> string \<Rightarrow> string list" where
  "clean_step root done n =
     (if n \<noteq> ''..'' then done @ [n]
      else if done \<noteq> [] \<and> last done \<noteq> ''..'' then butlast done
      else if root then done else done @ [n])"

definition clean_names :: "bool \<Rightarrow> string list \<Rightarrow> string list" where
  "clean_names root ns = foldl (clean_step root) [] ns"

fun with_slashes :: "string list \<Rightarrow> string" where
  "with_slashes [] = []"
| "with_slashes [n] = n"
| "with_slashes (n # ns) = n @ slash # with_slashes ns"

definition Clean :: "string \<Rightarrow> string" where
  "Clean p =
     (let s = with_slashes (clean_names (rooted p) (names_of p))
      in if rooted p then slash # s else if s = [] then ''.'' else s)"

text \<open>\<open>filepath.Join\<close> of two elements, \<open>filepath.Abs\<close> in a working directory.\<close>

definition Join :: "string \<Rightarrow> string \<Rightarrow> string" where
  "Join a b = (if a = [] \<and> b = [] then [] else if a = [] then Clean b else if b = [] then Clean a else Clean (a @ slash # b))"

definition Abs :: "string \<Rightarrow> string \<Rightarrow> string" where
  "Abs cwd p = (if rooted p then Clean p else Join cwd p)"

section \<open>The file system\<close>

datatype node = Dir | File bytes | Link string

type_synonym fs = "(string list \<times> node) list"

definition node_at :: "fs \<Rightarrow> string list \<Rightarrow> node option" where
  "node_at m p = map_of m p"

definition without :: "string list \<Rightarrow> fs \<Rightarrow> fs" where
  "without p m = filter (\<lambda>e. fst e \<noteq> p) m"

definition put :: "string list \<Rightarrow> node \<Rightarrow> fs \<Rightarrow> fs" where
  "put p n m = (p, n) # without p m"

lemma node_at_without [simp]: "node_at (without p m) q = (if q = p then None else node_at m q)"
  by (induction m) (auto simp: node_at_def without_def)

lemma node_at_put [simp]: "node_at (put p n m) q = (if q = p then Some n else node_at m q)"
  using node_at_without [of p m q] by (simp add: node_at_def put_def)

text \<open>
  Where a path leads: the links left to follow, where we are, and the names still to go. The root is a
  directory. A missing last name is a place where something can be created.
\<close>

function resolve :: "fs \<Rightarrow> nat \<Rightarrow> string list \<Rightarrow> string list \<Rightarrow> string list option" where
  "resolve m k cur [] = Some cur"
| "resolve m k cur (n # ns) =
     (if n = ''..'' then resolve m k (butlast cur) ns
      else case node_at m (cur @ [n]) of
        Some (Link t) \<Rightarrow> if k = 0 then None else resolve m (k - 1) (if rooted t then [] else cur) (names_of t @ ns)
      | Some Dir \<Rightarrow> resolve m k (cur @ [n]) ns
      | Some (File _) \<Rightarrow> if ns = [] then Some (cur @ [n]) else None
      | None \<Rightarrow> if ns = [] then Some (cur @ [n]) else None)"
  by pat_completeness auto
termination
  by (relation "measures [\<lambda>(m, k, cur, ns). k, \<lambda>(m, k, cur, ns). length ns]") auto

definition max_links :: nat where "max_links = 40"

definition is_dir :: "fs \<Rightarrow> string list \<Rightarrow> bool" where
  "is_dir m d \<longleftrightarrow> d = [] \<or> node_at m d = Some Dir"

definition follow :: "fs \<Rightarrow> string \<Rightarrow> string list option" where
  "follow m p = resolve m max_links [] (names_of p)"

text \<open>The place of the last name, itself not followed.\<close>

definition place :: "fs \<Rightarrow> string list \<Rightarrow> string list option" where
  "place m ns =
     (if ns = [] \<or> last ns = ''..'' then None
      else case resolve m max_links [] (butlast ns) of
        None \<Rightarrow> None
      | Some d \<Rightarrow> if is_dir m d then Some (d @ [last ns]) else None)"

text \<open>One directory: there already, also through a link, or made at its place.\<close>

definition mkdir_one :: "string list \<Rightarrow> fs \<Rightarrow> fs option" where
  "mkdir_one ns m =
     (case resolve m max_links [] ns of
        None \<Rightarrow> None
      | Some d \<Rightarrow>
          if is_dir m d then Some m
          else case place m ns of
            None \<Rightarrow> None
          | Some p \<Rightarrow> if node_at m p = None then Some (put p Dir m) else None)"

text \<open>The directories on the way are made even if a later one cannot be.\<close>

fun mkdirs :: "string list list \<Rightarrow> fs \<Rightarrow> fs \<times> bool" where
  "mkdirs [] m = (m, True)"
| "mkdirs (ns # rest) m = (case mkdir_one ns m of None \<Rightarrow> (m, False) | Some m' \<Rightarrow> mkdirs rest m')"

definition prefixes_of :: "'a list \<Rightarrow> 'a list list" where
  "prefixes_of xs = map (\<lambda>n. take n xs) [1..<Suc (length xs)]"

definition MkdirAll :: "string \<Rightarrow> fs \<Rightarrow> fs \<times> bool" where
  "MkdirAll p m = mkdirs (prefixes_of (names_of p)) m"

text \<open>Create or truncate, and write: through links, not onto a directory.\<close>

definition WriteFile :: "string \<Rightarrow> bytes \<Rightarrow> fs \<Rightarrow> fs option" where
  "WriteFile p content m =
     (case follow m p of
        None \<Rightarrow> None
      | Some d \<Rightarrow> if is_dir m d \<or> \<not> is_dir m (butlast d) then None else Some (put d (File content) m))"

text \<open>A link, a file or an empty directory goes; anything else stays, and the error is ignored.\<close>

definition Remove :: "string \<Rightarrow> fs \<Rightarrow> fs" where
  "Remove p m =
     (case place m (names_of p) of
        None \<Rightarrow> m
      | Some d \<Rightarrow> if list_ex (\<lambda>e. has_prefix d (fst e) \<and> fst e \<noteq> d) m then m else without d m)"

definition Symlink :: "string \<Rightarrow> string \<Rightarrow> fs \<Rightarrow> fs option" where
  "Symlink target p m =
     (case place m (names_of p) of
        None \<Rightarrow> None
      | Some d \<Rightarrow> if target \<noteq> [] \<and> node_at m d = None then Some (put d (Link target) m) else None)"

section \<open>The extraction\<close>

text \<open>A file comes with the bytes that could be read, and whether these were all.\<close>

datatype entry_kind = TypeDir | TypeReg bytes bool | TypeSymlink string | TypeOther

record tar_entry =
  te_Name :: string
  te_Kind :: entry_kind

text \<open>\<open>filepath.Dir\<close> of a clean path.\<close>

definition parent_path :: "string \<Rightarrow> string" where
  "parent_path p =
     (let s = with_slashes (butlast (names_of p)) in if rooted p then slash # s else if s = [] then ''.'' else s)"

definition inside :: "string \<Rightarrow> string \<Rightarrow> bool" where
  "inside absDest absTarget \<longleftrightarrow> has_prefix (absDest @ [slash]) absTarget \<or> absTarget = absDest"

text \<open>
  One entry, and whether the extraction goes on. Relative paths are those of the process, so the
  operations get absolute ones.
\<close>

definition extract_entry :: "string \<Rightarrow> string \<Rightarrow> tar_entry \<Rightarrow> fs \<Rightarrow> fs \<times> bool" where
  "extract_entry cwd destDir e m =
     (let cleanName = Clean (te_Name e); target = Abs cwd (Join destDir cleanName)
      in if cleanName = ''.'' then (m, True)
         else if \<not> inside (Abs cwd destDir) target then (m, True)
         else case te_Kind e of
           TypeDir \<Rightarrow> MkdirAll target m
         | TypeReg content complete \<Rightarrow>
             (case MkdirAll (parent_path target) m of
                (m1, False) \<Rightarrow> (m1, False)
              | (m1, True) \<Rightarrow> (case WriteFile target content m1 of None \<Rightarrow> (m1, False) | Some m2 \<Rightarrow> (m2, complete)))
         | TypeSymlink link \<Rightarrow>
             (case MkdirAll (parent_path target) m of
                (m1, False) \<Rightarrow> (m1, False)
              | (m1, True) \<Rightarrow>
                  (case Symlink link target (Remove target m1) of
                     None \<Rightarrow> (Remove target m1, False)
                   | Some m2 \<Rightarrow> (m2, True)))
         | TypeOther \<Rightarrow> (m, True))"

text \<open>The entries that can be read, and whether the archive ends after them.\<close>

fun extractTzst :: "string \<Rightarrow> string \<Rightarrow> bool \<Rightarrow> tar_entry list \<Rightarrow> fs \<Rightarrow> fs \<times> bool" where
  "extractTzst cwd destDir ends [] m = (m, ends)"
| "extractTzst cwd destDir ends (e # es) m =
     (case extract_entry cwd destDir e m of
        (m', False) \<Rightarrow> (m', False)
      | (m', True) \<Rightarrow> extractTzst cwd destDir ends es m')"

section \<open>Names\<close>

definition good_name :: "string \<Rightarrow> bool" where
  "good_name n \<longleftrightarrow> n \<noteq> [] \<and> n \<noteq> ''.'' \<and> slash \<notin> set n"

lemma split_on_append: "split_on sep (a @ sep # b) = split_on sep a @ split_on sep b"
proof (induction a)
  case (Cons c a)
  obtain x xs where "split_on sep a = x # xs"
    by (cases "split_on sep a") (auto split: if_splits list.splits elim: split_on.elims)
  then show ?case using Cons by simp
qed simp

lemma names_of_append [simp]: "names_of (a @ slash # b) = names_of a @ names_of b"
  by (simp add: names_of_def split_on_append)

lemma names_of_slash [simp]: "names_of (slash # b) = names_of b"
  using names_of_append [of "[]" b] by (simp add: names_of_def)

lemma names_of_good: "good_name n \<Longrightarrow> names_of n = [n]"
  by (simp add: names_of_def good_name_def split_on_plain)

lemma names_of_Nil [simp]: "names_of [] = []"
  by (simp add: names_of_def)

lemma names_of_with_slashes: "\<forall>n\<in>set ns. good_name n \<Longrightarrow> names_of (with_slashes ns) = ns"
  by (induction ns rule: with_slashes.induct) (simp_all add: names_of_good)

lemma split_on_no_sep: "n \<in> set (split_on sep p) \<Longrightarrow> sep \<notin> set n"
  by (induction sep p arbitrary: n rule: split_on.induct) (auto split: if_splits list.splits)

lemma names_of_all_good: "\<forall>n\<in>set (names_of p). good_name n"
  using split_on_no_sep by (auto simp: names_of_def good_name_def)

lemma clean_names_snoc: "clean_names r (ns @ [n]) = clean_step r (clean_names r ns) n"
  by (simp add: clean_names_def)

lemma clean_names_set: "set (clean_names r ns) \<subseteq> set ns"
proof (induction ns rule: rev_induct)
  case (snoc n ns)
  have "set (clean_step r d n) \<subseteq> insert n (set d)" for d by (auto simp: clean_step_def dest: in_set_butlastD)
  then show ?case using snoc by (auto simp: clean_names_snoc)
qed (simp add: clean_names_def)

lemma clean_names_no_up: "''..'' \<notin> set (clean_names True ns)"
proof (induction ns rule: rev_induct)
  case (snoc n ns)
  then show ?case by (auto simp: clean_names_snoc clean_step_def dest: in_set_butlastD)
qed (simp add: clean_names_def)

lemma rooted_Clean: "rooted p \<Longrightarrow> rooted (Clean p)"
  by (simp add: Clean_def Let_def rooted_def)

lemma names_of_Clean: "rooted p \<Longrightarrow> names_of (Clean p) = clean_names True (names_of p)"
  using names_of_all_good [of p] clean_names_set [of True "names_of p"]
  by (auto simp: Clean_def Let_def intro!: names_of_with_slashes)

text \<open>An absolute path has no \<open>..\<close> left.\<close>

lemma Abs_clean:
  assumes "rooted cwd"
  shows "rooted (Abs cwd p)" "''..'' \<notin> set (names_of (Abs cwd p))"
proof -
  have "\<exists>q. rooted q \<and> Abs cwd p = Clean q"
  proof (cases "rooted p")
    case True
    then show ?thesis by (auto simp: Abs_def)
  next
    case False
    have "rooted (cwd @ slash # p)" "cwd \<noteq> []" using assms by (auto simp: rooted_def)
    then show ?thesis using False assms by (cases "p = []") (auto simp: Abs_def Join_def)
  qed
  then obtain q where "rooted q" "Abs cwd p = Clean q" by blast
  then show "rooted (Abs cwd p)" "''..'' \<notin> set (names_of (Abs cwd p))"
    using rooted_Clean names_of_Clean clean_names_no_up by simp_all
qed

lemma has_prefixE: "has_prefix p s \<Longrightarrow> \<exists>t. s = p @ t"
  by (metis append_take_drop_id has_prefix_def)

lemma has_prefix_refl [simp]: "has_prefix p p"
  by (simp add: has_prefix_def)

lemma inside_names: "inside d t \<Longrightarrow> has_prefix (names_of d) (names_of t)"
  by (auto simp: inside_def dest!: has_prefixE)

lemma parent_names:
  assumes "rooted t"
  shows "names_of (parent_path t) = butlast (names_of t)"
  using assms names_of_all_good [of t]
  by (auto simp: parent_path_def Let_def dest: in_set_butlastD intro!: names_of_with_slashes)

section \<open>Where an archive without links writes\<close>

text \<open>On the way to a directory, or inside it.\<close>

definition near :: "string list \<Rightarrow> string list \<Rightarrow> bool" where
  "near d p \<longleftrightarrow> has_prefix p d \<or> has_prefix d p"

definition no_links :: "string list \<Rightarrow> fs \<Rightarrow> bool" where
  "no_links d m \<longleftrightarrow> (\<forall>p t. node_at m p = Some (Link t) \<longrightarrow> \<not> near d p)"

text \<open>Outside nothing changes but that directories on the way appear; no link appears.\<close>

definition contained :: "string list \<Rightarrow> fs \<Rightarrow> fs \<Rightarrow> bool" where
  "contained d m m' \<longleftrightarrow>
     (\<forall>p. has_prefix d p \<or> node_at m' p = node_at m p \<or> has_prefix p d \<and> node_at m p = None \<and> node_at m' p = Some Dir) \<and>
     (\<forall>p t. node_at m' p = Some (Link t) \<longrightarrow> node_at m p = Some (Link t))"

lemma contained_refl [simp]: "contained d m m"
  by (simp add: contained_def)

lemma contained_trans: "contained d a b \<Longrightarrow> contained d b c \<Longrightarrow> contained d a c"
  unfolding contained_def by (metis option.distinct(1))

lemma contained_links: "contained d m m' \<Longrightarrow> no_links d m \<Longrightarrow> no_links d m'"
  unfolding contained_def no_links_def by blast

lemma near_prefix: "near d (p @ q) \<Longrightarrow> near d p"
proof -
  assume "near d (p @ q)"
  then consider t where "d = p @ q @ t" | t where "p @ q = d @ t"
    unfolding near_def by (auto dest!: has_prefixE)
  then show ?thesis
  proof cases
    case 1
    then show ?thesis by (simp add: near_def)
  next
    case 2
    then obtain u where "p = d @ u \<or> d = p @ u" by (auto simp: append_eq_append_conv2)
    then show ?thesis by (auto simp: near_def)
  qed
qed

lemma resolve_straight:
  "no_links d m \<Longrightarrow> near d (cur @ ns) \<Longrightarrow> ''..'' \<notin> set ns \<Longrightarrow> resolve m k cur ns = None \<or> resolve m k cur ns = Some (cur @ ns)"
proof (induction ns arbitrary: cur)
  case (Cons n ns)
  have "near d (cur @ [n])" using near_prefix [of d "cur @ [n]" ns] Cons.prems(2) by simp
  then have "node_at m (cur @ [n]) \<noteq> Some (Link t)" for t using Cons.prems(1) by (auto simp: no_links_def)
  moreover have "resolve m k (cur @ [n]) ns = None \<or> resolve m k (cur @ [n]) ns = Some (cur @ n # ns)"
    using Cons.IH [of "cur @ [n]"] Cons.prems by simp
  ultimately show ?case using Cons.prems(3) by (auto split: option.split node.split)
qed simp

lemma place_straight:
  assumes "no_links d m" "near d ns" "''..'' \<notin> set ns" "place m ns = Some p"
  shows "p = ns"
proof -
  have ns: "ns \<noteq> []" using assms(4) by (auto simp: place_def)
  have "near d (butlast ns)" using near_prefix [of d "butlast ns" "[last ns]"] assms(2) ns by simp
  then have "resolve m max_links [] (butlast ns) = None \<or> resolve m max_links [] (butlast ns) = Some (butlast ns)"
    using resolve_straight [of d m "[]" "butlast ns" max_links] assms(1,3) by (auto dest: in_set_butlastD)
  then show ?thesis using assms(4) ns by (auto simp: place_def split: if_splits)
qed

lemma mkdir_one_contained:
  assumes "no_links d m" "near d ns" "''..'' \<notin> set ns" "mkdir_one ns m = Some m'"
  shows "contained d m m'"
proof -
  consider "m' = m" | "m' = put ns Dir m" "node_at m ns = None"
    using assms(4) place_straight [OF assms(1-3)] by (auto simp: mkdir_one_def split: option.splits if_splits)
  then show ?thesis
    using assms(2) by cases (auto simp: contained_def near_def)
qed

lemma mkdirs_contained:
  "no_links d m \<Longrightarrow> \<forall>ns\<in>set nss. near d ns \<and> ''..'' \<notin> set ns \<Longrightarrow> contained d m (fst (mkdirs nss m))"
proof (induction nss arbitrary: m)
  case (Cons ns nss)
  show ?case
  proof (cases "mkdir_one ns m")
    case (Some m1)
    have c: "contained d m m1" using mkdir_one_contained [OF Cons.prems(1) _ _ Some] Cons.prems(2) by simp
    have "contained d m1 (fst (mkdirs nss m1))" using Cons.IH contained_links [OF c Cons.prems(1)] Cons.prems(2) by simp
    then show ?thesis using contained_trans [OF c] Some by simp
  qed simp
qed simp

lemma MkdirAll_contained:
  assumes "no_links d m" "near d (names_of p)" "''..'' \<notin> set (names_of p)"
  shows "contained d m (fst (MkdirAll p m))"
proof -
  have "near d (take n (names_of p))" for n
    using near_prefix [of d "take n (names_of p)" "drop n (names_of p)"] assms(2) by simp
  then show ?thesis
    unfolding MkdirAll_def using assms(3) by (intro mkdirs_contained [OF assms(1)]) (auto simp: prefixes_of_def dest: in_set_takeD)
qed

lemma WriteFile_contained:
  assumes "no_links d m" "has_prefix d (names_of p)" "''..'' \<notin> set (names_of p)" "WriteFile p content m = Some m'"
  shows "contained d m m'"
proof -
  have "near d (names_of p)" using assms(2) by (simp add: near_def)
  then have "follow m p = None \<or> follow m p = Some (names_of p)"
    using resolve_straight [of d m "[]" "names_of p" max_links] assms(1,3) by (simp add: follow_def)
  then have "m' = put (names_of p) (File content) m" using assms(4) by (auto simp: WriteFile_def split: if_splits)
  then show ?thesis using assms(2) by (auto simp: contained_def)
qed

definition is_link :: "tar_entry \<Rightarrow> bool" where
  "is_link e \<longleftrightarrow> (case te_Kind e of TypeSymlink _ \<Rightarrow> True | _ \<Rightarrow> False)"

lemma extract_entry_contained:
  assumes "rooted cwd" "no_links (names_of (Abs cwd destDir)) m" "\<not> is_link e"
  shows "contained (names_of (Abs cwd destDir)) m (fst (extract_entry cwd destDir e m))"
proof -
  let ?d = "names_of (Abs cwd destDir)" and ?t = "Abs cwd (Join destDir (Clean (te_Name e)))"
  show ?thesis
  proof (cases "Clean (te_Name e) = ''.'' \<or> \<not> inside (Abs cwd destDir) ?t")
    case False
    then have p: "has_prefix ?d (names_of ?t)" using inside_names by simp
    have near: "near ?d (names_of ?t)" using p by (simp add: near_def)
    have up: "''..'' \<notin> set (names_of ?t)" and r: "rooted ?t" using Abs_clean [OF assms(1)] by simp_all
    have "near ?d (butlast (names_of ?t))"
      using near_prefix [of ?d "butlast (names_of ?t)" "[last (names_of ?t)]"] near by (cases "names_of ?t = []") simp_all
    then have parent: "contained ?d m (fst (MkdirAll (parent_path ?t) m))"
      using up by (intro MkdirAll_contained [OF assms(2)]) (auto simp: parent_names [OF r] dest: in_set_butlastD)
    show ?thesis
    proof (cases "te_Kind e")
      case TypeDir
      then show ?thesis using False MkdirAll_contained [OF assms(2) near up] by (simp add: extract_entry_def Let_def)
    next
      case (TypeReg content complete)
      obtain m1 ok where m1: "MkdirAll (parent_path ?t) m = (m1, ok)" by force
      have c1: "contained ?d m m1" using parent m1 by simp
      have "contained ?d m m2" if "WriteFile ?t content m1 = Some m2" for m2
        using contained_trans [OF c1 WriteFile_contained [OF contained_links [OF c1 assms(2)] p up that]] .
      then show ?thesis using False TypeReg m1 c1
        by (cases ok; cases "WriteFile ?t content m1") (simp_all add: extract_entry_def Let_def)
    qed (use assms(3) in \<open>simp_all add: extract_entry_def Let_def is_link_def\<close>)
  qed (auto simp: extract_entry_def Let_def)
qed

text \<open>Property C34. An archive without link entries, unpacked where no link lies on the way to the target directory or inside it,
  writes nowhere else, whatever names its entries have and wherever the extraction stops: every place outside stays as it was,
  except that missing directories on the way to the target are made.\<close>

theorem extraction_stays_inside:
  assumes "rooted cwd" "\<forall>e\<in>set es. \<not> is_link e" "no_links (names_of (Abs cwd destDir)) m"
  shows "contained (names_of (Abs cwd destDir)) m (fst (extractTzst cwd destDir ends es m))"
  using assms(2,3)
proof (induction es arbitrary: m)
  case (Cons e es)
  obtain m1 ok where x: "extract_entry cwd destDir e m = (m1, ok)" by force
  have c: "contained (names_of (Abs cwd destDir)) m m1"
    using extract_entry_contained [OF assms(1) Cons.prems(2), of e] Cons.prems(1) x by simp
  show ?case
    using x c contained_trans [OF c Cons.IH [OF _ contained_links [OF c Cons.prems(2)]]] Cons.prems(1)
    by (cases ok) simp_all
qed simp

definition sample_files :: fs where
  "sample_files = [([''d''], Dir), ([''etc''], Dir), ([''etc'', ''passwd''], File [1])]"

lemma extraction_stays_inside_witness:
  "contained [''d'', ''a''] sample_files (fst (extractTzst ''/d'' ''a'' True
     [\<lparr>te_Name = ''../../etc/passwd'', te_Kind = TypeReg [2] True\<rparr>, \<lparr>te_Name = ''b/c'', te_Kind = TypeReg [3] True\<rparr>] sample_files))"
proof -
  have d: "names_of (Abs ''/d'' ''a'') = [''d'', ''a'']" by code_simp
  have "no_links (names_of (Abs ''/d'' ''a'')) sample_files"
    by (auto simp: no_links_def sample_files_def node_at_def split: if_splits)
  then show ?thesis unfolding d [symmetric]
    by (intro extraction_stays_inside) (simp_all add: rooted_def slash_def is_link_def)
qed

text \<open>A link entry takes the next entry out of the directory.\<close>

lemma link_leads_outside:
  "node_at (fst (extractTzst ''/'' ''/d'' True
     [\<lparr>te_Name = ''x'', te_Kind = TypeSymlink ''/etc''\<rparr>, \<lparr>te_Name = ''x/passwd'', te_Kind = TypeReg [2] True\<rparr>] sample_files))
   [''etc'', ''passwd''] = Some (File [2])"
  by code_simp

end
