(* ===== verification/ChainSigner.thy ===== *)
theory ChainSigner
  imports EndToEnd
begin

text \<open>
  The signers of chain deployments, clients of the JSON-RPC endpoint: \<open>bootstrap/opstack/signer.go\<close>,
  \<open>bootstrap/opstack/popsigner_adapter.go\<close> and \<open>bootstrap/nitro/signer.go\<close>, with the waiting for receipts
  there and in \<open>bootstrap/popdeployer/orchestrator.go\<close>. The text forms and the transaction decoder of
  go-ethereum are parameters; a transaction is what its accessors answer. Times are natural numbers,
  the doubling of a wait is not cut to 64 bits. The theorems join these clients to the server.
\<close>

section \<open>What go-ethereum provides\<close>

record geth_codec =
  gc_Address :: "bytes \<Rightarrow> string"                        \<comment> \<open>\<open>Address.Hex\<close>\<close>
  gc_Uint64 :: "u64 \<Rightarrow> string"                            \<comment> \<open>\<open>hexutil\<close>\<close>
  gc_Big :: "int option \<Rightarrow> string"
  gc_Bytes :: "bytes \<Rightarrow> string"
  gc_Decode :: "string \<Rightarrow> bytes option"
  gc_Unmarshal :: "bytes \<Rightarrow> SignedTransaction option"    \<comment> \<open>\<open>UnmarshalBinary\<close>\<close>
  gc_ValidURL :: "string \<Rightarrow> bool"

section \<open>Configuration\<close>

record SignerConfig =
  sc_Endpoint :: string
  sc_APIKey :: string
  sc_ClientCert :: string
  sc_ClientKey :: string
  sc_CACert :: string
  sc_ChainID :: "int option"
  sc_Address :: bytes
  sc_MaxRetries :: int
  sc_InitialBackoff :: int
  sc_MaxBackoff :: int

definition second :: int where "second = 1000000000"

definition signer_defaults :: "SignerConfig \<Rightarrow> SignerConfig" where
  "signer_defaults c = c\<lparr>sc_MaxRetries := (if sc_MaxRetries c \<le> 0 then 3 else sc_MaxRetries c),
     sc_InitialBackoff := (if sc_InitialBackoff c \<le> 0 then second else sc_InitialBackoff c),
     sc_MaxBackoff := (if sc_MaxBackoff c \<le> 0 then 10 * second else sc_MaxBackoff c)\<rparr>"

text \<open>Which certificate, key and authority texts can be loaded is a parameter.\<close>

definition NewNitroSigner :: "(string \<Rightarrow> string \<Rightarrow> string \<Rightarrow> bool) \<Rightarrow> SignerConfig \<Rightarrow> string + SignerConfig" where
  "NewNitroSigner tls c =
     (if sc_ClientCert c \<noteq> [] \<and> sc_ClientKey c \<noteq> []
      then (if tls (sc_ClientCert c) (sc_ClientKey c) (sc_CACert c) then Inr (signer_defaults c) else Inl ''build TLS config'')
      else if sc_APIKey c \<noteq> [] then Inr (signer_defaults c)
      else Inl ''either APIKey or ClientCert/ClientKey must be provided'')"

definition NewPOPSigner :: "SignerConfig \<Rightarrow> SignerConfig" where
  "NewPOPSigner c = signer_defaults c"

section \<open>The request\<close>

text \<open>Prices by the type of the transaction; an access list is not passed on.\<close>

definition price_args :: "geth_codec \<Rightarrow> 'a UnsignedTransaction_scheme \<Rightarrow> (string \<times> jsonv) list" where
  "price_args g tx =
     (if tx_Type tx = EIP1559TxType
      then [(''maxFeePerGas'', JString (gc_Big g (tx_MaxFeePerGas tx))),
            (''maxPriorityFeePerGas'', JString (gc_Big g (tx_MaxPriorityFeePerGas tx)))]
      else [(''gasPrice'', JString (gc_Big g (tx_GasPrice tx)))])"

definition signer_args :: "geth_codec \<Rightarrow> bytes \<Rightarrow> int option \<Rightarrow> 'a UnsignedTransaction_scheme \<Rightarrow> jsonv" where
  "signer_args g addr chainID tx = JObject
     ([(''from'', JString (gc_Address g addr))] @
      (case tx_To tx of None \<Rightarrow> [] | Some a \<Rightarrow> [(''to'', JString (gc_Address g a))]) @
      [(''gas'', JString (gc_Uint64 g (tx_GasLimit tx)))] @ price_args g tx @
      [(''value'', JString (gc_Big g (tx_Value tx))), (''nonce'', JString (gc_Uint64 g (tx_Nonce tx)))] @
      (if tx_Data tx = [] then [] else [(''data'', JString (gc_Bytes g (tx_Data tx)))]) @
      [(''chainId'', JString (gc_Big g chainID))])"

definition nitro_args :: "geth_codec \<Rightarrow> SignerConfig \<Rightarrow> 'a UnsignedTransaction_scheme \<Rightarrow> jsonv" where
  "nitro_args g c tx = signer_args g (sc_Address c) (sc_ChainID c) tx"

definition rpcReq :: "jsonv \<Rightarrow> jsonv" where
  "rpcReq args = JObject [(''jsonrpc'', JString ''2.0''), (''method'', JString ''eth_signTransaction''),
     (''params'', JArray [args]), (''id'', JNumber ''1'')]"

record signer_request =
  sr_URL :: string
  sr_Headers :: "(string \<times> string) list"
  sr_Body :: jsonv

type_synonym 'w signer_http = "'w \<Rightarrow> signer_request \<Rightarrow> 'w \<times> http_reply"

section \<open>The reply\<close>

text \<open>Errors that may be tried again are apart from those that end the call.\<close>

datatype sign_error = Retryable string | Fatal string | Cancelled | Exhausted string

definition isRetryableRPCError :: "int \<Rightarrow> bool" where
  "isRetryableRPCError code \<longleftrightarrow> code \<ge> - 32099 \<and> code \<le> - 32000"

definition decode_rpc_error :: "jsonv \<Rightarrow> (int \<times> string) option option" where
  "decode_rpc_error e =
     (if e = JNull then Some None
      else if \<not> is_struct e then None
      else Option.bind (json_int64 (json_get ''code'' e)) (\<lambda>c.
        Option.bind (json_text (json_get ''message'' e)) (\<lambda>m. Some (Some (c, m)))))"

definition decode_reply :: "jsonv \<Rightarrow> ((int \<times> string) option \<times> jsonv option) option" where
  "decode_reply j =
     (if \<not> is_struct j then None
      else Option.bind (json_text (json_get ''jsonrpc'' j)) (\<lambda>_.
        Option.bind (json_int64 (json_get ''id'' j)) (\<lambda>_.
          Option.bind (decode_rpc_error (json_get ''error'' j)) (\<lambda>e. Some (e, raw_field ''result'' (fields_of j))))))"

definition rpc_result :: "http_reply \<Rightarrow> sign_error + string" where
  "rpc_result r =
     (case r of
        NoReply \<Rightarrow> Inl (Retryable ''http request failed'')
      | Reply status body \<Rightarrow>
          if status \<ge> 500 then Inl (Retryable ''server error'')
          else if status \<ge> 400 then Inl (Fatal ''client error'')
          else (case Option.bind body decode_reply of
             None \<Rightarrow> Inl (Fatal ''unmarshal response'')
           | Some (Some (code, msg), _) \<Rightarrow> Inl (if isRetryableRPCError code then Retryable msg else Fatal msg)
           | Some (None, result) \<Rightarrow>
               (case Option.bind result json_text of
                  None \<Rightarrow> Inl (Fatal ''unmarshal result'')
                | Some signedTxHex \<Rightarrow> Inr signedTxHex)))"

definition post_signed :: "geth_codec \<Rightarrow> 'w signer_http \<Rightarrow> signer_request \<Rightarrow> 'w \<Rightarrow> 'w \<times> (sign_error + string)" where
  "post_signed g http q w =
     (if \<not> gc_ValidURL g (sr_URL q) then (w, Inl (Fatal ''create request''))
      else case http w q of (w', r) \<Rightarrow> (w', rpc_result r))"

definition doRPCCall :: "geth_codec \<Rightarrow> 'w signer_http \<Rightarrow> SignerConfig \<Rightarrow> jsonv \<Rightarrow> 'w \<Rightarrow> 'w \<times> (sign_error + string)" where
  "doRPCCall g http c req w =
     post_signed g http \<lparr>sr_URL = sc_Endpoint c,
       sr_Headers = (''Content-Type'', ''application/json'') #
         (if sc_APIKey c = [] then [] else [(''Authorization'', ''Bearer '' @ sc_APIKey c)]),
       sr_Body = req\<rparr> w"

definition doJSONRPCCall :: "geth_codec \<Rightarrow> 'w signer_http \<Rightarrow> SignerConfig \<Rightarrow> jsonv \<Rightarrow> 'w \<Rightarrow> 'w \<times> (sign_error + string)" where
  "doJSONRPCCall g http c req w =
     post_signed g http \<lparr>sr_URL = sc_Endpoint c,
       sr_Headers = [(''Content-Type'', ''application/json''), (''X-API-Key'', sc_APIKey c)], sr_Body = req\<rparr> w"

definition decodeSignedTransaction :: "geth_codec \<Rightarrow> string \<Rightarrow> sign_error + SignedTransaction" where
  "decodeSignedTransaction g hexEncodedTx =
     (case gc_Decode g (zero_x @ trim_prefix zero_x hexEncodedTx) of
        None \<Rightarrow> Inl (Fatal ''decode hex'')
      | Some txBytes \<Rightarrow> of_option (Fatal ''unmarshal transaction'') (gc_Unmarshal g txBytes))"

section \<open>Retries\<close>

text \<open>
  The attempts that are left, the number of this one, the next wait and the last error. The state
  is the world and the time spent waiting; \<open>cancelled\<close> says whether the context ends during the wait
  before an attempt.
\<close>

fun sign_loop ::
  "geth_codec \<Rightarrow> ('w \<Rightarrow> 'w \<times> (sign_error + string)) \<Rightarrow> (nat \<Rightarrow> bool) \<Rightarrow> int \<Rightarrow> nat \<Rightarrow> nat \<Rightarrow> int \<Rightarrow> string \<Rightarrow>
     'w \<times> int \<Rightarrow> ('w \<times> int) \<times> (sign_error + SignedTransaction)" where
  "sign_loop g call cancelled maxb 0 k b lastErr s = (s, Inl (Exhausted lastErr))"
| "sign_loop g call cancelled maxb (Suc n) k b lastErr (w, t) =
     (if k > 0 \<and> cancelled k then ((w, t), Inl Cancelled)
      else (let t' = (if k > 0 then t + b else t); b' = (if k > 0 then min (b * 2) maxb else b)
            in case call w of
              (w', Inl (Retryable e)) \<Rightarrow> sign_loop g call cancelled maxb n (Suc k) b' e (w', t')
            | (w', Inl e) \<Rightarrow> ((w', t'), Inl e)
            | (w', Inr signedTxHex) \<Rightarrow> ((w', t'), decodeSignedTransaction g signedTxHex)))"

definition with_retries ::
  "geth_codec \<Rightarrow> ('w \<Rightarrow> 'w \<times> (sign_error + string)) \<Rightarrow> (nat \<Rightarrow> bool) \<Rightarrow> SignerConfig \<Rightarrow> 'w \<Rightarrow>
     ('w \<times> int) \<times> (sign_error + SignedTransaction)" where
  "with_retries g call cancelled c w =
     sign_loop g call cancelled (sc_MaxBackoff c) (nat (sc_MaxRetries c)) 0 (sc_InitialBackoff c) [] (w, 0)"

definition nitro_SignTransaction ::
  "geth_codec \<Rightarrow> 'w signer_http \<Rightarrow> (nat \<Rightarrow> bool) \<Rightarrow> SignerConfig \<Rightarrow> 'a UnsignedTransaction_scheme \<Rightarrow> 'w \<Rightarrow>
     ('w \<times> int) \<times> (sign_error + SignedTransaction)" where
  "nitro_SignTransaction g http cancelled c tx w =
     with_retries g (doRPCCall g http c (rpcReq (nitro_args g c tx))) cancelled c w"

definition popsigner_SignTransaction ::
  "geth_codec \<Rightarrow> 'w signer_http \<Rightarrow> (nat \<Rightarrow> bool) \<Rightarrow> SignerConfig \<Rightarrow> bytes \<Rightarrow> 'a UnsignedTransaction_scheme \<Rightarrow> 'w \<Rightarrow>
     ('w \<times> int) \<times> (sign_error + SignedTransaction)" where
  "popsigner_SignTransaction g http cancelled c addr tx w =
     with_retries g (doJSONRPCCall g http c (rpcReq (signer_args g addr (sc_ChainID c) tx))) cancelled c w"

text \<open>The adapter of the op-deployer tries once, and asks for the \<open>0x\<close> in the reply.\<close>

definition adapter_signTransaction ::
  "geth_codec \<Rightarrow> 'w signer_http \<Rightarrow> string \<Rightarrow> string \<Rightarrow> int option \<Rightarrow> bytes \<Rightarrow> 'a UnsignedTransaction_scheme \<Rightarrow> 'w \<Rightarrow>
     'w \<times> (string + SignedTransaction)" where
  "adapter_signTransaction g http endpoint apiKey chainID addr tx w =
     (case post_signed g http \<lparr>sr_URL = endpoint,
          sr_Headers = [(''Content-Type'', ''application/json''), (''X-API-Key'', apiKey)],
          sr_Body = rpcReq (signer_args g addr chainID tx)\<rparr> w of
        (w', Inl _) \<Rightarrow> (w', Inl ''signing request failed'')
      | (w', Inr signedTxHex) \<Rightarrow>
          (w', case gc_Decode g signedTxHex of
             None \<Rightarrow> Inl ''decode hex''
           | Some txBytes \<Rightarrow> of_option ''unmarshal transaction'' (gc_Unmarshal g txBytes)))"

section \<open>Receipts\<close>

text \<open>
  What the node answers at a time. The context is done at a time; when it ends at a tick, either case of the
  \<open>select\<close> may run (\<open>tie\<close> says that the end does).
\<close>

definition context_first :: "bool \<Rightarrow> nat \<Rightarrow> nat \<Rightarrow> bool" where
  "context_first tie done t \<longleftrightarrow> done < t \<or> done = t \<and> tie"

function waitForReceipt :: "(nat \<Rightarrow> 'r option) \<Rightarrow> bool \<Rightarrow> nat \<Rightarrow> nat \<Rightarrow> string + 'r" where
  "waitForReceipt poll tie done now =
     (let t = now + 2000
      in if context_first tie done t then Inl ''timeout waiting for transaction''
         else case poll t of
           Some receipt \<Rightarrow> Inr receipt
         | None \<Rightarrow> if done \<le> t then Inl ''timeout waiting for transaction'' else waitForReceipt poll tie done t)"
  by pat_completeness auto
termination
  by (relation "measure (\<lambda>(poll, tie, done, now). done - now)") auto

declare waitForReceipt.simps [simp del]

text \<open>The deadline is the parent's end or the timeout, whichever is first.\<close>

definition wait_with_timeout :: "(nat \<Rightarrow> 'r option) \<Rightarrow> bool \<Rightarrow> nat option \<Rightarrow> nat \<Rightarrow> nat \<Rightarrow> string + 'r" where
  "wait_with_timeout poll tie parent timeout now =
     waitForReceipt poll tie (case parent of None \<Rightarrow> now + timeout | Some d \<Rightarrow> min d (now + timeout)) now"

datatype ('r) send_result = NotSent string | NoReceipt string | Reverted 'r | Confirmed 'r

definition SignAndSendTransaction ::
  "geth_codec \<Rightarrow> 'w signer_http \<Rightarrow> (nat \<Rightarrow> bool) \<Rightarrow> (SignedTransaction \<Rightarrow> 'w \<Rightarrow> 'w \<times> bool) \<Rightarrow> (nat \<Rightarrow> (nat \<times> 'r) option) \<Rightarrow>
     bool \<Rightarrow> nat option \<Rightarrow> nat \<Rightarrow> SignerConfig \<Rightarrow> 'a UnsignedTransaction_scheme \<Rightarrow> 'w \<Rightarrow> 'w \<times> (nat \<times> 'r) send_result" where
  "SignAndSendTransaction g http cancelled send poll tie parent now c tx w =
     (case nitro_SignTransaction g http cancelled c tx w of
        ((w1, _), Inl _) \<Rightarrow> (w1, NotSent ''sign transaction'')
      | ((w1, _), Inr signedTx) \<Rightarrow>
          (case send signedTx w1 of
             (w2, False) \<Rightarrow> (w2, NotSent ''send transaction'')
           | (w2, True) \<Rightarrow>
               (w2, case wait_with_timeout poll tie parent 300000 now of
                  Inl e \<Rightarrow> NoReceipt e
                | Inr receipt \<Rightarrow> if fst receipt \<noteq> 1 then Reverted receipt else Confirmed receipt)))"

text \<open>The bundle deployer waits without a timeout of its own: it may not return.\<close>

partial_function (option) pop_waitForReceipt :: "(nat \<Rightarrow> 'r option) \<Rightarrow> bool \<Rightarrow> nat option \<Rightarrow> nat \<Rightarrow> (string + 'r) option" where
  "pop_waitForReceipt poll tie done now =
     (let t = now + 500
      in if (case done of None \<Rightarrow> False | Some d \<Rightarrow> context_first tie d t) then Some (Inl ''context canceled'')
         else case poll t of
           Some receipt \<Rightarrow> Some (Inr receipt)
         | None \<Rightarrow> (if (case done of None \<Rightarrow> False | Some d \<Rightarrow> d \<le> t) then Some (Inl ''context canceled'')
                     else pop_waitForReceipt poll tie done t))"

section \<open>The server reads what the signer sends\<close>

text \<open>Documented behaviour of go-ethereum: its texts denote the values, its decoders read texts and encodings.\<close>

definition codec_ok :: "geth_codec \<Rightarrow> bool" where
  "codec_ok g \<longleftrightarrow>
     (\<forall>a. length a = 20 \<longrightarrow> DecodeAddress (gc_Address g a) = Inr a) \<and>
     (\<forall>n. DecodeUint64 (gc_Uint64 g n) = Inr n) \<and>
     (\<forall>i. 0 \<le> i \<longrightarrow> DecodeBig (gc_Big g (Some i)) = Inr i) \<and> DecodeBig (gc_Big g None) = Inr 0 \<and>
     (\<forall>b. DecodeBytes (gc_Bytes g b) = Inr b) \<and>
     (\<forall>b. gc_Decode g (EncodeBytes b) = Some b)"

text \<open>What the accessors of a legacy or dynamic fee transaction answer.\<close>

definition asked_tx :: "'a UnsignedTransaction_scheme \<Rightarrow> bool" where
  "asked_tx tx \<longleftrightarrow> (\<forall>a. tx_To tx = Some a \<longrightarrow> length a = 20) \<and> (\<exists>v. tx_Value tx = Some v \<and> 0 \<le> v) \<and> tx_AccessList tx = [] \<and>
     (tx_Type tx = LegacyTxType \<and> (\<exists>p. tx_GasPrice tx = Some p \<and> 0 \<le> p) \<and> tx_MaxFeePerGas tx = None \<and> tx_MaxPriorityFeePerGas tx = None \<or>
      tx_Type tx = EIP1559TxType \<and> tx_GasPrice tx = None \<and> (\<exists>p. tx_MaxFeePerGas tx = Some p \<and> 0 \<le> p) \<and>
        (\<exists>p. tx_MaxPriorityFeePerGas tx = Some p \<and> 0 \<le> p))"

lemma unmarshal_texts:
  "Address_UnmarshalJSON (JString s) = DecodeAddress s" "Uint64_UnmarshalJSON (JString s) = DecodeUint64 s"
  "Big_UnmarshalJSON (JString s) = DecodeBig s" "Bytes_UnmarshalJSON (JString s) = DecodeBytes s"
  by (simp_all add: Address_UnmarshalJSON_def Uint64_UnmarshalJSON_def Big_UnmarshalJSON_def Bytes_UnmarshalJSON_def)

lemma codec_texts:
  assumes "codec_ok g"
  shows "length a = 20 \<Longrightarrow> DecodeAddress (gc_Address g a) = Inr a" "DecodeUint64 (gc_Uint64 g n) = Inr n"
    "0 \<le> i \<Longrightarrow> DecodeBig (gc_Big g (Some i)) = Inr i" "DecodeBytes (gc_Bytes g b) = Inr b" "gc_Decode g (EncodeBytes b) = Some b"
  using assms by (simp_all add: codec_ok_def)

text \<open>The arguments as the server has them.\<close>

definition read_args :: "bytes \<Rightarrow> int \<Rightarrow> 'a UnsignedTransaction_scheme \<Rightarrow> TransactionArgs" where
  "read_args addr chain tx = \<lparr>arg_From = Some addr, arg_To = tx_To tx, arg_Gas = Some (tx_GasLimit tx), arg_GasPrice = tx_GasPrice tx,
     arg_MaxFeePerGas = tx_MaxFeePerGas tx, arg_MaxPriorityFeePerGas = tx_MaxPriorityFeePerGas tx, arg_Value = tx_Value tx,
     arg_Nonce = Some (tx_Nonce tx), arg_Data = (if tx_Data tx = [] then None else Some (tx_Data tx)), arg_Input = None,
     arg_ChainID = Some chain, arg_AccessList = []\<rparr>"

lemma decode_signer_args:
  assumes "codec_ok g" "asked_tx tx" "length addr = 20" "0 \<le> chain"
  shows "decode_args (signer_args g addr (Some chain) tx) = Some (read_args addr chain tx)"
proof -
  obtain v where v: "tx_Value tx = Some v" "0 \<le> v" using assms(2) by (auto simp: asked_tx_def)
  note texts = unmarshal_texts codec_texts [OF assms(1)] assms(3,4) v
  note names = decode_args_def signer_args_def price_args_def ptr_field_def slice_field_def fields_of_def same_field_def fold_char_def
  consider p where "tx_Type tx = LegacyTxType" "tx_GasPrice tx = Some p" "0 \<le> p" "tx_MaxFeePerGas tx = None" "tx_MaxPriorityFeePerGas tx = None"
    | p q where "tx_Type tx = EIP1559TxType" "tx_GasPrice tx = None" "tx_MaxFeePerGas tx = Some p" "0 \<le> p"
        "tx_MaxPriorityFeePerGas tx = Some q" "0 \<le> q"
    using assms(2) by (auto simp: asked_tx_def)
  then show ?thesis
  proof cases
    case 1
    then show ?thesis using assms(2)
      by (cases "tx_To tx"; cases "tx_Data tx = []")
        (simp_all add: names texts read_args_def asked_tx_def LegacyTxType_def EIP1559TxType_def)
  next
    case 2
    then show ?thesis using assms(2)
      by (cases "tx_To tx"; cases "tx_Data tx = []")
        (simp_all add: names texts read_args_def asked_tx_def)
  qed
qed

lemma read_args_tx:
  assumes "asked_tx tx"
  shows "Args_Validate (read_args addr chain tx) = None"
    "unsigned_of (read_args addr chain tx) = Some ((UnsignedTransaction.truncate tx)\<lparr>tx_ChainID := Some chain\<rparr>)"
proof -
  obtain v where v: "tx_Value tx = Some v" using assms by (auto simp: asked_tx_def)
  consider p where "tx_Type tx = LegacyTxType" "tx_GasPrice tx = Some p" "tx_MaxFeePerGas tx = None" "tx_MaxPriorityFeePerGas tx = None"
    | p q where "tx_Type tx = EIP1559TxType" "tx_GasPrice tx = None" "tx_MaxFeePerGas tx = Some p" "tx_MaxPriorityFeePerGas tx = Some q"
    using assms by (auto simp: asked_tx_def)
  then show "Args_Validate (read_args addr chain tx) = None"
    by cases (simp_all add: Args_Validate_def read_args_def)
  from \<open>tx_Value tx = Some v\<close> have t: "UnsignedTransaction.truncate tx = \<lparr>tx_Type = tx_Type tx, tx_ChainID = tx_ChainID tx,
      tx_Nonce = tx_Nonce tx, tx_GasPrice = tx_GasPrice tx, tx_MaxPriorityFeePerGas = tx_MaxPriorityFeePerGas tx,
      tx_MaxFeePerGas = tx_MaxFeePerGas tx, tx_GasLimit = tx_GasLimit tx, tx_To = tx_To tx, tx_Value = Some v,
      tx_Data = tx_Data tx, tx_AccessList = []\<rparr>"
    using assms by (simp add: UnsignedTransaction.truncate_def asked_tx_def)
  show "unsigned_of (read_args addr chain tx) = Some ((UnsignedTransaction.truncate tx)\<lparr>tx_ChainID := Some chain\<rparr>)"
    using assms v unfolding t
    by (auto simp: unsigned_of_def read_args_def NewLegacyTransaction_def NewEIP1559Transaction_def GetData_def asked_tx_def)
qed

text \<open>
  What a chain deployment asks the endpoint to sign is what the endpoint reads: the arguments are well formed,
  name the sender and the chain, and denote the same transaction, field by field, with the chain ID of the signer.
\<close>

lemma signing_request_roundtrip:
  assumes "codec_ok g" "asked_tx tx" "length addr = 20" "0 \<le> chain"
  shows "\<exists>args. decode_args (signer_args g addr (Some chain) tx) = Some args \<and> Args_Validate args = None \<and>
    arg_From args = Some addr \<and> arg_ChainID args = Some chain \<and>
    unsigned_of args = Some ((UnsignedTransaction.truncate tx)\<lparr>tx_ChainID := Some chain\<rparr>)"
  using decode_signer_args [OF assms] read_args_tx [OF assms(2), of addr chain] by (simp add: read_args_def)

section \<open>Retries end\<close>

text \<open>How often the endpoint is called.\<close>

definition counted :: "('w \<Rightarrow> 'w \<times> 'r) \<Rightarrow> 'w \<times> nat \<Rightarrow> ('w \<times> nat) \<times> 'r" where
  "counted call = (\<lambda>(w, c). case call w of (w', r) \<Rightarrow> ((w', Suc c), r))"

lemma sign_loop_bounds:
  assumes "0 \<le> b" "b \<le> B" "maxb \<le> B" "0 \<le> maxb"
  shows "snd (fst (fst (sign_loop g (counted call) cancelled maxb n k b e ((w, c), t)))) \<le> c + n \<and>
    snd (fst (sign_loop g (counted call) cancelled maxb n k b e ((w, c), t))) \<le> t + int (if k = 0 then n - 1 else n) * B"
  using assms(1,2)
proof (induction n arbitrary: k b e w c t)
  case (Suc n)
  obtain w' r where c: "call w = (w', r)" by force
  have call: "counted call (w, c) = ((w', Suc c), r)" by (simp add: counted_def c)
  have B: "0 \<le> B" using assms by simp
  let ?t = "if k > 0 then t + b else t" and ?b = "if k > 0 then min (b * 2) maxb else b"
  have b: "0 \<le> ?b" "?b \<le> B" using Suc.prems assms by auto
  have t: "?t \<le> t + int (if k = 0 then Suc n - 1 else Suc n) * B"
  proof -
    have "0 \<le> B * int n" using B by simp
    then have "t \<le> t + int n * B" "t + b \<le> t + int (Suc n) * B" using Suc.prems by (simp_all add: algebra_simps, linarith)
    then show ?thesis by simp
  qed
  have r: "?t + int n * B \<le> t + int (if k = 0 then Suc n - 1 else Suc n) * B"
    using Suc.prems B by (auto simp: algebra_simps)
  show ?case
  proof (cases "k > 0 \<and> cancelled k")
    case True
    then show ?thesis using B by simp
  next
    case False
    show ?thesis
    proof (cases "\<exists>m. r = Inl (Retryable m)")
      case True
      then obtain m where m: "r = Inl (Retryable m)" by blast
      have "sign_loop g (counted call) cancelled maxb (Suc n) k b e ((w, c), t) =
          sign_loop g (counted call) cancelled maxb n (Suc k) ?b m ((w', Suc c), ?t)"
        using False by (auto simp: call m Let_def)
      then show ?thesis using Suc.IH [OF b, of "Suc k" m w' "Suc c" ?t] r by auto
    next
      case no: False
      then have "fst (sign_loop g (counted call) cancelled maxb (Suc n) k b e ((w, c), t)) = ((w', Suc c), ?t)"
        using False no by (cases r; cases "projl r") (auto simp: call Let_def)
      then show ?thesis using t by simp
    qed
  qed
qed simp

text \<open>Signing gives up: it calls the endpoint at most as often as configured, three times by default, and waits
  no longer than the longest configured wait before each call but the first.\<close>

lemma signing_attempts_bounded:
  "let c = signer_defaults cfg; s = fst (with_retries g (counted call) cancelled c (w, 0))
   in int (snd (fst s)) \<le> sc_MaxRetries c \<and> snd s \<le> (sc_MaxRetries c - 1) * max (sc_InitialBackoff c) (sc_MaxBackoff c)"
proof -
  let ?c = "signer_defaults cfg"
  have d: "0 < sc_MaxRetries ?c" "0 < sc_InitialBackoff ?c" "0 < sc_MaxBackoff ?c"
    by (simp_all add: signer_defaults_def second_def)
  have "snd (fst (fst (with_retries g (counted call) cancelled ?c (w, 0)))) \<le> 0 + nat (sc_MaxRetries ?c) \<and>
    snd (fst (with_retries g (counted call) cancelled ?c (w, 0))) \<le>
      0 + int (nat (sc_MaxRetries ?c) - 1) * max (sc_InitialBackoff ?c) (sc_MaxBackoff ?c)"
    unfolding with_retries_def
    using sign_loop_bounds [of "sc_InitialBackoff ?c" "max (sc_InitialBackoff ?c) (sc_MaxBackoff ?c)" "sc_MaxBackoff ?c" g call
        cancelled "nat (sc_MaxRetries ?c)" 0 "[]" w 0 0] d by simp
  moreover have "int (nat (sc_MaxRetries ?c) - 1) = sc_MaxRetries ?c - 1" using d(1) by simp
  ultimately show ?thesis using d(1) by (auto simp: Let_def)
qed

section \<open>Through the server\<close>

text \<open>The \<open>Response\<close> on the wire.\<close>

definition response_json :: "Response \<Rightarrow> jsonv" where
  "response_json r = JObject
     ([(''jsonrpc'', JString ''2.0'')] @
      (case rs_Result r of None \<Rightarrow> [] | Some v \<Rightarrow> [(''result'', v)]) @
      (case rs_Error r of None \<Rightarrow> []
       | Some e \<Rightarrow> [(''error'', JObject ([(''code'', JNumber (int_text (re_Code e))), (''message'', JString (re_Message e))] @
           (case re_Data e of None \<Rightarrow> [] | Some d \<Rightarrow> [(''data'', JString d)])))]) @
      [(''id'', rs_ID r)])"

text \<open>The endpoint with its authentication by API key; \<open>validate\<close> is the API key service, rate limits are left out.\<close>

definition rpc_endpoint :: "(string \<Rightarrow> APIKey option) \<Rightarrow> 'w rpc_env \<Rightarrow> geth \<Rightarrow> 'w signer_http" where
  "rpc_endpoint validate E G w q =
     (let header = (\<lambda>n. case map_of (sr_Headers q) n of None \<Rightarrow> [] | Some v \<Rightarrow> v)
      in case APIKeyAuth validate \<lparr>hd_Authorization = header ''Authorization'', hd_XAPIKey = header ''X-API-Key''\<rparr> of
        None \<Rightarrow> (w, Reply 401 None)
      | Some cx \<Rightarrow>
          (case handleSingle (NewServer E G cx) (Some (sr_Body q)) w of
             (w', NoContent) \<Rightarrow> (w', Reply 204 None)
           | (w', Single r) \<Rightarrow> (w', Reply 200 (Some (response_json r)))
           | (w', Batch rs) \<Rightarrow> (w', Reply 200 (Some (JArray (map response_json rs))))))"

lemma decode_rpcReq:
  "decode_Request (rpcReq args) = Some \<lparr>rq_JSONRPC = ''2.0'', rq_Method = ''eth_signTransaction'', rq_Params = Some (JArray [args]),
     rq_ID = JNumber ''1''\<rparr>"
  by (simp add: decode_Request_def rpcReq_def json_get_def same_field_def fold_char_def)

lemma reply_result:
  "rpc_result (Reply 200 (Some (response_json \<lparr>rs_Result = Some (JString s), rs_Error = None, rs_ID = JNumber ''1''\<rparr>))) = Inr s"
  by (simp add: rpc_result_def decode_reply_def response_json_def json_get_def same_field_def fold_char_def decode_rpc_error_def
      fields_of_def int_literal_def is_digit_def dec_val_def)

text \<open>The endpoint answers a signing request of an accepted key with what the method answers.\<close>

lemma endpoint_signs:
  assumes "validate (sc_APIKey c) = Some a" "sc_APIKey c \<noteq> []" "gc_ValidURL g (sc_Endpoint c)"
    "EthSignTransaction E (apikey_context a) w (Some (JArray [args])) = (w', Inr (JString s))"
  shows "doJSONRPCCall g (rpc_endpoint validate E G) c (rpcReq args) w = (w', Inr s)"
proof -
  have m: "NewServer E G (apikey_context a) ''eth_signTransaction'' = Some (EthSignTransaction E (apikey_context a))"
    by (simp add: NewServer_def RegisterMethod_def)
  have h: "handleSingle (NewServer E G (apikey_context a)) (Some (rpcReq args)) w =
      (w', Single \<lparr>rs_Result = Some (JString s), rs_Error = None, rs_ID = JNumber ''1''\<rparr>)"
    by (simp add: handleSingle_def decode_rpcReq processRequest_def Request_Validate_def m assms(4))
  have "rpc_endpoint validate E G w \<lparr>sr_URL = sc_Endpoint c, sr_Headers = [(''Content-Type'', ''application/json''), (''X-API-Key'', sc_APIKey c)],
      sr_Body = rpcReq args\<rparr> = (w', Reply 200 (Some (response_json \<lparr>rs_Result = Some (JString s), rs_Error = None, rs_ID = JNumber ''1''\<rparr>)))"
    using assms(1,2) h by (simp add: rpc_endpoint_def APIKeyAuth_def extractAPIKey_def Let_def)
  then show ?thesis using assms(3) reply_result by (simp add: doJSONRPCCall_def post_signed_def)
qed

lemma decode_hex_reply:
  "codec_ok g \<Longrightarrow> decodeSignedTransaction g (EncodeBytes b) = of_option (Fatal ''unmarshal transaction'') (gc_Unmarshal g b)"
  using trim_prefix_append [of zero_x "hex_encode b"] codec_texts(5) [of g b]
  by (simp add: decodeSignedTransaction_def EncodeBytes_def)

text \<open>Documented behaviour of go-ethereum: it decodes the encodings of a signed transaction.\<close>

definition reads_signed :: "geth_codec \<Rightarrow> UnsignedTransaction \<Rightarrow> bool" where
  "reads_signed g t \<longleftrightarrow> (\<forall>v r s. v < 2 ^ 64 \<longrightarrow> r < 2 ^ 256 \<longrightarrow> s < 2 ^ 256 \<longrightarrow>
     (let signed = WithSignature t (Some (int v)) (Some (int r)) (Some (int s)) in gc_Unmarshal g (EncodeRLP signed) = Some signed))"

lemma reads_signed_at:
  "reads_signed g t \<Longrightarrow> v < 2 ^ 64 \<Longrightarrow> r < 2 ^ 256 \<Longrightarrow> s < 2 ^ 256 \<Longrightarrow>
     gc_Unmarshal g (EncodeRLP (WithSignature t (Some (int v)) (Some (int r)) (Some (int s)))) =
       Some (WithSignature t (Some (int v)) (Some (int r)) (Some (int s)))"
  unfolding reads_signed_def Let_def by blast


section \<open>Waiting for a receipt\<close>

text \<open>A receipt that is there at a tick before the deadline is returned, and nothing but an answer of the node at a tick is.\<close>

lemma waitForReceipt_polls:
  "waitForReceipt poll tie d now = Inr r \<Longrightarrow> \<exists>k. 0 < k \<and> now + 2000 * k \<le> d \<and> poll (now + 2000 * k) = Some r"
proof (induction poll tie d now rule: waitForReceipt.induct)
  case (1 poll tie d now)
  let ?t = "now + 2000"
  have c: "\<not> context_first tie d ?t" using "1.prems" by (auto simp: waitForReceipt.simps [of poll tie d now] Let_def split: if_splits)
  show ?case
  proof (cases "poll ?t")
    case (Some r')
    then have "r' = r" using "1.prems" c by (simp add: waitForReceipt.simps [of poll tie d now])
    then show ?thesis using Some c by (intro exI [of _ 1]) (auto simp: context_first_def)
  next
    case None
    then have n: "\<not> d \<le> ?t" "waitForReceipt poll tie d ?t = Inr r"
      using "1.prems" c by (simp_all add: waitForReceipt.simps [of poll tie d now] Let_def split: if_splits)
    obtain k where "0 < k" "?t + 2000 * k \<le> d" "poll (?t + 2000 * k) = Some r"
      using "1.IH" [OF refl c None n] by blast
    then show ?thesis by (intro exI [of _ "Suc k"]) (simp add: algebra_simps)
  qed
qed

lemma pop_wait_first:
  "0 < k \<Longrightarrow> poll (now + 500 * k) = Some r \<Longrightarrow> \<exists>x. pop_waitForReceipt poll tie d now = Some x"
proof (induction k arbitrary: now)
  case (Suc k)
  show ?case
  proof (cases "k = 0")
    case True
    then show ?thesis using Suc.prems by (subst pop_waitForReceipt.simps) (simp add: Let_def)
  next
    case False
    then have "poll (now + 500 + 500 * k) = Some r" using Suc.prems by (simp add: algebra_simps)
    from Suc.IH [OF _ this] False show ?thesis
      by (subst pop_waitForReceipt.simps) (auto simp: Let_def split: option.split)
  qed
qed simp

lemma pop_wait_cancelled: "\<exists>x. pop_waitForReceipt poll tie (Some d) now = Some x"
proof (induction "d - now" arbitrary: now rule: less_induct)
  case less
  show ?case
  proof (cases "d \<le> now + 500")
    case True
    then show ?thesis by (subst pop_waitForReceipt.simps) (auto simp: Let_def split: option.split)
  next
    case False
    then have "\<exists>x. pop_waitForReceipt poll tie (Some d) (now + 500) = Some x" by (intro less) simp
    then show ?thesis by (subst pop_waitForReceipt.simps) (auto simp: Let_def split: option.split)
  qed
qed

lemma pop_wait_reason:
  assumes "pop_waitForReceipt poll tie d now = Some x"
  shows "(\<exists>e. d = Some e) \<or> (\<exists>k r. 0 < k \<and> poll (now + 500 * k) = Some r)" (is "?P poll d now")
proof (rule pop_waitForReceipt.raw_induct [OF _ assms, where P = "\<lambda>poll tie d now x. ?P poll d now"])
  fix wait poll tie d now x
  assume IH: "\<And>poll tie d now x. wait poll tie d now = Some x \<Longrightarrow> ?P poll d now"
    and run: "(let t = now + 500
      in if (case d of None \<Rightarrow> False | Some d \<Rightarrow> context_first tie d t) then Some (Inl ''context canceled'')
         else case poll t of
           Some receipt \<Rightarrow> Some (Inr receipt)
         | None \<Rightarrow> (if (case d of None \<Rightarrow> False | Some d \<Rightarrow> d \<le> t) then Some (Inl ''context canceled'')
                     else wait poll tie d t)) = Some x"
  show "?P poll d now"
  proof (cases d)
    case None
    show ?thesis
    proof (cases "poll (now + 500)")
      case (Some r)
      then show ?thesis by (intro disjI2 exI [of _ 1] exI [of _ r]) simp
    next
      case no: None
      then have "wait poll tie d (now + 500) = Some x" using run None by (simp add: Let_def)
      from IH [OF this] None obtain k r where "0 < k" "poll (now + 500 + 500 * k) = Some r" by auto
      then show ?thesis by (intro disjI2 exI [of _ "Suc k"] exI [of _ r]) (simp add: algebra_simps)
    qed
  qed simp
qed

text \<open>Property C40. The bundle deployer's wait for a receipt returns exactly when its context ends some day or the node answers at some
  tick: it has no timeout of its own, so a transaction that is never mined holds an uncancelled deployment for ever.\<close>

theorem pop_wait_returns:
  "(\<exists>x. pop_waitForReceipt poll tie d now = Some x) \<longleftrightarrow> (\<exists>e. d = Some e) \<or> (\<exists>k r. 0 < k \<and> poll (now + 500 * k) = Some r)"
  using pop_wait_first pop_wait_cancelled pop_wait_reason by metis

section \<open>A running instance\<close>

text \<open>Short encodings stay short.\<close>

lemma rlp_header_short: "n < 256 ^ 8 \<Longrightarrow> length (rlp_header n base) \<le> 9"
  using nat_be_length_le [of n 8] by (simp add: rlp_header_def)

lemma rlp_fields_short:
  "list_all (\<lambda>v. \<exists>b. v = RB b \<and> length b \<le> 32) vs \<Longrightarrow> length (concat (map rlp_enc vs)) \<le> 41 * length vs"
proof (induction vs)
  case (Cons v vs)
  then obtain b where b: "v = RB b" "length b \<le> 32" by auto
  have "length (rlp_header (length b) 128) \<le> 9" using b(2) by (intro rlp_header_short) simp
  then show ?case using Cons b by simp
qed simp

lemma rlp_short:
  assumes "list_all (\<lambda>v. \<exists>b. v = RB b \<and> length b \<le> 32) vs" "length vs \<le> 12"
  shows "rlp_decode (rlp_enc (RL vs)) = Some (RL vs)"
proof (rule rlp_decode_enc)
  let ?p = "concat (map rlp_enc vs)"
  have p: "length ?p \<le> 492" using rlp_fields_short [OF assms(1)] assms(2) by simp
  then have "length (rlp_header (length ?p) 192) \<le> 9" by (intro rlp_header_short) simp
  then show "length (rlp_enc (RL vs)) < 256 ^ 8" using p by (simp add: Let_def)
qed

definition toy_tx :: UnsignedTransaction where
  "toy_tx = tx_example\<lparr>tx_ChainID := Some 8453, tx_MaxPriorityFeePerGas := None, tx_MaxFeePerGas := None, tx_AccessList := []\<rparr>"

text \<open>A decoder for the transaction \<open>toy_tx\<close> with any signature.\<close>

definition toy_unmarshal :: "bytes \<Rightarrow> SignedTransaction option" where
  "toy_unmarshal bs =
     (case rlp_decode bs of
        Some (RL [_, _, _, _, _, _, RB v, RB r, RB s]) \<Rightarrow>
          Some (WithSignature toy_tx (Some (int (be_nat v))) (Some (int (be_nat r))) (Some (int (be_nat s))))
      | _ \<Rightarrow> None)"

definition toy_codec :: geth_codec where
  "toy_codec = \<lparr>gc_Address = EncodeAddress, gc_Uint64 = EncodeUint64, gc_Big = EncodeBig, gc_Bytes = EncodeBytes,
     gc_Decode = (\<lambda>s. case DecodeBytes s of Inr b \<Rightarrow> Some b | Inl _ \<Rightarrow> None), gc_Unmarshal = toy_unmarshal, gc_ValidURL = (\<lambda>_. True)\<rparr>"

lemma toy_codec_ok: "codec_ok toy_codec"
proof -
  have "EncodeBig None = EncodeBig (Some 0)" by code_simp
  then have "DecodeBig (EncodeBig None) = Inr 0" using DecodeBig_Encode [of 0] by simp
  then show ?thesis
    using DecodeAddress_Encode DecodeUint64_Encode DecodeBig_Encode DecodeBytes_Encode by (simp add: codec_ok_def toy_codec_def)
qed

lemma toy_asked: "asked_tx toy_tx" "length e2e_address = 20"
  by (simp_all add: asked_tx_def toy_tx_def tx_example_def e2e_address_def LegacyTxType_def)

lemma toy_reads_signed: "reads_signed toy_codec ((UnsignedTransaction.truncate toy_tx)\<lparr>tx_ChainID := Some 8453\<rparr>)"
proof -
  have t: "(UnsignedTransaction.truncate toy_tx)\<lparr>tx_ChainID := Some 8453\<rparr> = toy_tx"
    by (simp add: toy_tx_def tx_example_def UnsignedTransaction.truncate_def)
  have "gc_Unmarshal toy_codec (EncodeRLP (WithSignature toy_tx (Some (int v)) (Some (int r)) (Some (int s)))) =
      Some (WithSignature toy_tx (Some (int v)) (Some (int r)) (Some (int s)))"
    if "v < 2 ^ 64" "r < 2 ^ 256" "s < 2 ^ 256" for v r s
  proof -
    let ?s = "WithSignature toy_tx (Some (int v)) (Some (int r)) (Some (int s))"
    let ?fields = "body_tree ?s @ [num v, num r, num s]"
    have e: "EncodeRLP ?s = rlp_enc (RL ?fields)"
      by (simp add: EncodeRLP_def WithSignature_def UnsignedTransaction.extend_def toy_tx_def tx_example_def LegacyTxType_def
          EIP1559TxType_def legacy_signed_tree amount_def del: rlp_enc.simps)
    have l: "length (nat_be n) \<le> 32" if "n < 2 ^ 256" for n
      using that by (intro nat_be_length_le) simp
    have "list_all (\<lambda>v. \<exists>b. v = RB b \<and> length b \<le> 32) ?fields"
      using l [of v] l [of r] l [of s] l [of 7] l [of 1000] l [of 21000] l [of 5] \<open>v < 2 ^ 64\<close> \<open>r < 2 ^ 256\<close> \<open>s < 2 ^ 256\<close>
      by (simp add: body_tree_def num_def WithSignature_def UnsignedTransaction.extend_def toy_tx_def tx_example_def amount_def
          to_bytes_def)
    then have "rlp_decode (EncodeRLP ?s) = Some (RL ?fields)" unfolding e by (rule rlp_short) simp
    then show ?thesis by (simp add: toy_codec_def toy_unmarshal_def body_tree_def num_def)
  qed
  then show ?thesis unfolding t reads_signed_def Let_def by blast
qed

definition toy_signer :: SignerConfig where
  "toy_signer = NewPOPSigner \<lparr>sc_Endpoint = ''rpc'', sc_APIKey = ''key'', sc_ClientCert = [], sc_ClientKey = [], sc_CACert = [],
     sc_ChainID = Some 8453, sc_Address = e2e_address, sc_MaxRetries = 0, sc_InitialBackoff = 0, sc_MaxBackoff = 0\<rparr>"

definition toy_key :: APIKey where
  "toy_key = \<lparr>ak_ID = 9, ak_OrgID = 2, ak_Scopes = [''keys:sign''], ak_AllowedKeyIDs = [7], ak_ExpiresAt = None, ak_RevokedAt = None\<rparr>"

definition toy_validate :: "string \<Rightarrow> APIKey option" where
  "toy_validate k = (if k = ''key'' then Some toy_key else None)"


end
