(* ===== verification/CertAuthority.thy ===== *)
theory CertAuthority
  imports CpBao
begin

text \<open>
  The certificate authority behind mutual TLS: the client of OpenBao's PKI engine of
  \<open>openbao/pki.go\<close> with the adapter \<open>openbao/pki_adapter.go\<close>, which passes every call on. Requests go
  through a transport, as those of the other OpenBao clients do; reading PEM and X.509 is a parameter.
\<close>

section \<open>Certificates\<close>

text \<open>What the code reads of a certificate: its encoding, the common name of its subject, its time span.\<close>

record x509_cert =
  xc_Raw :: bytes
  xc_CommonName :: string
  xc_NotBefore :: nat
  xc_NotAfter :: nat

record x509_lib =
  x5_pem :: "string \<Rightarrow> bytes option"            \<comment> \<open>the first block\<close>
  x5_parse :: "bytes \<Rightarrow> x509_cert option"
  x5_sha256 :: "bytes \<Rightarrow> bytes"

record CACertificate =
  ca_CertificatePEM :: string
  ca_ExpiresAt :: nat

record IssuedCertificate =
  ic_CertificatePEM :: string
  ic_PrivateKeyPEM :: string
  ic_CACertPEM :: string
  ic_SerialNumber :: string
  ic_IssuedAt :: nat
  ic_ExpiresAt :: nat

definition parse_pem :: "x509_lib \<Rightarrow> string \<Rightarrow> string + x509_cert" where
  "parse_pem X pem =
     (case x5_pem X pem of
        None \<Rightarrow> Inl ''failed to decode PEM''
      | Some der \<Rightarrow> of_option ''parsing certificate'' (x5_parse X der))"

section \<open>Requests\<close>

datatype http_body = EmptyBody | NoJson | Json jsonv

datatype pki_reply = PkiNoReply | PkiReply nat http_body

type_synonym 'w pki_http = "'w \<Rightarrow> http_request \<Rightarrow> 'w \<times> pki_reply"

record PKIClient =
  pk_client :: cp_client
  pk_mount :: string

definition NewPKIClient :: "cp_client \<Rightarrow> PKIClient" where
  "NewPKIClient c = \<lparr>pk_client = c, pk_mount = ''pki''\<rparr>"

definition SetMount :: "string \<Rightarrow> PKIClient \<Rightarrow> PKIClient" where
  "SetMount m p = p\<lparr>pk_mount := m\<rparr>"

text \<open>A map of the reply, \<open>None\<close> where it is nil; a key may occur more than once, the last one counts.\<close>

type_synonym pki_data = "(string \<times> jsonv) list option"

definition data_value :: "pki_data \<Rightarrow> string \<Rightarrow> jsonv option" where
  "data_value d name = Option.bind d (\<lambda>kvs. map_of (rev kvs) name)"

definition data_text :: "pki_data \<Rightarrow> string \<Rightarrow> string option" where
  "data_text d name = (case data_value d name of Some (JString s) \<Rightarrow> Some s | _ \<Rightarrow> None)"

definition decode_data :: "jsonv \<Rightarrow> pki_data option" where
  "decode_data j = (case j of JNull \<Rightarrow> Some None | JObject kvs \<Rightarrow> Some (Some kvs) | _ \<Rightarrow> None)"

definition decode_pkiResponse :: "jsonv \<Rightarrow> (pki_data \<times> string list) option" where
  "decode_pkiResponse j =
     (if \<not> is_struct j then None
      else Option.bind (json_text (json_get ''request_id'' j)) (\<lambda>_.
        Option.bind (decode_data (json_get ''data'' j)) (\<lambda>d.
          Option.bind (json_slice json_text (json_get ''errors'' j)) (\<lambda>es. Some (d, es)))))"

definition pki_request :: "PKIClient \<Rightarrow> string \<Rightarrow> string \<Rightarrow> jsonv option \<Rightarrow> http_request" where
  "pki_request p method path data = \<lparr>hq_method = method, hq_url = cp_address (pk_client p) @ path,
     hq_token = cp_token (pk_client p), hq_namespace = None, hq_body = data\<rparr>"

definition pki_result :: "pki_reply \<Rightarrow> string + pki_data" where
  "pki_result r =
     (case r of
        PkiNoReply \<Rightarrow> Inl ''request failed''
      | PkiReply status body \<Rightarrow>
          if status \<noteq> 200 \<and> status \<noteq> 204 then Inl ''OpenBao error''
          else if status = 204 \<or> body = EmptyBody then Inr None
          else (case body of
             Json j \<Rightarrow>
               (case decode_pkiResponse j of
                  None \<Rightarrow> Inl ''failed to parse response''
                | Some (d, es) \<Rightarrow> if es \<noteq> [] then Inl ''OpenBao error'' else Inr d)
           | _ \<Rightarrow> Inl ''failed to parse response''))"

definition pki_doRequest ::
  "'w pki_http \<Rightarrow> PKIClient \<Rightarrow> string \<Rightarrow> string \<Rightarrow> jsonv option \<Rightarrow> 'w \<Rightarrow> 'w \<times> (string + pki_data)" where
  "pki_doRequest http p method path data w =
     (case http w (pki_request p method path data) of (w', r) \<Rightarrow> (w', pki_result r))"

section \<open>The operations\<close>

definition EnsurePKIEnabled :: "'w pki_http \<Rightarrow> PKIClient \<Rightarrow> 'w \<Rightarrow> 'w \<times> (string + unit)" where
  "EnsurePKIEnabled http p w =
     (case pki_doRequest http p ''GET'' ''/v1/sys/mounts'' None w of
        (w1, Inl _) \<Rightarrow> (w1, Inl ''checking mounts'')
      | (w1, Inr d) \<Rightarrow>
          if data_value d (pk_mount p @ ''/'') \<noteq> None then (w1, Inr ())
          else (case pki_doRequest http p ''POST'' (''/v1/sys/mounts/'' @ pk_mount p)
              (Some (JObject [(''type'', JString ''pki''),
                 (''description'', JString ''POPSigner PKI CA for mTLS client certificates''),
                 (''config'', JObject [(''default_lease_ttl'', JString ''8760h''), (''max_lease_ttl'', JString ''43800h'')])])) w1 of
             (w2, Inl _) \<Rightarrow> (w2, Inl ''enabling PKI secrets engine'')
           | (w2, Inr _) \<Rightarrow> (w2, Inr ())))"

definition configureURLs :: "'w pki_http \<Rightarrow> PKIClient \<Rightarrow> 'w \<Rightarrow> 'w \<times> (string + pki_data)" where
  "configureURLs http p w = pki_doRequest http p ''POST'' (''/v1/'' @ pk_mount p @ ''/config/urls'')
     (Some (JObject [(''issuing_certificates'', JArray []), (''crl_distribution_points'', JArray [])])) w"

definition role_data :: jsonv where
  "role_data = JObject [(''allow_any_name'', JBool True), (''enforce_hostnames'', JBool False), (''allow_ip_sans'', JBool False),
     (''server_flag'', JBool False), (''client_flag'', JBool True), (''code_signing_flag'', JBool False), (''key_type'', JString ''ec''),
     (''key_bits'', JNumber ''256''), (''key_usage'', JArray [JString ''DigitalSignature'', JString ''KeyEncipherment'']),
     (''ext_key_usage'', JArray [JString ''ClientAuth'']), (''ttl'', JString ''8760h''), (''max_ttl'', JString ''43800h''),
     (''generate_lease'', JBool False), (''no_store'', JBool False)]"

definition createClientCertRole :: "'w pki_http \<Rightarrow> PKIClient \<Rightarrow> 'w \<Rightarrow> 'w \<times> (string + pki_data)" where
  "createClientCertRole http p w =
     pki_doRequest http p ''POST'' (''/v1/'' @ pk_mount p @ ''/roles/client-cert'') (Some role_data) w"

definition pki_GetCACertificate :: "x509_lib \<Rightarrow> 'w pki_http \<Rightarrow> PKIClient \<Rightarrow> 'w \<Rightarrow> 'w \<times> (string + CACertificate)" where
  "pki_GetCACertificate X http p w =
     (case pki_doRequest http p ''GET'' (''/v1/'' @ pk_mount p @ ''/cert/ca'') None w of
        (w', Inl _) \<Rightarrow> (w', Inl ''reading CA certificate'')
      | (w', Inr d) \<Rightarrow>
          (w', if d = None then Inl ''CA not initialized''
               else case data_text d ''certificate'' of
                 None \<Rightarrow> Inl ''no certificate in response''
               | Some pem \<Rightarrow>
                   if pem = [] then Inl ''no certificate in response''
                   else map_sum id (\<lambda>c. \<lparr>ca_CertificatePEM = pem, ca_ExpiresAt = xc_NotAfter c\<rparr>) (parse_pem X pem)))"

text \<open>Times are in seconds.\<close>

definition InitializeCA :: "x509_lib \<Rightarrow> 'w pki_http \<Rightarrow> PKIClient \<Rightarrow> nat \<Rightarrow> 'w \<Rightarrow> 'w \<times> (string + CACertificate)" where
  "InitializeCA X http p now w =
     (case pki_GetCACertificate X http p w of
        (w1, Inr existing) \<Rightarrow> (w1, Inr existing)
      | (w1, Inl _) \<Rightarrow>
          (case pki_doRequest http p ''POST'' (''/v1/'' @ pk_mount p @ ''/root/generate/internal'')
              (Some (JObject [(''common_name'', JString ''POPSigner CA''), (''organization'', JString ''POPSigner''),
                 (''ttl'', JString ''87600h''), (''key_type'', JString ''ec''), (''key_bits'', JNumber ''256''),
                 (''exclude_cn_from_sans'', JBool True)])) w1 of
             (w2, Inl _) \<Rightarrow> (w2, Inl ''generating CA'')
           | (w2, Inr d) \<Rightarrow>
               (case data_text d ''certificate'' of
                  None \<Rightarrow> (w2, Inl ''no certificate in response'')
                | Some pem \<Rightarrow>
                    (case configureURLs http p w2 of
                       (w3, Inl _) \<Rightarrow> (w3, Inl ''configuring URLs'')
                     | (w3, Inr _) \<Rightarrow>
                         (case createClientCertRole http p w3 of
                            (w4, Inl _) \<Rightarrow> (w4, Inl ''creating client cert role'')
                          | (w4, Inr _) \<Rightarrow>
                              (w4, Inr \<lparr>ca_CertificatePEM = pem, ca_ExpiresAt = now + 10 * 365 * 24 * 3600\<rparr>))))))"

definition issue_data :: "string \<Rightarrow> string \<Rightarrow> jsonv" where
  "issue_data cn ttl = JObject [(''common_name'', JString cn), (''ttl'', JString (if ttl \<noteq> [] then ttl else ''8760h''))]"

definition issued_of :: "x509_lib \<Rightarrow> pki_data \<Rightarrow> string + IssuedCertificate" where
  "issued_of X d =
     (case data_text d ''certificate'' of
        None \<Rightarrow> Inl ''no certificate in response''
      | Some pem \<Rightarrow>
          (case data_text d ''private_key'' of
             None \<Rightarrow> Inl ''no private key in response''
           | Some key \<Rightarrow>
               (case data_text d ''issuing_ca'' of
                  None \<Rightarrow> Inl ''no issuing CA in response''
                | Some ca \<Rightarrow>
                    (case data_text d ''serial_number'' of
                       None \<Rightarrow> Inl ''no serial number in response''
                     | Some serial \<Rightarrow>
                         map_sum id (\<lambda>c. \<lparr>ic_CertificatePEM = pem, ic_PrivateKeyPEM = key, ic_CACertPEM = ca,
                           ic_SerialNumber = serial, ic_IssuedAt = xc_NotBefore c, ic_ExpiresAt = xc_NotAfter c\<rparr>) (parse_pem X pem)))))"

definition IssueCertificate ::
  "x509_lib \<Rightarrow> 'w pki_http \<Rightarrow> PKIClient \<Rightarrow> string \<Rightarrow> string \<Rightarrow> 'w \<Rightarrow> 'w \<times> (string + IssuedCertificate)" where
  "IssueCertificate X http p cn ttl w =
     (case pki_doRequest http p ''POST'' (''/v1/'' @ pk_mount p @ ''/issue/client-cert'') (Some (issue_data cn ttl)) w of
        (w', Inl _) \<Rightarrow> (w', Inl ''issuing certificate'')
      | (w', Inr d) \<Rightarrow> (w', issued_of X d))"

definition RevokeCertificate :: "'w pki_http \<Rightarrow> PKIClient \<Rightarrow> string \<Rightarrow> 'w \<Rightarrow> 'w \<times> (string + unit)" where
  "RevokeCertificate http p serial w =
     (case pki_doRequest http p ''POST'' (''/v1/'' @ pk_mount p @ ''/revoke'')
         (Some (JObject [(''serial_number'', JString serial)])) w of
        (w', Inl _) \<Rightarrow> (w', Inl ''revoking certificate'')
      | (w', Inr _) \<Rightarrow> (w', Inr ()))"

section \<open>Facts\<close>

lemma parse_pem_Inr: "parse_pem X pem = Inr c \<longleftrightarrow> (\<exists>der. x5_pem X pem = Some der \<and> x5_parse X der = Some c)"
  by (auto simp: parse_pem_def of_option_def split: option.splits)

lemma issued_of_Inr:
  "issued_of X d = Inr i \<Longrightarrow> data_text d ''certificate'' = Some (ic_CertificatePEM i) \<and>
     data_text d ''serial_number'' = Some (ic_SerialNumber i) \<and>
     (\<exists>c. parse_pem X (ic_CertificatePEM i) = Inr c \<and> ic_IssuedAt i = xc_NotBefore c \<and> ic_ExpiresAt i = xc_NotAfter c)"
  unfolding issued_of_def by (auto split: option.splits) (cases "parse_pem X (the (data_text d ''certificate''))"; auto)+

lemma IssueCertificate_parses:
  assumes "IssueCertificate X http p cn ttl w = (w', Inr i)"
  obtains c where "parse_pem X (ic_CertificatePEM i) = Inr c" "ic_IssuedAt i = xc_NotBefore c" "ic_ExpiresAt i = xc_NotAfter c"
proof -
  obtain d where "issued_of X d = Inr i"
    using assms by (auto simp: IssueCertificate_def split: prod.splits sum.splits)
  from issued_of_Inr [OF this] that show thesis by blast
qed

text \<open>
  Creating the authority is not resumed: once its certificate can be read, nothing else is requested, whether
  or not the role that issues client certificates is there.
\<close>

lemma InitializeCA_existing:
  "pki_GetCACertificate X http p w = (w', Inr ca) \<Longrightarrow> InitializeCA X http p now w = (w', Inr ca)"
  by (simp add: InitializeCA_def)

end
