(* ===== verification/Certificates.thy ===== *)
theory Certificates
  imports CertAuthority
begin

text \<open>
  Client certificates: the records of \<open>models/certificate.go\<close>, their table in
  \<open>repository/certificate_repo.go\<close> with the keys of its migration, the service
  \<open>service/certificate_service.go\<close>, and the authentication of the RPC gateway by certificate or API key,
  \<open>cmd/rpc-gateway/internal/auth\<close>. UUIDs are numbers, 0 is the nil UUID; their texts, PEM, X.509 and SHA-256
  are parameters. A call runs as one step; the clock and new identifiers are arguments and each statement may
  fail. Audit entries are written in the background and nothing here reads them.
\<close>

section \<open>Records\<close>

record certificate =
  ct_ID :: uuid
  ct_OrgID :: uuid
  ct_Name :: string
  ct_Fingerprint :: string
  ct_CommonName :: string
  ct_SerialNumber :: string
  ct_IssuedAt :: nat
  ct_ExpiresAt :: nat
  ct_RevokedAt :: "nat option"
  ct_RevocationReason :: "string option"
  ct_CreatedAt :: nat
  ct_PEM :: "string option"

definition cert_IsRevoked :: "certificate \<Rightarrow> bool" where
  "cert_IsRevoked c \<longleftrightarrow> ct_RevokedAt c \<noteq> None"

definition cert_IsExpired :: "nat \<Rightarrow> certificate \<Rightarrow> bool" where
  "cert_IsExpired now c \<longleftrightarrow> ct_ExpiresAt c < now"

definition cert_IsValid :: "nat \<Rightarrow> certificate \<Rightarrow> bool" where
  "cert_IsValid now c \<longleftrightarrow> \<not> cert_IsRevoked c \<and> \<not> cert_IsExpired now c"

datatype certificate_status = CertActive | CertExpired | CertRevoked

definition cert_Status :: "nat \<Rightarrow> certificate \<Rightarrow> certificate_status" where
  "cert_Status now c = (if cert_IsRevoked c then CertRevoked else if cert_IsExpired now c then CertExpired else CertActive)"

definition OrgIDFromCN :: "string \<Rightarrow> string option" where
  "OrgIDFromCN cn = (if has_prefix ''org_'' cn then Some (trim_prefix ''org_'' cn) else None)"

definition CNFromOrgID :: "string \<Rightarrow> string" where
  "CNFromOrgID orgID = (if has_prefix ''org_'' orgID then orgID else ''org_'' @ orgID)"

definition fingerprint_of :: "x509_lib \<Rightarrow> x509_cert \<Rightarrow> string" where
  "fingerprint_of X c = hex_encode (x5_sha256 X (xc_Raw c))"

text \<open>Durations are in nanoseconds.\<close>

record CreateCertificateRequest =
  cr_OrgID :: uuid
  cr_Name :: string
  cr_ValidityPeriod :: int

definition hour :: int where "hour = 3600 * 10 ^ 9"

definition Request_checked :: "CreateCertificateRequest \<Rightarrow> string + CreateCertificateRequest" where
  "Request_checked r =
     (if cr_OrgID r = 0 then Inl ''org_id is required''
      else if cr_Name r = [] then Inl ''name is required''
      else if length (cr_Name r) > 255 then Inl ''name must be 255 characters or less''
      else (let r' = (if cr_ValidityPeriod r = 0 then r\<lparr>cr_ValidityPeriod := 365 * 24 * hour\<rparr> else r)
            in if cr_ValidityPeriod r' < hour then Inl ''validity_period must be at least 1 hour''
               else if cr_ValidityPeriod r' > 5 * 365 * 24 * hour then Inl ''validity_period cannot exceed 5 years''
               else Inr r'))"

section \<open>The table\<close>

record cert_db =
  cd_certs :: "certificate list"
  cd_orgs :: "uuid list"

datatype cert_query =
    QOrganization | QCertificate | QByFingerprint | QBySerial | QByOrgAndName | QListByOrg | QCountByOrg
  | QInsertCert | QRevokeCert | QDeleteCert | QExpiring

type_synonym cert_faults = "cert_query \<Rightarrow> bool"

text \<open>How UUIDs are written, and read by the library and by the columns of the database.\<close>

record uuid_lib =
  ul_String :: "uuid \<Rightarrow> string"
  ul_Parse :: "string \<Rightarrow> uuid option"
  ul_column :: "string \<Rightarrow> uuid option"

text \<open>A query answers \<open>None\<close> when it fails; an identifier the column cannot hold makes it fail.\<close>

definition cert_Create :: "cert_faults \<Rightarrow> certificate \<Rightarrow> cert_db \<Rightarrow> cert_db option" where
  "cert_Create f c db =
     (if f QInsertCert \<or> ct_OrgID c \<notin> set (cd_orgs db) \<or>
         list_ex (\<lambda>d. ct_ID d = ct_ID c \<or> ct_Fingerprint d = ct_Fingerprint c \<or> ct_SerialNumber d = ct_SerialNumber c \<or>
           ct_OrgID d = ct_OrgID c \<and> ct_Name d = ct_Name c) (cd_certs db) then None
      else Some (db\<lparr>cd_certs := cd_certs db @ [c]\<rparr>))"

definition cert_GetByID :: "cert_faults \<Rightarrow> uuid_lib \<Rightarrow> cert_db \<Rightarrow> string \<Rightarrow> certificate option option" where
  "cert_GetByID f U db i =
     (if f QCertificate then None
      else map_option (\<lambda>u. find (\<lambda>c. ct_ID c = u) (cd_certs db)) (ul_column U i))"

text \<open>The other queries leave the PEM out.\<close>

definition without_pem :: "certificate \<Rightarrow> certificate" where
  "without_pem c = c\<lparr>ct_PEM := None\<rparr>"

definition cert_GetByFingerprint :: "cert_faults \<Rightarrow> cert_db \<Rightarrow> string \<Rightarrow> certificate option option" where
  "cert_GetByFingerprint f db fp =
     (if f QByFingerprint then None else Some (map_option without_pem (find (\<lambda>c. ct_Fingerprint c = fp) (cd_certs db))))"

definition cert_GetBySerialNumber :: "cert_faults \<Rightarrow> cert_db \<Rightarrow> string \<Rightarrow> certificate option option" where
  "cert_GetBySerialNumber f db serial =
     (if f QBySerial then None else Some (map_option without_pem (find (\<lambda>c. ct_SerialNumber c = serial) (cd_certs db))))"

definition cert_GetByOrgAndName :: "cert_faults \<Rightarrow> uuid_lib \<Rightarrow> cert_db \<Rightarrow> string \<Rightarrow> string \<Rightarrow> certificate option option" where
  "cert_GetByOrgAndName f U db orgID name =
     (if f QByOrgAndName then None
      else map_option (\<lambda>o'. map_option without_pem (find (\<lambda>c. ct_OrgID c = o' \<and> ct_Name c = name) (cd_certs db))) (ul_column U orgID))"

datatype cert_filter = FilterAll | FilterActive | FilterRevoked | FilterExpired

definition filter_where :: "cert_filter \<Rightarrow> nat \<Rightarrow> certificate \<Rightarrow> bool" where
  "filter_where flt now c =
     (case flt of
        FilterAll \<Rightarrow> True
      | FilterActive \<Rightarrow> ct_RevokedAt c = None \<and> now < ct_ExpiresAt c
      | FilterRevoked \<Rightarrow> ct_RevokedAt c \<noteq> None
      | FilterExpired \<Rightarrow> ct_ExpiresAt c \<le> now \<and> ct_RevokedAt c = None)"

text \<open>The newest first.\<close>

definition cert_ListByOrg :: "cert_faults \<Rightarrow> uuid_lib \<Rightarrow> cert_db \<Rightarrow> nat \<Rightarrow> string \<Rightarrow> cert_filter \<Rightarrow> certificate list option" where
  "cert_ListByOrg f U db now orgID flt =
     (if f QListByOrg then None
      else map_option (\<lambda>o'. map without_pem (rev (sort_key ct_CreatedAt
        (filter (\<lambda>c. ct_OrgID c = o' \<and> filter_where flt now c) (cd_certs db))))) (ul_column U orgID))"

definition cert_ListActiveByOrg :: "cert_faults \<Rightarrow> uuid_lib \<Rightarrow> cert_db \<Rightarrow> nat \<Rightarrow> string \<Rightarrow> certificate list option" where
  "cert_ListActiveByOrg f U db now orgID = cert_ListByOrg f U db now orgID FilterActive"

definition cert_CountByOrg :: "cert_faults \<Rightarrow> uuid_lib \<Rightarrow> cert_db \<Rightarrow> string \<Rightarrow> nat option" where
  "cert_CountByOrg f U db orgID =
     (if f QCountByOrg then None
      else map_option (\<lambda>o'. length (filter (\<lambda>c. ct_OrgID c = o') (cd_certs db))) (ul_column U orgID))"

text \<open>Changing no row is an error too.\<close>

definition cert_Revoke :: "cert_faults \<Rightarrow> uuid_lib \<Rightarrow> nat \<Rightarrow> string \<Rightarrow> string \<Rightarrow> cert_db \<Rightarrow> cert_db option" where
  "cert_Revoke f U now i reason db =
     (if f QRevokeCert then None
      else Option.bind (ul_column U i) (\<lambda>u.
        if list_ex (\<lambda>c. ct_ID c = u \<and> ct_RevokedAt c = None) (cd_certs db)
        then Some (db\<lparr>cd_certs := map (\<lambda>c. if ct_ID c = u \<and> ct_RevokedAt c = None
          then c\<lparr>ct_RevokedAt := Some now, ct_RevocationReason := Some reason\<rparr> else c) (cd_certs db)\<rparr>)
        else None))"

definition cert_Delete :: "cert_faults \<Rightarrow> uuid_lib \<Rightarrow> string \<Rightarrow> cert_db \<Rightarrow> cert_db option" where
  "cert_Delete f U i db =
     (if f QDeleteCert then None
      else Option.bind (ul_column U i) (\<lambda>u.
        if list_ex (\<lambda>c. ct_ID c = u) (cd_certs db)
        then Some (db\<lparr>cd_certs := filter (\<lambda>c. ct_ID c \<noteq> u) (cd_certs db)\<rparr>)
        else None))"

definition repo_IsValid :: "cert_faults \<Rightarrow> cert_db \<Rightarrow> nat \<Rightarrow> string \<Rightarrow> certificate option option" where
  "repo_IsValid f db now fp =
     map_option (\<lambda>found. case found of None \<Rightarrow> None | Some c \<Rightarrow> if \<not> cert_IsValid now c then None else Some c)
       (cert_GetByFingerprint f db fp)"

definition cert_ListExpiringSoon :: "cert_faults \<Rightarrow> cert_db \<Rightarrow> nat \<Rightarrow> nat \<Rightarrow> certificate list option" where
  "cert_ListExpiringSoon f db now within =
     (if f QExpiring then None
      else Some (map without_pem (sort_key ct_ExpiresAt
        (filter (\<lambda>c. ct_RevokedAt c = None \<and> now < ct_ExpiresAt c \<and> ct_ExpiresAt c < now + within) (cd_certs db)))))"

text \<open>Deleting an organization takes its certificates along.\<close>

definition drop_org :: "uuid \<Rightarrow> cert_db \<Rightarrow> cert_db" where
  "drop_org o' db = db\<lparr>cd_orgs := filter (\<lambda>p. p \<noteq> o') (cd_orgs db), cd_certs := filter (\<lambda>c. ct_OrgID c \<noteq> o') (cd_certs db)\<rparr>"

section \<open>The service\<close>

datatype cert_error = CertBadRequest string | CertNotFound string | CertFailed string

record CertificateBundle =
  cb_ClientCert :: string
  cb_ClientKey :: string
  cb_CACert :: string
  cb_Fingerprint :: string
  cb_ExpiresAt :: nat

text \<open>What the service works with; the state is that of OpenBao and the database.\<close>

record 'w cert_service =
  cs_http :: "'w pki_http"
  cs_pki :: PKIClient
  cs_x509 :: x509_lib
  cs_uuid :: uuid_lib

definition calculateFingerprint :: "x509_lib \<Rightarrow> string \<Rightarrow> string + string" where
  "calculateFingerprint X pem = map_sum id (fingerprint_of X) (parse_pem X pem)"

text \<open>
  \<open>int(d.Hours())\<close>: whole hours. (In floating point a period that ends within some nanoseconds of the next
  full hour counts as that hour; this is not distinguished.)
\<close>

definition ttl_text :: "int \<Rightarrow> string" where
  "ttl_text d = dec_of_nat (nat (d div hour)) @ ''h''"

definition cert_row :: "x509_lib \<Rightarrow> CreateCertificateRequest \<Rightarrow> string \<Rightarrow> string \<Rightarrow> IssuedCertificate \<Rightarrow> uuid \<Rightarrow> nat \<Rightarrow> certificate" where
  "cert_row X r cn fp i newID now = \<lparr>ct_ID = newID, ct_OrgID = cr_OrgID r, ct_Name = cr_Name r, ct_Fingerprint = fp,
     ct_CommonName = cn, ct_SerialNumber = ic_SerialNumber i, ct_IssuedAt = ic_IssuedAt i, ct_ExpiresAt = ic_ExpiresAt i,
     ct_RevokedAt = None, ct_RevocationReason = None, ct_CreatedAt = now, ct_PEM = Some (ic_CertificatePEM i)\<rparr>"

definition CertIssue ::
  "'w cert_service \<Rightarrow> cert_faults \<Rightarrow> uuid \<Rightarrow> nat \<Rightarrow> CreateCertificateRequest \<Rightarrow> 'w \<times> cert_db \<Rightarrow>
     ('w \<times> cert_db) \<times> (cert_error + CertificateBundle)" where
  "CertIssue S f newID now req = (\<lambda>(w, db).
     (case Request_checked req of
        Inl e \<Rightarrow> ((w, db), Inl (CertBadRequest e))
      | Inr r \<Rightarrow>
          if f QOrganization then ((w, db), Inl (CertFailed ''checking organization''))
          else if cr_OrgID r \<notin> set (cd_orgs db) then ((w, db), Inl (CertNotFound ''Organization''))
          else (case cert_GetByOrgAndName f (cs_uuid S) db (ul_String (cs_uuid S) (cr_OrgID r)) (cr_Name r) of
             None \<Rightarrow> ((w, db), Inl (CertFailed ''checking existing certificate''))
           | Some (Some _) \<Rightarrow> ((w, db), Inl (CertBadRequest ''certificate with this name already exists''))
           | Some None \<Rightarrow>
               let cn = CNFromOrgID (ul_String (cs_uuid S) (cr_OrgID r)) in
               (case IssueCertificate (cs_x509 S) (cs_http S) (cs_pki S) cn (ttl_text (cr_ValidityPeriod r)) w of
                  (w1, Inl _) \<Rightarrow> ((w1, db), Inl (CertFailed ''issuing certificate''))
                | (w1, Inr i) \<Rightarrow>
                    (case calculateFingerprint (cs_x509 S) (ic_CertificatePEM i) of
                       Inl _ \<Rightarrow> ((w1, db), Inl (CertFailed ''calculating fingerprint''))
                     | Inr fp \<Rightarrow>
                         (case cert_Create f (cert_row (cs_x509 S) r cn fp i newID now) db of
                            None \<Rightarrow>
                              ((fst (RevokeCertificate (cs_http S) (cs_pki S) (ic_SerialNumber i) w1), db),
                                Inl (CertFailed ''storing certificate''))
                          | Some db' \<Rightarrow>
                              ((w1, db'), Inr \<lparr>cb_ClientCert = ic_CertificatePEM i, cb_ClientKey = ic_PrivateKeyPEM i,
                                cb_CACert = ic_CACertPEM i, cb_Fingerprint = fp, cb_ExpiresAt = ic_ExpiresAt i\<rparr>)))))))"

text \<open>The certificate of an identifier, if it belongs to the organization.\<close>

definition owned_cert :: "cert_faults \<Rightarrow> uuid_lib \<Rightarrow> cert_db \<Rightarrow> string \<Rightarrow> string \<Rightarrow> cert_error + certificate" where
  "owned_cert f U db orgID certID =
     (case cert_GetByID f U db certID of
        None \<Rightarrow> Inl (CertFailed ''getting certificate'')
      | Some None \<Rightarrow> Inl (CertNotFound ''Certificate'')
      | Some (Some c) \<Rightarrow> if ul_Parse U orgID \<noteq> Some (ct_OrgID c) then Inl (CertNotFound ''Certificate'') else Inr c)"

definition CertRevoke ::
  "'w cert_service \<Rightarrow> cert_faults \<Rightarrow> nat \<Rightarrow> string \<Rightarrow> string \<Rightarrow> string \<Rightarrow> 'w \<times> cert_db \<Rightarrow> ('w \<times> cert_db) \<times> (cert_error + unit)" where
  "CertRevoke S f now orgID certID reason = (\<lambda>(w, db).
     (case owned_cert f (cs_uuid S) db orgID certID of
        Inl e \<Rightarrow> ((w, db), Inl e)
      | Inr c \<Rightarrow>
          if cert_IsRevoked c then ((w, db), Inl (CertBadRequest ''certificate already revoked''))
          else (case RevokeCertificate (cs_http S) (cs_pki S) (ct_SerialNumber c) w of
             (w1, Inl _) \<Rightarrow> ((w1, db), Inl (CertFailed ''revoking in PKI''))
           | (w1, Inr _) \<Rightarrow>
               (case cert_Revoke f (cs_uuid S) now certID reason db of
                  None \<Rightarrow> ((w1, db), Inl (CertFailed ''updating certificate''))
                | Some db' \<Rightarrow> ((w1, db'), Inr ())))))"

definition CertGet :: "cert_faults \<Rightarrow> uuid_lib \<Rightarrow> cert_db \<Rightarrow> string \<Rightarrow> string \<Rightarrow> cert_error + certificate option" where
  "CertGet f U db orgID certID =
     (case owned_cert f U db orgID certID of
        Inl (CertNotFound _) \<Rightarrow> Inr None
      | Inl e \<Rightarrow> Inl e
      | Inr c \<Rightarrow> Inr (Some c))"

definition CertList :: "cert_faults \<Rightarrow> uuid_lib \<Rightarrow> cert_db \<Rightarrow> nat \<Rightarrow> string \<Rightarrow> cert_filter \<Rightarrow> cert_error + (certificate list \<times> nat)" where
  "CertList f U db now orgID flt =
     (case cert_ListByOrg f U db now orgID flt of
        None \<Rightarrow> Inl (CertFailed ''listing certificates'')
      | Some cs \<Rightarrow> Inr (cs, length cs))"

definition CertDelete ::
  "'w cert_service \<Rightarrow> cert_faults \<Rightarrow> string \<Rightarrow> string \<Rightarrow> 'w \<times> cert_db \<Rightarrow> ('w \<times> cert_db) \<times> (cert_error + unit)" where
  "CertDelete S f orgID certID = (\<lambda>(w, db).
     (case owned_cert f (cs_uuid S) db orgID certID of
        Inl e \<Rightarrow> ((w, db), Inl e)
      | Inr c \<Rightarrow>
          if \<not> cert_IsRevoked c then ((w, db), Inl (CertBadRequest ''certificate must be revoked before deletion''))
          else (case cert_Delete f (cs_uuid S) certID db of
             None \<Rightarrow> ((w, db), Inl (CertFailed ''deleting certificate''))
           | Some db' \<Rightarrow> ((w, db'), Inr ()))))"

definition ValidateForAuth :: "cert_faults \<Rightarrow> uuid_lib \<Rightarrow> cert_db \<Rightarrow> nat \<Rightarrow> string \<Rightarrow> cert_error + string" where
  "ValidateForAuth f U db now fp =
     (case repo_IsValid f db now fp of
        None \<Rightarrow> Inl (CertFailed ''validating certificate'')
      | Some None \<Rightarrow> Inr []
      | Some (Some c) \<Rightarrow> Inr (ul_String U (ct_OrgID c)))"

definition service_GetCACertificate :: "'w cert_service \<Rightarrow> 'w \<Rightarrow> 'w \<times> (cert_error + string)" where
  "service_GetCACertificate S w =
     (case pki_GetCACertificate (cs_x509 S) (cs_http S) (cs_pki S) w of
        (w', Inl _) \<Rightarrow> (w', Inl (CertFailed ''getting CA certificate''))
      | (w', Inr ca) \<Rightarrow> (w', Inr (ca_CertificatePEM ca)))"

definition DownloadBundle ::
  "'w cert_service \<Rightarrow> cert_faults \<Rightarrow> string \<Rightarrow> string \<Rightarrow> 'w \<times> cert_db \<Rightarrow> ('w \<times> cert_db) \<times> (cert_error + CertificateBundle)" where
  "DownloadBundle S f orgID certID = (\<lambda>(w, db).
     (case owned_cert f (cs_uuid S) db orgID certID of
        Inl e \<Rightarrow> ((w, db), Inl e)
      | Inr c \<Rightarrow>
          (case service_GetCACertificate S w of
             (w', Inl e) \<Rightarrow> ((w', db), Inl e)
           | (w', Inr ca) \<Rightarrow> ((w', db), Inr \<lparr>cb_ClientCert = (case ct_PEM c of None \<Rightarrow> [] | Some p \<Rightarrow> p), cb_ClientKey = [],
               cb_CACert = ca, cb_Fingerprint = ct_Fingerprint c, cb_ExpiresAt = ct_ExpiresAt c\<rparr>))))"

section \<open>Authentication at the gateway\<close>

text \<open>The certificates of the peer; \<open>None\<close> is a connection without TLS.\<close>

record AuthResult =
  au_OrgID :: string
  au_Method :: string
  au_Identifier :: string

definition validateCertificate :: "cert_faults \<Rightarrow> uuid_lib \<Rightarrow> cert_db \<Rightarrow> nat \<Rightarrow> string \<Rightarrow> x509_cert \<Rightarrow> string + string" where
  "validateCertificate f U db now fp cert =
     (case cert_GetByFingerprint f db fp of
        None \<Rightarrow> Inl ''database error''
      | Some None \<Rightarrow> Inl ''certificate not registered''
      | Some (Some c) \<Rightarrow>
          if cert_IsRevoked c then Inl ''certificate has been revoked''
          else if cert_IsExpired now c then Inl ''certificate has expired''
          else (case OrgIDFromCN (xc_CommonName cert) of
             None \<Rightarrow> Inl ''invalid certificate CN''
           | Some orgID \<Rightarrow>
               if orgID \<noteq> ul_String U (ct_OrgID c) then Inl ''certificate CN does not match registered organization''
               else Inr (ul_String U (ct_OrgID c))))"

definition Authenticate ::
  "x509_lib \<Rightarrow> uuid_lib \<Rightarrow> cert_faults \<Rightarrow> cert_db \<Rightarrow> nat \<Rightarrow> x509_cert list option \<Rightarrow> string + AuthResult" where
  "Authenticate X U f db now tls =
     (case tls of
        None \<Rightarrow> Inl ''no TLS connection''
      | Some [] \<Rightarrow> Inl ''no client certificate provided''
      | Some (cert # _) \<Rightarrow>
          (let fp = fingerprint_of X cert in
           case validateCertificate f U db now fp cert of
             Inl e \<Rightarrow> Inl e
           | Inr orgID \<Rightarrow> Inr \<lparr>au_OrgID = orgID, au_Method = ''mtls'', au_Identifier = take 16 fp @ ''...''\<rparr>))"

text \<open>The context of the RPC handlers with the organization only; it is read back from its text.\<close>

definition org_context :: "uuid_lib \<Rightarrow> string \<Rightarrow> reqctx" where
  "org_context U orgID = anonymous\<lparr>cx_org := (case ul_Parse U orgID of None \<Rightarrow> 0 | Some i \<Rightarrow> i)\<rparr>"

text \<open>\<open>None\<close> is the answer that the caller is not authorized.\<close>

definition MTLSOnlyMiddleware ::
  "x509_lib \<Rightarrow> uuid_lib \<Rightarrow> cert_faults \<Rightarrow> cert_db \<Rightarrow> nat \<Rightarrow> x509_cert list option \<Rightarrow> reqctx option" where
  "MTLSOnlyMiddleware X U f db now tls =
     (case Authenticate X U f db now tls of Inl _ \<Rightarrow> None | Inr r \<Rightarrow> Some (org_context U (au_OrgID r)))"

definition signing_scope :: "APIKey \<Rightarrow> bool" where
  "signing_scope k \<longleftrightarrow> HasScope k ''keys:sign:evm'' \<or> HasScope k ''keys:sign''"

definition short_key :: "string \<Rightarrow> string" where
  "short_key k = (if length k > 12 then take 12 k @ ''...'' else k)"

definition authenticateAPIKey :: "uuid_lib \<Rightarrow> (string \<Rightarrow> APIKey option) \<Rightarrow> string \<Rightarrow> string + AuthResult" where
  "authenticateAPIKey U validate apiKey =
     (case validate apiKey of
        None \<Rightarrow> Inl ''invalid API key''
      | Some k \<Rightarrow>
          if \<not> signing_scope k then Inl ''API key missing required scope''
          else Inr \<lparr>au_OrgID = ul_String U (ak_OrgID k), au_Method = ''api_key'', au_Identifier = short_key apiKey\<rparr>)"

definition DualAuth ::
  "x509_lib \<Rightarrow> uuid_lib \<Rightarrow> (string \<Rightarrow> APIKey option) \<Rightarrow> cert_faults \<Rightarrow> cert_db \<Rightarrow> nat \<Rightarrow> http_headers \<Rightarrow> x509_cert list option \<Rightarrow>
     reqctx option" where
  "DualAuth X U validate f db now h tls =
     (let apiKey = extractAPIKey h;
          by_key = (if apiKey \<noteq> [] then authenticateAPIKey U validate apiKey else Inl [])
      in case by_key of
        Inr r \<Rightarrow> Some (org_context U (au_OrgID r))
      | Inl _ \<Rightarrow>
          (case Authenticate X U f db now tls of
             Inl _ \<Rightarrow> None
           | Inr r \<Rightarrow> Some (org_context U (au_OrgID r))))"

datatype api_auth = AuthRequired | AuthInvalid | AuthForbidden | AuthAdmitted reqctx

definition APIKeyOnlyMiddleware :: "uuid_lib \<Rightarrow> (string \<Rightarrow> APIKey option) \<Rightarrow> http_headers \<Rightarrow> api_auth" where
  "APIKeyOnlyMiddleware U validate h =
     (let apiKey = extractAPIKey h in
      if apiKey = [] then AuthRequired
      else case validate apiKey of
        None \<Rightarrow> AuthInvalid
      | Some k \<Rightarrow> if \<not> signing_scope k then AuthForbidden else AuthAdmitted (org_context U (ul_String U (ak_OrgID k))))"

section \<open>Histories\<close>

text \<open>What happens to the records: calls of the service, and organizations that come and go.\<close>

datatype cert_op =
    OpIssue cert_faults uuid nat CreateCertificateRequest
  | OpRevoke cert_faults nat string string string
  | OpDelete cert_faults string string
  | OpAddOrg uuid
  | OpDropOrg uuid

definition cert_step :: "'w cert_service \<Rightarrow> cert_op \<Rightarrow> 'w \<times> cert_db \<Rightarrow> 'w \<times> cert_db" where
  "cert_step S op s =
     (case op of
        OpIssue f newID now r \<Rightarrow> fst (CertIssue S f newID now r s)
      | OpRevoke f now orgID certID reason \<Rightarrow> fst (CertRevoke S f now orgID certID reason s)
      | OpDelete f orgID certID \<Rightarrow> fst (CertDelete S f orgID certID s)
      | OpAddOrg o' \<Rightarrow> (fst s, (snd s)\<lparr>cd_orgs := cd_orgs (snd s) @ [o']\<rparr>)
      | OpDropOrg o' \<Rightarrow> (fst s, drop_org o' (snd s)))"

definition cert_run :: "'w cert_service \<Rightarrow> cert_op list \<Rightarrow> 'w \<times> cert_db \<Rightarrow> 'w \<times> cert_db" where
  "cert_run S ops s = fold (cert_step S) ops s"

lemma cert_run_simps [simp]:
  "cert_run S [] s = s" "cert_run S (op # ops) s = cert_run S ops (cert_step S op s)"
  by (simp_all add: cert_run_def)

text \<open>What a call does to the table, whatever it answers.\<close>

inductive table_change :: "uuid_lib \<Rightarrow> cert_op \<Rightarrow> cert_db \<Rightarrow> cert_db \<Rightarrow> bool" for U op db where
  unchanged: "table_change U op db db"
| inserted: "table_change U op db db'" if "op = OpIssue f newID now r" "cert_Create f c db = Some db'" "ct_RevokedAt c = None"
    "ct_CommonName c = CNFromOrgID (ul_String U (ct_OrgID c))" for f newID now r c db'
| revoked: "table_change U op db db'" if "op = OpRevoke f now orgID certID reason" "cert_Revoke f U now certID reason db = Some db'"
    for f now orgID certID reason db'
| deleted: "table_change U op db db'" if "op = OpDelete f orgID certID" "cert_Delete f U certID db = Some db'" for f orgID certID db'
| org_added: "table_change U op db (db\<lparr>cd_orgs := cd_orgs db @ [o']\<rparr>)" if "op = OpAddOrg o'" for o'
| org_dropped: "table_change U op db (drop_org o' db)" if "op = OpDropOrg o'" for o'

text \<open>Issuing a certificate, by its outcome.\<close>

lemma CertIssue_cases:
  assumes "CertIssue S f newID now r (w, db) = ((w', db'), res)"
  obtains e where "db' = db" "res = Inl e"
  | r' w1 i fp b where "Request_checked r = Inr r'" "res = Inr b"
      "IssueCertificate (cs_x509 S) (cs_http S) (cs_pki S) (CNFromOrgID (ul_String (cs_uuid S) (cr_OrgID r')))
         (ttl_text (cr_ValidityPeriod r')) w = (w1, Inr i)"
      "calculateFingerprint (cs_x509 S) (ic_CertificatePEM i) = Inr fp"
      "cert_Create f (cert_row (cs_x509 S) r' (CNFromOrgID (ul_String (cs_uuid S) (cr_OrgID r'))) fp i newID now) db = Some db'"
      "cb_ClientCert b = ic_CertificatePEM i" "cb_Fingerprint b = fp" "cb_ExpiresAt b = ic_ExpiresAt i"
  using assms unfolding CertIssue_def
  by (auto simp: Let_def split: sum.splits if_splits option.splits prod.splits)

lemma Request_checked_org: "Request_checked r = Inr r' \<Longrightarrow> cr_OrgID r' = cr_OrgID r \<and> cr_OrgID r \<noteq> 0"
  by (auto simp: Request_checked_def Let_def split: if_splits)

lemma CertRevoke_cases:
  assumes "CertRevoke S f now orgID certID reason (w, db) = ((w', db'), res)"
  obtains e where "db' = db" "res = Inl e"
  | c where "owned_cert f (cs_uuid S) db orgID certID = Inr c" "cert_Revoke f (cs_uuid S) now certID reason db = Some db'" "res = Inr ()"
  using assms unfolding CertRevoke_def by (auto split: sum.splits if_splits option.splits prod.splits)

lemma CertDelete_cases:
  assumes "CertDelete S f orgID certID (w, db) = ((w', db'), res)"
  obtains e where "db' = db" "res = Inl e"
  | c where "owned_cert f (cs_uuid S) db orgID certID = Inr c" "cert_IsRevoked c" "cert_Delete f (cs_uuid S) certID db = Some db'"
      "res = Inr ()"
  using assms unfolding CertDelete_def by (auto split: sum.splits if_splits option.splits prod.splits)

lemma step_changes: "table_change (cs_uuid S) op (snd s) (snd (cert_step S op s))"
proof (cases op)
  case (OpIssue f newID now r)
  obtain w db w' db' res where e: "s = (w, db)" "CertIssue S f newID now r (w, db) = ((w', db'), res)" by (metis prod.exhaust)
  from CertIssue_cases [OF e(2)] show ?thesis
  proof cases
    case 1
    then show ?thesis using e OpIssue by (simp add: cert_step_def unchanged)
  next
    case (2 r' w1 i fp b)
    then show ?thesis
      using e OpIssue by (auto simp: cert_step_def cert_row_def intro: inserted)
  qed
next
  case (OpRevoke f now orgID certID reason)
  obtain w db w' db' res where e: "s = (w, db)" "CertRevoke S f now orgID certID reason (w, db) = ((w', db'), res)" by (metis prod.exhaust)
  from CertRevoke_cases [OF e(2)] show ?thesis
    using e OpRevoke by cases (auto simp: cert_step_def intro: table_change.intros)
next
  case (OpDelete f orgID certID)
  obtain w db w' db' res where e: "s = (w, db)" "CertDelete S f orgID certID (w, db) = ((w', db'), res)" by (metis prod.exhaust)
  from CertDelete_cases [OF e(2)] show ?thesis
    using e OpDelete by cases (auto simp: cert_step_def intro: table_change.intros)
qed (auto simp: cert_step_def intro: table_change.intros)

section \<open>The table stays as its keys demand\<close>

definition certs_ok :: "uuid_lib \<Rightarrow> cert_db \<Rightarrow> bool" where
  "certs_ok U db \<longleftrightarrow> distinct (map ct_ID (cd_certs db)) \<and> distinct (map ct_Fingerprint (cd_certs db)) \<and>
     distinct (map ct_SerialNumber (cd_certs db)) \<and> distinct (map (\<lambda>c. (ct_OrgID c, ct_Name c)) (cd_certs db)) \<and>
     list_all (\<lambda>c. ct_OrgID c \<in> set (cd_orgs db) \<and> ct_CommonName c = CNFromOrgID (ul_String U (ct_OrgID c))) (cd_certs db)"

lemma map_cert_Revoke:
  assumes "cert_Revoke f U now i reason db = Some db'"
  shows "cd_orgs db' = cd_orgs db" "\<exists>u. ul_column U i = Some u \<and> cd_certs db' = map (\<lambda>c. if ct_ID c = u \<and> ct_RevokedAt c = None
     then c\<lparr>ct_RevokedAt := Some now, ct_RevocationReason := Some reason\<rparr> else c) (cd_certs db)"
  using assms by (auto simp: cert_Revoke_def bind_eq_Some_conv split: if_splits)

lemma certs_ok_change:
  assumes "certs_ok U db" "table_change U op db db'"
  shows "certs_ok U db'"
  using assms(2)
proof cases
  case (inserted f newID now r c)
  then show ?thesis using assms(1)
    by (auto simp: certs_ok_def cert_Create_def list_ex_iff split: if_splits) metis+
next
  case (revoked f now orgID certID reason)
  then obtain u where m: "cd_orgs db' = cd_orgs db" "cd_certs db' = map (\<lambda>c. if ct_ID c = u \<and> ct_RevokedAt c = None
     then c\<lparr>ct_RevokedAt := Some now, ct_RevocationReason := Some reason\<rparr> else c) (cd_certs db)"
    using map_cert_Revoke by blast
  have k: "map g (cd_certs db') = map g (cd_certs db)"
    if "\<And>c t s. g (c\<lparr>ct_RevokedAt := t, ct_RevocationReason := s\<rparr>) = g c" for g :: "certificate \<Rightarrow> 'z"
    using that by (simp add: m(2))
  show ?thesis
    using assms(1) unfolding certs_ok_def m(1) by (simp add: k) (auto simp: m(2) list_all_iff)
next
  case (deleted f orgID certID)
  then show ?thesis using assms(1)
    by (auto simp: certs_ok_def cert_Delete_def bind_eq_Some_conv list_all_iff distinct_map_filter split: if_splits)
next
  case (org_added o')
  then show ?thesis using assms(1) by (auto simp: certs_ok_def list_all_iff)
next
  case (org_dropped o')
  then show ?thesis using assms(1) by (auto simp: certs_ok_def drop_org_def list_all_iff distinct_map_filter)
qed (use assms(1) in simp)

lemma certs_ok_run: "certs_ok (cs_uuid S) (snd s) \<Longrightarrow> certs_ok (cs_uuid S) (snd (cert_run S ops s))"
proof (induction ops arbitrary: s)
  case (Cons op ops)
  then show ?case using Cons.IH [OF certs_ok_change [OF Cons.prems step_changes]] by simp
qed simp

lemma certs_ok_start: "certs_ok U \<lparr>cd_certs = [], cd_orgs = os\<rparr>"
  by (simp add: certs_ok_def)

lemma find_unique:
  "distinct (map f xs) \<Longrightarrow> find (\<lambda>x. f x = k) xs = Some x \<longleftrightarrow> x \<in> set xs \<and> f x = k"
  by (induction xs) (auto simp: image_iff)

section \<open>Who is admitted\<close>

text \<open>Documented behaviour of the UUID library and of the database: they read what the library writes, digits and dashes.\<close>

definition uuid_ok :: "uuid_lib \<Rightarrow> bool" where
  "uuid_ok U \<longleftrightarrow> (\<forall>i. ul_Parse U (ul_String U i) = Some i \<and> ul_column U (ul_String U i) = Some i \<and>
     list_all (\<lambda>c. c \<in> set ''0123456789abcdef-'') (ul_String U i))"

lemma uuid_texts:
  assumes "uuid_ok U"
  shows "ul_Parse U (ul_String U i) = Some i" "ul_column U (ul_String U i) = Some i" "\<not> has_prefix ''org_'' (ul_String U i)"
    "ul_String U i = ul_String U j \<longleftrightarrow> i = j"
proof -
  show p: "ul_Parse U (ul_String U i) = Some i" "ul_column U (ul_String U i) = Some i" for i using assms by (simp_all add: uuid_ok_def)
  have "list_all (\<lambda>c. c \<in> set ''0123456789abcdef-'') (ul_String U i)" using assms by (simp add: uuid_ok_def)
  then show "\<not> has_prefix ''org_'' (ul_String U i)" by (cases "ul_String U i") (auto simp: has_prefix_def)
  show "ul_String U i = ul_String U j \<longleftrightarrow> i = j" using p(1) by (metis option.inject)
qed

lemma OrgIDFromCN_Some: "OrgIDFromCN cn = Some s \<longleftrightarrow> cn = ''org_'' @ s"
proof
  assume "OrgIDFromCN cn = Some s"
  then have "take (length ''org_'') cn = ''org_''" "s = drop (length ''org_'') cn"
    by (auto simp: OrgIDFromCN_def has_prefix_def trim_prefix_def split: if_splits)
  then show "cn = ''org_'' @ s" by (metis append_take_drop_id)
next
  assume "cn = ''org_'' @ s"
  then show "OrgIDFromCN cn = Some s" by (simp add: OrgIDFromCN_def has_prefix_def trim_prefix_def)
qed

lemmas OrgIDFromCN_org [simp] = OrgIDFromCN_Some [of "''org_'' @ s" s for s, simplified]

lemma CN_roundtrip: "uuid_ok U \<Longrightarrow> OrgIDFromCN (CNFromOrgID (ul_String U i)) = Some (ul_String U i)"
  by (simp add: CNFromOrgID_def uuid_texts OrgIDFromCN_Some)

lemma validateCertificate_Inr:
  "validateCertificate f U db now fp cert = Inr orgID \<longleftrightarrow>
     \<not> f QByFingerprint \<and> (\<exists>c. find (\<lambda>c. ct_Fingerprint c = fp) (cd_certs db) = Some c \<and> ct_RevokedAt c = None \<and>
       now \<le> ct_ExpiresAt c \<and> xc_CommonName cert = ''org_'' @ ul_String U (ct_OrgID c) \<and> orgID = ul_String U (ct_OrgID c))"
proof -
  have s: "ct_RevokedAt (without_pem c) = ct_RevokedAt c" "ct_ExpiresAt (without_pem c) = ct_ExpiresAt c"
    "ct_OrgID (without_pem c) = ct_OrgID c" for c
    by (simp_all add: without_pem_def)
  show ?thesis
    by (auto simp: validateCertificate_def cert_GetByFingerprint_def cert_IsRevoked_def cert_IsExpired_def OrgIDFromCN_Some s
        split: option.splits)
qed

lemma mtls_admits:
  assumes "uuid_ok U"
  shows "MTLSOnlyMiddleware X U f db now (Some (cert # cs)) = Some cx \<longleftrightarrow> \<not> f QByFingerprint \<and>
     (\<exists>c. find (\<lambda>c. ct_Fingerprint c = fingerprint_of X cert) (cd_certs db) = Some c \<and> ct_RevokedAt c = None \<and> now \<le> ct_ExpiresAt c \<and>
       xc_CommonName cert = ''org_'' @ ul_String U (ct_OrgID c) \<and> cx = anonymous\<lparr>cx_org := ct_OrgID c\<rparr>)"
proof (cases "validateCertificate f U db now (fingerprint_of X cert) cert")
  case (Inl e)
  then have "\<not> (\<exists>orgID. validateCertificate f U db now (fingerprint_of X cert) cert = Inr orgID)" by simp
  then show ?thesis using Inl unfolding validateCertificate_Inr by (auto simp: MTLSOnlyMiddleware_def Authenticate_def Let_def)
next
  case (Inr orgID)
  then have "MTLSOnlyMiddleware X U f db now (Some (cert # cs)) = Some (org_context U orgID)"
    by (simp add: MTLSOnlyMiddleware_def Authenticate_def Let_def)
  then show ?thesis using Inr unfolding validateCertificate_Inr
    by (auto simp: org_context_def uuid_texts [OF assms])
qed

text \<open>
  Property C21. From an empty table on, whatever is issued, revoked and deleted, the gateway admits a client certificate for
  an organization exactly when the table can be read, has the certificate's fingerprint unrevoked and unexpired for that
  organization, and the certificate names it.
\<close>

theorem mtls_admits_exactly_owner:
  assumes "uuid_ok (cs_uuid S)" "db = snd (cert_run S ops (w, \<lparr>cd_certs = [], cd_orgs = os\<rparr>))"
  shows "MTLSOnlyMiddleware X (cs_uuid S) f db now (Some (cert # cs)) = Some cx \<longleftrightarrow> \<not> f QByFingerprint \<and>
     (\<exists>c. c \<in> set (cd_certs db) \<and> ct_Fingerprint c = fingerprint_of X cert \<and> ct_RevokedAt c = None \<and> now \<le> ct_ExpiresAt c \<and>
       xc_CommonName cert = ''org_'' @ ul_String (cs_uuid S) (ct_OrgID c) \<and> cx = anonymous\<lparr>cx_org := ct_OrgID c\<rparr>)"
proof -
  have "certs_ok (cs_uuid S) db" unfolding assms(2) by (intro certs_ok_run) (simp add: certs_ok_start)
  then have "find (\<lambda>c. ct_Fingerprint c = k) (cd_certs db) = Some c \<longleftrightarrow> c \<in> set (cd_certs db) \<and> ct_Fingerprint c = k" for c k
    by (intro find_unique) (simp add: certs_ok_def)
  then show ?thesis unfolding mtls_admits [OF assms(1)] by simp
qed

section \<open>Revoked is revoked\<close>

text \<open>The authority registers the fingerprint (again).\<close>

definition registers :: "'w cert_service \<Rightarrow> string \<Rightarrow> cert_op \<Rightarrow> 'w \<times> cert_db \<Rightarrow> bool" where
  "registers S fp op s =
     (case op of
        OpIssue f newID now r \<Rightarrow> (case snd (CertIssue S f newID now r s) of Inr b \<Rightarrow> cb_Fingerprint b = fp | Inl _ \<Rightarrow> False)
      | _ \<Rightarrow> False)"

fun never_registers :: "'w cert_service \<Rightarrow> string \<Rightarrow> cert_op list \<Rightarrow> 'w \<times> cert_db \<Rightarrow> bool" where
  "never_registers S fp [] s = True"
| "never_registers S fp (op # ops) s = (\<not> registers S fp op s \<and> never_registers S fp ops (cert_step S op s))"

definition locked_out :: "string \<Rightarrow> cert_db \<Rightarrow> bool" where
  "locked_out fp db \<longleftrightarrow> list_all (\<lambda>c. ct_Fingerprint c = fp \<longrightarrow> ct_RevokedAt c \<noteq> None) (cd_certs db)"

lemma locked_out_change:
  assumes "locked_out fp db" "table_change U op db db'" "\<nexists>f newID now r. op = OpIssue f newID now r"
  shows "locked_out fp db'"
  using assms(2)
proof cases
  case (revoked f now orgID certID reason)
  then show ?thesis using assms(1) map_cert_Revoke [OF revoked(2)] by (auto simp: locked_out_def list_all_iff)
qed (use assms in \<open>auto simp: locked_out_def cert_Delete_def drop_org_def bind_eq_Some_conv list_all_iff split: if_splits\<close>)

lemma locked_out_step:
  assumes "locked_out fp (snd s)" "\<not> registers S fp op s"
  shows "locked_out fp (snd (cert_step S op s))"
proof (cases "\<exists>f newID now r. op = OpIssue f newID now r")
  case True
  then obtain f newID now r w db w' db' res where e: "op = OpIssue f newID now r" "s = (w, db)"
    "CertIssue S f newID now r (w, db) = ((w', db'), res)" by (metis prod.exhaust)
  from CertIssue_cases [OF e(3)] show ?thesis
  proof cases
    case 1
    then show ?thesis using assms(1) e by (simp add: cert_step_def)
  next
    case (2 r' w1 i fp' b)
    then have "fp' \<noteq> fp" using assms(2) e by (auto simp: registers_def)
    then show ?thesis using assms(1) e 2(5) by (auto simp: cert_step_def cert_Create_def cert_row_def locked_out_def split: if_splits)
  qed
qed (use locked_out_change [OF assms(1) step_changes] in blast)

lemma locked_out_run:
  "locked_out fp (snd s) \<Longrightarrow> never_registers S fp ops s \<Longrightarrow> locked_out fp (snd (cert_run S ops s))"
proof (induction ops arbitrary: s)
  case (Cons op ops)
  then show ?case using locked_out_step [of fp s S op] by simp
qed simp

lemma locked_out_denied:
  "uuid_ok U \<Longrightarrow> locked_out (fingerprint_of X cert) db \<Longrightarrow> MTLSOnlyMiddleware X U f db now (Some (cert # cs)) = None"
  by (cases "MTLSOnlyMiddleware X U f db now (Some (cert # cs))")
    (auto simp: mtls_admits locked_out_def list_all_iff find_Some_iff dest!: nth_mem)

lemma revoke_locks_out:
  assumes "certs_ok (cs_uuid S) db" "CertRevoke S f now orgID certID reason (w, db) = ((w', db'), Inr ())"
    "cert_GetByID (\<lambda>_. False) (cs_uuid S) db certID = Some (Some c)"
  shows "locked_out (ct_Fingerprint c) db'"
proof -
  obtain u where u: "ul_column (cs_uuid S) certID = Some u" "find (\<lambda>c. ct_ID c = u) (cd_certs db) = Some c"
    using assms(3) by (auto simp: cert_GetByID_def)
  then have c: "c \<in> set (cd_certs db)" "ct_ID c = u"
    using find_unique [of ct_ID "cd_certs db" u c] assms(1) by (simp_all add: certs_ok_def)
  have same: "d = c" if "d \<in> set (cd_certs db)" "ct_Fingerprint d = ct_Fingerprint c" for d
    using that c(1) assms(1) by (auto simp: certs_ok_def distinct_map inj_on_def)
  have "cert_Revoke f (cs_uuid S) now certID reason db = Some db'"
    using CertRevoke_cases [OF assms(2)] by (cases, auto)
  from map_cert_Revoke(2) [OF this] u(1) show ?thesis
    using same c(2) by (auto simp: locked_out_def list_all_iff split: if_splits) 
qed

text \<open>
  Property C20. Once the service has revoked a certificate, the gateway never admits it again, whatever is issued, revoked,
  deleted, created and dropped afterwards, unless the authority issues that very certificate again.
\<close>

theorem revoked_certificate_stays_out:
  assumes "uuid_ok (cs_uuid S)" "cert_run S ops (w0, \<lparr>cd_certs = [], cd_orgs = os\<rparr>) = (w, db)"
    and "CertRevoke S f now orgID certID reason (w, db) = (s', Inr ())"
    and "cert_GetByID (\<lambda>_. False) (cs_uuid S) db certID = Some (Some c)"
    and "never_registers S (ct_Fingerprint c) later s'" "fingerprint_of X cert = ct_Fingerprint c"
  shows "MTLSOnlyMiddleware X (cs_uuid S) f' (snd (cert_run S later s')) now' (Some (cert # cs)) = None"
proof -
  have ok: "certs_ok (cs_uuid S) db" using certs_ok_run [of S "(w0, \<lparr>cd_certs = [], cd_orgs = os\<rparr>)" ops] assms(2) certs_ok_start by simp
  obtain w' db' where s: "s' = (w', db')" by (cases s')
  have "locked_out (ct_Fingerprint c) (snd s')" using revoke_locks_out [OF ok] assms(3,4) s by simp
  from locked_out_run [OF this assms(5)] show ?thesis
    unfolding assms(6) [symmetric] by (rule locked_out_denied [OF assms(1)])
qed

section \<open>Issued certificates work\<close>

text \<open>Documented behaviour of the PKI engine: a certificate names the subject it was asked for.\<close>

definition names_subject :: "x509_lib \<Rightarrow> 'w pki_http \<Rightarrow> PKIClient \<Rightarrow> bool" where
  "names_subject X http p \<longleftrightarrow> (\<forall>cn ttl w w' i c. IssueCertificate X http p cn ttl w = (w', Inr i) \<longrightarrow>
     parse_pem X (ic_CertificatePEM i) = Inr c \<longrightarrow> xc_CommonName c = cn)"

text \<open>Calls that do not concern a certificate: they name another one, and its organization is not dropped.\<close>

definition spares :: "uuid_lib \<Rightarrow> uuid \<Rightarrow> uuid \<Rightarrow> cert_op \<Rightarrow> bool" where
  "spares U i o' op =
     (case op of
        OpRevoke f now orgID certID reason \<Rightarrow> ul_column U certID \<noteq> Some i
      | OpDelete f orgID certID \<Rightarrow> ul_column U certID \<noteq> Some i
      | OpDropOrg p \<Rightarrow> p \<noteq> o'
      | _ \<Rightarrow> True)"

lemma spared_change:
  assumes "c \<in> set (cd_certs db)" "table_change U op db db'" "spares U (ct_ID c) (ct_OrgID c) op"
  shows "c \<in> set (cd_certs db')"
  using assms(2)
proof cases
  case (revoked f now orgID certID reason)
  then show ?thesis using assms(1,3) map_cert_Revoke(2) [OF revoked(2)] by (auto simp: spares_def image_iff)
qed (use assms in \<open>auto simp: cert_Create_def cert_Delete_def drop_org_def spares_def bind_eq_Some_conv split: if_splits\<close>)

lemma spared_run:
  "c \<in> set (cd_certs (snd s)) \<Longrightarrow> list_all (spares (cs_uuid S) (ct_ID c) (ct_OrgID c)) ops \<Longrightarrow>
     c \<in> set (cd_certs (snd (cert_run S ops s)))"
proof (induction ops arbitrary: s)
  case (Cons op ops)
  then show ?case using spared_change [OF Cons.prems(1) step_changes] by simp
qed simp

text \<open>
  Property C22. A certificate the service has issued is admitted for its organization until it expires, as long as the table
  can be read and no call revokes or deletes it or drops the organization.
\<close>

theorem issued_certificate_admitted:
  assumes "uuid_ok (cs_uuid S)" "names_subject (cs_x509 S) (cs_http S) (cs_pki S)"
    and "cert_run S ops (w0, \<lparr>cd_certs = [], cd_orgs = os\<rparr>) = (w, db)"
    and "CertIssue S f newID now r (w, db) = (s', Inr b)"
    and "list_all (spares (cs_uuid S) newID (cr_OrgID r)) later" "now' \<le> cb_ExpiresAt b" "\<not> f' QByFingerprint"
  shows "\<exists>cert. parse_pem (cs_x509 S) (cb_ClientCert b) = Inr cert \<and>
     MTLSOnlyMiddleware (cs_x509 S) (cs_uuid S) f' (snd (cert_run S later s')) now' (Some (cert # cs)) =
       Some (anonymous\<lparr>cx_org := cr_OrgID r\<rparr>)"
proof -
  let ?U = "cs_uuid S" and ?X = "cs_x509 S"
  obtain w' db' where s: "s' = (w', db')" by (cases s')
  from CertIssue_cases [OF assms(4) [unfolded s]] obtain r' w1 i fp where
    i: "Request_checked r = Inr r'" "IssueCertificate ?X (cs_http S) (cs_pki S) (CNFromOrgID (ul_String ?U (cr_OrgID r')))
         (ttl_text (cr_ValidityPeriod r')) w = (w1, Inr i)" "calculateFingerprint ?X (ic_CertificatePEM i) = Inr fp"
      "cert_Create f (cert_row ?X r' (CNFromOrgID (ul_String ?U (cr_OrgID r'))) fp i newID now) db = Some db'"
      "cb_ClientCert b = ic_CertificatePEM i" "cb_ExpiresAt b = ic_ExpiresAt i"
    by (cases, auto)
  let ?c = "cert_row ?X r' (CNFromOrgID (ul_String ?U (cr_OrgID r'))) fp i newID now"
  have org: "cr_OrgID r' = cr_OrgID r" using Request_checked_org [OF i(1)] by simp
  obtain cert where cert: "parse_pem ?X (ic_CertificatePEM i) = Inr cert" using IssueCertificate_parses [OF i(2)] by metis
  have cn: "xc_CommonName cert = ''org_'' @ ul_String ?U (cr_OrgID r)"
    using assms(2) i(2) cert uuid_texts(3) [OF assms(1)] unfolding names_subject_def org by (auto simp: CNFromOrgID_def)
  have fp: "fp = fingerprint_of ?X cert" using i(3) cert by (simp add: calculateFingerprint_def)
  have "?c \<in> set (cd_certs (snd (cert_run S later s')))"
    by (rule spared_run) (use i(4) assms(5) in \<open>auto simp: s cert_Create_def cert_row_def org split: if_splits\<close>)
  moreover have "certs_ok ?U (snd (cert_run S later s'))"
  proof -
    have "certs_ok ?U db" using certs_ok_run [of S "(w0, \<lparr>cd_certs = [], cd_orgs = os\<rparr>)" ops] assms(3) certs_ok_start by simp
    moreover have "s' = cert_step S (OpIssue f newID now r) (w, db)" using assms(4) by (simp add: cert_step_def)
    ultimately show ?thesis using certs_ok_change [OF _ step_changes [of S "OpIssue f newID now r" "(w, db)"]] by (intro certs_ok_run) simp
  qed
  ultimately have "find (\<lambda>c. ct_Fingerprint c = fp) (cd_certs (snd (cert_run S later s'))) = Some ?c"
    using find_unique [of ct_Fingerprint "cd_certs (snd (cert_run S later s'))" fp ?c] by (simp add: certs_ok_def cert_row_def)
  then have "MTLSOnlyMiddleware ?X ?U f' (snd (cert_run S later s')) now' (Some (cert # cs)) = Some (anonymous\<lparr>cx_org := cr_OrgID r\<rparr>)"
    unfolding mtls_admits [OF assms(1)] using assms(6,7) cn i(6) by (auto simp: fp cert_row_def org)
  then show ?thesis using cert i(5) by auto
qed

section \<open>A running instance\<close>

definition toy_uuids :: uuid_lib where
  "toy_uuids = (let read = (\<lambda>s. if s \<noteq> [] \<and> list_all is_digit s then Some (dec_val s) else None)
     in \<lparr>ul_String = dec_of_nat, ul_Parse = read, ul_column = read\<rparr>)"

lemma digits_listed: "\<forall>c. is_digit c \<longrightarrow> c \<in> set ''0123456789abcdef-''"
  by code_simp

lemma toy_uuids_ok: "uuid_ok toy_uuids"
proof -
  have "list_all is_digit (dec_of_nat n)" "dec_of_nat n \<noteq> []" for n
    using dec_of_nat_digits dec_of_nat_Cons [of n] by (auto simp: list_all_iff)
  moreover have "c \<in> set ''0123456789abcdef-''" if "is_digit c" for c
    using digits_listed that by blast
  ultimately show ?thesis unfolding uuid_ok_def toy_uuids_def Let_def list_all_iff by simp
qed

text \<open>A PEM text is the subject, a certificate its characters; the authority counts its requests.\<close>

definition toy_x509 :: x509_lib where
  "toy_x509 = \<lparr>x5_pem = \<lambda>s. Some (bytes_of_ascii s),
     x5_parse = \<lambda>der. Some \<lparr>xc_Raw = der, xc_CommonName = map (\<lambda>b. char_of (unat b)) der, xc_NotBefore = 0, xc_NotAfter = 100\<rparr>, x5_sha256 = id\<rparr>"

definition toy_pki :: "nat pki_http" where
  "toy_pki w q = (Suc w,
     case json_get ''common_name'' (the (hq_body q)) of
       JString cn \<Rightarrow> PkiReply 200 (Json (JObject [(''data'', JObject [(''certificate'', JString cn), (''private_key'', JString ''key''),
         (''issuing_ca'', JString ''ca''), (''serial_number'', JString (dec_of_nat w))])]))
     | _ \<Rightarrow> PkiReply 204 EmptyBody)"

definition toy_service :: "nat cert_service" where
  "toy_service = \<lparr>cs_http = toy_pki, cs_pki = NewPKIClient (NewClient ''bao'' ''token'' []), cs_x509 = toy_x509, cs_uuid = toy_uuids\<rparr>"

lemma ascii_back: "map (\<lambda>b. char_of (unat b)) (bytes_of_ascii s) = s"
  by (simp add: bytes_of_ascii_def comp_def char_of_ascii_byte)

lemma toy_names_subject: "names_subject toy_x509 toy_pki p"
  by (auto simp: ascii_back names_subject_def IssueCertificate_def pki_doRequest_def pki_request_def toy_pki_def issue_data_def json_get_def
      same_field_def fold_char_def pki_result_def decode_pkiResponse_def decode_data_def issued_of_def data_text_def data_value_def
      parse_pem_def toy_x509_def comp_def)

definition toy_issue :: cert_op where
  "toy_issue = OpIssue (\<lambda>_. False) 5 10 \<lparr>cr_OrgID = 2, cr_Name = ''nitro'', cr_ValidityPeriod = hour\<rparr>"

definition toy_cert :: x509_cert where
  "toy_cert = \<lparr>xc_Raw = bytes_of_ascii ''org_2'', xc_CommonName = ''org_2'', xc_NotBefore = 0, xc_NotAfter = 100\<rparr>"

definition toy_row :: certificate where
  "toy_row = \<lparr>ct_ID = 5, ct_OrgID = 2, ct_Name = ''nitro'', ct_Fingerprint = fingerprint_of toy_x509 toy_cert, ct_CommonName = ''org_2'',
     ct_SerialNumber = ''0'', ct_IssuedAt = 0, ct_ExpiresAt = 100, ct_RevokedAt = None, ct_RevocationReason = None, ct_CreatedAt = 10,
     ct_PEM = Some ''org_2''\<rparr>"

lemma toy_run: "cert_run toy_service [toy_issue] (0, \<lparr>cd_certs = [], cd_orgs = [2]\<rparr>) = (1, \<lparr>cd_certs = [toy_row], cd_orgs = [2]\<rparr>)"
  by code_simp

theorem mtls_admits_exactly_owner_witness:
  "MTLSOnlyMiddleware toy_x509 toy_uuids (\<lambda>_. False) (snd (cert_run toy_service [toy_issue] (0, \<lparr>cd_certs = [], cd_orgs = [2]\<rparr>))) 50
     (Some [toy_cert]) = Some (anonymous\<lparr>cx_org := 2\<rparr>)"
proof -
  have u: "cs_uuid toy_service = toy_uuids" by (simp add: toy_service_def)
  have "xc_CommonName toy_cert = ''org_'' @ ul_String toy_uuids 2" by code_simp
  then show ?thesis
    using mtls_admits_exactly_owner [of toy_service _ "[toy_issue]" 0 "[2]" toy_x509 "\<lambda>_. False" 50 toy_cert "[]" "anonymous\<lparr>cx_org := 2\<rparr>",
        OF _ refl] toy_uuids_ok
    unfolding toy_run u by (simp add: toy_row_def)
qed

theorem revoked_certificate_stays_out_witness:
  "MTLSOnlyMiddleware toy_x509 toy_uuids (\<lambda>_. False) (snd (cert_run toy_service [OpDelete (\<lambda>_. False) ''2'' ''5'']
     (2, \<lparr>cd_certs = [toy_row\<lparr>ct_RevokedAt := Some 20, ct_RevocationReason := Some ''lost''\<rparr>], cd_orgs = [2]\<rparr>))) 50 (Some [toy_cert]) = None"
proof -
  have u: "uuid_ok (cs_uuid toy_service)" using toy_uuids_ok by (simp add: toy_service_def)
  have r: "CertRevoke toy_service (\<lambda>_. False) 20 ''2'' ''5'' ''lost'' (1, \<lparr>cd_certs = [toy_row], cd_orgs = [2]\<rparr>) =
      ((2, \<lparr>cd_certs = [toy_row\<lparr>ct_RevokedAt := Some 20, ct_RevocationReason := Some ''lost''\<rparr>], cd_orgs = [2]\<rparr>), Inr ())"
    by code_simp
  have g: "cert_GetByID (\<lambda>_. False) (cs_uuid toy_service) \<lparr>cd_certs = [toy_row], cd_orgs = [2]\<rparr> ''5'' = Some (Some toy_row)" by code_simp
  have n: "never_registers toy_service (ct_Fingerprint toy_row) [OpDelete (\<lambda>_. False) ''2'' ''5'']
      (2, \<lparr>cd_certs = [toy_row\<lparr>ct_RevokedAt := Some 20, ct_RevocationReason := Some ''lost''\<rparr>], cd_orgs = [2]\<rparr>)"
    by (simp add: registers_def)
  have f: "fingerprint_of toy_x509 toy_cert = ct_Fingerprint toy_row" by (simp add: toy_row_def)
  have "cs_uuid toy_service = toy_uuids" by (simp add: toy_service_def)
  with revoked_certificate_stays_out [OF u toy_run r g n f] show ?thesis by simp
qed

theorem issued_certificate_admitted_witness:
  "\<exists>cert. parse_pem toy_x509 ''org_2'' = Inr cert \<and>
     MTLSOnlyMiddleware toy_x509 toy_uuids (\<lambda>_. False) (snd (cert_run toy_service [OpAddOrg 3] (1, \<lparr>cd_certs = [toy_row], cd_orgs = [2]\<rparr>))) 100
       (Some [cert]) = Some (anonymous\<lparr>cx_org := 2\<rparr>)"
proof -
  let ?b = "\<lparr>cb_ClientCert = ''org_2'', cb_ClientKey = ''key'', cb_CACert = ''ca'', cb_Fingerprint = fingerprint_of toy_x509 toy_cert,
     cb_ExpiresAt = 100\<rparr>" and ?r = "\<lparr>cr_OrgID = 2, cr_Name = ''nitro'', cr_ValidityPeriod = hour\<rparr>"
  have s: "cs_uuid toy_service = toy_uuids" "cs_x509 toy_service = toy_x509" "cs_http toy_service = toy_pki" by (simp_all add: toy_service_def)
  have r: "cert_run toy_service [] (0, \<lparr>cd_certs = [], cd_orgs = [2]\<rparr>) = (0, \<lparr>cd_certs = [], cd_orgs = [2]\<rparr>)" by simp
  have i: "CertIssue toy_service (\<lambda>_. False) 5 10 ?r (0, \<lparr>cd_certs = [], cd_orgs = [2]\<rparr>) = ((1, \<lparr>cd_certs = [toy_row], cd_orgs = [2]\<rparr>), Inr ?b)"
    by code_simp
  show ?thesis
    using issued_certificate_admitted [of toy_service, unfolded s, OF toy_uuids_ok toy_names_subject r i,
        of "[OpAddOrg 3]" 100 "\<lambda>_. False" "[]"] by (simp add: spares_def)
qed

text \<open>
  The gateway's own middlewares for API keys pass the organization on and nothing else: a key that is bound to some keys
  signs with every key of its organization. (The server uses the middleware of \<open>internal/middleware\<close>, which keeps the binding.)
\<close>

lemma dual_auth_unbound:
  assumes "uuid_ok U" "extractAPIKey h \<noteq> []" "validate (extractAPIKey h) = Some k" "signing_scope k"
  shows "DualAuth X U validate f db now h tls = Some (anonymous\<lparr>cx_org := ak_OrgID k\<rparr>)" "AllowsKey (anonymous\<lparr>cx_org := ak_OrgID k\<rparr>) i"
  using assms by (simp_all add: DualAuth_def authenticateAPIKey_def org_context_def uuid_texts AllowsKey_def anonymous_def)

end
