(* ===== verification/Webhooks.thy ===== *)
theory Webhooks
  imports EthRpc
begin

text \<open>
  Webhooks: the rows of \<open>models/webhook.go\<close>, the statements of \<open>repository/webhook_repo.go\<close> and the
  service \<open>service/webhook_service.go\<close> with its signatures and the delivery with retries. The list of events is
  kept as the code writes it. The receiver, the clock and the rendering of JSON belong to the world of a
  delivery; HMAC-SHA256 is a parameter. A delivery runs as one step. Times are seconds, waits are nanoseconds
  that are not cut to 64 bits.
\<close>

section \<open>Signatures\<close>

definition signed_payload :: "int \<Rightarrow> string \<Rightarrow> string" where
  "signed_payload timestamp body = int_text timestamp @ ''.'' @ body"

definition hmac_hex :: "(bytes \<Rightarrow> bytes \<Rightarrow> bytes) \<Rightarrow> string \<Rightarrow> int \<Rightarrow> string \<Rightarrow> string" where
  "hmac_hex hmac secret timestamp body = hex_encode (hmac (bytes_of_ascii secret) (bytes_of_ascii (signed_payload timestamp body)))"

definition calculateSignature :: "(bytes \<Rightarrow> bytes \<Rightarrow> bytes) \<Rightarrow> string \<Rightarrow> int \<Rightarrow> string \<Rightarrow> string" where
  "calculateSignature hmac secret timestamp body =
     ''t='' @ int_text timestamp @ '',v1='' @ hmac_hex hmac secret timestamp body"

text \<open>\<open>fmt.Sscanf\<close> with the format \<open>t=%d,v1=%s\<close>, on ASCII: blanks before an operand are skipped, what follows the last one is ignored.\<close>

definition strip_literal :: "string \<Rightarrow> string \<Rightarrow> string option" where
  "strip_literal p s = (if has_prefix p s then Some (trim_prefix p s) else None)"

definition blank :: "char \<Rightarrow> bool" where
  "blank c \<longleftrightarrow> (of_char c :: nat) \<in> {9, 11, 12, 13, 32}"

definition newline :: "char \<Rightarrow> bool" where
  "newline c \<longleftrightarrow> (of_char c :: nat) = 10"

definition scan_int :: "string \<Rightarrow> (int \<times> string) option" where
  "scan_int s =
     (let s1 = dropWhile blank s;
          neg = (s1 \<noteq> [] \<and> hd s1 = CHR ''-'');
          s2 = (if s1 \<noteq> [] \<and> (hd s1 = CHR ''-'' \<or> hd s1 = CHR ''+'') then tl s1 else s1);
          ds = takeWhile is_digit s2;
          v = (if neg then - int (dec_val ds) else int (dec_val ds))
      in if ds \<noteq> [] \<and> - (2 ^ 63) \<le> v \<and> v < 2 ^ 63 then Some (v, dropWhile is_digit s2) else None)"

definition scan_word :: "string \<Rightarrow> string option" where
  "scan_word s =
     (let w = takeWhile (\<lambda>c. \<not> blank c \<and> \<not> newline c) (dropWhile blank s) in if w = [] then None else Some w)"

definition scan_signature :: "string \<Rightarrow> (int \<times> string) option" where
  "scan_signature s =
     Option.bind (strip_literal ''t='' s) (\<lambda>s1.
     Option.bind (scan_int s1) (\<lambda>(t, s2).
     Option.bind (strip_literal '',v1='' s2) (\<lambda>s3.
     map_option (Pair t) (scan_word s3))))"

text \<open>The age is computed in 64 bits.\<close>

definition stale_signature :: "int \<Rightarrow> int \<Rightarrow> bool" where
  "stale_signature now timestamp \<longleftrightarrow>
     sint (word_of_int (now - timestamp) :: u64) > 300 \<or> sint (word_of_int (timestamp - now) :: u64) > 300"

definition VerifySignature_hook :: "(bytes \<Rightarrow> bytes \<Rightarrow> bytes) \<Rightarrow> int \<Rightarrow> string \<Rightarrow> string \<Rightarrow> string \<Rightarrow> string + bool" where
  "VerifySignature_hook hmac now secret signature body =
     (case scan_signature signature of
        None \<Rightarrow> Inl ''invalid signature format''
      | Some (timestamp, sig) \<Rightarrow>
          if stale_signature now timestamp then Inl ''signature timestamp expired''
          else Inr (sig = hmac_hex hmac secret timestamp body))"

section \<open>The tables\<close>

record webhook =
  wh_ID :: uuid
  wh_OrgID :: uuid
  wh_URL :: string
  wh_Secret :: string
  wh_Events :: "string list"
  wh_Enabled :: bool
  wh_LastTriggeredAt :: "nat option"
  wh_FailureCount :: nat
  wh_CreatedAt :: nat

record webhook_delivery =
  dl_ID :: uuid
  dl_WebhookID :: uuid
  dl_Event :: string
  dl_Payload :: string
  dl_StatusCode :: nat
  dl_ResponseBody :: string
  dl_Success :: bool
  dl_Error :: string
  dl_AttemptedAt :: nat

record webhook_db =
  wd_hooks :: "webhook list"
  wd_deliveries :: "webhook_delivery list"
  wd_orgs :: "uuid list"

datatype hook_query =
    QHookInsert | QHook | QHooksOfOrg | QHooksOfEvent | QHookUpdate | QHookDelete
  | QDeliveryInsert | QDelivery | QDeliveries | QTriggered | QIncrement | QReset

type_synonym hook_faults = "hook_query \<Rightarrow> bool"

definition hook_insert :: "hook_faults \<Rightarrow> webhook \<Rightarrow> webhook_db \<Rightarrow> webhook_db option" where
  "hook_insert f h db =
     (if f QHookInsert \<or> wh_OrgID h \<notin> set (wd_orgs db) \<or> list_ex (\<lambda>g. wh_ID g = wh_ID h) (wd_hooks db) then None
      else Some (db\<lparr>wd_hooks := wd_hooks db @ [h]\<rparr>))"

definition hook_GetByID :: "hook_faults \<Rightarrow> webhook_db \<Rightarrow> uuid \<Rightarrow> webhook option option" where
  "hook_GetByID f db i = (if f QHook then None else Some (find (\<lambda>h. wh_ID h = i) (wd_hooks db)))"

definition hook_ListByOrg :: "hook_faults \<Rightarrow> webhook_db \<Rightarrow> uuid \<Rightarrow> webhook list option" where
  "hook_ListByOrg f db orgID =
     (if f QHooksOfOrg then None else Some (rev (sort_key wh_CreatedAt (filter (\<lambda>h. wh_OrgID h = orgID) (wd_hooks db)))))"

definition hook_ListByOrgAndEvent :: "hook_faults \<Rightarrow> webhook_db \<Rightarrow> uuid \<Rightarrow> string \<Rightarrow> webhook list option" where
  "hook_ListByOrgAndEvent f db orgID event =
     (if f QHooksOfEvent then None
      else Some (sort_key wh_CreatedAt
        (filter (\<lambda>h. wh_OrgID h = orgID \<and> wh_Enabled h \<and> event \<in> set (wh_Events h)) (wd_hooks db))))"

definition set_hook :: "uuid \<Rightarrow> (webhook \<Rightarrow> webhook) \<Rightarrow> webhook_db \<Rightarrow> webhook_db" where
  "set_hook i g db = db\<lparr>wd_hooks := map (\<lambda>h. if wh_ID h = i then g h else h) (wd_hooks db)\<rparr>"

text \<open>Only the URL, the events and the flag are written.\<close>

definition hook_update :: "hook_faults \<Rightarrow> webhook \<Rightarrow> webhook_db \<Rightarrow> webhook_db option" where
  "hook_update f h db =
     (if f QHookUpdate then None
      else Some (set_hook (wh_ID h) (\<lambda>g. g\<lparr>wh_URL := wh_URL h, wh_Events := wh_Events h, wh_Enabled := wh_Enabled h\<rparr>) db))"

definition hook_remove :: "hook_faults \<Rightarrow> uuid \<Rightarrow> webhook_db \<Rightarrow> webhook_db option" where
  "hook_remove f i db = (if f QHookDelete then None else Some (db\<lparr>wd_hooks := filter (\<lambda>h. wh_ID h \<noteq> i) (wd_hooks db)\<rparr>))"

definition CreateDelivery :: "hook_faults \<Rightarrow> webhook_delivery \<Rightarrow> webhook_db \<Rightarrow> webhook_db option" where
  "CreateDelivery f d db =
     (if f QDeliveryInsert \<or> list_ex (\<lambda>e. dl_ID e = dl_ID d) (wd_deliveries db) then None
      else Some (db\<lparr>wd_deliveries := wd_deliveries db @ [d]\<rparr>))"

definition GetDeliveryByID :: "hook_faults \<Rightarrow> webhook_db \<Rightarrow> uuid \<Rightarrow> webhook_delivery option option" where
  "GetDeliveryByID f db i = (if f QDelivery then None else Some (find (\<lambda>d. dl_ID d = i) (wd_deliveries db)))"

definition ListDeliveriesByWebhook :: "hook_faults \<Rightarrow> webhook_db \<Rightarrow> uuid \<Rightarrow> int \<Rightarrow> webhook_delivery list option" where
  "ListDeliveriesByWebhook f db i limit =
     (if f QDeliveries then None
      else Some (take (nat (if limit \<le> 0 \<or> limit > 100 then 50 else limit))
        (rev (sort_key dl_AttemptedAt (filter (\<lambda>d. dl_WebhookID d = i) (wd_deliveries db))))))"

definition UpdateLastTriggered :: "hook_faults \<Rightarrow> nat \<Rightarrow> uuid \<Rightarrow> webhook_db \<Rightarrow> webhook_db option" where
  "UpdateLastTriggered f now i db = (if f QTriggered then None else Some (set_hook i (\<lambda>h. h\<lparr>wh_LastTriggeredAt := Some now\<rparr>) db))"

definition IncrementFailureCount :: "hook_faults \<Rightarrow> uuid \<Rightarrow> webhook_db \<Rightarrow> webhook_db option" where
  "IncrementFailureCount f i db =
     (if f QIncrement then None else Some (set_hook i (\<lambda>h. h\<lparr>wh_FailureCount := wh_FailureCount h + 1\<rparr>) db))"

definition ResetFailureCount :: "hook_faults \<Rightarrow> uuid \<Rightarrow> webhook_db \<Rightarrow> webhook_db option" where
  "ResetFailureCount f i db = (if f QReset then None else Some (set_hook i (\<lambda>h. h\<lparr>wh_FailureCount := 0\<rparr>) db))"

section \<open>Calls of the service\<close>

record WebhookServiceConfig =
  wc_MaxRetries :: int
  wc_RetryBackoff :: int
  wc_MaxFailures :: int
  wc_UserAgent :: string

definition DefaultWebhookServiceConfig :: WebhookServiceConfig where
  "DefaultWebhookServiceConfig = \<lparr>wc_MaxRetries = 3, wc_RetryBackoff = 5000000000, wc_MaxFailures = 10,
     wc_UserAgent = ''BanhBaoRing-Webhook/1.0''\<rparr>"

datatype hook_error = HookInvalid string string | HookNotFound string | HookFailed string

definition validWebhookEvents :: "string list" where
  "validWebhookEvents = [''key.created'', ''key.deleted'', ''signature.completed'', ''quota.warning'', ''quota.exceeded'',
     ''payment.succeeded'', ''payment.failed'']"

text \<open>The error names the first event that is not known.\<close>

definition invalid_event :: "string list \<Rightarrow> hook_error" where
  "invalid_event events = HookInvalid ''events'' (''Invalid event: '' @ hd (filter (\<lambda>e. e \<notin> set validWebhookEvents) events))"

text \<open>The random bytes, unless they cannot be read.\<close>

definition generateWebhookSecret :: "bytes option \<Rightarrow> string option" where
  "generateWebhookSecret random = map_option (\<lambda>b. ''whsec_'' @ b64url_encode b) random"

text \<open>\<open>uri\<close> says which texts \<open>url.ParseRequestURI\<close> accepts.\<close>

definition HookCreate ::
  "(string \<Rightarrow> bool) \<Rightarrow> hook_faults \<Rightarrow> uuid \<Rightarrow> bytes option \<Rightarrow> nat \<Rightarrow> uuid \<Rightarrow> string \<Rightarrow> string list \<Rightarrow> webhook_db \<Rightarrow>
     webhook_db \<times> (hook_error + webhook)" where
  "HookCreate uri f newID random now orgID url events db =
     (if url = [] then (db, Inl (HookInvalid ''url'' ''URL is required''))
      else if \<not> uri url then (db, Inl (HookInvalid ''url'' ''Invalid URL format''))
      else if events = [] then (db, Inl (HookInvalid ''events'' ''At least one event is required''))
      else if \<not> list_all (\<lambda>e. e \<in> set validWebhookEvents) events then (db, Inl (invalid_event events))
      else case generateWebhookSecret random of
        None \<Rightarrow> (db, Inl (HookFailed ''failed to generate secret''))
      | Some secret \<Rightarrow>
          (let h = \<lparr>wh_ID = newID, wh_OrgID = orgID, wh_URL = url, wh_Secret = secret, wh_Events = events, wh_Enabled = True,
                 wh_LastTriggeredAt = None, wh_FailureCount = 0, wh_CreatedAt = now\<rparr>
           in case hook_insert f h db of
             None \<Rightarrow> (db, Inl (HookFailed ''failed to create webhook''))
           | Some db' \<Rightarrow> (db', Inr h)))"

definition HookGet :: "hook_faults \<Rightarrow> webhook_db \<Rightarrow> uuid \<Rightarrow> uuid \<Rightarrow> hook_error + webhook" where
  "HookGet f db orgID i =
     (case hook_GetByID f db i of
        None \<Rightarrow> Inl (HookFailed ''failed to get webhook'')
      | Some None \<Rightarrow> Inl (HookNotFound ''Webhook'')
      | Some (Some h) \<Rightarrow> if wh_OrgID h \<noteq> orgID then Inl (HookNotFound ''Webhook'') else Inr h)"

definition HookList :: "hook_faults \<Rightarrow> webhook_db \<Rightarrow> uuid \<Rightarrow> hook_error + webhook list" where
  "HookList f db orgID = of_option (HookFailed ''failed to list webhooks'') (hook_ListByOrg f db orgID)"

text \<open>What an update asks for; without events the old ones stay.\<close>

definition apply_update ::
  "(string \<Rightarrow> bool) \<Rightarrow> string option \<Rightarrow> string list \<Rightarrow> bool option \<Rightarrow> webhook \<Rightarrow> hook_error + webhook" where
  "apply_update uri url events enabled h =
     (if url \<noteq> None \<and> \<not> uri (the url) then Inl (HookInvalid ''url'' ''Invalid URL format'')
      else if \<not> list_all (\<lambda>e. e \<in> set validWebhookEvents) events then Inl (invalid_event events)
      else (let h1 = (case url of None \<Rightarrow> h | Some u \<Rightarrow> h\<lparr>wh_URL := u\<rparr>);
                h2 = (if events = [] then h1 else h1\<lparr>wh_Events := events\<rparr>)
            in Inr (case enabled of
                 None \<Rightarrow> h2
               | Some e \<Rightarrow> if e \<and> wh_FailureCount h2 > 0 then h2\<lparr>wh_Enabled := e, wh_FailureCount := 0\<rparr> else h2\<lparr>wh_Enabled := e\<rparr>)))"

definition HookUpdate ::
  "(string \<Rightarrow> bool) \<Rightarrow> hook_faults \<Rightarrow> uuid \<Rightarrow> uuid \<Rightarrow> string option \<Rightarrow> string list \<Rightarrow> bool option \<Rightarrow> webhook_db \<Rightarrow>
     webhook_db \<times> (hook_error + webhook)" where
  "HookUpdate uri f orgID i url events enabled db =
     (case HookGet f db orgID i of
        Inl e \<Rightarrow> (db, Inl e)
      | Inr h \<Rightarrow>
          (case apply_update uri url events enabled h of
             Inl e \<Rightarrow> (db, Inl e)
           | Inr h' \<Rightarrow>
               (case hook_update f h' db of
                  None \<Rightarrow> (db, Inl (HookFailed ''failed to update webhook''))
                | Some db' \<Rightarrow> (db', Inr h'))))"

definition HookDelete :: "hook_faults \<Rightarrow> uuid \<Rightarrow> uuid \<Rightarrow> webhook_db \<Rightarrow> webhook_db \<times> (hook_error + unit)" where
  "HookDelete f orgID i db =
     (case HookGet f db orgID i of
        Inl e \<Rightarrow> (db, Inl e)
      | Inr _ \<Rightarrow>
          (case hook_remove f i db of
             None \<Rightarrow> (db, Inl (HookFailed ''failed to delete webhook''))
           | Some db' \<Rightarrow> (db', Inr ())))"

definition RotateSecret ::
  "hook_faults \<Rightarrow> bytes option \<Rightarrow> uuid \<Rightarrow> uuid \<Rightarrow> webhook_db \<Rightarrow> webhook_db \<times> (hook_error + webhook)" where
  "RotateSecret f random orgID i db =
     (case HookGet f db orgID i of
        Inl e \<Rightarrow> (db, Inl e)
      | Inr h \<Rightarrow>
          (case generateWebhookSecret random of
             None \<Rightarrow> (db, Inl (HookFailed ''failed to generate secret''))
           | Some secret \<Rightarrow>
               (case hook_update f (h\<lparr>wh_Secret := secret\<rparr>) db of
                  None \<Rightarrow> (db, Inl (HookFailed ''failed to update webhook''))
                | Some db' \<Rightarrow> (db', Inr (h\<lparr>wh_Secret := secret\<rparr>)))))"

definition GetDeliveries :: "hook_faults \<Rightarrow> webhook_db \<Rightarrow> uuid \<Rightarrow> uuid \<Rightarrow> int \<Rightarrow> hook_error + webhook_delivery list" where
  "GetDeliveries f db orgID i limit =
     (case HookGet f db orgID i of
        Inl e \<Rightarrow> Inl e
      | Inr _ \<Rightarrow> of_option (HookFailed ''failed to list deliveries'') (ListDeliveriesByWebhook f db i limit))"

definition GetDelivery :: "hook_faults \<Rightarrow> webhook_db \<Rightarrow> uuid \<Rightarrow> uuid \<Rightarrow> hook_error + webhook_delivery" where
  "GetDelivery f db orgID i =
     (case GetDeliveryByID f db i of
        None \<Rightarrow> Inl (HookFailed ''failed to get delivery'')
      | Some None \<Rightarrow> Inl (HookNotFound ''Delivery'')
      | Some (Some d) \<Rightarrow>
          (case hook_GetByID f db (dl_WebhookID d) of
             Some (Some h) \<Rightarrow> if wh_OrgID h \<noteq> orgID then Inl (HookNotFound ''Delivery'') else Inr d
           | _ \<Rightarrow> Inl (HookNotFound ''Delivery'')))"

section \<open>Delivery\<close>

record hook_request =
  hr_URL :: string
  hr_Headers :: "(string \<times> string) list"
  hr_Body :: string

text \<open>
  The world: the seconds of the clock, the answer of the receiver (a status and the body, or the error when the request
  could not be made or failed), waiting, the texts of JSON values and of the time, and those of UUIDs.
\<close>

record 'w hook_world =
  hw_now :: "'w \<Rightarrow> nat"
  hw_send :: "'w \<Rightarrow> hook_request \<Rightarrow> 'w \<times> (string + nat \<times> string)"
  hw_sleep :: "int \<Rightarrow> 'w \<Rightarrow> 'w"
  hw_render :: "jsonv \<Rightarrow> string"
  hw_parse :: "string \<Rightarrow> jsonv option"
  hw_time :: "nat \<Rightarrow> string"
  hw_time_of :: "string \<Rightarrow> nat option"
  hw_uuid :: "uuid \<Rightarrow> string"
  hw_hmac :: "bytes \<Rightarrow> bytes \<Rightarrow> bytes"
  hw_config :: WebhookServiceConfig

definition hook_payload :: "'w hook_world \<Rightarrow> uuid \<Rightarrow> string \<Rightarrow> uuid \<Rightarrow> nat \<Rightarrow> jsonv \<Rightarrow> jsonv" where
  "hook_payload W payloadID event orgID now data = JObject [(''id'', JString (hw_uuid W payloadID)), (''event'', JString event),
     (''org_id'', JString (hw_uuid W orgID)), (''timestamp'', JString (hw_time W now)), (''data'', data)]"

definition sendWebhook :: "'w hook_world \<Rightarrow> webhook \<Rightarrow> string \<Rightarrow> string \<Rightarrow> 'w \<Rightarrow> 'w \<times> (string + nat \<times> string)" where
  "sendWebhook W h event body w =
     (let t = int (hw_now W w) in
      case hw_send W w \<lparr>hr_URL = wh_URL h,
          hr_Headers = [(''Content-Type'', ''application/json''), (''User-Agent'', wc_UserAgent (hw_config W)),
            (''X-Webhook-ID'', hw_uuid W (wh_ID h)), (''X-Webhook-Event'', event),
            (''X-Webhook-Signature'', calculateSignature (hw_hmac W) (wh_Secret h) t body), (''X-Webhook-Timestamp'', int_text t)],
          hr_Body = body\<rparr> of
        (w', Inl e) \<Rightarrow> (w', Inl e)
      | (w', Inr (status, response)) \<Rightarrow> (w', Inr (status, take 1024 response)))"

text \<open>
  The attempts that are left and the number of this one; the answer is the last reply, if there was an attempt, and
  whether it was a success.
\<close>

definition reply_ok :: "string + nat \<times> string \<Rightarrow> bool" where
  "reply_ok r = (case r of Inl _ \<Rightarrow> False | Inr (status, _) \<Rightarrow> 200 \<le> status \<and> status < 300)"

definition reply_final :: "string + nat \<times> string \<Rightarrow> bool" where
  "reply_final r = (case r of Inl _ \<Rightarrow> False | Inr (status, _) \<Rightarrow> 400 \<le> status \<and> status < 500 \<and> status \<noteq> 429)"

fun attempts :: "'w hook_world \<Rightarrow> webhook \<Rightarrow> string \<Rightarrow> string \<Rightarrow> nat \<Rightarrow> nat \<Rightarrow> (string + nat \<times> string) option \<Rightarrow> 'w \<Rightarrow>
    'w \<times> bool \<times> (string + nat \<times> string) option" where
  "attempts W h event body 0 k prev w = (w, False, prev)"
| "attempts W h event body (Suc n) k prev w =
     (let w1 = (if k > 0 then hw_sleep W (wc_RetryBackoff (hw_config W) * 2 ^ (k - 1)) w else w)
      in case sendWebhook W h event body w1 of
        (w2, r) \<Rightarrow>
          if reply_ok r then (w2, True, Some r)
          else if reply_final r then (w2, False, Some r)
          else attempts W h event body n (Suc k) (Some r) w2)"

definition or_unchanged :: "webhook_db option \<Rightarrow> webhook_db \<Rightarrow> webhook_db" where
  "or_unchanged r db = (case r of None \<Rightarrow> db | Some db' \<Rightarrow> db')"

definition recordDeliverySuccess ::
  "hook_faults \<Rightarrow> uuid \<Rightarrow> nat \<Rightarrow> webhook \<Rightarrow> string \<Rightarrow> string \<Rightarrow> nat \<Rightarrow> string \<Rightarrow> webhook_db \<Rightarrow> webhook_db" where
  "recordDeliverySuccess f newID now h event payload status response db =
     (let db1 = or_unchanged (CreateDelivery f \<lparr>dl_ID = newID, dl_WebhookID = wh_ID h, dl_Event = event, dl_Payload = payload,
            dl_StatusCode = status, dl_ResponseBody = response, dl_Success = True, dl_Error = [], dl_AttemptedAt = now\<rparr> db) db;
          db2 = or_unchanged (UpdateLastTriggered f now (wh_ID h) db1) db1
      in or_unchanged (ResetFailureCount f (wh_ID h) db2) db2)"

definition recordDeliveryFailure :: "hook_faults \<Rightarrow> uuid \<Rightarrow> nat \<Rightarrow> webhook \<Rightarrow> string \<Rightarrow> string \<Rightarrow> string \<Rightarrow> webhook_db \<Rightarrow> webhook_db" where
  "recordDeliveryFailure f newID now h event payload err db =
     (let db1 = or_unchanged (CreateDelivery f \<lparr>dl_ID = newID, dl_WebhookID = wh_ID h, dl_Event = event, dl_Payload = payload,
            dl_StatusCode = 0, dl_ResponseBody = [], dl_Success = False, dl_Error = err, dl_AttemptedAt = now\<rparr> db) db
      in or_unchanged (UpdateLastTriggered f now (wh_ID h) db1) db1)"

text \<open>After a failed delivery the row is read again, and disabled when it has failed too often.\<close>

definition disable_failing :: "hook_faults \<Rightarrow> int \<Rightarrow> uuid \<Rightarrow> webhook_db \<Rightarrow> webhook_db" where
  "disable_failing f maxFailures i db =
     (case hook_GetByID f db i of
        Some (Some h) \<Rightarrow>
          if maxFailures \<le> int (wh_FailureCount h) then or_unchanged (hook_update f (h\<lparr>wh_Enabled := False\<rparr>) db) db else db
      | _ \<Rightarrow> db)"

definition delivery_error :: "(string + nat \<times> string) option \<Rightarrow> string" where
  "delivery_error r = (case r of
     None \<Rightarrow> ''delivery failed: status=0, response=, err=<nil>''
   | Some (Inl e) \<Rightarrow> ''delivery failed: status=0, response=, err='' @ e
   | Some (Inr (status, response)) \<Rightarrow> ''delivery failed: status='' @ dec_of_nat status @ '', response='' @ response @ '', err=<nil>'')"

definition deliverToWebhook ::
  "'w hook_world \<Rightarrow> hook_faults \<Rightarrow> uuid \<Rightarrow> uuid \<Rightarrow> webhook \<Rightarrow> string \<Rightarrow> string + jsonv \<Rightarrow> 'w \<times> webhook_db \<Rightarrow> 'w \<times> webhook_db" where
  "deliverToWebhook W f payloadID newID h event data = (\<lambda>(w, db).
     (case data of
        Inl e \<Rightarrow> (w, recordDeliveryFailure f newID (hw_now W w) h event [] e db)
      | Inr d \<Rightarrow>
          (let body = hw_render W (hook_payload W payloadID event (wh_OrgID h) (hw_now W w) d)
           in case attempts W h event body (nat (wc_MaxRetries (hw_config W) + 1)) 0 None w of
             (w', True, Some (Inr (status, response))) \<Rightarrow>
               (w', recordDeliverySuccess f newID (hw_now W w') h event body status response db)
           | (w', _, r) \<Rightarrow>
               (let db1 = recordDeliveryFailure f newID (hw_now W w') h event body (delivery_error r) db;
                    db2 = or_unchanged (IncrementFailureCount f (wh_ID h) db1) db1
                in (w', disable_failing f (wc_MaxFailures (hw_config W)) (wh_ID h) db2)))))"

text \<open>Who gets an event; each delivery then runs on its own, with the row as it was listed.\<close>

definition Deliver :: "hook_faults \<Rightarrow> webhook_db \<Rightarrow> uuid \<Rightarrow> string \<Rightarrow> hook_error + webhook list" where
  "Deliver f db orgID event = of_option (HookFailed ''failed to list webhooks'') (hook_ListByOrgAndEvent f db orgID event)"

definition decode_WebhookPayload :: "'w hook_world \<Rightarrow> jsonv \<Rightarrow> jsonv option" where
  "decode_WebhookPayload W j =
     (if \<not> is_struct j then None
      else Option.bind (json_text (json_get ''id'' j)) (\<lambda>_.
        Option.bind (json_text (json_get ''event'' j)) (\<lambda>_.
          Option.bind (json_text (json_get ''org_id'' j)) (\<lambda>_.
            Option.bind (json_time (hw_time_of W) (json_get ''timestamp'' j)) (\<lambda>_. Some (json_get ''data'' j))))))"

text \<open>The webhook, the event and the data of the delivery that is tried again in the background.\<close>

definition RetryDelivery :: "'w hook_world \<Rightarrow> hook_faults \<Rightarrow> webhook_db \<Rightarrow> uuid \<Rightarrow> uuid \<Rightarrow> uuid \<Rightarrow> hook_error + (webhook \<times> string \<times> jsonv)" where
  "RetryDelivery W f db orgID webhookID deliveryID =
     (case GetDeliveryByID f db deliveryID of
        None \<Rightarrow> Inl (HookFailed ''failed to get delivery'')
      | Some None \<Rightarrow> Inl (HookNotFound ''Delivery'')
      | Some (Some d) \<Rightarrow>
          if dl_WebhookID d \<noteq> webhookID then Inl (HookNotFound ''Delivery'')
          else (case HookGet f db orgID webhookID of
             Inl e \<Rightarrow> Inl e
           | Inr h \<Rightarrow>
               (case Option.bind (hw_parse W (dl_Payload d)) (decode_WebhookPayload W) of
                  None \<Rightarrow> Inl (HookFailed ''failed to parse original payload'')
                | Some data \<Rightarrow> Inr (h, dl_Event d, data))))"

section \<open>Signatures verify\<close>

lemma int_text_scans:
  assumes "- (2 ^ 63) \<le> t" "t < 2 ^ 63" "\<not> is_digit c"
  shows "scan_int (int_text t @ c # rest) = Some (t, c # rest)"
proof -
  have ds: "takeWhile is_digit (dec_of_nat n @ c # rest) = dec_of_nat n" "dropWhile is_digit (dec_of_nat n @ c # rest) = c # rest" for n
    using assms(3) dec_of_nat_digits [of _ n] by (simp_all add: takeWhile_append2 dropWhile_append2)
  have nb: "\<not> blank d \<and> d \<noteq> CHR ''-'' \<and> d \<noteq> CHR ''+''" if "is_digit d" for d
    using that by (auto simp: blank_def is_digit_def)
  show ?thesis
  proof (cases "t < 0")
    case True
    have m: "\<not> blank (CHR ''-'')" by (simp add: blank_def)
    have "dec_of_nat (nat (- t)) \<noteq> []" using dec_of_nat_Cons [of "nat (- t)"] by auto
    then show ?thesis using True assms(1,2) m ds [of "nat (- t)"] by (simp add: scan_int_def int_text_def Let_def)
  next
    case False
    obtain d es where d: "dec_of_nat (nat t) = d # es" "is_digit d" using dec_of_nat_Cons [of "nat t"] by blast
    then have v: "dec_val (d # es) = nat t" using dec_val_of_nat by metis
    from d have "dropWhile blank (dec_of_nat (nat t) @ c # rest) = dec_of_nat (nat t) @ c # rest" "hd (dec_of_nat (nat t) @ c # rest) = d"
      using nb by simp_all
    then show ?thesis using False assms(1,2) nb [OF d(2)] d(1) v ds [of "nat t"] by (simp add: scan_int_def int_text_def Let_def)
  qed
qed

lemma hex_digit_dense:
  assumes "n < 16"
  shows "\<not> blank (hex_digit n) \<and> \<not> newline (hex_digit n)"
proof -
  have "(of_char (hex_digit n) :: nat) = (if n < 10 then 48 + n else 87 + n)" using assms by (simp add: hex_digit_def)
  then show ?thesis by (auto simp: blank_def newline_def)
qed

lemma hex_no_space: "c \<in> set (hex_encode bs) \<Longrightarrow> \<not> blank c \<and> \<not> newline c"
proof -
  assume "c \<in> set (hex_encode bs)"
  then obtain b where "c \<in> set (hex_byte b)" by (auto simp: hex_encode_def)
  then have "c = hex_digit (unat b div 16) \<or> c = hex_digit (unat b mod 16)" by (auto simp: hex_byte_def)
  moreover have "unat b div 16 < 16" using unat_byte_lt [of b] by (simp add: less_mult_imp_div_less)
  ultimately show "\<not> blank c \<and> \<not> newline c" using hex_digit_dense by auto
qed

lemma strip_literal_append [simp]: "strip_literal p (p @ s) = Some s"
  by (simp add: strip_literal_def has_prefix_def trim_prefix_def)

lemma scan_calculated:
  assumes "- (2 ^ 63) \<le> t" "t < 2 ^ 63" "\<And>k m. hmac k m \<noteq> []"
  shows "scan_signature (calculateSignature hmac secret t body) = Some (t, hmac_hex hmac secret t body)"
proof -
  let ?sig = "hmac_hex hmac secret t body"
  have "strip_literal ''t='' (calculateSignature hmac secret t body) = Some (int_text t @ '',v1='' @ ?sig)"
    unfolding calculateSignature_def by (rule strip_literal_append)
  moreover have "scan_int (int_text t @ '',v1='' @ ?sig) = Some (t, '',v1='' @ ?sig)"
    using int_text_scans [OF assms(1,2), of "CHR '',''" "''v1='' @ ?sig"] by (simp add: is_digit_def)
  moreover have "scan_word ?sig = Some ?sig"
  proof -
    have b: "\<not> blank c \<and> \<not> newline c" if "c \<in> set ?sig" for c using hex_no_space that unfolding hmac_hex_def by blast
    have "?sig \<noteq> []" using assms(3) by (simp add: hmac_hex_def hex_encode_def hex_byte_def)
    moreover from this have "dropWhile blank ?sig = ?sig" using b by (cases ?sig) auto
    moreover have "takeWhile (\<lambda>c. \<not> blank c \<and> \<not> newline c) ?sig = ?sig" using b by (simp add: takeWhile_eq_all_conv)
    ultimately show ?thesis unfolding scan_word_def Let_def by metis
  qed
  ultimately show ?thesis
    using strip_literal_append [of "'',v1=''" ?sig] by (simp add: scan_signature_def del: strip_literal_append)
qed

lemma fresh_signature:
  assumes "\<bar>now - t\<bar> \<le> 300"
  shows "\<not> stale_signature now t"
proof -
  have "sint (word_of_int x :: u64) = x" if "\<bar>x\<bar> \<le> 300" for x :: int
    using that by (simp add: sint_sbintrunc' signed_take_bit_int_eq_self)
  from this [of "now - t"] this [of "t - now"] show ?thesis using assms by (auto simp: stale_signature_def abs_minus_commute)
qed

text \<open>
  A receiver that checks, within five minutes, the signature of a delivery against a secret and a body accepts it
  exactly when the HMAC under that secret over the time stamp and that body is the one that was sent; so with the secret and the
  body of the sender it does.
\<close>

lemma webhook_signature_verifies:
  assumes "\<And>k m. hmac k m \<noteq> []" "- (2 ^ 63) \<le> t" "t < 2 ^ 63" "\<bar>now - t\<bar> \<le> 300"
  shows "VerifySignature_hook hmac now secret' (calculateSignature hmac secret t body) body' =
     Inr (hmac (bytes_of_ascii secret) (bytes_of_ascii (signed_payload t body)) =
        hmac (bytes_of_ascii secret') (bytes_of_ascii (signed_payload t body')))"
  using scan_calculated [OF assms(2,3,1)] fresh_signature [OF assms(4)]
  by (simp add: VerifySignature_hook_def hmac_hex_def hex_encode_inject)

theorem webhook_signature_verifies_witness:
  "VerifySignature_hook (\<lambda>k m. 1 # k @ m) 1300 ''s'' (calculateSignature (\<lambda>k m. 1 # k @ m) ''s'' 1000 ''{}'') ''{}'' = Inr True"
  using webhook_signature_verifies [of "\<lambda>k m. 1 # k @ m" 1000 1300 "''s''" "''s''" "''{}''" "''{}''"] by simp

section \<open>Histories\<close>

datatype hook_op =
    OpCreate "string \<Rightarrow> bool" hook_faults uuid "bytes option" nat uuid string "string list"
  | OpUpdate "string \<Rightarrow> bool" hook_faults uuid uuid "string option" "string list" "bool option"
  | OpRotate hook_faults "bytes option" uuid uuid
  | OpDelete hook_faults uuid uuid
  | OpDeliver hook_faults uuid uuid webhook string "string + jsonv"

definition hook_step :: "'w hook_world \<Rightarrow> hook_op \<Rightarrow> 'w \<times> webhook_db \<Rightarrow> 'w \<times> webhook_db" where
  "hook_step W op s =
     (case op of
        OpCreate uri f newID random now orgID url events \<Rightarrow> (fst s, fst (HookCreate uri f newID random now orgID url events (snd s)))
      | OpUpdate uri f orgID i url events enabled \<Rightarrow> (fst s, fst (HookUpdate uri f orgID i url events enabled (snd s)))
      | OpRotate f random orgID i \<Rightarrow> (fst s, fst (RotateSecret f random orgID i (snd s)))
      | OpDelete f orgID i \<Rightarrow> (fst s, fst (HookDelete f orgID i (snd s)))
      | OpDeliver f payloadID newID h event data \<Rightarrow> deliverToWebhook W f payloadID newID h event data s)"

definition hook_run :: "'w hook_world \<Rightarrow> hook_op list \<Rightarrow> 'w \<times> webhook_db \<Rightarrow> 'w \<times> webhook_db" where
  "hook_run W ops s = fold (hook_step W) ops s"

text \<open>Rows that come from rows with the same identifier, organization and secret.\<close>

definition identity_of :: "webhook \<Rightarrow> uuid \<times> uuid \<times> string" where
  "identity_of h = (wh_ID h, wh_OrgID h, wh_Secret h)"

definition identities :: "webhook_db \<Rightarrow> (uuid \<times> uuid \<times> string) list" where
  "identities db = map identity_of (wd_hooks db)"

lemma identities_set_hook:
  "(\<And>h. identity_of (g h) = identity_of h) \<Longrightarrow> identities (set_hook i g db) = identities db"
  by (simp add: identities_def set_hook_def)

lemma statements_keep_identities [simp]:
  "hook_update f h db = Some db' \<Longrightarrow> identities db' = identities db"
  "UpdateLastTriggered f now i db = Some db' \<Longrightarrow> identities db' = identities db"
  "IncrementFailureCount f i db = Some db' \<Longrightarrow> identities db' = identities db"
  "ResetFailureCount f i db = Some db' \<Longrightarrow> identities db' = identities db"
  "CreateDelivery f d db = Some db' \<Longrightarrow> identities db' = identities db"
  unfolding hook_update_def UpdateLastTriggered_def IncrementFailureCount_def ResetFailureCount_def CreateDelivery_def
  by (auto simp: identity_of_def identities_def set_hook_def split: if_splits)

lemma or_unchanged_identities:
  "(\<And>db'. r = Some db' \<Longrightarrow> identities db' = identities db) \<Longrightarrow> identities (or_unchanged r db) = identities db"
  by (simp add: or_unchanged_def split: option.split)

lemma disable_keeps: "identities (disable_failing f m i db) = identities db"
  unfolding disable_failing_def by (simp add: or_unchanged_identities split: option.split)

lemma recordings_keep:
  "identities (recordDeliverySuccess f newID now h event payload status response db) = identities db"
  "identities (recordDeliveryFailure f newID now h event payload err db) = identities db"
  by (simp_all add: recordDeliverySuccess_def recordDeliveryFailure_def Let_def or_unchanged_identities)

lemma delivery_keeps: "identities (snd (deliverToWebhook W f payloadID newID h event data (w, db))) = identities db"
proof (cases data)
  case (Inl e)
  then show ?thesis by (simp add: deliverToWebhook_def recordings_keep)
next
  case (Inr d)
  obtain w' ok r where a: "attempts W h event (hw_render W (hook_payload W payloadID event (wh_OrgID h) (hw_now W w) d))
      (nat (wc_MaxRetries (hw_config W) + 1)) 0 None w = (w', ok, r)" by (metis prod.exhaust)
  show ?thesis
    by (cases ok) (use Inr a in \<open>auto simp: deliverToWebhook_def Let_def recordings_keep disable_keeps or_unchanged_identities
        split: option.split sum.split\<close>)
qed

lemma step_identities:
  assumes "x \<in> set (identities (snd (hook_step W op s)))"
  shows "x \<in> set (identities (snd s)) \<or> (\<exists>uri f newID random now orgID url events secret.
     op = OpCreate uri f newID random now orgID url events \<and> generateWebhookSecret random = Some secret \<and> x = (newID, orgID, secret))"
proof (cases op)
  case (OpCreate uri f newID random now orgID url events)
  then show ?thesis
    using assms by (auto simp: hook_step_def HookCreate_def hook_insert_def identities_def identity_of_def Let_def
        split: if_splits option.splits)
next
  case (OpUpdate uri f orgID i url events enabled)
  then show ?thesis using assms by (auto simp: hook_step_def HookUpdate_def split: sum.splits option.splits)
next
  case (OpRotate f random orgID i)
  then show ?thesis using assms by (auto simp: hook_step_def RotateSecret_def split: sum.splits option.splits)
next
  case (OpDelete f orgID i)
  then show ?thesis
    using assms by (auto simp: hook_step_def HookDelete_def hook_remove_def identities_def split: sum.splits option.splits if_splits)
next
  case (OpDeliver f payloadID newID h event data)
  then show ?thesis using assms delivery_keeps [of W f payloadID newID h event data "fst s" "snd s"] by (simp add: hook_step_def)
qed


text \<open>So after a rotation deliveries are signed with the old secret, and the new one, which the caller got, verifies none of them.\<close>

lemma rotation_is_lost:
  assumes "RotateSecret f (Some random) orgID i db = (db', Inr h)" "find (\<lambda>g. wh_ID g = i) (wd_hooks db) = Some g"
  shows "wh_Secret h = ''whsec_'' @ b64url_encode random" "\<exists>g'. find (\<lambda>g. wh_ID g = i) (wd_hooks db') = Some g' \<and> wh_Secret g' = wh_Secret g"
proof -
  have g: "wh_ID g = i" using assms(2) by (auto simp: find_Some_iff)
  have m: "find (\<lambda>g. wh_ID g = j) (map (\<lambda>g. if wh_ID g = j then k g else g) gs) = map_option k (find (\<lambda>g. wh_ID g = j) gs)"
    if "\<And>g. wh_ID (k g) = wh_ID g" for k gs j
    by (induction gs) (simp_all add: that)
  show "wh_Secret h = ''whsec_'' @ b64url_encode random"
    using assms(1) by (auto simp: RotateSecret_def generateWebhookSecret_def split: sum.splits option.splits)
  show "\<exists>g'. find (\<lambda>g. wh_ID g = i) (wd_hooks db') = Some g' \<and> wh_Secret g' = wh_Secret g"
    using assms g by (auto simp: RotateSecret_def HookGet_def hook_GetByID_def hook_update_def set_hook_def m
        split: sum.splits option.splits if_splits)
qed

section \<open>Failing receivers\<close>

text \<open>A receiver that never answers with success.\<close>

definition never_succeeds :: "'w hook_world \<Rightarrow> bool" where
  "never_succeeds W \<longleftrightarrow> (\<forall>w q. \<not> reply_ok (snd (hw_send W w q)))"

lemma send_fails:
  assumes "never_succeeds W"
  shows "\<not> reply_ok (snd (sendWebhook W h event body w))"
proof -
  have f: "\<not> reply_ok (snd (hw_send W w q))" for q using assms by (simp add: never_succeeds_def)
  obtain q where q: "sendWebhook W h event body w = (case hw_send W w q of
      (w', Inl e) \<Rightarrow> (w', Inl e) | (w', Inr (status, response)) \<Rightarrow> (w', Inr (status, take 1024 response)))"
    unfolding sendWebhook_def Let_def by blast
  obtain w1 a where a: "hw_send W w q = (w1, a)" by fastforce
  show ?thesis using f [of q] by (cases a) (auto simp: q a reply_ok_def)
qed

lemma attempts_fail: "never_succeeds W \<Longrightarrow> \<exists>w' r. attempts W h event body n k prev w = (w', False, r)"
proof (induction n arbitrary: k prev w)
  case (Suc n)
  let ?w = "if k > 0 then hw_sleep W (wc_RetryBackoff (hw_config W) * 2 ^ (k - 1)) w else w"
  obtain w1 r where s: "sendWebhook W h event body ?w = (w1, r)" by fastforce
  have "\<not> reply_ok r" using send_fails [OF Suc.prems, of h event body ?w] s by simp
  then show ?case using s Suc.IH [OF Suc.prems] by (auto simp: Let_def)
qed simp

text \<open>The counter and the flag of a webhook.\<close>

definition standing :: "uuid \<Rightarrow> webhook_db \<Rightarrow> (nat \<times> bool) option" where
  "standing i db = map_option (\<lambda>h. (wh_FailureCount h, wh_Enabled h)) (find (\<lambda>h. wh_ID h = i) (wd_hooks db))"

lemma find_set_hook:
  "(\<And>h. wh_ID (g h) = wh_ID h) \<Longrightarrow>
     find (\<lambda>h. wh_ID h = i) (wd_hooks (set_hook i g db)) = map_option g (find (\<lambda>h. wh_ID h = i) (wd_hooks db))"
proof -
  assume g: "\<And>h. wh_ID (g h) = wh_ID h"
  have "find (\<lambda>h. wh_ID h = i) (map (\<lambda>h. if wh_ID h = i then g h else h) hs) = map_option g (find (\<lambda>h. wh_ID h = i) hs)" for hs
    by (induction hs) (simp_all add: g)
  then show ?thesis by (simp add: set_hook_def)
qed

lemma failure_recorded:
  "find (\<lambda>h. wh_ID h = i) (wd_hooks (recordDeliveryFailure f newID now g event payload err db)) =
     (if f QTriggered then find (\<lambda>h. wh_ID h = i) (wd_hooks db)
      else find (\<lambda>h. wh_ID h = i) (wd_hooks (set_hook (wh_ID g) (\<lambda>h. h\<lparr>wh_LastTriggeredAt := Some now\<rparr>) db)))"
  by (simp add: recordDeliveryFailure_def CreateDelivery_def UpdateLastTriggered_def or_unchanged_def set_hook_def Let_def)

lemma failed_delivery_counts:
  assumes "never_succeeds W" "standing (wh_ID h) db = Some (c, e)" "\<not> f QHook" "\<not> f QHookUpdate" "\<not> f QIncrement"
  shows "standing (wh_ID h) (snd (deliverToWebhook W f payloadID newID h event (Inr data) (w, db))) =
     Some (Suc c, e \<and> int (Suc c) < wc_MaxFailures (hw_config W))"
proof -
  let ?i = "wh_ID h" and ?body = "hw_render W (hook_payload W payloadID event (wh_OrgID h) (hw_now W w) data)"
  obtain w' r where a: "attempts W h event ?body (nat (wc_MaxRetries (hw_config W) + 1)) 0 None w = (w', False, r)"
    using attempts_fail [OF assms(1)] by blast
  let ?db1 = "recordDeliveryFailure f newID (hw_now W w') h event ?body (delivery_error r) db"
  let ?db2 = "set_hook ?i (\<lambda>h. h\<lparr>wh_FailureCount := wh_FailureCount h + 1\<rparr>) ?db1"
  have d: "snd (deliverToWebhook W f payloadID newID h event (Inr data) (w, db)) = disable_failing f (wc_MaxFailures (hw_config W)) ?i ?db2"
    using a assms(5) by (simp add: deliverToWebhook_def Let_def IncrementFailureCount_def or_unchanged_def)
  obtain g where g: "find (\<lambda>h. wh_ID h = ?i) (wd_hooks db) = Some g" "wh_FailureCount g = c" "wh_Enabled g = e"
    using assms(2) by (auto simp: standing_def)
  have i: "wh_ID g = ?i" using g(1) by (auto simp: find_Some_iff)
  obtain g1 where g1: "find (\<lambda>h. wh_ID h = ?i) (wd_hooks ?db1) = Some g1" "wh_FailureCount g1 = c" "wh_Enabled g1 = e" "wh_ID g1 = ?i"
    unfolding failure_recorded using g i by (cases "f QTriggered") (auto simp: find_set_hook)
  then have g2: "find (\<lambda>h. wh_ID h = ?i) (wd_hooks ?db2) = Some (g1\<lparr>wh_FailureCount := c + 1\<rparr>)" by (simp add: find_set_hook)
  show ?thesis
    unfolding d using g2 g1 assms(3,4)
    by (auto simp: disable_failing_def hook_GetByID_def hook_update_def or_unchanged_def standing_def find_set_hook)
qed

text \<open>Deliveries of events, one after the other.\<close>

definition deliveries :: "'w hook_world \<Rightarrow> hook_faults \<Rightarrow> webhook \<Rightarrow> (uuid \<times> uuid \<times> string \<times> jsonv) list \<Rightarrow> 'w \<times> webhook_db \<Rightarrow> 'w \<times> webhook_db" where
  "deliveries W f h = fold (\<lambda>(payloadID, newID, event, data). deliverToWebhook W f payloadID newID h event (Inr data))"

text \<open>
  Property C24. A webhook whose receiver never answers with success gets no event any more once as many deliveries have failed
  as are allowed, as long as the counter and the flag can be written; until then it stays as it was.
\<close>

theorem failing_webhook_disabled:
  assumes "never_succeeds W" "standing (wh_ID h) db = Some (0, True)" "\<not> f QHook" "\<not> f QHookUpdate" "\<not> f QIncrement"
  shows "standing (wh_ID h) (snd (deliveries W f h events (w, db))) =
     Some (length events, events = [] \<or> int (length events) < wc_MaxFailures (hw_config W))"
proof -
  have "standing (wh_ID h) (snd (deliveries W f h events (w, db))) =
      Some (c + length events, e \<and> (events = [] \<or> int (c + length events) < wc_MaxFailures (hw_config W)))"
    if "standing (wh_ID h) db = Some (c, e)" for c e
    using that
  proof (induction events arbitrary: w db c e)
    case Nil
    then show ?case by (simp add: deliveries_def)
  next
    case (Cons x events)
    obtain payloadID newID event data where x: "x = (payloadID, newID, event, data)" by (cases x)
    obtain w' db' where d: "deliverToWebhook W f payloadID newID h event (Inr data) (w, db) = (w', db')" by fastforce
    have s: "standing (wh_ID h) db' = Some (Suc c, e \<and> int (Suc c) < wc_MaxFailures (hw_config W))"
      using failed_delivery_counts [OF assms(1) Cons.prems assms(3-5), of payloadID newID event data w] d by simp
    have "deliveries W f h (x # events) (w, db) = deliveries W f h events (w', db')" using d by (simp add: deliveries_def x)
    then show ?case using Cons.IH [OF s, of w'] by auto
  qed
  from this [OF assms(2)] show ?thesis by simp
qed

text \<open>
  Enabling it again is written, but not the reset of its counter: the caller sees zero, the next failure disables it again.
\<close>

lemma reenabling_keeps_count:
  assumes "HookUpdate uri f orgID i None [] (Some True) db = (db', Inr h)" "standing i db = Some (c, e)"
  shows "standing i db' = Some (c, True)" "wh_FailureCount h = 0"
proof -
  obtain g where g: "find (\<lambda>h. wh_ID h = i) (wd_hooks db) = Some g" "wh_FailureCount g = c" using assms(2) by (auto simp: standing_def)
  have i: "wh_ID g = i" using g(1) by (auto simp: find_Some_iff)
  have u: "apply_update uri None [] (Some True) g = Inr (if wh_FailureCount g > 0 then g\<lparr>wh_Enabled := True, wh_FailureCount := 0\<rparr>
      else g\<lparr>wh_Enabled := True\<rparr>)"
    by (simp add: apply_update_def)
  have "HookGet f db orgID i = Inr g"
    using assms(1) g by (auto simp: HookUpdate_def HookGet_def hook_GetByID_def split: if_splits option.splits sum.splits)
  then have h: "h = (if wh_FailureCount g > 0 then g\<lparr>wh_Enabled := True, wh_FailureCount := 0\<rparr> else g\<lparr>wh_Enabled := True\<rparr>)"
    "hook_update f h db = Some db'"
    using assms(1) u by (auto simp: HookUpdate_def split: option.splits)
  then show "wh_FailureCount h = 0" by (cases "wh_FailureCount g > 0") simp_all
  have "wh_ID h = i" "wh_Enabled h" using h(1) i by (cases "wh_FailureCount g > 0"; simp)+
  then show "standing i db' = Some (c, True)"
    using h(2) g by (auto simp: hook_update_def standing_def find_set_hook split: if_splits)
qed

section \<open>A running instance\<close>

definition toy_hooks :: "unit hook_world" where
  "toy_hooks = \<lparr>hw_now = \<lambda>_. 0, hw_send = \<lambda>w _. (w, Inr (500, [])), hw_sleep = \<lambda>_ w. w, hw_render = \<lambda>_. [], hw_parse = \<lambda>_. None,
     hw_time = \<lambda>_. [], hw_time_of = \<lambda>_. None, hw_uuid = \<lambda>_. [], hw_hmac = \<lambda>k m. 1 # k @ m, hw_config = DefaultWebhookServiceConfig\<rparr>"

definition toy_hook :: webhook where
  "toy_hook = \<lparr>wh_ID = 5, wh_OrgID = 2, wh_URL = ''https://a'', wh_Secret = ''whsec_'' @ b64url_encode [1, 2, 3], wh_Events = [''key.created''],
     wh_Enabled = True, wh_LastTriggeredAt = None, wh_FailureCount = 0, wh_CreatedAt = 7\<rparr>"


theorem failing_webhook_disabled_witness:
  "standing 5 (snd (deliveries toy_hooks (\<lambda>_. False) toy_hook (replicate 10 (1, 2, ''key.created'', JNull))
     ((), \<lparr>wd_hooks = [toy_hook], wd_deliveries = [], wd_orgs = [2]\<rparr>))) = Some (10, False)"
proof -
  have n: "never_succeeds toy_hooks" by (simp add: never_succeeds_def toy_hooks_def reply_ok_def)
  have s: "standing (wh_ID toy_hook) \<lparr>wd_hooks = [toy_hook], wd_deliveries = [], wd_orgs = [2]\<rparr> = Some (0, True)"
    by (simp add: standing_def toy_hook_def)
  have i: "wh_ID toy_hook = 5" "wc_MaxFailures (hw_config toy_hooks) = 10" by (simp_all add: toy_hook_def toy_hooks_def DefaultWebhookServiceConfig_def)
  show ?thesis
    using failing_webhook_disabled [OF n s, of "\<lambda>_. False" "replicate 10 (1, 2, ''key.created'', JNull)" "()"] unfolding i by simp
qed

end
