(* ===== verification/LiteKeys.thy ===== *)
theory LiteKeys
  imports EthRpc
begin

text \<open>
  The local signer \<open>cmd/popsigner-lite\<close>: its key store \<open>internal/keystore\<close>, the signing of hashes
  \<open>internal/signer/ethereum.go\<close> and the handlers of its REST interface \<open>internal/api\<close>. The store is the list
  of its keys by when they were added; the order in which Go walks the map is an argument. The curve, the hashes
  and the text of an address come from go-ethereum and are parameters. A handler runs as one step. Errors of
  other packages are named without their texts.
\<close>

section \<open>What go-ethereum and the UUID package provide\<close>

record ('sk, 'pk) lite_env =
  lv_Sign :: "bytes \<Rightarrow> 'sk \<Rightarrow> bytes option"
  lv_SigToPub :: "bytes \<Rightarrow> bytes \<Rightarrow> 'pk option"
  lv_Public :: "'sk \<Rightarrow> 'pk"
  lv_Compress :: "'pk \<Rightarrow> bytes"
  lv_Address :: "'pk \<Rightarrow> string"                      \<comment> \<open>\<open>PubkeyToAddress\<close> and \<open>Hex\<close>\<close>
  lv_ToECDSA :: "bytes \<Rightarrow> 'sk option"
  lv_FromECDSA :: "'sk \<Rightarrow> bytes"
  lv_HexToECDSA :: "string \<Rightarrow> 'sk option"
  lv_IsHexAddress :: "string \<Rightarrow> bool"
  lv_SHA256 :: "bytes \<Rightarrow> bytes"
  lv_Keccak :: "bytes \<Rightarrow> bytes"
  lv_UUIDParse :: "string \<Rightarrow> bool"
  lv_NamedUUID :: "string \<Rightarrow> string"

section \<open>keystore.go\<close>

record 'sk lite_key =
  lk_ID :: string
  lk_NamespaceID :: string
  lk_Name :: string
  lk_Address :: string
  lk_PrivateKey :: 'sk
  lk_PublicKey :: bytes
  lk_Algorithm :: string
  lk_Exportable :: bool
  lk_Metadata :: "string \<rightharpoonup> string"
  lk_Version :: int
  lk_CreatedAt :: nat

type_synonym 'sk keystore = "'sk lite_key list"
type_synonym 'sk walk = "'sk keystore \<Rightarrow> 'sk keystore"

definition NewKeystore :: "'sk keystore" where
  "NewKeystore = []"

definition not_found :: "string \<Rightarrow> string" where
  "not_found address = ''key with address '' @ address @ '' not found''"

definition ks_AddKey :: "'sk lite_key \<Rightarrow> 'sk keystore \<Rightarrow> string + 'sk keystore" where
  "ks_AddKey key ks =
     (if list_ex (\<lambda>k. lk_Address k = lk_Address key) ks then Inl (''key with address '' @ lk_Address key @ '' already exists'')
      else Inr (ks @ [key]))"

definition ks_GetKey :: "'sk keystore \<Rightarrow> string \<Rightarrow> string + 'sk lite_key" where
  "ks_GetKey ks address = of_option (not_found address) (find (\<lambda>k. lk_Address k = address) ks)"

definition GetKeyByID :: "'sk walk \<Rightarrow> 'sk keystore \<Rightarrow> string \<Rightarrow> string + 'sk lite_key" where
  "GetKeyByID walk ks i = of_option (''key with ID '' @ i @ '' not found'') (find (\<lambda>k. lk_ID k = i) (walk ks))"

definition ks_ListKeys :: "'sk walk \<Rightarrow> 'sk keystore \<Rightarrow> 'sk lite_key list" where
  "ks_ListKeys walk ks = walk ks"

definition ks_DeleteKey :: "string \<Rightarrow> 'sk keystore \<Rightarrow> string + 'sk keystore" where
  "ks_DeleteKey address ks =
     (if \<not> list_ex (\<lambda>k. lk_Address k = address) ks then Inl (not_found address)
      else Inr (filter (\<lambda>k. lk_Address k \<noteq> address) ks))"

text \<open>The error tells a text that is no address from an address without a key.\<close>

datatype lookup_error = BadAddress string | NoSuchKey string

definition normalized :: "string \<Rightarrow> string" where
  "normalized address = map fold_char (if has_prefix ''0x'' address then address else ''0x'' @ address)"

definition GetKeyInsensitive ::
  "('sk, 'pk) lite_env \<Rightarrow> 'sk walk \<Rightarrow> 'sk keystore \<Rightarrow> string \<Rightarrow> lookup_error + 'sk lite_key" where
  "GetKeyInsensitive E walk ks address =
     (let a = normalized address in
      if \<not> lv_IsHexAddress E a then Inl (BadAddress (''invalid Ethereum address: '' @ a))
      else case ks_GetKey ks a of
        Inr key \<Rightarrow> Inr key
      | Inl _ \<Rightarrow> of_option (NoSuchKey (not_found a)) (find (\<lambda>k. same_field (lk_Address k) a) (walk ks)))"

section \<open>anvil.go and the start\<close>

definition AnvilPrivateKeys :: "string list" where
  "AnvilPrivateKeys = [
     ''0xac0974bec39a17e36ba4a6b4d238ff944bacb478cbed5efcae784d7bf4f2ff80'',
     ''0x59c6995e998f97a5a0044966f0945389dc9e86dae88c7a8412f4603b6b78690d'',
     ''0x5de4111afa1a4b94908f83103eb1f1706367c2e68ca870fc3fb9a804cdab365a'',
     ''0x7c852118294e51e653712a81e05800f419141751be58f605c371e15141b007a6'',
     ''0x47e179ec197488593b187f80a00eb0da91f1b9d0b13f8733639f19c30a34926a'',
     ''0x8b3a350cf5c34c9194ca85829a2df0ec3153be0318b5e2d3348e872092edffba'',
     ''0x92db14e403b83dfe3df233f83dfa3a0d7096f21ca9b0d6d6b8d88b2b4ec1564e'',
     ''0x4bbbf85ce3377467afe5d46f804f221813b2bb87f24d81f60f1fcdbf7cbf4356'',
     ''0xdbda1821b80551c9d65939329250298aa3472ba22feea921c0cf5d620ea67b97'',
     ''0x2a871d0798f97d79848a013d4936a73bf4cc922c825d33c1cf7073dff6d409c6'']"

definition DevNamespaceID :: "('sk, 'pk) lite_env \<Rightarrow> string" where
  "DevNamespaceID E = lv_NamedUUID E ''popsigner-lite:dev''"

text \<open>What every key is made of.\<close>

definition key_of ::
  "('sk, 'pk) lite_env \<Rightarrow> string \<Rightarrow> string \<Rightarrow> string \<Rightarrow> bool \<Rightarrow> (string \<rightharpoonup> string) \<Rightarrow> nat \<Rightarrow> 'sk \<Rightarrow> 'sk lite_key" where
  "key_of E i nsID name exportable metadata now sk =
     \<lparr>lk_ID = i, lk_NamespaceID = nsID, lk_Name = name, lk_Address = lv_Address E (lv_Public E sk), lk_PrivateKey = sk,
      lk_PublicKey = lv_Compress E (lv_Public E sk), lk_Algorithm = ''secp256k1'', lk_Exportable = exportable,
      lk_Metadata = metadata, lk_Version = 1, lk_CreatedAt = now\<rparr>"

definition anvil_key :: "('sk, 'pk) lite_env \<Rightarrow> nat \<Rightarrow> nat \<times> string \<Rightarrow> 'sk lite_key option" where
  "anvil_key E now p = (case p of (i, hexKey) \<Rightarrow>
     (let name = ''anvil-'' @ dec_of_nat i in
      map_option (key_of E (lv_NamedUUID E (''popsigner-lite:'' @ name)) (DevNamespaceID E) name True Map.empty now)
        (lv_HexToECDSA E (drop 2 hexKey))))"

definition LoadAnvilKeys :: "('sk, 'pk) lite_env \<Rightarrow> nat \<Rightarrow> 'sk lite_key list option" where
  "LoadAnvilKeys E now = map_res (anvil_key E now) (zip [0..<length AnvilPrivateKeys] AnvilPrivateKeys)"

fun add_all :: "'sk lite_key list \<Rightarrow> 'sk keystore \<Rightarrow> string + 'sk keystore" where
  "add_all [] ks = Inr ks"
| "add_all (key # keys) ks = (case ks_AddKey key ks of Inl e \<Rightarrow> Inl (''add key '' @ lk_ID key) | Inr ks' \<Rightarrow> add_all keys ks')"

definition initializeKeystore :: "('sk, 'pk) lite_env \<Rightarrow> nat \<Rightarrow> string + 'sk keystore" where
  "initializeKeystore E now =
     (case LoadAnvilKeys E now of None \<Rightarrow> Inl ''load Anvil keys'' | Some keys \<Rightarrow> add_all keys NewKeystore)"

section \<open>signer/ethereum.go\<close>

definition SignHashRaw :: "('sk, 'pk) lite_env \<Rightarrow> bytes \<Rightarrow> 'sk \<Rightarrow> string + bytes" where
  "SignHashRaw E hash sk =
     (if length hash \<noteq> 32 then Inl (''hash must be 32 bytes, got '' @ dec_of_nat (length hash))
      else of_option ''failed to sign hash'' (lv_Sign E hash sk))"

text \<open>The recovery id at the end is shifted by 27; a signature without it would panic and is taken as it is.\<close>

definition SignHash :: "('sk, 'pk) lite_env \<Rightarrow> bytes \<Rightarrow> 'sk \<Rightarrow> string + bytes" where
  "SignHash E hash sk =
     (if length hash \<noteq> 32 then Inl (''hash must be 32 bytes, got '' @ dec_of_nat (length hash))
      else case lv_Sign E hash sk of
        None \<Rightarrow> Inl ''failed to sign hash''
      | Some sig \<Rightarrow> Inr (sig[64 := sig ! 64 + 27]))"

definition RecoverPublicKey :: "('sk, 'pk) lite_env \<Rightarrow> bytes \<Rightarrow> bytes \<Rightarrow> string + 'pk" where
  "RecoverPublicKey E hash sig =
     (if length hash \<noteq> 32 then Inl (''hash must be 32 bytes, got '' @ dec_of_nat (length hash))
      else if length sig \<noteq> 65 then Inl (''signature must be 65 bytes, got '' @ dec_of_nat (length sig))
      else of_option ''failed to recover public key''
        (lv_SigToPub E hash (if sig ! 64 \<ge> 27 then sig[64 := sig ! 64 - 27] else sig)))"

definition LiteVerifySignature :: "('sk, 'pk) lite_env \<Rightarrow> bytes \<Rightarrow> bytes \<Rightarrow> string \<Rightarrow> string + bool" where
  "LiteVerifySignature E hash sig expectedAddress =
     (case RecoverPublicKey E hash sig of
        Inl e \<Rightarrow> Inl e
      | Inr pk \<Rightarrow> Inr (lv_Address E pk = expectedAddress))"

section \<open>The REST interface: keys\<close>

text \<open>An answer is an error with its status, code and message, or data with the status.\<close>

type_synonym 'a rest = "(nat \<times> string \<times> string) + nat \<times> 'a"

definition bad_request :: "string \<Rightarrow> nat \<times> string \<times> string" where
  "bad_request msg = (400, ''invalid_request'', msg)"

definition no_key :: "string \<Rightarrow> nat \<times> string \<times> string" where
  "no_key keyID = (404, ''not_found'', ''key with ID '' @ keyID @ '' not found'')"

record KeyResponse =
  kr_ID :: string
  kr_NamespaceID :: string
  kr_Name :: string
  kr_PublicKey :: string
  kr_Address :: string
  kr_Algorithm :: string
  kr_Exportable :: bool
  kr_Metadata :: "string \<rightharpoonup> string"
  kr_Version :: int
  kr_CreatedAt :: nat

definition keyToResponse :: "'sk lite_key \<Rightarrow> KeyResponse" where
  "keyToResponse key = \<lparr>kr_ID = lk_ID key, kr_NamespaceID = lk_NamespaceID key, kr_Name = lk_Name key,
     kr_PublicKey = hex_encode (lk_PublicKey key), kr_Address = lk_Address key, kr_Algorithm = lk_Algorithm key,
     kr_Exportable = lk_Exportable key, kr_Metadata = lk_Metadata key, kr_Version = lk_Version key, kr_CreatedAt = lk_CreatedAt key\<rparr>"

text \<open>By the identifier, or else by the address.\<close>

definition find_key :: "('sk, 'pk) lite_env \<Rightarrow> 'sk walk \<Rightarrow> 'sk keystore \<Rightarrow> string \<Rightarrow> lookup_error + 'sk lite_key" where
  "find_key E walk ks keyID =
     (case GetKeyByID walk ks keyID of Inr key \<Rightarrow> Inr key | Inl _ \<Rightarrow> GetKeyInsensitive E walk ks keyID)"

definition RestListKeys :: "'sk walk \<Rightarrow> 'sk keystore \<Rightarrow> KeyResponse list rest" where
  "RestListKeys walk ks = Inr (200, map keyToResponse (ks_ListKeys walk ks))"

definition RestGetKey :: "('sk, 'pk) lite_env \<Rightarrow> 'sk walk \<Rightarrow> 'sk keystore \<Rightarrow> string \<Rightarrow> KeyResponse rest" where
  "RestGetKey E walk ks keyID =
     (if keyID = [] then Inl (bad_request ''key ID is required'')
      else case find_key E walk ks keyID of
        Inl _ \<Rightarrow> Inl (no_key keyID)
      | Inr key \<Rightarrow> Inr (200, keyToResponse key))"

record LiteCreateKeyRequest =
  cr_Name :: string
  cr_NamespaceID :: string
  cr_Algorithm :: string
  cr_Exportable :: bool
  cr_Metadata :: "string \<rightharpoonup> string"

definition decode_CreateKeyRequest :: "jsonv \<Rightarrow> LiteCreateKeyRequest option" where
  "decode_CreateKeyRequest j =
     (if \<not> is_struct j then None
      else Option.bind (json_text (json_get ''name'' j)) (\<lambda>name.
        Option.bind (json_text (json_get ''namespace_id'' j)) (\<lambda>ns.
        Option.bind (json_text (json_get ''algorithm'' j)) (\<lambda>algo.
        Option.bind (json_flag (json_get ''exportable'' j)) (\<lambda>ex.
        Option.bind (json_string_map (json_get ''metadata'' j)) (\<lambda>meta.
          Some \<lparr>cr_Name = name, cr_NamespaceID = ns, cr_Algorithm = algo, cr_Exportable = ex, cr_Metadata = meta\<rparr>))))))"

definition default_namespace :: "('sk, 'pk) lite_env \<Rightarrow> string \<Rightarrow> string option" where
  "default_namespace E ns = (if ns = [] then Some (DevNamespaceID E) else if lv_UUIDParse E ns then Some ns else None)"

text \<open>The generated key, unless the generator fails, and the identifier it gets.\<close>

definition RestCreateKey ::
  "('sk, 'pk) lite_env \<Rightarrow> 'sk option \<Rightarrow> string \<Rightarrow> nat \<Rightarrow> jsonv option \<Rightarrow> 'sk keystore \<Rightarrow> 'sk keystore \<times> KeyResponse rest" where
  "RestCreateKey E generated newID now body ks =
     (case Option.bind body decode_CreateKeyRequest of
        None \<Rightarrow> (ks, Inl (bad_request ''failed to parse request''))
      | Some req \<Rightarrow>
          if cr_Name req = [] then (ks, Inl (bad_request ''name is required''))
          else (case default_namespace E (cr_NamespaceID req) of
             None \<Rightarrow> (ks, Inl (bad_request ''namespace_id must be a valid UUID''))
           | Some nsID \<Rightarrow>
               if cr_Algorithm req \<noteq> [] \<and> cr_Algorithm req \<noteq> ''secp256k1''
               then (ks, Inl (bad_request ''only secp256k1 algorithm is supported''))
               else (case generated of
                  None \<Rightarrow> (ks, Inl (500, ''internal_error'', ''failed to generate key''))
                | Some sk \<Rightarrow>
                    (let key = key_of E newID nsID (cr_Name req) (cr_Exportable req) (cr_Metadata req) now sk in
                     case ks_AddKey key ks of
                       Inl e \<Rightarrow> (ks, Inl (409, ''conflict'', ''failed to add key: '' @ e))
                     | Inr ks' \<Rightarrow> (ks', Inr (201, keyToResponse key))))))"

record BatchCreateKeyRequest =
  bc_Prefix :: string
  bc_Count :: int
  bc_NamespaceID :: string
  bc_Exportable :: bool

definition decode_BatchCreateKeyRequest :: "jsonv \<Rightarrow> BatchCreateKeyRequest option" where
  "decode_BatchCreateKeyRequest j =
     (if \<not> is_struct j then None
      else Option.bind (json_text (json_get ''prefix'' j)) (\<lambda>prefix.
        Option.bind (json_int64 (json_get ''count'' j)) (\<lambda>count.
        Option.bind (json_text (json_get ''namespace_id'' j)) (\<lambda>ns.
        Option.bind (json_flag (json_get ''exportable'' j)) (\<lambda>ex.
          Some \<lparr>bc_Prefix = prefix, bc_Count = count, bc_NamespaceID = ns, bc_Exportable = ex\<rparr>)))))"

definition batch_key ::
  "('sk, 'pk) lite_env \<Rightarrow> (nat \<Rightarrow> 'sk option) \<Rightarrow> (nat \<Rightarrow> string) \<Rightarrow> nat \<Rightarrow> string \<Rightarrow> BatchCreateKeyRequest \<Rightarrow> nat \<Rightarrow> 'sk lite_key option" where
  "batch_key E generated newID now nsID req i =
     map_option (key_of E (newID i) nsID (bc_Prefix req @ ''-'' @ dec_of_nat (i + 1)) (bc_Exportable req) Map.empty now) (generated i)"

text \<open>Adding the keys of a batch one by one; when one cannot be added those before it are deleted again.\<close>

definition delete_quiet :: "string \<Rightarrow> 'sk keystore \<Rightarrow> 'sk keystore" where
  "delete_quiet address ks = (case ks_DeleteKey address ks of Inl _ \<Rightarrow> ks | Inr ks' \<Rightarrow> ks')"

fun add_batch :: "string list \<Rightarrow> 'sk lite_key list \<Rightarrow> 'sk keystore \<Rightarrow> 'sk keystore \<times> (string + unit)" where
  "add_batch added [] ks = (ks, Inr ())"
| "add_batch added (key # keys) ks =
     (case ks_AddKey key ks of
        Inl e \<Rightarrow> (fold delete_quiet added ks, Inl (''failed to add key '' @ lk_Name key @ '': '' @ e))
      | Inr ks' \<Rightarrow> add_batch (added @ [lk_Address key]) keys ks')"

definition taken :: "('sk, 'pk) lite_env \<Rightarrow> 'sk walk \<Rightarrow> 'sk keystore \<Rightarrow> 'sk lite_key \<Rightarrow> bool" where
  "taken E walk ks key = (case GetKeyInsensitive E walk ks (lk_Address key) of Inl _ \<Rightarrow> False | Inr _ \<Rightarrow> True)"

definition RestCreateBatchKeys ::
  "('sk, 'pk) lite_env \<Rightarrow> 'sk walk \<Rightarrow> (nat \<Rightarrow> 'sk option) \<Rightarrow> (nat \<Rightarrow> string) \<Rightarrow> nat \<Rightarrow> jsonv option \<Rightarrow> 'sk keystore \<Rightarrow>
     'sk keystore \<times> (KeyResponse list \<times> nat) rest" where
  "RestCreateBatchKeys E walk generated newID now body ks =
     (case Option.bind body decode_BatchCreateKeyRequest of
        None \<Rightarrow> (ks, Inl (bad_request ''failed to parse request''))
      | Some req \<Rightarrow>
          if bc_Prefix req = [] then (ks, Inl (bad_request ''prefix is required''))
          else if bc_Count req < 1 \<or> bc_Count req > 100 then (ks, Inl (bad_request ''count must be between 1 and 100''))
          else (case default_namespace E (bc_NamespaceID req) of
             None \<Rightarrow> (ks, Inl (bad_request ''namespace_id must be a valid UUID''))
           | Some nsID \<Rightarrow>
               (case map_res (batch_key E generated newID now nsID req) [0..<nat (bc_Count req)] of
                  None \<Rightarrow> (ks, Inl (500, ''internal_error'', ''failed to generate key''))
                | Some batch \<Rightarrow>
                    (case find (taken E walk ks) batch of
                       Some key \<Rightarrow> (ks, Inl (409, ''conflict'', ''failed to add key '' @ lk_Name key @ '': key with address '' @
                         lk_Address key @ '' already exists''))
                     | None \<Rightarrow>
                         (case add_batch [] batch ks of
                            (ks', Inl e) \<Rightarrow> (ks', Inl (409, ''conflict'', e))
                          | (ks', Inr _) \<Rightarrow> (ks', Inr (201, map keyToResponse batch, length batch)))))))"

record LiteImportKeyRequest =
  ir_Name :: string
  ir_NamespaceID :: string
  ir_PrivateKey :: string
  ir_Exportable :: bool

definition decode_ImportKeyRequest :: "jsonv \<Rightarrow> LiteImportKeyRequest option" where
  "decode_ImportKeyRequest j =
     (if \<not> is_struct j then None
      else Option.bind (json_text (json_get ''name'' j)) (\<lambda>name.
        Option.bind (json_text (json_get ''namespace_id'' j)) (\<lambda>ns.
        Option.bind (json_text (json_get ''private_key'' j)) (\<lambda>priv.
        Option.bind (json_flag (json_get ''exportable'' j)) (\<lambda>ex.
          Some \<lparr>ir_Name = name, ir_NamespaceID = ns, ir_PrivateKey = priv, ir_Exportable = ex\<rparr>)))))"

definition RestImportKey ::
  "('sk, 'pk) lite_env \<Rightarrow> string \<Rightarrow> nat \<Rightarrow> jsonv option \<Rightarrow> 'sk keystore \<Rightarrow> 'sk keystore \<times> KeyResponse rest" where
  "RestImportKey E newID now body ks =
     (case Option.bind body decode_ImportKeyRequest of
        None \<Rightarrow> (ks, Inl (bad_request ''failed to parse request''))
      | Some req \<Rightarrow>
          if ir_Name req = [] then (ks, Inl (bad_request ''name is required''))
          else (case b64_decode (ir_PrivateKey req) of
             None \<Rightarrow> (ks, Inl (bad_request ''invalid private key encoding''))
           | Some privKeyBytes \<Rightarrow>
               (case lv_ToECDSA E privKeyBytes of
                  None \<Rightarrow> (ks, Inl (bad_request ''invalid private key''))
                | Some sk \<Rightarrow>
                    (case default_namespace E (ir_NamespaceID req) of
                       None \<Rightarrow> (ks, Inl (bad_request ''namespace_id must be a valid UUID''))
                     | Some nsID \<Rightarrow>
                         (let key = key_of E newID nsID (ir_Name req) (ir_Exportable req) Map.empty now sk in
                          case ks_AddKey key ks of
                            Inl e \<Rightarrow> (ks, Inl (409, ''conflict'', ''failed to add key: '' @ e))
                          | Inr ks' \<Rightarrow> (ks', Inr (201, keyToResponse key)))))))"

definition RestExportKey :: "('sk, 'pk) lite_env \<Rightarrow> 'sk walk \<Rightarrow> 'sk keystore \<Rightarrow> string \<Rightarrow> string rest" where
  "RestExportKey E walk ks keyID =
     (if keyID = [] then Inl (bad_request ''key ID is required'')
      else case find_key E walk ks keyID of
        Inl _ \<Rightarrow> Inl (no_key keyID)
      | Inr key \<Rightarrow>
          if \<not> lk_Exportable key then Inl (403, ''forbidden'', ''key is not exportable'')
          else Inr (200, b64_encode (lv_FromECDSA E (lk_PrivateKey key))))"

definition RestDeleteKey :: "('sk, 'pk) lite_env \<Rightarrow> 'sk walk \<Rightarrow> string \<Rightarrow> 'sk keystore \<Rightarrow> 'sk keystore \<times> unit rest" where
  "RestDeleteKey E walk keyID ks =
     (if keyID = [] then (ks, Inl (bad_request ''key ID is required''))
      else case find_key E walk ks keyID of
        Inl _ \<Rightarrow> (ks, Inl (no_key keyID))
      | Inr key \<Rightarrow>
          (case ks_DeleteKey (lk_Address key) ks of
             Inl e \<Rightarrow> (ks, Inl (500, ''internal_error'', ''failed to delete key: '' @ e))
           | Inr ks' \<Rightarrow> (ks', Inr (200, ()))))"

section \<open>The REST interface: signatures\<close>

record SignRequest =
  sq_Data :: string
  sq_Prehashed :: bool

definition decode_SignRequest :: "jsonv \<Rightarrow> SignRequest option" where
  "decode_SignRequest j =
     (if \<not> is_struct j then None
      else Option.bind (json_text (json_get ''data'' j)) (\<lambda>d.
        Option.bind (json_flag (json_get ''prehashed'' j)) (\<lambda>p. Some \<lparr>sq_Data = d, sq_Prehashed = p\<rparr>)))"

record LiteSignature =
  ls_Signature :: string
  ls_PublicKey :: string
  ls_KeyVersion :: int

text \<open>From the data as it came to the answer, with the error as a status, a code and a message.\<close>

definition hash_of :: "('sk, 'pk) lite_env \<Rightarrow> bool \<Rightarrow> bytes \<Rightarrow> string + bytes" where
  "hash_of E prehashed data =
     (if \<not> prehashed then Inr (lv_SHA256 E data)
      else if length data \<noteq> 32 then Inl (''prehashed data must be 32 bytes, got '' @ dec_of_nat (length data))
      else Inr data)"

definition lite_signature_of :: "'sk lite_key \<Rightarrow> bytes \<Rightarrow> LiteSignature" where
  "lite_signature_of key sig = \<lparr>ls_Signature = b64_encode sig, ls_PublicKey = hex_encode (lk_PublicKey key), ls_KeyVersion = lk_Version key\<rparr>"

definition RestSign :: "('sk, 'pk) lite_env \<Rightarrow> 'sk walk \<Rightarrow> 'sk keystore \<Rightarrow> string \<Rightarrow> jsonv option \<Rightarrow> LiteSignature rest" where
  "RestSign E walk ks keyID body =
     (if keyID = [] then Inl (bad_request ''key ID is required'')
      else case Option.bind body decode_SignRequest of
        None \<Rightarrow> Inl (bad_request ''failed to parse request'')
      | Some req \<Rightarrow>
          if sq_Data req = [] then Inl (bad_request ''data is required'')
          else (case find_key E walk ks keyID of
             Inl _ \<Rightarrow> Inl (no_key keyID)
           | Inr key \<Rightarrow>
               (case b64_decode (sq_Data req) of
                  None \<Rightarrow> Inl (bad_request ''invalid data base64'')
                | Some data \<Rightarrow>
                    (case hash_of E (sq_Prehashed req) data of
                       Inl e \<Rightarrow> Inl (bad_request e)
                     | Inr hash \<Rightarrow>
                         (case SignHash E hash (lk_PrivateKey key) of
                            Inl e \<Rightarrow> Inl (500, ''signing_failed'', ''failed to sign data: '' @ e)
                          | Inr sig \<Rightarrow> Inr (200, lite_signature_of key sig))))))"

record BatchSignItem =
  bi_KeyID :: string
  bi_Data :: string
  bi_Prehashed :: bool

definition decode_BatchSignItem :: "jsonv \<Rightarrow> BatchSignItem option" where
  "decode_BatchSignItem j =
     (if \<not> is_struct j then None
      else Option.bind (json_text (json_get ''key_id'' j)) (\<lambda>i.
        Option.bind (json_text (json_get ''data'' j)) (\<lambda>d.
        Option.bind (json_flag (json_get ''prehashed'' j)) (\<lambda>p. Some \<lparr>bi_KeyID = i, bi_Data = d, bi_Prehashed = p\<rparr>))))"

definition decode_BatchSignRequest :: "jsonv \<Rightarrow> BatchSignItem list option" where
  "decode_BatchSignRequest j = (if \<not> is_struct j then None else json_slice decode_BatchSignItem (json_get ''requests'' j))"

definition lookup_text :: "lookup_error \<Rightarrow> string" where
  "lookup_text e = (case e of BadAddress m \<Rightarrow> m | NoSuchKey m \<Rightarrow> m)"

definition signSingleItem ::
  "('sk, 'pk) lite_env \<Rightarrow> 'sk walk \<Rightarrow> 'sk keystore \<Rightarrow> BatchSignItem \<Rightarrow> string \<times> (string + LiteSignature)" where
  "signSingleItem E walk ks item = (bi_KeyID item,
     (case find_key E walk ks (bi_KeyID item) of
        Inl e \<Rightarrow> Inl (''key not found: '' @ lookup_text e)
      | Inr key \<Rightarrow>
          (case b64_decode (bi_Data item) of
             None \<Rightarrow> Inl ''invalid data base64''
           | Some data \<Rightarrow>
               (case hash_of E (bi_Prehashed item) data of
                  Inl e \<Rightarrow> Inl e
                | Inr hash \<Rightarrow>
                    (case SignHash E hash (lk_PrivateKey key) of
                       Inl e \<Rightarrow> Inl (''signing failed: '' @ e)
                     | Inr sig \<Rightarrow> Inr (lite_signature_of key sig))))))"

definition RestBatchSign ::
  "('sk, 'pk) lite_env \<Rightarrow> 'sk walk \<Rightarrow> 'sk keystore \<Rightarrow> jsonv option \<Rightarrow> ((string \<times> (string + LiteSignature)) list \<times> nat) rest" where
  "RestBatchSign E walk ks body =
     (case Option.bind body decode_BatchSignRequest of
        None \<Rightarrow> Inl (bad_request ''failed to parse request'')
      | Some items \<Rightarrow>
          if items = [] then Inl (bad_request ''at least one request is required'')
          else (let results = map (signSingleItem E walk ks) items in Inr (200, results, length results)))"

section \<open>The store is well made\<close>

definition well_made :: "('sk, 'pk) lite_env \<Rightarrow> 'sk lite_key \<Rightarrow> bool" where
  "well_made E k \<longleftrightarrow> lk_Address k = lv_Address E (lv_Public E (lk_PrivateKey k)) \<and>
     lk_PublicKey k = lv_Compress E (lv_Public E (lk_PrivateKey k)) \<and> lk_Algorithm k = ''secp256k1''"

fun unique_addresses :: "'sk keystore \<Rightarrow> bool" where
  "unique_addresses [] = True"
| "unique_addresses (k # ks) = ((\<forall>y\<in>set ks. lk_Address y \<noteq> lk_Address k) \<and> unique_addresses ks)"

lemma unique_addresses_append [simp]:
  "unique_addresses (xs @ ys) \<longleftrightarrow>
     unique_addresses xs \<and> unique_addresses ys \<and> (\<forall>x\<in>set xs. \<forall>y\<in>set ys. lk_Address x \<noteq> lk_Address y)"
  by (induction xs) fastforce+

lemma unique_addresses_filter: "unique_addresses ks \<Longrightarrow> unique_addresses (filter P ks)"
  by (induction ks) auto

definition store_ok :: "('sk, 'pk) lite_env \<Rightarrow> 'sk keystore \<Rightarrow> bool" where
  "store_ok E ks \<longleftrightarrow> unique_addresses ks \<and> (\<forall>k\<in>set ks. well_made E k)"

lemma key_of_well_made [simp]: "well_made E (key_of E i ns name ex meta now sk)"
  by (simp add: well_made_def key_of_def)

lemma ks_AddKey_Inr: "ks_AddKey key ks = Inr ks' \<longleftrightarrow> (\<forall>k\<in>set ks. lk_Address k \<noteq> lk_Address key) \<and> ks' = ks @ [key]"
  by (auto simp: ks_AddKey_def list_ex_iff)

lemma ks_AddKey_unique: "ks_AddKey key ks = Inr ks' \<Longrightarrow> unique_addresses ks \<Longrightarrow> unique_addresses ks'"
  by (auto simp: ks_AddKey_Inr)

lemma store_ok_add: "ks_AddKey key ks = Inr ks' \<Longrightarrow> store_ok E ks \<Longrightarrow> well_made E key \<Longrightarrow> store_ok E ks'"
  by (auto simp: store_ok_def ks_AddKey_unique) (auto simp: ks_AddKey_Inr)

lemma store_ok_delete: "ks_DeleteKey a ks = Inr ks' \<Longrightarrow> store_ok E ks \<Longrightarrow> store_ok E ks'"
  by (auto simp: ks_DeleteKey_def store_ok_def unique_addresses_filter split: if_splits)

lemma rollback:
  "unique_addresses (ks @ new) \<Longrightarrow> fold delete_quiet (map lk_Address new) (ks @ new) = ks"
proof (induction new)
  case (Cons n new)
  have "filter (\<lambda>k. lk_Address k \<noteq> lk_Address n) ks = ks" "filter (\<lambda>k. lk_Address k \<noteq> lk_Address n) new = new"
    using Cons.prems by (simp_all add: filter_id_conv)
  then have "delete_quiet (lk_Address n) (ks @ n # new) = ks @ new" by (simp add: delete_quiet_def ks_DeleteKey_def)
  moreover have "unique_addresses (ks @ new)" using Cons.prems by simp
  ultimately show ?case using Cons.IH by simp
qed simp

lemma add_batch_atomic:
  "unique_addresses (ks @ new) \<Longrightarrow> add_batch (map lk_Address new) keys (ks @ new) = (ks', r) \<Longrightarrow>
     (case r of Inl _ \<Rightarrow> ks' = ks | Inr _ \<Rightarrow> ks' = ks @ new @ keys \<and> unique_addresses ks')"
proof (induction keys arbitrary: new)
  case (Cons key keys)
  show ?case
  proof (cases "ks_AddKey key (ks @ new)")
    case (Inl e)
    then show ?thesis using Cons.prems rollback [OF Cons.prems(1)] by auto
  next
    case (Inr ks1)
    then have k: "ks1 = ks @ new @ [key]" by (simp add: ks_AddKey_Inr)
    then have "unique_addresses (ks @ new @ [key])" using ks_AddKey_unique [OF Inr Cons.prems(1)] by simp
    moreover have "add_batch (map lk_Address (new @ [key])) keys (ks @ new @ [key]) = (ks', r)" using Cons.prems(2) Inr k by simp
    ultimately show ?thesis using Cons.IH [of "new @ [key]"] by (auto split: sum.splits)
  qed
qed auto

lemma batch_made: "map_res (batch_key E generated newID now nsID req) is = Some batch \<Longrightarrow>
    (\<forall>k\<in>set batch. well_made E k) \<and> map lk_Name batch = map (\<lambda>i. bc_Prefix req @ ''-'' @ dec_of_nat (i + 1)) is"
  by (induction "is" arbitrary: batch) (auto simp: batch_key_def key_of_def well_made_def split: option.splits)

text \<open>
  Property C39. A batch of keys is created as a whole or not at all: an error leaves the store as it was, and otherwise exactly
  the keys of the batch, with the prefix and their numbers as names, have been added under addresses of their own.
\<close>

theorem lite_batch_atomic:
  assumes "unique_addresses ks" "RestCreateBatchKeys E walk generated newID now body ks = (ks', r)"
  shows "case r of
      Inl _ \<Rightarrow> ks' = ks
    | Inr (status, keys, n) \<Rightarrow> \<exists>req batch. Option.bind body decode_BatchCreateKeyRequest = Some req \<and> ks' = ks @ batch \<and>
        unique_addresses ks' \<and> map lk_Name batch = map (\<lambda>i. bc_Prefix req @ ''-'' @ dec_of_nat (i + 1)) [0..<nat (bc_Count req)] \<and>
        keys = map keyToResponse batch \<and> n = nat (bc_Count req)"
proof -
  have a: "case r of Inl _ \<Rightarrow> ks1 = ks | Inr _ \<Rightarrow> ks1 = ks @ batch \<and> unique_addresses ks1"
    if "add_batch [] batch ks = (ks1, r)" for batch ks1 r
    using add_batch_atomic [of ks "[]" batch ks1 r] that assms(1) by (auto split: sum.splits)
  show ?thesis
  proof (cases r)
    case (Inl e)
    then show ?thesis
      using assms(2) unfolding RestCreateBatchKeys_def by (auto split: option.splits if_splits prod.splits sum.splits dest: a)
  next
    case (Inr x)
    obtain req nsID batch where b: "Option.bind body decode_BatchCreateKeyRequest = Some req" "add_batch [] batch ks = (ks', Inr ())"
      "map_res (batch_key E generated newID now nsID req) [0..<nat (bc_Count req)] = Some batch" "x = (201, map keyToResponse batch, length batch)"
      using assms(2) Inr unfolding RestCreateBatchKeys_def by (auto split: option.splits if_splits prod.splits sum.splits)
    from b(4) a [OF b(2)] batch_made [OF b(3)] map_res_length [OF b(3)] b(1) show ?thesis
      unfolding Inr by (auto intro!: exI [of _ req] exI [of _ batch])
  qed
qed

section \<open>Histories\<close>

datatype 'sk lite_op =
    LiteCreate "'sk option" string nat "jsonv option"
  | LiteBatch "'sk walk" "nat \<Rightarrow> 'sk option" "nat \<Rightarrow> string" nat "jsonv option"
  | LiteImport string nat "jsonv option"
  | LiteDelete "'sk walk" string

definition lite_step :: "('sk, 'pk) lite_env \<Rightarrow> 'sk keystore \<Rightarrow> 'sk lite_op \<Rightarrow> 'sk keystore" where
  "lite_step E ks op =
     (case op of
        LiteCreate generated newID now body \<Rightarrow> fst (RestCreateKey E generated newID now body ks)
      | LiteBatch walk generated newID now body \<Rightarrow> fst (RestCreateBatchKeys E walk generated newID now body ks)
      | LiteImport newID now body \<Rightarrow> fst (RestImportKey E newID now body ks)
      | LiteDelete walk keyID \<Rightarrow> fst (RestDeleteKey E walk keyID ks))"

definition lite_run :: "('sk, 'pk) lite_env \<Rightarrow> nat \<Rightarrow> 'sk lite_op list \<Rightarrow> string + 'sk keystore" where
  "lite_run E now ops = (case initializeKeystore E now of Inl e \<Rightarrow> Inl e | Inr ks \<Rightarrow> Inr (foldl (lite_step E) ks ops))"

lemma store_ok_batch: "store_ok E ks \<Longrightarrow> store_ok E (fst (RestCreateBatchKeys E walk generated newID now body ks))"
proof -
  assume ok: "store_ok E ks"
  have a: "store_ok E ks1" if "add_batch [] batch ks = (ks1, r)" "\<forall>k\<in>set batch. well_made E k" for batch ks1 r
    using add_batch_atomic [of ks "[]" batch ks1 r] that ok by (cases r) (auto simp: store_ok_def)
  show ?thesis
    unfolding RestCreateBatchKeys_def
    by (auto simp: ok split: option.split prod.split sum.split dest!: batch_made intro: a)
qed

lemma store_ok_step: "store_ok E ks \<Longrightarrow> store_ok E (lite_step E ks op)"
proof (cases op)
  case (LiteCreate generated newID now body)
  then show "store_ok E ks \<Longrightarrow> ?thesis"
    by (auto simp: lite_step_def RestCreateKey_def Let_def store_ok_add split: option.split sum.split)
next
  case (LiteBatch walk generated newID now body)
  then show "store_ok E ks \<Longrightarrow> ?thesis" by (simp add: lite_step_def store_ok_batch)
next
  case (LiteImport newID now body)
  then show "store_ok E ks \<Longrightarrow> ?thesis"
    by (auto simp: lite_step_def RestImportKey_def Let_def store_ok_add split: option.split sum.split)
next
  case (LiteDelete walk keyID)
  then show "store_ok E ks \<Longrightarrow> ?thesis"
    by (auto simp: lite_step_def RestDeleteKey_def intro: store_ok_delete split: sum.split)
qed

interpretation lite_store: invariant_machine "lite_step E" "store_ok E"
  by unfold_locales (rule store_ok_step)

lemma anvil_made: "map_res (anvil_key E now) ps = Some keys \<Longrightarrow> \<forall>k\<in>set keys. well_made E k"
  by (induction ps arbitrary: keys) (auto simp: anvil_key_def Let_def split: option.splits prod.splits)

lemma store_ok_add_all: "add_all keys ks = Inr ks' \<Longrightarrow> store_ok E ks \<Longrightarrow> \<forall>k\<in>set keys. well_made E k \<Longrightarrow> store_ok E ks'"
  by (induction keys arbitrary: ks) (auto split: sum.splits intro: store_ok_add)

lemma lite_run_ok: "lite_run E now ops = Inr ks \<Longrightarrow> store_ok E ks"
proof -
  assume "lite_run E now ops = Inr ks"
  then obtain keys ks0 where k: "LoadAnvilKeys E now = Some keys" "add_all keys NewKeystore = Inr ks0" "ks = foldl (lite_step E) ks0 ops"
    by (auto simp: lite_run_def initializeKeystore_def split: sum.splits option.splits)
  have "\<forall>k\<in>set keys. well_made E k" using k(1) anvil_made unfolding LoadAnvilKeys_def by blast
  then have "store_ok E ks0" using store_ok_add_all [OF k(2)] by (simp add: store_ok_def NewKeystore_def)
  then show ?thesis using k(3) lite_store.inv_foldl by simp
qed

section \<open>Lookup\<close>

definition walk_ok :: "'sk walk \<Rightarrow> bool" where
  "walk_ok walk \<longleftrightarrow> (\<forall>ks. set (walk ks) = set ks)"

lemma find_SomeD: "find P xs = Some x \<Longrightarrow> x \<in> set xs \<and> P x"
  by (induction xs) (auto split: if_splits)

lemma find_only: "x \<in> set xs \<Longrightarrow> P x \<Longrightarrow> (\<And>y. y \<in> set xs \<Longrightarrow> P y \<Longrightarrow> y = x) \<Longrightarrow> find P xs = Some x"
proof -
  assume x: "x \<in> set xs" "P x" "\<And>y. y \<in> set xs \<Longrightarrow> P y \<Longrightarrow> y = x"
  from x(1,2) obtain y where y: "find P xs = Some y" by (cases "find P xs") (auto simp: find_None_iff)
  then have "y = x" using x(3) [of y] find_SomeD [OF y] by blast
  with y show ?thesis by simp
qed

definition answers_to :: "'sk lite_key \<Rightarrow> string \<Rightarrow> bool" where
  "answers_to key a \<longleftrightarrow> same_field (lk_Address key) (normalized a)"

lemma GetKeyInsensitive_found:
  assumes "walk_ok walk" "GetKeyInsensitive E walk ks a = Inr key"
  shows "key \<in> set ks \<and> answers_to key a"
  using assms by (auto simp: GetKeyInsensitive_def ks_GetKey_def walk_ok_def answers_to_def same_field_def Let_def
      split: if_splits sum.splits dest!: find_SomeD)

lemma find_key_found:
  assumes "walk_ok walk" "find_key E walk ks keyID = Inr key"
  shows "key \<in> set ks \<and> (lk_ID key = keyID \<or> answers_to key keyID)"
  using assms GetKeyInsensitive_found [OF assms(1), of E ks keyID key]
  by (auto simp: find_key_def GetKeyByID_def walk_ok_def split: sum.splits dest!: find_SomeD)

section \<open>Signatures verify\<close>

text \<open>What the signing of go-ethereum promises: 65 bytes that recover to the public key of the signer.\<close>

definition signs_ok :: "('sk, 'pk) lite_env \<Rightarrow> bool" where
  "signs_ok E \<longleftrightarrow> (\<forall>h sk sig. length h = 32 \<and> lv_Sign E h sk = Some sig \<longrightarrow>
     length sig = 65 \<and> sig ! 64 < 4 \<and> lv_SigToPub E h sig = Some (lv_Public E sk))"

lemma SignHash_verifies:
  assumes "signs_ok E" "SignHash E hash (lk_PrivateKey key) = Inr sig" "well_made E key"
  shows "LiteVerifySignature E hash sig (lk_Address key) = Inr True"
proof -
  obtain raw where r: "length hash = 32" "lv_Sign E hash (lk_PrivateKey key) = Some raw" "sig = raw[64 := raw ! 64 + 27]"
    using assms(2) by (auto simp: SignHash_def split: if_splits option.splits)
  then have o: "length raw = 65" "raw ! 64 < 4" "lv_SigToPub E hash raw = Some (lv_Public E (lk_PrivateKey key))"
    using assms(1) by (auto simp: signs_ok_def)
  have "27 \<le> raw ! 64 + 27" using o(2) by (simp add: word_le_nat_alt word_less_nat_alt unat_word_ariths)
  then show ?thesis using r o assms(3) by (simp add: LiteVerifySignature_def RecoverPublicKey_def well_made_def)
qed

text \<open>
  A signature the REST interface of the local signer returns verifies, for the SHA-256 of the data or the 32 bytes
  themselves, against the address of a key that has the identifier or the address asked for, and the public key beside it is the one
  of that key.
\<close>

lemma lite_signature_verifies:
  assumes "signs_ok E" "walk_ok walk" "lite_run E now ops = Inr ks" "RestSign E walk ks keyID body = Inr (status, s)"
  shows "\<exists>key req data hash sig. key \<in> set ks \<and> (lk_ID key = keyID \<or> answers_to key keyID) \<and>
     Option.bind body decode_SignRequest = Some req \<and> b64_decode (sq_Data req) = Some data \<and>
     hash = (if sq_Prehashed req then data else lv_SHA256 E data) \<and> b64_decode (ls_Signature s) = Some sig \<and>
     LiteVerifySignature E hash sig (lk_Address key) = Inr True \<and> ls_PublicKey s = hex_encode (lv_Compress E (lv_Public E (lk_PrivateKey key)))"
proof -
  obtain req key data hash sig where r: "Option.bind body decode_SignRequest = Some req" "find_key E walk ks keyID = Inr key"
    "b64_decode (sq_Data req) = Some data" "hash_of E (sq_Prehashed req) data = Inr hash"
    "SignHash E hash (lk_PrivateKey key) = Inr sig" "s = lite_signature_of key sig"
    using assms(4) unfolding RestSign_def by (auto split: if_splits option.splits sum.splits)
  have k: "key \<in> set ks" "lk_ID key = keyID \<or> answers_to key keyID" using find_key_found [OF assms(2) r(2)] by auto
  then have w: "well_made E key" using lite_run_ok [OF assms(3)] by (simp add: store_ok_def)
  have "hash = (if sq_Prehashed req then data else lv_SHA256 E data)" using r(4) by (auto simp: hash_of_def split: if_splits)
  moreover have "b64_decode (ls_Signature s) = Some sig" "ls_PublicKey s = hex_encode (lv_Compress E (lv_Public E (lk_PrivateKey key)))"
    using r(6) w by (simp_all add: lite_signature_of_def well_made_def)
  ultimately show ?thesis using r(1,3) k SignHash_verifies [OF assms(1) r(5) w] by blast
qed

section \<open>Import and export\<close>

text \<open>
  The key material that was imported is what an export returns, under the identifier the key got, when it was imported as
  exportable, and nothing otherwise.
\<close>

lemma lite_import_export:
  assumes "\<And>b sk. lv_ToECDSA E b = Some sk \<Longrightarrow> lv_FromECDSA E sk = b" "walk_ok walk"
    and "Option.bind body decode_ImportKeyRequest = Some req" "RestImportKey E newID now body ks = (ks', Inr (status, k))"
    and "newID \<noteq> []" "\<forall>k\<in>set ks. lk_ID k \<noteq> newID"
  shows "\<exists>material. b64_decode (ir_PrivateKey req) = Some material \<and> kr_ID k = newID \<and>
     RestExportKey E walk ks' newID = (if ir_Exportable req then Inr (200, b64_encode material) else Inl (403, ''forbidden'', ''key is not exportable''))"
proof -
  obtain b sk ns where i: "b64_decode (ir_PrivateKey req) = Some b" "lv_ToECDSA E b = Some sk"
    "k = keyToResponse (key_of E newID ns (ir_Name req) (ir_Exportable req) Map.empty now sk)"
    "ks' = ks @ [key_of E newID ns (ir_Name req) (ir_Exportable req) Map.empty now sk]"
    using assms(3,4) unfolding RestImportKey_def by (auto simp: Let_def ks_AddKey_Inr split: if_splits option.splits sum.splits)
  define key where "key = key_of E newID ns (ir_Name req) (ir_Exportable req) Map.empty now sk"
  have n: "lk_ID key = newID" "lk_Exportable key = ir_Exportable req" "lk_PrivateKey key = sk" by (simp_all add: key_def key_of_def)
  have "find (\<lambda>k. lk_ID k = newID) (walk ks') = Some key"
    using i(4) [folded key_def] assms(2,6) n(1) by (intro find_only) (auto simp: walk_ok_def)
  then have "find_key E walk ks' newID = Inr key" by (simp add: find_key_def GetKeyByID_def)
  then have "RestExportKey E walk ks' newID =
      (if ir_Exportable req then Inr (200, b64_encode b) else Inl (403, ''forbidden'', ''key is not exportable''))"
    using n assms(1) [OF i(2)] assms(5) by (simp add: RestExportKey_def)
  then show ?thesis using i(1) i(3) [folded key_def] n(1) by (simp add: keyToResponse_def)
qed


section \<open>A running instance\<close>

text \<open>Only the first key signs.\<close>

definition toy_lite :: "(string, string) lite_env" where
  "toy_lite = \<lparr>lv_Sign = \<lambda>h sk. if take 2 sk = ''ac'' then Some (replicate 65 0) else None, lv_SigToPub = \<lambda>h sig. Some ''ac'',
     lv_Public = take 2, lv_Compress = bytes_of_ascii, lv_Address = \<lambda>pk. ''0x'' @ pk, lv_ToECDSA = \<lambda>b. Some (map (\<lambda>x. char_of (unat x)) b),
     lv_FromECDSA = bytes_of_ascii, lv_HexToECDSA = Some, lv_IsHexAddress = \<lambda>_. True, lv_SHA256 = \<lambda>_. replicate 32 0,
     lv_Keccak = \<lambda>_. replicate 32 0, lv_UUIDParse = \<lambda>_. True, lv_NamedUUID = \<lambda>s. s\<rparr>"

lemma toy_lite_simps:
  "lv_Sign toy_lite h sk = (if take 2 sk = ''ac'' then Some (replicate 65 0) else None)"
  "lv_SHA256 toy_lite d = replicate 32 0" "lv_Keccak toy_lite d = replicate 32 0"
  by (simp_all add: toy_lite_def)

lemma toy_lite_signs: "signs_ok toy_lite"
  by (simp add: signs_ok_def toy_lite_def)

lemma toy_lite_material: "lv_ToECDSA toy_lite b = Some sk \<Longrightarrow> lv_FromECDSA toy_lite sk = b"
  by (auto simp: toy_lite_def bytes_of_ascii_def comp_def)

lemma walk_ok_id: "walk_ok (\<lambda>ks. ks)"
  by (simp add: walk_ok_def)

definition toy_key_of :: "nat \<times> string \<Rightarrow> string lite_key" where
  "toy_key_of p = (case p of (i, h) \<Rightarrow> key_of toy_lite (''popsigner-lite:anvil-'' @ dec_of_nat i) ''popsigner-lite:dev''
     (''anvil-'' @ dec_of_nat i) True Map.empty 7 (drop 2 h))"

definition toy_keys :: "string keystore" where
  "toy_keys = map toy_key_of (zip [0..<length AnvilPrivateKeys] AnvilPrivateKeys)"

lemma map_res_total: "(\<And>x. f x = Some (g x)) \<Longrightarrow> map_res f xs = Some (map g xs)"
  by (induction xs) simp_all

lemma add_all_unique: "unique_addresses (ks @ keys) \<Longrightarrow> add_all keys ks = Inr (ks @ keys)"
proof (induction keys arbitrary: ks)
  case (Cons key keys)
  then have "ks_AddKey key ks = Inr (ks @ [key])" by (auto simp: ks_AddKey_Inr)
  then show ?case using Cons.IH [of "ks @ [key]"] Cons.prems by simp
qed simp

lemma toy_keys_run: "lite_run toy_lite 7 [] = Inr toy_keys"
proof -
  have "anvil_key toy_lite 7 p = Some (toy_key_of p)" for p
    by (cases p) (simp add: anvil_key_def toy_key_of_def toy_lite_def DevNamespaceID_def Let_def)
  then have "LoadAnvilKeys toy_lite 7 = Some toy_keys" by (simp add: LoadAnvilKeys_def toy_keys_def map_res_total)
  moreover have "unique_addresses toy_keys"
    by (simp add: toy_keys_def toy_key_of_def AnvilPrivateKeys_def key_of_def toy_lite_def)
  ultimately show ?thesis using add_all_unique [of "[]" toy_keys] by (simp add: lite_run_def initializeKeystore_def NewKeystore_def)
qed

theorem lite_batch_atomic_witness:
  "\<exists>req. Option.bind (Some (JObject [(''prefix'', JString ''w''), (''count'', JNumber ''1'')])) decode_BatchCreateKeyRequest = Some req \<and>
     map lk_Name (fst (RestCreateBatchKeys toy_lite (\<lambda>ks. ks) (\<lambda>_. Some ''ff'') (\<lambda>_. ''id'') 7
       (Some (JObject [(''prefix'', JString ''w''), (''count'', JNumber ''1'')])) []))
     = map (\<lambda>i. bc_Prefix req @ ''-'' @ dec_of_nat (i + 1)) [0..<nat (bc_Count req)]"
proof -
  let ?b = "Some (JObject [(''prefix'', JString ''w''), (''count'', JNumber ''1'')])"
  let ?r = "RestCreateBatchKeys toy_lite (\<lambda>ks. ks) (\<lambda>_. Some ''ff'') (\<lambda>_. ''id'') 7 ?b []"
  have d: "Option.bind ?b decode_BatchCreateKeyRequest = Some \<lparr>bc_Prefix = ''w'', bc_Count = 1, bc_NamespaceID = [], bc_Exportable = False\<rparr>"
    by (simp add: decode_BatchCreateKeyRequest_def json_get_def same_field_def fold_char_def int_literal_def is_digit_def dec_val_def)
  obtain x where x: "snd ?r = Inr x"
    using d by (simp add: RestCreateBatchKeys_def default_namespace_def batch_key_def taken_def GetKeyInsensitive_def ks_GetKey_def ks_AddKey_def
        toy_lite_def Let_def)
  then have r: "?r = (fst ?r, Inr x)" by (simp add: prod_eq_iff)
  have u: "unique_addresses ([] :: string keystore)" by simp
  from lite_batch_atomic [OF u r] show ?thesis by (cases x) auto
qed

theorem lite_signature_verifies_witness:
  "\<exists>key sig. key \<in> set toy_keys \<and> b64_decode (b64_encode ((replicate 65 0)[64 := 27])) = Some sig \<and>
     LiteVerifySignature toy_lite (replicate 32 0) sig (lk_Address key) = Inr True"
proof -
  let ?id = "''popsigner-lite:anvil-'' @ dec_of_nat 0" and ?key = "toy_key_of (0, ''0xac0974bec39a17e36ba4a6b4d238ff944bacb478cbed5efcae784d7bf4f2ff80'')"
  have k: "find_key toy_lite (\<lambda>ks. ks) toy_keys ?id = Inr ?key"
  proof -
    obtain rest where t: "toy_keys = ?key # rest" by (simp add: toy_keys_def AnvilPrivateKeys_def upt_conv_Cons)
    have "lk_ID ?key = ?id" by (simp add: toy_key_of_def key_of_def)
    then show ?thesis by (simp only: find_key_def GetKeyByID_def t find.simps refl if_True of_option_simps sum.case)
  qed
  have n: "b64_encode [1, 2, 3] \<noteq> []" by simp
  have p: "take 2 (lk_PrivateKey ?key) = ''ac''" by (simp add: toy_key_of_def key_of_def)
  have s: "RestSign toy_lite (\<lambda>ks. ks) toy_keys ?id (Some (JObject [(''data'', JString (b64_encode [1, 2, 3]))]))
      = Inr (200, lite_signature_of ?key ((replicate 65 0)[64 := 27]))"
    using k p by (simp add: RestSign_def decode_SignRequest_def json_get_def same_field_def fold_char_def hash_of_def SignHash_def toy_lite_simps n del: b64_encode.simps)
  show ?thesis
    using lite_signature_verifies [OF toy_lite_signs walk_ok_id toy_keys_run s] b64_decode_encode
    by (auto simp: lite_signature_of_def toy_lite_simps decode_SignRequest_def json_get_def same_field_def fold_char_def
        simp del: b64_encode.simps)
qed

theorem lite_import_export_witness:
  "RestExportKey toy_lite (\<lambda>ks. ks) (fst (RestImportKey toy_lite ''id'' 7 (Some (JObject [(''name'', JString ''k''),
       (''private_key'', JString (b64_encode [1])), (''exportable'', JBool True)])) [])) ''id'' = Inr (200, b64_encode [1])"
proof -
  let ?b = "Some (JObject [(''name'', JString ''k''), (''private_key'', JString (b64_encode [1])), (''exportable'', JBool True)])"
  have d: "Option.bind ?b decode_ImportKeyRequest = Some \<lparr>ir_Name = ''k'', ir_NamespaceID = [], ir_PrivateKey = b64_encode [1], ir_Exportable = True\<rparr>"
    by (simp add: decode_ImportKeyRequest_def json_get_def same_field_def fold_char_def del: b64_encode.simps)
  obtain ks' k where r: "RestImportKey toy_lite ''id'' 7 ?b [] = (ks', Inr (201, k))"
    using d by (simp add: RestImportKey_def default_namespace_def ks_AddKey_def toy_lite_def Let_def del: b64_encode.simps)
  show ?thesis
    using lite_import_export [OF toy_lite_material walk_ok_id d r] r by (simp del: b64_encode.simps)
qed

end
