(* ===== verification/LiteRpc.thy ===== *)
theory LiteRpc
  imports LiteKeys
begin

text \<open>
  The JSON-RPC endpoint of the local signer, \<open>cmd/popsigner-lite/internal/jsonrpc\<close>, with the signing of transactions
  \<open>internal/signer/transaction.go\<close>. Methods only read the store. The JSON of go-ethereum's types and the signing and encoding of a
  transaction, \<open>types.SignTx\<close> with the latest signer and \<open>MarshalBinary\<close>, are parameters; a transaction is the record of the control plane.
\<close>

section \<open>types.go\<close>

definition lite_error :: "int \<Rightarrow> string \<Rightarrow> rpc_error" where
  "lite_error code msg = NewError code msg None"

definition LiteParseError :: "string \<Rightarrow> rpc_error" where
  "LiteParseError msg = lite_error (- 32700) msg"

definition LiteInvalidRequest :: "string \<Rightarrow> rpc_error" where
  "LiteInvalidRequest msg = lite_error (- 32600) msg"

definition LiteMethodNotFound :: "string \<Rightarrow> rpc_error" where
  "LiteMethodNotFound m = NewError (- 32601) ''method not found'' (Some m)"

definition LiteInvalidParams :: "string \<Rightarrow> rpc_error" where
  "LiteInvalidParams msg = lite_error (- 32602) msg"

definition LiteSigningFailed :: "string \<Rightarrow> rpc_error" where
  "LiteSigningFailed msg = lite_error (- 32003) msg"

definition LiteInvalidAddress :: "string \<Rightarrow> rpc_error" where
  "LiteInvalidAddress msg = lite_error (- 32004) msg"

definition LiteKeyNotFound :: "string \<Rightarrow> rpc_error" where
  "LiteKeyNotFound msg = lite_error (- 32005) msg"

section \<open>handler.go\<close>

definition wrong_version :: string where
  "wrong_version = ''jsonrpc must be '' @ CHR 0x27 # ''2.0'' @ [CHR 0x27]"

type_synonym lite_method = "jsonv option \<Rightarrow> rpc_error + jsonv"
type_synonym lite_methods = "string \<Rightarrow> lite_method option"

definition executeMethod :: "lite_methods \<Rightarrow> string \<Rightarrow> jsonv option \<Rightarrow> rpc_error + jsonv" where
  "executeMethod ms m params = (case ms m of None \<Rightarrow> Inl (LiteMethodNotFound m) | Some handler \<Rightarrow> handler params)"

text \<open>A request whose method is called; the answer to a request on its own comes with a status.\<close>

definition answer :: "jsonv \<Rightarrow> rpc_error + jsonv \<Rightarrow> Response" where
  "answer i r = (case r of
     Inl e \<Rightarrow> \<lparr>rs_Result = None, rs_Error = Some e, rs_ID = i\<rparr>
   | Inr v \<Rightarrow> \<lparr>rs_Result = Some v, rs_Error = None, rs_ID = i\<rparr>)"

datatype lite_out = Preflight | One nat Response | Many "Response list"

definition lite_writeError :: "jsonv \<Rightarrow> rpc_error \<Rightarrow> lite_out" where
  "lite_writeError i e = One (if re_Code e = - 32700 \<or> re_Code e = - 32600 then 400 else 200) (answer i (Inl e))"

definition handleSingleRequest :: "lite_methods \<Rightarrow> jsonv option \<Rightarrow> lite_out" where
  "handleSingleRequest ms body =
     (case Option.bind body decode_Request of
        None \<Rightarrow> lite_writeError JNull (LiteParseError ''invalid JSON'')
      | Some req \<Rightarrow>
          if rq_JSONRPC req \<noteq> ''2.0'' then lite_writeError (rq_ID req) (LiteInvalidRequest wrong_version)
          else (case executeMethod ms (rq_Method req) (rq_Params req) of
             Inl e \<Rightarrow> lite_writeError (rq_ID req) e
           | Inr v \<Rightarrow> One 200 (answer (rq_ID req) (Inr v))))"

definition batch_response :: "lite_methods \<Rightarrow> Request \<Rightarrow> Response" where
  "batch_response ms req =
     (if rq_JSONRPC req \<noteq> ''2.0'' then answer (rq_ID req) (Inl (LiteInvalidRequest wrong_version))
      else answer (rq_ID req) (executeMethod ms (rq_Method req) (rq_Params req)))"

definition handleBatchRequest :: "lite_methods \<Rightarrow> jsonv option \<Rightarrow> lite_out" where
  "handleBatchRequest ms body =
     (case Option.bind body (json_slice decode_Request) of
        None \<Rightarrow> lite_writeError JNull (LiteParseError ''invalid JSON'')
      | Some reqs \<Rightarrow>
          if reqs = [] then lite_writeError JNull (LiteInvalidRequest ''batch request cannot be empty'')
          else Many (map (batch_response ms) reqs))"

definition LiteServeHTTP :: "lite_methods \<Rightarrow> http_in \<Rightarrow> lite_out" where
  "LiteServeHTTP ms r =
     (if hi_Method r = ''OPTIONS'' then Preflight
      else if hi_Method r \<noteq> ''POST'' then lite_writeError JNull (LiteInvalidRequest ''only POST method is allowed'')
      else if hi_read_fails r then lite_writeError JNull (LiteInvalidRequest ''failed to read request body'')
      else if \<not> hi_empty r \<and> hi_bracket r then handleBatchRequest ms (hi_json r)
      else handleSingleRequest ms (hi_json r))"

section \<open>The methods\<close>

record 'sk lite_geth = geth +
  lg_uint64 :: "jsonv \<Rightarrow> u64 option"
  lg_access :: "jsonv \<Rightarrow> access_tuple list option"
  lg_SignTx :: "UnsignedTransaction \<Rightarrow> 'sk \<Rightarrow> int \<Rightarrow> bytes option"

record ('sk, 'pk) lite_server =
  lt_env :: "('sk, 'pk) lite_env"
  lt_geth :: "'sk lite_geth"
  lt_walk :: "'sk walk"
  lt_keys :: "'sk keystore"

definition lite_getKey :: "('sk, 'pk) lite_server \<Rightarrow> string \<Rightarrow> rpc_error + 'sk lite_key" where
  "lite_getKey S address =
     (case GetKeyInsensitive (lt_env S) (lt_walk S) (lt_keys S) address of
        Inl (BadAddress m) \<Rightarrow> Inl (LiteInvalidAddress m)
      | Inl (NoSuchKey m) \<Rightarrow> Inl (LiteKeyNotFound m)
      | Inr key \<Rightarrow> Inr key)"

subsection \<open>eth\_sign.go\<close>

definition ethSignHash :: "('sk, 'pk) lite_env \<Rightarrow> bytes \<Rightarrow> bytes" where
  "ethSignHash E data = lv_Keccak E (personal_prefix (length data) @ data)"

text \<open>What both orders of the parameters share.\<close>

definition sign_text :: "('sk, 'pk) lite_server \<Rightarrow> string \<Rightarrow> string \<Rightarrow> rpc_error + jsonv" where
  "sign_text S address dataHex =
     (case gt_decode (lt_geth S) dataHex of
        None \<Rightarrow> Inl (LiteInvalidParams ''invalid data hex'')
      | Some data \<Rightarrow>
          (case lite_getKey S address of
             Inl e \<Rightarrow> Inl e
           | Inr key \<Rightarrow>
               (case SignHash (lt_env S) (ethSignHash (lt_env S) data) (lk_PrivateKey key) of
                  Inl e \<Rightarrow> Inl (LiteSigningFailed (''failed to sign: '' @ e))
                | Inr sig \<Rightarrow> Inr (JString (gt_encode (lt_geth S) sig)))))"

definition LiteEthSign :: "('sk, 'pk) lite_server \<Rightarrow> lite_method" where
  "LiteEthSign S params =
     (case Option.bind params (json_slice json_text) of
        None \<Rightarrow> Inl (LiteInvalidParams ''failed to parse params'')
      | Some args \<Rightarrow>
          if length args < 2 then Inl (LiteInvalidParams ''eth_sign requires address and data parameters'')
          else sign_text S (args ! 0) (args ! 1))"

definition LitePersonalSign :: "('sk, 'pk) lite_server \<Rightarrow> lite_method" where
  "LitePersonalSign S params =
     (case Option.bind params (json_slice json_text) of
        None \<Rightarrow> Inl (LiteInvalidParams ''failed to parse params'')
      | Some args \<Rightarrow>
          if length args < 2 then Inl (LiteInvalidParams ''personal_sign requires data and address parameters'')
          else sign_text S (args ! 1) (args ! 0))"

subsection \<open>eth\_sign\_transaction.go\<close>

record lite_args =
  la_From :: "bytes option"
  la_To :: "bytes option"
  la_Gas :: "u64 option"
  la_GasPrice :: "nat option"
  la_MaxFeePerGas :: "nat option"
  la_MaxPriorityFeePerGas :: "nat option"
  la_Value :: "nat option"
  la_Nonce :: "u64 option"
  la_Data :: "bytes option"
  la_Input :: "bytes option"
  la_AccessList :: "access_tuple list option"
  la_ChainID :: "nat option"
  la_Type :: "u64 option"

definition geth_ptr :: "(jsonv \<Rightarrow> 'a option) \<Rightarrow> string \<Rightarrow> jsonv \<Rightarrow> 'a option option" where
  "geth_ptr f name j = ptr_field (\<lambda>v. of_option () (f v)) name j"

definition decode_lite_args :: "'sk lite_geth \<Rightarrow> jsonv \<Rightarrow> lite_args option" where
  "decode_lite_args G j =
     (if \<not> is_struct j then None
      else Option.bind (geth_ptr (gt_address G) ''from'' j) (\<lambda>fr.
        Option.bind (geth_ptr (gt_address G) ''to'' j) (\<lambda>to.
        Option.bind (geth_ptr (lg_uint64 G) ''gas'' j) (\<lambda>gas.
        Option.bind (geth_ptr (gt_big G) ''gasPrice'' j) (\<lambda>gp.
        Option.bind (geth_ptr (gt_big G) ''maxFeePerGas'' j) (\<lambda>mf.
        Option.bind (geth_ptr (gt_big G) ''maxPriorityFeePerGas'' j) (\<lambda>mp.
        Option.bind (geth_ptr (gt_big G) ''value'' j) (\<lambda>val.
        Option.bind (geth_ptr (lg_uint64 G) ''nonce'' j) (\<lambda>nonce.
        Option.bind (geth_ptr (gt_bytes G) ''data'' j) (\<lambda>dat.
        Option.bind (geth_ptr (gt_bytes G) ''input'' j) (\<lambda>inp.
        Option.bind (geth_ptr (lg_access G) ''accessList'' j) (\<lambda>al.
        Option.bind (geth_ptr (gt_big G) ''chainId'' j) (\<lambda>c.
        Option.bind (geth_ptr (lg_uint64 G) ''type'' j) (\<lambda>ty.
          Some \<lparr>la_From = fr, la_To = to, la_Gas = gas, la_GasPrice = gp, la_MaxFeePerGas = mf, la_MaxPriorityFeePerGas = mp,
            la_Value = val, la_Nonce = nonce, la_Data = dat, la_Input = inp, la_AccessList = al, la_ChainID = c, la_Type = ty\<rparr>))))))))))))))"

text \<open>The type that is asked for, with what it requires, or else the one the fees and the access list suggest.\<close>

definition lite_type :: "lite_args \<Rightarrow> string + byte" where
  "lite_type a =
     (case la_Type a of
        Some t \<Rightarrow>
          if t = 2 then (if la_MaxFeePerGas a = None \<or> la_MaxPriorityFeePerGas a = None
            then Inl ''type 0x2 requires maxFeePerGas and maxPriorityFeePerGas'' else Inr EIP1559TxType)
          else if t = 1 then (if la_GasPrice a = None then Inl ''type 0x1 requires gasPrice'' else Inr AccessListTxType)
          else if t = 0 then (if la_GasPrice a = None then Inl ''type 0x0 requires gasPrice'' else Inr LegacyTxType)
          else Inl (''unsupported transaction type: 0x'' @ hex_of_nat (unat t))
      | None \<Rightarrow>
          if la_MaxFeePerGas a \<noteq> None then Inr EIP1559TxType
          else if la_AccessList a \<noteq> None then Inr AccessListTxType else Inr LegacyTxType)"

definition or_zero :: "nat option \<Rightarrow> int" where
  "or_zero v = (case v of None \<Rightarrow> 0 | Some n \<Rightarrow> int n)"

definition lite_data :: "lite_args \<Rightarrow> bytes" where
  "lite_data a = (case la_Input a of Some d \<Rightarrow> d | None \<Rightarrow> (case la_Data a of Some d \<Rightarrow> d | None \<Rightarrow> []))"

text \<open>A legacy transaction carries neither a chain nor an access list.\<close>

definition lite_transaction :: "nat \<Rightarrow> lite_args \<Rightarrow> byte \<Rightarrow> UnsignedTransaction" where
  "lite_transaction chainID a ty =
     \<lparr>tx_Type = ty,
      tx_ChainID = (if ty = LegacyTxType then None else Some (int chainID)),
      tx_Nonce = (case la_Nonce a of None \<Rightarrow> 0 | Some n \<Rightarrow> n),
      tx_GasPrice = (if ty = EIP1559TxType then None else Some (or_zero (la_GasPrice a))),
      tx_MaxPriorityFeePerGas = (if ty = EIP1559TxType then Some (or_zero (la_MaxPriorityFeePerGas a)) else None),
      tx_MaxFeePerGas = (if ty = EIP1559TxType then Some (or_zero (la_MaxFeePerGas a)) else None),
      tx_GasLimit = (case la_Gas a of None \<Rightarrow> 21000 | Some g \<Rightarrow> g),
      tx_To = la_To a,
      tx_Value = Some (or_zero (la_Value a)),
      tx_Data = lite_data a,
      tx_AccessList = (if ty = LegacyTxType then [] else (case la_AccessList a of None \<Rightarrow> [] | Some al \<Rightarrow> al))\<rparr>"

text \<open>The key of the sender, by its address in lower case, or else without regard to case.\<close>

definition sender_key :: "('sk, 'pk) lite_server \<Rightarrow> bytes \<Rightarrow> rpc_error + 'sk lite_key" where
  "sender_key S sender =
     (let a = map fold_char (gt_hex (lt_geth S) sender) in
      case ks_GetKey (lt_keys S) a of
        Inr key \<Rightarrow> Inr key
      | Inl _ \<Rightarrow> of_option (LiteKeyNotFound (''no key found for address '' @ a))
          (find (\<lambda>k. same_field (lk_Address k) a) (ks_ListKeys (lt_walk S) (lt_keys S))))"

definition LiteSignTransaction :: "('sk, 'pk) lite_server \<Rightarrow> lite_method" where
  "LiteSignTransaction S params =
     (case Option.bind params (json_slice (decode_lite_args (lt_geth S))) of
        None \<Rightarrow> Inl (LiteInvalidParams ''failed to parse params'')
      | Some [] \<Rightarrow> Inl (LiteInvalidParams ''transaction arguments required'')
      | Some (a # _) \<Rightarrow>
          (case (la_From a, la_ChainID a) of
             (None, _) \<Rightarrow> Inl (LiteInvalidParams ''from address is required'')
           | (_, None) \<Rightarrow> Inl (LiteInvalidParams ''chainId is required'')
           | (Some sender, Some chainID) \<Rightarrow>
               (case sender_key S sender of
                  Inl e \<Rightarrow> Inl e
                | Inr key \<Rightarrow>
                    (case lite_type a of
                       Inl e \<Rightarrow> Inl (LiteInvalidParams e)
                     | Inr ty \<Rightarrow>
                         (case lg_SignTx (lt_geth S) (lite_transaction chainID a ty) (lk_PrivateKey key) (int chainID) of
                            None \<Rightarrow> Inl (LiteSigningFailed ''failed to sign transaction'')
                          | Some raw \<Rightarrow> Inr (JString (gt_encode (lt_geth S) raw)))))))"

subsection \<open>opsigner\_sign\_block.go\<close>

record lite_block =
  lb_Address :: string
  lb_Data :: string

record lite_block_v2 =
  lb2_Address :: string
  lb2_ChainID :: string
  lb2_BlockHash :: string

definition decode_lite_block :: "jsonv \<Rightarrow> lite_block option" where
  "decode_lite_block j =
     (if \<not> is_struct j then None
      else Option.bind (json_text (json_get ''address'' j)) (\<lambda>a.
        Option.bind (json_text (json_get ''data'' j)) (\<lambda>d. Some \<lparr>lb_Address = a, lb_Data = d\<rparr>)))"

definition decode_lite_block_v2 :: "jsonv \<Rightarrow> lite_block_v2 option" where
  "decode_lite_block_v2 j =
     (if \<not> is_struct j then None
      else Option.bind (json_text (json_get ''address'' j)) (\<lambda>a.
        Option.bind (json_text (json_get ''chainId'' j)) (\<lambda>c.
        Option.bind (json_text (json_get ''blockHash'' j)) (\<lambda>b. Some \<lparr>lb2_Address = a, lb2_ChainID = c, lb2_BlockHash = b\<rparr>))))"

definition sign_payload :: "('sk, 'pk) lite_server \<Rightarrow> string \<Rightarrow> 'sk lite_key \<Rightarrow> bytes \<Rightarrow> rpc_error + jsonv" where
  "sign_payload S what key data =
     (case SignHash (lt_env S) (lv_Keccak (lt_env S) data) (lk_PrivateKey key) of
        Inl e \<Rightarrow> Inl (LiteSigningFailed (''failed to sign '' @ what @ '': '' @ e))
      | Inr sig \<Rightarrow> Inr (JObject [(''signature'', JString (gt_encode (lt_geth S) sig))]))"

definition LiteSignBlock :: "('sk, 'pk) lite_server \<Rightarrow> lite_method" where
  "LiteSignBlock S params =
     (case Option.bind params (json_slice decode_lite_block) of
        None \<Rightarrow> Inl (LiteInvalidParams ''failed to parse params'')
      | Some [] \<Rightarrow> Inl (LiteInvalidParams ''block payload arguments required'')
      | Some (p # _) \<Rightarrow>
          if lb_Address p = [] then Inl (LiteInvalidParams ''address is required'')
          else if lb_Data p = [] then Inl (LiteInvalidParams ''data is required'')
          else (case lite_getKey S (lb_Address p) of
             Inl e \<Rightarrow> Inl e
           | Inr key \<Rightarrow>
               (case gt_decode (lt_geth S) (lb_Data p) of
                  None \<Rightarrow> Inl (LiteInvalidParams ''invalid data hex'')
                | Some data \<Rightarrow> sign_payload S ''block payload'' key data)))"

definition LiteSignBlockV2 :: "('sk, 'pk) lite_server \<Rightarrow> lite_method" where
  "LiteSignBlockV2 S params =
     (case Option.bind params (json_slice decode_lite_block_v2) of
        None \<Rightarrow> Inl (LiteInvalidParams ''failed to parse params'')
      | Some [] \<Rightarrow> Inl (LiteInvalidParams ''block payload v2 arguments required'')
      | Some (p # _) \<Rightarrow>
          if lb2_Address p = [] then Inl (LiteInvalidParams ''address is required'')
          else if lb2_BlockHash p = [] then Inl (LiteInvalidParams ''blockHash is required'')
          else (case lite_getKey S (lb2_Address p) of
             Inl e \<Rightarrow> Inl e
           | Inr key \<Rightarrow>
               (case gt_decode (lt_geth S) (lb2_BlockHash p) of
                  None \<Rightarrow> Inl (LiteInvalidParams ''invalid blockHash hex'')
                | Some blockHash \<Rightarrow>
                    if lb2_ChainID p = [] then sign_payload S ''block payload v2'' key blockHash
                    else (case gt_decode (lt_geth S) (lb2_ChainID p) of
                       None \<Rightarrow> Inl (LiteInvalidParams ''invalid chainId hex'')
                     | Some chainIDBytes \<Rightarrow> sign_payload S ''block payload v2'' key (chainIDBytes @ blockHash)))))"

subsection \<open>eth\_accounts.go, health.go and server.go\<close>

definition LiteEthAccounts :: "('sk, 'pk) lite_server \<Rightarrow> lite_method" where
  "LiteEthAccounts S params = Inr (JArray (map (\<lambda>k. JString (lk_Address k)) (ks_ListKeys (lt_walk S) (lt_keys S))))"

definition LiteHealth :: lite_method where
  "LiteHealth params = Inr (JString ''ok'')"

definition LiteServer :: "('sk, 'pk) lite_server \<Rightarrow> lite_methods" where
  "LiteServer S = [''health_status'' \<mapsto> LiteHealth, ''eth_accounts'' \<mapsto> LiteEthAccounts S, ''eth_signTransaction'' \<mapsto> LiteSignTransaction S,
     ''eth_sign'' \<mapsto> LiteEthSign S, ''personal_sign'' \<mapsto> LitePersonalSign S, ''opsigner_signBlockPayload'' \<mapsto> LiteSignBlock S,
     ''opsigner_signBlockPayloadV2'' \<mapsto> LiteSignBlockV2 S]"

section \<open>Answers\<close>

text \<open>
  A batch is answered by one response for every request, those without an identifier included, in the order of the
  requests; each carries either a result or an error, and is the one the request would get alone.
\<close>

lemma lite_batch_answers:
  assumes "Option.bind body (json_slice decode_Request) = Some reqs" "reqs \<noteq> []"
  shows "\<exists>resps. handleBatchRequest ms body = Many resps \<and> map rs_ID resps = map rq_ID reqs \<and>
     (\<forall>r\<in>set resps. (rs_Result r = None) \<noteq> (rs_Error r = None)) \<and>
     (\<forall>i<length reqs. \<forall>j. decode_Request j = Some (reqs ! i) \<longrightarrow> (\<exists>status. handleSingleRequest ms (Some j) = One status (resps ! i)))"
proof -
  have i: "rs_ID (batch_response ms r) = rq_ID r" "(rs_Result (batch_response ms r) = None) \<noteq> (rs_Error (batch_response ms r) = None)" for r
    by (auto simp: batch_response_def answer_def split: sum.splits)
  have s: "\<exists>status. handleSingleRequest ms (Some j) = One status (batch_response ms r)" if "decode_Request j = Some r" for j r
    using that by (auto simp: handleSingleRequest_def batch_response_def lite_writeError_def split: sum.splits)
  show ?thesis
    using assms i s by (auto simp: handleBatchRequest_def comp_def)
qed

section \<open>Signed texts\<close>

text \<open>What the reading of hexadecimal text promises.\<close>

definition hex_ok :: "'sk lite_geth \<Rightarrow> bool" where
  "hex_ok G \<longleftrightarrow> (\<forall>b. gt_decode G (gt_encode G b) = Some b)"

lemma lite_getKey_found: "walk_ok (lt_walk S) \<Longrightarrow> lite_getKey S a = Inr key \<Longrightarrow> key \<in> set (lt_keys S) \<and> answers_to key a"
  by (auto simp: lite_getKey_def GetKeyInsensitive_found split: sum.splits lookup_error.splits)

lemma sign_text_verifies:
  assumes "signs_ok (lt_env S)" "walk_ok (lt_walk S)" "store_ok (lt_env S) (lt_keys S)" "hex_ok (lt_geth S)"
    and "sign_text S address dataHex = Inr v"
  shows "\<exists>key data s sig. key \<in> set (lt_keys S) \<and> answers_to key address \<and> gt_decode (lt_geth S) dataHex = Some data \<and>
     v = JString s \<and> gt_decode (lt_geth S) s = Some sig \<and>
     LiteVerifySignature (lt_env S) (ethSignHash (lt_env S) data) sig (lk_Address key) = Inr True"
proof -
  obtain data key sig where d: "gt_decode (lt_geth S) dataHex = Some data" "lite_getKey S address = Inr key"
    "SignHash (lt_env S) (ethSignHash (lt_env S) data) (lk_PrivateKey key) = Inr sig" "v = JString (gt_encode (lt_geth S) sig)"
    using assms(5) by (auto simp: sign_text_def split: option.splits sum.splits)
  have k: "key \<in> set (lt_keys S)" "answers_to key address" using lite_getKey_found [OF assms(2) d(2)] by auto
  then have "well_made (lt_env S) key" using assms(3) by (simp add: store_ok_def)
  then show ?thesis using SignHash_verifies [OF assms(1) d(3)] d k assms(4) by (auto simp: hex_ok_def)
qed

text \<open>
  What \<open>eth_sign\<close> and \<open>personal_sign\<close> of the local signer answer is a signature of the prefixed text that verifies against
  the address asked for, whatever has been done to its keys before; both methods give the same answer for the same text and address.
\<close>

lemma lite_text_signature_verifies:
  assumes "signs_ok (lt_env S)" "walk_ok (lt_walk S)" "lite_run (lt_env S) now ops = Inr (lt_keys S)" "hex_ok (lt_geth S)"
    and "LiteEthSign S (Some (JArray [JString address, JString dataHex])) = Inr v"
  shows "LitePersonalSign S (Some (JArray [JString dataHex, JString address])) = Inr v \<and>
     (\<exists>key data s sig. key \<in> set (lt_keys S) \<and> answers_to key address \<and> gt_decode (lt_geth S) dataHex = Some data \<and>
        v = JString s \<and> gt_decode (lt_geth S) s = Some sig \<and>
        LiteVerifySignature (lt_env S) (ethSignHash (lt_env S) data) sig (lk_Address key) = Inr True)"
proof -
  have s: "sign_text S address dataHex = Inr v" using assms(5) by (simp add: LiteEthSign_def)
  then have "LitePersonalSign S (Some (JArray [JString dataHex, JString address])) = Inr v" by (simp add: LitePersonalSign_def)
  then show ?thesis using sign_text_verifies [OF assms(1,2) lite_run_ok [OF assms(3)] assms(4) s] by blast
qed

section \<open>Transactions\<close>

text \<open>The same request read by the two programs.\<close>

definition same_request :: "lite_args \<Rightarrow> TransactionArgs \<Rightarrow> bool" where
  "same_request l a \<longleftrightarrow> la_From l = arg_From a \<and> la_To l = arg_To a \<and> la_Gas l = arg_Gas a \<and>
     map_option int (la_GasPrice l) = arg_GasPrice a \<and> map_option int (la_MaxFeePerGas l) = arg_MaxFeePerGas a \<and>
     map_option int (la_MaxPriorityFeePerGas l) = arg_MaxPriorityFeePerGas a \<and> map_option int (la_Value l) = arg_Value a \<and>
     la_Nonce l = arg_Nonce a \<and> la_Data l = arg_Data a \<and> la_Input l = arg_Input a \<and> map_option int (la_ChainID l) = arg_ChainID a \<and>
     (case la_AccessList l of None \<Rightarrow> [] | Some al \<Rightarrow> al) = arg_AccessList a"

lemma same_payload:
  assumes "same_request l a" "Args_Validate a = None" "lite_type l = Inr ty" "la_ChainID l = Some c"
    and "la_Type l = None" "la_AccessList l = None \<or> la_MaxFeePerGas l \<noteq> None"
  shows "\<exists>tx. unsigned_of a = Some tx \<and>
     signing_payload (lite_transaction c l ty) (Some (int c)) = signing_payload tx (Some (int c))"
proof -
  have n: "\<exists>x. arg_Nonce a = Some x" "\<exists>x. arg_Gas a = Some x" using assms(2) by (auto simp: Args_Validate_def split: if_splits)
  have o: "or_zero v = (case map_option int v of None \<Rightarrow> 0 | Some i \<Rightarrow> i)" for v by (cases v) (simp_all add: or_zero_def)
  show ?thesis
  proof (cases "la_MaxFeePerGas l")
    case None
    then have "ty = LegacyTxType" "arg_MaxFeePerGas a = None" using assms(1,3,5,6) by (auto simp: lite_type_def same_request_def)
    then show ?thesis
      using n assms(1) by (auto simp: unsigned_of_def NewLegacyTransaction_def same_request_def lite_transaction_def signing_payload_def
          rlpEncodeLegacyForSigning_def LegacyTxType_def EIP1559TxType_def o lite_data_def GetData_def split: option.splits)
  next
    case (Some f)
    then have "ty = EIP1559TxType" "arg_MaxFeePerGas a = Some (int f)" using assms(1,3,5) by (auto simp: lite_type_def same_request_def)
    then show ?thesis
      using n assms(1,4) by (auto simp: unsigned_of_def NewEIP1559Transaction_def same_request_def lite_transaction_def signing_payload_def
          rlpEncodeEIP1559ForSigning_def LegacyTxType_def EIP1559TxType_def o lite_data_def GetData_def split: option.splits)
  qed
qed


text \<open>With an access list and a gas price alone the two differ: here it is signed, by the control plane it is dropped.\<close>

lemma access_list_kept:
  assumes "same_request l a" "la_Type l = None" "la_MaxFeePerGas l = None" "la_AccessList l = Some al" "al \<noteq> []" "unsigned_of a = Some tx"
  shows "lite_type l = Inr AccessListTxType" "tx_AccessList (lite_transaction c l AccessListTxType) = al" "tx_AccessList tx = []"
  using assms by (auto simp: lite_type_def lite_transaction_def same_request_def unsigned_of_def NewLegacyTransaction_def
      LegacyTxType_def AccessListTxType_def split: option.splits)

text \<open>The parameters of a block signature the control plane takes, as op-node sends them, are refused here.\<close>

lemma block_parameters_refused:
  "LiteSignBlock S (Some (JArray [JObject [(''domain'', d), (''chainId'', c), (''payloadHash'', p), (''senderAddress'', a)]])) =
     Inl (LiteInvalidParams ''address is required'')"
  by (simp add: LiteSignBlock_def decode_lite_block_def json_get_def same_field_def fold_char_def)

section \<open>A running instance\<close>

definition toy_lite_geth :: "string lite_geth" where
  "toy_lite_geth = \<lparr>gt_bytes = \<lambda>j. Some [], gt_big = \<lambda>j. Some 1, gt_address = \<lambda>j. Some [1], gt_hex = \<lambda>_. ''0xac'',
     gt_decode = \<lambda>s. res_option (DecodeBytes s), gt_encode = EncodeBytes, lg_uint64 = \<lambda>j. Some 1, lg_access = \<lambda>j. Some [],
     lg_SignTx = \<lambda>tx sk c. Some [1]\<rparr>"

definition toy_server :: "(string, string) lite_server" where
  "toy_server = \<lparr>lt_env = toy_lite, lt_geth = toy_lite_geth, lt_walk = \<lambda>ks. ks, lt_keys = toy_keys\<rparr>"

lemma toy_server_simps [simp]:
  "lt_env toy_server = toy_lite" "lt_geth toy_server = toy_lite_geth" "lt_walk toy_server = (\<lambda>ks. ks)" "lt_keys toy_server = toy_keys"
  by (simp_all add: toy_server_def)

lemma toy_hex_ok: "hex_ok toy_lite_geth"
  using DecodeBytes_Encode by (simp add: hex_ok_def toy_lite_geth_def res_option_def)

theorem lite_batch_answers_witness:
  "\<exists>resps. handleBatchRequest (LiteServer toy_server) (Some (JArray [JObject [(''jsonrpc'', JString ''2.0''), (''method'', JString ''health_status'')], JNull]))
      = Many resps \<and> map rs_ID resps = [JNull, JNull]"
proof -
  let ?a = "\<lparr>rq_JSONRPC = ''2.0'', rq_Method = ''health_status'', rq_Params = None, rq_ID = JNull\<rparr>"
  let ?b = "\<lparr>rq_JSONRPC = [], rq_Method = [], rq_Params = None, rq_ID = JNull\<rparr>"
  have d: "Option.bind (Some (JArray [JObject [(''jsonrpc'', JString ''2.0''), (''method'', JString ''health_status'')], JNull]))
      (json_slice decode_Request) = Some [?a, ?b]"
    by (simp add: decode_Request_def json_get_def same_field_def fold_char_def)
  from lite_batch_answers [OF d list.distinct(2), of "LiteServer toy_server"] show ?thesis by auto
qed


lemma toy_args:
  "decode_lite_args toy_lite_geth (JObject [(''from'', JString ''0x1''), (''maxFeePerGas'', JString ''0x1''), (''chainId'', JString ''0x1''),
     (''nonce'', JString ''0x1''), (''gas'', JString ''0x1'')]) = Some \<lparr>la_From = Some [1], la_To = None, la_Gas = Some 1, la_GasPrice = None,
     la_MaxFeePerGas = Some 1, la_MaxPriorityFeePerGas = None, la_Value = None, la_Nonce = Some 1, la_Data = None, la_Input = None,
     la_AccessList = None, la_ChainID = Some 1, la_Type = None\<rparr>"
  by (simp add: decode_lite_args_def geth_ptr_def ptr_field_def fields_of_def toy_lite_geth_def same_field_def fold_char_def)

lemma toy_first_key:
  "\<exists>key rest. toy_keys = key # rest \<and> map fold_char (lk_Address key) = ''0xac'' \<and> lk_Address key = ''0xac'' \<and> take 2 (lk_PrivateKey key) = ''ac''"
  by (simp add: toy_keys_def AnvilPrivateKeys_def upt_conv_Cons toy_key_of_def key_of_def toy_lite_def fold_char_def)

theorem lite_text_signature_verifies_witness:
  "LitePersonalSign toy_server (Some (JArray [JString (EncodeBytes [1, 2]), JString ''0xac''])) = Inr (JString (EncodeBytes ((replicate 65 0)[64 := 27])))"
proof -
  obtain key rest where k: "toy_keys = key # rest" "lk_Address key = ''0xac''" "take 2 (lk_PrivateKey key) = ''ac''" using toy_first_key by blast
  have "GetKeyInsensitive toy_lite (\<lambda>ks. ks) toy_keys ''0xac'' = Inr key"
    by (simp add: k GetKeyInsensitive_def ks_GetKey_def normalized_def fold_char_def has_prefix_def toy_lite_def Let_def)
  then have g: "lite_getKey toy_server ''0xac'' = Inr key" by (simp add: lite_getKey_def)
  have e: "gt_encode toy_lite_geth = EncodeBytes" by (simp add: toy_lite_geth_def)
  have d: "gt_decode toy_lite_geth (EncodeBytes [1, 2]) = Some [1, 2]" using toy_hex_ok unfolding hex_ok_def e by blast
  have s: "LiteEthSign toy_server (Some (JArray [JString ''0xac'', JString (EncodeBytes [1, 2])]))
      = Inr (JString (EncodeBytes ((replicate 65 0)[64 := 27])))"
    using g k(3) e d by (simp add: LiteEthSign_def sign_text_def ethSignHash_def SignHash_def toy_lite_simps)
  have w: "signs_ok (lt_env toy_server)" "walk_ok (lt_walk toy_server)" "lite_run (lt_env toy_server) 7 [] = Inr (lt_keys toy_server)"
    "hex_ok (lt_geth toy_server)"
    using toy_lite_signs walk_ok_id toy_keys_run toy_hex_ok by simp_all
  from lite_text_signature_verifies [OF w s] show ?thesis by blast
qed


end
