(* ===== verification/KubeApi.thy ===== *)
theory KubeApi
  imports GoText
begin

text \<open>
  The objects the Kubernetes operator works on: \<open>operator/api/v1\<close>, the conditions of
  \<open>internal/conditions\<close> and the part of the API server the controllers use. Objects are found by namespace
  and name. Every call of a reconcile can be answered with an error, and a write that is answered with an error
  may have been carried out all the same. Of a Deployment the number of pods, asked for and present, and the
  image are kept, of a Job its labels, image, script, variables and counts, of a Service and an autoscaler that it
  exists. Fields that these controllers neither read nor write are left out.
\<close>

type_synonym kname = "string \<times> string"

datatype kkind = KCluster | KBackup | KRestore | KTenant | KJob | KDeployment | KService | KAutoscaler | KSecret

definition kind_text :: "kkind \<Rightarrow> string" where
  "kind_text k = (case k of KCluster \<Rightarrow> ''POPSignerCluster.popsigner.com'' | KBackup \<Rightarrow> ''POPSignerBackup.popsigner.com''
     | KRestore \<Rightarrow> ''POPSignerRestore.popsigner.com'' | KTenant \<Rightarrow> ''POPSignerTenant.popsigner.com'' | KJob \<Rightarrow> ''Job.batch''
     | KDeployment \<Rightarrow> ''Deployment.apps'' | KService \<Rightarrow> ''Service'' | KAutoscaler \<Rightarrow> ''HorizontalPodAutoscaler.autoscaling''
     | KSecret \<Rightarrow> ''Secret'')"

section \<open>Conditions\<close>

record kcondition =
  kc_Type :: string
  kc_Status :: string
  kc_ObservedGeneration :: int
  kc_LastTransitionTime :: nat
  kc_Reason :: string
  kc_Message :: string

fun set_condition :: "nat \<Rightarrow> string \<Rightarrow> string \<Rightarrow> string \<Rightarrow> string \<Rightarrow> kcondition list \<Rightarrow> kcondition list" where
  "set_condition now t st reason message [] =
     [\<lparr>kc_Type = t, kc_Status = st, kc_ObservedGeneration = 0, kc_LastTransitionTime = now, kc_Reason = reason, kc_Message = message\<rparr>]"
| "set_condition now t st reason message (c # cs) =
     (if kc_Type c = t
      then (if kc_Status c \<noteq> st then c\<lparr>kc_Status := st, kc_LastTransitionTime := now\<rparr> else c)
             \<lparr>kc_Reason := reason, kc_Message := message\<rparr> # cs
      else c # set_condition now t st reason message cs)"

definition GetCondition :: "kcondition list \<Rightarrow> string \<Rightarrow> kcondition option" where
  "GetCondition cs t = find (\<lambda>c. kc_Type c = t) cs"

definition IsConditionTrue :: "kcondition list \<Rightarrow> string \<Rightarrow> bool" where
  "IsConditionTrue cs t = (case GetCondition cs t of None \<Rightarrow> False | Some c \<Rightarrow> kc_Status c = ''True'')"

definition IsConditionFalse :: "kcondition list \<Rightarrow> string \<Rightarrow> bool" where
  "IsConditionFalse cs t = (case GetCondition cs t of None \<Rightarrow> False | Some c \<Rightarrow> kc_Status c = ''False'')"

fun RemoveCondition :: "kcondition list \<Rightarrow> string \<Rightarrow> kcondition list" where
  "RemoveCondition [] t = []"
| "RemoveCondition (c # cs) t = (if kc_Type c = t then cs else c # RemoveCondition cs t)"

text \<open>The controllers of backups, restores and tenants replace the whole condition.\<close>

fun put_condition :: "kcondition \<Rightarrow> kcondition list \<Rightarrow> kcondition list" where
  "put_condition c [] = [c]"
| "put_condition c (x # xs) = (if kc_Type x = kc_Type c then c # xs else x # put_condition c xs)"

lemma set_condition_get:
  "map_option kc_Status (GetCondition (set_condition now t st r m cs) t') =
     (if t' = t then Some st else map_option kc_Status (GetCondition cs t'))"
  by (induction cs) (auto simp: GetCondition_def)

lemma put_condition_get: "GetCondition (put_condition c cs) t = (if t = kc_Type c then Some c else GetCondition cs t)"
  by (induction cs) (auto simp: GetCondition_def)

lemma set_condition_types: "set (map kc_Type (set_condition now t st r m cs)) = insert t (set (map kc_Type cs))"
  by (induction cs) auto

lemma set_condition_distinct: "distinct (map kc_Type cs) \<Longrightarrow> distinct (map kc_Type (set_condition now t st r m cs))"
proof (induction cs)
  case (Cons c cs)
  have "kc_Type c \<notin> set (map kc_Type (set_condition now t st r m cs))" if "kc_Type c \<noteq> t"
    using Cons.prems that by (simp only: set_condition_types) auto
  with Cons show ?case by auto
qed simp

lemma remove_condition_get:
  "distinct (map kc_Type cs) \<Longrightarrow> GetCondition (RemoveCondition cs t) t' = (if t' = t then None else GetCondition cs t')"
  by (induction cs) (auto simp: GetCondition_def find_None_iff image_iff)

section \<open>Objects\<close>

record s3_destination =
  s3_Bucket :: string
  s3_Region :: string
  s3_Prefix :: string
  s3_Credentials :: "string \<times> string"

record gcs_destination =
  gcs_Bucket :: string
  gcs_Prefix :: string
  gcs_Credentials :: "string \<times> string"

record backup_destination =
  bd_S3 :: "s3_destination option"
  bd_GCS :: "gcs_destination option"

datatype env_var = EnvValue string string | EnvSecret string string string bool

record kube_job =
  jb_Owner :: string
  jb_Labels :: "(string \<times> string) list"
  jb_Image :: string
  jb_BackoffLimit :: int
  jb_Script :: string
  jb_Env :: "env_var list"
  jb_Succeeded :: int
  jb_Failed :: int

record kube_deployment =
  kd_Replicas :: int
  kd_Image :: string
  kd_StatusReplicas :: int
  kd_ReadyReplicas :: int

record component_status =
  cs_Ready :: bool
  cs_Version :: string
  cs_Message :: string
  cs_Replicas :: string

definition no_status :: component_status where
  "no_status = \<lparr>cs_Ready = False, cs_Version = [], cs_Message = [], cs_Replicas = []\<rparr>"

record cluster_app =
  ca_Replicas :: int
  ca_Version :: string
  ca_Image :: string

record kube_cluster =
  kl_Domain :: string
  kl_API :: cluster_app
  kl_Autoscaling :: bool
  kl_Dashboard :: cluster_app
  kl_RPCGateway :: cluster_app
  kl_RPCEnabled :: bool
  kl_Destination :: backup_destination
  kl_StatusAPI :: component_status
  kl_StatusDashboard :: component_status
  kl_StatusRPCGateway :: component_status
  kl_EndpointAPI :: string
  kl_EndpointDashboard :: string
  kl_EndpointRPCGateway :: string
  kl_Conditions :: "kcondition list"

record backup_obj =
  bk_ClusterRef :: string
  bk_Type :: string
  bk_Components :: "string list"
  bk_Destination :: "backup_destination option"
  bk_Phase :: string
  bk_StartedAt :: "nat option"
  bk_CompletedAt :: "nat option"
  bk_ComponentStatus :: "(string \<times> string) list"
  bk_Conditions :: "kcondition list"

record restore_obj =
  rs_ClusterRef :: string
  rs_BackupRef :: "string option"
  rs_Source :: "backup_destination option"
  rs_Components :: "string list"
  rs_StopApplications :: bool
  rs_VerifyBackup :: bool
  rs_Phase :: string
  rs_StartedAt :: "nat option"
  rs_CompletedAt :: "nat option"
  rs_Steps :: "(string \<times> string) list"
  rs_Conditions :: "kcondition list"

record kube =
  kb_Clusters :: "kname \<Rightarrow> kube_cluster option"
  kb_Backups :: "kname \<Rightarrow> backup_obj option"
  kb_Restores :: "kname \<Rightarrow> restore_obj option"
  kb_Jobs :: "kname \<Rightarrow> kube_job option"
  kb_Deployments :: "kname \<Rightarrow> kube_deployment option"
  kb_Services :: "kname set"
  kb_Autoscalers :: "kname set"

section \<open>Calls of the API server\<close>

datatype kube_error = NotFound kkind string | AlreadyExists kkind string | ApiError string

fun kerr_text :: "kube_error \<Rightarrow> string" where
  "kerr_text (NotFound k n) = kind_text k @ '' '' @ [CHR 0x22] @ n @ [CHR 0x22] @ '' not found''"
| "kerr_text (AlreadyExists k n) = kind_text k @ '' '' @ [CHR 0x22] @ n @ [CHR 0x22] @ '' already exists''"
| "kerr_text (ApiError m) = m"

definition IsNotFound :: "kube_error \<Rightarrow> bool" where
  "IsNotFound e = (case e of NotFound _ _ \<Rightarrow> True | _ \<Rightarrow> False)"

definition IsAlreadyExists :: "kube_error \<Rightarrow> bool" where
  "IsAlreadyExists e = (case e of AlreadyExists _ _ \<Rightarrow> True | _ \<Rightarrow> False)"

text \<open>A call is named by what it does to which object; \<open>Poll\<close> is a read that looks at the pods.\<close>

datatype kube_call = Get kkind string | Poll kkind string | Create kkind string | Update kkind string | Delete kkind string | StatusUpdate

type_synonym faults = "kube_call \<Rightarrow> (kube_error \<times> bool) option"

definition kget :: "(kube_error \<times> bool) option \<Rightarrow> kkind \<Rightarrow> (kname \<Rightarrow> 'a option) \<Rightarrow> kname \<Rightarrow> kube_error + 'a" where
  "kget f k m n = (case f of Some (e, _) \<Rightarrow> Inl e | None \<Rightarrow> (case m n of None \<Rightarrow> Inl (NotFound k (snd n)) | Some x \<Rightarrow> Inr x))"

definition kwrite :: "(kube_error \<times> bool) option \<Rightarrow> (kube \<Rightarrow> kube) \<Rightarrow> kube \<Rightarrow> kube_error option \<times> kube" where
  "kwrite f w s = (case f of None \<Rightarrow> (None, w s) | Some (e, carried_out) \<Rightarrow> (Some e, if carried_out then w s else s))"

definition kcreate :: "(kube_error \<times> bool) option \<Rightarrow> kkind \<Rightarrow> kname \<Rightarrow> bool \<Rightarrow> (kube \<Rightarrow> kube) \<Rightarrow> kube \<Rightarrow> kube_error option \<times> kube" where
  "kcreate f k n exists w s = (if exists then (Some (case f of None \<Rightarrow> AlreadyExists k (snd n) | Some (e, _) \<Rightarrow> e), s) else kwrite f w s)"

datatype kresult = Finished | RequeueAfter nat | Failed kube_error

lemma kget_Inr: "kget f k m n = Inr x \<longleftrightarrow> f = None \<and> m n = Some x"
  by (auto simp: kget_def split: option.splits)

lemma kget_fine [simp]: "kget None k m n = (case m n of None \<Rightarrow> Inl (NotFound k (snd n)) | Some x \<Rightarrow> Inr x)"
  by (simp add: kget_def)

lemma kwrite_cases: "snd (kwrite f w s) = s \<and> fst (kwrite f w s) \<noteq> None \<or> snd (kwrite f w s) = w s"
  by (auto simp: kwrite_def split: option.splits)

lemma kwrite_fine [simp]: "kwrite None w s = (None, w s)"
  by (simp add: kwrite_def)

lemma kwrite_ok: "fst (kwrite f w s) = None \<longleftrightarrow> f = None"
  by (auto simp: kwrite_def split: option.splits)

lemma kcreate_cases: "snd (kcreate f k n ex w s) = s \<and> fst (kcreate f k n ex w s) \<noteq> None \<or> \<not> ex \<and> snd (kcreate f k n ex w s) = w s"
  using kwrite_cases [of f w s] by (auto simp: kcreate_def)

end
