(* ===== verification/Restores.thy ===== *)
theory Restores
  imports KubeApi
begin

text \<open>
  The controllers of backups and restores, \<open>operator/controllers/backup_controller.go\<close> and
  \<open>restore_controller.go\<close>, and the application phase of the cluster controller, \<open>cluster_apps.go\<close> with
  \<open>createOrUpdate\<close>. A reconcile is one step on the objects and reads the clock once.
\<close>

section \<open>Backups\<close>

definition job_name :: "kname \<Rightarrow> string \<Rightarrow> kname" where
  "job_name n suffix = (fst n, snd n @ suffix)"

definition backup_components :: "backup_obj \<Rightarrow> string list" where
  "backup_components B = (if bk_Components B = [] then [''openbao'', ''database'', ''secrets''] else bk_Components B)"

fun unlines :: "string list \<Rightarrow> string" where
  "unlines [] = []"
| "unlines (l # ls) = l @ [CHR 0x0A] @ unlines ls"

definition buildBackupScript :: string where
  \<open>buildBackupScript = unlines [
     ''#!/bin/sh'',
     ''set -e'',
     '''',
     ''TIMESTAMP=$(date +%Y%m%d-%H%M%S)'',
     '''',
     ''# Backup OpenBao (Raft snapshot)'',
     ''if echo "$COMPONENTS" | grep -q "openbao"; then'',
     ''    echo "Backing up OpenBao..."'',
     ''    vault operator raft snapshot save /tmp/openbao-${TIMESTAMP}.snap'',
     ''    aws s3 cp /tmp/openbao-${TIMESTAMP}.snap s3://${S3_BUCKET}/${S3_PREFIX}openbao-${TIMESTAMP}.snap'',
     ''fi'',
     '''',
     ''# Backup PostgreSQL'',
     ''if echo "$COMPONENTS" | grep -q "database"; then'',
     ''    echo "Backing up PostgreSQL..."'',
     ''    pg_dump $DATABASE_URL | gzip > /tmp/postgres-${TIMESTAMP}.sql.gz'',
     ''    aws s3 cp /tmp/postgres-${TIMESTAMP}.sql.gz s3://${S3_BUCKET}/${S3_PREFIX}postgres-${TIMESTAMP}.sql.gz'',
     ''fi'',
     '''',
     ''# Backup secrets metadata'',
     ''if echo "$COMPONENTS" | grep -q "secrets"; then'',
     ''    echo "Backing up secrets metadata..."'',
     ''    kubectl get secrets -n ${NAMESPACE} -l popsigner.com/cluster=${CLUSTER_NAME} -o yaml > /tmp/secrets-${TIMESTAMP}.yaml'',
     ''    aws s3 cp /tmp/secrets-${TIMESTAMP}.yaml s3://${S3_BUCKET}/${S3_PREFIX}secrets-${TIMESTAMP}.yaml'',
     ''fi'',
     '''',
     ''echo "Backup completed successfully"'']\<close>

definition s3_env :: "string \<Rightarrow> s3_destination \<Rightarrow> env_var list" where
  "s3_env prefix_var d =
     [EnvValue ''S3_BUCKET'' (s3_Bucket d), EnvValue prefix_var (s3_Prefix d), EnvValue ''AWS_REGION'' (s3_Region d),
      EnvSecret ''AWS_ACCESS_KEY_ID'' (fst (s3_Credentials d)) ''access-key-id'' False,
      EnvSecret ''AWS_SECRET_ACCESS_KEY'' (fst (s3_Credentials d)) ''secret-access-key'' False]"

definition database_env :: "string \<Rightarrow> env_var" where
  "database_env cluster = EnvSecret ''DATABASE_URL'' (cluster @ ''-database-credentials'') ''url'' True"

definition buildBackupEnv :: "kname \<Rightarrow> backup_obj \<Rightarrow> kube_cluster \<Rightarrow> env_var list" where
  "buildBackupEnv n B C =
     (let dest = (case bk_Destination B of None \<Rightarrow> kl_Destination C | Some d \<Rightarrow> d) in
      [EnvValue ''COMPONENTS'' (joined (CHR '','') (backup_components B)), EnvValue ''CLUSTER_NAME'' (bk_ClusterRef B),
       EnvValue ''NAMESPACE'' (fst n), EnvValue ''BACKUP_TYPE'' (bk_Type B)]
      @ (case bd_S3 dest of None \<Rightarrow> [] | Some d \<Rightarrow> s3_env ''S3_PREFIX'' d)
      @ (case bd_GCS dest of None \<Rightarrow> [] | Some d \<Rightarrow> [EnvValue ''GCS_BUCKET'' (gcs_Bucket d), EnvValue ''GCS_PREFIX'' (gcs_Prefix d)])
      @ [database_env (bk_ClusterRef B)])"

definition job_labels :: "string \<Rightarrow> string \<Rightarrow> string \<Rightarrow> (string \<times> string) list" where
  "job_labels name instance_name cluster =
     [(''app.kubernetes.io/name'', name), (''app.kubernetes.io/instance'', instance_name),
      (''app.kubernetes.io/managed-by'', ''popsigner-operator''), (''popsigner.com/cluster'', cluster)]"

definition buildBackupJob :: "kname \<Rightarrow> backup_obj \<Rightarrow> kube_cluster \<Rightarrow> kube_job" where
  "buildBackupJob n B C =
     \<lparr>jb_Owner = snd n, jb_Labels = job_labels ''popsigner-backup'' (snd n) (bk_ClusterRef B), jb_Image = ''popsigner/backup:latest'',
      jb_BackoffLimit = 2, jb_Script = buildBackupScript,
      jb_Env = buildBackupEnv n B C, jb_Succeeded = 0, jb_Failed = 0\<rparr>"

definition buildComponentStatus :: "backup_obj \<Rightarrow> string \<Rightarrow> (string \<times> string) list" where
  "buildComponentStatus B status = map (\<lambda>c. (c, status)) (backup_components B)"

definition ready_condition :: "nat \<Rightarrow> string \<Rightarrow> string \<Rightarrow> string \<Rightarrow> kcondition" where
  "ready_condition now phase message complete =
     \<lparr>kc_Type = ''Ready'', kc_Status = (if phase = ''Completed'' then ''True'' else ''False''), kc_ObservedGeneration = 0,
      kc_LastTransitionTime = now, kc_Reason = phase, kc_Message = (if phase = ''Completed'' then complete else message)\<rparr>"

definition updateBackupStatus :: "faults \<Rightarrow> nat \<Rightarrow> kname \<Rightarrow> backup_obj \<Rightarrow> string \<Rightarrow> string \<Rightarrow> kube \<Rightarrow> kresult \<times> kube" where
  "updateBackupStatus F now n B phase message s =
     (let B' = B\<lparr>bk_Phase := phase,
                 bk_Conditions := put_condition (ready_condition now phase message ''Backup completed successfully'') (bk_Conditions B)\<rparr>
      in case kwrite (F StatusUpdate) (\<lambda>s. s\<lparr>kb_Backups := (kb_Backups s)(n \<mapsto> B')\<rparr>) s of
           (Some e, s') \<Rightarrow> (Failed e, s')
         | (None, s') \<Rightarrow> (if phase = ''Running'' then RequeueAfter 30 else Finished, s'))"

definition start_backup :: "faults \<Rightarrow> nat \<Rightarrow> kname \<Rightarrow> backup_obj \<Rightarrow> kube_cluster \<Rightarrow> kube \<Rightarrow> kresult \<times> kube" where
  "start_backup F now n B C s =
     (let j = job_name n ''-backup'';
          started = (\<lambda>s. updateBackupStatus F now n (B\<lparr>bk_StartedAt := Some now\<rparr>) ''Running'' '''' s)
      in case kget (F (Get KJob (snd j))) KJob (kb_Jobs s) j of
           Inr _ \<Rightarrow> started s
         | Inl e \<Rightarrow>
             if \<not> IsNotFound e then (Failed e, s)
             else (case kcreate (F (Create KJob (snd j))) KJob j (kb_Jobs s j \<noteq> None)
                          (\<lambda>s. s\<lparr>kb_Jobs := (kb_Jobs s)(j \<mapsto> buildBackupJob n B C)\<rparr>) s of
                     (Some e', s') \<Rightarrow> updateBackupStatus F now n B ''Failed'' (''Failed to create job: '' @ kerr_text e') s'
                   | (None, s') \<Rightarrow> started s'))"

definition watch_backup :: "faults \<Rightarrow> nat \<Rightarrow> kname \<Rightarrow> backup_obj \<Rightarrow> kube \<Rightarrow> kresult \<times> kube" where
  "watch_backup F now n B s =
     (let j = job_name n ''-backup'' in
      case kget (F (Get KJob (snd j))) KJob (kb_Jobs s) j of
        Inl e \<Rightarrow> (if IsNotFound e then (RequeueAfter 10, s) else (Failed e, s))
      | Inr J \<Rightarrow>
          if jb_Succeeded J > 0 then
            updateBackupStatus F now n (B\<lparr>bk_CompletedAt := Some now, bk_ComponentStatus := buildComponentStatus B ''Completed''\<rparr>)
              ''Completed'' '''' s
          else if jb_Failed J > 0 then
            updateBackupStatus F now n (B\<lparr>bk_ComponentStatus := buildComponentStatus B ''Failed''\<rparr>) ''Failed'' ''Backup job failed'' s
          else (RequeueAfter 30, s))"

definition read_error :: "kube_error \<Rightarrow> kresult" where
  "read_error e = (if IsNotFound e then Finished else Failed e)"

definition Reconcile_backup :: "faults \<Rightarrow> nat \<Rightarrow> kname \<Rightarrow> kube \<Rightarrow> kresult \<times> kube" where
  "Reconcile_backup F now n s =
     (case kget (F (Get KBackup (snd n))) KBackup (kb_Backups s) n of
        Inl e \<Rightarrow> (read_error e, s)
      | Inr B \<Rightarrow>
          if bk_Phase B = ''Completed'' \<or> bk_Phase B = ''Failed'' then (Finished, s)
          else (case kget (F (Get KCluster (bk_ClusterRef B))) KCluster (kb_Clusters s) (fst n, bk_ClusterRef B) of
                  Inl e \<Rightarrow> updateBackupStatus F now n B ''Failed'' (''Parent cluster not found: '' @ kerr_text e) s
                | Inr C \<Rightarrow>
                    if bk_Phase B = '''' \<or> bk_Phase B = ''Pending'' then start_backup F now n B C s
                    else watch_backup F now n B s))"

section \<open>Restores\<close>

definition initializeSteps :: "(string \<times> string) list" where
  "initializeSteps = [(''stop-applications'', ''Pending''), (''restore-data'', ''Pending''), (''start-applications'', ''Pending'')]"

fun updateStep :: "string \<Rightarrow> string \<Rightarrow> (string \<times> string) list \<Rightarrow> (string \<times> string) list" where
  "updateStep name status [] = []"
| "updateStep name status ((n, st) # rest) = (if n = name then (n, status) # rest else (n, st) # updateStep name status rest)"

definition app_name :: "kname \<Rightarrow> string \<Rightarrow> kname" where
  "app_name c component = (fst c, snd c @ ''-'' @ component)"

definition set_replicas :: "kname \<Rightarrow> kube_deployment \<Rightarrow> int \<Rightarrow> kube \<Rightarrow> kube" where
  "set_replicas d D r s = s\<lparr>kb_Deployments := (kb_Deployments s)(d \<mapsto> D\<lparr>kd_Replicas := r\<rparr>)\<rparr>"

definition scale_app :: "faults \<Rightarrow> kname \<Rightarrow> int \<Rightarrow> string \<Rightarrow> kube \<Rightarrow> string option \<times> kube" where
  "scale_app F d r message s =
     (case kget (F (Get KDeployment (snd d))) KDeployment (kb_Deployments s) d of
        Inl _ \<Rightarrow> (None, s)
      | Inr D \<Rightarrow>
          (case kwrite (F (Update KDeployment (snd d))) (set_replicas d D r) s of
             (Some e, s') \<Rightarrow> (Some (message @ '': '' @ kerr_text e), s')
           | (None, s') \<Rightarrow> (None, s')))"

definition scaleDownApps :: "faults \<Rightarrow> kname \<Rightarrow> kube \<Rightarrow> string option \<times> kube" where
  "scaleDownApps F c s =
     (case scale_app F (app_name c ''api'') 0 ''failed to scale down API'' s of
        (Some m, s') \<Rightarrow> (Some m, s')
      | (None, s') \<Rightarrow> scale_app F (app_name c ''dashboard'') 0 ''failed to scale down dashboard'' s')"

definition app_replicas :: "cluster_app \<Rightarrow> int" where
  "app_replicas a = (if ca_Replicas a = 0 then 2 else ca_Replicas a)"

definition scaleUpApps :: "faults \<Rightarrow> kname \<Rightarrow> kube_cluster \<Rightarrow> kube \<Rightarrow> string option \<times> kube" where
  "scaleUpApps F c C s =
     (case scale_app F (app_name c ''api'') (app_replicas (kl_API C)) ''failed to scale up API'' s of
        (Some m, s') \<Rightarrow> (Some m, s')
      | (None, s') \<Rightarrow> scale_app F (app_name c ''dashboard'') (app_replicas (kl_Dashboard C)) ''failed to scale up dashboard'' s')"

definition app_passes :: "(kube_deployment \<Rightarrow> bool) \<Rightarrow> faults \<Rightarrow> kname \<Rightarrow> kube \<Rightarrow> bool" where
  "app_passes P F d s = (case kget (F (Poll KDeployment (snd d))) KDeployment (kb_Deployments s) d of Inl _ \<Rightarrow> True | Inr D \<Rightarrow> P D)"

definition appsScaledDown :: "faults \<Rightarrow> kname \<Rightarrow> kube \<Rightarrow> bool" where
  "appsScaledDown F c s =
     (app_passes (\<lambda>D. \<not> kd_StatusReplicas D > 0) F (app_name c ''api'') s
      \<and> app_passes (\<lambda>D. \<not> kd_StatusReplicas D > 0) F (app_name c ''dashboard'') s)"

definition appsReady :: "faults \<Rightarrow> kname \<Rightarrow> kube \<Rightarrow> bool" where
  "appsReady F c s =
     (app_passes (\<lambda>D. \<not> kd_ReadyReplicas D < kd_Replicas D) F (app_name c ''api'') s
      \<and> app_passes (\<lambda>D. \<not> kd_ReadyReplicas D < kd_Replicas D) F (app_name c ''dashboard'') s)"

definition buildRestoreScript :: string where
  \<open>buildRestoreScript = unlines [
     ''#!/bin/sh'',
     ''set -e'',
     '''',
     ''echo "Starting restore process..."'',
     '''',
     ''# Restore OpenBao (Raft snapshot)'',
     ''if echo "$COMPONENTS" | grep -q "openbao"; then'',
     ''    echo "Restoring OpenBao..."'',
     ''    aws s3 cp s3://${S3_BUCKET}/${BACKUP_PATH}/openbao-*.snap /tmp/openbao.snap'',
     ''    vault operator raft snapshot restore -force /tmp/openbao.snap'',
     ''fi'',
     '''',
     ''# Restore PostgreSQL'',
     ''if echo "$COMPONENTS" | grep -q "database"; then'',
     ''    echo "Restoring PostgreSQL..."'',
     ''    aws s3 cp s3://${S3_BUCKET}/${BACKUP_PATH}/postgres-*.sql.gz /tmp/postgres.sql.gz'',
     ''    gunzip -c /tmp/postgres.sql.gz | psql $DATABASE_URL'',
     ''fi'',
     '''',
     ''echo "Restore completed successfully"'']\<close>

definition restore_components :: "restore_obj \<Rightarrow> string list" where
  "restore_components R = (if rs_Components R = [] then [''openbao'', ''database''] else rs_Components R)"

text \<open>\<open>fmt.Sprintf\<close> with \<open>%v\<close> of a list of strings: the strings between brackets, separated by blanks.\<close>

definition buildRestoreEnv :: "kname \<Rightarrow> restore_obj \<Rightarrow> kube_cluster \<Rightarrow> env_var list" where
  "buildRestoreEnv n R C =
     (let source = (case rs_Source R of None \<Rightarrow> kl_Destination C | Some d \<Rightarrow> d) in
      [EnvValue ''COMPONENTS'' (''['' @ joined (CHR '' '') (restore_components R) @ '']''), EnvValue ''CLUSTER_NAME'' (rs_ClusterRef R),
       EnvValue ''NAMESPACE'' (fst n)]
      @ (case bd_S3 source of None \<Rightarrow> [] | Some d \<Rightarrow> s3_env ''BACKUP_PATH'' d)
      @ [database_env (rs_ClusterRef R)])"

definition restore_job :: "kname \<Rightarrow> restore_obj \<Rightarrow> kube_cluster \<Rightarrow> kube_job" where
  "restore_job n R C =
     \<lparr>jb_Owner = snd n, jb_Labels = job_labels ''popsigner-restore'' (snd n) (rs_ClusterRef R), jb_Image = ''popsigner/backup:latest'',
      jb_BackoffLimit = 2, jb_Script = buildRestoreScript,
      jb_Env = buildRestoreEnv n R C, jb_Succeeded = 0, jb_Failed = 0\<rparr>"

definition runRestore :: "faults \<Rightarrow> kname \<Rightarrow> restore_obj \<Rightarrow> kube_cluster \<Rightarrow> kube \<Rightarrow> kube_error option \<times> kube" where
  "runRestore F n R C s =
     (let j = job_name n ''-restore'' in
      kcreate (F (Create KJob (snd j))) KJob j (kb_Jobs s j \<noteq> None) (\<lambda>s. s\<lparr>kb_Jobs := (kb_Jobs s)(j \<mapsto> restore_job n R C)\<rparr>) s)"

definition updateRestoreStatus :: "faults \<Rightarrow> nat \<Rightarrow> kname \<Rightarrow> restore_obj \<Rightarrow> string \<Rightarrow> string \<Rightarrow> kube \<Rightarrow> kresult \<times> kube" where
  "updateRestoreStatus F now n R phase message s =
     (let R' = R\<lparr>rs_Phase := phase,
                 rs_Conditions := put_condition (ready_condition now phase message ''Restore completed successfully'') (rs_Conditions R)\<rparr>
      in case kwrite (F StatusUpdate) (\<lambda>s. s\<lparr>kb_Restores := (kb_Restores s)(n \<mapsto> R')\<rparr>) s of
           (Some e, s') \<Rightarrow> (Failed e, s')
         | (None, s') \<Rightarrow>
             (if phase = ''Stopping'' \<or> phase = ''Restoring'' \<or> phase = ''Starting'' then RequeueAfter 10 else Finished, s'))"

definition restore_step :: "restore_obj \<Rightarrow> string \<Rightarrow> string \<Rightarrow> restore_obj" where
  "restore_step R name status = R\<lparr>rs_Steps := updateStep name status (rs_Steps R)\<rparr>"

definition begin_restore :: "faults \<Rightarrow> nat \<Rightarrow> kname \<Rightarrow> restore_obj \<Rightarrow> kube \<Rightarrow> kresult \<times> kube" where
  "begin_restore F now n R s =
     (let R1 = R\<lparr>rs_StartedAt := Some now, rs_Steps := initializeSteps\<rparr> in
      if rs_StopApplications R then
        (case scaleDownApps F (fst n, rs_ClusterRef R) s of
           (Some m, s') \<Rightarrow> updateRestoreStatus F now n R1 ''Failed'' (''Failed to stop applications: '' @ m) s'
         | (None, s') \<Rightarrow> updateRestoreStatus F now n (restore_step R1 ''stop-applications'' ''Running'') ''Stopping'' ''Scaling down applications'' s')
      else updateRestoreStatus F now n R1 ''Restoring'' ''Starting restore'' s)"

definition wait_stopped :: "faults \<Rightarrow> nat \<Rightarrow> kname \<Rightarrow> restore_obj \<Rightarrow> kube \<Rightarrow> kresult \<times> kube" where
  "wait_stopped F now n R s =
     (if appsScaledDown F (fst n, rs_ClusterRef R) s
      then updateRestoreStatus F now n (restore_step (restore_step R ''stop-applications'' ''Completed'') ''restore-data'' ''Running'')
             ''Restoring'' ''Applications stopped, restoring data'' s
      else (RequeueAfter 10, s))"

definition restore_data :: "faults \<Rightarrow> nat \<Rightarrow> kname \<Rightarrow> restore_obj \<Rightarrow> kube_cluster \<Rightarrow> kube \<Rightarrow> kresult \<times> kube" where
  "restore_data F now n R C s =
     (let j = job_name n ''-restore'' in
      case kget (F (Get KJob (snd j))) KJob (kb_Jobs s) j of
        Inl e \<Rightarrow>
          if IsNotFound e then
            (case runRestore F n R C s of
               (Some e', s') \<Rightarrow> updateRestoreStatus F now n R ''Failed'' (''Failed to create restore job: '' @ kerr_text e') s'
             | (None, s') \<Rightarrow> (RequeueAfter 10, s'))
          else (Failed e, s)
      | Inr J \<Rightarrow>
          if jb_Succeeded J > 0 then
            updateRestoreStatus F now n (restore_step (restore_step R ''restore-data'' ''Completed'') ''start-applications'' ''Running'')
              ''Starting'' ''Restore complete, starting applications'' s
          else if jb_Failed J > 0 then
            updateRestoreStatus F now n (restore_step R ''restore-data'' ''Failed'') ''Failed'' ''Restore job failed'' s
          else (RequeueAfter 30, s))"

definition restart_apps :: "faults \<Rightarrow> nat \<Rightarrow> kname \<Rightarrow> restore_obj \<Rightarrow> kube_cluster \<Rightarrow> kube \<Rightarrow> kresult \<times> kube" where
  "restart_apps F now n R C s =
     (let c = (fst n, rs_ClusterRef R) in
      case scaleUpApps F c C s of
        (Some m, s') \<Rightarrow> updateRestoreStatus F now n R ''Failed'' (''Failed to start applications: '' @ m) s'
      | (None, s') \<Rightarrow>
          if appsReady F c s'
          then updateRestoreStatus F now n ((restore_step R ''start-applications'' ''Completed'')\<lparr>rs_CompletedAt := Some now\<rparr>)
                 ''Completed'' ''Restore completed successfully'' s'
          else (RequeueAfter 10, s'))"

definition backup_refused :: "faults \<Rightarrow> kname \<Rightarrow> restore_obj \<Rightarrow> kube \<Rightarrow> string option" where
  "backup_refused F n R s =
     (case rs_BackupRef R of
        None \<Rightarrow> None
      | Some b \<Rightarrow>
          (case kget (F (Get KBackup b)) KBackup (kb_Backups s) (fst n, b) of
             Inl e \<Rightarrow> Some (''Backup not found: '' @ kerr_text e)
           | Inr B \<Rightarrow> if bk_Phase B \<noteq> ''Completed'' then Some ''Backup is not completed'' else None))"

definition Reconcile_restore :: "faults \<Rightarrow> nat \<Rightarrow> kname \<Rightarrow> kube \<Rightarrow> kresult \<times> kube" where
  "Reconcile_restore F now n s =
     (case kget (F (Get KRestore (snd n))) KRestore (kb_Restores s) n of
        Inl e \<Rightarrow> (read_error e, s)
      | Inr R \<Rightarrow>
          if rs_Phase R = ''Completed'' \<or> rs_Phase R = ''Failed'' then (Finished, s)
          else (case kget (F (Get KCluster (rs_ClusterRef R))) KCluster (kb_Clusters s) (fst n, rs_ClusterRef R) of
                  Inl e \<Rightarrow> updateRestoreStatus F now n R ''Failed'' (''Parent cluster not found: '' @ kerr_text e) s
                | Inr C \<Rightarrow>
                    (case backup_refused F n R s of
                       Some m \<Rightarrow> updateRestoreStatus F now n R ''Failed'' m s
                     | None \<Rightarrow>
                         if rs_Phase R = '''' \<or> rs_Phase R = ''Pending'' then begin_restore F now n R s
                         else if rs_Phase R = ''Stopping'' then wait_stopped F now n R s
                         else if rs_Phase R = ''Restoring'' then restore_data F now n R C s
                         else if rs_Phase R = ''Starting'' then restart_apps F now n R C s
                         else (Finished, s))))"

section \<open>The applications of a cluster\<close>

definition createOrUpdate :: "faults \<Rightarrow> kkind \<Rightarrow> kname \<Rightarrow> (kube \<Rightarrow> bool) \<Rightarrow> (kube \<Rightarrow> kube) \<Rightarrow> (kube \<Rightarrow> kube) \<Rightarrow> kube \<Rightarrow> string option \<times> kube" where
  "createOrUpdate F k n exists new change s =
     (case kcreate (F (Create k (snd n))) k n (exists s) new s of
        (None, s1) \<Rightarrow> (None, s1)
      | (Some e, s1) \<Rightarrow>
          if \<not> IsAlreadyExists e then (Some (''failed to create resource: '' @ kerr_text e), s1)
          else (case F (Get k (snd n)) of
                  Some (e', _) \<Rightarrow> (Some (''failed to get existing resource: '' @ kerr_text e'), s1)
                | None \<Rightarrow>
                    if \<not> exists s1 then (Some (''failed to get existing resource: '' @ kerr_text (NotFound k (snd n))), s1)
                    else (case kwrite (F (Update k (snd n))) change s1 of
                            (Some e'', s2) \<Rightarrow> (Some (''failed to update resource: '' @ kerr_text e''), s2)
                          | (None, s2) \<Rightarrow> (None, s2))))"

definition app_version :: "cluster_app \<Rightarrow> string" where
  "app_version a = (if ca_Version a = [] then ''1.0.0'' else ca_Version a)"

definition app_image :: "string \<Rightarrow> cluster_app \<Rightarrow> string" where
  "app_image default_image a = (if ca_Image a = [] then default_image else ca_Image a) @ '':'' @ app_version a"

definition create_deployment :: "kname \<Rightarrow> string \<Rightarrow> cluster_app \<Rightarrow> kube \<Rightarrow> kube" where
  "create_deployment d default_image a s =
     s\<lparr>kb_Deployments := (kb_Deployments s)(d \<mapsto> \<lparr>kd_Replicas = app_replicas a, kd_Image = app_image default_image a,
                                                 kd_StatusReplicas = 0, kd_ReadyReplicas = 0\<rparr>)\<rparr>"

definition change_deployment :: "kname \<Rightarrow> string \<Rightarrow> cluster_app \<Rightarrow> kube \<Rightarrow> kube" where
  "change_deployment d default_image a s =
     s\<lparr>kb_Deployments := (kb_Deployments s)(d := map_option (\<lambda>D. D\<lparr>kd_Replicas := app_replicas a, kd_Image := app_image default_image a\<rparr>)
                                                  (kb_Deployments s d))\<rparr>"

definition ensure_deployment :: "faults \<Rightarrow> kname \<Rightarrow> string \<Rightarrow> cluster_app \<Rightarrow> kube \<Rightarrow> string option \<times> kube" where
  "ensure_deployment F d default_image a =
     createOrUpdate F KDeployment d (\<lambda>s. kb_Deployments s d \<noteq> None) (create_deployment d default_image a) (change_deployment d default_image a)"

definition ensure_service :: "faults \<Rightarrow> kname \<Rightarrow> kube \<Rightarrow> string option \<times> kube" where
  "ensure_service F n =
     createOrUpdate F KService n (\<lambda>s. n \<in> kb_Services s) (\<lambda>s. s\<lparr>kb_Services := insert n (kb_Services s)\<rparr>) (\<lambda>s. s)"

definition ensure_autoscaler :: "faults \<Rightarrow> kname \<Rightarrow> kube \<Rightarrow> string option \<times> kube" where
  "ensure_autoscaler F n =
     createOrUpdate F KAutoscaler n (\<lambda>s. n \<in> kb_Autoscalers s) (\<lambda>s. s\<lparr>kb_Autoscalers := insert n (kb_Autoscalers s)\<rparr>) (\<lambda>s. s)"

text \<open>One step after the other, up to the first error, which is given its context.\<close>

type_synonym kube_step = "kube \<Rightarrow> string option \<times> kube"

fun in_order :: "(string \<times> kube_step) list \<Rightarrow> kube_step" where
  "in_order [] s = (None, s)"
| "in_order ((context, step) # steps) s =
     (case step s of (Some m, s') \<Rightarrow> (Some (context @ '': '' @ m), s') | (None, s') \<Rightarrow> in_order steps s')"

definition reconcileAPI :: "faults \<Rightarrow> kname \<Rightarrow> kube_cluster \<Rightarrow> kube_step" where
  "reconcileAPI F c C =
     (let n = app_name c ''api'' in
      in_order ([(''failed to reconcile API deployment'', ensure_deployment F n ''popsigner/control-plane'' (kl_API C)),
                 (''failed to reconcile API service'', ensure_service F n)]
                @ (if kl_Autoscaling C then [(''failed to reconcile API HPA'', ensure_autoscaler F n)] else [])))"

definition reconcileDashboard :: "faults \<Rightarrow> kname \<Rightarrow> kube_cluster \<Rightarrow> kube_step" where
  "reconcileDashboard F c C =
     (if ca_Replicas (kl_Dashboard C) = 0 then (\<lambda>s. (None, s))
      else (let n = app_name c ''dashboard'' in
            in_order [(''failed to reconcile Dashboard deployment'', ensure_deployment F n ''popsigner/dashboard'' (kl_Dashboard C)),
                      (''failed to reconcile Dashboard service'', ensure_service F n)]))"

definition remove_object :: "faults \<Rightarrow> kkind \<Rightarrow> kname \<Rightarrow> (kube \<Rightarrow> bool) \<Rightarrow> (kube \<Rightarrow> kube) \<Rightarrow> kube_step" where
  "remove_object F k n exists remove s =
     (if F (Get k (snd n)) \<noteq> None \<or> \<not> exists s then (None, s)
      else (case kwrite (F (Delete k (snd n))) remove s of
              (Some e, s') \<Rightarrow> (if IsNotFound e then None else Some (kerr_text e), s')
            | (None, s') \<Rightarrow> (None, s')))"

definition cleanupRPCGateway :: "faults \<Rightarrow> kname \<Rightarrow> kube_step" where
  "cleanupRPCGateway F c =
     (let n = app_name c ''rpc-gateway'' in
      in_order [(''failed to delete RPC Gateway HPA'', remove_object F KAutoscaler n (\<lambda>s. n \<in> kb_Autoscalers s)
                   (\<lambda>s. s\<lparr>kb_Autoscalers := kb_Autoscalers s - {n}\<rparr>)),
                (''failed to delete RPC Gateway service'', remove_object F KService n (\<lambda>s. n \<in> kb_Services s)
                   (\<lambda>s. s\<lparr>kb_Services := kb_Services s - {n}\<rparr>)),
                (''failed to delete RPC Gateway deployment'', remove_object F KDeployment n (\<lambda>s. kb_Deployments s n \<noteq> None)
                   (\<lambda>s. s\<lparr>kb_Deployments := (kb_Deployments s)(n := None)\<rparr>))])"

definition reconcileRPCGateway :: "faults \<Rightarrow> kname \<Rightarrow> kube_cluster \<Rightarrow> kube_step" where
  "reconcileRPCGateway F c C =
     (if \<not> kl_RPCEnabled C then cleanupRPCGateway F c
      else (let n = app_name c ''rpc-gateway'' in
            in_order [(''failed to reconcile RPC Gateway deployment'',
                         ensure_deployment F n ''rg.nl-ams.scw.cloud/banhbao/rpc-gateway'' (kl_RPCGateway C)),
                      (''failed to reconcile RPC Gateway service'', ensure_service F n),
                      (''failed to reconcile RPC Gateway HPA'', ensure_autoscaler F n)]))"

definition pods_text :: "kube_deployment \<Rightarrow> string" where
  "pods_text D = int_text (kd_ReadyReplicas D) @ ''/'' @ int_text (kd_Replicas D)"

text \<open>The status of one application: its record, its condition and whether its pods are ready. \<open>None\<close> is a Deployment that is not there.\<close>

definition app_status :: "cluster_app \<Rightarrow> kube_deployment option \<Rightarrow> component_status" where
  "app_status a Do =
     (case Do of None \<Rightarrow> no_status\<lparr>cs_Message := ''Deployment not found''\<rparr>
      | Some D \<Rightarrow> no_status\<lparr>cs_Ready := (kd_ReadyReplicas D \<ge> kd_Replicas D), cs_Version := app_version a, cs_Replicas := pods_text D\<rparr>)"

definition app_condition :: "nat \<Rightarrow> string \<Rightarrow> string \<Rightarrow> kube_deployment option \<Rightarrow> kcondition list \<Rightarrow> kcondition list" where
  "app_condition now t title Do cs =
     (case Do of None \<Rightarrow> cs
      | Some D \<Rightarrow>
          if kd_ReadyReplicas D \<ge> kd_Replicas D then set_condition now t ''True'' ''Ready'' (title @ '' is ready'') cs
          else set_condition now t ''False'' ''NotReady'' (''Waiting for '' @ title @ '' pods: '' @ pods_text D @ '' ready'') cs)"

definition app_endpoint :: "string \<Rightarrow> string \<Rightarrow> kube_deployment option \<Rightarrow> string \<Rightarrow> string" where
  "app_endpoint host domain Do old =
     (case Do of None \<Rightarrow> old
      | Some D \<Rightarrow> if kd_ReadyReplicas D \<ge> kd_Replicas D \<and> domain \<noteq> [] then ''https://'' @ host @ ''.'' @ domain else old)"

text \<open>Reading the Deployment of a status: an object that is not there is no error.\<close>

definition look_up_app :: "faults \<Rightarrow> kname \<Rightarrow> kube \<Rightarrow> string + kube_deployment option" where
  "look_up_app F d s =
     (case kget (F (Poll KDeployment (snd d))) KDeployment (kb_Deployments s) d of
        Inl e \<Rightarrow> (if IsNotFound e then Inr None else Inl (kerr_text e))
      | Inr D \<Rightarrow> Inr (Some D))"

definition updateAPIStatus :: "faults \<Rightarrow> nat \<Rightarrow> kname \<Rightarrow> kube \<Rightarrow> kube_cluster \<Rightarrow> string + kube_cluster" where
  "updateAPIStatus F now c s C =
     (case look_up_app F (app_name c ''api'') s of
        Inl m \<Rightarrow> Inl m
      | Inr D \<Rightarrow> Inr (C\<lparr>kl_StatusAPI := app_status (kl_API C) D,
                       kl_Conditions := app_condition now ''APIReady'' ''API'' D (kl_Conditions C),
                       kl_EndpointAPI := app_endpoint ''api'' (kl_Domain C) D (kl_EndpointAPI C)\<rparr>))"

definition updateDashboardStatus :: "faults \<Rightarrow> nat \<Rightarrow> kname \<Rightarrow> kube \<Rightarrow> kube_cluster \<Rightarrow> string + kube_cluster" where
  "updateDashboardStatus F now c s C =
     (if ca_Replicas (kl_Dashboard C) = 0 then
        Inr (C\<lparr>kl_StatusDashboard := no_status\<lparr>cs_Ready := True, cs_Message := ''Integrated into control-plane''\<rparr>,
               kl_Conditions := set_condition now ''DashboardReady'' ''True'' ''Ready'' ''Dashboard is served by control-plane'' (kl_Conditions C),
               kl_EndpointDashboard := (if kl_Domain C \<noteq> [] then ''https://api.'' @ kl_Domain C else kl_EndpointDashboard C)\<rparr>)
      else (case look_up_app F (app_name c ''dashboard'') s of
              Inl m \<Rightarrow> Inl m
            | Inr D \<Rightarrow> Inr (C\<lparr>kl_StatusDashboard := app_status (kl_Dashboard C) D,
                             kl_Conditions := app_condition now ''DashboardReady'' ''Dashboard'' D (kl_Conditions C),
                             kl_EndpointDashboard := app_endpoint ''dashboard'' (kl_Domain C) D (kl_EndpointDashboard C)\<rparr>)))"

definition updateRPCGatewayStatus :: "faults \<Rightarrow> nat \<Rightarrow> kname \<Rightarrow> kube \<Rightarrow> kube_cluster \<Rightarrow> string + kube_cluster" where
  "updateRPCGatewayStatus F now c s C =
     (if \<not> kl_RPCEnabled C then
        Inr (C\<lparr>kl_StatusRPCGateway := no_status\<lparr>cs_Ready := True, cs_Message := ''Disabled''\<rparr>,
               kl_Conditions := set_condition now ''RPCGatewayReady'' ''True'' ''Disabled'' ''RPC Gateway is disabled'' (kl_Conditions C)\<rparr>)
      else (case look_up_app F (app_name c ''rpc-gateway'') s of
              Inl m \<Rightarrow> Inl m
            | Inr D \<Rightarrow> Inr (C\<lparr>kl_StatusRPCGateway := app_status (kl_RPCGateway C) D,
                             kl_Conditions := app_condition now ''RPCGatewayReady'' ''RPC Gateway'' D (kl_Conditions C),
                             kl_EndpointRPCGateway := app_endpoint ''rpc'' (kl_Domain C) D (kl_EndpointRPCGateway C)\<rparr>)))"

definition updateAppsStatus :: "faults \<Rightarrow> nat \<Rightarrow> kname \<Rightarrow> kube \<Rightarrow> kube_cluster \<Rightarrow> string + kube_cluster" where
  "updateAppsStatus F now c s C =
     (case updateAPIStatus F now c s C of
        Inl m \<Rightarrow> Inl (''failed to update API status: '' @ m)
      | Inr C1 \<Rightarrow>
          (case updateDashboardStatus F now c s C1 of
             Inl m \<Rightarrow> Inl (''failed to update Dashboard status: '' @ m)
           | Inr C2 \<Rightarrow>
               (case updateRPCGatewayStatus F now c s C2 of
                  Inl m \<Rightarrow> Inl (''failed to update RPC Gateway status: '' @ m)
                | Inr C3 \<Rightarrow> Inr C3)))"

text \<open>The application phase of the reconcile of a cluster, which runs again after 30 seconds, to the end with the
  write of the status. The phases before it and the monitoring after it are left out.\<close>

definition reconcile_apps :: "faults \<Rightarrow> nat \<Rightarrow> kname \<Rightarrow> kube \<Rightarrow> kresult \<times> kube" where
  "reconcile_apps F now c s =
     (case kget (F (Get KCluster (snd c))) KCluster (kb_Clusters s) c of
        Inl e \<Rightarrow> (read_error e, s)
      | Inr C \<Rightarrow>
          (case reconcileAPI F c C s of
             (Some m, s1) \<Rightarrow> (Failed (ApiError m), s1)
           | (None, s1) \<Rightarrow>
               (case reconcileDashboard F c C s1 of
                  (Some m, s2) \<Rightarrow> (Failed (ApiError m), s2)
                | (None, s2) \<Rightarrow>
                    (case reconcileRPCGateway F c C s2 of
                       (Some m, s3) \<Rightarrow> (Failed (ApiError m), s3)
                     | (None, s3) \<Rightarrow>
                         (case updateAppsStatus F now c s3 C of
                            Inl m \<Rightarrow> (Failed (ApiError m), s3)
                          | Inr C' \<Rightarrow>
                              (case kwrite (F StatusUpdate) (\<lambda>s. s\<lparr>kb_Clusters := (kb_Clusters s)(c \<mapsto> C')\<rparr>) s3 of
                                 (Some e, s4) \<Rightarrow> (Failed e, s4)
                               | (None, s4) \<Rightarrow> (RequeueAfter 30, s4)))))))"

end
