(* ===== verification/OperatorRuns.thy ===== *)
theory OperatorRuns
  imports Restores
begin

text \<open>
  Runs of the controllers of backups, restores and clusters, in any order and with any errors of the API server,
  beside the pods and the Jobs they start: what a restore relies on, and what it leaves behind.
\<close>

section \<open>Runs\<close>

text \<open>
  The controllers run in any order, each with its own faults, beside the pods of the Deployments and the counts
  of the Jobs. Documented behaviour of the system's own controllers: a Deployment that asks for no pods never
  gains one, and the counts of a Job only grow.
\<close>

datatype kevent =
    RestoreRun kname faults nat
  | BackupRun kname faults nat
  | AppsRun kname faults nat
  | PodsMove kname int int
  | JobMoves kname int int

definition move_pods :: "kname \<Rightarrow> int \<Rightarrow> int \<Rightarrow> kube \<Rightarrow> kube" where
  "move_pods d pods ready s =
     (case kb_Deployments s d of None \<Rightarrow> s
      | Some D \<Rightarrow> if pods \<le> kd_StatusReplicas D \<or> kd_Replicas D > 0
                 then s\<lparr>kb_Deployments := (kb_Deployments s)(d \<mapsto> D\<lparr>kd_StatusReplicas := pods, kd_ReadyReplicas := ready\<rparr>)\<rparr> else s)"

definition move_job :: "kname \<Rightarrow> int \<Rightarrow> int \<Rightarrow> kube \<Rightarrow> kube" where
  "move_job j succeeded failed s =
     (case kb_Jobs s j of None \<Rightarrow> s
      | Some J \<Rightarrow> if jb_Succeeded J \<le> succeeded \<and> jb_Failed J \<le> failed
                 then s\<lparr>kb_Jobs := (kb_Jobs s)(j \<mapsto> J\<lparr>jb_Succeeded := succeeded, jb_Failed := failed\<rparr>)\<rparr> else s)"

fun kube_event :: "kevent \<Rightarrow> kube \<Rightarrow> kube" where
  "kube_event (RestoreRun n F now) s = snd (Reconcile_restore F now n s)"
| "kube_event (BackupRun n F now) s = snd (Reconcile_backup F now n s)"
| "kube_event (AppsRun c F now) s = snd (reconcile_apps F now c s)"
| "kube_event (PodsMove d pods ready) s = move_pods d pods ready s"
| "kube_event (JobMoves j succeeded failed) s = move_job j succeeded failed s"

fun kube_run :: "kevent list \<Rightarrow> kube \<Rightarrow> kube" where
  "kube_run [] s = s"
| "kube_run (e # es) s = kube_run es (kube_event e s)"

section \<open>What a reconcile changes\<close>

definition same_restore :: "restore_obj \<Rightarrow> restore_obj \<Rightarrow> bool" where
  "same_restore R R' \<longleftrightarrow> rs_ClusterRef R' = rs_ClusterRef R \<and> rs_BackupRef R' = rs_BackupRef R \<and> rs_Source R' = rs_Source R
     \<and> rs_Components R' = rs_Components R \<and> rs_StopApplications R' = rs_StopApplications R"

definition app_of :: "kname \<Rightarrow> kname \<Rightarrow> bool" where
  "app_of c d \<longleftrightarrow> d = app_name c ''api'' \<or> d = app_name c ''dashboard''"

text \<open>What the reconcile of the restore \<open>n\<close> of the cluster \<open>c\<close> leaves as it is.\<close>

definition restore_touches :: "kname \<Rightarrow> kname \<Rightarrow> kube \<Rightarrow> kube \<Rightarrow> bool" where
  "restore_touches n c s s' \<longleftrightarrow>
     kb_Clusters s' = kb_Clusters s \<and> kb_Backups s' = kb_Backups s
     \<and> (\<forall>m. m \<noteq> n \<longrightarrow> kb_Restores s' m = kb_Restores s m)
     \<and> (\<forall>j. j \<noteq> job_name n ''-restore'' \<longrightarrow> kb_Jobs s' j = kb_Jobs s j)
     \<and> (kb_Jobs s (job_name n ''-restore'') \<noteq> None \<longrightarrow> kb_Jobs s' (job_name n ''-restore'') = kb_Jobs s (job_name n ''-restore''))
     \<and> (\<forall>d. \<not> app_of c d \<longrightarrow> kb_Deployments s' d = kb_Deployments s d)
     \<and> (\<forall>d. map_option kd_StatusReplicas (kb_Deployments s' d) = map_option kd_StatusReplicas (kb_Deployments s d))"

named_theorems touching

lemma touchesD:
  assumes "restore_touches n c s s'"
  shows "m \<noteq> n \<Longrightarrow> kb_Restores s' m = kb_Restores s m" "j \<noteq> job_name n ''-restore'' \<Longrightarrow> kb_Jobs s' j = kb_Jobs s j"
    "kb_Jobs s j \<noteq> None \<Longrightarrow> kb_Jobs s' j = kb_Jobs s j" "\<not> app_of c d \<Longrightarrow> kb_Deployments s' d = kb_Deployments s d"
    "kb_Backups s' = kb_Backups s"
    "map_option kd_StatusReplicas (kb_Deployments s' d) = map_option kd_StatusReplicas (kb_Deployments s d)"
proof -
  show j: "j \<noteq> job_name n ''-restore'' \<Longrightarrow> kb_Jobs s' j = kb_Jobs s j" for j
    using assms by (simp add: restore_touches_def del: split_paired_All)
  show "kb_Jobs s j \<noteq> None \<Longrightarrow> kb_Jobs s' j = kb_Jobs s j"
    by (cases "j = job_name n ''-restore''") (use assms j [of j] in \<open>simp_all add: restore_touches_def del: split_paired_All\<close>)
qed (use assms in \<open>simp_all add: restore_touches_def del: split_paired_All\<close>)

lemma touches_refl [touching]: "restore_touches n c s s"
  by (simp add: restore_touches_def)

lemma touches_trans: "restore_touches n c s s1 \<Longrightarrow> restore_touches n c s1 s2 \<Longrightarrow> restore_touches n c s s2"
  unfolding restore_touches_def by (intro conjI allI impI; simp del: split_paired_All)

lemma touches_status [touching]: "restore_touches n c s (s\<lparr>kb_Restores := (kb_Restores s)(n \<mapsto> R)\<rparr>)"
  by (simp add: restore_touches_def)

lemma scale_app_effect:
  "snd (scale_app F d k m s) = s
   \<or> (\<exists>D. kb_Deployments s d = Some D \<and> snd (scale_app F d k m s) = set_replicas d D k s)"
  using kwrite_cases [of "F (Update KDeployment (snd d))" "set_replicas d D k" s for D]
  by (auto simp: scale_app_def kget_def kwrite_def split: option.splits sum.splits prod.splits)

lemma touches_scale [touching]: "app_of c d \<Longrightarrow> restore_touches n c s (snd (scale_app F d k m s))"
  using scale_app_effect [of F d k m s] by (auto simp: restore_touches_def set_replicas_def)

lemma in_two:
  "(case f s of (Some m, s') \<Rightarrow> (Some m, s') | (None, s') \<Rightarrow> g s') = (if fst (f s) \<noteq> None then f s else g (snd (f s)))"
  by (auto split: prod.splits option.splits)

lemma touches_scaleDown [touching]: "restore_touches n c s (snd (scaleDownApps F c s))"
  unfolding scaleDownApps_def in_two
  by (simp add: touches_scale app_of_def touches_trans [OF touches_scale touches_scale])

lemma touches_scaleUp [touching]: "restore_touches n c s (snd (scaleUpApps F c C s))"
  unfolding scaleUpApps_def in_two
  by (simp add: touches_scale app_of_def touches_trans [OF touches_scale touches_scale])

lemma status_effect:
  "snd (updateRestoreStatus F now n R phase message s) = s
   \<or> (\<exists>cs. snd (updateRestoreStatus F now n R phase message s)
          = s\<lparr>kb_Restores := (kb_Restores s)(n \<mapsto> R\<lparr>rs_Phase := phase, rs_Conditions := cs\<rparr>)\<rparr>)"
  by (auto simp: updateRestoreStatus_def Let_def kwrite_def split: option.splits prod.splits)

lemma touches_updateStatus [touching]: "restore_touches n c s (snd (updateRestoreStatus F now n R phase message s))"
  using status_effect [of F now n R phase message s] touches_status touches_refl by metis

abbreviation put_restore :: "kname \<Rightarrow> restore_obj \<Rightarrow> kube \<Rightarrow> kube" where
  "put_restore n R s \<equiv> s\<lparr>kb_Restores := (kb_Restores s)(n \<mapsto> R)\<rparr>"

text \<open>A write of the status leaves the old object or one with the new phase, which answers the same request.\<close>

lemma status_outcome:
  assumes "kb_Restores s n = Some R" "same_restore R R1"
  shows "\<exists>R'. snd (updateRestoreStatus F now n R1 phase message s) = put_restore n R' s \<and> same_restore R R' \<and> (R' = R \<or> rs_Phase R' = phase)"
  using status_effect [of F now n R1 phase message s]
proof
  assume "snd (updateRestoreStatus F now n R1 phase message s) = s"
  then show ?thesis using assms(1) by (intro exI [of _ R]) (simp add: same_restore_def map_upd_triv)
next
  assume "\<exists>cs. snd (updateRestoreStatus F now n R1 phase message s) = put_restore n (R1\<lparr>rs_Phase := phase, rs_Conditions := cs\<rparr>) s"
  then obtain cs where "snd (updateRestoreStatus F now n R1 phase message s) = put_restore n (R1\<lparr>rs_Phase := phase, rs_Conditions := cs\<rparr>) s"
    by blast
  then show ?thesis using assms(2) by (intro exI [of _ "R1\<lparr>rs_Phase := phase, rs_Conditions := cs\<rparr>"]) (simp add: same_restore_def)
qed

lemma scale_app_keeps: "kb_Jobs (snd (scale_app F d k m s)) = kb_Jobs s \<and> kb_Restores (snd (scale_app F d k m s)) = kb_Restores s"
  using scale_app_effect [of F d k m s] by (auto simp: set_replicas_def)

lemma scaleDown_keeps [simp]:
  "kb_Jobs (snd (scaleDownApps F c s)) = kb_Jobs s" "kb_Restores (snd (scaleDownApps F c s)) = kb_Restores s"
  unfolding scaleDownApps_def in_two by (simp_all add: scale_app_keeps)

lemma scaleUp_keeps [simp]:
  "kb_Jobs (snd (scaleUpApps F c C s)) = kb_Jobs s" "kb_Restores (snd (scaleUpApps F c C s)) = kb_Restores s"
  unfolding scaleUpApps_def in_two by (simp_all add: scale_app_keeps)

text \<open>The outcome of a reconcile: the objects it leaves, but for the status of the restore, and what is then in the status.\<close>

lemma begin_outcome:
  assumes "kb_Restores s n = Some R"
  shows "\<exists>R' s1. snd (begin_restore F now n R s) = put_restore n R' s1 \<and> same_restore R R'
    \<and> s1 = (if rs_StopApplications R then snd (scaleDownApps F (fst n, rs_ClusterRef R) s) else s)
    \<and> (R' = R \<or> rs_StopApplications R \<and> rs_Phase R' = ''Failed''
       \<or> rs_StopApplications R \<and> rs_Phase R' = ''Stopping'' \<and> fst (scaleDownApps F (fst n, rs_ClusterRef R) s) = None
       \<or> \<not> rs_StopApplications R \<and> rs_Phase R' = ''Restoring'')"
proof -
  let ?R1 = "R\<lparr>rs_StartedAt := Some now, rs_Steps := initializeSteps\<rparr>" and ?c = "(fst n, rs_ClusterRef R)"
  have q: "same_restore R ?R1" "same_restore R (restore_step ?R1 a b)" for a b by (simp_all add: same_restore_def restore_step_def)
  obtain mo s1 where d: "scaleDownApps F ?c s = (mo, s1)" by force
  then have r: "kb_Restores s1 n = Some R" using assms scaleDown_keeps(2) [of F ?c s] by simp
  consider (direct) "\<not> rs_StopApplications R" | (failed) m where "rs_StopApplications R" "mo = Some m" | (stopping) "rs_StopApplications R" "mo = None"
    by blast
  then show ?thesis
  proof cases
    case direct
    then have e: "begin_restore F now n R s = updateRestoreStatus F now n ?R1 ''Restoring'' ''Starting restore'' s"
      by (simp add: begin_restore_def)
    show ?thesis unfolding e using status_outcome [OF assms q(1)] direct by (simp only: if_False) blast
  next
    case failed
    then have e: "begin_restore F now n R s = updateRestoreStatus F now n ?R1 ''Failed'' (''Failed to stop applications: '' @ m) s1"
      by (simp add: begin_restore_def d)
    show ?thesis unfolding e using status_outcome [OF r q(1)] failed by (simp only: d snd_conv if_True) blast
  next
    case stopping
    then have e: "begin_restore F now n R s
        = updateRestoreStatus F now n (restore_step ?R1 ''stop-applications'' ''Running'') ''Stopping'' ''Scaling down applications'' s1"
      by (simp add: begin_restore_def d)
    show ?thesis unfolding e using status_outcome [OF r q(2)] stopping by (simp only: d fst_conv snd_conv if_True) blast
  qed
qed

lemma wait_outcome:
  assumes "kb_Restores s n = Some R"
  shows "\<exists>R'. snd (wait_stopped F now n R s) = put_restore n R' s \<and> same_restore R R'
    \<and> (R' = R \<or> rs_Phase R' = ''Restoring'' \<and> appsScaledDown F (fst n, rs_ClusterRef R) s)"
proof (cases "appsScaledDown F (fst n, rs_ClusterRef R) s")
  case True
  let ?R1 = "restore_step (restore_step R ''stop-applications'' ''Completed'') ''restore-data'' ''Running''"
  have q: "same_restore R ?R1" by (simp add: same_restore_def restore_step_def)
  have e: "wait_stopped F now n R s = updateRestoreStatus F now n ?R1 ''Restoring'' ''Applications stopped, restoring data'' s"
    using True by (simp add: wait_stopped_def)
  show ?thesis unfolding e using status_outcome [OF assms q] True by blast
next
  case False
  with assms show ?thesis by (intro exI [of _ R]) (simp add: wait_stopped_def same_restore_def map_upd_triv)
qed

lemma data_outcome:
  fixes n :: kname and s :: kube
  assumes "kb_Restores s n = Some R"
  defines "j \<equiv> job_name n ''-restore''"
  shows "\<exists>R' s1. snd (restore_data F now n R C s) = put_restore n R' s1 \<and> same_restore R R'
    \<and> (s1 = s \<or> kb_Jobs s j = None \<and> s1 = s\<lparr>kb_Jobs := (kb_Jobs s)(j \<mapsto> restore_job n R C)\<rparr>)
    \<and> (R' = R \<or> rs_Phase R' = ''Failed'' \<or> rs_Phase R' = ''Starting'' \<and> s1 = s \<and> (\<exists>J. kb_Jobs s j = Some J \<and> jb_Succeeded J > 0))"
proof (cases "kget (F (Get KJob (snd j))) KJob (kb_Jobs s) j")
  case (Inl e)
  obtain eo s1 where r: "runRestore F n R C s = (eo, s1)" by force
  then have s1: "s1 = s \<or> kb_Jobs s j = None \<and> s1 = s\<lparr>kb_Jobs := (kb_Jobs s)(j \<mapsto> restore_job n R C)\<rparr>"
    using kcreate_cases [of "F (Create KJob (snd j))" KJob j "kb_Jobs s j \<noteq> None" "\<lambda>s. s\<lparr>kb_Jobs := (kb_Jobs s)(j \<mapsto> restore_job n R C)\<rparr>" s]
    by (auto simp: runRestore_def Let_def j_def)
  then have r1: "kb_Restores s1 n = Some R" using assms(1) by auto
  have q: "same_restore R R" by (simp add: same_restore_def)
  consider "\<not> IsNotFound e" | "IsNotFound e" "eo = None" | e' where "IsNotFound e" "eo = Some e'" by blast
  then show ?thesis
  proof cases
    case 1
    then have x: "restore_data F now n R C s = (Failed e, s)" using Inl by (simp add: restore_data_def Let_def j_def)
    show ?thesis unfolding x using assms(1) q by (intro exI [of _ R] exI [of _ s]) (simp add: map_upd_triv)
  next
    case 2
    then have x: "restore_data F now n R C s = (RequeueAfter 10, s1)" using Inl r by (simp add: restore_data_def Let_def j_def)
    show ?thesis unfolding x using r1 q s1 by (intro exI [of _ R] exI [of _ s1]) (simp add: map_upd_triv)
  next
    case 3
    then have x: "restore_data F now n R C s
        = updateRestoreStatus F now n R ''Failed'' (''Failed to create restore job: '' @ kerr_text e') s1"
      using Inl r by (simp add: restore_data_def Let_def j_def)
    show ?thesis unfolding x using status_outcome [OF r1 q] s1 by blast
  qed
next
  case (Inr J)
  then have J: "kb_Jobs s j = Some J" by (simp add: kget_Inr)
  let ?R1 = "restore_step (restore_step R ''restore-data'' ''Completed'') ''start-applications'' ''Running''"
  let ?R2 = "restore_step R ''restore-data'' ''Failed''"
  have q: "same_restore R ?R1" "same_restore R ?R2" "same_restore R R" by (simp_all add: same_restore_def restore_step_def)
  consider (succeeded) "jb_Succeeded J > 0" | (failed) "\<not> jb_Succeeded J > 0" "jb_Failed J > 0" | (active) "\<not> jb_Succeeded J > 0" "\<not> jb_Failed J > 0" by blast
  then show ?thesis
  proof cases
    case succeeded
    then have x: "restore_data F now n R C s = updateRestoreStatus F now n ?R1 ''Starting'' ''Restore complete, starting applications'' s"
      using Inr by (simp add: restore_data_def Let_def j_def)
    show ?thesis unfolding x using status_outcome [OF assms(1) q(1)] J succeeded by blast
  next
    case failed
    then have x: "restore_data F now n R C s = updateRestoreStatus F now n ?R2 ''Failed'' ''Restore job failed'' s"
      using Inr by (simp add: restore_data_def Let_def j_def)
    show ?thesis unfolding x using status_outcome [OF assms(1) q(2)] by blast
  next
    case active
    then have x: "restore_data F now n R C s = (RequeueAfter 30, s)" using Inr by (simp add: restore_data_def Let_def j_def)
    show ?thesis unfolding x using assms(1) q(3) by (intro exI [of _ R] exI [of _ s]) (simp add: map_upd_triv)
  qed
qed

lemma restart_outcome:
  assumes "kb_Restores s n = Some R"
  shows "\<exists>R'. snd (restart_apps F now n R C s) = put_restore n R' (snd (scaleUpApps F (fst n, rs_ClusterRef R) C s)) \<and> same_restore R R'
    \<and> (R' = R \<or> rs_Phase R' = ''Failed'' \<or> rs_Phase R' = ''Completed'')"
proof -
  let ?c = "(fst n, rs_ClusterRef R)" and ?R1 = "(restore_step R ''start-applications'' ''Completed'')\<lparr>rs_CompletedAt := Some now\<rparr>"
  have q: "same_restore R R" "same_restore R ?R1" by (simp_all add: same_restore_def restore_step_def)
  obtain mo s1 where d: "scaleUpApps F ?c C s = (mo, s1)" by force
  then have r: "kb_Restores s1 n = Some R" using assms scaleUp_keeps(2) [of F ?c C s] by simp
  consider (failed) m where "mo = Some m" | (ready) "mo = None" "appsReady F ?c s1" | (waiting) "mo = None" "\<not> appsReady F ?c s1" by blast
  then show ?thesis
  proof cases
    case failed
    then have x: "restart_apps F now n R C s = updateRestoreStatus F now n R ''Failed'' (''Failed to start applications: '' @ m) s1"
      by (simp add: restart_apps_def d)
    show ?thesis unfolding x d snd_conv using status_outcome [OF r q(1)] by blast
  next
    case ready
    then have x: "restart_apps F now n R C s = updateRestoreStatus F now n ?R1 ''Completed'' ''Restore completed successfully'' s1"
      by (simp add: restart_apps_def d)
    show ?thesis unfolding x d snd_conv using status_outcome [OF r q(2)] by blast
  next
    case waiting
    then have x: "restart_apps F now n R C s = (RequeueAfter 10, s1)" by (simp add: restart_apps_def d)
    show ?thesis unfolding x d snd_conv using r q(1) by (intro exI [of _ R]) (simp add: map_upd_triv)
  qed
qed

text \<open>
  The moves of a restore: from the object and the state it is read in to the object and the state it leaves. The
  moves after the checks are made only when the backup was not refused.
\<close>

definition over :: "restore_obj \<Rightarrow> bool" where
  "over R \<longleftrightarrow> rs_Phase R = ''Completed'' \<or> rs_Phase R = ''Failed''"

definition fresh :: "restore_obj \<Rightarrow> bool" where
  "fresh R \<longleftrightarrow> rs_Phase R = '''' \<or> rs_Phase R = ''Pending''"

inductive restore_move :: "faults \<Rightarrow> kname \<Rightarrow> restore_obj \<Rightarrow> kube \<Rightarrow> restore_obj \<Rightarrow> kube \<Rightarrow> bool" for F n R s where
  stays: "restore_move F n R s R s"
| fails: "\<not> over R \<Longrightarrow> rs_Phase R' = ''Failed'' \<Longrightarrow> restore_move F n R s R' s"
| stops: "fresh R \<Longrightarrow> rs_StopApplications R \<Longrightarrow> backup_refused F n R s = None \<Longrightarrow>
    R' = R \<or> rs_Phase R' = ''Failed'' \<or> rs_Phase R' = ''Stopping'' \<and> fst (scaleDownApps F (fst n, rs_ClusterRef R) s) = None \<Longrightarrow>
    restore_move F n R s R' (snd (scaleDownApps F (fst n, rs_ClusterRef R) s))"
| skips: "fresh R \<Longrightarrow> \<not> rs_StopApplications R \<Longrightarrow> backup_refused F n R s = None \<Longrightarrow> rs_Phase R' = ''Restoring'' \<Longrightarrow>
    restore_move F n R s R' s"
| stopped: "rs_Phase R = ''Stopping'' \<Longrightarrow> backup_refused F n R s = None \<Longrightarrow> rs_Phase R' = ''Restoring'' \<Longrightarrow>
    appsScaledDown F (fst n, rs_ClusterRef R) s \<Longrightarrow> restore_move F n R s R' s"
| starts_job: "rs_Phase R = ''Restoring'' \<Longrightarrow> backup_refused F n R s = None \<Longrightarrow> kb_Jobs s (job_name n ''-restore'') = None \<Longrightarrow>
    R' = R \<or> rs_Phase R' = ''Failed'' \<Longrightarrow>
    restore_move F n R s R' (s\<lparr>kb_Jobs := (kb_Jobs s)(job_name n ''-restore'' \<mapsto> restore_job n R C)\<rparr>)"
| restored: "rs_Phase R = ''Restoring'' \<Longrightarrow> backup_refused F n R s = None \<Longrightarrow> kb_Jobs s (job_name n ''-restore'') = Some J \<Longrightarrow>
    jb_Succeeded J > 0 \<Longrightarrow> rs_Phase R' = ''Starting'' \<Longrightarrow> restore_move F n R s R' s"
| restarts: "rs_Phase R = ''Starting'' \<Longrightarrow> backup_refused F n R s = None \<Longrightarrow>
    R' = R \<or> rs_Phase R' = ''Failed'' \<or> rs_Phase R' = ''Completed'' \<Longrightarrow>
    restore_move F n R s R' (snd (scaleUpApps F (fst n, rs_ClusterRef R) C s))"

inductive_cases restore_moveE: "restore_move F n R s R' s1"

lemma phase_moves:
  assumes "kb_Restores s n = Some R" "backup_refused F n R s = None"
    "kget (F (Get KRestore (snd n))) KRestore (kb_Restores s) n = Inr R"
    "kget (F (Get KCluster (rs_ClusterRef R))) KCluster (kb_Clusters s) (fst n, rs_ClusterRef R) = Inr C" "\<not> over R"
  shows "\<exists>R' s1. snd (Reconcile_restore F now n s) = put_restore n R' s1 \<and> same_restore R R' \<and> restore_move F n R s R' s1"
proof -
  let ?P = "rs_Phase R"
  have e: "Reconcile_restore F now n s =
      (if fresh R then begin_restore F now n R s else if ?P = ''Stopping'' then wait_stopped F now n R s
       else if ?P = ''Restoring'' then restore_data F now n R C s
       else if ?P = ''Starting'' then restart_apps F now n R C s else (Finished, s))"
    using assms(2-5) by (simp add: Reconcile_restore_def over_def fresh_def)
  consider "fresh R" | "\<not> fresh R" "?P = ''Stopping''" | "\<not> fresh R" "?P = ''Restoring''" | "\<not> fresh R" "?P = ''Starting''"
    | "\<not> fresh R" "?P \<noteq> ''Stopping''" "?P \<noteq> ''Restoring''" "?P \<noteq> ''Starting''" by blast
  then show ?thesis
  proof cases
    case 1
    obtain R' s1 where o: "snd (begin_restore F now n R s) = put_restore n R' s1" "same_restore R R'"
      "s1 = (if rs_StopApplications R then snd (scaleDownApps F (fst n, rs_ClusterRef R) s) else s)"
      "R' = R \<or> rs_StopApplications R \<and> rs_Phase R' = ''Failed''
       \<or> rs_StopApplications R \<and> rs_Phase R' = ''Stopping'' \<and> fst (scaleDownApps F (fst n, rs_ClusterRef R) s) = None
       \<or> \<not> rs_StopApplications R \<and> rs_Phase R' = ''Restoring''"
      using begin_outcome [OF assms(1), of F now] by blast
    have "restore_move F n R s R' s1"
    proof (cases "rs_StopApplications R")
      case True
      with o(3,4) show ?thesis using stops [OF 1 True assms(2)] by auto
    next
      case False
      with o(3,4) show ?thesis using skips [OF 1 False assms(2)] stays [of F n R s] by auto
    qed
    with 1 o(1,2) show ?thesis by (intro exI [of _ R'] exI [of _ s1]) (simp add: e)
  next
    case 2
    obtain R' where o: "snd (wait_stopped F now n R s) = put_restore n R' s" "same_restore R R'"
      "R' = R \<or> rs_Phase R' = ''Restoring'' \<and> appsScaledDown F (fst n, rs_ClusterRef R) s"
      using wait_outcome [OF assms(1), of F now] by blast
    with stopped [OF 2(2) assms(2)] stays have "restore_move F n R s R' s" by blast
    with 2 o(1,2) show ?thesis by (intro exI [of _ R'] exI [of _ s]) (simp add: e)
  next
    case 3
    obtain R' s1 where o: "snd (restore_data F now n R C s) = put_restore n R' s1" "same_restore R R'"
      "s1 = s \<or> kb_Jobs s (job_name n ''-restore'') = None \<and> s1 = s\<lparr>kb_Jobs := (kb_Jobs s)(job_name n ''-restore'' \<mapsto> restore_job n R C)\<rparr>"
      "R' = R \<or> rs_Phase R' = ''Failed'' \<or> rs_Phase R' = ''Starting'' \<and> s1 = s
        \<and> (\<exists>J. kb_Jobs s (job_name n ''-restore'') = Some J \<and> jb_Succeeded J > 0)"
      using data_outcome [OF assms(1), of F now C] by blast
    have "restore_move F n R s R' s1"
      using o(3,4) starts_job [OF 3(2) assms(2)] restored [OF 3(2) assms(2)] fails [OF assms(5)] stays by metis
    with 3 o(1,2) show ?thesis by (intro exI [of _ R'] exI [of _ s1]) (simp add: e)
  next
    case 4
    obtain R' where o: "snd (restart_apps F now n R C s) = put_restore n R' (snd (scaleUpApps F (fst n, rs_ClusterRef R) C s))"
      "same_restore R R'" "R' = R \<or> rs_Phase R' = ''Failed'' \<or> rs_Phase R' = ''Completed''"
      using restart_outcome [OF assms(1), of F now C] by blast
    from restarts [OF 4(2) assms(2) o(3)] 4 o(1,2) show ?thesis
      by (intro exI [of _ R'] exI [of _ "snd (scaleUpApps F (fst n, rs_ClusterRef R) C s)"]) (simp add: e)
  next
    case 5
    with assms(1) show ?thesis unfolding e using stays
      by (intro exI [of _ R] exI [of _ s]) (simp add: map_upd_triv same_restore_def)
  qed
qed

lemma reconcile_moves:
  assumes "kb_Restores s n = Some R"
  shows "\<exists>R' s1. snd (Reconcile_restore F now n s) = put_restore n R' s1 \<and> same_restore R R' \<and> restore_move F n R s R' s1"
proof (cases "kget (F (Get KRestore (snd n))) KRestore (kb_Restores s) n = Inr R \<and> \<not> over R")
  case False
  then have "snd (Reconcile_restore F now n s) = s"
    using assms by (auto simp: Reconcile_restore_def over_def kget_def split: option.splits)
  then show ?thesis using assms stays by (intro exI [of _ R] exI [of _ s]) (simp add: map_upd_triv same_restore_def)
next
  case True
  have q: "same_restore R R" by (simp add: same_restore_def)
  have f: "\<exists>R' s1. snd (updateRestoreStatus F now n R ''Failed'' m s) = put_restore n R' s1 \<and> same_restore R R' \<and> restore_move F n R s R' s1" for m
    using status_outcome [OF assms q, of F now "''Failed''" m] fails [of R] stays True by metis
  show ?thesis
  proof (cases "kget (F (Get KCluster (rs_ClusterRef R))) KCluster (kb_Clusters s) (fst n, rs_ClusterRef R)")
    case (Inl e)
    then have x: "Reconcile_restore F now n s = updateRestoreStatus F now n R ''Failed'' (''Parent cluster not found: '' @ kerr_text e) s"
      using True by (simp add: Reconcile_restore_def over_def)
    show ?thesis unfolding x by (rule f)
  next
    case (Inr C)
    show ?thesis
    proof (cases "backup_refused F n R s")
      case None
      then show ?thesis using phase_moves [OF assms None _ Inr] True by blast
    next
      case (Some m)
      then have x: "Reconcile_restore F now n s = updateRestoreStatus F now n R ''Failed'' m s"
        using True Inr by (simp add: Reconcile_restore_def over_def)
      show ?thesis unfolding x by (rule f)
    qed
  qed
qed

lemma touches_job [touching]:
  "kb_Jobs s (job_name n ''-restore'') = None \<Longrightarrow> restore_touches n c s (s\<lparr>kb_Jobs := (kb_Jobs s)(job_name n ''-restore'' \<mapsto> J)\<rparr>)"
  by (simp add: restore_touches_def)

lemma move_touches: "restore_move F n R s R' s1 \<Longrightarrow> restore_touches n (fst n, rs_ClusterRef R) s s1"
  by (erule restore_moveE) (simp_all add: touching)

lemma no_restore: "kb_Restores s n = None \<Longrightarrow> snd (Reconcile_restore F now n s) = s"
  by (auto simp: Reconcile_restore_def kget_def split: option.splits)

section \<open>The applications stay down\<close>

text \<open>What the application Deployments of a cluster that are there ask for, and the pods they have.\<close>

definition none_asked :: "kname \<Rightarrow> kube \<Rightarrow> bool" where
  "none_asked c s \<longleftrightarrow> (\<forall>d D. app_of c d \<longrightarrow> kb_Deployments s d = Some D \<longrightarrow> kd_Replicas D \<le> 0)"

definition no_pods :: "kname \<Rightarrow> kube \<Rightarrow> bool" where
  "no_pods c s \<longleftrightarrow> (\<forall>d D. app_of c d \<longrightarrow> kb_Deployments s d = Some D \<longrightarrow> kd_StatusReplicas D \<le> 0)"

text \<open>The reads of Deployments are answered.\<close>

definition sees_deployments :: "faults \<Rightarrow> bool" where
  "sees_deployments F \<longleftrightarrow> (\<forall>d. F (Get KDeployment d) = None \<and> F (Poll KDeployment d) = None)"

lemma app_names: "app_name c ''api'' \<noteq> app_name c' ''dashboard''" "app_name c ''rpc-gateway'' \<noteq> app_name c' ''api''"
  "app_name c ''rpc-gateway'' \<noteq> app_name c' ''dashboard''"
  "app_name c ''api'' = app_name c' ''api'' \<longleftrightarrow> c = c'" "app_name c ''dashboard'' = app_name c' ''dashboard'' \<longleftrightarrow> c = c'"
proof -
  have l: "hd (rev (snd (app_name c x))) = hd (rev x)" if "x \<noteq> []" for c x using that by (simp add: app_name_def)
  have api: "hd (rev (snd (app_name c ''api''))) = CHR ''i''" and dash: "hd (rev (snd (app_name c ''dashboard''))) = CHR ''d''"
    and rpc: "hd (rev (snd (app_name c ''rpc-gateway''))) = CHR ''y''" for c by (simp_all add: l)
  show "app_name c ''api'' \<noteq> app_name c' ''dashboard''" using api [of c] dash [of c'] by auto
  show "app_name c ''rpc-gateway'' \<noteq> app_name c' ''api''" using api [of c'] rpc [of c] by auto
  show "app_name c ''rpc-gateway'' \<noteq> app_name c' ''dashboard''" using dash [of c'] rpc [of c] by auto
qed (simp_all add: app_name_def prod_eq_iff)

lemma scale_app_down:
  assumes "sees_deployments F" "fst (scale_app F d 0 m s) = None"
  shows "\<forall>D. kb_Deployments (snd (scale_app F d 0 m s)) d = Some D \<longrightarrow> kd_Replicas D = 0"
    "d' \<noteq> d \<Longrightarrow> kb_Deployments (snd (scale_app F d 0 m s)) d' = kb_Deployments s d'"
  using assms by (auto simp: scale_app_def sees_deployments_def kget_def kwrite_def set_replicas_def
      split: option.splits sum.splits prod.splits if_splits)

lemma scaled_down_none_asked:
  assumes "sees_deployments F" "fst (scaleDownApps F c s) = None"
  shows "none_asked c (snd (scaleDownApps F c s))"
proof -
  let ?f = "scale_app F (app_name c ''api'') 0 ''failed to scale down API''"
  let ?g = "scale_app F (app_name c ''dashboard'') 0 ''failed to scale down dashboard''"
  have e: "scaleDownApps F c s = (if fst (?f s) \<noteq> None then ?f s else ?g (snd (?f s)))"
    unfolding scaleDownApps_def in_two ..
  with assms(2) have f: "fst (?f s) = None" and g: "fst (?g (snd (?f s))) = None" by (auto split: if_splits)
  show ?thesis
    using scale_app_down [OF assms(1) f] scale_app_down [OF assms(1) g] f e app_names(1)
    by (auto simp: none_asked_def app_of_def)
qed

lemma seen_down: "sees_deployments F \<Longrightarrow> appsScaledDown F c s \<Longrightarrow> no_pods c s"
  by (auto simp: appsScaledDown_def app_passes_def no_pods_def app_of_def sees_deployments_def)

text \<open>The stages of a restore that stops the applications. The job runs only while they are down.\<close>

definition job_done :: "kname \<Rightarrow> kube \<Rightarrow> bool" where
  "job_done j s \<longleftrightarrow> (\<exists>J. kb_Jobs s j = Some J \<and> jb_Succeeded J > 0)"

definition stage_ok :: "kname \<Rightarrow> kname \<Rightarrow> string \<Rightarrow> kube \<Rightarrow> bool" where
  "stage_ok j c P s \<longleftrightarrow>
     (P = '''' \<or> P = ''Pending'') \<and> kb_Jobs s j = None
     \<or> P = ''Stopping'' \<and> kb_Jobs s j = None \<and> none_asked c s
     \<or> P = ''Restoring'' \<and> none_asked c s \<and> no_pods c s
     \<or> (P = ''Starting'' \<or> P = ''Completed'') \<and> job_done j s
     \<or> P = ''Failed'' \<and> (kb_Jobs s j = None \<or> none_asked c s \<and> no_pods c s \<or> job_done j s)"

lemma stage_frame:
  assumes "stage_ok j c P s" "kb_Jobs s' j = kb_Jobs s j" "\<And>d. app_of c d \<Longrightarrow> kb_Deployments s' d = kb_Deployments s d"
  shows "stage_ok j c P s'"
proof -
  have "none_asked c s' = none_asked c s" "no_pods c s' = no_pods c s" "job_done j s' = job_done j s"
    using assms(2,3) by (auto simp: none_asked_def no_pods_def job_done_def)
  with assms(1,2) show ?thesis by (simp add: stage_ok_def)
qed

lemma stage_move:
  assumes "restore_move F n R s R' s1" "stage_ok (job_name n ''-restore'') (fst n, rs_ClusterRef R) (rs_Phase R) s"
    "rs_StopApplications R" "sees_deployments F"
  shows "stage_ok (job_name n ''-restore'') (fst n, rs_ClusterRef R) (rs_Phase R') s1"
  using assms(1)
proof cases
  case stops
  have "kb_Jobs s (job_name n ''-restore'') = None" using assms(2) stops(2) by (auto simp: stage_ok_def fresh_def)
  with stops show ?thesis using scaled_down_none_asked [OF assms(4), of "(fst n, rs_ClusterRef R)" s]
    by (auto simp: stage_ok_def fresh_def)
next
  case stopped
  then show ?thesis using assms(2) seen_down [OF assms(4)] by (auto simp: stage_ok_def)
next
  case (starts_job C)
  then show ?thesis using assms(2) by (auto simp: stage_ok_def none_asked_def no_pods_def)
next
  case (restarts C)
  then have "job_done (job_name n ''-restore'') s" using assms(2) by (auto simp: stage_ok_def)
  with restarts show ?thesis by (auto simp: stage_ok_def job_done_def)
next
  case fails
  then show ?thesis using assms(2) by (auto simp: stage_ok_def)
next
  case (restored J)
  then show ?thesis by (auto simp: stage_ok_def job_done_def)
qed (use assms(2,3) in \<open>auto simp: stage_ok_def\<close>)

text \<open>The other controllers.\<close>

lemma job_names: "job_name n ''-backup'' \<noteq> job_name m ''-restore''" "job_name n x = job_name m x \<longleftrightarrow> n = m"
proof -
  have l: "hd (rev (snd (job_name n x))) = hd (rev x)" if "x \<noteq> []" for n x using that by (simp add: job_name_def)
  have "hd (rev (snd (job_name n ''-backup''))) = CHR ''p''" "hd (rev (snd (job_name m ''-restore''))) = CHR ''e''" by (simp_all add: l)
  then show "job_name n ''-backup'' \<noteq> job_name m ''-restore''" by auto
qed (auto simp: job_name_def prod_eq_iff)

definition backup_touches :: "kname \<Rightarrow> kube \<Rightarrow> kube \<Rightarrow> bool" where
  "backup_touches n s s' \<longleftrightarrow>
     kb_Clusters s' = kb_Clusters s \<and> kb_Restores s' = kb_Restores s \<and> kb_Deployments s' = kb_Deployments s
     \<and> (\<forall>m. m \<noteq> n \<longrightarrow> kb_Backups s' m = kb_Backups s m)
     \<and> (\<forall>j. j \<noteq> job_name n ''-backup'' \<longrightarrow> kb_Jobs s' j = kb_Jobs s j)
     \<and> (kb_Jobs s (job_name n ''-backup'') \<noteq> None \<longrightarrow> kb_Jobs s' (job_name n ''-backup'') = kb_Jobs s (job_name n ''-backup''))"

text \<open>A backup that is over stays as it is, and it is completed only when its job has succeeded.\<close>

definition backup_moves :: "kname \<Rightarrow> backup_obj \<Rightarrow> kube \<Rightarrow> kube \<Rightarrow> bool" where
  "backup_moves n B s s' \<longleftrightarrow>
     (\<exists>B'. kb_Backups s' n = Some B'
       \<and> (B' = B \<or> bk_Phase B \<noteq> ''Completed'' \<and> bk_Phase B \<noteq> ''Failed'' \<and> bk_ClusterRef B' = bk_ClusterRef B
                  \<and> (bk_Phase B' = ''Completed'' \<longrightarrow> job_done (job_name n ''-backup'') s)))"

lemma backup_status:
  "snd (updateBackupStatus F now n B phase message s) = s
   \<or> (\<exists>cs. snd (updateBackupStatus F now n B phase message s)
          = s\<lparr>kb_Backups := (kb_Backups s)(n \<mapsto> B\<lparr>bk_Phase := phase, bk_Conditions := cs\<rparr>)\<rparr>)"
  by (auto simp: updateBackupStatus_def Let_def kwrite_def split: option.splits prod.splits)

lemma backup_status_moves:
  assumes "kb_Backups s n = Some B" "bk_Phase B \<noteq> ''Completed''" "bk_Phase B \<noteq> ''Failed''" "bk_ClusterRef B1 = bk_ClusterRef B"
    "phase = ''Completed'' \<Longrightarrow> job_done (job_name n ''-backup'') s0" "backup_touches n s0 s"
  shows "backup_touches n s0 (snd (updateBackupStatus F now n B1 phase message s))
    \<and> backup_moves n B s0 (snd (updateBackupStatus F now n B1 phase message s))"
  using backup_status [of F now n B1 phase message s] assms
  by (auto simp: backup_touches_def backup_moves_def simp del: split_paired_All)

lemma start_backup_moves:
  assumes "kb_Backups s n = Some B" "bk_Phase B \<noteq> ''Completed''" "bk_Phase B \<noteq> ''Failed''"
  shows "backup_touches n s (snd (start_backup F now n B C s)) \<and> backup_moves n B s (snd (start_backup F now n B C s))"
proof -
  let ?j = "job_name n ''-backup''"
  let ?w = "\<lambda>s. s\<lparr>kb_Jobs := (kb_Jobs s)(?j \<mapsto> buildBackupJob n B C)\<rparr>"
  let ?S = "\<lambda>s1 B1 p m. snd (updateBackupStatus F now n B1 p m s1)"
  have u: "backup_touches n s (?S s1 B1 p m) \<and> backup_moves n B s (?S s1 B1 p m)"
    if "s1 = s \<or> kb_Jobs s ?j = None \<and> s1 = ?w s" "bk_ClusterRef B1 = bk_ClusterRef B" "p \<noteq> ''Completed''" for s1 B1 p m
    by (rule backup_status_moves) (use that assms in \<open>auto simp: backup_touches_def\<close>)
  have id: "backup_touches n s s" "backup_moves n B s s" using assms by (auto simp: backup_touches_def backup_moves_def)
  obtain eo s1 where c: "kcreate (F (Create KJob (snd ?j))) KJob ?j (kb_Jobs s ?j \<noteq> None) ?w s = (eo, s1)" by force
  then have s1: "s1 = s \<or> kb_Jobs s ?j = None \<and> s1 = ?w s"
    using kcreate_cases [of "F (Create KJob (snd ?j))" KJob ?j "kb_Jobs s ?j \<noteq> None" ?w s] by auto
  show ?thesis
    unfolding start_backup_def Let_def c using u [of s] u [OF s1] id by (auto split: sum.splits option.splits)
qed

lemma watch_backup_moves:
  assumes "kb_Backups s n = Some B" "bk_Phase B \<noteq> ''Completed''" "bk_Phase B \<noteq> ''Failed''"
  shows "backup_touches n s (snd (watch_backup F now n B s)) \<and> backup_moves n B s (snd (watch_backup F now n B s))"
proof -
  let ?S = "\<lambda>B1 p m. snd (updateBackupStatus F now n B1 p m s)"
  have id: "backup_touches n s s" "backup_moves n B s s" using assms by (auto simp: backup_touches_def backup_moves_def)
  have u: "backup_touches n s (?S B1 p m) \<and> backup_moves n B s (?S B1 p m)"
    if "bk_ClusterRef B1 = bk_ClusterRef B" "p \<noteq> ''Completed'' \<or> job_done (job_name n ''-backup'') s" for B1 p m
    by (rule backup_status_moves) (use that assms id in auto)
  have d: "job_done (job_name n ''-backup'') s"
    if "kget f KJob (kb_Jobs s) (job_name n ''-backup'') = Inr J" "jb_Succeeded J > 0" for J f
    using that by (auto simp: kget_Inr job_done_def)
  show ?thesis
    unfolding watch_backup_def Let_def using u id d by (auto split: sum.splits)
qed

lemma reconcile_backup_moves:
  "backup_touches n s (snd (Reconcile_backup F now n s))"
  "kb_Backups s n = Some B \<Longrightarrow> backup_moves n B s (snd (Reconcile_backup F now n s))"
proof -
  have id: "backup_touches n s s" by (simp add: backup_touches_def)
  have "backup_touches n s (snd (Reconcile_backup F now n s)) \<and> (kb_Backups s n = Some B \<longrightarrow> backup_moves n B s (snd (Reconcile_backup F now n s)))" for B
  proof (cases "kget (F (Get KBackup (snd n))) KBackup (kb_Backups s) n")
    case (Inl e)
    then show ?thesis using id by (simp add: Reconcile_backup_def backup_moves_def)
  next
    case (Inr B1)
    then have B: "kb_Backups s n = Some B1" by (simp add: kget_Inr)
    let ?s = "snd (Reconcile_backup F now n s)"
    have "backup_touches n s ?s \<and> backup_moves n B1 s ?s"
    proof (cases "bk_Phase B1 = ''Completed'' \<or> bk_Phase B1 = ''Failed''")
      case True
      with Inr B id show ?thesis by (simp add: Reconcile_backup_def backup_moves_def)
    next
      case False
      then have p: "bk_Phase B1 \<noteq> ''Completed''" "bk_Phase B1 \<noteq> ''Failed''" by simp_all
      show ?thesis
      proof (cases "kget (F (Get KCluster (bk_ClusterRef B1))) KCluster (kb_Clusters s) (fst n, bk_ClusterRef B1)")
        case (Inl e)
        then have x: "Reconcile_backup F now n s = updateBackupStatus F now n B1 ''Failed'' (''Parent cluster not found: '' @ kerr_text e) s"
          using Inr p by (simp add: Reconcile_backup_def)
        show ?thesis unfolding x by (rule backup_status_moves [OF B p refl _ id]) simp
      next
        case (Inr C)
        with \<open>kget _ _ (kb_Backups s) n = Inr B1\<close> p start_backup_moves [OF B p] watch_backup_moves [OF B p]
        show ?thesis by (simp add: Reconcile_backup_def)
      qed
    qed
    with B show ?thesis by auto
  qed
  then show "backup_touches n s (snd (Reconcile_backup F now n s))"
    "kb_Backups s n = Some B \<Longrightarrow> backup_moves n B s (snd (Reconcile_backup F now n s))" by blast+
qed

definition apps_touches :: "kname \<Rightarrow> kube \<Rightarrow> kube \<Rightarrow> bool" where
  "apps_touches c s s' \<longleftrightarrow>
     kb_Restores s' = kb_Restores s \<and> kb_Backups s' = kb_Backups s \<and> kb_Jobs s' = kb_Jobs s
     \<and> (\<forall>d. \<not> app_of c d \<longrightarrow> d \<noteq> app_name c ''rpc-gateway'' \<longrightarrow> kb_Deployments s' d = kb_Deployments s d)"

definition apps_step :: "kname \<Rightarrow> kube_step \<Rightarrow> bool" where
  "apps_step c f \<longleftrightarrow> (\<forall>s. apps_touches c s (snd (f s)))"

lemma apps_refl [simp]: "apps_touches c s s"
  by (simp add: apps_touches_def)

lemma apps_trans: "apps_touches c s s1 \<Longrightarrow> apps_touches c s1 s2 \<Longrightarrow> apps_touches c s s2"
  unfolding apps_touches_def by (intro conjI allI impI; simp del: split_paired_All)

lemma apps_step_in_order: "\<forall>x\<in>set fs. apps_step c (snd x) \<Longrightarrow> apps_step c (in_order fs)"
proof (induction fs)
  case Nil
  then show ?case by (simp add: apps_step_def)
next
  case (Cons x fs)
  obtain m f where x: "x = (m, f)" by force
  have f: "apps_touches c s (snd (f s))" for s using Cons.prems x by (simp add: apps_step_def)
  have fs: "apps_touches c s (snd (in_order fs s))" for s using Cons by (simp add: apps_step_def)
  have "apps_touches c s (snd (in_order (x # fs) s))" for s
  proof (cases "f s")
    case (Pair mo s1)
    with f [of s] fs [of s1] show ?thesis by (cases mo) (auto simp: x intro: apps_trans)
  qed
  then show ?case by (simp add: apps_step_def)
qed

lemma apps_step_createOrUpdate:
  assumes "\<And>s. apps_touches c s (new s)" "\<And>s. apps_touches c s (change s)"
  shows "apps_step c (createOrUpdate F k n exists new change)"
proof -
  have w: "apps_touches c s (snd (kwrite f change s))" for f s
    using kwrite_cases [of f change s] assms(2) by auto
  have k: "apps_touches c s (snd (kcreate f k n ex new s))" for f ex s
    using kcreate_cases [of f k n ex new s] assms(1) by auto
  have "apps_touches c s (snd (createOrUpdate F k n exists new change s))" for s
  proof -
    obtain eo s1 where s1: "kcreate (F (Create k (snd n))) k n (exists s) new s = (eo, s1)" by force
    obtain eo2 s2 where s2: "kwrite (F (Update k (snd n))) change s1 = (eo2, s2)" by force
    have "apps_touches c s s1" "apps_touches c s1 s2"
      using k [of s "F (Create k (snd n))" "exists s"] w [of s1 "F (Update k (snd n))"] s1 s2 by simp_all
    then show ?thesis using apps_trans unfolding createOrUpdate_def s1 s2 by (auto simp: s2 split: option.splits)
  qed
  then show ?thesis by (simp add: apps_step_def)
qed

lemma apps_steps:
  "app_of c d \<or> d = app_name c ''rpc-gateway'' \<Longrightarrow> apps_step c (ensure_deployment F d img a)"
  "apps_step c (ensure_service F n)" "apps_step c (ensure_autoscaler F n)"
  unfolding ensure_deployment_def ensure_service_def ensure_autoscaler_def
  by (rule apps_step_createOrUpdate; auto simp: apps_touches_def create_deployment_def change_deployment_def)+

lemma apps_step_remove: "(\<And>s. apps_touches c s (remove s)) \<Longrightarrow> apps_step c (remove_object F k n exists remove)"
  using kwrite_cases [of "F (Delete k (snd n))" remove]
  by (auto simp: apps_step_def remove_object_def kwrite_def split: option.splits)

lemma apps_step_reconcile:
  "apps_step c (reconcileAPI F c C)" "apps_step c (reconcileDashboard F c C)" "apps_step c (reconcileRPCGateway F c C)"
proof -
  show "apps_step c (reconcileAPI F c C)"
    unfolding reconcileAPI_def Let_def by (rule apps_step_in_order) (auto simp: apps_steps app_of_def)
  show "apps_step c (reconcileDashboard F c C)"
    unfolding reconcileDashboard_def Let_def
    by (cases "ca_Replicas (kl_Dashboard C) = 0")
      (simp add: apps_step_def, simp only: if_False, rule apps_step_in_order, auto simp: apps_steps app_of_def)
  have "apps_step c (cleanupRPCGateway F c)"
    unfolding cleanupRPCGateway_def Let_def
    by (rule apps_step_in_order) (auto intro!: apps_step_remove simp: apps_touches_def)
  moreover have "apps_step c (in_order [(a, ensure_deployment F (app_name c ''rpc-gateway'') i (kl_RPCGateway C)),
      (b, ensure_service F (app_name c ''rpc-gateway'')), (d, ensure_autoscaler F (app_name c ''rpc-gateway''))])" for a b d i
    by (rule apps_step_in_order) (auto simp: apps_steps)
  ultimately show "apps_step c (reconcileRPCGateway F c C)" by (simp add: reconcileRPCGateway_def Let_def)
qed

lemma reconcile_apps_touches: "apps_touches c s (snd (reconcile_apps F now c s))"
proof (cases "kget (F (Get KCluster (snd c))) KCluster (kb_Clusters s) c")
  case (Inl e)
  then show ?thesis by (simp add: reconcile_apps_def)
next
  case (Inr C)
  obtain m1 s1 where 1: "reconcileAPI F c C s = (m1, s1)" by force
  obtain m2 s2 where 2: "reconcileDashboard F c C s1 = (m2, s2)" by force
  obtain m3 s3 where 3: "reconcileRPCGateway F c C s2 = (m3, s3)" by force
  have t1: "apps_touches c s s1" using apps_step_reconcile(1) [of c F C] 1 by (metis apps_step_def snd_conv)
  have t2: "apps_touches c s s2" using apps_step_reconcile(2) [of c F C] 2 apps_trans [OF t1] by (metis apps_step_def snd_conv)
  have t3: "apps_touches c s s3" using apps_step_reconcile(3) [of c F C] 3 apps_trans [OF t2] by (metis apps_step_def snd_conv)
  have t4: "apps_touches c s (snd (kwrite f (\<lambda>s. s\<lparr>kb_Clusters := (kb_Clusters s)(c \<mapsto> C')\<rparr>) s3))" for f C'
    using kwrite_cases [of f "\<lambda>s. s\<lparr>kb_Clusters := (kb_Clusters s)(c \<mapsto> C')\<rparr>" s3] t3 by (auto simp: apps_touches_def)
  have k: "snd (case p of (Some e, s4) \<Rightarrow> (Failed e, s4) | (None, s4) \<Rightarrow> (RequeueAfter 30, s4)) = snd p" for p :: "kube_error option \<times> kube"
    by (auto split: prod.splits option.splits)
  show ?thesis using t1 t2 t3 t4 by (simp add: reconcile_apps_def Inr 1 2 3 k split: option.splits sum.splits)
qed

section \<open>Runs with a restore\<close>

text \<open>
  What the theorem on a restore asks of the rest: the restore itself reads the Deployments, and the controller of
  the cluster does not reconcile its applications.
\<close>

fun undisturbed :: "kname \<Rightarrow> kname \<Rightarrow> kevent \<Rightarrow> bool" where
  "undisturbed r c (RestoreRun n F now) = (n = r \<longrightarrow> sees_deployments F)"
| "undisturbed r c (AppsRun c' F now) = (c' \<noteq> c)"
| "undisturbed r c _ = True"

definition alone :: "kname \<Rightarrow> kname \<Rightarrow> kube \<Rightarrow> bool" where
  "alone r c s \<longleftrightarrow> (\<forall>n R. n \<noteq> r \<longrightarrow> kb_Restores s n = Some R \<longrightarrow> (fst n, rs_ClusterRef R) \<noteq> c)"

definition restore_inv :: "kname \<Rightarrow> kname \<Rightarrow> kube \<Rightarrow> bool" where
  "restore_inv r c s \<longleftrightarrow> alone r c s \<and>
     (\<exists>R. kb_Restores s r = Some R \<and> rs_StopApplications R \<and> (fst r, rs_ClusterRef R) = c
        \<and> stage_ok (job_name r ''-restore'') c (rs_Phase R) s)"

lemma app_of_same: "app_of c d \<Longrightarrow> app_of c' d \<Longrightarrow> c = c'"
  by (auto simp: app_of_def app_names dest: app_names(1) [THEN notE] app_names(1) [THEN not_sym, THEN notE])

lemma inv_by_frame:
  assumes "restore_inv r c s" "kb_Restores s' r = kb_Restores s r" "alone r c s'"
    "kb_Jobs s' (job_name r ''-restore'') = kb_Jobs s (job_name r ''-restore'')"
    "\<And>d. app_of c d \<Longrightarrow> kb_Deployments s' d = kb_Deployments s d"
  shows "restore_inv r c s'"
  using assms(1,3) stage_frame [OF _ assms(4,5)] by (auto simp: restore_inv_def assms(2))

lemma restore_run_inv:
  assumes "restore_inv r c s" "n = r \<longrightarrow> sees_deployments F"
  shows "restore_inv r c (snd (Reconcile_restore F now n s))"
proof (cases "kb_Restores s n")
  case None
  with assms(1) show ?thesis by (simp add: no_restore)
next
  case (Some R)
  obtain R' s1 where m: "snd (Reconcile_restore F now n s) = put_restore n R' s1" "same_restore R R'" "restore_move F n R s R' s1"
    using reconcile_moves [OF Some] by blast
  let ?c = "(fst n, rs_ClusterRef R)"
  have t: "restore_touches n ?c s s1" by (rule move_touches [OF m(3)])
  then have other: "kb_Restores s1 m = kb_Restores s m" if "m \<noteq> n" for m
    using that by (simp add: restore_touches_def del: split_paired_All)
  have al: "alone r c (put_restore n R' s1)"
    using assms(1) m(2) other Some by (auto simp: restore_inv_def alone_def same_restore_def)
  show ?thesis
  proof (cases "n = r")
    case True
    have i: "rs_StopApplications R" "?c = c" "stage_ok (job_name n ''-restore'') ?c (rs_Phase R) s"
      using assms(1) Some True by (auto simp: restore_inv_def)
    have "stage_ok (job_name n ''-restore'') ?c (rs_Phase R') s1"
      by (rule stage_move [OF m(3) i(3,1)]) (use assms(2) True in simp)
    then have "stage_ok (job_name n ''-restore'') ?c (rs_Phase R') (put_restore n R' s1)"
      by (rule stage_frame) simp_all
    then show ?thesis using al i(1,2) m(1,2) True by (simp add: restore_inv_def same_restore_def)
  next
    case False
    then have "?c \<noteq> c" using assms(1) Some unfolding restore_inv_def alone_def by blast
    then have d: "kb_Deployments s1 d = kb_Deployments s d" if "app_of c d" for d
      using app_of_same [OF that] by (intro touchesD(4) [OF t]) blast
    have j: "kb_Jobs s1 (job_name r ''-restore'') = kb_Jobs s (job_name r ''-restore'')"
      using False by (intro touchesD(2) [OF t]) (simp add: job_names)
    show ?thesis unfolding m(1) by (rule inv_by_frame [OF assms(1) _ al]) (use d j other False in simp_all)
  qed
qed

lemma inv_by_stage:
  assumes "restore_inv r c s" "kb_Restores s' = kb_Restores s"
    "kb_Jobs s (job_name r ''-restore'') = None \<Longrightarrow> kb_Jobs s' (job_name r ''-restore'') = None"
    "job_done (job_name r ''-restore'') s \<Longrightarrow> job_done (job_name r ''-restore'') s'"
    "none_asked c s \<Longrightarrow> none_asked c s'" "none_asked c s \<Longrightarrow> no_pods c s \<Longrightarrow> no_pods c s'"
  shows "restore_inv r c s'"
proof -
  have "stage_ok (job_name r ''-restore'') c P s'" if "stage_ok (job_name r ''-restore'') c P s" for P
    using that unfolding stage_ok_def by (elim disjE conjE) (simp_all add: assms(3-6))
  then show ?thesis using assms(1) unfolding restore_inv_def alone_def assms(2) by blast
qed

lemma none_askedD: "none_asked c s \<Longrightarrow> app_of c d \<Longrightarrow> kb_Deployments s d = Some D \<Longrightarrow> kd_Replicas D \<le> 0"
  unfolding none_asked_def by blast

lemma no_podsD: "no_pods c s \<Longrightarrow> app_of c d \<Longrightarrow> kb_Deployments s d = Some D \<Longrightarrow> kd_StatusReplicas D \<le> 0"
  unfolding no_pods_def by blast

lemma moved_deployment:
  assumes "kb_Deployments (move_pods d pods ready s) d' = Some D"
  shows "\<exists>D0. kb_Deployments s d' = Some D0 \<and> kd_Replicas D = kd_Replicas D0
    \<and> (kd_StatusReplicas D \<le> kd_StatusReplicas D0 \<or> kd_Replicas D0 > 0)"
  using assms by (auto simp: move_pods_def split: option.splits if_splits)

lemma pods_inv: "restore_inv r c s \<Longrightarrow> restore_inv r c (move_pods d pods ready s)"
proof (erule inv_by_stage)
  let ?s = "move_pods d pods ready s"
  show "none_asked c ?s" if "none_asked c s"
    unfolding none_asked_def by (intro allI impI) (auto dest!: moved_deployment none_askedD [OF that])
  show "no_pods c ?s" if "none_asked c s" "no_pods c s"
    unfolding no_pods_def
    by (intro allI impI) (use none_askedD [OF that(1)] no_podsD [OF that(2)] in \<open>fastforce dest!: moved_deployment\<close>)
qed (simp_all add: move_pods_def job_done_def split: option.splits)

lemma job_inv: "restore_inv r c s \<Longrightarrow> restore_inv r c (move_job j succeeded failed s)"
  by (erule inv_by_stage) (auto simp: move_job_def job_done_def none_asked_def no_pods_def split: option.splits)

lemma event_inv: "restore_inv r c s \<Longrightarrow> undisturbed r c e \<Longrightarrow> restore_inv r c (kube_event e s)"
proof (cases e)
  case (BackupRun n F now)
  assume i: "restore_inv r c s"
  have t: "backup_touches n s (snd (Reconcile_backup F now n s))" by (rule reconcile_backup_moves(1))
  then have "kb_Jobs (snd (Reconcile_backup F now n s)) (job_name r ''-restore'') = kb_Jobs s (job_name r ''-restore'')"
    using job_names(1) [of n r] unfolding backup_touches_def by (metis (no_types))
  with t show ?thesis unfolding BackupRun kube_event.simps
    by (intro inv_by_frame [OF i]) (use i in \<open>auto simp: backup_touches_def restore_inv_def alone_def\<close>)
next
  case (AppsRun c' F now)
  assume i: "restore_inv r c s" and u: "undisturbed r c e"
  have t: "apps_touches c' s (snd (reconcile_apps F now c' s))" by (rule reconcile_apps_touches)
  have "kb_Deployments (snd (reconcile_apps F now c' s)) d = kb_Deployments s d" if "app_of c d" for d
  proof -
    have "\<not> app_of c' d" using u AppsRun app_of_same [OF that, of c'] by auto
    moreover have "d \<noteq> app_name c' ''rpc-gateway''" using that app_names(2,3) [of c' c] by (auto simp: app_of_def)
    ultimately show ?thesis using t by (simp add: apps_touches_def del: split_paired_All)
  qed
  with t show ?thesis unfolding AppsRun kube_event.simps
    by (intro inv_by_frame [OF i]) (use i in \<open>auto simp: apps_touches_def restore_inv_def alone_def\<close>)
qed (auto intro: restore_run_inv pods_inv job_inv)

lemma run_inv: "restore_inv r c s \<Longrightarrow> list_all (undisturbed r c) es \<Longrightarrow> restore_inv r c (kube_run es s)"
  by (induction es arbitrary: s) (auto intro: event_inv)

section \<open>What a restore reads\<close>

definition chain_inv :: "kname \<Rightarrow> kname \<Rightarrow> kube \<Rightarrow> bool" where
  "chain_inv b r s \<longleftrightarrow> (\<exists>B R. kb_Backups s b = Some B \<and> kb_Restores s r = Some R \<and> fst b = fst r \<and> rs_BackupRef R = Some (snd b)
     \<and> (bk_Phase B = ''Completed'' \<longrightarrow> job_done (job_name b ''-backup'') s)
     \<and> (kb_Jobs s (job_name r ''-restore'') \<noteq> None \<longrightarrow> bk_Phase B = ''Completed''))"

lemma accepted_backup:
  "backup_refused F n R s = None \<Longrightarrow> rs_BackupRef R = Some b \<Longrightarrow> kb_Backups s (fst n, b) = Some B \<Longrightarrow> bk_Phase B = ''Completed''"
  by (auto simp: backup_refused_def kget_def split: sum.splits option.splits if_splits)

lemma moved_backup_job:
  assumes "restore_move F n R s R' s1" "kb_Jobs s (job_name n ''-restore'') = None" "kb_Jobs s1 (job_name n ''-restore'') \<noteq> None"
  shows "backup_refused F n R s = None"
  using assms by cases auto

lemma done_same: "kb_Jobs s' j = kb_Jobs s j \<Longrightarrow> job_done j s' = job_done j s"
  by (simp add: job_done_def)

lemma chain_restore: "chain_inv b r s \<Longrightarrow> chain_inv b r (snd (Reconcile_restore F now n s))"
proof (cases "kb_Restores s n")
  case (Some Q)
  assume "chain_inv b r s"
  then obtain B R where i: "kb_Backups s b = Some B" "kb_Restores s r = Some R" "fst b = fst r" "rs_BackupRef R = Some (snd b)"
    "bk_Phase B = ''Completed'' \<longrightarrow> job_done (job_name b ''-backup'') s"
    "kb_Jobs s (job_name r ''-restore'') \<noteq> None \<longrightarrow> bk_Phase B = ''Completed''"
    unfolding chain_inv_def by blast
  obtain Q' s1 where m: "snd (Reconcile_restore F now n s) = put_restore n Q' s1" "same_restore Q Q'" "restore_move F n Q s Q' s1"
    using reconcile_moves [OF Some] by blast
  note t = touchesD [OF move_touches [OF m(3)]]
  have B: "kb_Backups s1 b = Some B" using i(1) t(5) by simp
  have d: "job_done (job_name b ''-backup'') (put_restore n Q' s1) = job_done (job_name b ''-backup'') s"
    by (rule done_same) (simp add: t(2) job_names(1))
  have R': "\<exists>R'. kb_Restores (put_restore n Q' s1) r = Some R' \<and> rs_BackupRef R' = Some (snd b)"
    using i(2,4) Some m(2) t(1) [of r] by (cases "n = r") (auto simp: same_restore_def)
  have j: "bk_Phase B = ''Completed''" if "kb_Jobs s1 (job_name r ''-restore'') \<noteq> None"
  proof (cases "kb_Jobs s (job_name r ''-restore'') = None")
    case True
    then have "n = r" using that t(2) [of "job_name r ''-restore''"] job_names(2) [of r "''-restore''" n] by auto
    with moved_backup_job [OF m(3)] True that have "backup_refused F r Q s = None" by simp
    then show ?thesis using accepted_backup [of F r Q s "snd b" B] i(1-4) Some \<open>n = r\<close> by (metis option.inject prod.collapse)
  next
    case False
    then show ?thesis using i(6) by blast
  qed
  from R' show ?thesis unfolding m(1) chain_inv_def using B i(3,5) d j by (simp add: job_done_def)
qed (simp add: no_restore)

lemma chain_backup: "chain_inv b r s \<Longrightarrow> chain_inv b r (snd (Reconcile_backup F now n s))"
proof -
  assume "chain_inv b r s"
  then obtain B R where i: "kb_Backups s b = Some B" "kb_Restores s r = Some R" "fst b = fst r" "rs_BackupRef R = Some (snd b)"
    "bk_Phase B = ''Completed'' \<longrightarrow> job_done (job_name b ''-backup'') s"
    "kb_Jobs s (job_name r ''-restore'') \<noteq> None \<longrightarrow> bk_Phase B = ''Completed''"
    unfolding chain_inv_def by blast
  let ?s = "snd (Reconcile_backup F now n s)"
  have t: "backup_touches n s ?s" by (rule reconcile_backup_moves(1))
  have res: "kb_Restores ?s = kb_Restores s" using t by (simp add: backup_touches_def)
  have rj: "kb_Jobs ?s (job_name r ''-restore'') = kb_Jobs s (job_name r ''-restore'')"
    using t job_names(1) [of n r] by (auto simp: backup_touches_def simp del: split_paired_All)
  have bj: "job_done (job_name b ''-backup'') ?s" if "job_done (job_name b ''-backup'') s"
  proof (cases "n = b")
    case True
    with t that show ?thesis by (auto simp: backup_touches_def job_done_def simp del: split_paired_All)
  next
    case False
    then have "job_name b ''-backup'' \<noteq> job_name n ''-backup''" by (simp add: job_names(2))
    with t that show ?thesis by (auto simp: backup_touches_def job_done_def simp del: split_paired_All)
  qed
  have "\<exists>B'. kb_Backups ?s b = Some B' \<and> (bk_Phase B' = ''Completed'' \<longrightarrow> job_done (job_name b ''-backup'') s)
      \<and> (bk_Phase B = ''Completed'' \<longrightarrow> bk_Phase B' = ''Completed'')"
  proof (cases "n = b")
    case True
    with reconcile_backup_moves(2) [of s b B F now] i(1) have "backup_moves b B s ?s" by simp
    then show ?thesis using i(5) unfolding backup_moves_def by blast
  next
    case False
    with t have "kb_Backups ?s b = Some B" using i(1) by (auto simp: backup_touches_def simp del: split_paired_All)
    with i(5) show ?thesis by blast
  qed
  then show ?thesis using i(2-4,6) bj unfolding chain_inv_def res rj by blast
qed

lemma chain_event: "chain_inv b r s \<Longrightarrow> chain_inv b r (kube_event e s)"
proof (cases e)
  case (AppsRun c F now)
  assume "chain_inv b r s"
  then show ?thesis using reconcile_apps_touches [of c s F now] unfolding AppsRun by (simp add: apps_touches_def chain_inv_def job_done_def)
next
  case (PodsMove d p a)
  assume "chain_inv b r s"
  then show ?thesis unfolding PodsMove by (simp add: move_pods_def chain_inv_def job_done_def split: option.splits)
next
  case (JobMoves j p a)
  assume i: "chain_inv b r s"
  have "kb_Backups (move_job j p a s) = kb_Backups s" "kb_Restores (move_job j p a s) = kb_Restores s"
    "kb_Jobs (move_job j p a s) (job_name r ''-restore'') \<noteq> None \<longleftrightarrow> kb_Jobs s (job_name r ''-restore'') \<noteq> None"
    "job_done (job_name b ''-backup'') s \<Longrightarrow> job_done (job_name b ''-backup'') (move_job j p a s)"
    by (auto simp: move_job_def job_done_def split: option.splits)
  with i show ?thesis unfolding JobMoves by (simp add: chain_inv_def) blast
qed (simp_all add: chain_restore chain_backup)

lemma chain_run: "chain_inv b r s \<Longrightarrow> chain_inv b r (kube_run es s)"
  by (induction es arbitrary: s) (simp_all add: chain_event)

section \<open>A restore that is not disturbed\<close>

definition answered :: faults where
  "answered _ = None"

text \<open>What a restore goes through when every call is answered and the system does its part.\<close>

definition restore_schedule :: "kname \<Rightarrow> kname \<Rightarrow> kube_cluster \<Rightarrow> nat \<Rightarrow> kevent list" where
  "restore_schedule r c C now =
     [RestoreRun r answered now, PodsMove (app_name c ''api'') 0 0, PodsMove (app_name c ''dashboard'') 0 0,
      RestoreRun r answered now, RestoreRun r answered now, JobMoves (job_name r ''-restore'') 1 0,
      RestoreRun r answered now, RestoreRun r answered now,
      PodsMove (app_name c ''api'') (app_replicas (kl_API C)) (app_replicas (kl_API C)),
      PodsMove (app_name c ''dashboard'') (app_replicas (kl_Dashboard C)) (app_replicas (kl_Dashboard C)),
      RestoreRun r answered now]"

text \<open>What the reconciles of a restore look up, and what the Deployments of its applications are.\<close>

definition restore_at :: "kname \<Rightarrow> kname \<Rightarrow> kube_cluster \<Rightarrow> restore_obj \<Rightarrow> kube_job option \<Rightarrow> kube_deployment \<Rightarrow> kube_deployment \<Rightarrow> kube \<Rightarrow> bool" where
  "restore_at r c C R J A D s \<longleftrightarrow> kb_Restores s r = Some R \<and> c = (fst r, rs_ClusterRef R) \<and> kb_Clusters s c = Some C
     \<and> backup_refused answered r R s = None \<and> kb_Jobs s (job_name r ''-restore'') = J
     \<and> kb_Deployments s (app_name c ''api'') = Some A \<and> kb_Deployments s (app_name c ''dashboard'') = Some D"

lemma refused_frame: "same_restore R R' \<Longrightarrow> kb_Backups s' = kb_Backups s \<Longrightarrow> backup_refused F n R' s' = backup_refused F n R s"
  unfolding backup_refused_def same_restore_def by (elim conjE) (simp only:)

lemma refused_updates [simp]:
  "backup_refused F n R (s\<lparr>kb_Deployments := x\<rparr>) = backup_refused F n R s"
  "backup_refused F n R (s\<lparr>kb_Jobs := y\<rparr>) = backup_refused F n R s"
  "backup_refused F n R (s\<lparr>kb_Restores := z\<rparr>) = backup_refused F n R s"
  by (rule refused_frame; simp add: same_restore_def)+

lemma reconcile_at:
  "restore_at r c C R J A D s \<Longrightarrow> Reconcile_restore answered now r s =
     (if over R then (Finished, s) else if fresh R then begin_restore answered now r R s
      else if rs_Phase R = ''Stopping'' then wait_stopped answered now r R s
      else if rs_Phase R = ''Restoring'' then restore_data answered now r R C s
      else if rs_Phase R = ''Starting'' then restart_apps answered now r R C s else (Finished, s))"
  by (auto simp: restore_at_def Reconcile_restore_def answered_def over_def fresh_def)

definition with_status :: "nat \<Rightarrow> string \<Rightarrow> string \<Rightarrow> restore_obj \<Rightarrow> restore_obj" where
  "with_status now P m R = R\<lparr>rs_Phase := P,
     rs_Conditions := put_condition (ready_condition now P m ''Restore completed successfully'') (rs_Conditions R)\<rparr>"

lemma status_at:
  assumes "restore_at r c C R J A D s" "same_restore R R1"
  shows "restore_at r c C (with_status now P m R1) J A D (snd (updateRestoreStatus answered now r R1 P m s))"
proof -
  have e: "snd (updateRestoreStatus answered now r R1 P m s) = put_restore r (with_status now P m R1) s"
    by (simp add: updateRestoreStatus_def answered_def Let_def with_status_def)
  have "backup_refused answered r (with_status now P m R1) s = backup_refused answered r R s"
    by (rule refused_frame) (use assms(2) in \<open>simp_all add: same_restore_def with_status_def\<close>)
  then show ?thesis unfolding e using assms by (auto simp: restore_at_def same_restore_def with_status_def)
qed

lemma scale_at:
  assumes "kb_Deployments s d = Some X"
  shows "scale_app answered d k m s = (None, set_replicas d X k s)"
  using assms by (simp add: scale_app_def answered_def)

lemma scaleDown_at:
  "restore_at r c C R J A D s \<Longrightarrow>
    fst (scaleDownApps answered c s) = None \<and> restore_at r c C R J (A\<lparr>kd_Replicas := 0\<rparr>) (D\<lparr>kd_Replicas := 0\<rparr>) (snd (scaleDownApps answered c s))"
  unfolding restore_at_def scaleDownApps_def
  by (auto simp: scale_at set_replicas_def app_names app_names(1) [THEN not_sym])

lemma scaleUp_at:
  "restore_at r c C R J A D s \<Longrightarrow>
    fst (scaleUpApps answered c C s) = None \<and>
    restore_at r c C R J (A\<lparr>kd_Replicas := app_replicas (kl_API C)\<rparr>) (D\<lparr>kd_Replicas := app_replicas (kl_Dashboard C)\<rparr>) (snd (scaleUpApps answered c C s))"
  unfolding restore_at_def scaleUpApps_def
  by (auto simp: scale_at set_replicas_def app_names app_names(1) [THEN not_sym])

lemma pods_at:
  assumes "restore_at r c C R J A D s"
  shows "p \<le> kd_StatusReplicas A \<or> kd_Replicas A > 0 \<Longrightarrow>
      restore_at r c C R J (A\<lparr>kd_StatusReplicas := p, kd_ReadyReplicas := q\<rparr>) D (move_pods (app_name c ''api'') p q s)"
    "p \<le> kd_StatusReplicas D \<or> kd_Replicas D > 0 \<Longrightarrow>
      restore_at r c C R J A (D\<lparr>kd_StatusReplicas := p, kd_ReadyReplicas := q\<rparr>) (move_pods (app_name c ''dashboard'') p q s)"
  using assms by (auto simp: restore_at_def move_pods_def app_names app_names(1) [THEN not_sym])

lemma job_at:
  "restore_at r c C R (Some J) A D s \<Longrightarrow> jb_Succeeded J \<le> p \<Longrightarrow> jb_Failed J \<le> q \<Longrightarrow>
    restore_at r c C R (Some (J\<lparr>jb_Succeeded := p, jb_Failed := q\<rparr>)) A D (move_job (job_name r ''-restore'') p q s)"
  by (auto simp: restore_at_def move_job_def)

lemma run_at: "restore_at r c C R J A D s \<Longrightarrow> kube_event (RestoreRun r answered now) s =
     (if over R then s else if fresh R then snd (begin_restore answered now r R s)
      else if rs_Phase R = ''Stopping'' then snd (wait_stopped answered now r R s)
      else if rs_Phase R = ''Restoring'' then snd (restore_data answered now r R C s)
      else if rs_Phase R = ''Starting'' then snd (restart_apps answered now r R C s) else s)"
  by (simp add: reconcile_at)

definition begun :: "nat \<Rightarrow> restore_obj \<Rightarrow> restore_obj" where
  "begun now R = with_status now ''Stopping'' ''Scaling down applications''
     (restore_step (R\<lparr>rs_StartedAt := Some now, rs_Steps := initializeSteps\<rparr>) ''stop-applications'' ''Running'')"

lemma begin_at:
  assumes "restore_at r c C R J A D s" "fresh R" "rs_StopApplications R"
  shows "restore_at r c C (begun now R) J (A\<lparr>kd_Replicas := 0\<rparr>) (D\<lparr>kd_Replicas := 0\<rparr>) (kube_event (RestoreRun r answered now) s)"
proof -
  have c: "c = (fst r, rs_ClusterRef R)" using assms(1) by (simp add: restore_at_def)
  obtain s1 where d: "scaleDownApps answered c s = (None, s1)" and
    a: "restore_at r c C R J (A\<lparr>kd_Replicas := 0\<rparr>) (D\<lparr>kd_Replicas := 0\<rparr>) s1"
    using scaleDown_at [OF assms(1)] by (metis prod.collapse)
  have "\<not> over R" using assms(2) by (auto simp: over_def fresh_def)
  then have e: "kube_event (RestoreRun r answered now) s = snd (updateRestoreStatus answered now r
      (restore_step (R\<lparr>rs_StartedAt := Some now, rs_Steps := initializeSteps\<rparr>) ''stop-applications'' ''Running'')
      ''Stopping'' ''Scaling down applications'' s1)"
    using assms(2,3) d by (simp only: run_at [OF assms(1)] begin_restore_def Let_def c if_True if_False) simp
  show ?thesis unfolding e begun_def by (rule status_at [OF a]) (simp add: same_restore_def restore_step_def)
qed

definition emptied :: "nat \<Rightarrow> restore_obj \<Rightarrow> restore_obj" where
  "emptied now R = with_status now ''Restoring'' ''Applications stopped, restoring data''
     (restore_step (restore_step R ''stop-applications'' ''Completed'') ''restore-data'' ''Running'')"

lemma wait_at:
  assumes "restore_at r c C R J A D s" "rs_Phase R = ''Stopping''" "kd_StatusReplicas A = 0" "kd_StatusReplicas D = 0"
  shows "restore_at r c C (emptied now R) J A D (kube_event (RestoreRun r answered now) s)"
proof -
  have "appsScaledDown answered (fst r, rs_ClusterRef R) s"
    using assms(1,3,4) by (auto simp: restore_at_def appsScaledDown_def app_passes_def answered_def)
  then have e: "kube_event (RestoreRun r answered now) s = snd (updateRestoreStatus answered now r
      (restore_step (restore_step R ''stop-applications'' ''Completed'') ''restore-data'' ''Running'')
      ''Restoring'' ''Applications stopped, restoring data'' s)"
    using assms(2) by (simp add: run_at [OF assms(1)] over_def fresh_def wait_stopped_def del: kube_event.simps)
  show ?thesis unfolding e emptied_def by (rule status_at [OF assms(1)]) (simp add: same_restore_def restore_step_def)
qed

lemma create_at:
  assumes "restore_at r c C R None A D s" "rs_Phase R = ''Restoring''"
  shows "restore_at r c C R (Some (restore_job r R C)) A D (kube_event (RestoreRun r answered now) s)"
proof -
  let ?j = "job_name r ''-restore''"
  have j: "kb_Jobs s ?j = None" using assms(1) by (simp add: restore_at_def)
  have e: "kube_event (RestoreRun r answered now) s = s\<lparr>kb_Jobs := (kb_Jobs s)(?j \<mapsto> restore_job r R C)\<rparr>"
    using assms(2) j by (simp add: run_at [OF assms(1)] over_def fresh_def restore_data_def runRestore_def kcreate_def Let_def
        answered_def IsNotFound_def del: kube_event.simps)
  show ?thesis unfolding e using assms(1) by (auto simp: restore_at_def)
qed

definition refilled :: "nat \<Rightarrow> restore_obj \<Rightarrow> restore_obj" where
  "refilled now R = with_status now ''Starting'' ''Restore complete, starting applications''
     (restore_step (restore_step R ''restore-data'' ''Completed'') ''start-applications'' ''Running'')"

lemma succeeded_at:
  assumes "restore_at r c C R (Some J) A D s" "rs_Phase R = ''Restoring''" "jb_Succeeded J > 0"
  shows "restore_at r c C (refilled now R) (Some J) A D (kube_event (RestoreRun r answered now) s)"
proof -
  have j: "kb_Jobs s (job_name r ''-restore'') = Some J" using assms(1) by (simp add: restore_at_def)
  have e: "kube_event (RestoreRun r answered now) s = snd (updateRestoreStatus answered now r
      (restore_step (restore_step R ''restore-data'' ''Completed'') ''start-applications'' ''Running'')
      ''Starting'' ''Restore complete, starting applications'' s)"
    using assms(2,3) j by (simp add: run_at [OF assms(1)] over_def fresh_def restore_data_def Let_def answered_def del: kube_event.simps)
  show ?thesis unfolding e refilled_def by (rule status_at [OF assms(1)]) (simp add: same_restore_def restore_step_def)
qed

definition completed :: "nat \<Rightarrow> restore_obj \<Rightarrow> restore_obj" where
  "completed now R = with_status now ''Completed'' ''Restore completed successfully''
     ((restore_step R ''start-applications'' ''Completed'')\<lparr>rs_CompletedAt := Some now\<rparr>)"

lemma restart_at:
  fixes A D C
  defines "A' \<equiv> A\<lparr>kd_Replicas := app_replicas (kl_API C)\<rparr>" and "D' \<equiv> D\<lparr>kd_Replicas := app_replicas (kl_Dashboard C)\<rparr>"
  assumes "restore_at r c C R J A D s" "rs_Phase R = ''Starting''"
  shows "restore_at r c C (if kd_ReadyReplicas A < kd_Replicas A' \<or> kd_ReadyReplicas D < kd_Replicas D' then R else completed now R) J A' D'
    (kube_event (RestoreRun r answered now) s)"
proof -
  have c: "c = (fst r, rs_ClusterRef R)" using assms(3) by (simp add: restore_at_def)
  obtain s1 where d: "scaleUpApps answered c C s = (None, s1)" and a: "restore_at r c C R J A' D' s1"
    using scaleUp_at [OF assms(3)] unfolding A'_def D'_def by (metis prod.collapse)
  have k: "kd_ReadyReplicas A' = kd_ReadyReplicas A" "kd_ReadyReplicas D' = kd_ReadyReplicas D" by (simp_all add: A'_def D'_def)
  have ready: "appsReady answered c s1 \<longleftrightarrow> \<not> (kd_ReadyReplicas A < kd_Replicas A' \<or> kd_ReadyReplicas D < kd_Replicas D')"
    using a k by (auto simp: restore_at_def appsReady_def app_passes_def answered_def)
  have e: "kube_event (RestoreRun r answered now) s = (if appsReady answered c s1 then snd (updateRestoreStatus answered now r
      ((restore_step R ''start-applications'' ''Completed'')\<lparr>rs_CompletedAt := Some now\<rparr>) ''Completed'' ''Restore completed successfully'' s1) else s1)"
    using assms(4) d by (simp add: run_at [OF assms(3)] over_def fresh_def restart_apps_def Let_def c del: kube_event.simps)
  have "restore_at r c C (completed now R) J A' D' (snd (updateRestoreStatus answered now r
      ((restore_step R ''start-applications'' ''Completed'')\<lparr>rs_CompletedAt := Some now\<rparr>) ''Completed'' ''Restore completed successfully'' s1))"
    unfolding completed_def by (rule status_at [OF a]) (simp add: same_restore_def restore_step_def)
  with a show ?thesis unfolding e using ready by simp
qed

lemma over_at: "restore_at r c C R J A D s \<Longrightarrow> over R \<Longrightarrow> kube_event (RestoreRun r answered now) s = s"
  by (simp add: run_at del: kube_event.simps)

section \<open>Properties\<close>

definition demo_app :: cluster_app where
  "demo_app = \<lparr>ca_Replicas = 0, ca_Version = [], ca_Image = []\<rparr>"

definition demo_cluster :: kube_cluster where
  "demo_cluster = \<lparr>kl_Domain = ''example.org'', kl_API = demo_app, kl_Autoscaling = False, kl_Dashboard = demo_app\<lparr>ca_Replicas := 1\<rparr>,
     kl_RPCGateway = demo_app, kl_RPCEnabled = False, kl_Destination = \<lparr>bd_S3 = None, bd_GCS = None\<rparr>,
     kl_StatusAPI = no_status, kl_StatusDashboard = no_status, kl_StatusRPCGateway = no_status,
     kl_EndpointAPI = [], kl_EndpointDashboard = [], kl_EndpointRPCGateway = [], kl_Conditions = []\<rparr>"

definition demo_backup :: backup_obj where
  "demo_backup = \<lparr>bk_ClusterRef = ''c'', bk_Type = ''full'', bk_Components = [], bk_Destination = None, bk_Phase = '''', bk_StartedAt = None,
     bk_CompletedAt = None, bk_ComponentStatus = [], bk_Conditions = []\<rparr>"

definition demo_restore :: "string option \<Rightarrow> restore_obj" where
  "demo_restore b = \<lparr>rs_ClusterRef = ''c'', rs_BackupRef = b, rs_Source = None, rs_Components = [], rs_StopApplications = True,
     rs_VerifyBackup = True, rs_Phase = '''', rs_StartedAt = None, rs_CompletedAt = None, rs_Steps = [], rs_Conditions = []\<rparr>"

definition demo_deployment :: kube_deployment where
  "demo_deployment = \<lparr>kd_Replicas = 2, kd_Image = ''popsigner/control-plane:1.0.0'', kd_StatusReplicas = 2, kd_ReadyReplicas = 2\<rparr>"

definition demo_kube :: "string option \<Rightarrow> kube" where
  "demo_kube b = \<lparr>kb_Clusters = [(''n'', ''c'') \<mapsto> demo_cluster], kb_Backups = [(''n'', ''b'') \<mapsto> demo_backup],
     kb_Restores = [(''n'', ''r'') \<mapsto> demo_restore b], kb_Jobs = Map.empty,
     kb_Deployments = [(''n'', ''c-api'') \<mapsto> demo_deployment, (''n'', ''c-dashboard'') \<mapsto> demo_deployment],
     kb_Services = {}, kb_Autoscalers = {}\<rparr>"

abbreviation demo_steps :: "kevent list" where
  "demo_steps \<equiv> [RestoreRun (''n'', ''r'') answered 7, PodsMove (''n'', ''c-api'') 0 0, PodsMove (''n'', ''c-dashboard'') 0 0,
     RestoreRun (''n'', ''r'') answered 8, RestoreRun (''n'', ''r'') answered 9]"

lemmas demo_defs = demo_kube_def demo_restore_def demo_backup_def demo_cluster_def demo_app_def demo_deployment_def answered_def
lemmas restore_defs = Reconcile_restore_def begin_restore_def wait_stopped_def restore_data_def restart_apps_def runRestore_def
  updateRestoreStatus_def scaleDownApps_def scaleUpApps_def scale_app_def appsScaledDown_def appsReady_def app_passes_def set_replicas_def
  backup_refused_def kcreate_def job_name_def app_name_def app_replicas_def restore_step_def initializeSteps_def move_pods_def move_job_def
  IsNotFound_def Let_def
lemmas backup_defs = Reconcile_backup_def start_backup_def watch_backup_def updateBackupStatus_def buildBackupJob_def



text \<open>
  Property C32. A restore of a backup reads a backup whose own job has succeeded. Take a backup and a restore that names
  it, both not begun, and any run of the controllers, of the pods and of the Jobs, whatever calls
  fail: if the job of the restore is there, then the job of the backup has succeeded.
\<close>

theorem restore_from_completed_backup:
  assumes "kb_Backups s b = Some B" "bk_Phase B \<noteq> ''Completed''" "kb_Restores s r = Some R" "rs_BackupRef R = Some (snd b)" "fst b = fst r"
    "kb_Jobs s (job_name r ''-restore'') = None" "kb_Jobs (kube_run es s) (job_name r ''-restore'') \<noteq> None"
  shows "\<exists>J. kb_Jobs (kube_run es s) (job_name b ''-backup'') = Some J \<and> jb_Succeeded J > 0"
proof -
  have "chain_inv b r s" unfolding chain_inv_def using assms(1-6) by blast
  then have "chain_inv b r (kube_run es s)" by (rule chain_run)
  then show ?thesis using assms(7) by (auto simp: chain_inv_def job_done_def)
qed

abbreviation demo_backup_run :: "kevent list" where
  "demo_backup_run \<equiv> [BackupRun (''n'', ''b'') answered 3, JobMoves (''n'', ''b-backup'') 1 0, BackupRun (''n'', ''b'') answered 5]"

theorem restore_from_completed_backup_witness:
  "\<exists>J. kb_Jobs (kube_run (demo_backup_run @ demo_steps) (demo_kube (Some ''b''))) (''n'', ''b-backup'') = Some J \<and> jb_Succeeded J > 0"
proof -
  let ?es = "demo_backup_run @ demo_steps"
  have j: "kb_Jobs (kube_run ?es (demo_kube (Some ''b''))) (''n'', ''r-restore'') \<noteq> None"
    by (simp add: restore_defs backup_defs demo_defs)
  have n: "job_name (''n'', ''b'') ''-backup'' = (''n'', ''b-backup'')" "job_name (''n'', ''r'') ''-restore'' = (''n'', ''r-restore'')"
    by (simp_all add: job_name_def)
  have "\<exists>J. kb_Jobs (kube_run ?es (demo_kube (Some ''b''))) (job_name (''n'', ''b'') ''-backup'') = Some J \<and> jb_Succeeded J > 0"
  proof (rule restore_from_completed_backup [where B = demo_backup and R = "demo_restore (Some ''b'')"])
    show "kb_Jobs (kube_run ?es (demo_kube (Some ''b''))) (job_name (''n'', ''r'') ''-restore'') \<noteq> None" unfolding n by (rule j)
  qed (simp_all add: demo_kube_def demo_backup_def demo_restore_def)
  then show ?thesis unfolding n .
qed

lemma schedule_at:
  assumes "restore_at r c C R None A D s" "fresh R" "rs_StopApplications R"
    "kd_StatusReplicas A \<ge> 0" "ca_Replicas (kl_API C) \<ge> 0" "kd_StatusReplicas D \<ge> 0" "ca_Replicas (kl_Dashboard C) \<ge> 0"
  shows "\<exists>J A' D'. restore_at r c C (completed now (refilled now (emptied now (begun now R)))) J A' D' (kube_run (restore_schedule r c C now) s)
    \<and> kd_Replicas A' = app_replicas (kl_API C) \<and> kd_Replicas D' = app_replicas (kl_Dashboard C)"
proof -
  let ?e = "RestoreRun r answered now" and ?a = "app_replicas (kl_API C)" and ?d = "app_replicas (kl_Dashboard C)"
  let ?api = "app_name c ''api''" and ?dash = "app_name c ''dashboard''"
  let ?pods = "\<lambda>p q X. X\<lparr>kd_StatusReplicas := p, kd_ReadyReplicas := q\<rparr>"
  let ?A = "?pods 0 0 (A\<lparr>kd_Replicas := 0\<rparr>)" and ?D = "?pods 0 0 (D\<lparr>kd_Replicas := 0\<rparr>)"
  let ?R3 = "emptied now (begun now R)" and ?R5 = "refilled now (emptied now (begun now R))"
  let ?J = "(restore_job r ?R3 C)\<lparr>jb_Succeeded := 1, jb_Failed := 0\<rparr>"
  have pos: "?a > 0" "?d > 0" using assms(5,7) by (auto simp: app_replicas_def)
  have P: "rs_Phase (begun now R) = ''Stopping''" "rs_Phase ?R3 = ''Restoring''" "rs_Phase ?R5 = ''Starting''"
    by (simp_all add: begun_def emptied_def refilled_def with_status_def)
  define s1 where "s1 = kube_event ?e s"
  define s2 where "s2 = move_pods ?dash 0 0 (move_pods ?api 0 0 s1)"
  define s3 where "s3 = kube_event ?e s2"
  define s4 where "s4 = move_job (job_name r ''-restore'') 1 0 (kube_event ?e s3)"
  define s5 where "s5 = kube_event ?e s4"
  define s6 where "s6 = kube_event ?e s5"
  define s7 where "s7 = move_pods ?dash ?d ?d (move_pods ?api ?a ?a s6)"
  have 1: "restore_at r c C (begun now R) None (A\<lparr>kd_Replicas := 0\<rparr>) (D\<lparr>kd_Replicas := 0\<rparr>) s1"
    unfolding s1_def by (rule begin_at [OF assms(1-3)])
  have 2: "restore_at r c C (begun now R) None ?A ?D s2"
    unfolding s2_def by (intro pods_at 1) (use assms(4,6) in simp_all)
  have 3: "restore_at r c C ?R3 None ?A ?D s3" unfolding s3_def by (rule wait_at [OF 2 P(1)]) simp_all
  have 4: "restore_at r c C ?R3 (Some ?J) ?A ?D s4"
    unfolding s4_def by (rule job_at [OF create_at [OF 3 P(2)]]) (simp_all add: restore_job_def)
  have 5: "restore_at r c C ?R5 (Some ?J) ?A ?D s5" unfolding s5_def by (rule succeeded_at [OF 4 P(2)]) simp
  have 6: "restore_at r c C ?R5 (Some ?J) (?A\<lparr>kd_Replicas := ?a\<rparr>) (?D\<lparr>kd_Replicas := ?d\<rparr>) s6"
    using restart_at [OF 5 P(3), of now] pos unfolding s6_def by (simp del: kube_event.simps)
  have 7: "restore_at r c C ?R5 (Some ?J) (?pods ?a ?a (?A\<lparr>kd_Replicas := ?a\<rparr>)) (?pods ?d ?d (?D\<lparr>kd_Replicas := ?d\<rparr>)) s7"
    unfolding s7_def by (intro pods_at 6) (use pos in simp_all)
  have 8: "restore_at r c C (completed now ?R5) (Some ?J) ((?pods ?a ?a A)\<lparr>kd_Replicas := ?a\<rparr>) ((?pods ?d ?d D)\<lparr>kd_Replicas := ?d\<rparr>) (kube_event ?e s7)"
    using restart_at [OF 7 P(3), of now] by (simp del: kube_event.simps)
  have k: "kd_Replicas ((?pods ?a ?a A)\<lparr>kd_Replicas := ?a\<rparr>) = ?a" "kd_Replicas ((?pods ?d ?d D)\<lparr>kd_Replicas := ?d\<rparr>) = ?d" by simp_all
  have "kube_run (restore_schedule r c C now) s = kube_event ?e s7"
    by (simp add: restore_schedule_def s1_def s2_def s3_def s4_def s5_def s6_def s7_def)
  with 8 k show ?thesis by metis
qed



section \<open>What a restore does not rule out\<close>

text \<open>
  The controller of the cluster reconciles its applications every 30 seconds, also while a restore has stopped them: it
  asks for pods again, and the job of the restore runs beside them.
\<close>

lemma cluster_restarts_applications:
  "\<exists>J D. kb_Jobs (kube_run (demo_steps @ [AppsRun (''n'', ''c'') answered 9, PodsMove (''n'', ''c-api'') 2 2]) (demo_kube None)) (''n'', ''r-restore'') = Some J
     \<and> jb_Succeeded J = 0
     \<and> kb_Deployments (kube_run (demo_steps @ [AppsRun (''n'', ''c'') answered 9, PodsMove (''n'', ''c-api'') 2 2]) (demo_kube None)) (''n'', ''c-api'') = Some D
     \<and> kd_StatusReplicas D = 2"
  by (simp add: restore_defs demo_defs restore_job_def reconcile_apps_def reconcileAPI_def reconcileDashboard_def reconcileRPCGateway_def
      cleanupRPCGateway_def remove_object_def ensure_deployment_def ensure_service_def createOrUpdate_def create_deployment_def
      change_deployment_def IsAlreadyExists_def updateAppsStatus_def updateAPIStatus_def updateDashboardStatus_def
      updateRPCGatewayStatus_def look_up_app_def)

text \<open>A restore whose job fails once is over and leaves the applications without pods, although the job may be tried again.\<close>

lemma failed_restore_leaves_applications_down:
  "\<exists>R D. kb_Restores (kube_run (demo_steps @ [JobMoves (''n'', ''r-restore'') 0 1, RestoreRun (''n'', ''r'') answered 9]) (demo_kube None)) (''n'', ''r'') = Some R
     \<and> rs_Phase R = ''Failed''
     \<and> kb_Deployments (kube_run (demo_steps @ [JobMoves (''n'', ''r-restore'') 0 1, RestoreRun (''n'', ''r'') answered 9]) (demo_kube None)) (''n'', ''c-api'') = Some D
     \<and> kd_Replicas D = 0"
  by (simp add: restore_defs demo_defs restore_job_def)

text \<open>A Deployment that cannot be read counts as one without pods.\<close>

lemma unread_deployment_counts_as_down:
  "F (Poll KDeployment (snd (app_name c ''api''))) = Some e \<Longrightarrow> F (Poll KDeployment (snd (app_name c ''dashboard''))) = Some e' \<Longrightarrow>
    appsScaledDown F c s \<and> appsReady F c s"
  by (auto simp: appsScaledDown_def appsReady_def app_passes_def kget_def split: prod.splits)

text \<open>The object a backup writes is not under the path a restore reads, for any prefix and any names: the restore adds a slash.\<close>

lemma restore_path_misses_backup: "prefix @ ''openbao-'' @ time \<noteq> prefix @ ''/openbao-'' @ any"
  by simp

end
