(* ===== verification/Spec2Isabelle.thy ===== *)
theory Spec2Isabelle
  imports Prelude EthHex GoText EthRlp EthTx Secp256k1 PluginBackend PluginConcurrency BaoErrors BaoStore GoJson BaoClient
    BaoKeyring Migration Schedules CpAccess JsonRpc EthRpc EndToEnd CpBao KeyService KeyPlugin ApiKeyService RateLimit RpcRateLimit
    Accounts Organizations Deployments OpConfig OpStack Orchestration Archives ChainSigner CertAuthority Certificates Webhooks
    LiteKeys LiteRpc OperatorRuns
begin

text \<open>
  Verification development of POPSigner, a signing service for keys that never leave an OpenBao server.

  \<^bold>\<open>The program and how its parts interact.\<close>
  Keys live in the secrets engine \<open>plugin/secp256k1\<close> inside OpenBao. Two programs talk to it. The client library at the
  top of the repository gives Cosmos applications a keyring: each operation is an HTTP request to the engine and an
  update of a metadata file, and \<open>migration/\<close> moves keys between that keyring and a local one. The control plane,
  \<open>control-plane/internal\<close>, serves organizations: it keeps users, sessions, members, plans, API keys, certificates and the table
  of keys in a database, limits rates in Redis, and answers REST and JSON-RPC calls by asking the engine to sign. Deployments of
  chains, \<open>internal/bootstrap\<close>, run in the control plane and are themselves clients of the JSON-RPC endpoint: they get an API
  key, have their transactions signed, and store the artifacts a pipeline produces. The gateway \<open>cmd/rpc-gateway\<close> puts
  client certificates in front of that endpoint. \<open>cmd/popsigner-lite\<close> is a signer of its own for development, with its
  keys in memory and the same two interfaces. \<open>operator/\<close> runs all of it on Kubernetes: its controllers keep the applications
  of a cluster as specified and carry out backups and restores.

  \<^bold>\<open>Theories and what they model.\<close> A theory follows the order of its sources; a record or datatype has the fields or
  constructors of the source, and each function, handler or statement is one definition of the same name, with a suffix or prefix
  where Isabelle, or another part, has the name already. Paths without a root are below \<open>control-plane/internal\<close>.
  \<^item> Shared: \<open>Prelude\<close> (types, results, strings, big-endian numbers and the locales \<open>codec\<close>, \<open>invariant_machine\<close> and
    \<open>key_value\<close>), \<open>Schedules\<close> (goroutines that write slots of a slice), \<open>GoText\<close> and \<open>GoJson\<close> (what is used of \<open>encoding/base64\<close>,
    \<open>fmt\<close>, \<open>strings\<close> and \<open>encoding/json\<close>).
  \<^item> Ethereum: \<open>EthHex\<close> (\<open>ethereum/hex.go\<close>, the JSON of \<open>ethereum/types.go\<close>), \<open>EthRlp\<close> and \<open>EthTx\<close>
    (\<open>ethereum/transaction.go\<close>).
  \<^item> The engine: \<open>Secp256k1\<close> (\<open>crypto.go\<close>), \<open>PluginBackend\<close> (\<open>backend.go\<close> and the \<open>path_*.go\<close> handlers: storage and cache),
    \<open>PluginConcurrency\<close> (interleaved storage and cache accesses as a step relation).
  \<^item> The client library: \<open>BaoErrors\<close> (\<open>errors.go\<close>, \<open>types.go\<close>), \<open>BaoClient\<close> (\<open>bao_client.go\<close>), \<open>BaoStore\<close> (\<open>bao_store.go\<close>, system
    calls and crashes), \<open>BaoKeyring\<close> (\<open>bao_keyring.go\<close>), \<open>Migration\<close> (\<open>migration/\<close>).
  \<^item> Access to the control plane: \<open>CpAccess\<close> (\<open>models/api_key.go\<close>, \<open>service/key_access.go\<close>, \<open>middleware/api_key_auth.go\<close>,
    \<open>repository/key_repo.go\<close>), \<open>ApiKeyService\<close>, \<open>Accounts\<close> (users, sessions, logins), \<open>Organizations\<close> (members, namespaces,
    invitations), \<open>RateLimit\<close> and \<open>RpcRateLimit\<close> (\<open>middleware/ratelimit.go\<close>, \<open>rpc_ratelimit.go\<close>), \<open>CertAuthority\<close> and \<open>Certificates\<close>
    (\<open>openbao/pki.go\<close>, the certificate service, the authentication of the gateway).
  \<^item> Keys and signing in the control plane: \<open>CpBao\<close> (\<open>openbao/client.go\<close>), \<open>KeyService\<close> (\<open>service/key_service.go\<close>), \<open>JsonRpc\<close> and
    \<open>EthRpc\<close> (\<open>handler/jsonrpc\<close>), \<open>Webhooks\<close> (\<open>service/webhook_service.go\<close> and its tables).
  \<^item> Deployments: \<open>Deployments\<close> (\<open>bootstrap/repository\<close>, the state writer), \<open>OpConfig\<close> and \<open>OpStack\<close> (configuration, orchestrator and
    bundle of \<open>bootstrap/opstack\<close>), \<open>Orchestration\<close> (\<open>bootstrap/orchestrator\<close>, all stacks), \<open>Archives\<close> (unpacking contract artifacts),
    \<open>ChainSigner\<close> (the signers of \<open>bootstrap/opstack\<close> and \<open>bootstrap/nitro\<close>).
  \<^item> The local signer: \<open>LiteKeys\<close> (key store and REST interface), \<open>LiteRpc\<close> (JSON-RPC).
  \<^item> The operator: \<open>KubeApi\<close> (objects, conditions, calls of the API server), \<open>Restores\<close> (the controllers of backups and restores, the
    applications of the cluster controller), \<open>OperatorRuns\<close> (runs of these controllers).
  \<^item> Parts put together: \<open>EndToEnd\<close> (RPC methods, client, engine and cryptography), \<open>KeyPlugin\<close> (key service, client, engine),
    \<open>ChainSigner\<close> (deployment, RPC endpoint, engine).

  \<^bold>\<open>State, effects and errors.\<close>
  A Go function that returns an error is a sum, a pointer that may be nil or a panic an option. State is passed explicitly: the
  engine is its storage and cache, a database a record of the lists of rows its tables hold, with the keys, cascades and
  enumerations of the migrations checked by each statement; the store of the client library is its map next to what the disk shows
  and may show after a crash. Every storage operation or statement may fail, as an argument says (\<open>storage_io\<close>, \<open>faults\<close>, the
  predicates \<open>f\<close> on the queries of a call). A clock, fresh identifiers, random bytes and the order a Go map is walked in are arguments.
  What is behind a socket is a function on the state of an outside world that the caller threads through. Machine integers are words or
  integers with the range written out; Go's \<open>int\<close> is an integer where it only counts.

  \<^bold>\<open>Parameters and their laws.\<close> Code outside the repository is an argument, and what is relied on of it is named and shown to
  be satisfiable by a concrete instance in the witness of each property: the curve and the hashes (\<open>curve_ok\<close>, \<open>recover_ok\<close>,
  \<open>verify_ok\<close>), OpenBao's routing of requests to the engine (\<open>serves_sign_evm\<close>, \<open>serves_export\<close>, \<open>serves_keys\<close>), Argon2 (\<open>argon_ok\<close>),
  Redis (\<open>redis_ok\<close>, \<open>zredis_ok\<close>), texts of UUIDs (\<open>uuid_ok\<close>), the types and decoders of go-ethereum (\<open>codec_ok\<close>, \<open>reads_signed\<close>,
  \<open>signs_ok\<close>, \<open>hex_ok\<close>), bcrypt, the identity providers, PEM and X.509, the Cosmos SDK, the op-deployer pipeline (\<open>op_world\<close>), HMAC.

  \<^bold>\<open>What the lemmas show.\<close>
  \<^item> Formats: encoders are inverted by their decoders (interpretations of \<open>codec\<close>); the RLP encoder is the reference encoder, its
    decoder inverts it, and a signing payload determines every field of its transaction.
  \<^item> The engine: entries are never overwritten, keys that are not exportable never leave, the cache is invisible, and which of this
    survives concurrent requests; signatures verify and recover to their signer.
  \<^item> Whole paths: a transaction request or a text comes back signed by the key of the address asked for; nothing is signed without
    the scope, the organization and the binding of the caller; a deployment gets exactly its own transaction signed.
  \<^item> Services: invariants of the tables under every call and every failing query (keys and rows in step, one owner, quotas, seats,
    sessions, revoked keys and certificates stay out), failed operations leave things as they were, round trips of credentials.
  \<^item> Files and archives: crash safety of the store, import and export never lose a key, extraction stays inside its target.
  \<^item> Time: bounds of both rate limiters, retries and waits end, deployments complete when resumed, webhooks are disabled in time.
  \<^item> The operator: the job of a restore runs only while the applications are down, reads a backup whose job has succeeded, and an
    undisturbed restore is completed; what breaks these promises is shown by runs.

  \<^bold>\<open>Bounds and fuel.\<close>
  The RLP decoder has fuel twice the length of its input, enough because every level of nesting consumes a byte (\<open>rlp_tree\<close> shows that no
  encoding runs out). Resolving a path follows at most 40 links, as the kernel does. Loops with a given number of attempts recurse on
  it; the wait for a receipt is a function with a measure on the remaining ticks. Loops without a bound in the code are recursive
  over the list they walk.

  \<^bold>\<open>Not modelled.\<close>
  The HTTP and web handlers, the Go and Rust clients and popctl decode requests or format output around the services above; templates
  and resource builders of the operator are data, and its tenant controller, data layer and OpenBao phases mostly apply them; SQL, TLS, sockets, logging and metrics are represented by their effects. The
  pipelines of Nitro and of the bundle deployer, the wrappers around op-deployer and the compose and bundle files mostly drive
  third-party deployers and fill text templates. Memory, and with it the wiping of private keys, has no counterpart. An
  operation of a service runs as one step unless its theory says otherwise, so races between two calls of a service are outside,
  except where \<open>PluginConcurrency\<close>, \<open>Schedules\<close> and the pending steps of \<open>KeyService\<close> treat them.
\<close>

end
